(* ===== verification/Fused_Prelude.thy ===== *)
theory Fused_Prelude
  imports Main "HOL-Library.Word"
begin

unbundle bit_operations_syntax

text \<open>
  Shared vocabulary of the development: machine integer types, the ways in
  which the simulator can stop (as error values), the bind of the resulting
  error monad, simulation time, and generic facts about lists and words that
  several components use.

  A C++ function of the simulator that can fail becomes a function into
  \<open>'a result\<close>. The error values name the mechanism by which the C++ code stops:
  a failed \<open>assert\<close> or \<open>sc_assert\<close>, a call of \<open>exit(1)\<close>, a
  \<open>SC_REPORT_FATAL\<close>, a thrown standard exception, or an access outside the
  bounds of an array, a division by zero or another construct C++ leaves
  undefined (made explicit here), or a loop that never ends.
\<close>

section \<open>Machine integers and simulation time\<close>

type_synonym u8 = "8 word"
type_synonym u16 = "16 word"
type_synonym u32 = "32 word"
type_synonym u64 = "64 word"

text \<open>
  \<open>sc_time\<close> values are multiples of the simulator's time resolution; they are
  modelled by natural numbers of resolution steps.
\<close>

type_synonym sc_time = nat

section \<open>Results\<close>

datatype sim_error =
    Assertion_failed
  | Exit_success
  | Exit_failure
  | Aborted
  | Report_fatal
  | Invalid_argument
  | Runtime_error
  | Out_of_bounds
  | Out_of_range
  | Division_by_zero
  | Undefined_behaviour
  | Endless_loop

type_synonym 'a result = "sim_error + 'a"

named_theorems result_simps \<open>unfolding of the error monad\<close>
named_theorems step_defs \<open>definitions of the operations of a component\<close>

definition bind_r :: "'a result \<Rightarrow> ('a \<Rightarrow> 'b result) \<Rightarrow> 'b result" where
  "bind_r m f = (case m of Inl e \<Rightarrow> Inl e | Inr x \<Rightarrow> f x)"

definition check_r :: "bool \<Rightarrow> sim_error \<Rightarrow> 'a result \<Rightarrow> 'a result" where
  "check_r b e k = (if b then k else Inl e)"

definition ok :: "'a result \<Rightarrow> bool" where
  "ok m = (case m of Inl _ \<Rightarrow> False | Inr _ \<Rightarrow> True)"

lemma bind_r_simps [simp]:
  "bind_r (Inl e) f = Inl e"
  "bind_r (Inr x) f = f x"
  by (simp_all add: bind_r_def)

lemma check_r_simps [simp]:
  "check_r True e k = k"
  "check_r False e k = Inl e"
  by (simp_all add: check_r_def)

lemma ok_simps [simp]:
  "\<not> ok (Inl e)"
  "ok (Inr x)"
  by (simp_all add: ok_def)

lemma bind_r_eq_Inr:
  "bind_r m f = Inr y \<longleftrightarrow> (\<exists>x. m = Inr x \<and> f x = Inr y)"
  by (cases m) auto

lemma check_r_eq_Inr: "check_r b e k = Inr y \<longleftrightarrow> b \<and> k = Inr y"
  by (simp add: check_r_def)

lemma bind_r_assoc:
  "bind_r (bind_r m f) g = bind_r m (\<lambda>x. bind_r (f x) g)"
  by (cases m) auto

lemma bind_r_cong [fundef_cong]:
  assumes "m = m'" and "\<And>x. m' = Inr x \<Longrightarrow> f x = f' x"
  shows "bind_r m f = bind_r m' f'"
  using assms by (cases m') auto

lemma check_r_cong [fundef_cong]:
  assumes "b = b'" and "e = e'" and "b' \<Longrightarrow> k = k'"
  shows "check_r b e k = check_r b' e' k'"
  using assms by (cases b') auto

lemmas result_elims = bind_r_eq_Inr check_r_eq_Inr
declare result_elims [result_simps]

section \<open>Lists updated by index\<close>

text \<open>
  \<open>memcpy(&xs[i], ys, n)\<close> on an array modelled by a list, and the read in the
  other direction.
\<close>

definition overwrite :: "'a list \<Rightarrow> nat \<Rightarrow> 'a list \<Rightarrow> 'a list" where
  "overwrite xs i ys = take i xs @ ys @ drop (i + length ys) xs"

definition segment :: "'a list \<Rightarrow> nat \<Rightarrow> nat \<Rightarrow> 'a list" where
  "segment xs i n = take n (drop i xs)"

lemma length_overwrite [simp]:
  "i + length ys \<le> length xs \<Longrightarrow> length (overwrite xs i ys) = length xs"
  by (simp add: overwrite_def)

lemma length_segment [simp]:
  "i + n \<le> length xs \<Longrightarrow> length (segment xs i n) = n"
  by (simp add: segment_def)

lemma nth_segment [simp]:
  "i + n \<le> length xs \<Longrightarrow> k < n \<Longrightarrow> segment xs i n ! k = xs ! (i + k)"
  by (simp add: segment_def)

lemma nth_overwrite:
  assumes "i + length ys \<le> length xs" and "k < length xs"
  shows "overwrite xs i ys ! k =
    (if i \<le> k \<and> k < i + length ys then ys ! (k - i) else xs ! k)"
  using assms by (auto simp: overwrite_def nth_append min_def)

lemma segment_overwrite_same [simp]:
  assumes "i + length ys \<le> length xs"
  shows "segment (overwrite xs i ys) i (length ys) = ys"
  using assms by (simp add: segment_def overwrite_def)

lemma segment_all [simp]: "segment xs 0 (length xs) = xs"
  by (simp add: segment_def)

lemma overwrite_all [simp]: "length ys = length xs \<Longrightarrow> overwrite xs 0 ys = ys"
  by (simp add: overwrite_def)

lemma list_update_same_conv_nth:
  "i < length xs \<Longrightarrow> xs[i := y] ! j = (if i = j then y else xs ! j)"
  by (cases "i = j") simp_all

lemma sum_list_update_int:
  fixes xs :: "int list"
  shows "i < length xs \<Longrightarrow> sum_list (xs[i := v]) = sum_list xs - xs ! i + v"
  by (induction xs arbitrary: i) (auto split: nat.splits)

section \<open>Words\<close>

lemma unat_of_nat_lt [simp]:
  "n < 2 ^ LENGTH('a) \<Longrightarrow> unat (of_nat n :: 'a::len word) = n"
  by (simp add: unat_of_nat)

lemma word_and_mask_bound:
  fixes x :: "'a::len word"
  shows "unat (x AND y) \<le> unat y"
  by (metis word_and_le1 word_le_nat_alt)

lemma unat_lt_2p [simp]: "unat (x :: 'a::len word) < 2 ^ LENGTH('a)"
  by (rule unsigned_less)

lemma bit_u8_ge [simp]: "8 \<le> n \<Longrightarrow> \<not> bit (b :: u8) n"
  by (auto dest: bit_imp_le_length)

text \<open>Bits of the numerals \<open>2 ^ k - 1\<close> the code uses as masks.\<close>

lemma bit_mask_int:
  "bit (2 ^ k - 1 :: int) n \<longleftrightarrow> n < k"
  using bit_mask_iff [where 'a = int, of k n] by (simp add: mask_eq_exp_minus_1)

lemma bit_mask_numerals [simp]:
  "bit (0xff :: int) n \<longleftrightarrow> n < 8"
  "bit (0xffff :: int) n \<longleftrightarrow> n < 16"
  "bit (0xffffffff :: int) n \<longleftrightarrow> n < 32"
  using bit_mask_int [of 8 n] bit_mask_int [of 16 n] bit_mask_int [of 32 n] by simp_all

lemma masked_write_idem:
  fixes v :: "'a::len word"
  shows "(((v AND NOT m) OR (w AND m)) AND NOT m) OR (x AND m)
    = (v AND NOT m) OR (x AND m)"
  by (rule bit_eqI) (auto simp: bit_simps)

lemma masked_write_full [simp]:
  fixes v :: "'a::len word"
  shows "(v AND NOT (- 1)) OR (w AND (- 1)) = w"
  by simp

lemma unat_take_bit_mod: "unat (take_bit n (x :: 'a::len word)) = unat x mod 2 ^ n"
  by (simp only: unsigned_take_bit_eq take_bit_eq_mod [where 'a = nat])

lemma unat_drop_bit_div: "unat (drop_bit n (x :: 'a::len word)) = unat x div 2 ^ n"
  by (simp only: unat_drop_bit_eq drop_bit_eq_div [where 'a = nat])

lemma unat_and_mask: "unat (x AND mask n :: 'a::len word) = unat x mod 2 ^ n"
  by (simp only: unat_take_bit_mod flip: take_bit_eq_mask)

lemma unat_and_not_mask: "unat (x AND NOT (mask n) :: 'a::len word) = unat x - unat x mod 2 ^ n"
proof -
  have "(x AND mask n) AND (x AND NOT (mask n)) = 0"
    by (rule bit_eqI) (simp add: bit_simps)
  then have "(x AND mask n) + (x AND NOT (mask n)) = (x AND mask n) OR (x AND NOT (mask n))"
    by (rule disjunctive_add_eq_or)
  also have "\<dots> = x"
    by (rule bit_eqI) (auto simp: bit_simps)
  finally have "x AND NOT (mask n) = x - (x AND mask n)"
    by (simp add: algebra_simps)
  moreover have "x AND mask n \<le> x"
    by (metis and.commute word_and_le1)
  ultimately show ?thesis
    by (simp only: unat_sub unat_and_mask)
qed

lemma unat_ucast_mod:
  "unat (ucast (x :: 'a::len word) :: 'b::len word) = unat x mod 2 ^ LENGTH('b)"
  by (simp only: unsigned_ucast_eq take_bit_eq_mod [where 'a = nat])

lemma unat_ucast_u32_u64 [simp]: "unat (ucast (x :: u32) :: u64) = unat x"
proof -
  have "unat x < 2 ^ 32" using unat_lt_2p [of x] by simp
  then show ?thesis by (simp add: unat_ucast_mod)
qed

lemma unat_ucast_u64_u32: "unat x < 2 ^ 32 \<Longrightarrow> unat (ucast (x :: u64) :: u32) = unat x"
  by (simp add: unat_ucast_mod)

lemma ucast_u32_u64_u32 [simp]: "ucast (ucast (x :: u32) :: u64) = x"
  by (rule bit_word_eqI) (simp add: bit_simps)

text \<open>Signed readings and the top bit.\<close>

lemma sint_unat:
  fixes x :: "'a::len word"
  shows "sint x = int (unat x) - (if bit x (LENGTH('a) - 1) then 2 ^ LENGTH('a) else 0)"
proof -
  have "sint x = signed_take_bit (LENGTH('a) - 1) (uint x)"
    by (simp add: sint_uint)
  moreover have "take_bit (Suc (LENGTH('a) - 1)) (uint x) = uint x"
    by (simp add: bintr_uint)
  moreover have "bit (uint x) (LENGTH('a) - 1) = bit x (LENGTH('a) - 1)"
    by (simp add: bit_uint_iff)
  ultimately show ?thesis
    by (simp add: signed_take_bit_code Let_def push_bit_eq_mult)
qed

lemma bit_top: "bit x (LENGTH('a::len) - 1) \<longleftrightarrow> 2 ^ (LENGTH('a) - 1) \<le> unat (x :: 'a word)"
proof -
  let ?n = "LENGTH('a) - 1"
  have "unat x < 2 ^ Suc ?n" using unat_lt_2p [of x] by simp
  then have q: "unat x div 2 ^ ?n < 2" by (intro less_mult_imp_div_less) (simp only: power_Suc)
  have "bit x ?n = odd (unat x div 2 ^ ?n)"
    using bit_iff_odd [of "unat x" ?n] by (simp add: bit_unsigned_iff)
  also have "\<dots> = (1 \<le> unat x div 2 ^ ?n)" using q by (cases "unat x div 2 ^ ?n") auto
  also have "\<dots> = (2 ^ ?n \<le> unat x)" by (simp add: Suc_le_eq div_greater_zero_iff)
  finally show ?thesis .
qed

end
