(* ===== verification/Endian.thy ===== *)
theory Endian
  imports Fused_Prelude
begin

unbundle bit_operations_syntax

text \<open>
  \<open>utilities/Utilities.cpp\<close>: packing bytes into words and the conversions between
  host and target byte order. The host is little-endian (the simulator's x86 build),
  the target's word size and byte order are build-time macros, gathered here in the
  record \<open>target\<close>; \<open>msp430\<close> and \<open>cortex_m0\<close> are the two configurations of the
  build files. In \<open>htots\<close> the source leaves the two upper bytes of a stack array
  uninitialised; they are the parameter \<open>junk\<close>.
\<close>

datatype endianness = Target_big | Target_little

record target =
  word_size :: nat
  endian :: endianness

definition msp430 :: target where
  "msp430 = \<lparr>word_size = 2, endian = Target_little\<rparr>"

definition cortex_m0 :: target where
  "cortex_m0 = \<lparr>word_size = 4, endian = Target_little\<rparr>"

section \<open>Byte views of host words\<close>

definition host_byte :: "u32 \<Rightarrow> nat \<Rightarrow> u8" where
  "host_byte v i = ucast (drop_bit (8 * i) v)"

definition host_load32 :: "u8 \<Rightarrow> u8 \<Rightarrow> u8 \<Rightarrow> u8 \<Rightarrow> u32" where
  "host_load32 b0 b1 b2 b3 =
     ucast b0 OR push_bit 8 (ucast b1) OR push_bit 16 (ucast b2) OR push_bit 24 (ucast b3)"

section \<open>Packing and unpacking\<close>

fun pack_loop :: "u8 list \<Rightarrow> u64 \<Rightarrow> u64" where
  "pack_loop [] res = res"
| "pack_loop (d # ds) res = pack_loop ds (push_bit 8 res OR ucast d)"

definition packBytes :: "u8 list \<Rightarrow> nat \<Rightarrow> u64 result" where
  "packBytes data width =
     check_r (width < 8) Assertion_failed
       (check_r (width \<le> length data) Out_of_bounds
         (Inr (pack_loop (take width data) 0)))"

fun unpack_loop :: "nat \<Rightarrow> u64 \<Rightarrow> u8 list \<Rightarrow> u8 list" where
  "unpack_loop 0 val data = data"
| "unpack_loop (Suc i) val data = unpack_loop i (drop_bit 8 val) (data[i := ucast val])"

definition unpackBytes :: "u8 list \<Rightarrow> u64 \<Rightarrow> nat \<Rightarrow> u8 list result" where
  "unpackBytes data val width =
     check_r (width < 8) Assertion_failed
       (check_r (width \<le> length data) Out_of_bounds
         (Inr (unpack_loop width val data)))"

section \<open>Byte order conversions\<close>

definition htots :: "target \<Rightarrow> u16 \<Rightarrow> u32 \<Rightarrow> u32" where
  "htots t junk hostVal =
     (let j0 = ucast junk; j1 = ucast (drop_bit 8 junk) in
      case endian t of
        Target_big \<Rightarrow> host_load32 (ucast hostVal) (ucast (hostVal div 256)) j0 j1
      | Target_little \<Rightarrow> host_load32 (ucast (hostVal div 256)) (ucast hostVal) j0 j1)"

definition ttohs :: "target \<Rightarrow> u32 \<Rightarrow> u32" where
  "ttohs t targetVal =
     (case endian t of
        Target_big \<Rightarrow> ucast (host_byte targetVal 1) * 256 + ucast (host_byte targetVal 0)
      | Target_little \<Rightarrow> ucast (host_byte targetVal 0) * 256 + ucast (host_byte targetVal 1))"

definition htotl :: "target \<Rightarrow> u16 \<Rightarrow> u32 \<Rightarrow> u32" where
  "htotl t junk hostVal =
     (if word_size t = 2 then htots t junk hostVal
      else case endian t of
        Target_big \<Rightarrow>
          host_load32 (ucast hostVal) (ucast (hostVal div 256))
            (ucast (hostVal div 256 div 256)) (ucast (hostVal div 256 div 256 div 256))
      | Target_little \<Rightarrow>
          host_load32 (ucast (hostVal div 256 div 256 div 256)) (ucast (hostVal div 256 div 256))
            (ucast (hostVal div 256)) (ucast hostVal))"

definition ttohl :: "target \<Rightarrow> u32 \<Rightarrow> u32" where
  "ttohl t targetVal =
     (if word_size t = 2 then ttohs t targetVal
      else
        let b = (\<lambda>i. ucast (host_byte targetVal i) :: u32) in
        case endian t of
          Target_big \<Rightarrow> ((b 3 * 256 + b 2) * 256 + b 1) * 256 + b 0
        | Target_little \<Rightarrow> ((b 0 * 256 + b 1) * 256 + b 2) * 256 + b 3)"

definition setBit :: "target \<Rightarrow> nat \<Rightarrow> u32 \<Rightarrow> bool \<Rightarrow> u32 result" where
  "setBit t bitIdx w value =
     check_r (bitIdx < word_size t * 8) Assertion_failed
       (Inr ((w AND NOT (push_bit bitIdx 1)) OR push_bit bitIdx (of_bool value)))"

section \<open>Lemmas\<close>

lemma u32_div_256: "(v :: u32) div 256 = drop_bit 8 v"
  by (simp add: drop_bit_eq_div)

lemma u32_horner: "(h :: u32) * 256 + ucast (b :: u8) = push_bit 8 h OR ucast b"
proof -
  have "h * 256 = push_bit 8 h"
    by (simp add: push_bit_eq_mult)
  moreover have "push_bit 8 h AND (ucast b :: u32) = 0"
    by (rule bit_eqI) (auto simp: bit_simps dest: bit_imp_le_length)
  ultimately show ?thesis
    by (simp add: disjunctive_add_eq_or)
qed

text \<open>A word is its four bytes, and each byte can be read back.\<close>

lemma host_byte_load:
  "host_byte (host_load32 b0 b1 b2 b3) 0 = b0"
  "host_byte (host_load32 b0 b1 b2 b3) (Suc 0) = b1"
  "host_byte (host_load32 b0 b1 b2 b3) 2 = b2"
  "host_byte (host_load32 b0 b1 b2 b3) 3 = b3"
  by (rule bit_eqI; auto simp: host_byte_def host_load32_def bit_simps dest: bit_imp_le_length)+

lemma host_load32_bytes:
  "host_load32 (ucast v) (ucast (drop_bit 8 v)) (ucast (drop_bit 16 v)) (ucast (drop_bit 24 v)) = v"
proof (rule bit_word_eqI)
  fix n
  assume "n < LENGTH(32)"
  then consider "n < 8" | "8 \<le> n" "n < 16" | "16 \<le> n" "n < 24" | "24 \<le> n" "n < 32"
    by fastforce
  then show "bit (host_load32 (ucast v) (ucast (drop_bit 8 v)) (ucast (drop_bit 16 v))
      (ucast (drop_bit 24 v))) n = bit v n"
    by cases (auto simp: host_load32_def bit_simps)
qed

lemma host_byte_bytes:
  "host_load32 (host_byte v 0) (host_byte v (Suc 0)) (host_byte v 2) (host_byte v 3) = v"
  using host_load32_bytes [of v] by (simp add: host_byte_def)

lemma host_load32_horner:
  "((ucast b3 * 256 + ucast b2) * 256 + ucast b1) * 256 + ucast b0 = host_load32 b0 b1 b2 b3"
  unfolding u32_horner host_load32_def
  by (rule bit_eqI) (auto simp: bit_simps)

lemma host_load16_horner:
  "(ucast (b1 :: u8) :: u32) * 256 + ucast b0 = host_load32 b0 b1 0 0"
  unfolding u32_horner host_load32_def
  by (rule bit_eqI) (auto simp: bit_simps)

lemma host_load16_bytes:
  "host_load32 (ucast v) (ucast (drop_bit 8 v)) 0 0 = take_bit 16 v"
  by (rule bit_eqI) (auto simp: host_load32_def bit_simps)

lemma ttohs_htots: "ttohs t (htots t junk v) = take_bit 16 v"
  by (cases "endian t")
    (simp_all add: ttohs_def htots_def Let_def u32_div_256 host_byte_load host_load16_horner
      host_load16_bytes)

lemma ttohl_htotl: "word_size t \<noteq> 2 \<Longrightarrow> ttohl t (htotl t junk v) = v"
  unfolding ttohl_def htotl_def Let_def u32_div_256 host_load32_horner
  by (cases "endian t") (simp_all add: host_byte_load host_load32_bytes host_byte_bytes)

section \<open>Round trip of packing\<close>

lemma length_unpack_loop [simp]: "length (unpack_loop w v data) = length data"
  by (induction w arbitrary: v data) simp_all

lemma drop_unpack_loop: "drop w (unpack_loop w v data) = drop w data"
proof (induction w arbitrary: v data)
  case 0
  then show ?case by simp
next
  case (Suc w)
  have "drop (Suc w) (unpack_loop w (drop_bit 8 v) (data[w := ucast v]))
      = drop 1 (drop w (unpack_loop w (drop_bit 8 v) (data[w := ucast v])))"
    by simp
  also have "\<dots> = drop (Suc w) (data[w := ucast v])"
    by (simp only: Suc.IH) simp
  finally show ?case by simp
qed

lemma take_unpack_loop_Suc:
  assumes "Suc w \<le> length data"
  shows "take (Suc w) (unpack_loop (Suc w) v data)
    = take w (unpack_loop w (drop_bit 8 v) (data[w := ucast v])) @ [ucast v]"
proof -
  let ?u = "unpack_loop w (drop_bit 8 v) (data[w := ucast v])"
  have "?u ! w = hd (drop w ?u)"
    using assms by (simp add: hd_drop_conv_nth)
  also have "\<dots> = ucast v"
    using assms by (simp add: drop_unpack_loop hd_drop_conv_nth)
  finally show ?thesis
    using assms by (simp add: take_Suc_conv_app_nth)
qed

lemma pack_loop_snoc: "pack_loop (ds @ [d]) r = push_bit 8 (pack_loop ds r) OR ucast d"
  by (induction ds arbitrary: r) simp_all

lemma pack_unpack_loop:
  "w \<le> length data \<Longrightarrow> pack_loop (take w (unpack_loop w v data)) 0 = take_bit (8 * w) v"
proof (induction w arbitrary: v data)
  case 0
  then show ?case by simp
next
  case (Suc w)
  have "pack_loop (take (Suc w) (unpack_loop (Suc w) v data)) 0
      = push_bit 8 (take_bit (8 * w) (drop_bit 8 v)) OR ucast (ucast v :: u8)"
    unfolding take_unpack_loop_Suc [OF Suc.prems] pack_loop_snoc
    using Suc.prems by (simp add: Suc.IH)
  also have "\<dots> = take_bit (8 * Suc w) v"
    by (rule bit_eqI) (auto simp: bit_simps dest: bit_imp_le_length)
  finally show ?case .
qed

lemma packBytes_unpackBytes:
  assumes "unpackBytes data v w = Inr out"
  shows "packBytes out w = Inr (take_bit (8 * w) v)"
  using assms by (auto simp: unpackBytes_def packBytes_def check_r_eq_Inr pack_unpack_loop)

text \<open>
  What the 16-bit and 32-bit bus accesses use: the bytes in memory order of a host
  value, and back. Only the two low bytes of \<open>htots\<close> reach the buffer, so the
  uninitialised ones do not matter.
\<close>

lemma unpack2: "unpackBytes [x, y] v 2 = Inr [ucast (drop_bit 8 v), ucast v]"
  by (simp add: unpackBytes_def numeral_2_eq_2)

lemma unpack4:
  "unpackBytes [x, y, z, u] v 4 =
     Inr [ucast (drop_bit 24 v), ucast (drop_bit 16 v), ucast (drop_bit 8 v), ucast v]"
  by (simp add: unpackBytes_def eval_nat_numeral)

lemma pack2: "packBytes (b0 # b1 # bs) 2 = Inr (push_bit 8 (ucast b0) OR ucast b1)"
  by (simp add: packBytes_def numeral_2_eq_2)

lemma pack4:
  "packBytes (b0 # b1 # b2 # b3 # bs) 4 =
     Inr (push_bit 8 (push_bit 8 (push_bit 8 (ucast b0) OR ucast b1) OR ucast b2) OR ucast b3)"
  by (simp add: packBytes_def eval_nat_numeral)

lemma unpack_htots_little:
  assumes "endian t = Target_little"
  shows "unpackBytes [x, y] (ucast (htots t junk v)) 2 = Inr [host_byte v 0, host_byte v (Suc 0)]"
proof -
  have "ucast (drop_bit 8 (ucast (htots t junk v) :: u64)) = host_byte v 0"
    using assms unfolding htots_def Let_def u32_div_256 endianness.case
    by (intro bit_word_eqI) (auto simp: host_byte_def host_load32_def bit_simps dest: bit_imp_le_length)
  moreover have "ucast (ucast (htots t junk v) :: u64) = host_byte v (Suc 0)"
    using assms unfolding htots_def Let_def u32_div_256 endianness.case
    by (intro bit_word_eqI) (auto simp: host_byte_def host_load32_def bit_simps dest: bit_imp_le_length)
  ultimately show ?thesis by (simp add: unpack2)
qed

lemma ttohs_pack_little:
  assumes "endian t = Target_little"
  shows "ttohs t (ucast (push_bit 8 (ucast b0) OR ucast b1 :: u64)) = host_load32 b0 b1 0 0"
proof -
  have "host_byte (ucast (push_bit 8 (ucast b0) OR ucast b1 :: u64)) 0 = b1"
    and "host_byte (ucast (push_bit 8 (ucast b0) OR ucast b1 :: u64)) (Suc 0) = b0"
    by (auto intro!: bit_word_eqI simp: host_byte_def bit_simps dest: bit_imp_le_length)
  with assms show ?thesis
    by (simp add: ttohs_def host_load16_horner)
qed

text \<open>Packing the bytes that \<open>unpackBytes\<close> wrote returns the value, cut to the number
  of bytes, and \<open>unpackBytes\<close> leaves the bytes behind the field alone.\<close>

lemma unpack_pack_roundtrip:
  assumes "unpackBytes data v w = Inr out"
  shows "packBytes out w = Inr (take_bit (8 * w) v) \<and> drop w out = drop w data"
  using packBytes_unpackBytes [OF assms] assms
  by (auto simp: unpackBytes_def check_r_eq_Inr drop_unpack_loop)

lemma unpack_pack_roundtrip_witness:
  "unpackBytes [0, 0, 9] 0x12345 2 = Inr [0x23, 0x45, 9]
   \<and> packBytes [0x23, 0x45, 9] 2 = Inr (0x2345 :: u64) \<and> drop 2 [0x23, 0x45, 9 :: u8] = [9]"
proof -
  have u: "unpackBytes [0, 0, 9] 0x12345 2 = Inr [0x23, 0x45, 9]"
    by code_simp
  have "take_bit (8 * 2) (0x12345 :: u64) = 0x2345" by code_simp
  with unpack_pack_roundtrip [OF u] u show ?thesis by simp
qed

text \<open>The conversions between host and target byte order are inverse to each other for
  both byte orders: on 16-bit halves always (the bytes \<open>htots\<close> leaves uninitialised do not
  matter), on 32-bit values for a target whose word is not 16 bits.\<close>

lemma byte_order_roundtrip:
  "ttohs t (htots t junk v) = take_bit 16 v
   \<and> ttohl t (htotl t junk v) = (if word_size t = 2 then take_bit 16 v else v)"
  using ttohl_htotl [of t junk v] by (simp add: ttohs_htots) (simp add: ttohl_def htotl_def ttohs_htots)

end
