(* ===== verification/Register_File.thy ===== *)
theory Register_File
  imports Endian
begin

unbundle bit_operations_syntax

text \<open>
  \<open>mcu/RegisterFile.hpp\<close> and \<open>mcu/RegisterFile.cpp\<close>: the register file every
  peripheral keeps its registers in. A register file is the vector \<open>m_regs\<close>, here a
  list; a lookup finds the first register with the address. An unknown address ends
  the simulator (\<open>exit(1)\<close>), an access mode violation fails an assertion.

  The lemmas give the word view (\<open>reg_at\<close>: what a write changes, what it keeps)
  and, for a 16-bit little-endian target, the byte view of a block of plain
  registers: a buffer written over the bus is what a later read returns, whatever
  its alignment and length.
\<close>

section \<open>Registers\<close>

datatype access_mode = READ | WRITE | READ_WRITE

record register =
  reg_addr :: nat
  reg_val :: u32
  resetValue :: u32
  writeMask :: u32
  access :: access_mode

type_synonym register_file = "register list"

definition mk_register :: "nat \<Rightarrow> u32 \<Rightarrow> access_mode \<Rightarrow> u32 \<Rightarrow> register" where
  "mk_register address rv am wm =
     \<lparr>reg_addr = address, reg_val = rv, resetValue = rv,
      writeMask = wm, access = am\<rparr>"

definition register_reset :: "register \<Rightarrow> register" where
  "register_reset r = r\<lparr>reg_val := resetValue r\<rparr>"

definition rf_reset :: "register_file \<Rightarrow> register_file" where
  "rf_reset m_regs = map register_reset m_regs"

definition addRegister :: "register_file \<Rightarrow> nat \<Rightarrow> u32 \<Rightarrow> access_mode \<Rightarrow> u32 \<Rightarrow> register_file" where
  "addRegister m_regs address rv am wm = m_regs @ [mk_register address rv am wm]"

definition rf_size :: "register_file \<Rightarrow> nat" where
  "rf_size m_regs = length m_regs"

section \<open>Word operations\<close>

definition reg_at :: "register_file \<Rightarrow> nat \<Rightarrow> register option" where
  "reg_at m_regs address = List.find (\<lambda>r. reg_addr r = address) m_regs"

definition rf_find :: "register_file \<Rightarrow> nat \<Rightarrow> register result" where
  "rf_find m_regs address =
     (case reg_at m_regs address of None \<Rightarrow> Inl Exit_failure | Some r \<Rightarrow> Inr r)"

definition rf_contains :: "register_file \<Rightarrow> nat \<Rightarrow> bool" where
  "rf_contains m_regs address = (reg_at m_regs address \<noteq> None)"

fun set_first :: "nat \<Rightarrow> (register \<Rightarrow> register) \<Rightarrow> register_file \<Rightarrow> register_file" where
  "set_first address f [] = []"
| "set_first address f (r # rs) =
     (if reg_addr r = address then f r # rs else r # set_first address f rs)"

definition readable :: "register \<Rightarrow> bool" where
  "readable r = (access r = READ \<or> access r = READ_WRITE)"

definition writable :: "register \<Rightarrow> bool" where
  "writable r = (access r = WRITE \<or> access r = READ_WRITE)"

definition write_reg :: "u32 \<Rightarrow> bool \<Rightarrow> register \<Rightarrow> register" where
  "write_reg v force r =
     (if \<not> force
      then r\<lparr>reg_val := (reg_val r AND NOT (writeMask r)) OR (v AND writeMask r)\<rparr>
      else r\<lparr>reg_val := v\<rparr>)"

definition rf_write :: "register_file \<Rightarrow> nat \<Rightarrow> u32 \<Rightarrow> bool \<Rightarrow> register_file result" where
  "rf_write m_regs address v force =
     (case reg_at m_regs address of
        None \<Rightarrow> Inl Exit_failure
      | Some r \<Rightarrow>
          check_r (writable r \<or> force) Assertion_failed
            (Inr (set_first address (write_reg v force) m_regs)))"

definition rf_read :: "register_file \<Rightarrow> nat \<Rightarrow> u32 result" where
  "rf_read m_regs address =
     bind_r (rf_find m_regs address) (\<lambda>r.
       check_r (readable r) Assertion_failed (Inr (reg_val r)))"

definition rf_testBit :: "target \<Rightarrow> register_file \<Rightarrow> nat \<Rightarrow> nat \<Rightarrow> bool result" where
  "rf_testBit t m_regs addr n =
     check_r (n < word_size t * 8) Assertion_failed
       (bind_r (rf_read m_regs addr) (\<lambda>v. Inr (v AND push_bit n 1 > 0)))"

definition rf_testBitMask :: "register_file \<Rightarrow> nat \<Rightarrow> u32 \<Rightarrow> bool result" where
  "rf_testBitMask m_regs address m =
     bind_r (rf_read m_regs address) (\<lambda>v. Inr (v AND m > 0))"

definition rf_setBit :: "target \<Rightarrow> register_file \<Rightarrow> nat \<Rightarrow> nat \<Rightarrow> bool \<Rightarrow> register_file result" where
  "rf_setBit t m_regs address b force =
     check_r (b < word_size t * 8) Assertion_failed
       (bind_r (rf_find m_regs address) (\<lambda>r.
          check_r (writable r \<or> force) Assertion_failed
            (bind_r (rf_read m_regs address) (\<lambda>v.
               rf_write m_regs address (v OR push_bit b 1) force))))"

definition rf_setBitMask :: "register_file \<Rightarrow> nat \<Rightarrow> u32 \<Rightarrow> bool \<Rightarrow> register_file result" where
  "rf_setBitMask m_regs address m force =
     bind_r (rf_read m_regs address) (\<lambda>v. rf_write m_regs address (v OR m) force)"

definition rf_clearBitMask :: "register_file \<Rightarrow> nat \<Rightarrow> u32 \<Rightarrow> bool \<Rightarrow> register_file result" where
  "rf_clearBitMask m_regs address m force =
     bind_r (rf_read m_regs address) (\<lambda>v. rf_write m_regs address (v AND NOT m) force)"

definition rf_clearBit :: "target \<Rightarrow> register_file \<Rightarrow> nat \<Rightarrow> nat \<Rightarrow> bool \<Rightarrow> register_file result" where
  "rf_clearBit t m_regs address b force =
     check_r (b < word_size t * 8) Assertion_failed
       (bind_r (rf_find m_regs address) (\<lambda>r.
          check_r (writable r \<or> force) Assertion_failed
            (rf_write m_regs address (reg_val r AND NOT (push_bit b 1)) force)))"

definition rf_increment :: "register_file \<Rightarrow> nat \<Rightarrow> bool \<Rightarrow> register_file result" where
  "rf_increment m_regs address force =
     bind_r (rf_find m_regs address) (\<lambda>r.
       check_r (access r = READ_WRITE \<or> force) Assertion_failed
         (rf_write m_regs address (reg_val r + 1) force))"

section \<open>Byte and buffer operations\<close>

definition set_host_byte :: "u32 \<Rightarrow> nat \<Rightarrow> u8 \<Rightarrow> u32" where
  "set_host_byte v i b =
     (v AND NOT (push_bit (8 * i) 0xff)) OR push_bit (8 * i) (ucast b)"

definition rf_writeByte :: "target \<Rightarrow> register_file \<Rightarrow> nat \<Rightarrow> u8 \<Rightarrow> bool \<Rightarrow> register_file result" where
  "rf_writeByte t m_regs address v force =
     (let ofs = address mod word_size t; addrAligned = address - ofs in
      bind_r (rf_read m_regs addrAligned) (\<lambda>tmp.
        rf_write m_regs addrAligned (set_host_byte tmp ofs v) force))"

definition rf_readByte :: "target \<Rightarrow> register_file \<Rightarrow> nat \<Rightarrow> u8 result" where
  "rf_readByte t m_regs address =
     (let ofs = address mod word_size t; addrAligned = address - ofs in
      bind_r (rf_find m_regs addrAligned) (\<lambda>r.
        check_r (readable r) Assertion_failed (Inr (host_byte (reg_val r) ofs))))"

text \<open>
  The buffer forms. The unaligned branch of the write passes no \<open>force\<close> argument to
  \<open>writeByte\<close>, which then defaults to false. The uninitialised bytes of \<open>htots\<close> are
  taken to be 0: \<open>unpackBytes\<close> drops them.
\<close>

fun rf_write_buf :: "target \<Rightarrow> register_file \<Rightarrow> nat \<Rightarrow> u8 list \<Rightarrow> bool \<Rightarrow> register_file result" where
  "rf_write_buf t m_regs address [] force = Inr m_regs"
| "rf_write_buf t m_regs address (b # bs) force =
     (let len = length (b # bs) in
      if len \<ge> 4 \<and> address mod 4 = 0 \<and> word_size t = 4 then
        bind_r (packBytes (b # bs) 4) (\<lambda>tmp.
          bind_r (rf_write m_regs address (ttohl t (ucast tmp)) force) (\<lambda>m_regs'.
            rf_write_buf t m_regs' (address + 4) (drop 4 (b # bs)) force))
      else if len \<ge> 2 \<and> address mod 2 = 0 then
        bind_r (packBytes (b # bs) 2) (\<lambda>tmp.
          bind_r (rf_write m_regs address (ttohs t (ucast tmp)) force) (\<lambda>m_regs'.
            rf_write_buf t m_regs' (address + 2) (drop 2 (b # bs)) force))
      else
        bind_r (rf_writeByte t m_regs address b False) (\<lambda>m_regs'.
          rf_write_buf t m_regs' (address + 1) bs force))"

fun rf_read_buf :: "target \<Rightarrow> register_file \<Rightarrow> nat \<Rightarrow> nat \<Rightarrow> u8 list result" where
  "rf_read_buf t m_regs address len =
     (if len = 0 then Inr []
      else if len \<ge> 4 \<and> address mod 4 = 0 \<and> word_size t = 4 then
        bind_r (rf_read m_regs address) (\<lambda>v.
          bind_r (unpackBytes [0, 0, 0, 0] (ucast (htotl t 0 v)) 4) (\<lambda>out.
            bind_r (rf_read_buf t m_regs (address + 4) (len - 4)) (\<lambda>rest.
              Inr (out @ rest))))
      else if len \<ge> 2 \<and> address mod 2 = 0 then
        bind_r (rf_read m_regs address) (\<lambda>v.
          bind_r (unpackBytes [0, 0] (ucast (htots t 0 v)) 2) (\<lambda>out.
            bind_r (rf_read_buf t m_regs (address + 2) (len - 2)) (\<lambda>rest.
              Inr (out @ rest))))
      else
        bind_r (rf_readByte t m_regs address) (\<lambda>b.
          bind_r (rf_read_buf t m_regs (address + 1) (len - 1)) (\<lambda>rest.
            Inr (b # rest))))"

declare rf_read_buf.simps [simp del] rf_write_buf.simps(2) [simp del]

section \<open>The word view\<close>

lemma write_reg_fields [simp]:
  "reg_addr (write_reg v f r) = reg_addr r"
  "resetValue (write_reg v f r) = resetValue r"
  "writeMask (write_reg v f r) = writeMask r"
  "access (write_reg v f r) = access r"
  by (simp_all add: write_reg_def)

lemma write_reg_val:
  "reg_val (write_reg v f r) =
    (if f then v else (reg_val r AND NOT (writeMask r)) OR (v AND writeMask r))"
  by (simp add: write_reg_def)

lemma write_reg_plain [simp]: "writeMask r = - 1 \<Longrightarrow> reg_val (write_reg v f r) = v"
  by (simp add: write_reg_def)

lemma readable_write_reg [simp]: "readable (write_reg v f r) = readable r"
  by (simp add: readable_def)

lemma writable_write_reg [simp]: "writable (write_reg v f r) = writable r"
  by (simp add: writable_def)

lemma reg_at_addr: "reg_at rf a = Some r \<Longrightarrow> reg_addr r = a"
  by (auto simp: reg_at_def find_Some_iff)

lemma reg_at_Nil [simp]: "reg_at [] a = None"
  by (simp add: reg_at_def)

lemma reg_at_Cons: "reg_at (r # rs) a = (if reg_addr r = a then Some r else reg_at rs a)"
  by (simp add: reg_at_def)

lemma reg_at_set_first:
  assumes "\<And>r. reg_addr (f r) = reg_addr r"
  shows "reg_at (set_first a f rs) a' =
    (if a' = a then map_option f (reg_at rs a) else reg_at rs a')"
  using assms by (induction rs) (auto simp: reg_at_Cons)

lemma reg_at_rf_reset: "reg_at (rf_reset rf) a = map_option register_reset (reg_at rf a)"
  by (induction rf) (auto simp: rf_reset_def reg_at_Cons register_reset_def)

lemma rf_write_view:
  assumes "rf_write rf a v f = Inr rf'"
  shows "reg_at rf' = (reg_at rf)(a := map_option (write_reg v f) (reg_at rf a))"
  using assms
  by (auto simp: rf_write_def check_r_eq_Inr reg_at_set_first split: option.splits)

lemma rf_write_ok_iff:
  "ok (rf_write rf a v f) \<longleftrightarrow> (\<exists>r. reg_at rf a = Some r \<and> (writable r \<or> f))"
  by (auto simp: rf_write_def check_r_def split: option.splits)

lemma rf_read_eq: "rf_read rf a = Inr v \<longleftrightarrow> (\<exists>r. reg_at rf a = Some r \<and> readable r \<and> reg_val r = v)"
  by (auto simp: rf_read_def rf_find_def result_elims split: option.splits)

lemma rf_write_rf_read_same:
  assumes "rf_write rf a v f = Inr rf'" and "reg_at rf a = Some r" and "readable r"
  shows "rf_read rf' a =
    Inr (if f then v else (reg_val r AND NOT (writeMask r)) OR (v AND writeMask r))"
  using assms rf_write_view [OF assms(1)] by (auto simp: rf_read_eq write_reg_val)

lemma rf_write_rf_read_other:
  assumes "rf_write rf a v f = Inr rf'" and "a' \<noteq> a"
  shows "rf_read rf' a' = rf_read rf a'"
  using assms rf_write_view [OF assms(1)] by (simp add: rf_read_def rf_find_def)

lemma set_first_set: "x \<in> set (set_first a f rs) \<Longrightarrow> x \<in> set rs \<or> (\<exists>r. reg_at rs a = Some r \<and> x = f r)"
  by (induction rs) (auto simp: reg_at_Cons split: if_splits)

lemma reg_at_set: "reg_at rs a = Some r \<Longrightarrow> r \<in> set rs"
  by (auto simp: reg_at_def find_Some_iff)

lemma length_set_first [simp]: "length (set_first a f rs) = length rs"
  by (induction rs) auto

lemma rf_write_size: "rf_write rf a v f = Inr rf' \<Longrightarrow> rf_size rf' = rf_size rf"
  by (auto simp: rf_write_def rf_size_def check_r_eq_Inr split: option.splits)

section \<open>Runs of unforced operations\<close>

datatype rf_op =
    Op_write nat u32
  | Op_write_buf nat "u8 list"
  | Op_writeByte nat u8
  | Op_setBit nat nat
  | Op_setBitMask nat u32
  | Op_clearBitMask nat u32
  | Op_clearBit nat nat
  | Op_increment nat
  | Op_reset

fun rf_step :: "target \<Rightarrow> register_file \<Rightarrow> rf_op \<Rightarrow> register_file result" where
  "rf_step t rf (Op_write a v) = rf_write rf a v False"
| "rf_step t rf (Op_write_buf a buf) = rf_write_buf t rf a buf False"
| "rf_step t rf (Op_writeByte a b) = rf_writeByte t rf a b False"
| "rf_step t rf (Op_setBit a n) = rf_setBit t rf a n False"
| "rf_step t rf (Op_setBitMask a m) = rf_setBitMask rf a m False"
| "rf_step t rf (Op_clearBitMask a m) = rf_clearBitMask rf a m False"
| "rf_step t rf (Op_clearBit a n) = rf_clearBit t rf a n False"
| "rf_step t rf (Op_increment a) = rf_increment rf a False"
| "rf_step t rf Op_reset = Inr (rf_reset rf)"

fun rf_run :: "target \<Rightarrow> register_file \<Rightarrow> rf_op list \<Rightarrow> register_file result" where
  "rf_run t rf [] = Inr rf"
| "rf_run t rf (op # ops) = bind_r (rf_step t rf op) (\<lambda>rf'. rf_run t rf' ops)"

text \<open>
  Any property of single registers that an unforced write to a writable register and
  a reset keep is kept by every run of operations.
\<close>

locale register_invariant =
  fixes Q :: "register \<Rightarrow> bool"
  assumes keeps_write: "Q r \<Longrightarrow> writable r \<Longrightarrow> Q (write_reg v False r)"
    and keeps_reset: "Q r \<Longrightarrow> Q (register_reset r)"
begin

definition Q_all :: "register_file \<Rightarrow> bool" where
  "Q_all rf = (\<forall>r \<in> set rf. Q r)"

lemma keeps_rf_write:
  assumes "rf_write rf a v False = Inr rf'" and "Q_all rf"
  shows "Q_all rf'"
proof -
  obtain r where r: "reg_at rf a = Some r" "writable r"
    and rf': "rf' = set_first a (write_reg v False) rf"
    using assms(1) by (auto simp: rf_write_def check_r_eq_Inr split: option.splits)
  have "Q (write_reg v False r)"
    using r assms(2) keeps_write reg_at_set by (auto simp: Q_all_def)
  then show ?thesis
    using assms(2) r rf' by (auto simp: Q_all_def dest: set_first_set)
qed

lemma keeps_writeByte: "rf_writeByte t rf a b False = Inr rf' \<Longrightarrow> Q_all rf \<Longrightarrow> Q_all rf'"
  by (auto simp: rf_writeByte_def Let_def result_elims intro: keeps_rf_write)

lemma keeps_write_buf: "rf_write_buf t rf a buf False = Inr rf' \<Longrightarrow> Q_all rf \<Longrightarrow> Q_all rf'"
proof (induction t rf a buf "False" rule: rf_write_buf.induct)
  case (1 t m_regs address)
  then show ?case by simp
next
  case (2 t rf a b bs)
  from "2.prems"(1) show ?case
    unfolding rf_write_buf.simps(2) [of t rf a b bs] Let_def
    using "2.prems"(2) "2.hyps"
    by (auto simp: bind_r_eq_Inr split: if_splits dest: keeps_rf_write keeps_writeByte)
qed

lemma keeps_step: "rf_step t rf op = Inr rf' \<Longrightarrow> Q_all rf \<Longrightarrow> Q_all rf'"
  by (cases op)
    (auto simp: rf_setBit_def rf_setBitMask_def rf_clearBitMask_def rf_clearBit_def
      rf_increment_def result_elims rf_reset_def
      intro: keeps_rf_write keeps_writeByte keeps_write_buf,
     auto simp: Q_all_def keeps_reset)

lemma keeps_run: "rf_run t rf ops = Inr rf' \<Longrightarrow> Q_all rf \<Longrightarrow> Q_all rf'"
  by (induction ops arbitrary: rf) (auto simp: bind_r_eq_Inr dest: keeps_step)

end

text \<open>
  Two such properties: the bits outside the write mask hold their reset value, and a
  read-only register holds its reset value.
\<close>

definition reserved_reset :: "register \<Rightarrow> bool" where
  "reserved_reset r \<longleftrightarrow> reg_val r AND NOT (writeMask r) = resetValue r AND NOT (writeMask r)"

definition read_only_reset :: "register \<Rightarrow> bool" where
  "read_only_reset r \<longleftrightarrow> (access r = READ \<longrightarrow> reg_val r = resetValue r)"

interpretation reserved: register_invariant reserved_reset
proof
  fix r v
  assume "reserved_reset r"
  moreover have "((x AND NOT m) OR (v AND m)) AND NOT m = x AND NOT m" for x m :: u32
    by (rule bit_eqI) (auto simp: bit_simps)
  ultimately show "reserved_reset (write_reg v False r)"
    by (simp add: reserved_reset_def write_reg_def)
qed (simp add: reserved_reset_def register_reset_def)

interpretation read_only: register_invariant read_only_reset
  by unfold_locales
    (auto simp: read_only_reset_def register_reset_def writable_def write_reg_def)

section \<open>The byte view of a block of plain registers\<close>

definition word_addr :: "nat \<Rightarrow> nat" where
  "word_addr b = b - b mod 2"

definition plain_reg :: "register_file \<Rightarrow> nat \<Rightarrow> bool" where
  "plain_reg rf a =
     (case reg_at rf a of
        None \<Rightarrow> False
      | Some r \<Rightarrow> access r = READ_WRITE \<and> writeMask r = - 1)"

definition plain :: "register_file \<Rightarrow> nat \<Rightarrow> nat \<Rightarrow> bool" where
  "plain rf a n = (\<forall>b \<in> {a..<a + n}. plain_reg rf (word_addr b))"

definition rf_view :: "register_file \<Rightarrow> nat \<Rightarrow> u8" where
  "rf_view rf b =
     (case reg_at rf (word_addr b) of None \<Rightarrow> 0 | Some r \<Rightarrow> host_byte (reg_val r) (b mod 2))"

definition word16 :: "target \<Rightarrow> bool" where
  "word16 t \<longleftrightarrow> word_size t = 2 \<and> endian t = Target_little"

lemma word16_msp430 [simp]: "word16 msp430"
  by (simp add: word16_def msp430_def)

lemma word_addr_cases:
  "word_addr b = c \<longleftrightarrow> c mod 2 = 0 \<and> (b = c \<or> b = Suc c)"
  unfolding word_addr_def by presburger

lemma word_addr_even [simp]: "a mod 2 = 0 \<Longrightarrow> word_addr a = a" "a mod 2 = 0 \<Longrightarrow> word_addr (Suc a) = a"
  by (simp_all add: word_addr_cases)

lemma plain_regE:
  assumes "plain_reg rf a"
  obtains r where "reg_at rf a = Some r" "readable r" "writable r" "writeMask r = - 1"
  using assms by (auto simp: plain_reg_def readable_def writable_def split: option.splits)

lemma plain_reg_write [simp]:
  assumes "rf_write rf a v f = Inr rf'"
  shows "plain_reg rf' c = plain_reg rf c"
  using rf_write_view [OF assms] by (auto simp: plain_reg_def split: option.splits)

lemma rf_write_plain_ok:
  assumes "plain_reg rf a"
  shows "\<exists>rf'. rf_write rf a v f = Inr rf'"
  using assms by (auto elim!: plain_regE simp: rf_write_def)

lemma host_byte_set [simp]:
  "i < 4 \<Longrightarrow> j < 4 \<Longrightarrow> host_byte (set_host_byte v i b) j = (if j = i then b else host_byte v j)"
proof -
  assume ij: "i < 4" "j < 4"
  show ?thesis
  proof (rule bit_word_eqI)
    fix n
    assume "n < LENGTH(8)"
    then have n: "n < 8" by simp
    consider "i = j" | "Suc i \<le> j" | "Suc j \<le> i" by linarith
    then show "bit (host_byte (set_host_byte v i b) j) n
        = bit (if j = i then b else host_byte v j) n"
      using ij n by cases (auto simp: host_byte_def set_host_byte_def bit_simps)
  qed
qed

lemma rf_view_write:
  assumes w: "rf_write rf a v f = Inr rf'" and p: "plain_reg rf a" and a: "a mod 2 = 0"
  shows "rf_view rf' = (rf_view rf)(a := host_byte v 0, Suc a := host_byte v (Suc 0))"
proof
  fix b
  from p obtain r where r: "reg_at rf a = Some r" "writeMask r = - 1"
    by (rule plain_regE)
  note view = rf_write_view [OF w]
  show "rf_view rf' b = ((rf_view rf)(a := host_byte v 0, Suc a := host_byte v (Suc 0))) b"
  proof (cases "word_addr b = a")
    case True
    then have "b = a \<or> b = Suc a" by (simp add: word_addr_cases)
    moreover have "a mod 2 = 0" "Suc a mod 2 = Suc 0" using a by presburger+
    ultimately show ?thesis
      using r a by (auto simp: rf_view_def view)
  next
    case False
    then have "b \<noteq> a" "b \<noteq> Suc a" using a by auto
    with False show ?thesis by (simp add: rf_view_def view)
  qed
qed

lemma rf_view_writeByte:
  assumes t: "word16 t" and p: "plain_reg rf (word_addr a)"
  shows "\<exists>rf'. rf_writeByte t rf a b f = Inr rf' \<and> rf_view rf' = (rf_view rf)(a := b)
    \<and> plain_reg rf' = plain_reg rf"
proof -
  let ?w = "word_addr a"
  have w: "?w mod 2 = 0" and a: "a = ?w + a mod 2"
    unfolding word_addr_def by presburger+
  from p obtain r where r: "reg_at rf ?w = Some r" "readable r" "writable r" "writeMask r = - 1"
    by (rule plain_regE)
  let ?v = "set_host_byte (reg_val r) (a mod 2) b"
  obtain rf' where rf': "rf_write rf ?w ?v f = Inr rf'"
    using rf_write_plain_ok [OF p] by blast
  have read: "rf_read rf ?w = Inr (reg_val r)"
    using r by (simp add: rf_read_eq)
  have step: "rf_writeByte t rf a b f = Inr rf'"
    using t rf' read by (simp add: rf_writeByte_def word16_def word_addr_def Let_def)
  have old: "rf_view rf ?w = host_byte (reg_val r) 0"
      "rf_view rf (Suc ?w) = host_byte (reg_val r) (Suc 0)"
    using r w by (simp_all add: rf_view_def) (simp add: mod_Suc)
  have "rf_view rf' = (rf_view rf)(?w := host_byte ?v 0, Suc ?w := host_byte ?v (Suc 0))"
    using rf' p w by (rule rf_view_write)
  also have "\<dots> = (rf_view rf)(a := b)"
  proof (cases "a mod 2 = 0")
    case True
    then have "?w = a" by simp
    then show ?thesis using old True by (auto simp: fun_eq_iff)
  next
    case False
    then have "a mod 2 = Suc 0" "Suc ?w = a" using a by presburger+
    then show ?thesis using old by (auto simp: fun_eq_iff)
  qed
  finally show ?thesis
    using step plain_reg_write [OF rf'] by (auto simp: fun_eq_iff)
qed

lemma plain_cong: "plain_reg rf' = plain_reg rf \<Longrightarrow> plain rf' a n = plain rf a n"
  by (simp add: plain_def)

lemma plain_mono: "plain rf a n \<Longrightarrow> a \<le> a' \<Longrightarrow> a' + n' \<le> a + n \<Longrightarrow> plain rf a' n'"
  by (simp add: plain_def)

lemma plain_head: "plain rf a (Suc n) \<Longrightarrow> plain_reg rf (word_addr a)"
  by (simp add: plain_def)

definition put_bytes :: "(nat \<Rightarrow> u8) \<Rightarrow> nat \<Rightarrow> u8 list \<Rightarrow> (nat \<Rightarrow> u8)" where
  "put_bytes m a buf = (\<lambda>b. if a \<le> b \<and> b < a + length buf then buf ! (b - a) else m b)"

definition get_bytes :: "(nat \<Rightarrow> u8) \<Rightarrow> nat \<Rightarrow> nat \<Rightarrow> u8 list" where
  "get_bytes m a n = map m [a..<a + n]"

lemma put_bytes_Nil [simp]: "put_bytes m a [] = m"
  by (auto simp: put_bytes_def fun_eq_iff)

lemma put_bytes_Cons: "put_bytes m a (b # bs) = put_bytes (m(a := b)) (Suc a) bs"
  by (auto simp: put_bytes_def fun_eq_iff nth_Cons' Suc_le_eq)

lemma get_bytes_0 [simp]: "get_bytes m a 0 = []"
  by (simp add: get_bytes_def)

lemma get_bytes_Suc: "get_bytes m a (Suc n) = m a # get_bytes m (Suc a) n"
  by (simp add: get_bytes_def upt_conv_Cons del: upt_Suc)

lemma length_get_bytes [simp]: "length (get_bytes m a n) = n"
  by (simp add: get_bytes_def)

lemma get_put_bytes [simp]: "get_bytes (put_bytes m a buf) a (length buf) = buf"
  by (rule nth_equalityI) (simp_all add: get_bytes_def put_bytes_def)

lemma get_put_bytes_disjoint:
  "a' + n \<le> a \<or> a + length buf \<le> a' \<Longrightarrow> get_bytes (put_bytes m a buf) a' n = get_bytes m a' n"
  by (rule nth_equalityI) (simp_all add: get_bytes_def put_bytes_def, linarith)

lemma rf_write_buf_view:
  assumes "word16 t" and "plain rf a (length buf)"
  shows "\<exists>rf'. rf_write_buf t rf a buf f = Inr rf' \<and> rf_view rf' = put_bytes (rf_view rf) a buf
    \<and> plain_reg rf' = plain_reg rf"
  using assms
proof (induction t rf a buf f rule: rf_write_buf.induct)
  case (1 t rf a f)
  then show ?case by simp
next
  case (2 t rf a b bs f)
  have p: "plain_reg rf (word_addr a)"
    using "2.prems"(2) by (auto intro: plain_head)
  show ?case
  proof (cases "length (b # bs) \<ge> 2 \<and> a mod 2 = 0")
    case True
    then obtain c cs where bs: "bs = c # cs" by (cases bs) auto
    let ?v = "host_load32 b c 0 0"
    have a: "a mod 2 = 0" using True by simp
    have "plain_reg rf a" using p a by simp
    then obtain rf1 where rf1: "rf_write rf a ?v f = Inr rf1"
      using rf_write_plain_ok by blast
    have view1: "rf_view rf1 = (rf_view rf)(a := b, Suc a := c)"
      using rf_view_write [OF rf1 \<open>plain_reg rf a\<close> a] by (simp add: host_byte_load)
    have plain1: "plain_reg rf1 = plain_reg rf"
      using rf1 by (simp add: fun_eq_iff)
    have pk: "packBytes (b # bs) 2 = Inr (push_bit 8 (ucast b) OR ucast c)"
      by (simp add: bs pack2)
    have v: "ttohs t (ucast (push_bit 8 (ucast b) OR ucast c :: u64)) = ?v"
      using "2.prems"(1) by (simp add: ttohs_pack_little word16_def)
    have "plain rf1 (a + 2) (length cs)"
      using "2.prems"(2) by (simp add: plain_cong [OF plain1] bs plain_mono)
    then obtain rf2 where rf2: "rf_write_buf t rf1 (a + 2) cs f = Inr rf2"
        "rf_view rf2 = put_bytes (rf_view rf1) (a + 2) cs" "plain_reg rf2 = plain_reg rf"
      using "2.IH"(2) [OF refl _ True pk, of rf1] "2.prems"(1) rf1 v plain1
      by (auto simp: bs word16_def)
    have "rf_write_buf t rf a (b # bs) f = Inr rf2"
      using True rf1 rf2(1) pk v "2.prems"(1)
      by (simp add: rf_write_buf.simps(2) [of t rf a b "c # cs" f] Let_def word16_def bs)
    then show ?thesis
      using rf2 plain1 by (simp add: view1 bs put_bytes_Cons)
  next
    case False
    obtain rf1 where rf1: "rf_writeByte t rf a b False = Inr rf1"
        "rf_view rf1 = (rf_view rf)(a := b)" "plain_reg rf1 = plain_reg rf"
      using rf_view_writeByte [OF "2.prems"(1) p] by blast
    have "plain rf1 (Suc a) (length bs)"
      using "2.prems"(2) by (simp add: plain_cong [OF rf1(3)] plain_mono)
    then obtain rf2 where rf2: "rf_write_buf t rf1 (Suc a) bs f = Inr rf2"
        "rf_view rf2 = put_bytes (rf_view rf1) (Suc a) bs" "plain_reg rf2 = plain_reg rf1"
      using "2.IH"(3) [OF refl _ False rf1(1)] "2.prems"(1) by (auto simp: word16_def)
    have "rf_write_buf t rf a (b # bs) f = Inr rf2"
      using False rf1 rf2(1) "2.prems"(1)
      by (auto simp: rf_write_buf.simps(2) [of t rf a b bs f] Let_def word16_def)
    then show ?thesis
      using rf1 rf2 by (simp add: put_bytes_Cons)
  qed
qed

lemma rf_read_buf_view:
  assumes "word16 t" and "plain rf a n"
  shows "rf_read_buf t rf a n = Inr (get_bytes (rf_view rf) a n)"
  using assms
proof (induction t rf a n rule: rf_read_buf.induct)
  case (1 t rf a n)
  show ?case
  proof (cases n)
    case 0
    then show ?thesis by (simp add: rf_read_buf.simps)
  next
    case (Suc m)
    have p: "plain_reg rf (word_addr a)"
      using "1.prems"(2) Suc by (auto intro: plain_head)
    from p obtain r where r: "reg_at rf (word_addr a) = Some r" "readable r"
      by (rule plain_regE)
    show ?thesis
    proof (cases "n \<ge> 2 \<and> a mod 2 = 0")
      case True
      then obtain k where k: "n = Suc (Suc k)" using Suc by (cases m) auto
      have a: "a mod 2 = 0" using True by simp
      have rd: "rf_read rf a = Inr (reg_val r)"
        using r a by (simp add: rf_read_eq)
      have view: "rf_view rf a = host_byte (reg_val r) 0"
          "rf_view rf (Suc a) = host_byte (reg_val r) (Suc 0)"
        using r a by (simp_all add: rf_view_def) (simp add: mod_Suc)
      have un: "unpackBytes [0, 0] (ucast (htots t 0 (reg_val r))) 2
          = Inr [host_byte (reg_val r) 0, host_byte (reg_val r) (Suc 0)]"
        using "1.prems"(1) by (simp add: unpack_htots_little word16_def)
      have "plain rf (a + 2) k"
        using "1.prems"(2) by (auto simp: k intro: plain_mono)
      then have rest: "rf_read_buf t rf (a + 2) k = Inr (get_bytes (rf_view rf) (a + 2) k)"
        using "1.IH"(2) [OF _ _ True rd un] "1.prems"(1) by (auto simp: k word16_def)
      show ?thesis
        using True rd un rest view "1.prems"(1)
        by (simp add: rf_read_buf.simps [of t rf a "Suc (Suc k)"] k get_bytes_Suc word16_def)
    next
      case False
      have rb: "rf_readByte t rf a = Inr (rf_view rf a)"
        using r "1.prems"(1)
        by (simp add: rf_readByte_def rf_find_def rf_view_def Let_def word16_def word_addr_def)
      have "plain rf (a + 1) m"
        using "1.prems"(2) by (auto simp: Suc intro: plain_mono)
      then have rest: "rf_read_buf t rf (a + 1) m = Inr (get_bytes (rf_view rf) (a + 1) m)"
        using "1.IH"(3) [OF _ _ False rb] "1.prems"(1) by (auto simp: Suc word16_def)
      have "rf_read_buf t rf a n = bind_r (rf_readByte t rf a) (\<lambda>b.
          bind_r (rf_read_buf t rf (a + 1) (n - 1)) (\<lambda>rest. Inr (b # rest)))"
        using False Suc "1.prems"(1) by (auto simp: rf_read_buf.simps [of t rf a "Suc m"] word16_def)
      then show ?thesis
        using rb rest by (simp add: Suc get_bytes_Suc)
    qed
  qed
qed

section \<open>Reserved bits and read-only registers\<close>

text \<open>C5: no run of unforced register operations (word, byte and buffer writes, bit and mask
  updates, increments, resets), aligned or not, changes a bit outside a register's write
  mask or the value of a read-only register: both keep the reset value they were
  constructed with.\<close>

theorem reserved_bits_never_change:
  assumes "rf_run t rf ops = Inr rf'" and "\<forall>r \<in> set rf. reg_val r = resetValue r"
    and "r' \<in> set rf'"
  shows "reg_val r' AND NOT (writeMask r') = resetValue r' AND NOT (writeMask r')
    \<and> (access r' = READ \<longrightarrow> reg_val r' = resetValue r')"
  using reserved.keeps_run [OF assms(1)] read_only.keeps_run [OF assms(1)] assms(2,3)
  by (auto simp: reserved.Q_all_def read_only.Q_all_def reserved_reset_def read_only_reset_def)

theorem reserved_bits_never_change_witness:
  "rf_run msp430 (addRegister [] 4 0xA0 READ_WRITE 0x0F) [Op_write 4 0xFFF3, Op_setBit 4 2]
     = Inr [\<lparr>reg_addr = 4, reg_val = 0xA7, resetValue = 0xA0, writeMask = 0x0F, access = READ_WRITE\<rparr>]
   \<and> (0xA7 :: u32) AND NOT 0x0F = 0xA0 AND NOT 0x0F"
proof -
  have run: "rf_run msp430 (addRegister [] 4 0xA0 READ_WRITE 0x0F) [Op_write 4 0xFFF3, Op_setBit 4 2]
     = Inr [\<lparr>reg_addr = 4, reg_val = 0xA7, resetValue = 0xA0, writeMask = 0x0F, access = READ_WRITE\<rparr>]"
    by (simp add: addRegister_def mk_register_def rf_write_def reg_at_def writable_def write_reg_def
        rf_setBit_def rf_find_def rf_read_def readable_def msp430_def)
  from reserved_bits_never_change [OF run] run show ?thesis
    by (simp add: addRegister_def mk_register_def)
qed

end
