(* ===== verification/Tlm_Device.thy ===== *)
theory Tlm_Device
  imports Register_File
begin

text \<open>
  Transaction-level vocabulary of the bus (the part of TLM the simulator uses: a
  command, an address, a data buffer and a response status) and the contract of a
  byte-addressable device on it.

  \<open>b_transport\<close> is a function from the device's state, the payload and the
  accumulated delay to the new state, the payload after completion, the new delay,
  and the effects on the rest of the simulation: notified SystemC events (with their
  delay) and counts reported to the power model channel.

  The locale \<open>byte_device\<close> is the interface between whoever issues transactions (the
  CPU, the cache's memory port) and whoever serves them (memories, register files, the
  cache itself): relative to a byte view of the state, a read returns the viewed bytes
  and a write puts its bytes. Inside the locale a whole sequence of transactions is
  shown to behave as a flat byte memory.
\<close>

section \<open>Payloads and effects\<close>

datatype tlm_command = TLM_READ_COMMAND | TLM_WRITE_COMMAND | TLM_IGNORE_COMMAND

record payload =
  command :: tlm_command
  address :: u64
  data :: "u8 list"
  response_ok :: bool

definition data_length :: "payload \<Rightarrow> nat" where
  "data_length p = length (data p)"

datatype bus_event = Read_event | Write_event

datatype power_event =
    Pe_read | Pe_write | Pe_bytes_read | Pe_bytes_written
  | Pe_read_hit | Pe_read_miss | Pe_write_hit | Pe_write_miss

datatype effect = Notify bus_event sc_time | Report power_event nat

type_synonym 's transported = "('s \<times> payload \<times> sc_time \<times> effect list) result"

type_synonym 's transport = "'s \<Rightarrow> payload \<Rightarrow> sc_time \<Rightarrow> 's transported"

section \<open>Sequences of transactions and the flat memory they are compared with\<close>

datatype txn = Rd nat nat | Wr nat "u8 list"

fun txn_payload :: "txn \<Rightarrow> payload" where
  "txn_payload (Rd a n) =
     \<lparr>command = TLM_READ_COMMAND, address = of_nat a, data = replicate n 0, response_ok = False\<rparr>"
| "txn_payload (Wr a buf) =
     \<lparr>command = TLM_WRITE_COMMAND, address = of_nat a, data = buf, response_ok = False\<rparr>"

fun txn_addr :: "txn \<Rightarrow> nat" where
  "txn_addr (Rd a n) = a"
| "txn_addr (Wr a buf) = a"

fun txn_len :: "txn \<Rightarrow> nat" where
  "txn_len (Rd a n) = n"
| "txn_len (Wr a buf) = length buf"

fun flat_step :: "(nat \<Rightarrow> u8) \<Rightarrow> txn \<Rightarrow> (nat \<Rightarrow> u8) \<times> u8 list" where
  "flat_step m (Rd a n) = (m, get_bytes m a n)"
| "flat_step m (Wr a buf) = (put_bytes m a buf, buf)"

fun flat_run :: "(nat \<Rightarrow> u8) \<Rightarrow> txn list \<Rightarrow> (nat \<Rightarrow> u8) \<times> u8 list list" where
  "flat_run m [] = (m, [])"
| "flat_run m (x # xs) =
     (let (m1, out) = flat_step m x; (m2, outs) = flat_run m1 xs in (m2, out # outs))"

fun dev_run :: "'s transport \<Rightarrow> 's \<Rightarrow> txn list \<Rightarrow> ('s \<times> u8 list list) result" where
  "dev_run transport s [] = Inr (s, [])"
| "dev_run transport s (x # xs) =
     bind_r (transport s (txn_payload x) 0) (\<lambda>(s1, p, d, fx).
       bind_r (dev_run transport s1 xs) (\<lambda>(s2, outs). Inr (s2, data p # outs)))"

section \<open>The contract of a byte-addressable device\<close>

locale byte_device =
  fixes transport :: "'s transport"
    and view :: "'s \<Rightarrow> nat \<Rightarrow> u8"
    and inv :: "'s \<Rightarrow> bool"
    and serves :: "nat \<Rightarrow> nat \<Rightarrow> bool"
  assumes read_law:
      "inv s \<Longrightarrow> command p = TLM_READ_COMMAND \<Longrightarrow> serves (unat (address p)) (length (data p)) \<Longrightarrow>
       \<exists>s' p' d' fx. transport s p d = Inr (s', p', d', fx)
         \<and> data p' = get_bytes (view s) (unat (address p)) (length (data p)) \<and> response_ok p'
         \<and> inv s' \<and> view s' = view s"
    and write_law:
      "inv s \<Longrightarrow> command p = TLM_WRITE_COMMAND \<Longrightarrow> serves (unat (address p)) (length (data p)) \<Longrightarrow>
       \<exists>s' p' d' fx. transport s p d = Inr (s', p', d', fx)
         \<and> data p' = data p \<and> response_ok p'
         \<and> inv s' \<and> view s' = put_bytes (view s) (unat (address p)) (data p)"
    and serves_bound: "serves a n \<Longrightarrow> a < 2 ^ 64"
begin

lemma step_flat:
  assumes "inv s" and "serves (txn_addr x) (txn_len x)"
  shows "\<exists>s' p d' fx. transport s (txn_payload x) d = Inr (s', p, d', fx)
    \<and> inv s' \<and> flat_step (view s) x = (view s', data p)"
proof (cases x)
  case (Rd a n)
  have a: "unat (of_nat a :: u64) = a"
    using assms(2) serves_bound [of a n] by (simp add: Rd)
  show ?thesis
    using read_law [OF assms(1), of "txn_payload x" d] assms(2) a by (fastforce simp: Rd)
next
  case (Wr a buf)
  have a: "unat (of_nat a :: u64) = a"
    using assms(2) serves_bound [of a "length buf"] by (simp add: Wr)
  show ?thesis
    using write_law [OF assms(1), of "txn_payload x" d] assms(2) a by (fastforce simp: Wr)
qed

lemma run_flat:
  assumes "inv s" and "\<forall>x \<in> set xs. serves (txn_addr x) (txn_len x)"
  shows "\<exists>s'. dev_run transport s xs = Inr (s', snd (flat_run (view s) xs))
    \<and> inv s' \<and> view s' = fst (flat_run (view s) xs)"
  using assms
proof (induction xs arbitrary: s)
  case Nil
  then show ?case by simp
next
  case (Cons x xs)
  obtain s1 p d' fx where step: "transport s (txn_payload x) 0 = Inr (s1, p, d', fx)" "inv s1"
      "flat_step (view s) x = (view s1, data p)"
    using step_flat [of s x 0] Cons.prems by auto
  obtain s2 where "dev_run transport s1 xs = Inr (s2, snd (flat_run (view s1) xs))" "inv s2"
      "view s2 = fst (flat_run (view s1) xs)"
    using Cons.IH [OF step(2)] Cons.prems(2) by auto
  then show ?case
    using step by (simp add: split_beta)
qed

lemma read_back:
  assumes "inv s" and "serves a (length buf)"
  shows "\<exists>s'. dev_run transport s [Wr a buf, Rd a (length buf)] = Inr (s', [buf, buf])"
  using run_flat [OF assms(1), of "[Wr a buf, Rd a (length buf)]"] assms(2) by auto

lemma read_undisturbed:
  assumes "inv s" and "serves a (length buf)" and "serves a' n"
    and "a' + n \<le> a \<or> a + length buf \<le> a'"
  shows "\<exists>s' out. dev_run transport s [Rd a' n, Wr a buf, Rd a' n] = Inr (s', [out, buf, out])"
  using run_flat [OF assms(1), of "[Rd a' n, Wr a buf, Rd a' n]"] assms(2-4)
  by (auto simp: get_put_bytes_disjoint)

end

end
