(* ===== verification/Msp430_Cpu.thy ===== *)
theory Msp430_Cpu
  imports Tlm_Device
begin

unbundle bit_operations_syntax

text \<open>
  \<open>mcu/msp430fr5xx/Msp430Cpu.cpp\<close> and its header: the MSP430 core. The operations are
  functions on the state of the core and of the bus behind its initiator socket, with
  failures as values; \<open>bt\<close> is the \<open>b_transport\<close> of the bus and \<open>period\<close> the period of
  the main clock.

  Registers are 32 bits wide, as in the code (\<open>m_cpuRegs\<close>). \<open>wait\<close> adds to \<open>now\<close>; other
  processes do not run inside an instruction. What they may change between two waits
  and the code reads again is an input of the step (\<open>cpu_env\<close>). Reports to the power
  model and the interrupt acknowledge line are recorded in \<open>cpu_log\<close>. Log files and
  console output are left out.
\<close>

section \<open>State\<close>

datatype cpu_event = Ev_irq | Ev_formatI | Ev_formatII | Ev_formatIII

datatype cpu_power_state = St_off | St_on | St_sleep

datatype cpu_effect = Cpu_event cpu_event | Cpu_state cpu_power_state | Ira bool

record 's cpu =
  cpuRegs :: "u32 list"
  m_run :: bool
  m_sleeping :: bool
  m_doStep :: bool
  m_breakpoints :: "u32 set"
  bus_state :: 's
  now :: sc_time
  cpu_log :: "cpu_effect list"

record operand =
  op_addr :: u64
  op_val :: u32
  inMem :: bool
  byteNotWord :: bool

type_synonym ('s, 'a) cpu_op = "'s cpu \<Rightarrow> ('a \<times> 's cpu) result"

definition ret :: "'a \<Rightarrow> ('s, 'a) cpu_op" where
  "ret x s = Inr (x, s)"

definition seq :: "('s, 'a) cpu_op \<Rightarrow> ('a \<Rightarrow> ('s, 'b) cpu_op) \<Rightarrow> ('s, 'b) cpu_op" where
  "seq m f s = bind_r (m s) (\<lambda>(x, s'). f x s')"

definition next_op :: "('s, 'a) cpu_op \<Rightarrow> ('s, 'b) cpu_op \<Rightarrow> ('s, 'b) cpu_op" where
  "next_op m n = seq m (\<lambda>_. n)"

definition fail :: "sim_error \<Rightarrow> ('s, 'a) cpu_op" where
  "fail e s = Inl e"

definition require :: "bool \<Rightarrow> ('s, unit) cpu_op" where
  "require b s = check_r b Assertion_failed (Inr ((), s))"

definition get :: "('s cpu \<Rightarrow> 'a) \<Rightarrow> ('s, 'a) cpu_op" where
  "get f s = Inr (f s, s)"

definition modify :: "('s cpu \<Rightarrow> 's cpu) \<Rightarrow> ('s, unit) cpu_op" where
  "modify f s = Inr ((), f s)"

lemmas cpu_monad = ret_def seq_def next_op_def fail_def require_def get_def modify_def

definition wait_for :: "sc_time \<Rightarrow> ('s, unit) cpu_op" where
  "wait_for d = modify (\<lambda>s. s\<lparr>now := now s + d\<rparr>)"

definition waitCycles :: "sc_time \<Rightarrow> nat \<Rightarrow> ('s, unit) cpu_op" where
  "waitCycles period n = wait_for (n * period)"

definition log_effect :: "cpu_effect \<Rightarrow> ('s, unit) cpu_op" where
  "log_effect e = modify (\<lambda>s. s\<lparr>cpu_log := cpu_log s @ [e]\<rparr>)"

section \<open>Registers and flags\<close>

definition getGpr :: "nat \<Rightarrow> ('s, u32) cpu_op" where
  "getGpr addr = next_op (require (addr < 16)) (get (\<lambda>s. cpuRegs s ! addr))"

definition setGpr :: "nat \<Rightarrow> u32 \<Rightarrow> ('s, unit) cpu_op" where
  "setGpr addr val =
     next_op (require (addr < 16)) (modify (\<lambda>s. s\<lparr>cpuRegs := (cpuRegs s)[addr := val]\<rparr>))"

definition getPc :: "('s, u32) cpu_op" where
  "getPc = get (\<lambda>s. cpuRegs s ! 0)"

definition setPc :: "u32 \<Rightarrow> ('s, unit) cpu_op" where
  "setPc val =
     next_op (require (val mod 2 = 0)) (modify (\<lambda>s. s\<lparr>cpuRegs := (cpuRegs s)[0 := val]\<rparr>))"

definition getSp :: "('s, u32) cpu_op" where
  "getSp = get (\<lambda>s. cpuRegs s ! 1)"

definition setSp :: "u32 \<Rightarrow> ('s, unit) cpu_op" where
  "setSp val = modify (\<lambda>s. s\<lparr>cpuRegs := (cpuRegs s)[1 := val]\<rparr>)"

definition getSr :: "('s, u32) cpu_op" where
  "getSr = get (\<lambda>s. cpuRegs s ! 2)"

definition setSr :: "u32 \<Rightarrow> ('s, unit) cpu_op" where
  "setSr val = modify (\<lambda>s. s\<lparr>cpuRegs := (cpuRegs s)[2 := val]\<rparr>)"

definition flag :: "nat \<Rightarrow> 's cpu \<Rightarrow> bool" where
  "flag b s = (cpuRegs s ! 2 AND push_bit b 1 \<noteq> 0)"

definition setFlag :: "nat \<Rightarrow> bool \<Rightarrow> ('s, unit) cpu_op" where
  "setFlag b v s =
     bind_r (setBit msp430 b (cpuRegs s ! 2) v) (\<lambda>w.
       Inr ((), s\<lparr>cpuRegs := (cpuRegs s)[2 := w]\<rparr>))"

definition getOverflowFlag :: "('s, bool) cpu_op" where "getOverflowFlag = get (flag 8)"
definition setOverflowFlag :: "bool \<Rightarrow> ('s, unit) cpu_op" where "setOverflowFlag = setFlag 8"
definition getNegativeFlag :: "('s, bool) cpu_op" where "getNegativeFlag = get (flag 2)"
definition setNegativeFlag :: "bool \<Rightarrow> ('s, unit) cpu_op" where "setNegativeFlag = setFlag 2"
definition getZeroFlag :: "('s, bool) cpu_op" where "getZeroFlag = get (flag 1)"
definition setZeroFlag :: "bool \<Rightarrow> ('s, unit) cpu_op" where "setZeroFlag = setFlag 1"
definition getCarryFlag :: "('s, bool) cpu_op" where "getCarryFlag = get (flag 0)"
definition setCarryFlag :: "bool \<Rightarrow> ('s, unit) cpu_op" where "setCarryFlag = setFlag 0"

definition cpu_reset :: "('s, unit) cpu_op" where
  "cpu_reset = next_op (modify (\<lambda>s. s\<lparr>cpuRegs := map (\<lambda>_. 0) (cpuRegs s)\<rparr>)) (setSr 0x0010)"

section \<open>Bus accesses\<close>

definition writeMem :: "'s transport \<Rightarrow> u32 \<Rightarrow> u8 list \<Rightarrow> ('s, unit) cpu_op" where
  "writeMem bt addr buf s =
     bind_r (bt (bus_state s)
         \<lparr>command = TLM_WRITE_COMMAND, address = ucast addr, data = buf, response_ok = False\<rparr> 0)
       (\<lambda>(b', p', delay, fx).
         check_r (response_ok p') Exit_failure
           (Inr ((), s\<lparr>bus_state := b', now := now s + delay\<rparr>)))"

definition readMem :: "'s transport \<Rightarrow> u32 \<Rightarrow> nat \<Rightarrow> ('s, u8 list) cpu_op" where
  "readMem bt addr bytelen s =
     bind_r (bt (bus_state s)
         \<lparr>command = TLM_READ_COMMAND, address = ucast addr, data = replicate bytelen 0,
          response_ok = False\<rparr> 0)
       (\<lambda>(b', p', delay, fx).
         check_r (response_ok p') Exit_failure
           (Inr (data p', s\<lparr>bus_state := b', now := now s + delay\<rparr>)))"

definition read16 :: "'s transport \<Rightarrow> u64 \<Rightarrow> ('s, u16) cpu_op" where
  "read16 bt addr =
     seq (readMem bt (ucast addr) 2) (\<lambda>tmp s.
       bind_r (packBytes tmp 2) (\<lambda>w. Inr (ucast (ttohs msp430 (ucast w)), s)))"

definition read8 :: "'s transport \<Rightarrow> u64 \<Rightarrow> ('s, u8) cpu_op" where
  "read8 bt addr =
     seq (readMem bt (ucast addr) 1) (\<lambda>tmp s. check_r (tmp \<noteq> []) Out_of_bounds (Inr (hd tmp, s)))"

definition write16 :: "'s transport \<Rightarrow> u64 \<Rightarrow> u16 \<Rightarrow> ('s, unit) cpu_op" where
  "write16 bt addr val s =
     bind_r (unpackBytes [0, 0] (ucast (htots msp430 0 (ucast val))) 2) (\<lambda>tmp.
       writeMem bt (ucast addr) tmp s)"

definition write8 :: "'s transport \<Rightarrow> u64 \<Rightarrow> u8 \<Rightarrow> ('s, unit) cpu_op" where
  "write8 bt addr val = writeMem bt (ucast addr) [val]"

definition fetch :: "'s transport \<Rightarrow> ('s, u16) cpu_op" where
  "fetch bt =
     seq getPc (\<lambda>pc.
     next_op (require (pc mod 2 = 0)) (
     seq (read16 bt (ucast pc)) (\<lambda>retval.
     seq getPc (\<lambda>pc'.
     next_op (setPc (pc' + 2)) (ret retval)))))"

definition writeback :: "'s transport \<Rightarrow> u64 \<Rightarrow> u16 \<Rightarrow> bool \<Rightarrow> bool \<Rightarrow> ('s, unit) cpu_op" where
  "writeback bt addr val toMemory bnw =
     (if toMemory then
        (if bnw then write8 bt addr (ucast val) else write16 bt addr val)
      else
        (if bnw then setGpr (unat addr) (ucast (ucast val :: u8)) else setGpr (unat addr) (ucast val)))"

definition writeback_op :: "'s transport \<Rightarrow> operand \<Rightarrow> ('s, unit) cpu_op" where
  "writeback_op bt op = writeback bt (op_addr op) (ucast (op_val op)) (inMem op) (byteNotWord op)"

definition loadOperand :: "'s transport \<Rightarrow> operand \<Rightarrow> ('s, operand) cpu_op" where
  "loadOperand bt op =
     (if inMem op then
        (if byteNotWord op
         then seq (read8 bt (op_addr op)) (\<lambda>v. ret (op\<lparr>op_val := ucast v\<rparr>))
         else seq (read16 bt (op_addr op)) (\<lambda>v. ret (op\<lparr>op_val := ucast v\<rparr>)))
      else
        (if byteNotWord op
         then seq (getGpr (unat (op_addr op))) (\<lambda>v. ret (op\<lparr>op_val := ucast (ucast v :: u8)\<rparr>))
         else seq (getGpr (unat (op_addr op))) (\<lambda>v. ret (op\<lparr>op_val := v\<rparr>))))"

section \<open>Operands\<close>

definition isNegative :: "u16 \<Rightarrow> bool \<Rightarrow> bool" where
  "isNegative val bnw = (if bnw then val AND push_bit 7 1 \<noteq> 0 else val AND push_bit 15 1 \<noteq> 0)"

definition isZero :: "u16 \<Rightarrow> bool \<Rightarrow> bool" where
  "isZero val bnw = (if bnw then (ucast val :: u8) = 0 else val = 0)"

definition field :: "u16 \<Rightarrow> u16 \<Rightarrow> nat \<Rightarrow> nat" where
  "field opcode msk sh = unat (drop_bit sh (opcode AND msk))"

definition operand_init :: "u16 \<Rightarrow> operand" where
  "operand_init opcode =
     \<lparr>op_addr = 0, op_val = 0, inMem = False, byteNotWord = (opcode AND push_bit 6 1 \<noteq> 0)\<rparr>"

definition getDestinationOperand :: "'s transport \<Rightarrow> u16 \<Rightarrow> ('s, operand) cpu_op" where
  "getDestinationOperand bt opcode =
     (let destRegNum = field opcode 0x000f 0;
          ad = (opcode AND push_bit 7 1 \<noteq> 0);
          op0 = operand_init opcode;
          finish = (\<lambda>op. let op' = op\<lparr>op_addr := ucast (ucast (op_addr op) :: u16)\<rparr> in
                     if opcode AND 0xf000 \<noteq> 0x4000 then loadOperand bt op' else ret op')
      in if ad then
           (if destRegNum = 3 then fail Report_fatal
            else if destRegNum = 0 then
              seq getPc (\<lambda>pc. seq (fetch bt) (\<lambda>x.
                finish (op0\<lparr>op_addr := ucast pc + ucast x, inMem := True\<rparr>)))
            else if destRegNum = 2 then
              seq (fetch bt) (\<lambda>x. finish (op0\<lparr>op_addr := ucast x, inMem := True\<rparr>))
            else
              seq (getGpr destRegNum) (\<lambda>base. seq (fetch bt) (\<lambda>x.
                finish (op0\<lparr>op_addr := ucast base + ucast x, inMem := True\<rparr>))))
         else finish (op0\<lparr>inMem := False, op_addr := of_nat destRegNum\<rparr>))"

definition isSourceConstant :: "nat \<Rightarrow> nat \<Rightarrow> bool" where
  "isSourceConstant as regIdx = (regIdx = 3 \<or> (regIdx = 2 \<and> as \<ge> 2))"

definition getSourceConstant :: "nat \<Rightarrow> nat \<Rightarrow> ('s, u16) cpu_op" where
  "getSourceConstant as regIdx =
     (if regIdx = 3 then (if as = 3 then ret (- 1) else ret (of_nat as))
      else if regIdx = 2 then
        (if as = 2 then ret 4 else if as = 3 then ret 8 else fail Report_fatal)
      else ret 0)"

definition getSourceOperand :: "'s transport \<Rightarrow> u16 \<Rightarrow> ('s, operand) cpu_op" where
  "getSourceOperand bt opcode =
     (let as = field opcode 0x0030 4;
          op0 = operand_init opcode;
          srcRegNum = (if opcode AND 0xf000 = 0x1000 then field opcode 0x000f 0
                       else field opcode 0x0f00 8);
          finish = (\<lambda>op. loadOperand bt (op\<lparr>op_addr := ucast (ucast (op_addr op) :: u16)\<rparr>))
      in if isSourceConstant as srcRegNum then
           seq (getSourceConstant as srcRegNum) (\<lambda>c.
             ret (op0\<lparr>inMem := False, op_addr := of_nat srcRegNum, op_val := ucast c\<rparr>))
         else if as = 0 then finish (op0\<lparr>inMem := False, op_addr := of_nat srcRegNum\<rparr>)
         else if as = 1 then
           (if srcRegNum = 0 then
              seq getPc (\<lambda>pc. seq (fetch bt) (\<lambda>x.
                finish (op0\<lparr>op_addr := ucast pc + ucast x, inMem := True\<rparr>)))
            else if srcRegNum = 2 then
              seq (fetch bt) (\<lambda>x. finish (op0\<lparr>op_addr := ucast x, inMem := True\<rparr>))
            else
              seq (getGpr srcRegNum) (\<lambda>base. seq (fetch bt) (\<lambda>x.
                finish (op0\<lparr>op_addr := ucast base + ucast x, inMem := True\<rparr>))))
         else if as = 2 then
           seq (getGpr srcRegNum) (\<lambda>a. finish (op0\<lparr>op_addr := ucast a, inMem := True\<rparr>))
         else
           (if srcRegNum = 0 then
              seq getPc (\<lambda>pc. next_op (setPc (pc + 2))
                (finish (op0\<lparr>op_addr := ucast pc, inMem := True\<rparr>)))
            else
              seq (getGpr srcRegNum) (\<lambda>a.
                next_op (setGpr srcRegNum
                    (if srcRegNum = 1 \<or> \<not> byteNotWord op0 then a + 2 else a + 1))
                  (finish (op0\<lparr>op_addr := ucast a, inMem := True\<rparr>)))))"

section \<open>Jumps\<close>

definition jump_offset :: "u16 \<Rightarrow> u32" where
  "jump_offset opcode =
     (let o1 = ucast (opcode AND 0x03ff) :: u32;
          o2 = (if o1 AND push_bit 9 1 \<noteq> 0 then o1 - 0x03ff - 1 else o1)
      in o2 * 2)"

definition jump_condition :: "nat \<Rightarrow> 's cpu \<Rightarrow> bool" where
  "jump_condition condition s =
     (if condition = 0 then flag 1 s = False
      else if condition = 1 then flag 1 s = True
      else if condition = 2 then flag 0 s = False
      else if condition = 3 then flag 0 s = True
      else if condition = 4 then flag 2 s = True
      else if condition = 5 then (flag 2 s \<noteq> flag 8 s) = False
      else if condition = 6 then (flag 2 s \<noteq> flag 8 s) = True
      else condition = 7)"

definition executeConditionalJump :: "sc_time \<Rightarrow> u16 \<Rightarrow> ('s, unit) cpu_op" where
  "executeConditionalJump period opcode =
     (let condition = field opcode 0x1c00 10 in
      seq (get (jump_condition condition)) (\<lambda>doJump.
      next_op (if doJump then seq getPc (\<lambda>pc. setPc (pc + jump_offset opcode)) else ret ())
        (waitCycles period 1)))"

section \<open>Single operand instructions\<close>

definition set_flags :: "bool \<Rightarrow> bool \<Rightarrow> u32 \<Rightarrow> bool \<Rightarrow> ('s, unit) cpu_op" where
  "set_flags c v result bnw =
     next_op (setCarryFlag c) (next_op (setOverflowFlag v)
       (next_op (setNegativeFlag (isNegative (ucast result) bnw))
         (setZeroFlag (isZero (ucast result) bnw))))"

definition execute_rrc :: "'s transport \<Rightarrow> operand \<Rightarrow> ('s, unit) cpu_op" where
  "execute_rrc bt op =
     seq getCarryFlag (\<lambda>c.
       let r0 = drop_bit 1 (op_val op);
           result = (if byteNotWord op \<and> c then r0 OR push_bit 7 1
                     else if c then r0 OR push_bit 15 1 else r0)
       in next_op (set_flags (op_val op AND 1 \<noteq> 0) False result (byteNotWord op))
            (writeback_op bt (op\<lparr>op_val := result\<rparr>)))"

definition execute_swpb :: "'s transport \<Rightarrow> operand \<Rightarrow> ('s, unit) cpu_op" where
  "execute_swpb bt op =
     next_op (require (byteNotWord op = False))
       (writeback_op bt (op\<lparr>op_val := push_bit 8 (op_val op AND 0x00ff)
          OR drop_bit 8 (op_val op AND 0xff00)\<rparr>))"

definition execute_rra :: "'s transport \<Rightarrow> operand \<Rightarrow> ('s, unit) cpu_op" where
  "execute_rra bt op =
     (let result = (if byteNotWord op then (op_val op AND push_bit 7 1) OR drop_bit 1 (op_val op)
                    else (op_val op AND push_bit 15 1) OR drop_bit 1 (op_val op))
      in next_op (set_flags (op_val op AND 1 \<noteq> 0) False result (byteNotWord op))
           (writeback_op bt (op\<lparr>op_val := result\<rparr>)))"

definition execute_sxt :: "'s transport \<Rightarrow> operand \<Rightarrow> ('s, unit) cpu_op" where
  "execute_sxt bt op =
     (let v = (if op_val op AND push_bit 7 1 \<noteq> 0 then op_val op OR 0xff00 else op_val op AND 0x00ff)
      in next_op (set_flags (\<not> isZero (ucast v) False) False v False)
           (writeback_op bt (op\<lparr>op_val := v, byteNotWord := False,
              op_addr := op_addr op AND ucast (NOT 1 :: u32)\<rparr>)))"

definition execute_push :: "'s transport \<Rightarrow> sc_time \<Rightarrow> operand \<Rightarrow> ('s, unit) cpu_op" where
  "execute_push bt period op =
     next_op (if \<not> inMem op then waitCycles period 1 else ret ())
       (seq getSp (\<lambda>sp. next_op (setSp (sp - 2))
         (seq getSp (\<lambda>sp'.
            writeback_op bt (op\<lparr>op_addr := ucast sp', inMem := True, byteNotWord := False\<rparr>)))))"

definition execute_call :: "'s transport \<Rightarrow> sc_time \<Rightarrow> u16 \<Rightarrow> operand \<Rightarrow> ('s, unit) cpu_op" where
  "execute_call bt period opcode op =
     seq getSp (\<lambda>sp. next_op (setSp (sp - 2))
       (seq getSp (\<lambda>sp'. seq getPc (\<lambda>pc.
         next_op (writeback bt (ucast sp') (ucast pc) True False)
          (next_op (setPc (op_val op))
            (if \<not> inMem op then waitCycles period 2
             else next_op (waitCycles period 1)
               (if field opcode 0x000f 0 = 2 then waitCycles period 1 else ret ())))))))"

definition execute_reti :: "'s transport \<Rightarrow> sc_time \<Rightarrow> ('s, unit) cpu_op" where
  "execute_reti bt period =
     seq getSp (\<lambda>sp. seq (read16 bt (ucast sp)) (\<lambda>sr. next_op (setSr (ucast sr))
       (seq getSp (\<lambda>sp1. next_op (setSp (sp1 + 2))
         (seq getSp (\<lambda>sp2. seq (read16 bt (ucast sp2)) (\<lambda>pc. next_op (setPc (ucast pc))
           (seq getSp (\<lambda>sp3. next_op (setSp (sp3 + 2)) (waitCycles period 1))))))))))"

definition executeSingleOpInstruction :: "'s transport \<Rightarrow> sc_time \<Rightarrow> u16 \<Rightarrow> ('s, unit) cpu_op" where
  "executeSingleOpInstruction bt period opcode =
     (let instrIdx = field opcode 0x0380 7 in
      seq (getSourceOperand bt opcode) (\<lambda>op.
        if instrIdx = 0 then execute_rrc bt op
        else if instrIdx = 1 then execute_swpb bt op
        else if instrIdx = 2 then execute_rra bt op
        else if instrIdx = 3 then execute_sxt bt op
        else if instrIdx = 4 then execute_push bt period op
        else if instrIdx = 5 then execute_call bt period opcode op
        else if instrIdx = 6 then execute_reti bt period
        else fail Report_fatal))"

section \<open>Double operand instructions\<close>

definition isCarry :: "u32 \<Rightarrow> u32 \<Rightarrow> bool \<Rightarrow> bool \<Rightarrow> bool" where
  "isCarry a b c bnw =
     (if bnw then (a AND 0xff) + (b AND 0xff) + of_bool c > 0xff
      else (a AND 0xffff) + (b AND 0xffff) + of_bool c > 0xffff)"

definition isOverflow :: "u32 \<Rightarrow> u32 \<Rightarrow> bool \<Rightarrow> bool \<Rightarrow> bool" where
  "isOverflow a b c bnw =
     (let res = a + b + of_bool c;
          aNeg = isNegative (ucast a) bnw;
          bNeg = isNegative (ucast b) bnw;
          resNeg = isNegative (ucast res) bnw
      in (resNeg \<and> \<not> aNeg \<and> \<not> bNeg) \<or> (\<not> resNeg \<and> aNeg \<and> bNeg))"

definition set_znvc :: "u32 \<Rightarrow> bool \<Rightarrow> bool \<Rightarrow> bool \<Rightarrow> ('s, unit) cpu_op" where
  "set_znvc result bnw v c =
     next_op (setZeroFlag (isZero (ucast result) bnw))
       (next_op (setNegativeFlag (isNegative (ucast result) bnw))
         (next_op (setOverflowFlag v) (setCarryFlag c)))"

definition set_logic_flags :: "u32 \<Rightarrow> bool \<Rightarrow> bool \<Rightarrow> ('s, unit) cpu_op" where
  "set_logic_flags result bnw v =
     next_op (setZeroFlag (isZero (ucast result) bnw))
       (next_op (setNegativeFlag (isNegative (ucast result) bnw))
         (next_op (setOverflowFlag v) (seq getZeroFlag (\<lambda>z. setCarryFlag (\<not> z)))))"

definition execute_double :: "'s transport \<Rightarrow> nat \<Rightarrow> operand \<Rightarrow> operand \<Rightarrow> ('s, unit) cpu_op" where
  "execute_double bt instrIdx srcOp dstOp =
     (let bnw = byteNotWord srcOp; src = op_val srcOp; dst = op_val dstOp;
          wb = (\<lambda>r. writeback_op bt (dstOp\<lparr>op_val := r\<rparr>))
      in if instrIdx = 4 then wb src
         else if instrIdx = 5 then
           let result = src + dst in
           next_op (set_znvc result (byteNotWord dstOp) (isOverflow src dst False bnw)
               (isCarry src dst False bnw)) (wb result)
         else if instrIdx = 6 then
           seq getCarryFlag (\<lambda>c. let result = src + dst + of_bool c in
             next_op (set_znvc result (byteNotWord dstOp) (isOverflow src dst c bnw)
               (isCarry src dst c bnw)) (wb result))
         else if instrIdx = 7 then
           seq getCarryFlag (\<lambda>c. let result = NOT src + of_bool c + dst in
             next_op (set_znvc result bnw (isOverflow dst (NOT src) c bnw)
               (isCarry dst (NOT src) c bnw)) (wb result))
         else if instrIdx = 8 then
           let result = NOT src + dst + 1 in
           next_op (set_znvc result bnw (isOverflow dst (NOT src) True bnw)
             (isCarry dst (NOT src) True bnw)) (wb result)
         else if instrIdx = 9 then
           let result = NOT src + dst + 1 in
           set_znvc result bnw (isOverflow dst (NOT src) True bnw) (isCarry dst (NOT src) True bnw)
         else if instrIdx = 10 then fail Report_fatal
         else if instrIdx = 11 then set_logic_flags (src AND dst) bnw False
         else if instrIdx = 12 then wb (dst AND NOT src)
         else if instrIdx = 13 then wb (dst OR src)
         else if instrIdx = 14 then
           next_op (set_logic_flags (dst XOR src) bnw
             (isNegative (ucast src) bnw \<and> isNegative (ucast dst) bnw)) (wb (dst XOR src))
         else if instrIdx = 15 then
           let result = dst AND src in
           next_op (set_znvc result bnw False (\<not> isZero (ucast result) bnw)) (wb result)
         else ret ())"

definition executeDoubleOpInstruction :: "'s transport \<Rightarrow> sc_time \<Rightarrow> u16 \<Rightarrow> ('s, unit) cpu_op" where
  "executeDoubleOpInstruction bt period opcode =
     (let instrIdx = field opcode 0xf000 12;
          as = field opcode 0x0030 4;
          srcRegNum = field opcode 0x0f00 8
      in seq (getSourceOperand bt opcode) (\<lambda>srcOp.
         seq (getDestinationOperand bt opcode) (\<lambda>dstOp.
         next_op (if op_addr dstOp = 0 then
                    (if as = 3 \<and> srcRegNum = 0 then waitCycles period 1 else waitCycles period 2)
                  else ret ())
           (execute_double bt instrIdx srcOp dstOp))))"

section \<open>Interrupts and the main loop\<close>

text \<open>
  The input signals at the points where an iteration of the main loop reads them:
  \<open>irqIdx_vec\<close> is \<open>irqIdx\<close> when the vector address is computed, after the two pushes have
  waited for the bus, and \<open>pwrOn_end\<close> is \<open>pwrOn\<close> at the end of the iteration.
\<close>

record cpu_env =
  pwrOn :: bool
  irq :: bool
  irqIdx :: nat
  irqIdx_vec :: nat
  pwrOn_end :: bool

definition vector_addr :: "nat \<Rightarrow> u16" where
  "vector_addr idx = 0xfffe - 2 * of_nat idx"

definition push16 :: "'s transport \<Rightarrow> u16 \<Rightarrow> ('s, unit) cpu_op" where
  "push16 bt v =
     seq getSp (\<lambda>sp. next_op (setSp (sp - 2)) (seq getSp (\<lambda>sp'. write16 bt (ucast sp') v)))"

definition acknowledge :: "sc_time \<Rightarrow> ('s, unit) cpu_op" where
  "acknowledge period =
     next_op (log_effect (Ira True)) (next_op (waitCycles period 2) (log_effect (Ira False)))"

definition enter_vector :: "'s transport \<Rightarrow> u16 \<Rightarrow> ('s, unit) cpu_op" where
  "enter_vector bt addr =
     seq getSr (\<lambda>sr. next_op (setSr (sr AND push_bit 6 1))
       (seq (read16 bt (ucast addr)) (\<lambda>pc. setPc (ucast pc))))"

definition processInterrupt :: "'s transport \<Rightarrow> sc_time \<Rightarrow> cpu_env \<Rightarrow> ('s, unit) cpu_op" where
  "processInterrupt bt period env =
     (if irqIdx env = 0 then
        next_op (acknowledge period)
          (next_op (enter_vector bt 0xfffe)
            (next_op (log_effect (Cpu_state St_on)) (modify (\<lambda>s. s\<lparr>m_sleeping := False\<rparr>))))
      else
        seq getSr (\<lambda>sr.
          if sr AND 0x0008 \<noteq> 0 \<or> irqIdx env < 3 then
            seq getPc (\<lambda>pc.
            next_op (push16 bt (ucast pc))
             (seq getSr (\<lambda>sr1.
              next_op (push16 bt (ucast sr1))
               (next_op (acknowledge period) (enter_vector bt (vector_addr (irqIdx_vec env)))))))
          else ret ()))"

definition set_sleeping :: "bool \<Rightarrow> cpu_power_state \<Rightarrow> ('s, unit) cpu_op" where
  "set_sleeping b st =
     seq (get m_sleeping) (\<lambda>cur.
       if cur \<noteq> b then next_op (log_effect (Cpu_state st)) (modify (\<lambda>s. s\<lparr>m_sleeping := b\<rparr>))
       else ret ())"

definition execute_one :: "'s transport \<Rightarrow> sc_time \<Rightarrow> ('s, unit) cpu_op" where
  "execute_one bt period =
     seq (fetch bt) (\<lambda>opcode.
       let instructionFmt = field opcode 0xe000 13 in
       next_op
         (if instructionFmt = 0 then
            next_op (executeSingleOpInstruction bt period opcode) (log_effect (Cpu_event Ev_formatII))
          else if instructionFmt = 1 then
            next_op (executeConditionalJump period opcode) (log_effect (Cpu_event Ev_formatIII))
          else
            next_op (executeDoubleOpInstruction bt period opcode) (log_effect (Cpu_event Ev_formatI)))
         (modify (\<lambda>s. if m_doStep s then s\<lparr>m_run := False, m_doStep := False\<rparr> else s)))"

definition run_or_sleep :: "'s transport \<Rightarrow> sc_time \<Rightarrow> ('s, unit) cpu_op" where
  "run_or_sleep bt period =
     seq getSr (\<lambda>sr.
       if sr AND 0x0010 \<noteq> 0 then
         next_op (set_sleeping True St_sleep) (wait_for period)
       else next_op (set_sleeping False St_on) (execute_one bt period))"

definition power_down :: "('s, unit) cpu_op" where
  "power_down =
     next_op (log_effect (Cpu_state St_off))
       (next_op (modify (\<lambda>s. s\<lparr>m_sleeping := False\<rparr>)) cpu_reset)"

text \<open>
  One iteration of the loop of \<open>process\<close>. A stalled core blocks in \<open>waitForCommand\<close>, which
  changes nothing here; the wait for power in \<open>power_down\<close> is the environment's.
\<close>

definition cpu_step :: "'s transport \<Rightarrow> sc_time \<Rightarrow> cpu_env \<Rightarrow> ('s, unit) cpu_op" where
  "cpu_step bt period env =
     (let tail = seq (get m_run) (\<lambda>r. if r \<and> \<not> pwrOn_end env then power_down else ret ()) in
      seq (get m_run) (\<lambda>run.
        if pwrOn env \<and> run then
          next_op
            (if irq env then next_op (log_effect (Cpu_event Ev_irq)) (processInterrupt bt period env)
             else ret ())
            (seq getPc (\<lambda>pc. seq (get m_breakpoints) (\<lambda>bps.
              if pc \<in> bps then modify (\<lambda>s. s\<lparr>m_run := False\<rparr>)
              else next_op (run_or_sleep bt period) tail)))
        else tail))"

fun cpu_run :: "'s transport \<Rightarrow> sc_time \<Rightarrow> cpu_env list \<Rightarrow> ('s, unit) cpu_op" where
  "cpu_run bt period [] = ret ()"
| "cpu_run bt period (e # es) = next_op (cpu_step bt period e) (cpu_run bt period es)"

section \<open>Debugger interface\<close>

definition dbg_writeReg :: "nat \<Rightarrow> u16 \<Rightarrow> ('s, unit) cpu_op" where
  "dbg_writeReg addr val =
     next_op (require (addr \<le> 16))
       (if addr = 0 then setPc (ucast val)
        else if addr = 1 then setSp (ucast val)
        else if addr = 2 then setSr (ucast val)
        else if addr = 3 then fail Report_fatal
        else setGpr addr (ucast val))"

definition dbg_readReg :: "nat \<Rightarrow> ('s, u16) cpu_op" where
  "dbg_readReg addr =
     next_op (require (addr \<le> 16))
       (if addr = 0 then seq getPc (\<lambda>v. ret (ucast v))
        else if addr = 1 then seq getSp (\<lambda>v. ret (ucast v))
        else if addr = 2 then seq getSr (\<lambda>v. ret (ucast v))
        else if addr = 3 then ret 0
        else seq (getGpr addr) (\<lambda>v. ret (ucast v)))"

definition insertBreakpoint :: "u32 \<Rightarrow> ('s, unit) cpu_op" where
  "insertBreakpoint addr = modify (\<lambda>s. s\<lparr>m_breakpoints := insert addr (m_breakpoints s)\<rparr>)"

definition removeBreakpoint :: "u32 \<Rightarrow> ('s, unit) cpu_op" where
  "removeBreakpoint addr = modify (\<lambda>s. s\<lparr>m_breakpoints := m_breakpoints s - {addr}\<rparr>)"

definition cpu_single_step :: "('s, unit) cpu_op" where
  "cpu_single_step = modify (\<lambda>s. s\<lparr>m_doStep := True, m_run := True\<rparr>)"

definition cpu_stall :: "('s, unit) cpu_op" where
  "cpu_stall = modify (\<lambda>s. s\<lparr>m_run := False\<rparr>)"

definition cpu_unstall :: "('s, unit) cpu_op" where
  "cpu_unstall = modify (\<lambda>s. s\<lparr>m_run := True\<rparr>)"

end
