(* ===== verification/Msp430_Alu.thy ===== *)
theory Msp430_Alu
  imports Msp430_Cpu
begin

unbundle bit_operations_syntax

text \<open>
  The flag functions of the core (\<open>isZero\<close>, \<open>isNegative\<close>, \<open>isCarry\<close>, \<open>isOverflow\<close>)
  computed on 32-bit values are the mathematical conditions on the unsigned and signed
  readings of 8-bit and 16-bit operands.
\<close>

section \<open>Signed readings\<close>

lemma sint_small: 
  "sint (x :: u16) = int (unat x) - (if 2 ^ 15 \<le> unat x then 2 ^ 16 else 0)"
  "sint (b :: u8) = int (unat b) - (if 2 ^ 7 \<le> unat b then 2 ^ 8 else 0)"
  using sint_unat [of x] bit_top [of x] sint_unat [of b] bit_top [of b] by simp_all

definition op_width :: "bool \<Rightarrow> nat" where
  "op_width bnw = (if bnw then 8 else 16)"

definition uval :: "bool \<Rightarrow> u32 \<Rightarrow> nat" where
  "uval bnw v = unat v mod 2 ^ op_width bnw"

definition sval :: "bool \<Rightarrow> u32 \<Rightarrow> int" where
  "sval bnw v = int (uval bnw v)
     - (if 2 ^ (op_width bnw - 1) \<le> uval bnw v then 2 ^ op_width bnw else 0)"

lemma uval_bound: "uval bnw v < 2 ^ op_width bnw"
  by (simp add: uval_def)

lemma uval_byte: "uval True v = unat (ucast v :: u8)"
  by (simp add: uval_def op_width_def unat_ucast_mod)

lemma uval_word: "uval False v = unat (ucast v :: u16)"
  by (simp add: uval_def op_width_def unat_ucast_mod)

lemma sval_sint:
  "sval True v = sint (ucast v :: u8)" "sval False v = sint (ucast v :: u16)"
  by (simp_all add: sval_def uval_byte uval_word sint_small) (simp_all add: op_width_def)

lemma uval_add: "uval bnw (a + b) = (uval bnw a + uval bnw b) mod 2 ^ op_width bnw"
proof -
  have "op_width bnw \<le> 32" by (simp add: op_width_def)
  then have "(2 ^ op_width bnw :: nat) dvd 2 ^ 32" by (rule le_imp_power_dvd)
  then show ?thesis
    by (simp add: uval_def unat_word_ariths mod_mod_cancel mod_add_eq)
qed

lemma uval_of_bool: "uval bnw (of_bool c) = of_bool c"
  by (simp add: uval_def op_width_def)

lemma uval_add3:
  "uval bnw (a + b + of_bool c) = (uval bnw a + uval bnw b + of_bool c) mod 2 ^ op_width bnw"
  by (simp add: uval_add uval_of_bool mod_add_left_eq)

lemma unat_not: "unat (NOT x) = 2 ^ LENGTH('a) - 1 - unat (x :: 'a::len word)"
proof -
  have "NOT x = - 1 - x" by (simp add: not_eq_complement)
  moreover have "x \<le> - 1" by (rule word_order.extremum)
  ultimately show ?thesis
    by (simp only: unat_sub) (simp add: unsigned_minus_1_eq_mask mask_eq_exp_minus_1)
qed

lemma uval_not: "uval bnw (NOT a) = 2 ^ op_width bnw - 1 - uval bnw a"
proof (cases bnw)
  case True
  have "ucast (NOT a) = NOT (ucast a :: u8)" by (rule bit_word_eqI) (simp add: bit_simps)
  then show ?thesis using True unat_not [of "ucast a :: u8"] by (simp add: uval_byte) (simp add: op_width_def)
next
  case False
  have "ucast (NOT a) = NOT (ucast a :: u16)" by (rule bit_word_eqI) (simp add: bit_simps)
  then show ?thesis using False unat_not [of "ucast a :: u16"] by (simp add: uval_word) (simp add: op_width_def)
qed

section \<open>The flag functions\<close>

lemma isZero_uval: "isZero (ucast v) bnw \<longleftrightarrow> uval bnw v = 0"
proof -
  have "(ucast (ucast v :: u16) :: u8) = ucast v" by (rule bit_word_eqI) (auto simp: bit_simps)
  then show ?thesis by (cases bnw) (simp_all add: isZero_def uval_byte uval_word unat_eq_0)
qed

lemma isNegative_uval: "isNegative (ucast v) bnw \<longleftrightarrow> 2 ^ (op_width bnw - 1) \<le> uval bnw v"
proof (cases bnw)
  case True
  have "bit (ucast v :: u16) 7 = bit (ucast v :: u8) 7" by (simp add: bit_simps)
  then show ?thesis
    using bit_top [of "ucast v :: u8"] True
    by (simp add: isNegative_def uval_byte op_width_def bit_iff_and_push_bit_not_eq_0)
next
  case False
  then show ?thesis
    using bit_top [of "ucast v :: u16"]
    by (simp add: isNegative_def uval_word op_width_def bit_iff_and_push_bit_not_eq_0)
qed

lemma isNegative_sval: "isNegative (ucast v) bnw \<longleftrightarrow> sval bnw v < 0"
  using uval_bound [of bnw v] by (auto simp: isNegative_uval sval_def)

lemma and_mask_uval:
  "unat (a AND 0xff) = uval True a" "unat (a AND 0xffff) = uval False a"
  using unat_and_mask [of a 8] unat_and_mask [of a 16]
  by (simp_all add: uval_def op_width_def mask_eq_exp_minus_1)

lemma isCarry_uval:
  "isCarry a b c bnw \<longleftrightarrow> 2 ^ op_width bnw \<le> uval bnw a + uval bnw b + of_bool c"
proof -
  have "unat (x + y + of_bool c) = unat x + unat y + of_bool c"
    if "unat x < 2 ^ 16" "unat y < 2 ^ 16" for x y :: u32
    using that by (simp add: unat_word_ariths)
  from this [of "a AND 0xff" "b AND 0xff"] this [of "a AND 0xffff" "b AND 0xffff"]
  show ?thesis
    using uval_bound [of True a] uval_bound [of True b] uval_bound [of False a] uval_bound [of False b]
    by (auto simp: isCarry_def and_mask_uval word_less_nat_alt op_width_def)
qed

lemma sval_bounds:
  "- (2 ^ (op_width bnw - 1)) \<le> sval bnw v" "sval bnw v < 2 ^ (op_width bnw - 1)"
  using uval_bound [of bnw v] by (cases bnw; simp add: sval_def op_width_def)+

lemma isOverflow_sval:
  "isOverflow a b c bnw \<longleftrightarrow>
     \<not> (- (2 ^ (op_width bnw - 1)) \<le> sval bnw a + sval bnw b + of_bool c
        \<and> sval bnw a + sval bnw b + of_bool c < 2 ^ (op_width bnw - 1))"
proof -
  define x y r where "x = uval bnw a" "y = uval bnw b" "r = uval bnw (a + b + of_bool c)"
  have r: "r = (x + y + of_bool c) mod 2 ^ op_width bnw" by (simp add: x_y_r_def uval_add3)
  have b: "x < 2 ^ op_width bnw" "y < 2 ^ op_width bnw" by (simp_all add: x_y_r_def uval_bound)
  then have "r = (if x + y + of_bool c < 2 ^ op_width bnw then x + y + of_bool c
      else x + y + of_bool c - 2 ^ op_width bnw)"
    unfolding r by (cases c) (auto simp: mod_if)
  then show ?thesis
    using b unfolding isOverflow_def Let_def isNegative_uval sval_def x_y_r_def [symmetric]
    by (cases bnw; cases c) (auto simp: op_width_def split: if_splits)
qed

section \<open>Subtraction and comparison\<close>

lemma sub_result: "NOT src + dst + 1 = dst - (src :: u32)"
  by (simp add: not_eq_complement)

lemma uval_sub:
  "uval bnw (NOT src + of_bool c + dst)
    = (uval bnw dst + (2 ^ op_width bnw - 1 - uval bnw src) + of_bool c) mod 2 ^ op_width bnw"
  using uval_add3 [of bnw "NOT src" dst c] by (simp add: uval_not ac_simps)

lemma sub_carry: "isCarry dst (NOT src) True bnw \<longleftrightarrow> uval bnw src \<le> uval bnw dst"
  using uval_bound [of bnw src] uval_bound [of bnw dst] by (auto simp: isCarry_uval uval_not)

lemma sval_not: "sval bnw (NOT v) = - sval bnw v - 1"
  using uval_bound [of bnw v] unfolding sval_def uval_not
  by (cases bnw) (auto simp: op_width_def of_nat_diff)

lemma sub_overflow:
  "isOverflow dst (NOT src) True bnw \<longleftrightarrow>
     \<not> (- (2 ^ (op_width bnw - 1)) \<le> sval bnw dst - sval bnw src
        \<and> sval bnw dst - sval bnw src < 2 ^ (op_width bnw - 1))"
  by (simp add: isOverflow_sval sval_not)

lemma sub_zero: "isZero (ucast (NOT src + dst + 1)) bnw \<longleftrightarrow> uval bnw dst = uval bnw src"
proof -
  have "uval bnw (NOT src + dst + 1) = (uval bnw dst + (2 ^ op_width bnw - 1 - uval bnw src) + 1) mod 2 ^ op_width bnw"
    using uval_sub [of bnw src True dst] by (simp add: ac_simps)
  also have "\<dots> = (if uval bnw src \<le> uval bnw dst then uval bnw dst - uval bnw src
      else uval bnw dst + 2 ^ op_width bnw - uval bnw src)"
    using uval_bound [of bnw src] uval_bound [of bnw dst] by (auto simp: mod_if)
  finally show ?thesis
    using uval_bound [of bnw src] by (auto simp: isZero_uval)
qed

lemma sub_less:
  "(isNegative (ucast (NOT src + dst + 1)) bnw \<noteq> isOverflow dst (NOT src) True bnw)
    \<longleftrightarrow> sval bnw dst < sval bnw src"
proof -
  have u: "uval bnw (NOT src + dst + 1)
      = (uval bnw dst + (2 ^ op_width bnw - 1 - uval bnw src) + 1) mod 2 ^ op_width bnw"
    using uval_sub [of bnw src True dst] by (simp add: ac_simps)
  have v: "uval bnw (NOT src + dst + 1) = (if uval bnw src \<le> uval bnw dst then uval bnw dst - uval bnw src
      else uval bnw dst + 2 ^ op_width bnw - uval bnw src)"
    unfolding u using uval_bound [of bnw src] uval_bound [of bnw dst] by (auto simp: mod_if)
  show ?thesis
    unfolding isNegative_uval sub_overflow v sval_def
    using uval_bound [of bnw src] uval_bound [of bnw dst]
    by (cases bnw) (auto simp: op_width_def of_nat_diff split: if_splits)
qed

end
