(* ===== verification/Bus.thy ===== *)
theory Bus
  imports Tlm_Device
begin

unbundle bit_operations_syntax

text \<open>
  \<open>mcu/Bus.hpp\<close> and \<open>mcu/Bus.cpp\<close>: the bus decodes the address of a transaction with
  its routing table, subtracts the target's start address, checks bounds, alignment and
  size, forwards the transaction to the target bound to that port, and records the
  access in its trace variables.

  The state of the simulated bus is the routing table with the trace variables; the
  targets behind the ports are a list of device states, with a transport function per
  port. The locale \<open>bus_devices\<close> shows that byte devices behind a routing table with
  disjoint ranges make up one byte device over the global addresses: no aliasing, and a
  write through one range is invisible in every other.
\<close>

section \<open>State and routing\<close>

type_synonym routing_table = "(u32 \<times> u32) list"

record bus =
  routingTable :: routing_table
  addressTrace :: u32
  sizeTrace :: u32
  dataTrace :: u32

definition Bus_new :: bus where
  "Bus_new = \<lparr>routingTable = [], addressTrace = 0xffffffff, sizeTrace = 0, dataTrace = 0\<rparr>"

definition bindTarget :: "bus \<Rightarrow> u32 \<Rightarrow> u32 \<Rightarrow> bus" where
  "bindTarget b s e = b\<lparr>routingTable := routingTable b @ [(s, e)]\<rparr>"

definition Bus_inRange :: "u32 \<Rightarrow> u32 \<times> u32 \<Rightarrow> bool" where
  "Bus_inRange a b = (a \<ge> fst b \<and> a \<le> snd b)"

fun find_port :: "routing_table \<Rightarrow> u32 \<Rightarrow> nat \<Rightarrow> nat option" where
  "find_port [] a i = None"
| "find_port (rt # rts) a i = (if Bus_inRange a rt then Some i else find_port rts a (Suc i))"

definition routeForward :: "routing_table \<Rightarrow> payload \<Rightarrow> nat option \<times> payload" where
  "routeForward rt tp =
     (let addr = address tp in
      case find_port rt (ucast addr) 0 of
        None \<Rightarrow> (None, tp)
      | Some i \<Rightarrow> (Some i, tp\<lparr>address := addr - ucast (fst (rt ! i))\<rparr>))"

definition overlapsExistingTarget :: "routing_table \<Rightarrow> u32 \<Rightarrow> u32 \<Rightarrow> bool" where
  "overlapsExistingTarget rt s e = (\<exists>a \<in> set rt. snd a > s \<and> fst a < e)"

section \<open>Checks and traces\<close>

definition checkTransaction :: "target \<Rightarrow> routing_table \<Rightarrow> payload \<Rightarrow> nat \<Rightarrow> unit result" where
  "checkTransaction t rt tp port =
     (let addr = address tp; len = data_length tp; (first, second) = rt ! port in
      check_r (addr + of_nat len - 1 \<le> ucast (second - first)) Assertion_failed
        (check_r (len \<noteq> 0) Runtime_error
          (check_r (addr mod of_nat len = 0) Assertion_failed
            (check_r (len \<le> word_size t) Assertion_failed (Inr ())))))"

fun trace_loop :: "nat \<Rightarrow> nat \<Rightarrow> u8 list \<Rightarrow> u32 \<Rightarrow> u32" where
  "trace_loop 0 i buf d = d"
| "trace_loop (Suc n) i buf d =
     (let d1 = push_bit 8 d in
      trace_loop n (Suc i) buf (if i < length buf then d1 OR ucast (buf ! i) else d1))"

definition updateTrace :: "bus \<Rightarrow> payload \<Rightarrow> u32 \<Rightarrow> bus" where
  "updateTrace b tp originalAddress =
     b\<lparr>dataTrace := trace_loop 4 0 (data tp) 0, addressTrace := originalAddress,
       sizeTrace := of_nat (data_length tp)\<rparr>"

section \<open>Transports\<close>

definition Bus_b_transport :: "target \<Rightarrow> (nat \<Rightarrow> 'd transport) \<Rightarrow> (bus \<times> 'd list) transport" where
  "Bus_b_transport t dt s tp delay =
     (let b = fst s; ds = snd s; addr = address tp in
      case routeForward (routingTable b) tp of
        (None, tp1) \<Rightarrow> Inl Report_fatal
      | (Some port, tp1) \<Rightarrow>
          bind_r (checkTransaction t (routingTable b) tp1 port) (\<lambda>_.
            check_r (port < length ds) Out_of_bounds
              (bind_r (dt port (ds ! port) tp1 delay) (\<lambda>(d', tp2, delay', fx).
                Inr ((updateTrace b tp2 (ucast addr), ds[port := d']), tp2, delay', fx)))))"

definition Bus_transport_dbg ::
  "(nat \<Rightarrow> 'd \<Rightarrow> payload \<Rightarrow> ('d \<times> payload \<times> nat) result) \<Rightarrow> bus \<times> 'd list \<Rightarrow> payload
    \<Rightarrow> ((bus \<times> 'd list) \<times> payload \<times> nat) result" where
  "Bus_transport_dbg ddbg s tp =
     (let b = fst s; ds = snd s; len = data_length tp; addr = address tp in
      case routeForward (routingTable b) tp of
        (Some port, tp1) \<Rightarrow>
          check_r (Bus_inRange (ucast addr) (routingTable b ! port)) Assertion_failed
            (check_r (Bus_inRange (ucast (addr + of_nat len - 1)) (routingTable b ! port))
               Assertion_failed
              (check_r (port < length ds) Out_of_bounds
                (bind_r (ddbg port (ds ! port) tp1) (\<lambda>(d', tp2, n).
                  Inr ((b, ds[port := d']), tp2, n)))))
      | (None, tp1) \<Rightarrow>
          Inr (s, tp1\<lparr>data := map (\<lambda>_. 0) (data tp1), response_ok := True\<rparr>, len))"

section \<open>Routing\<close>

definition disjoint_ranges :: "routing_table \<Rightarrow> bool" where
  "disjoint_ranges rt \<longleftrightarrow>
     (\<forall>i < length rt. \<forall>j < length rt. \<forall>a.
        Bus_inRange a (rt ! i) \<and> Bus_inRange a (rt ! j) \<longrightarrow> i = j)"

lemma find_port_Some:
  "find_port rt a n = Some k \<Longrightarrow> n \<le> k \<and> k < n + length rt \<and> Bus_inRange a (rt ! (k - n))"
proof (induction rt a n rule: find_port.induct)
  case (1 a i)
  then show ?case by simp
next
  case (2 r rts a i)
  then show ?case by (auto split: if_splits simp: nth_Cons' Suc_diff_le not_less_eq_eq)
qed

lemma find_port_None: "find_port rt a n = None \<Longrightarrow> k < length rt \<Longrightarrow> \<not> Bus_inRange a (rt ! k)"
proof (induction rt a n arbitrary: k rule: find_port.induct)
  case (1 a i)
  then show ?case by simp
next
  case (2 r rts a i)
  then show ?case by (cases k) (auto split: if_splits)
qed

lemma find_port_unique:
  assumes "disjoint_ranges rt" and "i < length rt" and "Bus_inRange a (rt ! i)"
  shows "find_port rt a 0 = Some i"
proof (cases "find_port rt a 0")
  case None
  then show ?thesis using find_port_None [OF None assms(2)] assms(3) by simp
next
  case (Some k)
  then have "k < length rt" "Bus_inRange a (rt ! k)" using find_port_Some [OF Some] by auto
  then have "k = i" using assms unfolding disjoint_ranges_def by blast
  then show ?thesis using Some by simp
qed


section \<open>Byte devices behind a bus\<close>

definition port_size :: "routing_table \<Rightarrow> nat \<Rightarrow> nat" where
  "port_size rt i = unat (snd (rt ! i) - fst (rt ! i)) + 1"

definition aligned_access :: "nat \<Rightarrow> nat \<Rightarrow> nat \<Rightarrow> nat \<Rightarrow> bool" where
  "aligned_access w sz a n \<longleftrightarrow> 0 < n \<and> n \<le> w \<and> a mod n = 0 \<and> a + n \<le> sz"

definition bus_serves :: "nat \<Rightarrow> routing_table \<Rightarrow> (nat \<Rightarrow> bool) \<Rightarrow> nat \<Rightarrow> nat \<Rightarrow> bool" where
  "bus_serves w rt mem a n \<longleftrightarrow>
     (\<exists>i < length rt. mem i \<and> unat (fst (rt ! i)) \<le> a
        \<and> aligned_access w (port_size rt i) (a - unat (fst (rt ! i))) n)"

definition bus_view ::
  "routing_table \<Rightarrow> (nat \<Rightarrow> bool) \<Rightarrow> (nat \<Rightarrow> 'd \<Rightarrow> nat \<Rightarrow> u8) \<Rightarrow> bus \<times> 'd list \<Rightarrow> nat \<Rightarrow> u8" where
  "bus_view rt mem dview s a =
     (if a < 2 ^ 32 then
        case find_port rt (of_nat a) 0 of
          None \<Rightarrow> 0
        | Some i \<Rightarrow> if mem i then dview i (snd s ! i) (a - unat (fst (rt ! i))) else 0
      else 0)"

definition bus_inv :: "routing_table \<Rightarrow> (nat \<Rightarrow> bool) \<Rightarrow> (nat \<Rightarrow> 'd \<Rightarrow> bool) \<Rightarrow> bus \<times> 'd list \<Rightarrow> bool" where
  "bus_inv rt mem dinv s \<longleftrightarrow>
     routingTable (fst s) = rt \<and> length (snd s) = length rt \<and> (\<forall>i < length rt. mem i \<longrightarrow> dinv i (snd s ! i))"

locale bus_devices =
  fixes t :: target
    and rt :: routing_table
    and mem :: "nat \<Rightarrow> bool"
    and dt :: "nat \<Rightarrow> 'd transport"
    and dview :: "nat \<Rightarrow> 'd \<Rightarrow> nat \<Rightarrow> u8"
    and dinv :: "nat \<Rightarrow> 'd \<Rightarrow> bool"
  assumes disj: "disjoint_ranges rt"
    and ranges: "i < length rt \<Longrightarrow> fst (rt ! i) \<le> snd (rt ! i)"
    and dev: "i < length rt \<Longrightarrow> mem i \<Longrightarrow>
      byte_device (dt i) (dview i) (dinv i) (aligned_access (word_size t) (port_size rt i))"
begin

lemma port_size_unat:
  "i < length rt \<Longrightarrow> unat (fst (rt ! i)) + port_size rt i = Suc (unat (snd (rt ! i)))"
  using ranges [of i] by (simp add: port_size_def unat_sub word_le_nat_alt)

lemma port_bound: "i < length rt \<Longrightarrow> unat (fst (rt ! i)) + port_size rt i \<le> 2 ^ 32"
  using port_size_unat [of i] unat_lt_2p [of "snd (rt ! i)"] by simp

lemma in_port:
  assumes "i < length rt" and "unat (fst (rt ! i)) \<le> b" and "b < unat (fst (rt ! i)) + port_size rt i"
  shows "b < 2 ^ 32" and "find_port rt (of_nat b) 0 = Some i"
proof -
  show b: "b < 2 ^ 32" using port_bound [OF assms(1)] assms(3) by simp
  have "Bus_inRange (of_nat b) (rt ! i)"
    using assms b port_size_unat [OF assms(1)]
    by (simp add: Bus_inRange_def word_le_nat_alt)
  then show "find_port rt (of_nat b) 0 = Some i"
    by (rule find_port_unique [OF disj assms(1)])
qed

lemma bus_view_in:
  assumes "i < length rt" and "mem i" and "unat (fst (rt ! i)) \<le> b" and "b < unat (fst (rt ! i)) + port_size rt i"
  shows "bus_view rt mem dview s b = dview i (snd s ! i) (b - unat (fst (rt ! i)))"
  using in_port [OF assms(1,3,4)] assms(2) by (simp add: bus_view_def)

lemma bus_view_update:
  assumes i: "i < length rt" "mem i" and len: "length ds = length rt"
    and d': "dview i d' = put_bytes (dview i (ds ! i)) (a - unat (fst (rt ! i))) buf"
    and a: "unat (fst (rt ! i)) \<le> a" "a - unat (fst (rt ! i)) + length buf \<le> port_size rt i"
  shows "bus_view rt mem dview (b', ds[i := d']) = put_bytes (bus_view rt mem dview (b, ds)) a buf"
proof (rule ext)
  fix c
  show "bus_view rt mem dview (b', ds[i := d']) c = put_bytes (bus_view rt mem dview (b, ds)) a buf c"
  proof (cases "unat (fst (rt ! i)) \<le> c \<and> c < unat (fst (rt ! i)) + port_size rt i")
    case True
    then show ?thesis
      using bus_view_in [OF i, of c "(b', ds[i := d'])"] bus_view_in [OF i, of c "(b, ds)"]
        i(1) len a(1) by (auto simp: d' put_bytes_def)
  next
    case out: False
    have "find_port rt (of_nat c) 0 \<noteq> Some i" if "c < 2 ^ 32"
    proof
      assume "find_port rt (of_nat c) 0 = Some i"
      then have "Bus_inRange (of_nat c) (rt ! i)" using find_port_Some [of rt _ 0 i] by force
      then have "unat (fst (rt ! i)) \<le> c" "c \<le> unat (snd (rt ! i))"
        using that by (simp_all add: Bus_inRange_def word_le_nat_alt)
      then show False using out port_size_unat [OF i(1)] by simp
    qed
    then have "bus_view rt mem dview (b', ds[i := d']) c = bus_view rt mem dview (b, ds) c"
      by (auto simp: bus_view_def nth_list_update split: option.split)
    then show ?thesis using out a by (auto simp: put_bytes_def)
  qed
qed

lemma routed:
  assumes inv: "bus_inv rt mem dinv (b, ds)"
    and s: "bus_serves (word_size t) rt mem (unat (address p)) (length (data p))"
  obtains i p1 where "i < length rt" "mem i" "unat (fst (rt ! i)) \<le> unat (address p)"
    "unat (address p1) = unat (address p) - unat (fst (rt ! i))"
    "data p1 = data p" "command p1 = command p"
    "aligned_access (word_size t) (port_size rt i) (unat (address p1)) (length (data p1))"
    "Bus_b_transport t dt (b, ds) p d
     = bind_r (dt i (ds ! i) p1 d) (\<lambda>(d', p2, delay', fx).
         Inr ((updateTrace b p2 (ucast (address p)), ds[i := d']), p2, delay', fx))"
proof -
  let ?a = "unat (address p)" and ?n = "length (data p)"
  obtain i where i: "i < length rt" and mi: "mem i" and le: "unat (fst (rt ! i)) \<le> ?a"
    and al: "aligned_access (word_size t) (port_size rt i) (?a - unat (fst (rt ! i))) ?n"
    using s unfolding bus_serves_def by blast
  let ?s = "fst (rt ! i)"
  let ?p1 = "p\<lparr>address := address p - ucast ?s\<rparr>"
  have al': "0 < ?n" "?n \<le> word_size t" "(?a - unat ?s) mod ?n = 0" "?a - unat ?s + ?n \<le> port_size rt i"
    using al by (simp_all add: aligned_access_def)
  have b32: "?a - unat ?s + ?n \<le> 2 ^ 32" "?a < 2 ^ 32"
    using al'(1,4) port_bound [OF i] le by linarith+
  have "find_port rt (of_nat ?a) 0 = Some i"
    using al'(1,4) le by (intro in_port [OF i]) linarith+
  then have fp: "find_port rt (ucast (address p)) 0 = Some i"
    by (simp add: word_unat_eq_iff unat_ucast_mod unat_of_nat take_bit_eq_mod)
  have "ucast ?s \<le> address p"
    using le by (simp add: word_le_nat_alt)
  then have a1: "unat (address ?p1) = ?a - unat ?s"
    by (simp add: unat_sub)
  obtain m where m: "?n = Suc m" using al'(1) by (cases ?n) auto
  have "address ?p1 + of_nat ?n - 1 = of_nat (?a - unat ?s + (?n - 1))"
    unfolding m a1 [symmetric] by simp
  then have "unat (address ?p1 + of_nat ?n - 1) = ?a - unat ?s + (?n - 1)"
    using b32 al'(1) by (simp only:) (rule unat_of_nat_lt, simp)
  moreover have "unat (ucast (snd (rt ! i) - ?s) :: u64) = port_size rt i - 1"
    by (simp add: port_size_def)
  ultimately have c1: "address ?p1 + of_nat ?n - 1 \<le> ucast (snd (rt ! i) - ?s)"
    using al'(1,4) by (simp add: word_le_nat_alt)
  have "unat (of_nat ?n :: u64) = ?n" using b32 by simp
  then have c2: "address ?p1 mod of_nat ?n = 0"
    using a1 al'(3) by (simp add: word_unat_eq_iff unat_mod_distrib)
  have "checkTransaction t rt ?p1 i = Inr ()"
    unfolding checkTransaction_def Let_def data_length_def
    using c1 c2 al'(1,2) by (simp add: split_beta)
  then show ?thesis
    using that [OF i mi le a1] al a1 fp inv i
    by (simp add: Bus_b_transport_def routeForward_def bus_inv_def Let_def)
qed

lemma bus_inv_update:
  "bus_inv rt mem dinv (b, ds) \<Longrightarrow> dinv i d' \<Longrightarrow> bus_inv rt mem dinv (updateTrace b p x, ds[i := d'])"
  by (cases "i < length ds")
    (simp_all add: bus_inv_def updateTrace_def nth_list_update list_update_beyond)

lemma bus_serves_bound: "bus_serves w rt mem a n \<Longrightarrow> a < 2 ^ 64"
proof -
  assume "bus_serves w rt mem a n"
  then obtain i where "i < length rt" "unat (fst (rt ! i)) \<le> a" "0 < n"
      "a - unat (fst (rt ! i)) + n \<le> port_size rt i"
    by (auto simp: bus_serves_def aligned_access_def)
  then show ?thesis using port_bound [of i] by simp
qed

end

sublocale bus_devices \<subseteq> bus: byte_device
  "Bus_b_transport t dt" "bus_view rt mem dview" "bus_inv rt mem dinv" "bus_serves (word_size t) rt mem"
proof
  fix s :: "bus \<times> 'd list" and p :: payload and d :: sc_time
  obtain b ds where sbd: "s = (b, ds)" by (cases s)
  assume inv: "bus_inv rt mem dinv s" and sv: "bus_serves (word_size t) rt mem (unat (address p)) (length (data p))"
  obtain i p1 where i: "i < length rt" "unat (fst (rt ! i)) \<le> unat (address p)"
      "unat (address p1) = unat (address p) - unat (fst (rt ! i))" "data p1 = data p" "command p1 = command p"
      "aligned_access (word_size t) (port_size rt i) (unat (address p1)) (length (data p1))"
    and mi: "mem i"
    and tr: "Bus_b_transport t dt (b, ds) p d
     = bind_r (dt i (ds ! i) p1 d) (\<lambda>(d', p2, delay', fx).
         Inr ((updateTrace b p2 (ucast (address p)), ds[i := d']), p2, delay', fx))"
    by (rule routed [OF inv [unfolded sbd] sv]) (rule that)
  have di: "dinv i (ds ! i)" and len: "length ds = length rt"
    using inv i(1) mi unfolding sbd bus_inv_def fst_conv snd_conv by blast+
  have fits: "unat (address p) - unat (fst (rt ! i)) + length (data p) \<le> port_size rt i"
    using i(3,4,6) by (simp add: aligned_access_def)
  note upd = bus_view_update [OF i(1) mi len _ i(2), of _ "[]"]
  show "\<exists>s' p' d' fx. Bus_b_transport t dt s p d = Inr (s', p', d', fx)
      \<and> data p' = get_bytes (bus_view rt mem dview s) (unat (address p)) (length (data p))
      \<and> response_ok p' \<and> bus_inv rt mem dinv s' \<and> bus_view rt mem dview s' = bus_view rt mem dview s"
    if cmd: "command p = TLM_READ_COMMAND"
  proof -
    obtain d1 p2 dl fx where r: "dt i (ds ! i) p1 d = Inr (d1, p2, dl, fx)"
        "data p2 = get_bytes (dview i (ds ! i)) (unat (address p1)) (length (data p1))"
        "response_ok p2" "dinv i d1" "dview i d1 = dview i (ds ! i)"
      using byte_device.read_law [OF dev [OF i(1) mi] di _ i(6), of d] cmd i(5) by auto
    have g: "data p2 = get_bytes (bus_view rt mem dview s) (unat (address p)) (length (data p))"
      unfolding r(2) i(3,4) sbd
      by (rule nth_equalityI)
        (use i(2) fits bus_view_in [OF i(1) mi, of "unat (address p) + j" "(b, ds)" for j]
          in \<open>auto simp: get_bytes_def\<close>)
    have v: "bus_view rt mem dview (updateTrace b p2 (ucast (address p)), ds[i := d1]) = bus_view rt mem dview s"
      using upd [of d1 "updateTrace b p2 (ucast (address p))" b] r(5) fits by (simp add: sbd)
    show ?thesis
      using tr r(1,3) g v bus_inv_update [OF inv [unfolded sbd] r(4)] by (simp add: sbd)
  qed
  show "\<exists>s' p' d' fx. Bus_b_transport t dt s p d = Inr (s', p', d', fx)
      \<and> data p' = data p \<and> response_ok p' \<and> bus_inv rt mem dinv s'
      \<and> bus_view rt mem dview s' = put_bytes (bus_view rt mem dview s) (unat (address p)) (data p)"
    if cmd: "command p = TLM_WRITE_COMMAND"
  proof -
    obtain d1 p2 dl fx where r: "dt i (ds ! i) p1 d = Inr (d1, p2, dl, fx)"
        "data p2 = data p1" "response_ok p2" "dinv i d1"
        "dview i d1 = put_bytes (dview i (ds ! i)) (unat (address p1)) (data p1)"
      using byte_device.write_law [OF dev [OF i(1) mi] di _ i(6), of d] cmd i(5) by auto
    have v: "bus_view rt mem dview (updateTrace b p2 (ucast (address p)), ds[i := d1])
        = put_bytes (bus_view rt mem dview s) (unat (address p)) (data p)"
      using bus_view_update [OF i(1) mi len _ i(2) fits, of d1 "updateTrace b p2 (ucast (address p))" b]
        r(5) i(3,4) by (simp add: sbd)
    show ?thesis
      using tr r(1-3) v i(4) bus_inv_update [OF inv [unfolded sbd] r(4)] by (simp add: sbd)
  qed
qed (rule bus_serves_bound)

context bus_devices
begin

lemma bus_run_flat:
  assumes "bus_inv rt mem dinv s"
    and "\<forall>x \<in> set xs. bus_serves (word_size t) rt mem (txn_addr x) (txn_len x)"
  shows "\<exists>s'. dev_run (Bus_b_transport t dt) s xs = Inr (s', snd (flat_run (bus_view rt mem dview s) xs))
    \<and> bus_inv rt mem dinv s' \<and> bus_view rt mem dview s' = fst (flat_run (bus_view rt mem dview s) xs)"
  by (rule bus.run_flat [OF assms])

end



lemma trace_loop_4:
  "trace_loop 4 0 buf d = trace_loop (Suc (Suc (Suc (Suc 0)))) 0 buf d"
  by (simp add: eval_nat_numeral)

text \<open>After a completed transaction the trace variables hold the undecoded address, the
  length, and the first four bytes of the data with the first byte most significant.\<close>

lemma bus_trace_correct:
  assumes "length (data tp) \<le> 4"
  shows "updateTrace b tp a = b\<lparr>addressTrace := a, sizeTrace := of_nat (length (data tp)),
     dataTrace := host_load32 ((data tp @ [0, 0, 0, 0]) ! 3) ((data tp @ [0, 0, 0, 0]) ! 2)
       ((data tp @ [0, 0, 0, 0]) ! 1) ((data tp @ [0, 0, 0, 0]) ! 0)\<rparr>"
proof -
  consider "data tp = []" | x0 where "data tp = [x0]" | x0 x1 where "data tp = [x0, x1]"
    | x0 x1 x2 where "data tp = [x0, x1, x2]" | x0 x1 x2 x3 where "data tp = [x0, x1, x2, x3]"
    using assms by (cases "data tp" rule: list.exhaust; cases "tl (data tp)"; cases "tl (tl (data tp))";
        cases "tl (tl (tl (data tp)))"; cases "tl (tl (tl (tl (data tp))))") auto
  then have "trace_loop 4 0 (data tp) 0 = host_load32 ((data tp @ [0, 0, 0, 0]) ! 3)
      ((data tp @ [0, 0, 0, 0]) ! 2) ((data tp @ [0, 0, 0, 0]) ! 1) ((data tp @ [0, 0, 0, 0]) ! 0)"
    unfolding trace_loop_4
    by cases (auto intro!: bit_word_eqI simp: host_load32_def bit_simps nth_Cons' Let_def)
  then show ?thesis
    by (simp add: updateTrace_def data_length_def)
qed

lemma bus_trace_correct_witness:
  "dataTrace (updateTrace Bus_new \<lparr>command = TLM_READ_COMMAND, address = 2, data = [1, 2], response_ok = True\<rparr> 7)
   = 0x01020000"
  using bus_trace_correct [of "\<lparr>command = TLM_READ_COMMAND, address = 2, data = [1, 2], response_ok = True\<rparr>" Bus_new 7]
  by (simp add: host_load32_def)

text \<open>\<open>overlapsExistingTarget\<close> is sound for non-empty ranges but misses ranges that share
  just an end point.\<close>

lemma overlapsExistingTarget_sound:
  assumes "overlapsExistingTarget rt s e" and "s \<le> e" and "\<forall>a \<in> set rt. fst a \<le> snd a"
  shows "\<exists>a \<in> set rt. \<exists>x. Bus_inRange x a \<and> s \<le> x \<and> x \<le> e"
proof -
  obtain a where a: "a \<in> set rt" "snd a > s" "fst a < e" "fst a \<le> snd a"
    using assms by (auto simp: overlapsExistingTarget_def)
  then show ?thesis
    using assms(2) by (intro bexI [of _ a] exI [of _ "max s (fst a)"])
      (auto simp: Bus_inRange_def max_def)
qed

lemma overlap_endpoint_missed:
  "\<not> overlapsExistingTarget [(s, e)] e f" "Bus_inRange e (s, e) \<longleftrightarrow> s \<le> e"
  by (simp_all add: overlapsExistingTarget_def Bus_inRange_def)

end
