(* ===== verification/Replacement.thy ===== *)
theory Replacement
  imports Fused_Prelude
begin

unbundle bit_operations_syntax

text \<open>
  \<open>mcu/CacheReplacementPolicies.hpp\<close>: the four cache replacement policies behind the
  interface \<open>CacheReplacementIf\<close>. Virtual dispatch is a \<open>datatype\<close> of policy states.
  The shift register of the pseudo random policy is a function-local \<open>static\<close>, one for
  the whole program, so the dispatching operations thread it through.

  The locale \<open>replacement_policy\<close> is the contract the cache relies on: every operation
  succeeds and keeps the policy's state well formed, and a victim is a line of the set.
  The LRU list is moreover shown to be the recency order of the whole access history.
\<close>

section \<open>Least recently used\<close>

definition lru_init :: "nat \<Rightarrow> nat list" where
  "lru_init nLines = [0..<nLines]"

definition lru_hit :: "nat list \<Rightarrow> nat \<Rightarrow> nat list" where
  "lru_hit m_lru lineNo = lineNo # removeAll lineNo m_lru"

definition lru_miss :: "nat list \<Rightarrow> (nat \<times> nat list) result" where
  "lru_miss m_lru =
     check_r (m_lru \<noteq> []) Out_of_bounds
       (let m_lru' = last m_lru # butlast m_lru in Inr (hd m_lru', m_lru'))"

definition lru_reset :: "nat list \<Rightarrow> nat list" where
  "lru_reset m_lru = [0..<length m_lru]"

section \<open>Round robin\<close>

record round_robin =
  rr_cnt :: u32
  rr_nLines :: u32

definition rr_miss :: "round_robin \<Rightarrow> (nat \<times> round_robin) result" where
  "rr_miss p =
     check_r (rr_nLines p \<noteq> 0) Runtime_error
       (let c = (rr_cnt p + 1) mod rr_nLines p in Inr (unat c, p\<lparr>rr_cnt := c\<rparr>))"

definition rr_reset :: "round_robin \<Rightarrow> round_robin" where
  "rr_reset p = p\<lparr>rr_cnt := 0\<rparr>"

section \<open>Least frequently used\<close>

record lfu =
  lfu_counters :: "int list"
  lfu_saturation :: int
  lfu_tieBreaker :: bool

definition lfu_init :: "nat \<Rightarrow> int \<Rightarrow> lfu" where
  "lfu_init nLines saturation =
     \<lparr>lfu_counters = replicate nLines 0, lfu_saturation = saturation, lfu_tieBreaker = False\<rparr>"

definition lfu_hit :: "lfu \<Rightarrow> nat \<Rightarrow> lfu result" where
  "lfu_hit p lineNo =
     check_r (lineNo < length (lfu_counters p)) Out_of_bounds
       (Inr (if lfu_counters p ! lineNo < lfu_saturation p
             then p\<lparr>lfu_counters := (lfu_counters p)[lineNo := lfu_counters p ! lineNo + 1]\<rparr>
             else p))"

fun lfu_scan :: "int list \<Rightarrow> nat \<Rightarrow> nat \<Rightarrow> int \<Rightarrow> int \<Rightarrow> nat \<times> int" where
  "lfu_scan [] i victim tie mn = (victim, tie)"
| "lfu_scan (c # cs) i victim tie mn =
     (if c < mn then lfu_scan cs (Suc i) i (-1) c
      else if c = mn then lfu_scan cs (Suc i) victim (int i) mn
      else lfu_scan cs (Suc i) victim tie mn)"

definition lfu_miss :: "lfu \<Rightarrow> (nat \<times> lfu) result" where
  "lfu_miss p =
     (case lfu_counters p of
        [] \<Rightarrow> Inl Out_of_bounds
      | c0 # cs \<Rightarrow>
          let (victim, tie) = lfu_scan cs 1 0 (-1) c0;
              victim' = (if tie > 0 then (if lfu_tieBreaker p then victim else nat tie) else victim);
              tb = (if tie > 0 then \<not> lfu_tieBreaker p else lfu_tieBreaker p)
          in Inr (victim', p\<lparr>lfu_counters := (lfu_counters p)[victim' := 0], lfu_tieBreaker := tb\<rparr>))"

definition lfu_reset :: "lfu \<Rightarrow> lfu" where
  "lfu_reset p = p\<lparr>lfu_counters := map (\<lambda>_. 0) (lfu_counters p)\<rparr>"

section \<open>Pseudo random\<close>

definition lfsr_init :: u16 where
  "lfsr_init = 0xBEEF"

definition lfsr_next :: "u16 \<Rightarrow> u16" where
  "lfsr_next l =
     (let b = drop_bit 0 l XOR drop_bit 2 l XOR drop_bit 3 l XOR drop_bit 5 l
      in drop_bit 1 l OR push_bit 15 b)"

definition random_miss :: "u32 \<Rightarrow> u16 \<Rightarrow> nat \<times> u16" where
  "random_miss outputMask lfsr =
     (let l = lfsr_next lfsr in (unat (ucast l AND outputMask), l))"

section \<open>Dispatch\<close>

datatype replacement =
    Lru "nat list"
  | RoundRobin round_robin
  | Lfu lfu
  | PseudoRandom u32

fun policy_hit :: "replacement \<times> u16 \<Rightarrow> nat \<Rightarrow> bool \<Rightarrow> (replacement \<times> u16) result" where
  "policy_hit (Lru m_lru, l) lineNo isWrite = Inr (Lru (lru_hit m_lru lineNo), l)"
| "policy_hit (RoundRobin p, l) lineNo isWrite = Inr (RoundRobin p, l)"
| "policy_hit (Lfu p, l) lineNo isWrite = bind_r (lfu_hit p lineNo) (\<lambda>p'. Inr (Lfu p', l))"
| "policy_hit (PseudoRandom m, l) lineNo isWrite = Inr (PseudoRandom m, l)"

fun policy_miss :: "replacement \<times> u16 \<Rightarrow> bool \<Rightarrow> (nat \<times> replacement \<times> u16) result" where
  "policy_miss (Lru m_lru, l) isWrite =
     bind_r (lru_miss m_lru) (\<lambda>(v, m'). Inr (v, Lru m', l))"
| "policy_miss (RoundRobin p, l) isWrite =
     bind_r (rr_miss p) (\<lambda>(v, p'). Inr (v, RoundRobin p', l))"
| "policy_miss (Lfu p, l) isWrite =
     bind_r (lfu_miss p) (\<lambda>(v, p'). Inr (v, Lfu p', l))"
| "policy_miss (PseudoRandom m, l) isWrite =
     (let (v, l') = random_miss m l in Inr (v, PseudoRandom m, l'))"

fun policy_reset :: "replacement \<Rightarrow> replacement" where
  "policy_reset (Lru m_lru) = Lru (lru_reset m_lru)"
| "policy_reset (RoundRobin p) = RoundRobin (rr_reset p)"
| "policy_reset (Lfu p) = Lfu (lfu_reset p)"
| "policy_reset (PseudoRandom m) = PseudoRandom m"

section \<open>The contract\<close>

datatype access_op = Hit nat | Miss

locale replacement_policy =
  fixes hit :: "'p \<Rightarrow> nat \<Rightarrow> bool \<Rightarrow> 'p result"
    and miss :: "'p \<Rightarrow> bool \<Rightarrow> (nat \<times> 'p) result"
    and wf :: "nat \<Rightarrow> 'p \<Rightarrow> bool"
  assumes hit_ok: "wf n p \<Longrightarrow> i < n \<Longrightarrow> \<exists>p'. hit p i w = Inr p' \<and> wf n p'"
    and miss_ok: "wf n p \<Longrightarrow> \<exists>v p'. miss p w = Inr (v, p') \<and> v < n \<and> wf n p'"
begin

definition one_access :: "'p \<Rightarrow> access_op \<Rightarrow> (nat \<times> 'p) result" where
  "one_access p x =
     (case x of Hit i \<Rightarrow> bind_r (hit p i False) (\<lambda>p'. Inr (i, p')) | Miss \<Rightarrow> miss p False)"

fun run :: "'p \<Rightarrow> access_op list \<Rightarrow> (nat list \<times> 'p) result" where
  "run p [] = Inr ([], p)"
| "run p (x # xs) =
     bind_r (one_access p x) (\<lambda>(v, p'). bind_r (run p' xs) (\<lambda>(vs, p''). Inr (v # vs, p'')))"

lemma run_ok:
  assumes "wf n p" and "\<forall>i. Hit i \<in> set xs \<longrightarrow> i < n"
  shows "\<exists>vs p'. run p xs = Inr (vs, p') \<and> wf n p' \<and> (\<forall>v \<in> set vs. v < n)"
  using assms
proof (induction xs arbitrary: p)
  case Nil
  then show ?case by simp
next
  case (Cons x xs)
  have "\<exists>v p'. one_access p x = Inr (v, p') \<and> v < n \<and> wf n p'"
  proof (cases x)
    case (Hit i)
    then show ?thesis
      using hit_ok [OF Cons.prems(1), of i False] Cons.prems(2) by (auto simp: one_access_def)
  next
    case Miss
    then show ?thesis
      using miss_ok [OF Cons.prems(1), of False] by (auto simp: one_access_def)
  qed
  then obtain v p' where "one_access p x = Inr (v, p')" "v < n" "wf n p'"
    by blast
  moreover then obtain vs p'' where "run p' xs = Inr (vs, p'')" "wf n p''" "\<forall>v \<in> set vs. v < n"
    using Cons.IH [of p'] Cons.prems(2) by auto
  ultimately show ?case by auto
qed

end

section \<open>Well-formed policy states\<close>

definition lru_wf :: "nat \<Rightarrow> nat list \<Rightarrow> bool" where
  "lru_wf n m_lru \<longleftrightarrow> 0 < n \<and> distinct m_lru \<and> set m_lru = {0..<n}"

definition rr_wf :: "nat \<Rightarrow> round_robin \<Rightarrow> bool" where
  "rr_wf n p \<longleftrightarrow> 0 < n \<and> unat (rr_nLines p) = n"

definition lfu_wf :: "nat \<Rightarrow> lfu \<Rightarrow> bool" where
  "lfu_wf n p \<longleftrightarrow> 0 < n \<and> length (lfu_counters p) = n"

definition random_wf :: "nat \<Rightarrow> u32 \<Rightarrow> bool" where
  "random_wf n m \<longleftrightarrow> unat m < n"

fun policy_wf :: "nat \<Rightarrow> replacement \<Rightarrow> bool" where
  "policy_wf n (Lru m_lru) = lru_wf n m_lru"
| "policy_wf n (RoundRobin p) = rr_wf n p"
| "policy_wf n (Lfu p) = lfu_wf n p"
| "policy_wf n (PseudoRandom m) = random_wf n m"

lemma lru_wf_hit: "lru_wf n m \<Longrightarrow> i < n \<Longrightarrow> lru_wf n (lru_hit m i)"
  by (simp add: lru_wf_def lru_hit_def distinct_removeAll insert_absorb)

lemma rotate_last:
  assumes "m \<noteq> []" and "distinct m"
  shows "distinct (last m # butlast m)" and "set (last m # butlast m) = set m"
    and "removeAll (last m) m = butlast m"
proof -
  obtain ys y where m: "m = ys @ [y]"
    using assms(1) by (cases m rule: rev_exhaust) auto
  then show "distinct (last m # butlast m)" and "set (last m # butlast m) = set m"
    using assms(2) by auto
  show "removeAll (last m) m = butlast m"
    using assms(2) by (simp add: m)
qed

lemma lru_wf_miss:
  assumes "lru_wf n m"
  shows "\<exists>v m'. lru_miss m = Inr (v, m') \<and> v < n \<and> lru_wf n m'"
proof -
  have m: "m \<noteq> []" "distinct m" "set m = {0..<n}"
    using assms by (auto simp: lru_wf_def)
  then have "last m < n" using last_in_set by fastforce
  then show ?thesis
    using assms m rotate_last [OF m(1,2)] by (simp add: lru_miss_def lru_wf_def)
qed

lemma rr_wf_miss:
  assumes "rr_wf n p"
  shows "\<exists>v p'. rr_miss p = Inr (v, p') \<and> v < n \<and> rr_wf n p'"
proof -
  have "rr_nLines p \<noteq> 0" using assms by (auto simp: rr_wf_def)
  then have "(rr_cnt p + 1) mod rr_nLines p < rr_nLines p"
    by (simp add: word_mod_less_divisor word_neq_0_conv)
  then show ?thesis
    using assms \<open>rr_nLines p \<noteq> 0\<close>
    by (auto simp: rr_miss_def rr_wf_def Let_def word_less_nat_alt)
qed

lemma lfu_scan_bound:
  "victim < i \<Longrightarrow> tie < int i \<Longrightarrow> lfu_scan cs i victim tie mn = (v, t) \<Longrightarrow>
   v < i + length cs \<and> t < int (i + length cs)"
proof (induction cs i victim tie mn rule: lfu_scan.induct)
  case (1 i victim tie mn)
  then show ?case by simp
next
  case (2 c cs i victim tie mn)
  then show ?case by (fastforce split: if_splits)
qed

lemma lfu_wf_miss:
  assumes "lfu_wf n p"
  shows "\<exists>v p'. lfu_miss p = Inr (v, p') \<and> v < n \<and> lfu_wf n p'"
proof -
  obtain c0 cs where c: "lfu_counters p = c0 # cs" "n = Suc (length cs)"
    using assms by (cases "lfu_counters p") (auto simp: lfu_wf_def)
  obtain v t where vt: "lfu_scan cs 1 0 (-1) c0 = (v, t)" by fastforce
  have "v < n \<and> t < int n"
    using lfu_scan_bound [OF _ _ vt] c by simp
  then show ?thesis
    using c vt by (auto simp: lfu_miss_def lfu_wf_def Let_def split: nat.split)
qed

lemma random_wf_miss: "random_wf n m \<Longrightarrow> fst (random_miss m l) < n"
  using word_and_mask_bound [of "ucast (lfsr_next l)" m]
  by (simp add: random_wf_def random_miss_def Let_def)

interpretation policy: replacement_policy policy_hit policy_miss "\<lambda>n (p, l). policy_wf n p"
proof
  fix n i w and p :: "replacement \<times> u16"
  assume wf: "case p of (p, l) \<Rightarrow> policy_wf n p" and "i < n"
  then show "\<exists>p'. policy_hit p i w = Inr p' \<and> (case p' of (p, l) \<Rightarrow> policy_wf n p)"
    by (cases "(p, i, w)" rule: policy_hit.cases)
      (auto simp: lru_wf_hit lfu_hit_def lfu_wf_def)
next
  fix n w and p :: "replacement \<times> u16"
  assume wf: "case p of (p, l) \<Rightarrow> policy_wf n p"
  show "\<exists>v p'. policy_miss p w = Inr (v, p') \<and> v < n \<and> (case p' of (p, l) \<Rightarrow> policy_wf n p)"
  proof (cases "(p, w)" rule: policy_miss.cases)
    case (1 m l w)
    then show ?thesis using wf lru_wf_miss [of n m] by auto
  next
    case (2 p l w)
    then show ?thesis using wf rr_wf_miss [of n p] by auto
  next
    case (3 p l w)
    then show ?thesis using wf lfu_wf_miss [of n p] by auto
  next
    case (4 m l w)
    then show ?thesis using wf random_wf_miss [of n m l] by (auto split: prod.splits)
  qed
qed

lemma policy_wf_reset: "policy_wf n p \<Longrightarrow> policy_wf n (policy_reset p)"
proof (cases p)
  case (Lru m)
  moreover assume "policy_wf n p"
  ultimately have "length m = n"
    by (metis card_atLeastLessThan distinct_card lru_wf_def minus_nat.diff_0 policy_wf.simps(1))
  with Lru \<open>policy_wf n p\<close> show ?thesis by (auto simp: lru_reset_def lru_wf_def)
qed (auto simp: rr_reset_def rr_wf_def lfu_reset_def lfu_wf_def)

section \<open>LRU is the recency order of the access history\<close>

fun recency :: "nat list \<Rightarrow> nat list" where
  "recency [] = []"
| "recency (x # xs) = x # removeAll x (recency xs)"

fun lru_access :: "nat list \<Rightarrow> access_op \<Rightarrow> (nat \<times> nat list) result" where
  "lru_access m_lru (Hit i) = Inr (i, lru_hit m_lru i)"
| "lru_access m_lru Miss = lru_miss m_lru"

fun lru_run :: "nat list \<Rightarrow> access_op list \<Rightarrow> (nat list \<times> nat list) result" where
  "lru_run m_lru [] = Inr ([], m_lru)"
| "lru_run m_lru (x # xs) =
     bind_r (lru_access m_lru x) (\<lambda>(v, m').
       bind_r (lru_run m' xs) (\<lambda>(vs, m''). Inr (v # vs, m'')))"

lemma set_recency [simp]: "set (recency xs) = set xs"
  by (induction xs) auto

lemma distinct_recency [simp]: "distinct (recency xs)"
  by (induction xs) (auto simp: distinct_removeAll)

lemma recency_distinct [simp]: "distinct xs \<Longrightarrow> recency xs = xs"
  by (induction xs) auto

lemma lru_miss_as_hit:
  assumes "lru_miss m = Inr (v, m')" and "distinct m"
  shows "v = last m \<and> m' = lru_hit m v"
proof -
  have m: "m \<noteq> []" "v = last m" "m' = last m # butlast m"
    using assms(1) by (auto simp: lru_miss_def check_r_eq_Inr Let_def)
  then show ?thesis
    using rotate_last(3) [OF m(1) assms(2)] by (simp add: lru_hit_def)
qed

lemma lru_run_recency_gen:
  assumes "lru_run m xs = Inr (vs, m')" and "m = recency hist"
  shows "m' = recency (rev vs @ hist)"
  using assms
proof (induction xs arbitrary: m vs hist)
  case Nil
  then show ?case by simp
next
  case (Cons x xs)
  obtain v m1 vs' where step: "lru_access m x = Inr (v, m1)" "lru_run m1 xs = Inr (vs', m')"
      "vs = v # vs'"
    using Cons.prems(1) by (auto simp: bind_r_eq_Inr)
  have "m1 = lru_hit m v"
  proof (cases x)
    case (Hit i)
    then show ?thesis using step(1) by auto
  next
    case Miss
    then show ?thesis using step(1) lru_miss_as_hit [of m v m1] Cons.prems(2) by simp
  qed
  then have "m1 = recency (v # hist)"
    using Cons.prems(2) by (simp add: lru_hit_def)
  then show ?case
    using Cons.IH [OF step(2)] step(3) by simp
qed

text \<open>C7: the LRU list is the recency order of the whole access history, so that a miss
  evicts the line whose last use lies furthest back.\<close>

theorem lru_evicts_least_recent:
  assumes "lru_run (lru_init n) xs = Inr (vs, m)" and "lru_miss m = Inr (v, m')"
  shows "m = recency (rev vs @ lru_init n) \<and> v = last (recency (rev vs @ lru_init n))"
proof -
  have m: "m = recency (rev vs @ lru_init n)"
    using lru_run_recency_gen [OF assms(1)] by (simp add: lru_init_def)
  then show ?thesis
    using lru_miss_as_hit [OF assms(2)] by simp
qed

theorem lru_evicts_least_recent_witness:
  "lru_run (lru_init 3) [Hit 2, Miss, Hit 0] = Inr ([2, 1, 0], [0, 1, 2])
   \<and> lru_miss [0, 1, 2] = Inr (2, [2, 0, 1])
   \<and> (2 :: nat) = last (recency (rev [2, 1, 0] @ lru_init 3))"
proof -
  have r: "lru_run (lru_init 3) [Hit 2, Miss, Hit 0] = Inr ([2, 1, 0], [0, 1, 2])"
      "lru_miss [0, 1, 2] = Inr (2, [2, 0, 1])"
    by (simp_all add: lru_init_def upt_rec lru_hit_def lru_miss_def)
  from lru_evicts_least_recent [OF r] r show ?thesis by simp
qed

text \<open>Every replacement policy, from any well-formed state and under any sequence of hits
  on lines of the set and misses, never fails, always names a victim within the set, and
  stays well formed.\<close>

lemma policy_victim_in_set:
  assumes "policy_wf n p" and "\<forall>i. Hit i \<in> set xs \<longrightarrow> i < n"
  shows "\<exists>vs p' l'. policy.run (p, l) xs = Inr (vs, p', l')
    \<and> policy_wf n p' \<and> (\<forall>v \<in> set vs. v < n)"
  using policy.run_ok [of n "(p, l)" xs] assms by auto

lemma policy_victim_in_set_witness:
  "\<exists>vs p' l'. policy.run (Lfu (lfu_init 4 64), lfsr_init) [Hit 1, Miss, Hit 3, Miss] = Inr (vs, p', l')
    \<and> policy_wf 4 p' \<and> (\<forall>v \<in> set vs. v < 4)"
  by (rule policy_victim_in_set) (auto simp: lfu_init_def lfu_wf_def)

end
