(* ===== verification/Cache.thy ===== *)
theory Cache
  imports Tlm_Device Replacement
begin

unbundle bit_operations_syntax

text \<open>
  \<open>mcu/Cache.hpp\<close> and \<open>mcu/Cache.cpp\<close>: the set-associative cache between the bus and
  a memory. \<open>Cache_b_transport\<close> is the whole of \<open>Cache::b_transport\<close>; its first
  argument is the \<open>b_transport\<close> of whatever is bound to the memory port \<open>iSocket\<close>.

  The state keeps the sets; the configuration read in the constructor is a record of
  its own. \<open>m_writePolicy\<close> stays uninitialised when the configuration names no known
  policy, which is \<open>None\<close> here (the \<open>default\<close> branch of the switch).
\<close>

section \<open>Data\<close>

record cache_line =
  valid :: bool
  dirty :: bool
  tag :: u32
  line_data :: "u8 list"

record cache_set =
  replacementPolicy :: replacement
  lines :: "cache_line list"

datatype write_policy = WP_WRITE_THROUGH | WP_WRITE_AROUND | WP_WRITE_BACK

record cache_cfg =
  lineWidth :: nat
  nSets :: nat
  nLines :: nat
  nOffsetBits :: nat
  nIdBits :: nat
  offsetMask :: u32
  idMask :: u32
  tagMask :: u32
  writePolicy :: "write_policy option"

record cache_state =
  sets :: "cache_set list"
  lfsr :: u16

section \<open>Construction and reset\<close>

fun ilog2 :: "nat \<Rightarrow> nat" where
  "ilog2 n = (if n < 2 then 0 else Suc (ilog2 (n div 2)))"

declare ilog2.simps [simp del]

definition CacheLine_new :: "nat \<Rightarrow> cache_line" where
  "CacheLine_new w = \<lparr>valid = False, dirty = False, tag = 0, line_data = replicate w 0\<rparr>"

definition CacheLine_reset :: "cache_line \<Rightarrow> cache_line" where
  "CacheLine_reset l =
     l\<lparr>valid := False, dirty := False, tag := 0, line_data := map (\<lambda>_. 0xAA) (line_data l)\<rparr>"

definition CacheSet_new :: "nat \<Rightarrow> nat \<Rightarrow> replacement \<Rightarrow> cache_set" where
  "CacheSet_new n w p = \<lparr>replacementPolicy = p, lines = replicate n (CacheLine_new w)\<rparr>"

definition CacheSet_reset :: "cache_set \<Rightarrow> cache_set" where
  "CacheSet_reset s =
     s\<lparr>lines := map CacheLine_reset (lines s),
       replacementPolicy := policy_reset (replacementPolicy s)\<rparr>"

definition parse_write_policy :: "string \<Rightarrow> write_policy option" where
  "parse_write_policy wp =
     (if wp = ''WriteThrough'' then Some WP_WRITE_THROUGH
      else if wp = ''WriteAround'' then Some WP_WRITE_AROUND
      else if wp = ''WriteBack'' then Some WP_WRITE_BACK
      else None)"

definition new_policy :: "string \<Rightarrow> nat \<Rightarrow> replacement result" where
  "new_policy setCfg n =
     (if setCfg = ''LRU'' then Inr (Lru (lru_init n))
      else if setCfg = ''LFU'' then Inr (Lfu (lfu_init n 64))
      else if setCfg = ''RoundRobin'' then Inr (RoundRobin \<lparr>rr_cnt = 0, rr_nLines = of_nat n\<rparr>)
      else if setCfg = ''PseudoRandom'' then Inr (PseudoRandom (of_nat n - 1))
      else Inl Report_fatal)"

definition Cache_cfg :: "nat \<Rightarrow> nat \<Rightarrow> nat \<Rightarrow> string \<Rightarrow> cache_cfg" where
  "Cache_cfg w ns nl wp =
     (let ob = ilog2 w; ib = ilog2 ns; om = of_nat w - 1; im = push_bit ob (of_nat ns - 1) in
      \<lparr>lineWidth = w, nSets = ns, nLines = nl, nOffsetBits = ob, nIdBits = ib,
       offsetMask = om, idMask = im, tagMask = NOT (om OR im), writePolicy = parse_write_policy wp\<rparr>)"

definition Cache_new :: "cache_cfg \<Rightarrow> string \<Rightarrow> cache_state result" where
  "Cache_new cfg rp =
     bind_r (new_policy rp (nLines cfg)) (\<lambda>p.
       Inr \<lparr>sets = replicate (nSets cfg) (CacheSet_new (nLines cfg) (lineWidth cfg) p),
            lfsr = lfsr_init\<rparr>)"

definition Cache_reset :: "cache_state \<Rightarrow> cache_state" where
  "Cache_reset c = c\<lparr>sets := map CacheSet_reset (sets c)\<rparr>"

section \<open>Address decoding\<close>

definition cache_index :: "cache_cfg \<Rightarrow> u32 \<Rightarrow> u32" where
  "cache_index cfg addr = drop_bit (nOffsetBits cfg) (addr AND idMask cfg)"

definition cache_tag :: "cache_cfg \<Rightarrow> u32 \<Rightarrow> u32" where
  "cache_tag cfg addr = drop_bit (nOffsetBits cfg + nIdBits cfg) (addr AND tagMask cfg)"

definition cache_offset :: "cache_cfg \<Rightarrow> u32 \<Rightarrow> u32" where
  "cache_offset cfg addr = addr AND offsetMask cfg"

fun find_line :: "cache_line list \<Rightarrow> nat \<Rightarrow> u32 \<Rightarrow> nat option" where
  "find_line [] i t = None"
| "find_line (l # ls) i t = (if tag l = t \<and> valid l then Some i else find_line ls (Suc i) t)"

definition findLine :: "cache_set \<Rightarrow> u32 \<Rightarrow> nat option" where
  "findLine s t = find_line (lines s) 0 t"

section \<open>Line transfers over the memory port\<close>

definition writeLine ::
  "'m transport \<Rightarrow> cache_cfg \<Rightarrow> 'm \<Rightarrow> cache_line \<Rightarrow> u32 \<Rightarrow> sc_time
    \<Rightarrow> ('m \<times> cache_line \<times> sc_time \<times> effect list) result" where
  "writeLine mt cfg m line addr delay =
     check_r (dirty line) Assertion_failed
       (check_r (valid line) Assertion_failed
         (let wbaddr = push_bit (nOffsetBits cfg + nIdBits cfg) (tag line)
                       OR push_bit (nOffsetBits cfg) (cache_index cfg addr);
              p = \<lparr>command = TLM_WRITE_COMMAND, address = ucast wbaddr, data = line_data line,
                   response_ok = False\<rparr>
          in bind_r (mt m p delay) (\<lambda>(m', p', delay', fx).
               Inr (m', line\<lparr>dirty := False\<rparr>, delay', fx))))"

definition readLine ::
  "'m transport \<Rightarrow> cache_cfg \<Rightarrow> 'm \<Rightarrow> u32 \<Rightarrow> cache_line \<Rightarrow> sc_time
    \<Rightarrow> ('m \<times> cache_line \<times> sc_time \<times> effect list) result" where
  "readLine mt cfg m addr line delay =
     check_r (\<not> dirty line) Assertion_failed
       (let p = \<lparr>command = TLM_READ_COMMAND, address = ucast (addr AND NOT (offsetMask cfg)),
                 data = line_data line, response_ok = False\<rparr>
        in bind_r (mt m p delay) (\<lambda>(m', p', delay', fx).
             Inr (m', line\<lparr>line_data := data p', tag := cache_tag cfg addr, valid := True,
                           dirty := False\<rparr>, delay', fx)))"

definition evictLine ::
  "'m transport \<Rightarrow> cache_cfg \<Rightarrow> 'm \<Rightarrow> cache_line \<Rightarrow> u32 \<Rightarrow> sc_time
    \<Rightarrow> ('m \<times> cache_line \<times> sc_time \<times> effect list) result" where
  "evictLine mt cfg m line addr delay =
     (if valid line \<and> dirty line then writeLine mt cfg m line addr delay
      else Inr (m, line, delay, []))"

definition updateLine :: "cache_cfg \<Rightarrow> cache_line \<Rightarrow> u32 \<Rightarrow> u8 list \<Rightarrow> cache_line result" where
  "updateLine cfg line addr buf =
     (let ofs = unat (cache_offset cfg addr) in
      check_r (ofs + length buf \<le> length (line_data line)) Out_of_bounds
        (Inr (line\<lparr>line_data := overwrite (line_data line) ofs buf\<rparr>)))"

section \<open>Reads and writes on the selected line\<close>

definition cache_write ::
  "'m transport \<Rightarrow> cache_cfg \<Rightarrow> 'm \<Rightarrow> bool \<Rightarrow> cache_line \<Rightarrow> payload \<Rightarrow> sc_time
    \<Rightarrow> ('m \<times> cache_line \<times> sc_time \<times> effect list) result" where
  "cache_write mt cfg m hit line tp delay =
     (let addr = ucast (address tp) :: u32;
          outputTrans = \<lparr>command = TLM_WRITE_COMMAND, address = address tp, data = data tp,
                         response_ok = False\<rparr>
      in case writePolicy cfg of
           Some WP_WRITE_AROUND \<Rightarrow>
             check_r (\<not> dirty line) Assertion_failed
               (bind_r (mt m outputTrans delay) (\<lambda>(m', p', delay', fx).
                  Inr (m', (if hit then line\<lparr>valid := False\<rparr> else line), delay', fx)))
         | Some WP_WRITE_THROUGH \<Rightarrow>
             check_r (\<not> dirty line) Assertion_failed
               (bind_r (if \<not> hit then readLine mt cfg m addr line delay
                        else Inr (m, line, delay, [])) (\<lambda>(m1, line1, delay1, fx1).
                  bind_r (updateLine cfg line1 addr (data tp)) (\<lambda>line2.
                    bind_r (mt m1 outputTrans delay1) (\<lambda>(m2, p', delay2, fx2).
                      Inr (m2, line2, delay2, fx1 @ fx2)))))
         | Some WP_WRITE_BACK \<Rightarrow>
             bind_r (if \<not> hit then evictLine mt cfg m line addr delay
                     else Inr (m, line, delay, [])) (\<lambda>(m1, line1, delay1, fx1).
               bind_r (if \<not> hit then readLine mt cfg m1 addr line1 delay1
                       else Inr (m1, line1, delay1, [])) (\<lambda>(m2, line2, delay2, fx2).
                 bind_r (updateLine cfg line2 addr (data tp)) (\<lambda>line3.
                   Inr (m2, line3\<lparr>dirty := True\<rparr>, delay2, fx1 @ fx2))))
         | None \<Rightarrow> Inl Report_fatal)"

definition cache_read ::
  "'m transport \<Rightarrow> cache_cfg \<Rightarrow> 'm \<Rightarrow> bool \<Rightarrow> cache_line \<Rightarrow> payload \<Rightarrow> sc_time
    \<Rightarrow> ('m \<times> cache_line \<times> u8 list \<times> sc_time \<times> effect list) result" where
  "cache_read mt cfg m hit line tp delay =
     (let addr = ucast (address tp) :: u32;
          ofs = unat (cache_offset cfg addr);
          len = data_length tp
      in bind_r (if \<not> hit then evictLine mt cfg m line addr delay
                 else Inr (m, line, delay, [])) (\<lambda>(m1, line1, delay1, fx1).
           bind_r (if \<not> hit then readLine mt cfg m1 addr line1 delay1
                   else Inr (m1, line1, delay1, [])) (\<lambda>(m2, line2, delay2, fx2).
             check_r (ofs + len \<le> length (line_data line2)) Out_of_bounds
               (Inr (m2, line2, segment (line_data line2) ofs len, delay2, fx1 @ fx2)))))"

section \<open>Selection of the line\<close>

definition select_line ::
  "cache_cfg \<Rightarrow> cache_set \<Rightarrow> u16 \<Rightarrow> u32 \<Rightarrow> bool
    \<Rightarrow> (bool \<times> nat \<times> replacement \<times> u16) result" where
  "select_line cfg s l t isWrite =
     (case findLine s t of
        Some i \<Rightarrow>
          check_r (i < nLines cfg) Assertion_failed
            (bind_r (policy_hit (replacementPolicy s, l) i isWrite) (\<lambda>(p, l').
               Inr (True, i, p, l')))
      | None \<Rightarrow>
          bind_r (policy_miss (replacementPolicy s, l) isWrite) (\<lambda>(v, p, l').
            check_r (v < nLines cfg) Assertion_failed (Inr (False, v, p, l'))))"

definition put_line :: "cache_state \<Rightarrow> nat \<Rightarrow> nat \<Rightarrow> cache_line \<Rightarrow> cache_state" where
  "put_line c i k l =
     c\<lparr>sets := (sets c)[i := (sets c ! i)\<lparr>lines := (lines (sets c ! i))[k := l]\<rparr>]\<rparr>"

definition put_policy :: "cache_state \<Rightarrow> nat \<Rightarrow> replacement \<Rightarrow> u16 \<Rightarrow> cache_state" where
  "put_policy c i p l =
     c\<lparr>sets := (sets c)[i := (sets c ! i)\<lparr>replacementPolicy := p\<rparr>], lfsr := l\<rparr>"

section \<open>The blocking transport\<close>

definition Cache_b_transport ::
  "'m transport \<Rightarrow> cache_cfg \<Rightarrow> sc_time \<Rightarrow> (cache_state \<times> 'm) transport" where
  "Cache_b_transport mt cfg period cm tp delay =
     (let c = fst cm; m = snd cm;
          addr = ucast (address tp) :: u32;
          len = data_length tp;
          isWrite = (command tp = TLM_WRITE_COMMAND);
          i = unat (cache_index cfg addr)
      in check_r (\<not> cache_offset cfg addr
                    > cache_offset cfg (ucast (address tp + of_nat len - 1))) Report_fatal
          (check_r (i < length (sets c)) Out_of_bounds
            (bind_r (select_line cfg (sets c ! i) (lfsr c) (cache_tag cfg addr) isWrite)
              (\<lambda>(hit, k, p, l').
                let c1 = put_policy c i p l'; line = lines (sets c ! i) ! k in
                check_r (k < length (lines (sets c ! i))) Out_of_bounds
                 (case command tp of
                    TLM_WRITE_COMMAND \<Rightarrow>
                      bind_r (cache_write mt cfg m hit line tp delay) (\<lambda>(m', line', delay', fx).
                        Inr ((put_line c1 i k line', m'), tp\<lparr>response_ok := True\<rparr>,
                             delay' + period,
                             [Notify Write_event (delay + period), Report Pe_write 1,
                              Report Pe_bytes_written len,
                              Report (if hit then Pe_write_hit else Pe_write_miss) 1] @ fx))
                  | TLM_READ_COMMAND \<Rightarrow>
                      bind_r (cache_read mt cfg m hit line tp delay) (\<lambda>(m', line', buf, delay', fx).
                        Inr ((put_line c1 i k line', m'), tp\<lparr>data := buf, response_ok := True\<rparr>,
                             delay' + period,
                             [Notify Read_event (delay + period), Report Pe_read 1,
                              Report Pe_bytes_read len,
                              Report (if hit then Pe_read_hit else Pe_read_miss) 1] @ fx))
                  | TLM_IGNORE_COMMAND \<Rightarrow> Inl Report_fatal)))))"

text \<open>Debug accesses bypass the cache.\<close>

definition Cache_transport_dbg ::
  "('m \<Rightarrow> payload \<Rightarrow> ('m \<times> payload \<times> nat) result) \<Rightarrow> cache_state \<times> 'm \<Rightarrow> payload
    \<Rightarrow> ((cache_state \<times> 'm) \<times> payload \<times> nat) result" where
  "Cache_transport_dbg mdbg cm tp =
     bind_r (mdbg (snd cm) tp) (\<lambda>(m', tp', n). Inr ((fst cm, m'), tp', n))"

end
