(* ===== verification/Bus_Target.thy ===== *)
theory Bus_Target
  imports Tlm_Device
begin

unbundle bit_operations_syntax

text \<open>
  \<open>mcu/BusTarget.hpp\<close> and \<open>mcu/BusTarget.cpp\<close>: the base class of everything on the bus.
  Its default \<open>b_transport\<close> and \<open>transport_dbg\<close> read and write the register file
  \<open>m_regs\<close>. The address range \<open>[startAddress, endAddress]\<close> is fixed at construction,
  which asserts that it is not empty.

  A register file of plain registers is a byte device (interpretation \<open>regs\<close>).
\<close>

record bus_range =
  startAddress :: u32
  endAddress :: u32

definition BusTarget_new :: "u32 \<Rightarrow> u32 \<Rightarrow> bus_range result" where
  "BusTarget_new s e = check_r (s \<le> e) Assertion_failed (Inr \<lparr>startAddress = s, endAddress = e\<rparr>)"

definition BusTarget_inRange :: "bus_range \<Rightarrow> u32 \<Rightarrow> bool" where
  "BusTarget_inRange r addr = (addr \<le> startAddress r - endAddress r)"

definition BusTarget_b_transport :: "target \<Rightarrow> sc_time \<Rightarrow> register_file transport" where
  "BusTarget_b_transport t period m_regs tp delay =
     (let addr = unat (address tp) in
      case command tp of
        TLM_WRITE_COMMAND \<Rightarrow>
          bind_r (rf_write_buf t m_regs addr (data tp) False) (\<lambda>m_regs'.
            Inr (m_regs', tp\<lparr>response_ok := True\<rparr>, delay + period,
                 [Notify Write_event (delay + period), Report Pe_write 1]))
      | TLM_READ_COMMAND \<Rightarrow>
          bind_r (rf_read_buf t m_regs addr (data_length tp)) (\<lambda>buf.
            Inr (m_regs, tp\<lparr>data := buf, response_ok := True\<rparr>, delay + period,
                 [Notify Read_event (delay + period), Report Pe_read 1]))
      | TLM_IGNORE_COMMAND \<Rightarrow> Inl Report_fatal)"

definition BusTarget_transport_dbg ::
  "target \<Rightarrow> register_file \<Rightarrow> payload \<Rightarrow> (register_file \<times> payload \<times> nat) result" where
  "BusTarget_transport_dbg t m_regs tp =
     (let addr = unat (address tp) in
      case command tp of
        TLM_WRITE_COMMAND \<Rightarrow>
          bind_r (rf_write_buf t m_regs addr (data tp) False) (\<lambda>m_regs'.
            Inr (m_regs', tp\<lparr>response_ok := True\<rparr>, data_length tp))
      | TLM_READ_COMMAND \<Rightarrow>
          bind_r (rf_read_buf t m_regs addr (data_length tp)) (\<lambda>buf.
            Inr (m_regs, tp\<lparr>data := buf, response_ok := True\<rparr>, data_length tp))
      | TLM_IGNORE_COMMAND \<Rightarrow> Inl Report_fatal)"

interpretation regs: byte_device
  "BusTarget_b_transport msp430 period" rf_view "\<lambda>rf. plain rf 0 cap"
  "\<lambda>a n. a + n \<le> cap \<and> a < 2 ^ 64" for period cap
proof
  fix s :: register_file and p :: payload and d
  assume "plain s 0 cap"
    and b: "unat (address p) + length (data p) \<le> cap \<and> unat (address p) < 2 ^ 64"
  then have pl: "plain s (unat (address p)) (length (data p))"
    by (auto intro: plain_mono)
  {
    assume "command p = TLM_READ_COMMAND"
    then show "\<exists>s' p' d' fx. BusTarget_b_transport msp430 period s p d = Inr (s', p', d', fx)
        \<and> data p' = get_bytes (rf_view s) (unat (address p)) (length (data p)) \<and> response_ok p'
        \<and> plain s' 0 cap \<and> rf_view s' = rf_view s"
      using \<open>plain s 0 cap\<close> rf_read_buf_view [OF word16_msp430 pl]
      by (simp add: BusTarget_b_transport_def data_length_def)
  }
  {
    assume "command p = TLM_WRITE_COMMAND"
    then show "\<exists>s' p' d' fx. BusTarget_b_transport msp430 period s p d = Inr (s', p', d', fx)
        \<and> data p' = data p \<and> response_ok p' \<and> plain s' 0 cap
        \<and> rf_view s' = put_bytes (rf_view s) (unat (address p)) (data p)"
      using \<open>plain s 0 cap\<close> rf_write_buf_view [OF word16_msp430 pl, of False]
      by (auto simp: BusTarget_b_transport_def data_length_def dest: plain_cong)
  }
qed simp



end
