(* ===== verification/Memories.thy ===== *)
theory Memories
  imports Bus_Target
begin

unbundle bit_operations_syntax

text \<open>
  \<open>mcu/GenericMemory.cpp\<close>, \<open>mcu/VolatileMemory.hpp\<close>, \<open>mcu/NonvolatileMemory.cpp\<close>
  and \<open>mcu/DummyPeripheral.cpp\<close>: memories on the bus. The memory array is a list of
  \<open>m_capacity\<close> bytes; a \<open>memcpy\<close> outside it is \<open>Out_of_bounds\<close>.

  Both memories are byte devices (interpretations \<open>generic\<close> and \<open>nonvolatile\<close>), and
  Kernighan's bit count of the nonvolatile memory is shown to count the set bits.
\<close>

section \<open>Generic memory\<close>

definition GenericMemory_capacity :: "bus_range \<Rightarrow> nat" where
  "GenericMemory_capacity r = unat (endAddress r - startAddress r + 1)"

definition GenericMemory_b_transport :: "sc_time \<Rightarrow> u8 list transport" where
  "GenericMemory_b_transport period mem tp delay =
     (let addr = unat (address tp); len = data_length tp in
      case command tp of
        TLM_WRITE_COMMAND \<Rightarrow>
          check_r (addr + len \<le> length mem) Out_of_bounds
            (Inr (overwrite mem addr (data tp), tp\<lparr>response_ok := True\<rparr>, delay + period,
                  [Notify Write_event (delay + period), Report Pe_write 1,
                   Report Pe_bytes_written len]))
      | TLM_READ_COMMAND \<Rightarrow>
          check_r (addr + len \<le> length mem) Out_of_bounds
            (Inr (mem, tp\<lparr>data := segment mem addr len, response_ok := True\<rparr>, delay + period,
                  [Notify Read_event (delay + period), Report Pe_read 1,
                   Report Pe_bytes_read len]))
      | TLM_IGNORE_COMMAND \<Rightarrow> Inl Report_fatal)"

definition GenericMemory_transport_dbg ::
  "u8 list \<Rightarrow> payload \<Rightarrow> (u8 list \<times> payload \<times> nat) result" where
  "GenericMemory_transport_dbg mem tp =
     (let addr = unat (address tp); len = data_length tp in
      case command tp of
        TLM_WRITE_COMMAND \<Rightarrow>
          check_r (addr + len \<le> length mem) Out_of_bounds
            (Inr (overwrite mem addr (data tp), tp\<lparr>response_ok := True\<rparr>, len))
      | TLM_READ_COMMAND \<Rightarrow>
          check_r (addr + len \<le> length mem) Out_of_bounds
            (Inr (mem, tp\<lparr>data := segment mem addr len, response_ok := True\<rparr>, len))
      | TLM_IGNORE_COMMAND \<Rightarrow> Inl Report_fatal)"

definition VolatileMemory_reset :: "bool \<Rightarrow> u8 list \<Rightarrow> u8 list" where
  "VolatileMemory_reset pwrOn mem = (if pwrOn then map (\<lambda>_. 0xAA) mem else mem)"

section \<open>Nonvolatile memory\<close>

text \<open>The generic delay is discarded and replaced by the wait states.\<close>

definition NonvolatileMemory_b_transport :: "sc_time \<Rightarrow> nat \<Rightarrow> u8 list transport" where
  "NonvolatileMemory_b_transport period waitStates mem tp delay =
     bind_r (GenericMemory_b_transport period mem tp 0) (\<lambda>(mem', tp', dummyDelay, fx).
       Inr (mem', tp', delay + waitStates * period, fx))"

lemma and_minus_one_less:
  fixes n :: u64
  assumes "n \<noteq> 0"
  shows "unat (n AND (n - 1)) < unat n"
proof -
  have "unat (n AND (n - 1)) \<le> unat (n - 1)"
    by (rule word_and_mask_bound)
  also have "\<dots> < unat n"
    using assms by (simp add: measure_unat)
  finally show ?thesis .
qed

function countSetBits_loop :: "u64 \<Rightarrow> u32 \<Rightarrow> u32" where
  "countSetBits_loop n count =
     (if n \<noteq> 0 then countSetBits_loop (n AND (n - 1)) (count + 1) else count)"
  by pat_completeness auto
termination
  by (relation "measure (\<lambda>(n, count). unat n)") (auto simp: and_minus_one_less)

declare countSetBits_loop.simps [simp del]

definition countSetBits :: "u64 \<Rightarrow> u32" where
  "countSetBits n = countSetBits_loop n 0"

fun countSetBitsArray :: "u8 list \<Rightarrow> u32 \<Rightarrow> u32" where
  "countSetBitsArray [] res = res"
| "countSetBitsArray (b # bs) res = countSetBitsArray bs (res + countSetBits (ucast b))"

section \<open>Dummy peripheral\<close>

definition DummyPeripheral_b_transport :: "sc_time \<Rightarrow> u8 list transport" where
  "DummyPeripheral_b_transport period retvals tp delay =
     (let addr = unat (address tp); len = data_length tp in
      case command tp of
        TLM_WRITE_COMMAND \<Rightarrow>
          Inr (retvals, tp\<lparr>response_ok := True\<rparr>, delay + period,
               [Notify Write_event (delay + period)])
      | TLM_READ_COMMAND \<Rightarrow>
          check_r (len = 0 \<or> addr + len \<le> length retvals) Out_of_bounds
            (Inr (retvals, tp\<lparr>data := segment retvals addr len, response_ok := True\<rparr>,
                  delay + period, [Notify Read_event (delay + period)]))
      | TLM_IGNORE_COMMAND \<Rightarrow> Inl Report_fatal)"

definition DummyPeripheral_transport_dbg ::
  "u8 list \<Rightarrow> payload \<Rightarrow> (u8 list \<times> payload \<times> nat) result" where
  "DummyPeripheral_transport_dbg retvals tp =
     (let addr = unat (address tp); len = data_length tp in
      case command tp of
        TLM_WRITE_COMMAND \<Rightarrow> Inr (retvals, tp\<lparr>response_ok := True\<rparr>, 0)
      | TLM_READ_COMMAND \<Rightarrow>
          check_r (len = 0 \<or> addr + len \<le> length retvals) Out_of_bounds
            (Inr (retvals, tp\<lparr>data := segment retvals addr len, response_ok := True\<rparr>, 0))
      | TLM_IGNORE_COMMAND \<Rightarrow> Inl Report_fatal)"

section \<open>Memories are byte devices\<close>

definition mem_view :: "u8 list \<Rightarrow> nat \<Rightarrow> u8" where
  "mem_view mem a = (if a < length mem then mem ! a else 0)"

lemma get_bytes_mem_view:
  "a + n \<le> length mem \<Longrightarrow> get_bytes (mem_view mem) a n = segment mem a n"
  by (rule nth_equalityI) (simp_all add: get_bytes_def mem_view_def)

lemma put_bytes_mem_view:
  "a + length buf \<le> length mem \<Longrightarrow>
   mem_view (overwrite mem a buf) = put_bytes (mem_view mem) a buf"
  by (rule ext) (auto simp: mem_view_def put_bytes_def nth_overwrite)

interpretation generic: byte_device
  "GenericMemory_b_transport period" mem_view "\<lambda>mem. length mem = cap"
  "\<lambda>a n. a + n \<le> cap \<and> a < 2 ^ 64" for period cap
  by unfold_locales
    (auto simp: GenericMemory_b_transport_def data_length_def Let_def get_bytes_mem_view put_bytes_mem_view)

interpretation nonvolatile: byte_device
  "NonvolatileMemory_b_transport period ws" mem_view "\<lambda>mem. length mem = cap"
  "\<lambda>a n. a + n \<le> cap \<and> a < 2 ^ 64" for period ws cap
  by unfold_locales
    (auto simp: NonvolatileMemory_b_transport_def GenericMemory_b_transport_def data_length_def
      Let_def get_bytes_mem_view put_bytes_mem_view)

section \<open>Kernighan's algorithm counts the set bits\<close>

definition bits_of :: "nat \<Rightarrow> nat set" where
  "bits_of a = {i. bit a i}"

lemma bits_of_rec: "bits_of a = (if odd a then {0} else {}) \<union> Suc ` bits_of (a div 2)"
proof -
  have "bit a i \<longleftrightarrow> (i = 0 \<and> odd a) \<or> (\<exists>j. i = Suc j \<and> bit (a div 2) j)" for i
    by (cases i) (simp_all add: bit_0 bit_Suc)
  then show ?thesis by (auto simp: bits_of_def)
qed

lemma bits_of_0 [simp]: "bits_of 0 = {}"
  by (simp add: bits_of_def)

lemma finite_bits_of [simp]: "finite (bits_of a)"
proof (induction a rule: less_induct)
  case (less a)
  show ?case
  proof (cases "a = 0")
    case False
    then show ?thesis using less [of "a div 2"] by (subst bits_of_rec) simp
  qed simp
qed

lemma card_bits_of: "card (bits_of a) = of_bool (odd a) + card (bits_of (a div 2))"
  by (subst bits_of_rec) (auto simp: card_insert_if card_image)

lemma card_bits_of_and_pred:
  "0 < a \<Longrightarrow> Suc (card (bits_of (a AND (a - 1)))) = card (bits_of a)"
proof (induction a rule: less_induct)
  case (less a)
  have half: "(a AND (a - 1)) div 2 = a div 2 AND ((a - 1) div 2)"
    by (rule bit_eqI) (simp add: bit_and_iff flip: bit_Suc)
  have par: "even (a AND (a - 1))"
    using less.prems by (simp add: even_and_iff)
  have lhs: "card (bits_of (a AND (a - 1))) = card (bits_of (a div 2 AND ((a - 1) div 2)))"
    using par by (simp only: card_bits_of [of "a AND (a - 1)"] half) simp
  show ?case
  proof (cases "odd a")
    case True
    then have "(a - 1) div 2 = a div 2" by presburger
    then show ?thesis
      unfolding lhs using True by (simp add: card_bits_of [of a])
  next
    case False
    then have "(a - 1) div 2 = a div 2 - 1" "0 < a div 2" "a div 2 < a"
      using less.prems by presburger+
    then show ?thesis
      unfolding lhs using False less.IH [of "a div 2"] by (simp add: card_bits_of [of a])
  qed
qed

lemma countSetBits_loop_card:
  "countSetBits_loop n count = count + of_nat (card (bits_of (unat n)))"
proof (induction n count rule: countSetBits_loop.induct)
  case (1 n count)
  show ?case
  proof (cases "n = 0")
    case True
    then show ?thesis by (simp add: countSetBits_loop.simps)
  next
    case False
    then have "unat (n AND (n - 1)) = unat n AND (unat n - 1)" "0 < unat n"
      by (simp_all add: unsigned_and_eq unat_minus_one unat_gt_0)
    then have "card (bits_of (unat n)) = Suc (card (bits_of (unat (n AND (n - 1)))))"
      using card_bits_of_and_pred [of "unat n"] by simp
    then show ?thesis
      using False "1.IH" by (simp add: countSetBits_loop.simps [of n count])
  qed
qed

text \<open>Kernighan's loop terminates on every input and counts set bits: the bit count of a
  byte array is the number of set bits of its bytes, accumulated on 32 bits.\<close>

lemma countSetBitsArray_card:
  "countSetBitsArray bs res = res + of_nat (\<Sum>b \<leftarrow> bs. card {i. bit (unat b) i})"
proof (induction bs res rule: countSetBitsArray.induct)
  case (1 res)
  then show ?case by simp
next
  case (2 b bs res)
  have "unat (ucast b :: u64) = unat b"
    using unat_lt_2p [of b] by (simp add: unat_ucast_mod)
  then show ?case
    using 2 by (simp add: countSetBits_def countSetBits_loop_card bits_of_def)
qed

text \<open>The FRAM behaves as a byte memory whatever its wait states, and takes exactly
  \<open>waitStates\<close> clock periods for an access (the memory's own cycle is not added).\<close>

lemma nonvolatile_memory_correct:
  assumes "unat (address tp) + data_length tp \<le> length mem"
    and "command tp \<noteq> TLM_IGNORE_COMMAND"
  shows "\<exists>mem' tp' fx. NonvolatileMemory_b_transport period ws mem tp delay
      = Inr (mem', tp', delay + ws * period, fx)
    \<and> response_ok tp' \<and> length mem' = length mem
    \<and> (command tp = TLM_READ_COMMAND \<longrightarrow> mem' = mem \<and> data tp' = segment mem (unat (address tp)) (data_length tp))
    \<and> (command tp = TLM_WRITE_COMMAND \<longrightarrow> mem' = overwrite mem (unat (address tp)) (data tp))"
  using assms
  by (cases "command tp")
    (auto simp: NonvolatileMemory_b_transport_def GenericMemory_b_transport_def data_length_def Let_def)

lemma nonvolatile_memory_correct_witness:
  "\<exists>mem' tp' fx. NonvolatileMemory_b_transport 10 3 [1, 2, 3]
      \<lparr>command = TLM_READ_COMMAND, address = 1, data = [0, 0], response_ok = False\<rparr> 5
      = Inr (mem', tp', 35, fx) \<and> data tp' = [2, 3]"
  using nonvolatile_memory_correct
    [of "\<lparr>command = TLM_READ_COMMAND, address = 1, data = [0, 0], response_ok = False\<rparr>" "[1, 2, 3]" 10 3 5]
  by (auto simp: data_length_def segment_def)

end
