(* ===== verification/Cache_Coherence.thy ===== *)
theory Cache_Coherence
  imports Cache Memories
begin

unbundle bit_operations_syntax

text \<open>
  Correctness of the cache: together with any byte device behind it, the cache is again
  a byte device, for accesses within one line. The byte view of the pair is the line's
  data where a valid line holds the address and the memory's view elsewhere; the
  invariant says that the tags in a set are distinct, that every clean valid line
  agrees with memory, and that only a write-back cache has dirty lines.

  The locale \<open>cached\<close> extends the contract of the memory behind the cache by the
  well-formed configuration; the \<open>sublocale\<close> gives the contract for the cache.
\<close>

section \<open>Configuration and address arithmetic on natural numbers\<close>

definition cfg_ok :: "cache_cfg \<Rightarrow> bool" where
  "cfg_ok cfg \<longleftrightarrow>
     lineWidth cfg = 2 ^ nOffsetBits cfg \<and> nSets cfg = 2 ^ nIdBits cfg \<and> 0 < nLines cfg
   \<and> nOffsetBits cfg + nIdBits cfg \<le> 32
   \<and> offsetMask cfg = mask (nOffsetBits cfg)
   \<and> idMask cfg = push_bit (nOffsetBits cfg) (mask (nIdBits cfg))
   \<and> tagMask cfg = NOT (offsetMask cfg OR idMask cfg)
   \<and> writePolicy cfg \<noteq> None"

definition set_no :: "cache_cfg \<Rightarrow> nat \<Rightarrow> nat" where
  "set_no cfg a = a div lineWidth cfg mod nSets cfg"

definition tag_no :: "cache_cfg \<Rightarrow> nat \<Rightarrow> nat" where
  "tag_no cfg a = a div lineWidth cfg div nSets cfg"

definition line_no :: "cache_cfg \<Rightarrow> nat \<Rightarrow> nat \<Rightarrow> nat" where
  "line_no cfg i t = t * nSets cfg + i"

definition line_base :: "cache_cfg \<Rightarrow> nat \<Rightarrow> nat \<Rightarrow> nat" where
  "line_base cfg i t = line_no cfg i t * lineWidth cfg"

lemma cfg_pos: "cfg_ok cfg \<Longrightarrow> 0 < lineWidth cfg" "cfg_ok cfg \<Longrightarrow> 0 < nSets cfg"
  by (simp_all add: cfg_ok_def)

lemma unat_cache_offset: "cfg_ok cfg \<Longrightarrow> unat (cache_offset cfg x) = unat x mod lineWidth cfg"
  unfolding cfg_ok_def cache_offset_def by (metis unat_and_mask)

lemma unat_cache_index: "cfg_ok cfg \<Longrightarrow> unat (cache_index cfg x) = set_no cfg (unat x)"
proof -
  assume ok: "cfg_ok cfg"
  have "cache_index cfg x = take_bit (nIdBits cfg) (drop_bit (nOffsetBits cfg) x)"
    using ok by (intro bit_word_eqI) (auto simp: cfg_ok_def cache_index_def bit_simps)
  then have "unat (cache_index cfg x) = unat x div 2 ^ nOffsetBits cfg mod 2 ^ nIdBits cfg"
    by (simp only: unat_take_bit_mod unat_drop_bit_div)
  with ok show ?thesis by (simp add: cfg_ok_def set_no_def)
qed

lemma unat_cache_tag: "cfg_ok cfg \<Longrightarrow> unat (cache_tag cfg x) = tag_no cfg (unat x)"
proof -
  assume ok: "cfg_ok cfg"
  have "cache_tag cfg x = drop_bit (nOffsetBits cfg + nIdBits cfg) x"
    using ok by (intro bit_word_eqI)
      (auto simp: cfg_ok_def cache_tag_def bit_simps dest: bit_imp_le_length)
  then have "unat (cache_tag cfg x) = unat x div 2 ^ (nOffsetBits cfg + nIdBits cfg)"
    by (simp only: unat_drop_bit_div)
  with ok show ?thesis by (simp add: cfg_ok_def tag_no_def power_add div_mult2_eq)
qed

lemma set_no_less: "cfg_ok cfg \<Longrightarrow> set_no cfg a < nSets cfg"
  by (simp add: set_no_def cfg_pos)

lemma line_no_of: "line_no cfg (set_no cfg a) (tag_no cfg a) = a div lineWidth cfg"
  by (simp add: line_no_def set_no_def tag_no_def)

lemma line_no_inj:
  "i < nSets cfg \<Longrightarrow> i' < nSets cfg \<Longrightarrow> line_no cfg i t = line_no cfg i' t' \<longleftrightarrow> i = i' \<and> t = t'"
  unfolding line_no_def
  by (metis add.commute add_right_cancel mod_less mod_mult_self1 mult_right_cancel not_less_zero)

lemma div_line_no:
  assumes "cfg_ok cfg" and "i < nSets cfg"
  shows "b div lineWidth cfg = line_no cfg i t \<longleftrightarrow> set_no cfg b = i \<and> tag_no cfg b = t"
  using line_no_inj [OF set_no_less [OF assms(1)] assms(2), of b "tag_no cfg b" t]
  by (simp add: line_no_of)

lemma line_base_of: "line_base cfg (set_no cfg a) (tag_no cfg a) = a - a mod lineWidth cfg"
  by (simp add: line_base_def line_no_of minus_mod_eq_div_mult)

lemma unat_line_start:
  "cfg_ok cfg \<Longrightarrow> unat (x AND NOT (offsetMask cfg)) = unat x - unat x mod lineWidth cfg"
  unfolding cfg_ok_def by (metis unat_and_not_mask)

lemma unat_wbaddr:
  assumes ok: "cfg_ok cfg" and b: "line_base cfg (unat i) (unat t) < 2 ^ 32" and i: "unat i < nSets cfg"
  shows "unat (push_bit (nOffsetBits cfg + nIdBits cfg) t OR push_bit (nOffsetBits cfg) (i :: u32))
    = line_base cfg (unat i) (unat t)"
proof -
  let ?ob = "nOffsetBits cfg" and ?ib = "nIdBits cfg"
  have "unat i < 2 ^ ?ib"
    using ok i by (simp add: cfg_ok_def)
  then have "take_bit ?ib i = i"
    by (intro word_unat_eq_iff [THEN iffD2]) (simp only: unat_take_bit_mod mod_less)
  then have ib: "bit i n \<Longrightarrow> n < ?ib" for n
    by (metis bit_take_bit_iff)
  have "push_bit (?ob + ?ib) t AND push_bit ?ob i = 0"
    by (rule bit_word_eqI) (auto simp: bit_simps dest: ib)
  then have "push_bit (?ob + ?ib) t OR push_bit ?ob i = push_bit (?ob + ?ib) t + push_bit ?ob i"
    by (simp add: disjunctive_add_eq_or)
  also have "\<dots> = of_nat (line_base cfg (unat i) (unat t))"
    using ok by (simp add: cfg_ok_def line_base_def line_no_def push_bit_eq_mult power_add
        algebra_simps)
  finally show ?thesis
    using b by (simp add: unat_of_nat)
qed

section \<open>View and invariant\<close>

definition holds :: "cache_cfg \<Rightarrow> nat \<Rightarrow> cache_line \<Rightarrow> bool" where
  "holds cfg a l \<longleftrightarrow> valid l \<and> unat (tag l) = tag_no cfg a"

definition cached_line :: "cache_cfg \<Rightarrow> cache_state \<Rightarrow> nat \<Rightarrow> cache_line option" where
  "cached_line cfg c a = List.find (holds cfg a) (lines (sets c ! set_no cfg a))"

definition cache_view :: "cache_cfg \<Rightarrow> ('m \<Rightarrow> nat \<Rightarrow> u8) \<Rightarrow> cache_state \<times> 'm \<Rightarrow> nat \<Rightarrow> u8" where
  "cache_view cfg mview cm a =
     (case cached_line cfg (fst cm) a of
        Some l \<Rightarrow> line_data l ! (a mod lineWidth cfg)
      | None \<Rightarrow> mview (snd cm) a)"

definition line_ok :: "cache_cfg \<Rightarrow> nat \<Rightarrow> (nat \<Rightarrow> u8) \<Rightarrow> nat \<Rightarrow> cache_line \<Rightarrow> bool" where
  "line_ok cfg cap mv i l \<longleftrightarrow>
     length (line_data l) = lineWidth cfg
   \<and> (valid l \<longrightarrow> line_base cfg i (unat (tag l)) + lineWidth cfg \<le> cap
        \<and> (\<not> dirty l \<longrightarrow>
             line_data l = get_bytes mv (line_base cfg i (unat (tag l))) (lineWidth cfg)))
   \<and> (dirty l \<longrightarrow> valid l \<and> writePolicy cfg = Some WP_WRITE_BACK)"

definition set_ok :: "cache_cfg \<Rightarrow> cache_set \<Rightarrow> bool" where
  "set_ok cfg s \<longleftrightarrow>
     length (lines s) = nLines cfg \<and> policy_wf (nLines cfg) (replacementPolicy s)
   \<and> (\<forall>k < nLines cfg. \<forall>k' < nLines cfg.
        valid (lines s ! k) \<and> valid (lines s ! k') \<and> tag (lines s ! k) = tag (lines s ! k')
        \<longrightarrow> k = k')"

definition cache_inv ::
  "cache_cfg \<Rightarrow> nat \<Rightarrow> ('m \<Rightarrow> nat \<Rightarrow> u8) \<Rightarrow> cache_state \<times> 'm \<Rightarrow> bool" where
  "cache_inv cfg cap mview cm \<longleftrightarrow>
     length (sets (fst cm)) = nSets cfg
   \<and> (\<forall>i < nSets cfg. set_ok cfg (sets (fst cm) ! i)
        \<and> (\<forall>k < nLines cfg.
             line_ok cfg cap (mview (snd cm)) i (lines (sets (fst cm) ! i) ! k)))"

lemma cache_invD:
  assumes "cache_inv cfg cap mview (c, m)" and "i < nSets cfg"
  shows "length (sets c) = nSets cfg" and "length (lines (sets c ! i)) = nLines cfg"
    and "policy_wf (nLines cfg) (replacementPolicy (sets c ! i))"
    and "\<And>k. k < nLines cfg \<Longrightarrow> line_ok cfg cap (mview m) i (lines (sets c ! i) ! k)"
    and "\<And>k k'. k < nLines cfg \<Longrightarrow> k' < nLines cfg \<Longrightarrow> valid (lines (sets c ! i) ! k) \<Longrightarrow>
      valid (lines (sets c ! i) ! k') \<Longrightarrow>
      tag (lines (sets c ! i) ! k) = tag (lines (sets c ! i) ! k') \<Longrightarrow> k = k'"
  using assms unfolding cache_inv_def set_ok_def by auto

lemma find_first_unique:
  assumes "k < length xs" "P (xs ! k)" "\<And>j. j < length xs \<Longrightarrow> P (xs ! j) \<Longrightarrow> j = k"
  shows "List.find P xs = Some (xs ! k)"
  using assms by (subst find_Some_iff) (metis order_less_irrefl order_less_trans)

lemma find_update_other:
  "\<not> P (xs ! k) \<Longrightarrow> \<not> P y \<Longrightarrow> k < length xs \<Longrightarrow> List.find P (xs[k := y]) = List.find P xs"
  by (induction xs arbitrary: k) (auto split: nat.splits)

lemma cached_line_hit:
  assumes "cache_inv cfg cap mview (c, m)" and "cfg_ok cfg" and "k < nLines cfg"
    and "holds cfg a (lines (sets c ! set_no cfg a) ! k)"
  shows "cached_line cfg c a = Some (lines (sets c ! set_no cfg a) ! k)"
  unfolding cached_line_def
proof (rule find_first_unique)
  note inv = cache_invD [OF assms(1) set_no_less [OF assms(2), of a]]
  show "k < length (lines (sets c ! set_no cfg a))" using inv(2) assms(3) by simp
  show "holds cfg a (lines (sets c ! set_no cfg a) ! k)" by (rule assms(4))
  fix j
  assume "j < length (lines (sets c ! set_no cfg a))" "holds cfg a (lines (sets c ! set_no cfg a) ! j)"
  then show "j = k"
    using inv(2) inv(5) [of j k] assms(3,4) by (auto simp: holds_def word_unat_eq_iff)
qed

lemma cached_line_miss:
  assumes "length (lines (sets c ! set_no cfg a)) = nLines cfg"
    and "\<And>k. k < nLines cfg \<Longrightarrow> \<not> holds cfg a (lines (sets c ! set_no cfg a) ! k)"
  shows "cached_line cfg c a = None"
  using assms by (auto simp: cached_line_def find_None_iff in_set_conv_nth)

text \<open>The lookup of the code finds the line of the view.\<close>

lemma find_line_Some:
  "find_line ls i t = Some k \<Longrightarrow> i \<le> k \<and> k < i + length ls \<and> valid (ls ! (k - i)) \<and> tag (ls ! (k - i)) = t"
proof (induction ls i t rule: find_line.induct)
  case (1 i t)
  then show ?case by simp
next
  case (2 l ls i t)
  then show ?case by (auto split: if_splits simp: nth_Cons' Suc_diff_le not_less_eq_eq)
qed

lemma find_line_None:
  "find_line ls i t = None \<Longrightarrow> k < length ls \<Longrightarrow> \<not> (valid (ls ! k) \<and> tag (ls ! k) = t)"
proof (induction ls i t arbitrary: k rule: find_line.induct)
  case (1 i t)
  then show ?case by simp
next
  case (2 l ls i t)
  then show ?case by (cases k) (auto split: if_splits)
qed

lemma findLine_Some:
  "findLine s t = Some k \<Longrightarrow> k < length (lines s) \<and> valid (lines s ! k) \<and> tag (lines s ! k) = t"
  using find_line_Some [of "lines s" 0 t k] by (simp add: findLine_def)

lemma findLine_None:
  "findLine s t = None \<Longrightarrow> k < length (lines s) \<Longrightarrow> \<not> (valid (lines s ! k) \<and> tag (lines s ! k) = t)"
  using find_line_None [of "lines s" 0 t k] by (simp add: findLine_def)

section \<open>Replacing one line\<close>

lemma put_line_sets:
  assumes "i < length (sets c)"
  shows "sets (put_line c i k l) ! i = (sets c ! i)\<lparr>lines := (lines (sets c ! i))[k := l]\<rparr>"
    and "i' \<noteq> i \<Longrightarrow> sets (put_line c i k l) ! i' = sets c ! i'"
    and "length (sets (put_line c i k l)) = length (sets c)"
  using assms by (simp_all add: put_line_def)

lemma get_bytes_cong:
  "(\<And>b. a \<le> b \<Longrightarrow> b < a + n \<Longrightarrow> m b = m' b) \<Longrightarrow> get_bytes m a n = get_bytes m' a n"
  by (auto simp: get_bytes_def)

lemma in_line_div:
  assumes "cfg_ok cfg"
  shows "b div lineWidth cfg = line_no cfg i t
    \<longleftrightarrow> line_base cfg i t \<le> b \<and> b < line_base cfg i t + lineWidth cfg"
  using cfg_pos(1) [OF assms] unfolding line_base_def
  by (metis add.commute div_nat_eqI div_times_less_eq_dividend dividend_less_times_div
      mult.commute mult_Suc_right)

lemma line_ok_frame:
  assumes ok: "cfg_ok cfg" and l: "line_ok cfg cap mv i l"
    and same: "\<And>b. b div lineWidth cfg \<noteq> q \<Longrightarrow> mv' b = mv b"
    and other: "valid l \<Longrightarrow> line_no cfg i (unat (tag l)) \<noteq> q"
  shows "line_ok cfg cap mv' i l"
proof -
  have "get_bytes mv' (line_base cfg i (unat (tag l))) (lineWidth cfg)
      = get_bytes mv (line_base cfg i (unat (tag l))) (lineWidth cfg)" if "valid l"
    using other [OF that] in_line_div [OF ok]
    by (intro get_bytes_cong same) (metis in_line_div [OF ok])
  then show ?thesis
    using l by (auto simp: line_ok_def)
qed

lemma cache_inv_put_line:
  assumes ok: "cfg_ok cfg" and inv: "cache_inv cfg cap mview (c, m)"
    and i: "i < nSets cfg" and k: "k < nLines cfg"
    and same: "\<And>b. b div lineWidth cfg \<noteq> q \<Longrightarrow> mview m' b = mview m b"
    and others: "\<And>i' k'. i' < nSets cfg \<Longrightarrow> k' < nLines cfg \<Longrightarrow> (i', k') \<noteq> (i, k) \<Longrightarrow>
      valid (lines (sets c ! i') ! k') \<Longrightarrow>
      line_no cfg i' (unat (tag (lines (sets c ! i') ! k'))) \<noteq> q"
    and l': "line_ok cfg cap (mview m') i l'"
    and uniq: "\<And>k'. valid l' \<Longrightarrow> k' < nLines cfg \<Longrightarrow> k' \<noteq> k \<Longrightarrow> valid (lines (sets c ! i) ! k') \<Longrightarrow>
      tag (lines (sets c ! i) ! k') \<noteq> tag l'"
  shows "cache_inv cfg cap mview (put_line c i k l', m')"
proof -
  note D = cache_invD [OF inv]
  have len: "length (sets c) = nSets cfg" using D(1) [OF i] .
  have il: "i < length (sets c)" using len i by simp
  have "set_ok cfg (sets (put_line c i k l') ! i')
      \<and> (\<forall>k' < nLines cfg. line_ok cfg cap (mview m') i' (lines (sets (put_line c i k l') ! i') ! k'))"
    if i': "i' < nSets cfg" for i'
  proof (cases "i' = i")
    case True
    have "set_ok cfg ((sets c ! i)\<lparr>lines := (lines (sets c ! i))[k := l']\<rparr>)"
      using D(2,3,5) [OF i] k uniq
      by (auto simp: set_ok_def nth_list_update) metis+
    moreover have "line_ok cfg cap (mview m') i ((lines (sets c ! i))[k := l'] ! k')"
      if "k' < nLines cfg" for k'
    proof (cases "k' = k")
      case True
      then show ?thesis using l' D(2) [OF i] k by simp
    next
      case False
      then show ?thesis
        using line_ok_frame [OF ok D(4) [OF i that], where q = q, OF same] others [OF i that]
        by auto
    qed
    ultimately show ?thesis using True put_line_sets(1) [OF il] by simp
  next
    case False
    have "line_ok cfg cap (mview m') i' (lines (sets c ! i') ! k')" if "k' < nLines cfg" for k'
      using line_ok_frame [OF ok D(4) [OF i' that], where q = q, OF same] others [OF i' that] False
      by blast
    then show ?thesis
      using inv i' False by (simp add: put_line_sets(2) [OF il] cache_inv_def)
  qed
  then show ?thesis
    using len put_line_sets(3) [OF il] by (simp add: cache_inv_def)
qed

lemma cache_view_put_line_other:
  assumes "i < length (sets c)" and "k < length (lines (sets c ! i))"
    and "set_no cfg b = i \<Longrightarrow> \<not> holds cfg b l' \<and> \<not> holds cfg b (lines (sets c ! i) ! k)"
    and "mview m' b = mview m b"
  shows "cache_view cfg mview (put_line c i k l', m') b = cache_view cfg mview (c, m) b"
proof (cases "set_no cfg b = i")
  case True
  have "cached_line cfg (put_line c i k l') b = cached_line cfg c b"
    using assms(2) assms(3) [OF True] True
    by (simp add: cached_line_def put_line_sets(1) [OF assms(1)] find_update_other)
  then show ?thesis using assms(4) by (simp add: cache_view_def split: option.splits)
next
  case False
  then have "cached_line cfg (put_line c i k l') b = cached_line cfg c b"
    by (simp add: cached_line_def put_line_sets(2) [OF assms(1)])
  then show ?thesis using assms(4) by (simp add: cache_view_def split: option.splits)
qed

lemma cache_view_put_line_hit:
  assumes "cfg_ok cfg" and "cache_inv cfg cap mview (put_line c i k l', m')" and "cache_inv cfg cap mview (c, m)"
    and "i < nSets cfg" and "k < nLines cfg"
    and "set_no cfg b = i" and "holds cfg b l'"
  shows "cache_view cfg mview (put_line c i k l', m') b = line_data l' ! (b mod lineWidth cfg)"
proof -
  note D = cache_invD [OF assms(3,4)]
  have il: "i < length (sets c)" using D(1) assms(4) by simp
  have l': "lines (sets (put_line c i k l') ! i) ! k = l'"
    using D(2) assms(5) by (simp add: put_line_sets(1) [OF il])
  have "cached_line cfg (put_line c i k l') b = Some l'"
    using cached_line_hit [OF assms(2,1,5), of b] assms(6,7) l' by simp
  then show ?thesis by (simp add: cache_view_def)
qed

lemma cache_view_hit:
  assumes "cfg_ok cfg" and "cache_inv cfg cap mview (c, m)" and "k < nLines cfg"
    and "holds cfg b (lines (sets c ! set_no cfg b) ! k)"
  shows "cache_view cfg mview (c, m) b
    = line_data (lines (sets c ! set_no cfg b) ! k) ! (b mod lineWidth cfg)"
  using cached_line_hit [OF assms(2,1,3,4)] by (simp add: cache_view_def)

lemma cache_view_miss:
  assumes "cfg_ok cfg" and "cache_inv cfg cap mview (c, m)"
    and "\<And>k. k < nLines cfg \<Longrightarrow> \<not> holds cfg b (lines (sets c ! set_no cfg b) ! k)"
  shows "cache_view cfg mview (c, m) b = mview m b"
proof -
  have "cached_line cfg c b = None"
    by (rule cached_line_miss [OF cache_invD(2) [OF assms(2) set_no_less [OF assms(1)]] assms(3)])
  then show ?thesis by (simp add: cache_view_def)
qed

lemma put_line_put_line [simp]:
  "i < length (sets c) \<Longrightarrow> put_line (put_line c i k l) i k l' = put_line c i k l'"
  by (simp add: put_line_def)

lemma put_line_same [simp]:
  "i < length (sets c) \<Longrightarrow> put_line c i k (lines (sets c ! i) ! k) = c"
  by (simp add: put_line_def)

lemma put_policy_lines [simp]:
  "i < length (sets c) \<Longrightarrow> lines (sets (put_policy c i p l) ! j) = lines (sets c ! j)"
  "length (sets (put_policy c i p l)) = length (sets c)"
  by (auto simp: put_policy_def nth_list_update)

lemma put_policy_view [simp]:
  "i < length (sets c) \<Longrightarrow> cache_view cfg mview (put_policy c i p l, m) = cache_view cfg mview (c, m)"
  by (rule ext) (simp add: cache_view_def cached_line_def split: option.split)

lemma put_policy_inv:
  assumes "cache_inv cfg cap mview (c, m)" and "i < nSets cfg" and "policy_wf (nLines cfg) p"
  shows "cache_inv cfg cap mview (put_policy c i p l, m)"
  using assms by (auto simp: cache_inv_def set_ok_def put_policy_def nth_list_update)

lemma same_line:
  assumes "a mod W + n \<le> W" and "j < n"
  shows "(a + j) div W = a div (W :: nat)" and "(a + j) mod W = a mod W + j"
proof -
  have "a mod W + j < W" using assms by simp
  then show "(a + j) div W = a div W" "(a + j) mod W = a mod W + j"
    by (metis add.assoc add.right_neutral div_less div_mult_self4 div_mult_mod_eq mult.commute
        gr_implies_not_zero less_not_refl2 div_mult_self3)
      (metis \<open>a mod W + j < W\<close> mod_add_left_eq mod_less)
qed

lemma holds_same_line:
  assumes "a mod lineWidth cfg + n \<le> lineWidth cfg" and "j < n"
  shows "set_no cfg (a + j) = set_no cfg a" and "holds cfg (a + j) = holds cfg a"
  using same_line(1) [OF assms] by (auto simp: set_no_def tag_no_def holds_def fun_eq_iff)

lemma nth_get_bytes: "j < n \<Longrightarrow> get_bytes mv a n ! j = mv (a + j)"
  by (simp add: get_bytes_def)

lemma nth_get_bytes_line:
  "0 < W \<Longrightarrow> b div W = q \<Longrightarrow> get_bytes mv (q * W) W ! (b mod W) = mv (b :: nat)"
  by (auto simp: nth_get_bytes)

lemma overwrite_get_bytes:
  assumes "ofs + length buf \<le> w"
  shows "overwrite (get_bytes mv base w) ofs buf = get_bytes (put_bytes mv (base + ofs) buf) base w"
  by (rule nth_equalityI)
    (use assms in \<open>auto simp: nth_overwrite get_bytes_def put_bytes_def\<close>)

section \<open>The cache in front of a byte device\<close>

text \<open>The accesses a cache serves: within one line and within the memory.\<close>

definition one_line :: "nat \<Rightarrow> nat \<Rightarrow> nat \<Rightarrow> nat \<Rightarrow> bool" where
  "one_line w cap a n \<longleftrightarrow> 0 < n \<and> a mod w + n \<le> w \<and> a + n \<le> cap"

locale cached_memory = byte_device mt mview minv mserves
  for mt :: "'m transport" and mview minv mserves +
  fixes cfg :: cache_cfg and cap :: nat
  assumes cfg: "cfg_ok cfg"
    and cap_bound: "cap \<le> 2 ^ 32"
    and cap_lines: "lineWidth cfg dvd cap"
    and serves_mem: "a + n \<le> cap \<Longrightarrow> mserves a n"
begin

abbreviation W where "W \<equiv> lineWidth cfg"
abbreviation inv_c where "inv_c c m \<equiv> cache_inv cfg cap mview (c, m) \<and> minv m"
abbreviation view_c where "view_c c m \<equiv> cache_view cfg mview (c, m)"

lemma line_fits: "a < cap \<Longrightarrow> line_base cfg (set_no cfg a) (tag_no cfg a) + W \<le> cap"
proof -
  assume a: "a < cap"
  obtain q where q: "cap = q * W" using cap_lines by (auto simp: dvd_def mult.commute)
  then have "a div W < q"
    using a by (simp add: div_less_iff_less_mult cfg_pos [OF cfg])
  then have "Suc (a div W) * W \<le> q * W" by (intro mult_right_mono) auto
  then show ?thesis by (simp add: line_base_def line_no_of q)
qed

lemma set_in_range: "cache_inv cfg cap mview (c, m) \<Longrightarrow> i < nSets cfg \<Longrightarrow> i < length (sets c)"
  using cache_invD(1) by metis

lemma mem_write:
  assumes "minv m" and "unat (address p) + length (data p) \<le> cap" and "command p = TLM_WRITE_COMMAND"
  shows "\<exists>m' p' d' fx. mt m p d = Inr (m', p', d', fx) \<and> minv m'
    \<and> mview m' = put_bytes (mview m) (unat (address p)) (data p)"
  using write_law [OF assms(1,3) serves_mem [OF assms(2)], of d] by blast

lemma mem_read:
  assumes "minv m" and "unat (address p) + length (data p) \<le> cap" and "command p = TLM_READ_COMMAND"
  shows "\<exists>m' p' d' fx. mt m p d = Inr (m', p', d', fx) \<and> minv m' \<and> mview m' = mview m
    \<and> data p' = get_bytes (mview m) (unat (address p)) (length (data p))"
  using read_law [OF assms(1,3) serves_mem [OF assms(2)], of d] by fastforce

lemma others_not_in_line:
  assumes inv: "cache_inv cfg cap mview (c, m)" and i: "i < nSets cfg"
    and i': "i' < nSets cfg" and ne: "(i', k') \<noteq> (i, k)" and k': "k' < nLines cfg"
    and v: "valid (lines (sets c ! i') ! k')"
    and only: "\<And>j. j < nLines cfg \<Longrightarrow> valid (lines (sets c ! i) ! j) \<Longrightarrow>
      unat (tag (lines (sets c ! i) ! j)) = t \<Longrightarrow> j = k"
  shows "line_no cfg i' (unat (tag (lines (sets c ! i') ! k'))) \<noteq> line_no cfg i t"
  using assms line_no_inj [OF i' i] by auto

lemma writeLine_ok:
  assumes inv: "inv_c c m" and a: "i = set_no cfg (unat addr)" and k: "k < nLines cfg"
    and L: "L = lines (sets c ! i) ! k" "valid L" "dirty L"
  shows "\<exists>m' d' fx. writeLine mt cfg m L addr d = Inr (m', L\<lparr>dirty := False\<rparr>, d', fx)
    \<and> inv_c (put_line c i k (L\<lparr>dirty := False\<rparr>)) m'
    \<and> view_c (put_line c i k (L\<lparr>dirty := False\<rparr>)) m' = view_c c m"
proof -
  let ?L = "L\<lparr>dirty := False\<rparr>" and ?t = "unat (tag L)"
  let ?base = "line_base cfg i ?t" and ?q = "line_no cfg i ?t"
  have i: "i < nSets cfg" using a set_no_less [OF cfg] by simp
  have ci: "cache_inv cfg cap mview (c, m)" using inv by simp
  note D = cache_invD [OF ci i]
  have il: "i < length (sets c)" using D(1) i by simp
  have ok: "line_ok cfg cap (mview m) i L" using D(4) [OF k] L(1) by simp
  then have len: "length (line_data L) = W" and fits: "?base + W \<le> cap"
    using L(2) by (simp_all add: line_ok_def)
  have wb: "unat (push_bit (nOffsetBits cfg + nIdBits cfg) (tag L)
      OR push_bit (nOffsetBits cfg) (cache_index cfg addr)) = ?base"
    using unat_wbaddr [OF cfg, of "cache_index cfg addr" "tag L"] fits cap_bound cfg_pos(1) [OF cfg]
      i a by (simp add: unat_cache_index [OF cfg])
  obtain m' p' d' fx where mt: "mt m \<lparr>command = TLM_WRITE_COMMAND,
        address = ucast (push_bit (nOffsetBits cfg + nIdBits cfg) (tag L)
          OR push_bit (nOffsetBits cfg) (cache_index cfg addr)),
        data = line_data L, response_ok = False\<rparr> d = Inr (m', p', d', fx)"
      and m': "minv m'" "mview m' = put_bytes (mview m) ?base (line_data L)"
    using mem_write [of m "\<lparr>command = TLM_WRITE_COMMAND,
        address = ucast (push_bit (nOffsetBits cfg + nIdBits cfg) (tag L)
          OR push_bit (nOffsetBits cfg) (cache_index cfg addr)),
        data = line_data L, response_ok = False\<rparr>" d] inv fits len wb
    by auto
  have same: "mview m' b = mview m b" if "b div W \<noteq> ?q" for b
    using that in_line_div [OF cfg, of b i ?t] len by (auto simp: m'(2) put_bytes_def)
  have only: "j = k" if "j < nLines cfg" "valid (lines (sets c ! i) ! j)"
      "unat (tag (lines (sets c ! i) ! j)) = ?t" for j
    using D(5) [OF that(1) k that(2)] L that(3) by (simp add: word_unat_eq_iff)
  have inv': "cache_inv cfg cap mview (put_line c i k ?L, m')"
  proof (rule cache_inv_put_line [OF cfg ci i k, where q = ?q])
    show "mview m' b = mview m b" if "b div W \<noteq> ?q" for b using same that .
    show "line_no cfg i' (unat (tag (lines (sets c ! i') ! k'))) \<noteq> ?q"
      if "i' < nSets cfg" "k' < nLines cfg" "(i', k') \<noteq> (i, k)" "valid (lines (sets c ! i') ! k')"
      for i' k'
      using only by (intro others_not_in_line [OF ci i that(1,3,2,4)]) auto
    show "line_ok cfg cap (mview m') i ?L"
      using ok len get_put_bytes [of "mview m" ?base "line_data L"] L(2)
      by (simp add: line_ok_def m'(2))
    show "tag (lines (sets c ! i) ! k') \<noteq> tag ?L"
      if "k' < nLines cfg" "k' \<noteq> k" "valid (lines (sets c ! i) ! k')" for k'
      using only that by auto
  qed
  have view: "view_c (put_line c i k ?L) m' b = view_c c m b" for b
  proof (cases "set_no cfg b = i \<and> tag_no cfg b = ?t")
    case True
    then show ?thesis
      using cache_view_put_line_hit [OF cfg inv' ci i k, of b] cache_view_hit [OF cfg ci k, of b] L
      by (simp add: holds_def)
  next
    case False
    then show ?thesis
      using same [of b] div_line_no [OF cfg i, of b ?t] D(2) k L
      by (intro cache_view_put_line_other [OF il]) (auto simp: holds_def)
  qed
  show ?thesis
    using mt m'(1) inv' view L(2,3) by (auto simp: writeLine_def Let_def)
qed

lemma readLine_ok:
  assumes inv: "inv_c c m" and a: "i = set_no cfg (unat addr)" "unat addr < cap" and k: "k < nLines cfg"
    and L: "L = lines (sets c ! i) ! k" "\<not> dirty L"
    and miss: "\<And>j. j < nLines cfg \<Longrightarrow> \<not> holds cfg (unat addr) (lines (sets c ! i) ! j)"
  shows "\<exists>m' L' d' fx. readLine mt cfg m addr L d = Inr (m', L', d', fx)
    \<and> holds cfg (unat addr) L' \<and> \<not> dirty L'
    \<and> inv_c (put_line c i k L') m' \<and> view_c (put_line c i k L') m' = view_c c m"
proof -
  let ?t = "tag_no cfg (unat addr)"
  let ?base = "line_base cfg i ?t" and ?q = "line_no cfg i ?t"
  let ?L = "L\<lparr>line_data := get_bytes (mview m) ?base W, tag := cache_tag cfg addr, valid := True,
    dirty := False\<rparr>"
  have i: "i < nSets cfg" using a(1) set_no_less [OF cfg] by simp
  have ci: "cache_inv cfg cap mview (c, m)" using inv by simp
  note D = cache_invD [OF ci i]
  have il: "i < length (sets c)" using D(1) i by simp
  have ok: "line_ok cfg cap (mview m) i L" using D(4) [OF k] L(1) by simp
  then have len: "length (line_data L) = W" by (simp add: line_ok_def)
  have fits: "?base + W \<le> cap" using line_fits [OF a(2)] a(1) by simp
  have start: "unat (addr AND NOT (offsetMask cfg)) = ?base"
    using a(1) by (simp add: unat_line_start [OF cfg] line_base_of)
  obtain m' p' d' fx where mt: "mt m \<lparr>command = TLM_READ_COMMAND,
        address = ucast (addr AND NOT (offsetMask cfg)), data = line_data L, response_ok = False\<rparr> d
        = Inr (m', p', d', fx)"
      and m': "minv m'" "mview m' = mview m" "data p' = get_bytes (mview m) ?base W"
    using mem_read [of m "\<lparr>command = TLM_READ_COMMAND,
        address = ucast (addr AND NOT (offsetMask cfg)), data = line_data L, response_ok = False\<rparr>" d]
      inv fits len start by auto
  have rl: "readLine mt cfg m addr L d = Inr (m', ?L, d', fx)"
    using mt m'(3) L(2) by (simp add: readLine_def Let_def)
  have tagL: "unat (tag ?L) = ?t" by (simp add: unat_cache_tag [OF cfg])
  have lok: "line_ok cfg cap (mview m') i ?L"
    using fits by (simp add: line_ok_def m'(2) unat_cache_tag [OF cfg])
  have inv': "cache_inv cfg cap mview (put_line c i k ?L, m')"
  proof (rule cache_inv_put_line [OF cfg ci i k, where q = ?q])
    show "mview m' b = mview m b" for b by (simp add: m'(2))
    show "line_no cfg i' (unat (tag (lines (sets c ! i') ! k'))) \<noteq> ?q"
      if "i' < nSets cfg" "k' < nLines cfg" "(i', k') \<noteq> (i, k)" "valid (lines (sets c ! i') ! k')"
      for i' k'
      using miss that by (intro others_not_in_line [OF ci i that(1,3,2,4)]) (auto simp: holds_def)
    show "line_ok cfg cap (mview m') i ?L" by (rule lok)
    show "tag (lines (sets c ! i) ! k') \<noteq> tag ?L"
      if "k' < nLines cfg" "valid (lines (sets c ! i) ! k')" for k'
      using miss [OF that(1)] that(2) tagL by (auto simp: holds_def)
  qed
  have view: "view_c (put_line c i k ?L) m' b = view_c c m b" for b
  proof (cases "set_no cfg b = i \<and> tag_no cfg b = ?t")
    case True
    then have q: "b div W = ?q" using div_line_no [OF cfg i] by simp
    have "view_c (put_line c i k ?L) m' b = get_bytes (mview m) ?base W ! (b mod W)"
      using cache_view_put_line_hit [OF cfg inv' ci i k, of b] True tagL by (simp add: holds_def)
    also have "\<dots> = mview m b"
      unfolding line_base_def using cfg_pos(1) [OF cfg] q by (rule nth_get_bytes_line)
    also have "\<dots> = view_c c m b"
      using miss True by (intro cache_view_miss [OF cfg ci, symmetric]) (auto simp: holds_def)
    finally show ?thesis .
  next
    case other: False
    show ?thesis
    proof (cases "set_no cfg b = i \<and> holds cfg b L")
      case True
      then have q: "b div W = line_no cfg i (unat (tag L))"
        using div_line_no [OF cfg i] by (simp add: holds_def)
      have "holds cfg b (lines (sets (put_line c i k ?L) ! set_no cfg b) ! j) = False"
        if "j < nLines cfg" for j
        using that True other D(2) D(5) [OF that k] L(1) k tagL
        by (auto simp: put_line_sets(1) [OF il] holds_def nth_list_update word_unat_eq_iff
            split: if_splits)
      then have "view_c (put_line c i k ?L) m' b = mview m b"
        using cache_view_miss [OF cfg inv', of b] by (simp add: m'(2))
      also have "\<dots> = line_data L ! (b mod W)"
        using ok True L(2) nth_get_bytes_line [OF cfg_pos(1) [OF cfg] q, of "mview m"]
        by (simp add: line_ok_def holds_def line_base_def)
      also have "\<dots> = view_c c m b"
        using cache_view_hit [OF cfg ci k, of b] True L(1) by simp
      finally show ?thesis .
    next
      case False
      then show ?thesis
        using other D(2) k L(1) tagL
        by (intro cache_view_put_line_other [OF il]) (auto simp: holds_def m'(2))
    qed
  qed
  show ?thesis
    using rl m'(1) inv' view tagL by (auto simp: holds_def)
qed

lemma fetch_ok:
  assumes inv: "inv_c c m" and a: "i = set_no cfg (unat addr)" "unat addr < cap" and k: "k < nLines cfg"
    and L: "L = lines (sets c ! i) ! k"
    and miss: "\<And>j. j < nLines cfg \<Longrightarrow> \<not> holds cfg (unat addr) (lines (sets c ! i) ! j)"
  shows "\<exists>m1 L1 d1 fx1 m2 L2 d2 fx2. evictLine mt cfg m L addr d = Inr (m1, L1, d1, fx1)
    \<and> readLine mt cfg m1 addr L1 d1 = Inr (m2, L2, d2, fx2)
    \<and> holds cfg (unat addr) L2 \<and> \<not> dirty L2
    \<and> inv_c (put_line c i k L2) m2 \<and> view_c (put_line c i k L2) m2 = view_c c m"
proof -
  have i: "i < nSets cfg" using a(1) set_no_less [OF cfg] by simp
  have ci: "cache_inv cfg cap mview (c, m)" using inv by simp
  note D = cache_invD [OF ci i]
  have il: "i < length (sets c)" using D(1) i by simp
  show ?thesis
  proof (cases "valid L \<and> dirty L")
    case True
    obtain m1 d1 fx1 where w: "writeLine mt cfg m L addr d = Inr (m1, L\<lparr>dirty := False\<rparr>, d1, fx1)"
      and w': "inv_c (put_line c i k (L\<lparr>dirty := False\<rparr>)) m1"
        "view_c (put_line c i k (L\<lparr>dirty := False\<rparr>)) m1 = view_c c m"
      using writeLine_ok [OF inv a(1) k L] True by blast
    let ?c = "put_line c i k (L\<lparr>dirty := False\<rparr>)"
    have "lines (sets ?c ! i) = (lines (sets c ! i))[k := L\<lparr>dirty := False\<rparr>]"
      by (simp add: put_line_sets(1) [OF il])
    then have "L\<lparr>dirty := False\<rparr> = lines (sets ?c ! i) ! k"
      and "\<not> holds cfg (unat addr) (lines (sets ?c ! i) ! j)" if "j < nLines cfg" for j
      using D(2) k miss [OF that] miss [OF k] L by (auto simp: nth_list_update holds_def)
    then show ?thesis
      using readLine_ok [OF w'(1) a k, of "L\<lparr>dirty := False\<rparr>" d1] w w'(2) True k
      by (auto simp: evictLine_def il)
  next
    case False
    then have "\<not> dirty L"
      using D(4) [OF k] L by (auto simp: line_ok_def)
    then show ?thesis
      using readLine_ok [OF inv a k L _ miss, of d] False by (auto simp: evictLine_def)
  qed
qed

lemma hit_read:
  assumes inv: "inv_c c m" and i: "i = set_no cfg a" and k: "k < nLines cfg"
    and L: "holds cfg a (lines (sets c ! i) ! k)" and n: "a mod W + n \<le> W"
  shows "length (line_data (lines (sets c ! i) ! k)) = W"
    and "segment (line_data (lines (sets c ! i) ! k)) (a mod W) n = get_bytes (view_c c m) a n"
proof -
  let ?L = "lines (sets c ! i) ! k"
  have ci: "cache_inv cfg cap mview (c, m)" using inv by simp
  show len: "length (line_data ?L) = W"
    using cache_invD(4) [OF ci _ k] set_no_less [OF cfg] i by (simp add: line_ok_def)
  show "segment (line_data ?L) (a mod W) n = get_bytes (view_c c m) a n"
  proof (rule nth_equalityI)
    show "length (segment (line_data ?L) (a mod W) n) = length (get_bytes (view_c c m) a n)"
      using len n by simp
    fix j
    assume "j < length (segment (line_data ?L) (a mod W) n)"
    then have j: "j < n" using len n by simp
    have "view_c c m (a + j) = line_data ?L ! ((a + j) mod W)"
      using cache_view_hit [OF cfg ci k, of "a + j"] holds_same_line [OF n j] L i by simp
    then show "segment (line_data ?L) (a mod W) n ! j = get_bytes (view_c c m) a n ! j"
      using j len n same_line(2) [OF n j] by (simp add: nth_get_bytes)
  qed
qed

lemma hit_write:
  assumes inv: "inv_c c m" and i: "i = set_no cfg a" and k: "k < nLines cfg"
    and L: "L = lines (sets c ! i) ! k" "holds cfg a L" and n: "a mod W + length buf \<le> W"
    and L': "L' = L\<lparr>line_data := overwrite (line_data L) (a mod W) buf, dirty := d\<rparr>"
    and m': "minv m'"
    and mode: "(d \<and> writePolicy cfg = Some WP_WRITE_BACK \<and> mview m' = mview m)
      \<or> (\<not> d \<and> \<not> dirty L \<and> mview m' = put_bytes (mview m) a buf)"
  shows "inv_c (put_line c i k L') m'"
    and "view_c (put_line c i k L') m' = put_bytes (view_c c m) a buf"
proof -
  have ci: "cache_inv cfg cap mview (c, m)" using inv by simp
  have iS: "i < nSets cfg" using i set_no_less [OF cfg] by simp
  note D = cache_invD [OF ci iS]
  have il: "i < length (sets c)" using D(1) iS by simp
  let ?t = "tag_no cfg a"
  let ?q = "line_no cfg i ?t" and ?base = "line_base cfg i ?t"
  have t: "unat (tag L) = ?t" and v: "valid L" using L(2) by (simp_all add: holds_def)
  have ok: "line_ok cfg cap (mview m) i L" using D(4) [OF k] L(1) by simp
  then have len: "length (line_data L) = W" by (simp add: line_ok_def)
  have base: "?base + a mod W = a" using i by (simp add: line_base_of)
  have in_line: "b div W = ?q" if "a \<le> b" "b < a + length buf" for b
  proof -
    have "b div W = a div W"
      using same_line(1) [OF n, of "b - a"] that by simp
    then show ?thesis by (simp add: i line_no_of)
  qed
  have same: "mview m' b = mview m b" if "b div W \<noteq> ?q" for b
    using mode in_line [of b] that by (auto simp: put_bytes_def)
  have only: "j = k" if "j < nLines cfg" "valid (lines (sets c ! i) ! j)"
      "unat (tag (lines (sets c ! i) ! j)) = ?t" for j
    using D(5) [OF that(1) k that(2)] L(1) v t that(3) by (simp add: word_unat_eq_iff)
  have inv': "cache_inv cfg cap mview (put_line c i k L', m')"
  proof (rule cache_inv_put_line [OF cfg ci iS k, where q = ?q])
    show "mview m' b = mview m b" if "b div W \<noteq> ?q" for b using same that .
    show "line_no cfg i' (unat (tag (lines (sets c ! i') ! k'))) \<noteq> ?q"
      if "i' < nSets cfg" "k' < nLines cfg" "(i', k') \<noteq> (i, k)" "valid (lines (sets c ! i') ! k')"
      for i' k'
      using only by (intro others_not_in_line [OF ci iS that(1,3,2,4)]) auto
    show "line_ok cfg cap (mview m') i L'"
      using ok v t mode n len overwrite_get_bytes [OF n, of "mview m" ?base] base
      by (auto simp: line_ok_def L')
    show "tag (lines (sets c ! i) ! k') \<noteq> tag L'"
      if "k' < nLines cfg" "k' \<noteq> k" "valid (lines (sets c ! i) ! k')" for k'
      using only [OF that(1,3)] that(2) t by (auto simp: L')
  qed
  then show "inv_c (put_line c i k L') m'" using m' by simp
  show "view_c (put_line c i k L') m' = put_bytes (view_c c m) a buf"
  proof
    fix b
    show "view_c (put_line c i k L') m' b = put_bytes (view_c c m) a buf b"
    proof (cases "set_no cfg b = i \<and> tag_no cfg b = ?t")
      case True
      then have q: "b div W = ?q" using div_line_no [OF cfg iS] by simp
      have b: "b = ?base + b mod W"
        using q by (simp add: line_base_def flip: q)
      have bm: "b mod W < length (line_data L)" using cfg_pos(1) [OF cfg] len by simp
      have ab: "a \<le> b \<longleftrightarrow> a mod W \<le> b mod W" "b < a + length buf \<longleftrightarrow> b mod W < a mod W + length buf"
          "b - a = b mod W - a mod W"
        using b base by linarith+
      have "view_c (put_line c i k L') m' b = overwrite (line_data L) (a mod W) buf ! (b mod W)"
        using cache_view_put_line_hit [OF cfg inv' ci iS k, of b] True v t by (simp add: holds_def L')
      also have "\<dots> = (if a \<le> b \<and> b < a + length buf then buf ! (b - a) else line_data L ! (b mod W))"
        using nth_overwrite [of "a mod W" buf "line_data L" "b mod W"] n len bm ab by simp
      also have "line_data L ! (b mod W) = view_c c m b"
        using cache_view_hit [OF cfg ci k, of b] True L(1) v t by (simp add: holds_def)
      finally show ?thesis by (simp add: put_bytes_def)
    next
      case False
      then have nq: "b div W \<noteq> ?q" using div_line_no [OF cfg iS] by simp
      have "view_c (put_line c i k L') m' b = view_c c m b"
        using False D(2) k L(1) t same [OF nq]
        by (intro cache_view_put_line_other [OF il]) (auto simp: holds_def L')
      then show ?thesis using nq in_line [of b] by (auto simp: put_bytes_def)
    qed
  qed
qed

lemma write_around:
  assumes inv: "inv_c c m" and i: "i = set_no cfg a" and k: "k < nLines cfg"
    and L: "L = lines (sets c ! i) ! k" "\<not> dirty L" and n: "a mod W + length buf \<le> W"
    and only: "\<And>j. j < nLines cfg \<Longrightarrow> holds cfg a (lines (sets c ! i) ! j) \<Longrightarrow> j = k"
    and L': "L' = (if holds cfg a L then L\<lparr>valid := False\<rparr> else L)"
    and clean: "writePolicy cfg \<noteq> Some WP_WRITE_BACK"
    and m': "minv m'" "mview m' = put_bytes (mview m) a buf"
  shows "inv_c (put_line c i k L') m'"
    and "view_c (put_line c i k L') m' = put_bytes (view_c c m) a buf"
proof -
  have ci: "cache_inv cfg cap mview (c, m)" using inv by simp
  have iS: "i < nSets cfg" using i set_no_less [OF cfg] by simp
  note D = cache_invD [OF ci iS]
  have il: "i < length (sets c)" using D(1) iS by simp
  let ?t = "tag_no cfg a"
  let ?q = "line_no cfg i ?t"
  have ok: "line_ok cfg cap (mview m) i L" using D(4) [OF k] L(1) by simp
  have in_line: "b div W = ?q" if "a \<le> b" "b < a + length buf" for b
  proof -
    have "b div W = a div W"
      using same_line(1) [OF n, of "b - a"] that by simp
    then show ?thesis by (simp add: i line_no_of)
  qed
  have same: "mview m' b = mview m b" if "b div W \<noteq> ?q" for b
    using in_line [of b] that by (auto simp: put_bytes_def m'(2))
  have gone: "\<not> (valid L' \<and> unat (tag L') = ?t)" by (auto simp: L' holds_def)
  have inv': "cache_inv cfg cap mview (put_line c i k L', m')"
  proof (rule cache_inv_put_line [OF cfg ci iS k, where q = ?q])
    show "mview m' b = mview m b" if "b div W \<noteq> ?q" for b using same that .
    show "line_no cfg i' (unat (tag (lines (sets c ! i') ! k'))) \<noteq> ?q"
      if "i' < nSets cfg" "k' < nLines cfg" "(i', k') \<noteq> (i, k)" "valid (lines (sets c ! i') ! k')"
      for i' k'
      using only by (intro others_not_in_line [OF ci iS that(1,3,2,4)]) (auto simp: holds_def)
    show "line_ok cfg cap (mview m') i L'"
    proof (cases "holds cfg a L")
      case True
      then show ?thesis using ok L(2) by (simp add: line_ok_def L')
    next
      case False
      then have "valid L \<Longrightarrow> line_no cfg i (unat (tag L)) \<noteq> ?q"
        using line_no_inj [OF iS iS] by (auto simp: holds_def)
      then show ?thesis
        using line_ok_frame [OF cfg ok, of ?q "mview m'"] same False by (simp add: L')
    qed
    show "tag (lines (sets c ! i) ! k') \<noteq> tag L'"
      if "valid L'" "k' < nLines cfg" "k' \<noteq> k" "valid (lines (sets c ! i) ! k')" for k'
      using D(5) [OF that(2) k that(4)] that L(1) by (auto simp: L' split: if_splits)
  qed
  then show "inv_c (put_line c i k L') m'" using m' by simp
  show "view_c (put_line c i k L') m' = put_bytes (view_c c m) a buf"
  proof
    fix b
    show "view_c (put_line c i k L') m' b = put_bytes (view_c c m) a buf b"
    proof (cases "set_no cfg b = i \<and> tag_no cfg b = ?t")
      case True
      then have hb: "holds cfg b = holds cfg a" by (simp add: holds_def fun_eq_iff)
      have "\<not> holds cfg b (lines (sets (put_line c i k L') ! set_no cfg b) ! j)"
        if "j < nLines cfg" for j
        using that only [OF that] gone D(2) k True hb
        by (auto simp: put_line_sets(1) [OF il] nth_list_update holds_def)
      then have lhs: "view_c (put_line c i k L') m' b = mview m' b"
        by (rule cache_view_miss [OF cfg inv'])
      show ?thesis
      proof (cases "a \<le> b \<and> b < a + length buf")
        case True
        then show ?thesis using lhs by (simp add: m'(2) put_bytes_def)
      next
        case out: False
        have "view_c c m b = mview m b"
        proof (cases "holds cfg a L")
          case True
          then have q: "b div W = line_no cfg i (unat (tag L))"
            using div_line_no [OF cfg iS] \<open>set_no cfg b = i \<and> tag_no cfg b = ?t\<close> by (simp add: holds_def)
          have "view_c c m b = line_data L ! (b mod W)"
            using cache_view_hit [OF cfg ci k, of b] \<open>set_no cfg b = i \<and> tag_no cfg b = ?t\<close> hb True L(1)
            by simp
          also have "\<dots> = mview m b"
            using ok True L(2) nth_get_bytes_line [OF cfg_pos(1) [OF cfg] q, of "mview m"]
            by (simp add: line_ok_def holds_def line_base_def)
          finally show ?thesis .
        next
          case False
          then have "\<not> holds cfg b (lines (sets c ! set_no cfg b) ! j)" if "j < nLines cfg" for j
            using only [OF that] \<open>set_no cfg b = i \<and> tag_no cfg b = ?t\<close> hb L(1) by auto
          then show ?thesis by (rule cache_view_miss [OF cfg ci])
        qed
        then show ?thesis using lhs out by (auto simp: m'(2) put_bytes_def)
      qed
    next
      case False
      then have nq: "b div W \<noteq> ?q" using div_line_no [OF cfg iS] by simp
      have "view_c (put_line c i k L') m' b = view_c c m b"
      proof (cases "holds cfg a L")
        case True
        then show ?thesis
          using False D(2) k L(1) same [OF nq]
          by (intro cache_view_put_line_other [OF il]) (auto simp: holds_def L')
      next
        case nh: False
        then have "put_line c i k L' = c" using il L(1) by (simp add: L')
        then show ?thesis using same [OF nq] by (simp add: cache_view_def split: option.split)
      qed
      then show ?thesis using nq in_line [of b] by (auto simp: put_bytes_def)
    qed
  qed
qed

lemma select_line_ok:
  assumes ci: "cache_inv cfg cap mview (c, m)" and i: "i = set_no cfg (unat addr)"
  shows "\<exists>k p l'. select_line cfg (sets c ! i) l (cache_tag cfg addr) w
      = Inr (\<exists>j < nLines cfg. holds cfg (unat addr) (lines (sets c ! i) ! j), k, p, l')
    \<and> k < nLines cfg \<and> policy_wf (nLines cfg) p
    \<and> (\<forall>j < nLines cfg. holds cfg (unat addr) (lines (sets c ! i) ! j) \<longrightarrow> j = k)"
proof -
  have iS: "i < nSets cfg" using i set_no_less [OF cfg] by simp
  note D = cache_invD [OF ci iS]
  let ?s = "sets c ! i" and ?t = "cache_tag cfg addr"
  have holds: "holds cfg (unat addr) x \<longleftrightarrow> valid x \<and> tag x = ?t" for x
    by (simp add: holds_def word_unat_eq_iff unat_cache_tag [OF cfg])
  show ?thesis
  proof (cases "findLine ?s ?t")
    case None
    have no: "\<not> holds cfg (unat addr) (lines ?s ! j)" if "j < nLines cfg" for j
      using findLine_None [OF None] that D(2) by (simp add: holds)
    obtain v p l' where "policy_miss (replacementPolicy ?s, l) w = Inr (v, p, l')" "v < nLines cfg"
        "policy_wf (nLines cfg) p"
      using policy.miss_ok [of "nLines cfg" "(replacementPolicy ?s, l)" w] D(3) by auto
    then show ?thesis using no None by (auto simp: select_line_def)
  next
    case (Some k)
    note k = findLine_Some [OF Some]
    obtain p l' where p: "policy_hit (replacementPolicy ?s, l) k w = Inr (p, l')"
        "policy_wf (nLines cfg) p"
      using policy.hit_ok [of "nLines cfg" "(replacementPolicy ?s, l)" k w] D(2,3) k by auto
    have kn: "k < nLines cfg" "holds cfg (unat addr) (lines ?s ! k)"
      using k D(2) by (simp_all add: holds)
    have only: "j = k" if "j < nLines cfg" "holds cfg (unat addr) (lines ?s ! j)" for j
      using D(5) [OF that(1), of k] k D(2) that(2) by (auto simp: holds)
    have ex: "\<exists>j < nLines cfg. holds cfg (unat addr) (lines ?s ! j)" using kn by blast
    have sel: "select_line cfg ?s l ?t w
        = Inr (\<exists>j < nLines cfg. holds cfg (unat addr) (lines ?s ! j), k, p, l')"
      using Some p(1) kn(1) ex by (simp add: select_line_def)
    show ?thesis
      by (intro exI conjI allI impI, rule sel, rule kn(1), rule p(2), rule only)
  qed
qed

lemma updateLine_ok:
  assumes "length (line_data L) = W" and "unat addr mod W + length buf \<le> W"
  shows "updateLine cfg L addr buf
    = Inr (L\<lparr>line_data := overwrite (line_data L) (unat addr mod W) buf\<rparr>)"
  using assms by (simp add: updateLine_def unat_cache_offset [OF cfg])

lemma cache_read_ok:
  assumes inv: "inv_c c m" and i: "i = set_no cfg a" and a: "a < cap" and k: "k < nLines cfg"
    and L: "L = lines (sets c ! i) ! k"
    and addr: "unat (address tp) = a" and n: "a mod W + data_length tp \<le> W"
    and hit: "hit = (\<exists>j < nLines cfg. holds cfg a (lines (sets c ! i) ! j))"
    and only: "\<forall>j < nLines cfg. holds cfg a (lines (sets c ! i) ! j) \<longrightarrow> j = k"
  shows "\<exists>m' L' d' fx. cache_read mt cfg m hit L tp d
      = Inr (m', L', get_bytes (view_c c m) a (data_length tp), d', fx)
    \<and> inv_c (put_line c i k L') m' \<and> view_c (put_line c i k L') m' = view_c c m"
proof -
  let ?addr = "ucast (address tp) :: u32" and ?n = "data_length tp"
  have ua: "unat ?addr = a" using a cap_bound addr by (simp add: unat_ucast_u64_u32)
  have il: "i < length (sets c)" using inv i set_no_less [OF cfg] set_in_range by blast
  show ?thesis
  proof (cases hit)
    case True
    then have h: "holds cfg a L" using hit only L by blast
    then show ?thesis
      using hit_read [OF inv i k, of ?n] L n True inv ua il
      by (simp add: cache_read_def unat_cache_offset [OF cfg])
  next
    case False
    obtain m1 L1 d1 fx1 m2 L2 d2 fx2 where f: "evictLine mt cfg m L ?addr d = Inr (m1, L1, d1, fx1)"
        "readLine mt cfg m1 ?addr L1 d1 = Inr (m2, L2, d2, fx2)" "holds cfg a L2"
        "inv_c (put_line c i k L2) m2" "view_c (put_line c i k L2) m2 = view_c c m"
      using fetch_ok [OF inv, of i ?addr k L d] i a k L False hit by (auto simp: ua)
    have L2: "lines (sets (put_line c i k L2) ! i) ! k = L2"
      unfolding put_line_sets(1) [OF il]
      using cache_invD(2) [of cfg cap mview c m i] inv i set_no_less [OF cfg] k by simp
    show ?thesis
      using hit_read [OF f(4) i k, of ?n] f L2 n False ua
      by (simp add: cache_read_def unat_cache_offset [OF cfg])
  qed
qed

lemma cache_write_ok:
  assumes inv: "inv_c c m" and i: "i = set_no cfg a" and a: "a + data_length tp \<le> cap" "a < cap"
    and k: "k < nLines cfg" and L: "L = lines (sets c ! i) ! k"
    and addr: "unat (address tp) = a" and n: "a mod W + data_length tp \<le> W"
    and hit: "hit = (\<exists>j < nLines cfg. holds cfg a (lines (sets c ! i) ! j))"
    and only: "\<forall>j < nLines cfg. holds cfg a (lines (sets c ! i) ! j) \<longrightarrow> j = k"
  shows "\<exists>m' L' d' fx. cache_write mt cfg m hit L tp d = Inr (m', L', d', fx)
    \<and> inv_c (put_line c i k L') m'
    \<and> view_c (put_line c i k L') m' = put_bytes (view_c c m) a (data tp)"
proof -
  let ?addr = "ucast (address tp) :: u32"
  let ?out = "\<lparr>command = TLM_WRITE_COMMAND, address = address tp, data = data tp, response_ok = False\<rparr>"
  have ua: "unat ?addr = a" using a(2) cap_bound addr by (simp add: unat_ucast_u64_u32)
  have iS: "i < nSets cfg" using i set_no_less [OF cfg] by simp
  have ci: "cache_inv cfg cap mview (c, m)" using inv by simp
  note D = cache_invD [OF ci iS]
  have il: "i < length (sets c)" using D(1) iS by simp
  have len: "length (data tp) = data_length tp" by (simp add: data_length_def)
  have h: "hit \<longleftrightarrow> holds cfg a L" using hit only L k by blast
  have mem: "\<exists>m2 p' d2 fx2. mt m1 ?out d1 = Inr (m2, p', d2, fx2) \<and> minv m2
      \<and> mview m2 = put_bytes (mview m1) a (data tp)" if "minv m1" for m1 d1
    using mem_write [OF that, of ?out d1] a(1) addr len by simp
  have clean: "\<not> dirty L" if "writePolicy cfg \<noteq> Some WP_WRITE_BACK"
    using D(4) [OF k] L that by (auto simp: line_ok_def)
  have lenL: "length (line_data L) = W" using D(4) [OF k] L by (simp add: line_ok_def)
  consider "writePolicy cfg = Some WP_WRITE_AROUND" | "writePolicy cfg = Some WP_WRITE_THROUGH"
    | "writePolicy cfg = Some WP_WRITE_BACK"
    using cfg by (cases "writePolicy cfg"; cases "the (writePolicy cfg)") (auto simp: cfg_ok_def)
  then show ?thesis
  proof cases
    case 1
    obtain m2 p' d2 fx2 where m2: "mt m ?out d = Inr (m2, p', d2, fx2)" "minv m2"
        "mview m2 = put_bytes (mview m) a (data tp)"
      using mem [of m d] inv by blast
    let ?L' = "if holds cfg a L then L\<lparr>valid := False\<rparr> else L"
    have "inv_c (put_line c i k ?L') m2"
        "view_c (put_line c i k ?L') m2 = put_bytes (view_c c m) a (data tp)"
      using write_around [OF inv i k L, where buf = "data tp" and m' = m2, OF _ _ _ refl]
        clean 1 m2 n len only by auto
    then show ?thesis
      using 1 m2(1) clean h by (simp add: cache_write_def Let_def)
  next
    case 2
    have "\<exists>m1 L1 d1 fx1. (if \<not> hit then readLine mt cfg m ?addr L d else Inr (m, L, d, []))
          = Inr (m1, L1, d1, fx1)
        \<and> holds cfg a L1 \<and> \<not> dirty L1 \<and> inv_c (put_line c i k L1) m1
        \<and> view_c (put_line c i k L1) m1 = view_c c m"
      using readLine_ok [OF inv, of i ?addr k L d] i a(2) k L hit clean 2 inv h il
      by (cases hit) (auto simp: ua)
    then obtain m1 L1 d1 fx1 where f: "(if \<not> hit then readLine mt cfg m ?addr L d else Inr (m, L, d, []))
          = Inr (m1, L1, d1, fx1)"
        "holds cfg a L1" "\<not> dirty L1" "inv_c (put_line c i k L1) m1"
        "view_c (put_line c i k L1) m1 = view_c c m"
      by blast
    have L1: "L1 = lines (sets (put_line c i k L1) ! i) ! k"
      using D(2) k by (simp add: put_line_sets(1) [OF il])
    have len1: "length (line_data L1) = W"
      using hit_read(1) [OF f(4) i k, of "data_length tp"] L1 f(2) n by simp
    obtain m2 p' d2 fx2 where m2: "mt m1 ?out d1 = Inr (m2, p', d2, fx2)" "minv m2"
        "mview m2 = put_bytes (mview m1) a (data tp)"
      using mem [of m1 d1] f(4) by blast
    let ?L2 = "L1\<lparr>line_data := overwrite (line_data L1) (a mod W) (data tp), dirty := False\<rparr>"
    have L2: "?L2 = L1\<lparr>line_data := overwrite (line_data L1) (a mod W) (data tp)\<rparr>"
      using f(3) by simp
    have "inv_c (put_line c i k ?L2) m2"
        "view_c (put_line c i k ?L2) m2 = put_bytes (view_c c m) a (data tp)"
      using hit_write [OF f(4) i k L1 f(2), where buf = "data tp" and d = False and m' = m2, OF _ refl]
        n len m2 f(3,5) il by simp_all
    then show ?thesis
      using 2 f(1) m2(1) clean updateLine_ok [OF len1, of ?addr "data tp"] n len ua
      unfolding L2 by (simp add: cache_write_def Let_def)
  next
    case 3
    have "\<exists>m1 L1 d1 fx1 m2 L2 d2 fx2.
          (if \<not> hit then evictLine mt cfg m L ?addr d else Inr (m, L, d, [])) = Inr (m1, L1, d1, fx1)
        \<and> (if \<not> hit then readLine mt cfg m1 ?addr L1 d1 else Inr (m1, L1, d1, [])) = Inr (m2, L2, d2, fx2)
        \<and> holds cfg a L2 \<and> inv_c (put_line c i k L2) m2
        \<and> view_c (put_line c i k L2) m2 = view_c c m"
    proof (cases hit)
      case True
      then show ?thesis using inv h il L by auto
    next
      case False
      then show ?thesis
        using fetch_ok [OF inv, of i ?addr k L d] i a(2) k L hit by (simp add: ua) blast
    qed
    then obtain m1 L1 d1 fx1 m2 L2 d2 fx2 where
        f: "(if \<not> hit then evictLine mt cfg m L ?addr d else Inr (m, L, d, [])) = Inr (m1, L1, d1, fx1)"
          "(if \<not> hit then readLine mt cfg m1 ?addr L1 d1 else Inr (m1, L1, d1, [])) = Inr (m2, L2, d2, fx2)"
          "holds cfg a L2" "inv_c (put_line c i k L2) m2" "view_c (put_line c i k L2) m2 = view_c c m"
      by blast
    have L2: "L2 = lines (sets (put_line c i k L2) ! i) ! k"
      using D(2) k by (simp add: put_line_sets(1) [OF il])
    have len2: "length (line_data L2) = W"
      using hit_read(1) [OF f(4) i k, of "data_length tp"] L2 f(3) n by simp
    let ?L3 = "L2\<lparr>line_data := overwrite (line_data L2) (a mod W) (data tp), dirty := True\<rparr>"
    have "inv_c (put_line c i k ?L3) m2"
        "view_c (put_line c i k ?L3) m2 = put_bytes (view_c c m) a (data tp)"
      using hit_write [OF f(4) i k L2 f(3), where buf = "data tp" and d = True and m' = m2, OF _ refl]
        n len 3 f(4,5) il by simp_all
    then show ?thesis
      using 3 f(1,2) updateLine_ok [OF len2, of ?addr "data tp"] n len ua
      by (simp add: cache_write_def Let_def)
  qed
qed


lemma offset_check:
  assumes "one_line W cap (unat (address tp)) n"
  shows "\<not> cache_offset cfg (ucast (address tp + of_nat n - 1))
            < cache_offset cfg (ucast (address tp))"
proof -
  let ?a = "unat (address tp)"
  have s: "0 < n" "?a mod W + n \<le> W" "?a + n \<le> 2 ^ 32"
    using assms cap_bound by (auto simp: one_line_def)
  have "address tp + of_nat n - 1 = of_nat (?a + (n - 1))"
    using s(1) by (simp add: of_nat_diff)
  then have "unat (address tp + of_nat n - 1) = ?a + (n - 1)"
    using s by (simp only:) (rule unat_of_nat_lt, simp)
  then have "unat (ucast (address tp + of_nat n - 1) :: u32) = ?a + (n - 1)"
    using s by (subst unat_ucast_u64_u32) auto
  moreover have "(?a + (n - 1)) mod W = ?a mod W + (n - 1)"
    using same_line(2) [OF s(2), of "n - 1"] s(1) by simp
  moreover have "unat (ucast (address tp) :: u32) = ?a"
    using s by (intro unat_ucast_u64_u32) auto
  ultimately show ?thesis
    by (simp add: word_less_nat_alt unat_cache_offset [OF cfg])
qed

lemma selection:
  assumes inv: "inv_c c m" and s: "one_line W cap (unat (address tp)) (data_length tp)"
    and i: "i = set_no cfg (unat (address tp))"
  obtains hit k p l' where
    "select_line cfg (sets c ! i) (lfsr c) (cache_tag cfg (ucast (address tp))) w = Inr (hit, k, p, l')"
    "k < nLines cfg" "inv_c (put_policy c i p l') m"
    "view_c (put_policy c i p l') m = view_c c m"
    "lines (sets (put_policy c i p l') ! i) = lines (sets c ! i)"
    "hit = (\<exists>j < nLines cfg. holds cfg (unat (address tp)) (lines (sets c ! i) ! j))"
    "\<forall>j < nLines cfg. holds cfg (unat (address tp)) (lines (sets c ! i) ! j) \<longrightarrow> j = k"
proof -
  have ua: "unat (ucast (address tp) :: u32) = unat (address tp)"
    using s cap_bound by (intro unat_ucast_u64_u32) (auto simp: one_line_def)
  have ci: "cache_inv cfg cap mview (c, m)" using inv by simp
  have iS: "i < nSets cfg" using i set_no_less [OF cfg] by simp
  have il: "i < length (sets c)" using set_in_range [OF ci iS] .
  obtain k p l' where sel: "select_line cfg (sets c ! i) (lfsr c) (cache_tag cfg (ucast (address tp))) w
      = Inr (\<exists>j < nLines cfg. holds cfg (unat (address tp)) (lines (sets c ! i) ! j), k, p, l')"
    and k: "k < nLines cfg" and p: "policy_wf (nLines cfg) p"
    and only: "\<forall>j < nLines cfg. holds cfg (unat (address tp)) (lines (sets c ! i) ! j) \<longrightarrow> j = k"
    using select_line_ok [OF ci, of i "ucast (address tp)" "lfsr c" w] i unfolding ua by blast
  have "inv_c (put_policy c i p l') m" using put_policy_inv [OF ci iS p] inv by simp
  from that [OF sel k this _ _ refl only] il show ?thesis by simp
qed

lemma cache_transport_read:
  assumes inv: "inv_c c m" and cmd: "command tp = TLM_READ_COMMAND"
    and s: "one_line W cap (unat (address tp)) (data_length tp)"
  shows "\<exists>c' m' d' fx. Cache_b_transport mt cfg period (c, m) tp d
      = Inr ((c', m'), tp\<lparr>data := get_bytes (view_c c m) (unat (address tp)) (data_length tp),
               response_ok := True\<rparr>, d', fx)
    \<and> inv_c c' m' \<and> view_c c' m' = view_c c m"
proof -
  let ?a = "unat (address tp)" and ?addr = "ucast (address tp) :: u32"
  define i where "i = set_no cfg ?a"
  have a: "?a < cap" "?a mod W + data_length tp \<le> W" using s by (auto simp: one_line_def)
  have ua: "unat ?addr = ?a"
    using a cap_bound by (intro unat_ucast_u64_u32) auto
  have iS: "i < nSets cfg" using set_no_less [OF cfg] by (simp add: i_def)
  have il: "i < length (sets c)" "length (lines (sets c ! i)) = nLines cfg"
    using cache_invD(1,2) [OF conjunct1 [OF inv] iS] iS by simp_all
  obtain hit k p l' where sel: "select_line cfg (sets c ! i) (lfsr c) (cache_tag cfg ?addr) False
        = Inr (hit, k, p, l')"
    and k: "k < nLines cfg" and inv1: "inv_c (put_policy c i p l') m"
    and view1: "view_c (put_policy c i p l') m = view_c c m"
    and ln: "lines (sets (put_policy c i p l') ! i) = lines (sets c ! i)"
    and hit: "hit = (\<exists>j < nLines cfg. holds cfg ?a (lines (sets c ! i) ! j))"
    and only: "\<forall>j < nLines cfg. holds cfg ?a (lines (sets c ! i) ! j) \<longrightarrow> j = k"
    by (rule selection [OF inv s i_def])
  obtain m' L' d' fx where r: "cache_read mt cfg m hit (lines (sets c ! i) ! k) tp d
        = Inr (m', L', get_bytes (view_c c m) ?a (data_length tp), d', fx)"
      "inv_c (put_line (put_policy c i p l') i k L') m'"
      "view_c (put_line (put_policy c i p l') i k L') m' = view_c c m"
    using cache_read_ok [OF inv1 i_def a(1) k _ refl a(2), of "lines (sets c ! i) ! k" hit d]
      hit only unfolding ln view1 by blast
  have idx: "unat (cache_index cfg ?addr) = i"
    by (simp add: unat_cache_index [OF cfg] ua i_def)
  show ?thesis
    using offset_check [OF s] sel k r(2,3) il cmd
    by (simp add: Cache_b_transport_def Let_def idx r(1))
qed

lemma cache_transport_write:
  assumes inv: "inv_c c m" and cmd: "command tp = TLM_WRITE_COMMAND"
    and s: "one_line W cap (unat (address tp)) (data_length tp)"
  shows "\<exists>c' m' d' fx. Cache_b_transport mt cfg period (c, m) tp d
      = Inr ((c', m'), tp\<lparr>response_ok := True\<rparr>, d', fx)
    \<and> inv_c c' m' \<and> view_c c' m' = put_bytes (view_c c m) (unat (address tp)) (data tp)"
proof -
  let ?a = "unat (address tp)" and ?addr = "ucast (address tp) :: u32"
  define i where "i = set_no cfg ?a"
  have a: "?a < cap" "?a mod W + data_length tp \<le> W" "?a + data_length tp \<le> cap"
    using s by (auto simp: one_line_def)
  have ua: "unat ?addr = ?a"
    using a cap_bound by (intro unat_ucast_u64_u32) auto
  have iS: "i < nSets cfg" using set_no_less [OF cfg] by (simp add: i_def)
  have il: "i < length (sets c)" "length (lines (sets c ! i)) = nLines cfg"
    using cache_invD(1,2) [OF conjunct1 [OF inv] iS] iS by simp_all
  obtain hit k p l' where sel: "select_line cfg (sets c ! i) (lfsr c) (cache_tag cfg ?addr) True
        = Inr (hit, k, p, l')"
    and k: "k < nLines cfg" and inv1: "inv_c (put_policy c i p l') m"
    and view1: "view_c (put_policy c i p l') m = view_c c m"
    and ln: "lines (sets (put_policy c i p l') ! i) = lines (sets c ! i)"
    and hit: "hit = (\<exists>j < nLines cfg. holds cfg ?a (lines (sets c ! i) ! j))"
    and only: "\<forall>j < nLines cfg. holds cfg ?a (lines (sets c ! i) ! j) \<longrightarrow> j = k"
    by (rule selection [OF inv s i_def])
  obtain m' L' d' fx where r: "cache_write mt cfg m hit (lines (sets c ! i) ! k) tp d
        = Inr (m', L', d', fx)"
      "inv_c (put_line (put_policy c i p l') i k L') m'"
      "view_c (put_line (put_policy c i p l') i k L') m' = put_bytes (view_c c m) ?a (data tp)"
    using cache_write_ok [OF inv1 i_def a(3,1) k _ refl a(2), of "lines (sets c ! i) ! k" hit d]
      hit only unfolding ln view1 by blast
  have idx: "unat (cache_index cfg ?addr) = i"
    by (simp add: unat_cache_index [OF cfg] ua i_def)
  show ?thesis
    using offset_check [OF s] sel k r(2,3) il cmd
    by (simp add: Cache_b_transport_def Let_def idx r(1))
qed

lemma one_line_bound: "one_line W cap a n \<Longrightarrow> a < 2 ^ 64"
  using cap_bound by (auto simp: one_line_def)

end

text \<open>A cache in front of a byte device is a byte device again.\<close>

sublocale cached_memory \<subseteq> front: byte_device
  "Cache_b_transport mt cfg period"
  "cache_view cfg mview"
  "\<lambda>cm. cache_inv cfg cap mview cm \<and> minv (snd cm)"
  "one_line (lineWidth cfg) cap"
  for period
proof unfold_locales
  fix s :: "cache_state \<times> 'm" and p :: payload and d :: sc_time
  obtain c m where s: "s = (c, m)" by (cases s)
  assume inv: "cache_inv cfg cap mview s \<and> minv (snd s)"
    and sv: "one_line W cap (unat (address p)) (length (data p))"
  have inv': "cache_inv cfg cap mview (c, m) \<and> minv m"
    and sv': "one_line W cap (unat (address p)) (data_length p)"
    using inv sv by (simp_all add: s data_length_def)
  show "\<exists>s' p' d' fx. Cache_b_transport mt cfg period s p d = Inr (s', p', d', fx)
      \<and> data p' = get_bytes (cache_view cfg mview s) (unat (address p)) (length (data p))
      \<and> response_ok p'
      \<and> (cache_inv cfg cap mview s' \<and> minv (snd s')) \<and> cache_view cfg mview s' = cache_view cfg mview s"
    if "command p = TLM_READ_COMMAND"
    using cache_transport_read [OF inv' that sv', of period d]
    unfolding s data_length_def by force
  show "\<exists>s' p' d' fx. Cache_b_transport mt cfg period s p d = Inr (s', p', d', fx)
      \<and> data p' = data p \<and> response_ok p'
      \<and> (cache_inv cfg cap mview s' \<and> minv (snd s'))
      \<and> cache_view cfg mview s' = put_bytes (cache_view cfg mview s) (unat (address p)) (data p)"
    if "command p = TLM_WRITE_COMMAND"
    using cache_transport_write [OF inv' that sv', of period d]
    unfolding s by force
qed (rule one_line_bound)

context cached_memory
begin

lemma front_run_flat:
  assumes "cache_inv cfg cap mview (c, m) \<and> minv m"
    and "\<forall>x \<in> set xs. one_line (lineWidth cfg) cap (txn_addr x) (txn_len x)"
  shows "\<exists>s'. dev_run (Cache_b_transport mt cfg period) (c, m) xs
      = Inr (s', snd (flat_run (cache_view cfg mview (c, m)) xs))
    \<and> (cache_inv cfg cap mview s' \<and> minv (snd s'))
    \<and> cache_view cfg mview s' = fst (flat_run (cache_view cfg mview (c, m)) xs)"
  using front.run_flat [of "(c, m)" xs period] assms by simp

end

end
