(* ===== verification/Cache_Theorems.thy ===== *)
theory Cache_Theorems
  imports Cache_Coherence
begin

unbundle bit_operations_syntax

text \<open>
  The cache as constructed by \<open>Cache::Cache\<close> from a configuration with power-of-two
  sizes: the configuration is well formed, the new and the reset cache satisfy the
  invariant, and every sequence of transactions through the cache returns what the
  memory alone would return.
\<close>

section \<open>Configurations with power-of-two sizes\<close>

lemma ilog2_power: "ilog2 (2 ^ n) = n"
  by (induction n) (subst ilog2.simps, simp)+

lemma of_nat_power_minus_one: "(of_nat (2 ^ n) :: 'a::len word) - 1 = mask n"
  by (simp add: mask_eq_exp_minus_1)

lemma cfg_ok_pow2:
  assumes "0 < nl" and "ob + ib \<le> 32" and "parse_write_policy wp \<noteq> None"
  shows "cfg_ok (Cache_cfg (2 ^ ob) (2 ^ ib) nl wp)"
  using assms unfolding cfg_ok_def Cache_cfg_def Let_def ilog2_power of_nat_power_minus_one
  by simp

lemma policy_wf_new:
  assumes "new_policy rp n = Inr p" and "0 < n" and "n < 2 ^ 32"
  shows "policy_wf n p"
proof -
  have u: "unat (of_nat n :: u32) = n" using assms(3) by simp
  have "(of_nat n :: u32) - 1 = of_nat (n - 1)" using assms(2) by (simp add: of_nat_diff)
  then have "unat ((of_nat n :: u32) - 1) = n - 1"
    using assms(3) by (simp only:) simp
  then show ?thesis
    using assms u
    by (auto simp: new_policy_def lru_init_def lru_wf_def lfu_init_def lfu_wf_def rr_wf_def
        random_wf_def split: if_splits)
qed

lemma cache_inv_fresh:
  assumes len: "length ss = nSets cfg"
    and fresh: "\<And>s. s \<in> set ss \<Longrightarrow> policy_wf (nLines cfg) (replacementPolicy s)
      \<and> length (lines s) = nLines cfg
      \<and> (\<forall>l \<in> set (lines s). \<not> valid l \<and> \<not> dirty l \<and> length (line_data l) = lineWidth cfg)"
  shows "cache_inv cfg cap mview (\<lparr>sets = ss, lfsr = x\<rparr>, m)"
proof -
  have "set_ok cfg (ss ! i) \<and> (\<forall>k < nLines cfg. line_ok cfg cap (mview m) i (lines (ss ! i) ! k))"
    if i: "i < nSets cfg" for i
  proof -
    note f = fresh [OF nth_mem [of i ss]]
    have l: "\<not> valid (lines (ss ! i) ! k)" "\<not> dirty (lines (ss ! i) ! k)"
        "length (line_data (lines (ss ! i) ! k)) = lineWidth cfg" if "k < nLines cfg" for k
      using f i len that nth_mem [of k "lines (ss ! i)"] by auto
    show ?thesis using f i len l by (simp add: set_ok_def line_ok_def)
  qed
  then show ?thesis using len by (simp add: cache_inv_def)
qed

lemma Cache_new_inv:
  assumes "Cache_new cfg rp = Inr c" and "0 < nLines cfg" and "nLines cfg < 2 ^ 32"
  shows "cache_inv cfg cap mview (c, m)"
proof -
  obtain p where p: "new_policy rp (nLines cfg) = Inr p"
      "c = \<lparr>sets = replicate (nSets cfg) (CacheSet_new (nLines cfg) (lineWidth cfg) p), lfsr = lfsr_init\<rparr>"
    using assms(1) by (auto simp: Cache_new_def bind_r_eq_Inr)
  show ?thesis
    unfolding p(2) using policy_wf_new [OF p(1) assms(2,3)]
    by (intro cache_inv_fresh) (auto simp: CacheSet_new_def CacheLine_new_def)
qed

lemma no_valid_view:
  assumes "\<And>s l. s \<in> set (sets c) \<Longrightarrow> l \<in> set (lines s) \<Longrightarrow> \<not> valid l"
    and "length (sets c) = nSets cfg" and "cfg_ok cfg"
  shows "cache_view cfg mview (c, m) = mview m"
proof (rule ext)
  fix a
  have "sets c ! set_no cfg a \<in> set (sets c)"
    using assms(2) set_no_less [OF assms(3)] by simp
  then have "cached_line cfg c a = None"
    using assms(1) by (auto simp: cached_line_def find_None_iff holds_def)
  then show "cache_view cfg mview (c, m) a = mview m a"
    by (simp add: cache_view_def)
qed

lemma Cache_new_view:
  assumes "Cache_new cfg rp = Inr c" and "cfg_ok cfg"
  shows "cache_view cfg mview (c, m) = mview m"
  using assms by (intro no_valid_view)
    (auto simp: Cache_new_def bind_r_eq_Inr CacheSet_new_def CacheLine_new_def)

lemma Cache_reset_inv:
  assumes "cache_inv cfg cap mview (c, m)"
  shows "cache_inv cfg cap' mview' (Cache_reset c, m')"
  using assms policy_wf_reset
  by (auto simp: cache_inv_def set_ok_def line_ok_def Cache_reset_def CacheSet_reset_def
      CacheLine_reset_def)

lemma Cache_reset_view:
  assumes "cache_inv cfg cap mview' (c, m')" and "cfg_ok cfg"
  shows "cache_view cfg mview (Cache_reset c, m) = mview m"
  using assms by (intro no_valid_view)
    (auto simp: Cache_reset_def CacheSet_reset_def CacheLine_reset_def cache_inv_def)

section \<open>The cache in front of the FRAM\<close>

lemma cached_fram:
  assumes "cfg_ok cfg" and "cap \<le> 2 ^ 32" and "lineWidth cfg dvd cap"
  shows "cached_memory (NonvolatileMemory_b_transport period ws) mem_view
    (\<lambda>mem. length mem = cap) (\<lambda>a n. a + n \<le> cap \<and> a < 2 ^ 64) cfg cap"
  using assms by (intro cached_memory.intro cached_memory_axioms.intro
      nonvolatile.byte_device_axioms) auto

lemma Cache_cfg_sel [simp]:
  "lineWidth (Cache_cfg w ns nl wp) = w" "nLines (Cache_cfg w ns nl wp) = nl"
  "writePolicy (Cache_cfg w ns nl wp) = parse_write_policy wp"
  by (simp_all add: Cache_cfg_def Let_def)

lemma fram_cache_cfg_ok: "cfg_ok (Cache_cfg 8 2 2 ''WriteAround'')"
  using cfg_ok_pow2 [of 2 3 1 "''WriteAround''"] by (simp add: parse_write_policy_def)

text \<open>The cache of the MSP430 test board, in front of the FRAM from 0x4000 to 0xff7f.\<close>

interpretation fram_cache: cached_memory
  "NonvolatileMemory_b_transport period ws" mem_view "\<lambda>mem. length mem = 0xbf80"
  "\<lambda>a n. a + n \<le> 0xbf80 \<and> a < 2 ^ 64" "Cache_cfg 8 2 2 ''WriteAround''" "0xbf80"
  for period ws
  by (rule cached_fram [OF fram_cache_cfg_ok]) simp_all

definition in_one_line :: "nat \<Rightarrow> nat \<Rightarrow> txn \<Rightarrow> bool" where
  "in_one_line w cap x \<longleftrightarrow> one_line w cap (txn_addr x) (txn_len x)"

lemma cache_run_flat:
  assumes cfg: "cfg_ok cfg" and cap: "length mem \<le> 2 ^ 32" "lineWidth cfg dvd length mem"
    and inv: "cache_inv cfg (length mem) mem_view (c, mem)"
    and xs: "\<forall>x \<in> set xs. in_one_line (lineWidth cfg) (length mem) x"
  shows "\<exists>s'. dev_run (Cache_b_transport (NonvolatileMemory_b_transport period ws) cfg period)
      (c, mem) xs = Inr (s', snd (flat_run (cache_view cfg mem_view (c, mem)) xs))"
  using cached_memory.front_run_flat [OF cached_fram [OF cfg cap], of c mem xs period] inv xs
  unfolding in_one_line_def by blast

lemma memory_run_flat:
  assumes cap: "length mem \<le> 2 ^ 32"
    and xs: "\<forall>x \<in> set xs. in_one_line w (length mem) x"
  shows "\<exists>mem'. dev_run (NonvolatileMemory_b_transport period ws) mem xs
      = Inr (mem', snd (flat_run (mem_view mem) xs))"
proof -
  have "\<forall>x \<in> set xs. txn_addr x + txn_len x \<le> length mem \<and> txn_addr x < 2 ^ 64"
    using xs cap by (auto simp: in_one_line_def one_line_def dest!: bspec)
  then show ?thesis
    using nonvolatile.run_flat [of mem "length mem" xs period ws] by blast
qed



text \<open>Resetting the cache (the reset signal) drops every line: whatever the cache held,
  dirty or not, the reset cache is transparent over the present contents of the FRAM.\<close>

theorem cache_reset_drops_lines:
  assumes "cfg_ok cfg" and "cache_inv cfg (length mem0) mem_view (c, mem0)"
    and "length mem \<le> 2 ^ 32" and "lineWidth cfg dvd length mem"
    and "\<forall>x \<in> set xs. in_one_line (lineWidth cfg) (length mem) x"
  shows "\<exists>s'. dev_run (Cache_b_transport (NonvolatileMemory_b_transport period ws) cfg period)
      (Cache_reset c, mem) xs = Inr (s', snd (flat_run (mem_view mem) xs))"
  using cache_run_flat [OF assms(1,3,4) Cache_reset_inv [OF assms(2)] assms(5)]
  unfolding Cache_reset_view [OF assms(2,1)] .

theorem cache_reset_drops_lines_witness:
  "\<exists>c s'. Cache_new (Cache_cfg 4 2 1 ''WriteBack'') ''LFU'' = Inr c \<and>
    dev_run (Cache_b_transport (NonvolatileMemory_b_transport 1 0) (Cache_cfg 4 2 1 ''WriteBack'') 1)
      (Cache_reset c, replicate 4 7) [Rd 1 2] = Inr (s', [[7, 7]])"
proof -
  have cfg: "cfg_ok (Cache_cfg 4 2 1 ''WriteBack'')"
    using cfg_ok_pow2 [of 1 2 1 "''WriteBack''"] by (simp add: parse_write_policy_def)
  obtain c where c: "Cache_new (Cache_cfg 4 2 1 ''WriteBack'') ''LFU'' = Inr c"
    by (simp add: Cache_new_def new_policy_def)
  have "cache_inv (Cache_cfg 4 2 1 ''WriteBack'') (length (replicate 4 (7 :: u8))) mem_view (c, replicate 4 7)"
    using Cache_new_inv [OF c] by simp
  then have "\<exists>s'. dev_run (Cache_b_transport (NonvolatileMemory_b_transport 1 0)
      (Cache_cfg 4 2 1 ''WriteBack'') 1) (Cache_reset c, replicate 4 7) [Rd 1 2]
      = Inr (s', snd (flat_run (mem_view (replicate 4 7)) [Rd 1 2]))"
    by (rule cache_reset_drops_lines [OF cfg]) (simp_all add: in_one_line_def one_line_def)
  moreover have "snd (flat_run (mem_view (replicate 4 7)) [Rd 1 2]) = [[7, 7]]"
    by (simp add: get_bytes_def mem_view_def upt_rec)
  ultimately show ?thesis using c by auto
qed

lemma no_dirty_view:
  assumes cfg: "cfg_ok cfg" and inv: "cache_inv cfg cap mview (c, m)"
    and wp: "writePolicy cfg \<noteq> Some WP_WRITE_BACK"
  shows "cache_view cfg mview (c, m) = mview m"
proof (rule ext)
  fix a
  let ?i = "set_no cfg a"
  note D = cache_invD [OF inv set_no_less [OF cfg, of a]]
  show "cache_view cfg mview (c, m) a = mview m a"
  proof (cases "\<exists>k < nLines cfg. holds cfg a (lines (sets c ! ?i) ! k)")
    case True
    then obtain k where k: "k < nLines cfg" "holds cfg a (lines (sets c ! ?i) ! k)" by blast
    then have "line_data (lines (sets c ! ?i) ! k)
        = get_bytes (mview m) (line_base cfg ?i (tag_no cfg a)) (lineWidth cfg)"
      using D(4) [OF k(1)] wp by (auto simp: line_ok_def holds_def)
    then show ?thesis
      using cache_view_hit [OF cfg inv k] nth_get_bytes_line [OF cfg_pos(1) [OF cfg] refl, of "mview m" a]
      by (simp add: line_base_def line_no_of)
  next
    case False
    then show ?thesis by (intro cache_view_miss [OF cfg inv]) blast
  qed
qed





end
