(* ===== verification/Memory_System.thy ===== *)
theory Memory_System
  imports Bus Cache_Theorems
begin

unbundle bit_operations_syntax

text \<open>
  \<open>mcu/Msp430Microcontroller.cpp\<close>: the memory map of the MSP430 microcontroller and the
  whole memory system behind its bus: the FRAM behind the cache, the SRAM and the
  interrupt vectors. The peripherals on the bus are a type parameter with a transport of
  their own; they share the map but serve none of the memory accesses.

  The memory map is shown to be free of overlaps, and the bus with the caches and
  memories behind it to be one flat byte memory (interpretation \<open>msp430_bus\<close> of
  \<open>bus_devices\<close>).
\<close>

section \<open>The memory map\<close>

datatype slave_id =
    S_cache | S_fram_ctl | S_sram | S_vectors | S_adc | S_refgen | S_watchdog | S_portJ
  | S_portA | S_portB | S_portC | S_portD | S_pmm | S_cs | S_tima | S_mpy32 | S_dma | S_mon
  | S_euscib

text \<open>In the order of the constructor's \<open>push_back\<close> calls.\<close>

definition msp430_targets :: "(slave_id \<times> nat \<times> nat) list" where
  "msp430_targets =
     [(S_cache, 0x4000, 0xff7f), (S_fram_ctl, 0x140, 0x147), (S_sram, 0x1c00, 0x1c00 + 0x2000 - 1),
      (S_vectors, 0xff80, 0xffff), (S_adc, 0x800, 0x89f), (S_refgen, 0x1b0, 0x1b1),
      (S_watchdog, 0x15c, 0x15d), (S_portJ, 0x320, 0x336), (S_portA, 0x200, 0x21f),
      (S_portB, 0x220, 0x23f), (S_portC, 0x240, 0x25f), (S_portD, 0x260, 0x27f),
      (S_pmm, 0x120, 0x131), (S_cs, 0x160, 0x16d), (S_tima, 0x340, 0x36f),
      (S_mpy32, 0x4c0, 0x4ef), (S_dma, 0x500, 0x56f), (S_mon, 0xb00, 0xb03),
      (S_euscib, 0x640, 0x66f)]"

definition msp430_slaves :: "(slave_id \<times> nat \<times> nat) list" where
  "msp430_slaves = sort_key (\<lambda>x. fst (snd x)) msp430_targets"

definition msp430_bus_init :: bus where
  "msp430_bus_init = foldl (\<lambda>b (x, s, e). bindTarget b (of_nat s) (of_nat e)) Bus_new msp430_slaves"

definition msp430_routing :: routing_table where
  "msp430_routing = routingTable msp430_bus_init"

text \<open>Ascending ranges with no overlap.\<close>

definition chained :: "routing_table \<Rightarrow> bool" where
  "chained rs \<longleftrightarrow> list_all (\<lambda>r. fst r \<le> snd r) rs \<and> sorted_wrt (\<lambda>r r'. snd r < fst r') rs"

lemma chained_le: "chained rs \<Longrightarrow> i < length rs \<Longrightarrow> fst (rs ! i) \<le> snd (rs ! i)"
  by (simp add: chained_def list_all_length)

lemma chained_disjoint: "chained rs \<Longrightarrow> disjoint_ranges rs"
proof -
  assume "chained rs"
  then have less: "a < fst (rs ! j)" if "i < j" "j < length rs" "a \<le> snd (rs ! i)" for i j a
    using sorted_wrt_nth_less [of "\<lambda>r r'. snd r < fst r'" rs i j] that
    by (simp add: chained_def order_le_less_trans)
  show ?thesis
    unfolding disjoint_ranges_def Bus_inRange_def
  proof (intro allI impI)
    fix i j a
    assume "i < length rs" "j < length rs"
      "(fst (rs ! i) \<le> a \<and> a \<le> snd (rs ! i)) \<and> fst (rs ! j) \<le> a \<and> a \<le> snd (rs ! j)"
    then show "i = j"
      using less [of i j a] less [of j i a] by (cases i j rule: linorder_cases) auto
  qed
qed

lemma msp430_routing_eq:
  "msp430_routing =
     [(0x120, 0x131), (0x140, 0x147), (0x15c, 0x15d), (0x160, 0x16d), (0x1b0, 0x1b1),
      (0x200, 0x21f), (0x220, 0x23f), (0x240, 0x25f), (0x260, 0x27f), (0x320, 0x336),
      (0x340, 0x36f), (0x4c0, 0x4ef), (0x500, 0x56f), (0x640, 0x66f), (0x800, 0x89f),
      (0xb00, 0xb03), (0x1c00, 0x3bff), (0x4000, 0xff7f), (0xff80, 0xffff)]"
  by (simp add: msp430_routing_def msp430_bus_init_def msp430_slaves_def msp430_targets_def
      bindTarget_def Bus_new_def)

lemma msp430_chained: "chained msp430_routing"
  by (simp add: msp430_routing_eq chained_def)

section \<open>The slaves behind the ports\<close>

datatype 'p slave =
    Cached "cache_state \<times> u8 list"
  | Memory "u8 list"
  | Peripheral 'p

definition port_id :: "nat \<Rightarrow> slave_id" where
  "port_id i = fst (msp430_slaves ! i)"

definition lift_slave :: "('s \<Rightarrow> 'p slave) \<Rightarrow> 's transported \<Rightarrow> 'p slave transported" where
  "lift_slave f r = bind_r r (\<lambda>(s', p', d', fx). Inr (f s', p', d', fx))"

definition slave_transport ::
  "(slave_id \<Rightarrow> 'p transport) \<Rightarrow> cache_cfg \<Rightarrow> sc_time \<Rightarrow> nat \<Rightarrow> nat \<Rightarrow> 'p slave transport" where
  "slave_transport pt cfg period waitStates i s tp delay =
     (case s of
        Cached cm \<Rightarrow>
          lift_slave Cached
            (Cache_b_transport (NonvolatileMemory_b_transport period waitStates) cfg period cm tp delay)
      | Memory mem \<Rightarrow> lift_slave Memory (GenericMemory_b_transport period mem tp delay)
      | Peripheral p \<Rightarrow> lift_slave Peripheral (pt (port_id i) p tp delay))"

definition memory_size :: "slave_id \<Rightarrow> nat option" where
  "memory_size x = (case x of S_cache \<Rightarrow> Some 0xbf80 | S_sram \<Rightarrow> Some 0x2000 | S_vectors \<Rightarrow> Some 0x80
      | _ \<Rightarrow> None)"

definition is_memory :: "nat \<Rightarrow> bool" where
  "is_memory i = (memory_size (port_id i) \<noteq> None)"

definition slave_view :: "cache_cfg \<Rightarrow> nat \<Rightarrow> 'p slave \<Rightarrow> nat \<Rightarrow> u8" where
  "slave_view cfg i s =
     (case s of Cached cm \<Rightarrow> cache_view cfg mem_view cm | Memory mem \<Rightarrow> mem_view mem
      | Peripheral p \<Rightarrow> (\<lambda>_. 0))"

definition slave_inv :: "cache_cfg \<Rightarrow> nat \<Rightarrow> 'p slave \<Rightarrow> bool" where
  "slave_inv cfg i s =
     (case s of
        Cached cm \<Rightarrow> port_id i = S_cache \<and> cache_inv cfg 0xbf80 mem_view cm \<and> length (snd cm) = 0xbf80
      | Memory mem \<Rightarrow> port_id i \<noteq> S_cache \<and> memory_size (port_id i) = Some (length mem)
      | Peripheral p \<Rightarrow> False)"

definition msp430_memory_init ::
  "(slave_id \<Rightarrow> 'p) \<Rightarrow> cache_state \<Rightarrow> bus \<times> 'p slave list" where
  "msp430_memory_init pinit c =
     (msp430_bus_init,
      map (\<lambda>(x, s, e).
        if x = S_cache then Cached (c, replicate (e - s + 1) 0)
        else if memory_size x \<noteq> None then Memory (replicate (e - s + 1) 0)
        else Peripheral (pinit x)) msp430_slaves)"

lemma msp430_slaves_eq:
  "msp430_slaves =
     [(S_pmm, 0x120, 0x131), (S_fram_ctl, 0x140, 0x147), (S_watchdog, 0x15c, 0x15d),
      (S_cs, 0x160, 0x16d), (S_refgen, 0x1b0, 0x1b1), (S_portA, 0x200, 0x21f),
      (S_portB, 0x220, 0x23f), (S_portC, 0x240, 0x25f), (S_portD, 0x260, 0x27f),
      (S_portJ, 0x320, 0x336), (S_tima, 0x340, 0x36f), (S_mpy32, 0x4c0, 0x4ef),
      (S_dma, 0x500, 0x56f), (S_euscib, 0x640, 0x66f), (S_adc, 0x800, 0x89f),
      (S_mon, 0xb00, 0xb03), (S_sram, 0x1c00, 0x3bff), (S_cache, 0x4000, 0xff7f),
      (S_vectors, 0xff80, 0xffff)]"
  by (simp add: msp430_slaves_def msp430_targets_def)

lemma memory_sizes:
  "list_all (\<lambda>i. case memory_size (port_id i) of None \<Rightarrow> True
      | Some n \<Rightarrow> n = port_size msp430_routing i) [0..<19]"
  by (simp add: upt_rec port_id_def port_size_def msp430_slaves_eq msp430_routing_eq memory_size_def)

lemma memory_port_size:
  assumes "i < length msp430_routing" and "is_memory i"
  shows "memory_size (port_id i) = Some (port_size msp430_routing i)"
proof -
  have "i < 19" using assms(1) by (simp add: msp430_routing_eq)
  then show ?thesis
    using memory_sizes assms(2) by (fastforce simp: list_all_iff is_memory_def split: option.splits)
qed

lemma cache_port_size:
  assumes "i < length msp430_routing" and "port_id i = S_cache"
  shows "port_size msp430_routing i = 0xbf80"
  using memory_port_size [OF assms(1)] assms(2) by (simp add: is_memory_def memory_size_def)

lemma even_gap: "x < w \<Longrightarrow> even x \<Longrightarrow> even w \<Longrightarrow> x + 2 \<le> (w :: nat)"
  by presburger

lemma aligned_one_line:
  assumes "aligned_access 2 sz a n" and "even w" and "0 < w"
  shows "one_line w sz a n"
proof -
  have "n = 1 \<or> n = 2" using assms(1) by (auto simp: aligned_access_def)
  then have n: "n = 1 \<or> (n = 2 \<and> even a)" "a + n \<le> sz" using assms(1) by (auto simp: aligned_access_def)
  have less: "a mod w < w" using assms(3) by simp
  have "a mod w + 2 \<le> w" if "even a"
  proof -
    have "even (a mod w)" using that assms(2) by (simp add: dvd_mod)
    then show ?thesis by (rule even_gap [OF less _ assms(2)])
  qed
  then show ?thesis
    using n less by (auto simp: one_line_def)
qed

lemma slave_byte_device:
  fixes pt :: "slave_id \<Rightarrow> 'p transport"
  assumes i: "i < length msp430_routing" "is_memory i"
    and cfg: "cfg_ok cfg" "even (lineWidth cfg)" "lineWidth cfg dvd 0xbf80"
  shows "byte_device (slave_transport pt cfg period ws i) (slave_view cfg i) (slave_inv cfg i)
    (aligned_access (word_size msp430) (port_size msp430_routing i))"
proof
  note sz = memory_port_size [OF i]
  have cm: "cached_memory (NonvolatileMemory_b_transport period ws) mem_view
      (\<lambda>mem. length mem = 0xbf80) (\<lambda>a n. a + n \<le> 0xbf80 \<and> a < 2 ^ 64) cfg 0xbf80"
    by (rule cached_fram [OF cfg(1) _ cfg(3)]) simp
  fix s :: "'p slave" and p :: payload and d :: sc_time
  assume inv: "slave_inv cfg i s"
    and sv: "aligned_access (word_size msp430) (port_size msp430_routing i) (unat (address p)) (length (data p))"
  have bound: "unat (address p) + length (data p) \<le> port_size msp430_routing i"
    using sv by (simp add: aligned_access_def)
  have line: "one_line (lineWidth cfg) 0xbf80 (unat (address p)) (data_length p)" if "port_id i = S_cache"
    using aligned_one_line [OF _ cfg(2) cfg_pos(1) [OF cfg(1)]] sv cache_port_size [OF i(1) that]
    by (simp add: msp430_def data_length_def)
  show "\<exists>s' p' d' fx. slave_transport pt cfg period ws i s p d = Inr (s', p', d', fx)
      \<and> data p' = get_bytes (slave_view cfg i s) (unat (address p)) (length (data p)) \<and> response_ok p'
      \<and> slave_inv cfg i s' \<and> slave_view cfg i s' = slave_view cfg i s"
    if cmd: "command p = TLM_READ_COMMAND"
  proof (cases s)
    case (Cached x)
    obtain c m where x: "x = (c, m)" by (cases x)
    have "port_id i = S_cache" "cache_inv cfg 0xbf80 mem_view (c, m) \<and> length m = 0xbf80"
      using inv Cached x by (simp_all add: slave_inv_def)
    then show ?thesis
      using cached_memory.cache_transport_read [OF cm _ cmd line, of c m period d]
      by (auto simp: Cached x slave_transport_def lift_slave_def slave_view_def slave_inv_def data_length_def)
  next
    case (Memory mem)
    then have len: "length mem = port_size msp430_routing i"
      using inv sz by (simp add: slave_inv_def)
    show ?thesis
      using bound inv cmd
      by (auto simp: Memory slave_transport_def lift_slave_def slave_view_def slave_inv_def data_length_def
          GenericMemory_b_transport_def Let_def len get_bytes_mem_view)
  next
    case (Peripheral q)
    then show ?thesis using inv by (simp add: slave_inv_def)
  qed
  show "\<exists>s' p' d' fx. slave_transport pt cfg period ws i s p d = Inr (s', p', d', fx)
      \<and> data p' = data p \<and> response_ok p' \<and> slave_inv cfg i s'
      \<and> slave_view cfg i s' = put_bytes (slave_view cfg i s) (unat (address p)) (data p)"
    if cmd: "command p = TLM_WRITE_COMMAND"
  proof (cases s)
    case (Cached x)
    obtain c m where x: "x = (c, m)" by (cases x)
    have "port_id i = S_cache" "cache_inv cfg 0xbf80 mem_view (c, m) \<and> length m = 0xbf80"
      using inv Cached x by (simp_all add: slave_inv_def)
    then show ?thesis
      using cached_memory.cache_transport_write [OF cm _ cmd line, of c m period d]
      by (auto simp: Cached x slave_transport_def lift_slave_def slave_view_def slave_inv_def)
  next
    case (Memory mem)
    then have len: "length mem = port_size msp430_routing i"
      using inv sz by (simp add: slave_inv_def)
    show ?thesis
      using bound inv cmd
      by (auto simp: Memory slave_transport_def lift_slave_def slave_view_def slave_inv_def data_length_def
          GenericMemory_b_transport_def Let_def len put_bytes_mem_view)
  next
    case (Peripheral q)
    then show ?thesis using inv by (simp add: slave_inv_def)
  qed
next
  fix a n
  assume "aligned_access (word_size msp430) (port_size msp430_routing i) a n"
  then have "a \<le> unat (snd (msp430_routing ! i) - fst (msp430_routing ! i))"
    by (simp add: aligned_access_def port_size_def)
  also have "\<dots> < 2 ^ 32" using unat_lt_2p [of "snd (msp430_routing ! i) - fst (msp430_routing ! i)"] by simp
  finally show "a < 2 ^ 64" by simp
qed

lemma msp430_bus_devices:
  assumes "cfg_ok cfg" and "even (lineWidth cfg)" and "lineWidth cfg dvd 0xbf80"
  shows "bus_devices msp430 msp430_routing is_memory (slave_transport pt cfg period ws)
    (slave_view cfg) (slave_inv cfg)"
  using chained_disjoint [OF msp430_chained] chained_le [OF msp430_chained]
    slave_byte_device [OF _ _ assms]
  by (intro bus_devices.intro)

text \<open>The memory system with the cache configuration of the test board.\<close>

interpretation msp430_bus: bus_devices
  msp430 msp430_routing is_memory "slave_transport pt (Cache_cfg 8 2 2 ''WriteAround'') period ws"
  "slave_view (Cache_cfg 8 2 2 ''WriteAround'')" "slave_inv (Cache_cfg 8 2 2 ''WriteAround'')"
  for pt period ws
  by (rule msp430_bus_devices [OF fram_cache_cfg_ok]) simp_all

section \<open>Properties\<close>

text \<open>The MSP430 memory map built by the constructor has no overlap: every bus address is
  routed to at most one of the 19 targets, every target's range is not empty, and each
  target receives every address of its range.\<close>

lemma msp430_map_disjoint:
  "disjoint_ranges msp430_routing
   \<and> length msp430_routing = 19
   \<and> (\<forall>i < 19. \<forall>a. fst (msp430_routing ! i) \<le> snd (msp430_routing ! i)
        \<and> (Bus_inRange a (msp430_routing ! i) \<longrightarrow> find_port msp430_routing a 0 = Some i))"
proof -
  have len: "length msp430_routing = 19" by (simp add: msp430_routing_eq)
  then show ?thesis
    using chained_disjoint [OF msp430_chained] chained_le [OF msp430_chained]
      find_port_unique [OF chained_disjoint [OF msp430_chained]] by simp
qed

lemma msp430_map_disjoint_witness:
  "find_port msp430_routing 0x4123 0 = Some 17"
  using msp430_map_disjoint by (simp add: msp430_routing_eq Bus_inRange_def)

lemma msp430_init_inv:
  assumes c: "Cache_new cfg rp = Inr c" "0 < nLines cfg" "nLines cfg < 2 ^ 32"
  shows "bus_inv msp430_routing is_memory (slave_inv cfg) (msp430_memory_init pinit c)"
proof -
  have "cache_inv cfg 0xbf80 mem_view (c, replicate 0xbf80 0)"
    by (rule Cache_new_inv [OF c])
  then have "list_all (\<lambda>i. is_memory i \<longrightarrow> slave_inv cfg i (snd (msp430_memory_init pinit c) ! i)) [0..<19]"
    by (simp add: upt_rec is_memory_def slave_inv_def msp430_memory_init_def msp430_slaves_eq
        port_id_def memory_size_def del: replicate_Suc)
  then show ?thesis
    by (simp add: bus_inv_def msp430_memory_init_def msp430_routing_def [symmetric] list_all_iff)
      (simp add: msp430_routing_eq msp430_slaves_eq)
qed

lemma msp430_init_view:
  assumes c: "Cache_new cfg rp = Inr c" and cfg: "cfg_ok cfg"
  shows "bus_view msp430_routing is_memory (slave_view cfg) (msp430_memory_init pinit c) = (\<lambda>_. 0)"
proof (rule ext)
  fix a
  have z: "mem_view (replicate n 0) b = 0" for n b by (simp add: mem_view_def)
  have "list_all (\<lambda>i. \<forall>b. is_memory i \<longrightarrow> slave_view cfg i (snd (msp430_memory_init pinit c) ! i) b = 0) [0..<19]"
    by (simp add: upt_rec is_memory_def slave_view_def msp430_memory_init_def msp430_slaves_eq
        port_id_def memory_size_def z Cache_new_view [OF c cfg] del: replicate_Suc)
  moreover have "find_port msp430_routing (of_nat a) 0 = Some i \<Longrightarrow> i < 19" for i
    using find_port_Some [of msp430_routing "of_nat a" 0 i] by (simp add: msp430_routing_eq)
  ultimately show "bus_view msp430_routing is_memory (slave_view cfg) (msp430_memory_init pinit c) a = 0"
    by (auto simp: bus_view_def list_all_iff split: option.split)
qed



end
