(* ===== verification/Msp430_Cpu_Theorems.thy ===== *)
theory Msp430_Cpu_Theorems
  imports Msp430_Alu Memory_System
begin

unbundle bit_operations_syntax

text \<open>
  Properties of the MSP430 core: comparison and multi-word arithmetic through the status
  flags, what every instruction leaves alone, sleeping, and interrupt entry and return
  over any byte device behind the bus (locale \<open>cpu_memory\<close>, interpreted on the memory
  system of the microcontroller).
\<close>

section \<open>Flags\<close>

definition set_flag_bit :: "nat \<Rightarrow> bool \<Rightarrow> u32 \<Rightarrow> u32" where
  "set_flag_bit b v w = (w AND NOT (push_bit b 1)) OR push_bit b (of_bool v)"

lemma bit_set_flag_bit:
  "bit (set_flag_bit b v w) n \<longleftrightarrow> (if n = b then v \<and> b < 32 else bit w n)"
  by (auto simp: set_flag_bit_def bit_simps of_bool_def dest: bit_imp_le_length)

lemma flag_bit: "flag b s = bit (cpuRegs s ! 2) b"
  by (simp add: flag_def bit_iff_and_push_bit_not_eq_0)

lemma setFlag_eq:
  "b < 16 \<Longrightarrow> setFlag b v s = Inr ((), s\<lparr>cpuRegs := (cpuRegs s)[2 := set_flag_bit b v (cpuRegs s ! 2)]\<rparr>)"
  by (simp add: setFlag_def setBit_def msp430_def set_flag_bit_def)

lemmas flag_ops = setZeroFlag_def setNegativeFlag_def setOverflowFlag_def setCarryFlag_def
  getZeroFlag_def getNegativeFlag_def getOverflowFlag_def getCarryFlag_def

lemma set_znvc_ok:
  assumes "length (cpuRegs s) = 16"
  obtains w where "set_znvc r bnw v c s = Inr ((), s\<lparr>cpuRegs := (cpuRegs s)[2 := w]\<rparr>)"
    "bit w 0 = c" "bit w 1 = isZero (ucast r) bnw" "bit w 2 = isNegative (ucast r) bnw" "bit w 8 = v"
    "\<And>n. n \<notin> {0, 1, 2, 8} \<Longrightarrow> bit w n = bit (cpuRegs s ! 2) n"
proof -
  let ?w = "set_flag_bit 0 c (set_flag_bit 8 v (set_flag_bit 2 (isNegative (ucast r) bnw)
      (set_flag_bit 1 (isZero (ucast r) bnw) (cpuRegs s ! 2))))"
  have "set_znvc r bnw v c s = Inr ((), s\<lparr>cpuRegs := (cpuRegs s)[2 := ?w]\<rparr>)"
    using assms by (simp add: set_znvc_def cpu_monad flag_ops setFlag_eq)
  then show ?thesis by (rule that) (simp_all add: bit_set_flag_bit)
qed



section \<open>Multi-word arithmetic\<close>

lemma writeback_reg:
  assumes "\<not> inMem op" and "\<not> byteNotWord op" and "unat (op_addr op) < 16"
  shows "writeback_op bt op s
    = Inr ((), s\<lparr>cpuRegs := (cpuRegs s)[unat (op_addr op) := ucast (ucast (op_val op) :: u16)]\<rparr>)"
  using assms by (simp add: writeback_op_def writeback_def setGpr_def cpu_monad)

lemma unat_word_value: "unat (ucast (ucast v :: u16) :: u32) = uval False v"
proof -
  have "unat (ucast v :: u16) < 2 ^ 32" using unat_lt_2p [of "ucast v :: u16"] by simp
  then show ?thesis by (simp add: uval_word unat_ucast_mod)
qed

lemma uval_word_value: "uval False (ucast (ucast v :: u16)) = uval False v"
  using uval_bound [of False v] unat_word_value [of v] by (simp add: uval_def)

definition word_reg :: "operand \<Rightarrow> nat \<Rightarrow> bool" where
  "word_reg op r \<longleftrightarrow> \<not> inMem op \<and> \<not> byteNotWord op \<and> op_addr op = of_nat r \<and> 3 < r \<and> r < 16"

lemma add_step:
  assumes len: "length (cpuRegs s) = 16" and ops: "\<not> byteNotWord src" "word_reg dst r"
    and idx: "(idx = 5 \<and> \<not> c) \<or> (idx = 6 \<and> c = flag 0 s)"
  obtains w where
    "execute_double bt idx src dst s
      = Inr ((), s\<lparr>cpuRegs := (cpuRegs s)[2 := w, r := ucast (ucast (op_val src + op_val dst + of_bool c) :: u16)]\<rparr>)"
    "bit w 0 \<longleftrightarrow> 2 ^ 16 \<le> uval False (op_val src) + uval False (op_val dst) + of_bool c"
proof -
  let ?r = "op_val src + op_val dst + of_bool c"
  have r: "unat (op_addr dst) = r" "\<not> inMem dst" "\<not> byteNotWord dst" "r < 16"
    using ops(2) by (simp_all add: word_reg_def)
  obtain w where w: "set_znvc ?r False (isOverflow (op_val src) (op_val dst) c False)
        (isCarry (op_val src) (op_val dst) c False) s = Inr ((), s\<lparr>cpuRegs := (cpuRegs s)[2 := w]\<rparr>)"
    and c0: "bit w 0 = isCarry (op_val src) (op_val dst) c False"
    by (rule set_znvc_ok [OF len]) (rule that)
  have "execute_double bt idx src dst s
      = Inr ((), s\<lparr>cpuRegs := (cpuRegs s)[2 := w, r := ucast (ucast ?r :: u16)]\<rparr>)"
    using idx w ops(1) r writeback_reg [of "dst\<lparr>op_val := ?r\<rparr>" bt]
    by (elim disjE) (auto simp: execute_double_def Let_def next_op_def seq_def flag_ops get_def)
  then show ?thesis
    by (rule that) (simp add: c0 isCarry_uval op_width_def)
qed

lemma sub_step:
  assumes len: "length (cpuRegs s) = 16" and ops: "\<not> byteNotWord src" "word_reg dst r"
    and idx: "(idx = 8 \<and> c) \<or> (idx = 7 \<and> c = flag 0 s)"
  obtains w where
    "execute_double bt idx src dst s
      = Inr ((), s\<lparr>cpuRegs := (cpuRegs s)[2 := w,
          r := ucast (ucast (op_val dst + NOT (op_val src) + of_bool c) :: u16)]\<rparr>)"
    "bit w 0 \<longleftrightarrow> 2 ^ 16 \<le> uval False (op_val dst) + uval False (NOT (op_val src)) + of_bool c"
proof -
  let ?r = "op_val dst + NOT (op_val src) + of_bool c"
  have r: "unat (op_addr dst) = r" "\<not> inMem dst" "\<not> byteNotWord dst" "r < 16"
    using ops(2) by (simp_all add: word_reg_def)
  obtain w where w: "set_znvc ?r False (isOverflow (op_val dst) (NOT (op_val src)) c False)
        (isCarry (op_val dst) (NOT (op_val src)) c False) s = Inr ((), s\<lparr>cpuRegs := (cpuRegs s)[2 := w]\<rparr>)"
    and c0: "bit w 0 = isCarry (op_val dst) (NOT (op_val src)) c False"
    by (rule set_znvc_ok [OF len]) (rule that)
  have "execute_double bt idx src dst s
      = Inr ((), s\<lparr>cpuRegs := (cpuRegs s)[2 := w, r := ucast (ucast ?r :: u16)]\<rparr>)"
    using idx w ops(1) r writeback_reg [of "dst\<lparr>op_val := ?r\<rparr>" bt]
    by (elim disjE) (auto simp: execute_double_def Let_def next_op_def seq_def flag_ops get_def add_ac)
  then show ?thesis
    by (rule that) (simp add: c0 isCarry_uval op_width_def)
qed

definition wide :: "u32 \<Rightarrow> u32 \<Rightarrow> nat" where
  "wide lo hi = uval False lo + 2 ^ 16 * uval False hi"

lemma wide_add_arith:
  fixes a0 a1 b0 b1 d c :: nat
  assumes "a0 < 65536" "a1 < 65536" "b0 < 65536" "b1 < 65536" "d \<le> 1"
    and "c = of_bool (65536 \<le> a0 + b0 + d)"
  shows "(a0 + b0 + d) mod 65536 + 65536 * ((a1 + b1 + c) mod 65536)
      = (a0 + 65536 * a1 + (b0 + 65536 * b1) + d) mod 4294967296"
    and "65536 \<le> a1 + b1 + c \<longleftrightarrow> 4294967296 \<le> a0 + 65536 * a1 + (b0 + 65536 * b1) + d"
  using assms by (auto simp: mod_if of_bool_def)

lemma wide_not: "wide (NOT lo) (NOT hi) = 4294967295 - wide lo hi" "wide lo hi < 4294967296"
  using uval_bound [of False lo] uval_bound [of False hi]
  by (simp_all add: wide_def uval_not op_width_def)

text \<open>ADD on the low words followed by ADDC on the high words is 32-bit addition: the two
  destination registers hold the sum modulo \<open>2 ^ 32\<close>, and the carry flag its carry out.\<close>

lemma add_addc_is_wide_add:
  assumes "length (cpuRegs s) = 16" and "\<not> byteNotWord src0" and "\<not> byteNotWord src1"
    and "word_reg dst0 r0" and "word_reg dst1 r1" and "r0 \<noteq> r1"
  shows "\<exists>s'. next_op (execute_double bt 5 src0 dst0) (execute_double bt 6 src1 dst1) s = Inr ((), s')
    \<and> wide (cpuRegs s' ! r0) (cpuRegs s' ! r1)
        = (wide (op_val src0) (op_val src1) + wide (op_val dst0) (op_val dst1)) mod 2 ^ 32
    \<and> (flag 0 s' \<longleftrightarrow> 2 ^ 32 \<le> wide (op_val src0) (op_val src1) + wide (op_val dst0) (op_val dst1))"
proof -
  have r: "3 < r0" "r0 < 16" "3 < r1" "r1 < 16" using assms(4,5) by (simp_all add: word_reg_def)
  obtain w0 where s1: "execute_double bt 5 src0 dst0 s
      = Inr ((), s\<lparr>cpuRegs := (cpuRegs s)[2 := w0, r0 := ucast (ucast (op_val src0 + op_val dst0 + of_bool False) :: u16)]\<rparr>)"
    and c0: "bit w0 0 \<longleftrightarrow> 2 ^ 16 \<le> uval False (op_val src0) + uval False (op_val dst0) + of_bool False"
    by (rule add_step [OF assms(1,2,4), where idx = 5 and c = False and bt = bt]) (simp, rule that)
  define s' where "s' = s\<lparr>cpuRegs := (cpuRegs s)[2 := w0, r0 := ucast (ucast (op_val src0 + op_val dst0) :: u16)]\<rparr>"
  have len: "length (cpuRegs s') = 16" using assms(1) by (simp add: s'_def)
  have fl: "flag 0 s' = bit w0 0" using assms(1) r by (simp add: s'_def flag_bit)
  define c where "c = bit w0 0"
  obtain w1 where s2: "execute_double bt 6 src1 dst1 s'
      = Inr ((), s'\<lparr>cpuRegs := (cpuRegs s')[2 := w1, r1 := ucast (ucast (op_val src1 + op_val dst1 + of_bool c) :: u16)]\<rparr>)"
    and c1: "bit w1 0 \<longleftrightarrow> 2 ^ 16 \<le> uval False (op_val src1) + uval False (op_val dst1) + of_bool c"
    by (rule add_step [OF len assms(3,5), where idx = 6 and c = c and bt = bt]) (simp add: fl c_def, rule that)
  define s2 where "s2 = s'\<lparr>cpuRegs := (cpuRegs s')[2 := w1, r1 := ucast (ucast (op_val src1 + op_val dst1 + of_bool c) :: u16)]\<rparr>"
  have regs: "uval False (cpuRegs s2 ! r0) = (uval False (op_val src0) + uval False (op_val dst0)) mod 2 ^ 16"
      "uval False (cpuRegs s2 ! r1) = (uval False (op_val src1) + uval False (op_val dst1) + of_bool c) mod 2 ^ 16"
      "flag 0 s2 = bit w1 0"
    using assms(1,6) r uval_add [of False "op_val src0" "op_val dst0"]
      uval_add3 [of False "op_val src1" "op_val dst1" c]
    by (simp_all add: s2_def s'_def flag_bit uval_word_value) (simp_all add: op_width_def)
  have "next_op (execute_double bt 5 src0 dst0) (execute_double bt 6 src1 dst1) s = Inr ((), s2)"
    using s1 s2 by (simp add: next_op_def seq_def s'_def s2_def)
  moreover have "c \<longleftrightarrow> 65536 \<le> uval False (op_val src0) + uval False (op_val dst0)"
    using c0 by (simp add: c_def)
  ultimately show ?thesis
    using wide_add_arith [of "uval False (op_val src0)" "uval False (op_val src1)"
        "uval False (op_val dst0)" "uval False (op_val dst1)" 0 "of_bool c"]
      uval_bound [of False] c1 regs
    by (intro exI [of _ s2]) (simp add: wide_def op_width_def)
qed

lemma add_addc_is_wide_add_witness:
  "\<exists>s'. next_op
      (execute_double (\<lambda>b p d. Inr (b, p, d, [])) 5
        \<lparr>op_addr = 8, op_val = 0xffff, inMem = False, byteNotWord = False\<rparr>
        \<lparr>op_addr = 4, op_val = 2, inMem = False, byteNotWord = False\<rparr>)
      (execute_double (\<lambda>b p d. Inr (b, p, d, [])) 6
        \<lparr>op_addr = 9, op_val = 3, inMem = False, byteNotWord = False\<rparr>
        \<lparr>op_addr = 5, op_val = 4, inMem = False, byteNotWord = False\<rparr>)
      \<lparr>cpuRegs = replicate 16 0, m_run = True, m_sleeping = False, m_doStep = False,
        m_breakpoints = {}, bus_state = (), now = 0, cpu_log = []\<rparr> = Inr ((), s')
    \<and> wide (cpuRegs s' ! 4) (cpuRegs s' ! 5) = 0x80001 \<and> \<not> flag 0 s'"
  using add_addc_is_wide_add
    [of "\<lparr>cpuRegs = replicate 16 0, m_run = True, m_sleeping = False, m_doStep = False,
        m_breakpoints = {}, bus_state = (), now = 0, cpu_log = []\<rparr>"
      "\<lparr>op_addr = 8, op_val = 0xffff, inMem = False, byteNotWord = False\<rparr>"
      "\<lparr>op_addr = 9, op_val = 3, inMem = False, byteNotWord = False\<rparr>"
      "\<lparr>op_addr = 4, op_val = 2, inMem = False, byteNotWord = False\<rparr>" 4
      "\<lparr>op_addr = 5, op_val = 4, inMem = False, byteNotWord = False\<rparr>" 5 "\<lambda>b p d. Inr (b, p, d, [])"]
  by (auto simp: word_reg_def wide_def uval_def op_width_def)

text \<open>SUB on the low words followed by SUBC on the high words is 32-bit subtraction modulo
  \<open>2 ^ 32\<close>; the carry flag is set exactly when no borrow occurs.\<close>

theorem sub_subc_is_wide_sub:
  assumes "length (cpuRegs s) = 16" and "\<not> byteNotWord src0" and "\<not> byteNotWord src1"
    and "word_reg dst0 r0" and "word_reg dst1 r1" and "r0 \<noteq> r1"
  shows "\<exists>s'. next_op (execute_double bt 8 src0 dst0) (execute_double bt 7 src1 dst1) s = Inr ((), s')
    \<and> wide (cpuRegs s' ! r0) (cpuRegs s' ! r1)
        = (2 ^ 32 + wide (op_val dst0) (op_val dst1) - wide (op_val src0) (op_val src1)) mod 2 ^ 32
    \<and> (flag 0 s' \<longleftrightarrow> wide (op_val src0) (op_val src1) \<le> wide (op_val dst0) (op_val dst1))"
proof -
  have r: "3 < r0" "r0 < 16" "3 < r1" "r1 < 16" using assms(4,5) by (simp_all add: word_reg_def)
  obtain w0 where s1: "execute_double bt 8 src0 dst0 s
      = Inr ((), s\<lparr>cpuRegs := (cpuRegs s)[2 := w0, r0 := ucast (ucast (op_val dst0 + NOT (op_val src0) + of_bool True) :: u16)]\<rparr>)"
    and c0: "bit w0 0 \<longleftrightarrow> 2 ^ 16 \<le> uval False (op_val dst0) + uval False (NOT (op_val src0)) + of_bool True"
    by (rule sub_step [OF assms(1,2,4), where idx = 8 and c = True and bt = bt]) (simp, rule that)
  define s' where "s' = s\<lparr>cpuRegs := (cpuRegs s)[2 := w0,
      r0 := ucast (ucast (op_val dst0 + NOT (op_val src0) + of_bool True) :: u16)]\<rparr>"
  have len: "length (cpuRegs s') = 16" using assms(1) by (simp add: s'_def)
  have fl: "flag 0 s' = bit w0 0" using assms(1) r by (simp add: s'_def flag_bit)
  define c where "c = bit w0 0"
  obtain w1 where s2: "execute_double bt 7 src1 dst1 s'
      = Inr ((), s'\<lparr>cpuRegs := (cpuRegs s')[2 := w1, r1 := ucast (ucast (op_val dst1 + NOT (op_val src1) + of_bool c) :: u16)]\<rparr>)"
    and c1: "bit w1 0 \<longleftrightarrow> 2 ^ 16 \<le> uval False (op_val dst1) + uval False (NOT (op_val src1)) + of_bool c"
    by (rule sub_step [OF len assms(3,5), where idx = 7 and c = c and bt = bt]) (simp add: fl c_def, rule that)
  define s2 where "s2 = s'\<lparr>cpuRegs := (cpuRegs s')[2 := w1, r1 := ucast (ucast (op_val dst1 + NOT (op_val src1) + of_bool c) :: u16)]\<rparr>"
  let ?n0 = "NOT (op_val src0)" and ?n1 = "NOT (op_val src1)"
  have regs: "uval False (cpuRegs s2 ! r0) = (uval False (op_val dst0) + uval False ?n0 + 1) mod 65536"
      "uval False (cpuRegs s2 ! r1) = (uval False (op_val dst1) + uval False ?n1 + of_bool c) mod 65536"
      "flag 0 s2 = bit w1 0"
    using assms(1,6) r uval_add3 [of False "op_val dst0" ?n0 True] uval_add3 [of False "op_val dst1" ?n1 c]
    by (simp_all add: s2_def s'_def flag_bit uval_word_value) (simp_all add: op_width_def)
  have "next_op (execute_double bt 8 src0 dst0) (execute_double bt 7 src1 dst1) s = Inr ((), s2)"
    using s1 s2 by (simp add: next_op_def seq_def s'_def s2_def)
  moreover have c: "c \<longleftrightarrow> 65536 \<le> uval False (op_val dst0) + uval False ?n0 + 1"
    using c0 by (simp add: c_def)
  have w: "wide (cpuRegs s2 ! r0) (cpuRegs s2 ! r1)
        = (wide (op_val dst0) (op_val dst1) + wide ?n0 ?n1 + 1) mod 4294967296"
      "flag 0 s2 \<longleftrightarrow> 4294967296 \<le> wide (op_val dst0) (op_val dst1) + wide ?n0 ?n1 + 1"
    using wide_add_arith [of "uval False (op_val dst0)" "uval False (op_val dst1)"
        "uval False ?n0" "uval False ?n1" 1 "of_bool c"] uval_bound [of False] c1 regs c
    by (simp_all add: wide_def op_width_def)
  have "wide (op_val dst0) (op_val dst1) + wide ?n0 ?n1 + 1
      = 4294967296 + wide (op_val dst0) (op_val dst1) - wide (op_val src0) (op_val src1)"
    using wide_not [of "op_val src0" "op_val src1"] by linarith
  with w have "wide (cpuRegs s2 ! r0) (cpuRegs s2 ! r1)
        = (2 ^ 32 + wide (op_val dst0) (op_val dst1) - wide (op_val src0) (op_val src1)) mod 2 ^ 32"
      "flag 0 s2 \<longleftrightarrow> wide (op_val src0) (op_val src1) \<le> wide (op_val dst0) (op_val dst1)"
    using wide_not [of "op_val src0" "op_val src1"] by (simp, linarith)
  ultimately show ?thesis by blast
qed

theorem sub_subc_is_wide_sub_witness:
  "\<exists>s'. next_op
      (execute_double (\<lambda>b p d. Inr (b, p, d, [])) 8
        \<lparr>op_addr = 8, op_val = 3, inMem = False, byteNotWord = False\<rparr>
        \<lparr>op_addr = 4, op_val = 2, inMem = False, byteNotWord = False\<rparr>)
      (execute_double (\<lambda>b p d. Inr (b, p, d, [])) 7
        \<lparr>op_addr = 9, op_val = 0, inMem = False, byteNotWord = False\<rparr>
        \<lparr>op_addr = 5, op_val = 4, inMem = False, byteNotWord = False\<rparr>)
      \<lparr>cpuRegs = replicate 16 0, m_run = True, m_sleeping = False, m_doStep = False,
        m_breakpoints = {}, bus_state = (), now = 0, cpu_log = []\<rparr> = Inr ((), s')
    \<and> wide (cpuRegs s' ! 4) (cpuRegs s' ! 5) = 0x3ffff \<and> flag 0 s'"
  using sub_subc_is_wide_sub
    [of "\<lparr>cpuRegs = replicate 16 0, m_run = True, m_sleeping = False, m_doStep = False,
        m_breakpoints = {}, bus_state = (), now = 0, cpu_log = []\<rparr>"
      "\<lparr>op_addr = 8, op_val = 3, inMem = False, byteNotWord = False\<rparr>"
      "\<lparr>op_addr = 9, op_val = 0, inMem = False, byteNotWord = False\<rparr>"
      "\<lparr>op_addr = 4, op_val = 2, inMem = False, byteNotWord = False\<rparr>" 4
      "\<lparr>op_addr = 5, op_val = 4, inMem = False, byteNotWord = False\<rparr>" 5 "\<lambda>b p d. Inr (b, p, d, [])"]
  by (auto simp: word_reg_def wide_def uval_def op_width_def)

section \<open>Sleeping\<close>

definition idle_env :: "cpu_env \<Rightarrow> bool" where
  "idle_env e \<longleftrightarrow> pwrOn e \<and> \<not> irq e \<and> pwrOn_end e"

lemma cpu_step_sleep:
  assumes "idle_env e" and "m_run s" and "cpuRegs s ! 2 AND 0x0010 \<noteq> 0"
    and "cpuRegs s ! 0 \<notin> m_breakpoints s"
  shows "cpu_step bt period e s = Inr ((), s\<lparr>now := now s + period, m_sleeping := True,
      cpu_log := cpu_log s @ (if m_sleeping s then [] else [Cpu_state St_sleep])\<rparr>)"
  using assms
  by (simp add: cpu_step_def idle_env_def run_or_sleep_def set_sleeping_def wait_for_def log_effect_def
      getPc_def getSr_def cpu_monad Let_def)

text \<open>A core in low-power mode (CPUOFF set) that receives no interrupt stays asleep: over
  any number of loop iterations no register changes, the bus is not touched, exactly
  one clock period passes per iteration, and the sleep state is reported once.\<close>

lemma sleeps_until_interrupt:
  assumes "\<forall>e \<in> set es. idle_env e" and "m_run s" and "cpuRegs s ! 2 AND 0x0010 \<noteq> 0"
    and "cpuRegs s ! 0 \<notin> m_breakpoints s"
  shows "cpu_run bt period es s = Inr ((), s\<lparr>now := now s + length es * period,
      m_sleeping := m_sleeping s \<or> es \<noteq> [],
      cpu_log := cpu_log s @ (if m_sleeping s \<or> es = [] then [] else [Cpu_state St_sleep])\<rparr>)"
  using assms
proof (induction es arbitrary: s)
  case Nil
  then show ?case by (simp add: cpu_monad)
next
  case (Cons e es)
  let ?s1 = "s\<lparr>now := now s + period, m_sleeping := True,
      cpu_log := cpu_log s @ (if m_sleeping s then [] else [Cpu_state St_sleep])\<rparr>"
  have "cpu_step bt period e s = Inr ((), ?s1)"
    using Cons.prems by (intro cpu_step_sleep) auto
  moreover have "cpu_run bt period es ?s1 = Inr ((), ?s1\<lparr>now := now ?s1 + length es * period,
      m_sleeping := m_sleeping ?s1 \<or> es \<noteq> [],
      cpu_log := cpu_log ?s1 @ (if m_sleeping ?s1 \<or> es = [] then [] else [Cpu_state St_sleep])\<rparr>)"
    using Cons.prems by (intro Cons.IH) auto
  ultimately show ?case by (simp add: next_op_def seq_def)
qed

lemma sleeps_until_interrupt_witness:
  "cpu_run (\<lambda>b p d. Inr (b, p, d, [])) 125
      (replicate 3 \<lparr>pwrOn = True, irq = False, irqIdx = 0, irqIdx_vec = 0, pwrOn_end = True\<rparr>)
      \<lparr>cpuRegs = (replicate 16 0)[2 := 0x18], m_run = True, m_sleeping = False, m_doStep = False,
        m_breakpoints = {}, bus_state = (), now = 0, cpu_log = []\<rparr>
    = Inr ((), \<lparr>cpuRegs = (replicate 16 0)[2 := 0x18], m_run = True, m_sleeping = True, m_doStep = False,
        m_breakpoints = {}, bus_state = (), now = 375, cpu_log = [Cpu_state St_sleep]\<rparr>)"
  using sleeps_until_interrupt
    [of "replicate 3 \<lparr>pwrOn = True, irq = False, irqIdx = 0, irqIdx_vec = 0, pwrOn_end = True\<rparr>"
      "\<lparr>cpuRegs = (replicate 16 0)[2 := 0x18], m_run = True, m_sleeping = False, m_doStep = False,
        m_breakpoints = {}, bus_state = (), now = 0, cpu_log = []\<rparr>" "\<lambda>b p d. Inr (b, p, d, [])" 125]
  by (simp add: idle_env_def)

section \<open>SXT on an odd register\<close>

text \<open>\<open>operand.addr &= ~1u\<close> aligns a memory address, but is applied to a register number as
  well: SXT of an odd register overwrites the register below it and leaves its operand
  unextended.\<close>

lemma sxt_odd_register:
  assumes "length (cpuRegs s) = 16" and "r \<in> {5, 7, 9, 11, 13, 15}"
    and "op = \<lparr>op_addr = of_nat r, op_val = cpuRegs s ! r, inMem = False, byteNotWord = False\<rparr>"
  obtains s' where "execute_sxt bt op s = Inr ((), s')" "cpuRegs s' ! r = cpuRegs s ! r"
    "cpuRegs s' ! (r - 1) = ucast (ucast (if cpuRegs s ! r AND push_bit 7 1 \<noteq> 0
        then cpuRegs s ! r OR 0xff00 else cpuRegs s ! r AND 0x00ff) :: u16)"
proof -
  define v where "v = (if cpuRegs s ! r AND push_bit 7 1 \<noteq> 0
      then cpuRegs s ! r OR 0xff00 else cpuRegs s ! r AND 0x00ff)"
  have a: "unat (of_nat r AND ucast (NOT 1 :: u32) :: u64) = r - 1" "r - 1 < 16" "r \<noteq> 2" "r - 1 \<noteq> 2" "r \<noteq> r - 1" "r < 16"
    using assms(2) by auto
  obtain w where w: "set_flags (\<not> isZero (ucast v) False) False v False s
      = Inr ((), s\<lparr>cpuRegs := (cpuRegs s)[2 := w]\<rparr>)"
    using assms(1) by (simp add: set_flags_def flag_ops setFlag_eq cpu_monad)
  have "execute_sxt bt op s = next_op (set_flags (\<not> isZero (ucast v) False) False v False)
      (writeback_op bt (op\<lparr>op_val := v, byteNotWord := False, op_addr := op_addr op AND ucast (NOT 1 :: u32)\<rparr>)) s"
    by (simp add: execute_sxt_def Let_def assms(3) v_def)
  also have "\<dots> = Inr ((), s\<lparr>cpuRegs := (cpuRegs s)[2 := w, r - 1 := ucast (ucast v :: u16)]\<rparr>)"
    using w a(1,2) by (simp add: assms(3) next_op_def seq_def writeback_op_def writeback_def setGpr_def cpu_monad)
  finally show ?thesis
    by (rule that) (use a assms(1) in \<open>simp_all add: v_def\<close>)
qed

section \<open>Interrupts over a byte device\<close>

definition word_at :: "(nat \<Rightarrow> u8) \<Rightarrow> nat \<Rightarrow> u16" where
  "word_at m a = ucast (m a) OR push_bit 8 (ucast (m (Suc a)))"

lemma word_at_put:
  "word_at (put_bytes m a [host_byte (ucast v) 0, host_byte (ucast v) (Suc 0)]) a = v"
  unfolding word_at_def
  by (rule bit_word_eqI) (auto simp: put_bytes_def host_byte_def bit_simps dest: bit_imp_le_length)

locale cpu_memory = byte_device bt view inv serves
  for bt :: "'s transport" and view inv serves
begin

lemma read16_ok:
  assumes "inv (bus_state s)" and "serves (unat (ucast addr :: u32)) 2"
  shows "\<exists>b' t. read16 bt addr s
      = Inr (word_at (view (bus_state s)) (unat (ucast addr :: u32)), s\<lparr>bus_state := b', now := t\<rparr>)
    \<and> inv b' \<and> view b' = view (bus_state s)"
proof -
  let ?a = "unat (ucast addr :: u32)"
  let ?p = "\<lparr>command = TLM_READ_COMMAND, address = ucast (ucast addr :: u32), data = replicate 2 0,
      response_ok = False\<rparr>"
  obtain b' p' d' fx where r: "bt (bus_state s) ?p 0 = Inr (b', p', d', fx)"
      "data p' = get_bytes (view (bus_state s)) ?a 2" "response_ok p'" "inv b'" "view b' = view (bus_state s)"
    using read_law [OF assms(1), of ?p 0] assms(2) by auto
  have g: "get_bytes (view (bus_state s)) ?a 2 = [view (bus_state s) ?a, view (bus_state s) (Suc ?a)]"
    by (simp add: get_bytes_def upt_rec)
  have "ucast (ttohs msp430 (ucast (push_bit 8 (ucast x) OR ucast y :: u64))) = (ucast x OR push_bit 8 (ucast y) :: u16)"
    for x y :: u8
    by (subst ttohs_pack_little)
      (auto simp: msp430_def host_load32_def bit_simps dest: bit_imp_le_length intro!: bit_word_eqI)
  then show ?thesis
    using r g by (intro exI [of _ b'] exI [of _ "now s + d'"])
      (simp add: read16_def readMem_def cpu_monad pack2 word_at_def)
qed

lemma write16_ok:
  assumes "inv (bus_state s)" and "serves (unat (ucast addr :: u32)) 2"
  shows "\<exists>b' t. write16 bt addr v s = Inr ((), s\<lparr>bus_state := b', now := t\<rparr>)
    \<and> inv b' \<and> view b' = put_bytes (view (bus_state s)) (unat (ucast addr :: u32))
        [host_byte (ucast v) 0, host_byte (ucast v) (Suc 0)]"
proof -
  let ?p = "\<lparr>command = TLM_WRITE_COMMAND, address = ucast (ucast addr :: u32),
      data = [host_byte (ucast v) 0, host_byte (ucast v) (Suc 0)], response_ok = False\<rparr>"
  obtain b' p' d' fx where r: "bt (bus_state s) ?p 0 = Inr (b', p', d', fx)" "response_ok p'" "inv b'"
      "view b' = put_bytes (view (bus_state s)) (unat (ucast addr :: u32)) [host_byte (ucast v) 0, host_byte (ucast v) (Suc 0)]"
    using write_law [OF assms(1), of ?p 0] assms(2) by (auto simp: numeral_2_eq_2)
  then show ?thesis
    by (intro exI [of _ b'] exI [of _ "now s + d'"])
      (simp add: write16_def writeMem_def unpack_htots_little msp430_def)
qed

lemma push16_ok:
  assumes "inv (bus_state s)" and "length (cpuRegs s) = 16" and "serves (unat (cpuRegs s ! 1 - 2)) 2"
  shows "\<exists>b' t. push16 bt v s
      = Inr ((), s\<lparr>cpuRegs := (cpuRegs s)[1 := cpuRegs s ! 1 - 2], bus_state := b', now := t\<rparr>)
    \<and> inv b' \<and> view b' = put_bytes (view (bus_state s)) (unat (cpuRegs s ! 1 - 2))
        [host_byte (ucast v) 0, host_byte (ucast v) (Suc 0)]"
proof -
  let ?s = "s\<lparr>cpuRegs := (cpuRegs s)[1 := cpuRegs s ! 1 - 2]\<rparr>"
  have "(cpuRegs ?s) ! 1 = cpuRegs s ! 1 - 2" using assms(2) by simp
  then show ?thesis
    using write16_ok [of ?s "ucast (cpuRegs s ! 1 - 2)" v] assms(1,3)
    by (simp add: push16_def getSp_def setSp_def cpu_monad)
qed

lemma reti_ok:
  assumes inv: "inv (bus_state s)" and len: "length (cpuRegs s) = 16"
    and sp: "cpuRegs s ! 1 = sp" "serves (unat sp) 2" "serves (unat (sp + 2)) 2"
    and even: "word_at (view (bus_state s)) (unat (sp + 2)) mod 2 = 0"
  shows "\<exists>b' t. execute_reti bt period s
      = Inr ((), s\<lparr>cpuRegs := (cpuRegs s)[2 := ucast (word_at (view (bus_state s)) (unat sp)),
            1 := sp + 2 + 2, 0 := ucast (word_at (view (bus_state s)) (unat (sp + 2)))],
          bus_state := b', now := t\<rparr>)
    \<and> inv b' \<and> view b' = view (bus_state s)"
proof -
  let ?m = "view (bus_state s)"
  obtain b1 t1 where r1: "read16 bt (ucast sp) s = Inr (word_at ?m (unat sp), s\<lparr>bus_state := b1, now := t1\<rparr>)"
      "inv b1" "view b1 = ?m"
    using read16_ok [OF inv, of "ucast sp"] sp(2) by auto
  define s1 where "s1 = s\<lparr>bus_state := b1, now := t1,
      cpuRegs := (cpuRegs s)[2 := ucast (word_at ?m (unat sp)), 1 := sp + 2]\<rparr>"
  have s1: "bus_state s1 = b1" "cpuRegs s1 ! Suc 0 = sp + 2" "length (cpuRegs s1) = 16"
    using len by (simp_all add: s1_def)
  obtain b2 t2 where r2: "read16 bt (ucast (sp + 2)) s1
        = Inr (word_at ?m (unat (sp + 2)), s1\<lparr>bus_state := b2, now := t2\<rparr>)"
      "inv b2" "view b2 = ?m"
    using read16_ok [of s1 "ucast (sp + 2)"] sp(3) r1(2,3) by (auto simp: s1)
  have ev: "(ucast (word_at ?m (unat (sp + 2))) :: u32) mod 2 = 0"
    using even by (simp add: mod_2_eq_odd flip: bit_0) (simp add: bit_simps)
  have "execute_reti bt period s
      = bind_r (read16 bt (ucast (sp + 2)) s1) (\<lambda>(pc, s2). next_op (setPc (ucast pc))
          (seq getSp (\<lambda>sp3. next_op (setSp (sp3 + 2)) (waitCycles period 1))) s2)"
    using r1(1) sp(1) len
    by (simp add: execute_reti_def seq_def next_op_def getSp_def setSp_def setSr_def get_def modify_def s1_def)
  also have "\<dots> = Inr ((), s\<lparr>cpuRegs := (cpuRegs s)[2 := ucast (word_at ?m (unat sp)),
            1 := sp + 2 + 2, 0 := ucast (word_at ?m (unat (sp + 2)))],
          bus_state := b2, now := t2 + period\<rparr>)"
    using r2(1) ev len
    by (simp add: setPc_def getSp_def setSp_def waitCycles_def wait_for_def cpu_monad s1_def
        list_update_swap)
  finally show ?thesis using r2(2,3) by blast
qed

lemma enter_vector_ok:
  assumes inv: "inv (bus_state s)" and len: "length (cpuRegs s) = 16"
    and v: "serves (unat addr) 2" "word_at (view (bus_state s)) (unat addr) mod 2 = 0"
  shows "\<exists>b' t. enter_vector bt addr s
      = Inr ((), s\<lparr>cpuRegs := (cpuRegs s)[2 := cpuRegs s ! 2 AND 0x40,
            0 := ucast (word_at (view (bus_state s)) (unat addr))], bus_state := b', now := t\<rparr>)
    \<and> inv b' \<and> view b' = view (bus_state s)"
proof -
  have ua: "unat (ucast (ucast addr :: u64) :: u32) = unat addr"
    using unat_lt_2p [of addr] by (simp add: unat_ucast_mod)
  define s1 where "s1 = s\<lparr>cpuRegs := (cpuRegs s)[2 := cpuRegs s ! 2 AND 0x40]\<rparr>"
  obtain b' t where r: "read16 bt (ucast addr) s1
        = Inr (word_at (view (bus_state s)) (unat addr), s1\<lparr>bus_state := b', now := t\<rparr>)"
      "inv b'" "view b' = view (bus_state s)"
    using read16_ok [of s1 "ucast addr"] inv v(1) by (auto simp: ua s1_def)
  have ev: "(ucast (word_at (view (bus_state s)) (unat addr)) :: u32) mod 2 = 0"
    using v(2) by (simp add: mod_2_eq_odd flip: bit_0) (simp add: bit_simps)
  have "enter_vector bt addr s = Inr ((), s\<lparr>cpuRegs := (cpuRegs s)[2 := cpuRegs s ! 2 AND 0x40,
            0 := ucast (word_at (view (bus_state s)) (unat addr))], bus_state := b', now := t\<rparr>)"
    using r(1) ev
    by (simp add: enter_vector_def getSr_def setSr_def setPc_def cpu_monad s1_def)
  then show ?thesis using r(2,3) by blast
qed

definition stack_room :: "u32 \<Rightarrow> nat \<Rightarrow> bool" where
  "stack_room sp va \<longleftrightarrow> 4 \<le> unat sp \<and> serves (unat sp - 2) 2 \<and> serves (unat sp - 4) 2
     \<and> serves va 2 \<and> (va + 2 \<le> unat sp - 4 \<or> unat sp \<le> va)"

lemma interrupt_ok:
  assumes inv: "inv (bus_state s)" and len: "length (cpuRegs s) = 16"
    and irq: "irqIdx env \<noteq> 0" "cpuRegs s ! 2 AND 0x0008 \<noteq> 0 \<or> irqIdx env < 3"
    and sp: "cpuRegs s ! 1 = sp" "stack_room sp (unat (vector_addr (irqIdx_vec env)))"
    and even: "word_at (view (bus_state s)) (unat (vector_addr (irqIdx_vec env))) mod 2 = 0"
  shows "\<exists>b' t. processInterrupt bt period env s
      = Inr ((), s\<lparr>cpuRegs := (cpuRegs s)[1 := sp - 2 - 2, 2 := cpuRegs s ! 2 AND 0x40,
            0 := ucast (word_at (view (bus_state s)) (unat (vector_addr (irqIdx_vec env))))],
          bus_state := b', now := t, cpu_log := cpu_log s @ [Ira True, Ira False]\<rparr>)
    \<and> inv b'
    \<and> word_at (view b') (unat sp - 2) = ucast (cpuRegs s ! 0)
    \<and> word_at (view b') (unat sp - 4) = ucast (cpuRegs s ! 2)
    \<and> (\<forall>x. x < unat sp - 4 \<or> unat sp \<le> x \<longrightarrow> view b' x = view (bus_state s) x)"
proof -
  let ?va = "unat (vector_addr (irqIdx_vec env))" and ?m = "view (bus_state s)"
  let ?by = "\<lambda>v :: u16. [host_byte (ucast v) 0, host_byte (ucast v) (Suc 0)]"
  have room: "4 \<le> unat sp" "serves (unat sp - 2) 2" "serves (unat sp - 4) 2" "serves ?va 2"
      "?va + 2 \<le> unat sp - 4 \<or> unat sp \<le> ?va"
    using sp(2) by (simp_all add: stack_room_def)
  have "2 \<le> sp" using room(1) by (simp add: word_le_nat_alt)
  then have a1: "unat (sp - 2) = unat sp - 2" by (simp add: unat_sub)
  then have "2 \<le> sp - 2" using room(1) by (simp add: word_le_nat_alt)
  then have a2: "unat (sp - 2 - 2) = unat sp - 4" using unat_sub [of 2 "sp - 2"] a1 by simp
  obtain b1 t1 where p1: "push16 bt (ucast (cpuRegs s ! 0)) s
        = Inr ((), s\<lparr>cpuRegs := (cpuRegs s)[1 := sp - 2], bus_state := b1, now := t1\<rparr>)" "inv b1"
      "view b1 = put_bytes ?m (unat sp - 2) (?by (ucast (cpuRegs s ! 0)))"
    using push16_ok [OF inv len, of "ucast (cpuRegs s ! 0)"] room(2) by (auto simp: sp(1) [simplified] a1)
  define s1 where "s1 = s\<lparr>cpuRegs := (cpuRegs s)[1 := sp - 2], bus_state := b1, now := t1\<rparr>"
  have s1: "bus_state s1 = b1" "length (cpuRegs s1) = 16" "cpuRegs s1 ! 1 = sp - 2"
      "cpuRegs s1 ! 2 = cpuRegs s ! 2"
    using len by (simp_all add: s1_def)
  obtain b2 t2 where p2: "push16 bt (ucast (cpuRegs s ! 2)) s1
        = Inr ((), s1\<lparr>cpuRegs := (cpuRegs s1)[1 := sp - 2 - 2], bus_state := b2, now := t2\<rparr>)" "inv b2"
      "view b2 = put_bytes (view b1) (unat sp - 4) (?by (ucast (cpuRegs s ! 2)))"
    using push16_ok [of s1 "ucast (cpuRegs s ! 2)"] p1(2) room(3) s1 a2 by auto
  define s2 where "s2 = s1\<lparr>cpuRegs := (cpuRegs s1)[1 := sp - 2 - 2], bus_state := b2,
      now := t2 + 2 * period, cpu_log := cpu_log s @ [Ira True, Ira False]\<rparr>"
  have s2: "bus_state s2 = b2" "length (cpuRegs s2) = 16" "cpuRegs s2 ! 2 = cpuRegs s ! 2"
    using len by (simp_all add: s2_def s1_def)
  have frame: "view b2 x = ?m x" if "x < unat sp - 4 \<or> unat sp \<le> x" for x
    using that room(1) by (auto simp: p2(3) p1(3) put_bytes_def)
  have vec: "word_at (view b2) ?va = word_at ?m ?va"
    using room(5) frame [of ?va] frame [of "Suc ?va"] unfolding word_at_def by auto
  obtain b3 t3 where e: "enter_vector bt (vector_addr (irqIdx_vec env)) s2
      = Inr ((), s2\<lparr>cpuRegs := (cpuRegs s2)[2 := cpuRegs s ! 2 AND 0x40, 0 := ucast (word_at ?m ?va)],
          bus_state := b3, now := t3\<rparr>)" "inv b3" "view b3 = view b2"
    using enter_vector_ok [of s2 "vector_addr (irqIdx_vec env)"] p2(2) room(4) even s2 vec by auto
  have w: "word_at (view b2) (unat sp - 4) = ucast (cpuRegs s ! 2)"
    unfolding p2(3) by (rule word_at_put)
  have "word_at (view b2) (unat sp - 2) = word_at (view b1) (unat sp - 2)"
    using room(1) unfolding word_at_def p2(3) by (auto simp: put_bytes_def)
  also have "\<dots> = ucast (cpuRegs s ! 0)" unfolding p1(3) by (rule word_at_put)
  finally have w': "word_at (view b2) (unat sp - 2) = ucast (cpuRegs s ! 0)" .
  have "processInterrupt bt period env s = enter_vector bt (vector_addr (irqIdx_vec env)) s2"
    using irq p1(1) p2(1) s1
    by (auto simp: processInterrupt_def getSr_def getPc_def acknowledge_def log_effect_def waitCycles_def
        wait_for_def cpu_monad s1_def s2_def)
  also have "\<dots> = Inr ((), s\<lparr>cpuRegs := (cpuRegs s)[1 := sp - 2 - 2, 2 := cpuRegs s ! 2 AND 0x40,
            0 := ucast (word_at ?m ?va)],
          bus_state := b3, now := t3, cpu_log := cpu_log s @ [Ira True, Ira False]\<rparr>)"
    unfolding e(1) by (simp add: s2_def s1_def)
  finally show ?thesis
    using e(2) frame w w' unfolding e(3) [symmetric] by blast
qed

end

section \<open>The core on the memory system of the microcontroller\<close>

interpretation cpu_msp430: cpu_memory
  "Bus_b_transport msp430 (slave_transport pt (Cache_cfg 8 2 2 ''WriteAround'') period ws)"
  "bus_view msp430_routing is_memory (slave_view (Cache_cfg 8 2 2 ''WriteAround''))"
  "bus_inv msp430_routing is_memory (slave_inv (Cache_cfg 8 2 2 ''WriteAround''))"
  "bus_serves (word_size msp430) msp430_routing is_memory"
  for pt period ws
  by (intro cpu_memory.intro msp430_bus.bus.byte_device_axioms)

abbreviation board_bus where
  "board_bus pt period ws \<equiv> Bus_b_transport msp430 (slave_transport pt (Cache_cfg 8 2 2 ''WriteAround'') period ws)"

abbreviation board_view where
  "board_view \<equiv> bus_view msp430_routing is_memory (slave_view (Cache_cfg 8 2 2 ''WriteAround''))"

abbreviation board_inv where
  "board_inv \<equiv> bus_inv msp430_routing is_memory (slave_inv (Cache_cfg 8 2 2 ''WriteAround''))"

definition sram_stack :: "u32 \<Rightarrow> bool" where
  "sram_stack sp \<longleftrightarrow> sp mod 2 = 0 \<and> 0x1c04 \<le> sp \<and> sp \<le> 0x3c00"

lemma mem_ports:
  "unat (fst (msp430_routing ! 16)) = 0x1c00" "port_size msp430_routing 16 = 0x2000" "is_memory 16"
  "unat (fst (msp430_routing ! 18)) = 0xff80" "port_size msp430_routing 18 = 0x80" "is_memory 18"
  "length msp430_routing = 19"
  by (simp_all add: port_size_def msp430_routing_eq is_memory_def port_id_def msp430_slaves_eq memory_size_def)

lemma sram_serves:
  "0x1c00 \<le> a \<Longrightarrow> a + 2 \<le> 0x3c00 \<Longrightarrow> even a \<Longrightarrow> bus_serves (word_size msp430) msp430_routing is_memory a 2"
  unfolding bus_serves_def using mem_ports
  by (intro exI [of _ 16]) (simp add: aligned_access_def msp430_def)

lemma vector_serves:
  "0xff80 \<le> a \<Longrightarrow> a + 2 \<le> 0x10000 \<Longrightarrow> even a \<Longrightarrow> bus_serves (word_size msp430) msp430_routing is_memory a 2"
  unfolding bus_serves_def using mem_ports
  by (intro exI [of _ 18]) (simp add: aligned_access_def msp430_def)

lemma unat_vector_addr: "idx < 64 \<Longrightarrow> unat (vector_addr idx) = 0xfffe - 2 * idx"
proof -
  assume i: "idx < 64"
  have "vector_addr idx = of_nat (0xfffe - 2 * idx)"
    using i by (simp add: vector_addr_def of_nat_diff)
  moreover have "unat (of_nat (0xfffe - 2 * idx) :: u16) = 0xfffe - 2 * idx"
    by (rule unat_of_nat_lt) simp
  ultimately show ?thesis by simp
qed

lemma even_unat: "(x :: u32) mod 2 = 0 \<longleftrightarrow> even (unat x)"
proof -
  have "bit (unat x) 0 = bit x 0" by (simp add: bit_unsigned_iff)
  then show ?thesis by (simp add: bit_0 mod_2_eq_odd)
qed

lemma sram_stack_room:
  assumes "sram_stack sp" and "idx < 64"
  shows "cpu_memory.stack_room (bus_serves (word_size msp430) msp430_routing is_memory) sp
    (unat (vector_addr idx))"
proof -
  have sp: "even (unat sp)" "0x1c04 \<le> unat sp" "unat sp \<le> 0x3c00"
    using assms(1) by (simp_all add: sram_stack_def even_unat word_le_nat_alt)
  then have "bus_serves (word_size msp430) msp430_routing is_memory (unat sp - 2) 2"
    "bus_serves (word_size msp430) msp430_routing is_memory (unat sp - 4) 2"
    by (auto intro!: sram_serves)
  moreover have "bus_serves (word_size msp430) msp430_routing is_memory (unat (vector_addr idx)) 2"
    using assms(2) by (intro vector_serves) (auto simp: unat_vector_addr)
  moreover have "unat sp \<le> 0xfffe - 2 * idx" using sp assms(2) by linarith
  ultimately show ?thesis
    using sp assms(2) by (simp add: cpu_msp430.stack_room_def unat_vector_addr)
qed

text \<open>C9: interrupt entry and RETI on the memory system of the MSP430. With the stack pointer in
  the SRAM, an enabled (or non-maskable) interrupt pushes PC and SR, acknowledges the
  source, clears SR but for SCG0 and enters the vector. Whatever the handler then does,
  if it leaves the stack pointer and the four stacked bytes as it found them, RETI
  restores PC, SR (their 16-bit values) and SP.\<close>

theorem interrupt_and_return:
  assumes "board_inv (bus_state s)" and "length (cpuRegs s) = 16"
    and "irqIdx env \<noteq> 0" and "cpuRegs s ! 2 AND 0x0008 \<noteq> 0 \<or> irqIdx env < 3"
    and "irqIdx_vec env < 64" and "sram_stack (cpuRegs s ! 1)" and "cpuRegs s ! 0 mod 2 = 0"
    and "word_at (board_view (bus_state s)) (0xfffe - 2 * irqIdx_vec env) mod 2 = 0"
  shows "\<exists>s1. processInterrupt (board_bus pt period ws) period env s = Inr ((), s1)
    \<and> cpuRegs s1 ! 0 = ucast (word_at (board_view (bus_state s)) (0xfffe - 2 * irqIdx_vec env))
    \<and> cpuRegs s1 ! 1 = cpuRegs s ! 1 - 4
    \<and> cpuRegs s1 ! 2 = cpuRegs s ! 2 AND 0x40
    \<and> cpu_log s1 = cpu_log s @ [Ira True, Ira False]
    \<and> board_inv (bus_state s1) \<and> length (cpuRegs s1) = 16
    \<and> (\<forall>s2. board_inv (bus_state s2) \<and> length (cpuRegs s2) = 16 \<and> cpuRegs s2 ! 1 = cpuRegs s1 ! 1
        \<and> (\<forall>x \<in> {unat (cpuRegs s1 ! 1)..<unat (cpuRegs s1 ! 1) + 4}.
              board_view (bus_state s2) x = board_view (bus_state s1) x)
        \<longrightarrow> (\<exists>s3. execute_reti (board_bus pt period ws) period s2 = Inr ((), s3)
              \<and> cpuRegs s3 ! 0 = ucast (ucast (cpuRegs s ! 0) :: u16)
              \<and> cpuRegs s3 ! 1 = cpuRegs s ! 1
              \<and> cpuRegs s3 ! 2 = ucast (ucast (cpuRegs s ! 2) :: u16)
              \<and> (\<forall>i. 3 \<le> i \<longrightarrow> cpuRegs s3 ! i = cpuRegs s2 ! i)))"
proof -
  define sp where "sp = cpuRegs s ! 1"
  have st: "sram_stack sp" using assms(6) by (simp add: sp_def)
  have u: "even (unat sp)" "0x1c04 \<le> unat sp" "unat sp \<le> 0x3c00"
    using st by (simp_all add: sram_stack_def even_unat word_le_nat_alt)
  have va: "unat (vector_addr (irqIdx_vec env)) = 0xfffe - 2 * irqIdx_vec env"
    using assms(5) by (rule unat_vector_addr)
  obtain b' t where p: "processInterrupt (board_bus pt period ws) period env s
      = Inr ((), s\<lparr>cpuRegs := (cpuRegs s)[1 := sp - 2 - 2, 2 := cpuRegs s ! 2 AND 0x40,
            0 := ucast (word_at (board_view (bus_state s)) (unat (vector_addr (irqIdx_vec env))))],
          bus_state := b', now := t, cpu_log := cpu_log s @ [Ira True, Ira False]\<rparr>)"
    and b': "board_inv b'" "word_at (board_view b') (unat sp - 2) = ucast (cpuRegs s ! 0)"
      "word_at (board_view b') (unat sp - 4) = ucast (cpuRegs s ! 2)"
    using cpu_msp430.interrupt_ok [OF assms(1-4) sp_def [symmetric] sram_stack_room [OF st assms(5)],
        of pt period ws period] assms(8) by (auto simp: va)
  define s1 where "s1 = s\<lparr>cpuRegs := (cpuRegs s)[1 := sp - 2 - 2, 2 := cpuRegs s ! 2 AND 0x40,
            0 := ucast (word_at (board_view (bus_state s)) (unat (vector_addr (irqIdx_vec env))))],
          bus_state := b', now := t, cpu_log := cpu_log s @ [Ira True, Ira False]\<rparr>"
  have regs: "cpuRegs s1 ! 0 = ucast (word_at (board_view (bus_state s)) (0xfffe - 2 * irqIdx_vec env))"
      "cpuRegs s1 ! 1 = sp - 4" "cpuRegs s1 ! 2 = cpuRegs s ! 2 AND 0x40"
      "cpu_log s1 = cpu_log s @ [Ira True, Ira False]" "bus_state s1 = b'"
    using assms(2) by (simp_all add: s1_def va)
  have len: "length (cpuRegs s1) = 16" using assms(2) by (simp add: s1_def)
  have "4 \<le> sp" using u by (simp add: word_le_nat_alt)
  then have sp4: "unat (sp - 4) = unat sp - 4" by (simp add: unat_sub)
  have sp2: "unat (sp - 4 + 2) = unat sp - 2"
    using u unat_sub [of 2 sp] by (simp add: word_le_nat_alt)
  have "\<exists>s3. execute_reti (board_bus pt period ws) period s2 = Inr ((), s3)
              \<and> cpuRegs s3 ! 0 = ucast (ucast (cpuRegs s ! 0) :: u16)
              \<and> cpuRegs s3 ! 1 = sp
              \<and> cpuRegs s3 ! 2 = ucast (ucast (cpuRegs s ! 2) :: u16)
              \<and> (\<forall>i. 3 \<le> i \<longrightarrow> cpuRegs s3 ! i = cpuRegs s2 ! i)"
    if s2: "board_inv (bus_state s2)" "length (cpuRegs s2) = 16" "cpuRegs s2 ! 1 = sp - 4"
      "\<forall>x \<in> {unat (sp - 4)..<unat (sp - 4) + 4}. board_view (bus_state s2) x = board_view b' x" for s2
  proof -
    have same: "board_view (bus_state s2) x = board_view b' x" if "unat sp - 4 \<le> x" "x < unat sp" for x
      using s2(4) that u sp4 by simp
    have w: "word_at (board_view (bus_state s2)) (unat sp - 2) = ucast (cpuRegs s ! 0)"
        "word_at (board_view (bus_state s2)) (unat sp - 4) = ucast (cpuRegs s ! 2)"
      using b'(2,3) u same [of "unat sp - 2"] same [of "Suc (unat sp - 2)"]
        same [of "unat sp - 4"] same [of "Suc (unat sp - 4)"]
      unfolding word_at_def by simp_all
    have ev: "(ucast (cpuRegs s ! 0) :: u16) mod 2 = 0"
      using assms(7) by (simp add: mod_2_eq_odd flip: bit_0) (simp add: bit_simps)
    have srv: "bus_serves (word_size msp430) msp430_routing is_memory (unat (sp - 4)) 2"
        "bus_serves (word_size msp430) msp430_routing is_memory (unat (sp - 4 + 2)) 2"
      unfolding sp4 sp2 using u by (auto intro!: sram_serves)
    have ev': "word_at (board_view (bus_state s2)) (unat (sp - 4 + 2)) mod 2 = 0"
      unfolding sp2 w by (rule ev)
    obtain b3 t3 where r: "execute_reti (board_bus pt period ws) period s2
      = Inr ((), s2\<lparr>cpuRegs := (cpuRegs s2)[2 := ucast (ucast (cpuRegs s ! 2) :: u16),
            1 := sp - 4 + 2 + 2, 0 := ucast (ucast (cpuRegs s ! 0) :: u16)], bus_state := b3, now := t3\<rparr>)"
      using cpu_msp430.reti_ok [OF s2(1-3) srv ev', of pt period ws period]
      unfolding sp2 sp4 w by blast
    show ?thesis
      by (rule exI, rule conjI, rule r) (use s2(2) in \<open>simp\<close>)
  qed
  then show ?thesis
    using p regs b'(1) len unfolding s1_def [symmetric] sp_def [symmetric] by (intro exI [of _ s1]) simp
qed

theorem interrupt_and_return_witness:
  "\<exists>c s1 s3. Cache_new (Cache_cfg 8 2 2 ''WriteAround'') ''LRU'' = Inr c
    \<and> processInterrupt (board_bus (\<lambda>_ _ _ _. Inl Report_fatal) 125 0) 125
        \<lparr>pwrOn = True, irq = True, irqIdx = 10, irqIdx_vec = 10, pwrOn_end = True\<rparr>
        \<lparr>cpuRegs = [0x4400, 0x2400, 0x58] @ replicate 13 7, m_run = True, m_sleeping = False,
          m_doStep = False, m_breakpoints = {}, bus_state = msp430_memory_init (\<lambda>_. ()) c,
          now = 0, cpu_log = []\<rparr> = Inr ((), s1)
    \<and> cpuRegs s1 ! 0 = 0 \<and> cpuRegs s1 ! 1 = 0x23fc \<and> cpuRegs s1 ! 2 = 0x40
    \<and> execute_reti (board_bus (\<lambda>_ _ _ _. Inl Report_fatal) 125 0) 125
        (s1\<lparr>cpuRegs := [0x1234, 0x23fc, 0] @ replicate 13 9\<rparr>) = Inr ((), s3)
    \<and> cpuRegs s3 ! 0 = 0x4400 \<and> cpuRegs s3 ! 1 = 0x2400 \<and> cpuRegs s3 ! 2 = 0x58"
proof -
  obtain c where c: "Cache_new (Cache_cfg 8 2 2 ''WriteAround'') ''LRU'' = Inr c"
    by (simp add: Cache_new_def new_policy_def)
  have inv: "board_inv (msp430_memory_init (\<lambda>_. ()) c)"
    by (rule msp430_init_inv [OF c]) simp_all
  have view: "board_view (msp430_memory_init (\<lambda>_. ()) c) = (\<lambda>_. 0)"
    by (rule msp430_init_view [OF c fram_cache_cfg_ok])
  define s :: "_ cpu" where "s = \<lparr>cpuRegs = [0x4400, 0x2400, 0x58] @ replicate 13 7, m_run = True,
    m_sleeping = False, m_doStep = False, m_breakpoints = {}, bus_state = msp430_memory_init (\<lambda>_. ()) c,
    now = 0, cpu_log = []\<rparr>"
  have s: "board_inv (bus_state s)" "length (cpuRegs s) = 16" "sram_stack (cpuRegs s ! 1)"
    "cpuRegs s ! 0 = 0x4400" "cpuRegs s ! 1 = 0x2400" "cpuRegs s ! 2 = 0x58"
    "board_view (bus_state s) = (\<lambda>_. 0)"
    by (simp_all add: s_def inv view sram_stack_def)
  define env where "env = \<lparr>pwrOn = True, irq = True, irqIdx = 10, irqIdx_vec = 10, pwrOn_end = True\<rparr>"
  have z: "word_at (board_view (bus_state s)) a = 0" for a by (simp add: s(7) word_at_def)
  have hyps: "irqIdx env \<noteq> 0" "cpuRegs s ! 2 AND 0x0008 \<noteq> 0 \<or> irqIdx env < 3" "irqIdx_vec env < 64"
    "cpuRegs s ! 0 mod 2 = 0" "word_at (board_view (bus_state s)) (0xfffe - 2 * irqIdx_vec env) mod 2 = 0"
    by (simp_all add: env_def s(4,6) z)
  note entry = interrupt_and_return [OF s(1,2) hyps(1-3) s(3) hyps(4,5), unfolded z s(4-6),
      of "\<lambda>_ _ _ _. Inl Report_fatal" 125 0]
  obtain s1 where ok: "processInterrupt (board_bus (\<lambda>_ _ _ _. Inl Report_fatal) 125 0) 125 env s = Inr ((), s1)"
     and regs: "cpuRegs s1 ! 0 = ucast (0 :: u16)" "cpuRegs s1 ! 1 = 0x2400 - 4" "cpuRegs s1 ! 2 = 0x58 AND 0x40"
     and inv1: "board_inv (bus_state s1)" "length (cpuRegs s1) = 16"
    and returns: "\<forall>s2. board_inv (bus_state s2) \<and> length (cpuRegs s2) = 16 \<and> cpuRegs s2 ! 1 = cpuRegs s1 ! 1
        \<and> (\<forall>x \<in> {unat (cpuRegs s1 ! 1)..<unat (cpuRegs s1 ! 1) + 4}.
              board_view (bus_state s2) x = board_view (bus_state s1) x)
        \<longrightarrow> (\<exists>s3. execute_reti (board_bus ((\<lambda>_ _ _ _. Inl Report_fatal) :: slave_id \<Rightarrow> unit transport) 125 0) 125 s2 = Inr ((), s3)
              \<and> cpuRegs s3 ! 0 = ucast (ucast (0x4400 :: u32) :: u16)
              \<and> cpuRegs s3 ! 1 = 0x2400
              \<and> cpuRegs s3 ! 2 = ucast (ucast (0x58 :: u32) :: u16)
              \<and> (\<forall>i. 3 \<le> i \<longrightarrow> cpuRegs s3 ! i = cpuRegs s2 ! i))"
    using entry by (elim exE conjE) (rule that)
  have s1: "cpuRegs s1 ! 0 = 0" "cpuRegs s1 ! 1 = 0x23fc" "cpuRegs s1 ! 2 = 0x40"
    unfolding regs by simp_all
  define s2 where "s2 = s1\<lparr>cpuRegs := [0x1234, 0x23fc, 0] @ replicate 13 9\<rparr>"
  have "bus_state s2 = bus_state s1" "length (cpuRegs s2) = 16" "cpuRegs s2 ! 1 = cpuRegs s1 ! 1"
    by (simp_all only: s2_def s1, simp_all)
  then obtain s3 where s3: "execute_reti (board_bus (\<lambda>_ _ _ _. Inl Report_fatal) 125 0) 125 s2 = Inr ((), s3)"
      "cpuRegs s3 ! 0 = 0x4400" "cpuRegs s3 ! 1 = 0x2400" "cpuRegs s3 ! 2 = 0x58"
    using returns [rule_format, of s2] inv1(1) by auto
  show ?thesis
    by (rule exI [of _ c], rule exI [of _ s1], rule exI [of _ s3])
      (intro conjI c ok [unfolded s_def env_def] s1 s3(1) [unfolded s2_def] s3(2-4))
qed

end
