(* ===== verification/Peripheral.thy ===== *)
theory Peripheral
  imports Bus_Target
begin

unbundle bit_operations_syntax

text \<open>
  Shared by the peripherals: symbolic evaluation of register file operations on files
  whose registers are known. \<open>rw rf a\<close> says that there is a read-write register at
  \<open>a\<close> (of write mask \<open>mask_of rf a\<close>), \<open>ro rf a\<close> that there is a read-only one; \<open>reg_value\<close> is the value at
  an address. Under these facts reads and writes are total, and what a write changes is
  a function update of \<open>reg_value\<close>.
\<close>

definition rw :: "register_file \<Rightarrow> nat \<Rightarrow> bool" where
  "rw rf a \<longleftrightarrow> (\<exists>r. reg_at rf a = Some r \<and> access r = READ_WRITE)"

definition mask_of :: "register_file \<Rightarrow> nat \<Rightarrow> u32" where
  "mask_of rf a = (case reg_at rf a of None \<Rightarrow> 0 | Some r \<Rightarrow> writeMask r)"

definition ro :: "register_file \<Rightarrow> nat \<Rightarrow> bool" where
  "ro rf a \<longleftrightarrow> (\<exists>r. reg_at rf a = Some r \<and> access r = READ)"

definition reg_value :: "register_file \<Rightarrow> nat \<Rightarrow> u32" where
  "reg_value rf a = (case reg_at rf a of None \<Rightarrow> 0 | Some r \<Rightarrow> reg_val r)"

definition put_reg :: "register_file \<Rightarrow> nat \<Rightarrow> u32 \<Rightarrow> bool \<Rightarrow> register_file" where
  "put_reg rf a v f = set_first a (write_reg v f) rf"

definition masked :: "u32 \<Rightarrow> u32 \<Rightarrow> u32 \<Rightarrow> u32" where
  "masked m old v = (old AND NOT m) OR (v AND m)"

lemma masked_full [simp]: "masked (- 1) old v = v"
  by (simp add: masked_def)

lemma or_and_disjoint: "k AND m = 0 \<Longrightarrow> (v OR k) AND m = v AND (m :: u32)"
  by (simp add: bit.conj_disj_distrib2)

lemma masked_idem [simp]: "masked m old (masked m old v) = masked m old v"
  unfolding masked_def by (rule bit_eqI) (auto simp: bit_simps)

lemma rf_read_rw [simp]: "rw rf a \<Longrightarrow> rf_read rf a = Inr (reg_value rf a)"
  by (auto simp: rw_def rf_read_def rf_find_def reg_value_def readable_def)

lemma rf_read_ro [simp]: "ro rf a \<Longrightarrow> rf_read rf a = Inr (reg_value rf a)"
  by (auto simp: ro_def rf_read_def rf_find_def reg_value_def readable_def)

lemma rf_find_rw: "rw rf a \<Longrightarrow> \<exists>r. rf_find rf a = Inr r \<and> writable r \<and> reg_val r = reg_value rf a"
  by (auto simp: rw_def rf_find_def reg_value_def writable_def)

lemma rf_write_rw [simp]: "rw rf a \<Longrightarrow> rf_write rf a v f = Inr (put_reg rf a v f)"
  by (auto simp: rw_def rf_write_def put_reg_def writable_def)

lemma rf_write_ro [simp]: "ro rf a \<Longrightarrow> rf_write rf a v True = Inr (put_reg rf a v True)"
  by (auto simp: ro_def rf_write_def put_reg_def)

lemma reg_at_put_reg:
  "reg_at (put_reg rf a v f) b =
    (if b = a then map_option (write_reg v f) (reg_at rf a) else reg_at rf b)"
  by (simp add: put_reg_def reg_at_set_first)

lemma rw_put_reg [simp]: "rw (put_reg rf a v f) b = rw rf b"
  by (auto simp: rw_def reg_at_put_reg)

lemma mask_of_put_reg [simp]: "mask_of (put_reg rf a v f) b = mask_of rf b"
  by (cases "reg_at rf a") (auto simp: mask_of_def reg_at_put_reg)

lemma ro_put_reg [simp]: "ro (put_reg rf a v f) b = ro rf b"
  by (auto simp: ro_def reg_at_put_reg)

lemma reg_value_put_other [simp]: "b \<noteq> a \<Longrightarrow> reg_value (put_reg rf a v f) b = reg_value rf b"
  by (simp add: reg_value_def reg_at_put_reg)

lemma reg_value_put_forced [simp]: "rw rf a \<Longrightarrow> reg_value (put_reg rf a v True) a = v"
  by (auto simp: rw_def reg_value_def reg_at_put_reg write_reg_val)

lemma reg_value_put_ro [simp]: "ro rf a \<Longrightarrow> reg_value (put_reg rf a v True) a = v"
  by (auto simp: ro_def reg_value_def reg_at_put_reg write_reg_val)

lemma reg_value_put_same [simp]:
  "rw rf a \<Longrightarrow> reg_value (put_reg rf a v False) a = masked (mask_of rf a) (reg_value rf a) v"
  by (auto simp: rw_def mask_of_def reg_value_def reg_at_put_reg write_reg_val masked_def)

lemma reg_value_reset: "reg_value (rf_reset rf) a = (case reg_at rf a of None \<Rightarrow> 0 | Some r \<Rightarrow> resetValue r)"
  by (simp add: reg_value_def reg_at_rf_reset register_reset_def split: option.split)

lemma rw_reset [simp]: "rw (rf_reset rf) a = rw rf a"
  by (auto simp: rw_def reg_at_rf_reset register_reset_def)

lemma mask_of_reset [simp]: "mask_of (rf_reset rf) a = mask_of rf a"
  by (cases "reg_at rf a") (simp_all add: mask_of_def reg_at_rf_reset register_reset_def)

lemma ro_reset [simp]: "ro (rf_reset rf) a = ro rf a"
  by (auto simp: ro_def reg_at_rf_reset register_reset_def)

lemma rf_setBitMask_rw [simp]:
  "rw rf a \<Longrightarrow> rf_setBitMask rf a k f = Inr (put_reg rf a (reg_value rf a OR k) f)"
  by (simp add: rf_setBitMask_def)

lemma rf_clearBitMask_rw [simp]:
  "rw rf a \<Longrightarrow> rf_clearBitMask rf a k f = Inr (put_reg rf a (reg_value rf a AND NOT k) f)"
  by (simp add: rf_clearBitMask_def)

lemma rf_setBit_rw [simp]:
  assumes "rw rf a" and "b < word_size t * 8"
  shows "rf_setBit t rf a b f = Inr (put_reg rf a (reg_value rf a OR push_bit b 1) f)"
  using rf_find_rw [OF assms(1)] assms by (auto simp: rf_setBit_def)

lemma rf_clearBit_rw [simp]:
  assumes "rw rf a" and "b < word_size t * 8"
  shows "rf_clearBit t rf a b f = Inr (put_reg rf a (reg_value rf a AND NOT (push_bit b 1)) f)"
  using rf_find_rw [OF assms(1)] assms by (auto simp: rf_clearBit_def)

lemma rf_testBit_rw [simp]:
  "rw rf a \<Longrightarrow> b < word_size t * 8 \<Longrightarrow> rf_testBit t rf a b = Inr (reg_value rf a AND push_bit b 1 > 0)"
  by (simp add: rf_testBit_def)

lemma rf_testBitMask_rw [simp]:
  "rw rf a \<Longrightarrow> rf_testBitMask rf a k = Inr (reg_value rf a AND k > 0)"
  by (simp add: rf_testBitMask_def)

lemma rf_setBit_ro [simp]:
  "ro rf a \<Longrightarrow> b < word_size t * 8 \<Longrightarrow> rf_setBit t rf a b True = Inr (put_reg rf a (reg_value rf a OR push_bit b 1) True)"
  by (auto simp: rf_setBit_def rf_find_def ro_def reg_value_def put_reg_def readable_def rf_read_def rf_write_def)

lemma rf_clearBit_ro [simp]:
  "ro rf a \<Longrightarrow> b < word_size t * 8
    \<Longrightarrow> rf_clearBit t rf a b True = Inr (put_reg rf a (reg_value rf a AND NOT (push_bit b 1)) True)"
  by (auto simp: rf_clearBit_def rf_find_def ro_def reg_value_def put_reg_def readable_def rf_read_def rf_write_def)

text \<open>A register file filled by a loop over distinct offsets.\<close>

lemma fold_addRegister:
  "fold (\<lambda>i rf. addRegister rf i (f i) am wm) xs rf = rf @ map (\<lambda>i. mk_register i (f i) am wm) xs"
  by (induction xs arbitrary: rf) (simp_all add: addRegister_def)

lemma reg_at_map:
  "reg_at (map (\<lambda>i. mk_register i (f i) am wm) xs) a = (if a \<in> set xs then Some (mk_register a (f a) am wm) else None)"
  by (induction xs) (auto simp: reg_at_def mk_register_def)

section \<open>Short accesses over the bus\<close>

text \<open>
  An access of one or two bytes, aligned to its length as the bus demands, on a 16-bit
  target.
\<close>

definition short_access :: "nat \<Rightarrow> nat \<Rightarrow> bool" where
  "short_access a n \<longleftrightarrow> (n = 1 \<or> n = 2) \<and> a mod n = 0"

lemma rf_write_buf_1:
  "word16 t \<Longrightarrow> rf_write_buf t rf a [b] f = rf_writeByte t rf a b False"
  by (cases "rf_writeByte t rf a b False")
    (simp_all add: rf_write_buf.simps(2) Let_def word16_def)

lemma rf_write_buf_2:
  assumes "word16 t" and "a mod 2 = 0"
  shows "rf_write_buf t rf a [b, c] f = rf_write rf a (host_load32 b c 0 0) f"
proof -
  have "ttohs t (ucast (push_bit 8 (ucast b) OR ucast c :: u64)) = host_load32 b c 0 0"
    using assms(1) by (simp add: ttohs_pack_little word16_def)
  then show ?thesis
    using assms by (cases "rf_write rf a (host_load32 b c 0 0) f")
      (simp_all add: rf_write_buf.simps(2) Let_def word16_def pack2)
qed

lemma rf_writeByte_rw:
  assumes "word16 t" and "rw rf (word_addr a)"
  shows "rf_writeByte t rf a b f
    = Inr (put_reg rf (word_addr a) (set_host_byte (reg_value rf (word_addr a)) (a mod 2) b) f)"
  using assms by (simp add: rf_writeByte_def word16_def word_addr_def Let_def)

text \<open>A short write changes at most the register its address lies in.\<close>

lemma short_write_one_register:
  assumes "word16 t" and "short_access a (length buf)" and "rf_write_buf t rf a buf False = Inr rf'"
  shows "\<exists>v. rf_write rf (word_addr a) v False = Inr rf'"
proof -
  consider b where "buf = [b]" | b c where "buf = [b, c]" "a mod 2 = 0"
    using assms(2) by (auto simp: short_access_def length_Suc_conv numeral_2_eq_2)
  then show ?thesis
  proof cases
    case (1 b)
    then have "rf_writeByte t rf a b False = Inr rf'"
      using assms(1,3) by (simp add: rf_write_buf_1)
    then show ?thesis
      using assms(1) by (auto simp: rf_writeByte_def Let_def word16_def word_addr_def bind_r_eq_Inr)
  next
    case (2 b c)
    then show ?thesis
      using assms(1,3) rf_write_buf_2 [OF assms(1), of a rf b c False] by auto
  qed
qed

lemma rf_write_same_rw: "rf_write rf a v f = Inr rf' \<Longrightarrow> rw rf' b = rw rf b"
  using rf_write_view [of rf a v f rf'] by (auto simp: rw_def)

lemma rf_write_same_mask: "rf_write rf a v f = Inr rf' \<Longrightarrow> mask_of rf' b = mask_of rf b"
  using rf_write_view [of rf a v f rf'] by (cases "reg_at rf a") (auto simp: mask_of_def)

lemma rf_write_same_ro: "rf_write rf a v f = Inr rf' \<Longrightarrow> ro rf' b = ro rf b"
  using rf_write_view [of rf a v f rf'] by (auto simp: ro_def)

lemma rf_write_same_value: "rf_write rf a v f = Inr rf' \<Longrightarrow> b \<noteq> a \<Longrightarrow> reg_value rf' b = reg_value rf b"
  using rf_write_view [of rf a v f rf'] by (simp add: reg_value_def)

lemma rf_write_ro_fails: "ro rf a \<Longrightarrow> rf_write rf a v False = Inl Assertion_failed"
  by (auto simp: ro_def rf_write_def writable_def)

lemma BusTarget_write:
  "command tp = TLM_WRITE_COMMAND \<Longrightarrow> BusTarget_b_transport t period rf tp d = Inr (rf', tp', d', fx) \<Longrightarrow>
   rf_write_buf t rf (unat (address tp)) (data tp) False = Inr rf'"
  by (auto simp: BusTarget_b_transport_def Let_def bind_r_eq_Inr)

lemma BusTarget_read:
  "command tp = TLM_READ_COMMAND \<Longrightarrow> BusTarget_b_transport t period rf tp d = Inr (rf', tp', d', fx) \<Longrightarrow> rf' = rf"
  by (auto simp: BusTarget_b_transport_def Let_def bind_r_eq_Inr)

lemma BusTarget_address:
  "BusTarget_b_transport t period rf tp d = Inr (rf', tp', d', fx) \<Longrightarrow>
   address tp' = address tp \<and> command tp' = command tp \<and> command tp \<noteq> TLM_IGNORE_COMMAND"
  by (cases "command tp") (auto simp: BusTarget_b_transport_def Let_def bind_r_eq_Inr)

end
