(* ===== verification/Sim_Monad.thy ===== *)
theory Sim_Monad
  imports Fused_Prelude
begin

text \<open>
  Sequential code over a mutable state: an operation takes the state to a value and a
  new state, or stops the simulation with an error. \<open>triple P m Q E\<close> is a Hoare triple with
  the errors allowed; \<open>keeps I E m\<close> says that an operation preserves \<open>I\<close> and stops only
  with errors in \<open>E\<close>. Its rules are collected in \<open>keeps_rules\<close>, so that a whole
  instruction set is checked by one structural pass over each definition.
\<close>

section \<open>Operations\<close>

type_synonym ('s, 'a) sim = "'s \<Rightarrow> ('a \<times> 's) result"

definition return_s :: "'a \<Rightarrow> ('s, 'a) sim" where
  "return_s x s = Inr (x, s)"

definition bind_s :: "('s, 'a) sim \<Rightarrow> ('a \<Rightarrow> ('s, 'b) sim) \<Rightarrow> ('s, 'b) sim" where
  "bind_s m f s = bind_r (m s) (\<lambda>(x, s'). f x s')"

definition then_s :: "('s, 'a) sim \<Rightarrow> ('s, 'b) sim \<Rightarrow> ('s, 'b) sim" where
  "then_s m n = bind_s m (\<lambda>_. n)"

definition fail_s :: "sim_error \<Rightarrow> ('s, 'a) sim" where
  "fail_s e s = Inl e"

definition require_s :: "bool \<Rightarrow> sim_error \<Rightarrow> ('s, unit) sim" where
  "require_s b e s = check_r b e (Inr ((), s))"

definition gets_s :: "('s \<Rightarrow> 'a) \<Rightarrow> ('s, 'a) sim" where
  "gets_s f s = Inr (f s, s)"

definition modify_s :: "('s \<Rightarrow> 's) \<Rightarrow> ('s, unit) sim" where
  "modify_s f s = Inr ((), f s)"

definition when_s :: "bool \<Rightarrow> ('s, unit) sim \<Rightarrow> ('s, unit) sim" where
  "when_s b m = (if b then m else return_s ())"

fun do_all :: "('s, unit) sim list \<Rightarrow> ('s, unit) sim" where
  "do_all [] = return_s ()"
| "do_all (m # ms) = then_s m (do_all ms)"

definition do_all_then :: "('s, unit) sim list \<Rightarrow> ('s, 'a) sim \<Rightarrow> ('s, 'a) sim" where
  "do_all_then ms k = then_s (do_all ms) k"

lemmas sim_monad = return_s_def bind_s_def then_s_def fail_s_def require_s_def gets_s_def modify_s_def
  when_s_def do_all_then_def

lemma bind_s_assoc: "bind_s (bind_s m f) g = bind_s m (\<lambda>x. bind_s (f x) g)"
  by (rule ext) (auto simp: bind_s_def bind_r_assoc intro: bind_r_cong)

lemma return_bind [simp]: "bind_s (return_s x) f = f x"
  by (rule ext) (simp add: bind_s_def return_s_def)

section \<open>Preserved predicates\<close>

text \<open>\<open>triple P m Q E\<close>: from a state in \<open>P\<close>, \<open>m\<close> stops with an error in \<open>E\<close> or ends in \<open>Q\<close>.\<close>

definition triple :: "('s \<Rightarrow> bool) \<Rightarrow> ('s, 'a) sim \<Rightarrow> ('a \<Rightarrow> 's \<Rightarrow> bool) \<Rightarrow> sim_error set \<Rightarrow> bool" where
  "triple P m Q E \<longleftrightarrow>
     (\<forall>s. P s \<longrightarrow> (case m s of Inl e \<Rightarrow> e \<in> E | Inr (x, s') \<Rightarrow> Q x s'))"

definition keeps :: "('s \<Rightarrow> bool) \<Rightarrow> sim_error set \<Rightarrow> ('s, 'a) sim \<Rightarrow> bool" where
  "keeps I E m \<longleftrightarrow> triple I m (\<lambda>_. I) E"

named_theorems keeps_rules \<open>which operations preserve a predicate\<close>

lemma triple_bind:
  assumes m: "triple P m R E" and f: "\<And>x. triple (R x) (f x) Q E"
  shows "triple P (bind_s m f) Q E"
  unfolding triple_def
proof (intro allI impI)
  fix s assume s: "P s"
  show "case bind_s m f s of Inl e \<Rightarrow> e \<in> E | Inr (x, s') \<Rightarrow> Q x s'"
  proof (cases "m s")
    case (Inl e)
    then show ?thesis using m s by (auto simp: triple_def bind_s_def)
  next
    case (Inr p)
    obtain x s1 where p: "p = (x, s1)" by (rule prod.exhaust)
    have "R x s1" using m s Inr p by (auto simp: triple_def)
    then show ?thesis using f [of x] Inr p by (auto simp: triple_def bind_s_def)
  qed
qed

lemma triple_then: "triple P m (\<lambda>_. R) E \<Longrightarrow> triple R n Q E \<Longrightarrow> triple P (then_s m n) Q E"
  unfolding then_s_def by (rule triple_bind)

lemma triple_do_all_then:
  "triple P (do_all ms) (\<lambda>_. R) E \<Longrightarrow> triple R n Q E \<Longrightarrow> triple P (do_all_then ms n) Q E"
  unfolding do_all_then_def by (rule triple_then)

lemma triple_do_all_Cons:
  "triple P m (\<lambda>_. R) E \<Longrightarrow> triple R (do_all ms) Q E \<Longrightarrow> triple P (do_all (m # ms)) Q E"
  by (simp add: triple_then)

lemma triple_weaken:
  assumes "triple P' m Q' E" and "\<And>s. P s \<Longrightarrow> P' s" and "\<And>x s. Q' x s \<Longrightarrow> Q x s"
  shows "triple P m Q E"
  using assms unfolding triple_def by (fastforce split: sum.splits)

lemma triple_ex: "(\<And>x. triple (P x) m Q E) \<Longrightarrow> triple (\<lambda>s. \<exists>x. P x s) m Q E"
  by (auto simp: triple_def)

lemma triple_if: "(b \<Longrightarrow> triple P m Q E) \<Longrightarrow> (\<not> b \<Longrightarrow> triple P n Q E) \<Longrightarrow> triple P (if b then m else n) Q E"
  by simp

lemma triple_when:
  "(b \<Longrightarrow> triple P m Q E) \<Longrightarrow> (\<And>s. \<not> b \<Longrightarrow> P s \<Longrightarrow> Q () s) \<Longrightarrow> triple P (when_s b m) Q E"
  by (auto simp: triple_def when_s_def return_s_def)

lemma triple_gets: "triple P (gets_s f) (\<lambda>x s. P s \<and> x = f s) E"
  by (simp add: triple_def gets_s_def)

lemma triple_modify: "(\<And>s. P s \<Longrightarrow> Q (f s)) \<Longrightarrow> triple P (modify_s f) (\<lambda>_. Q) E"
  by (simp add: triple_def modify_s_def)

lemma triple_keeps: "keeps I E m \<Longrightarrow> triple I m (\<lambda>_. I) E"
  by (simp add: keeps_def)

lemma keeps_return [keeps_rules]: "keeps I E (return_s x)"
  by (simp add: keeps_def triple_def return_s_def)

lemma keeps_bind [keeps_rules]: "keeps I E m \<Longrightarrow> (\<And>x. keeps I E (f x)) \<Longrightarrow> keeps I E (bind_s m f)"
  unfolding keeps_def by (rule triple_bind)

lemma keeps_then [keeps_rules]: "keeps I E m \<Longrightarrow> keeps I E n \<Longrightarrow> keeps I E (then_s m n)"
  unfolding then_s_def by (rule keeps_bind)

lemma keeps_fail [keeps_rules]: "e \<in> E \<Longrightarrow> keeps I E (fail_s e)"
  by (simp add: keeps_def triple_def fail_s_def)

lemma keeps_require [keeps_rules]: "(\<not> b \<Longrightarrow> e \<in> E) \<Longrightarrow> keeps I E (require_s b e)"
  by (simp add: keeps_def triple_def require_s_def check_r_def)

lemma keeps_gets [keeps_rules]: "keeps I E (gets_s f)"
  by (simp add: keeps_def triple_def gets_s_def)

lemma keeps_modify: "(\<And>s. I s \<Longrightarrow> I (f s)) \<Longrightarrow> keeps I E (modify_s f)"
  by (simp add: keeps_def triple_def modify_s_def)

lemma keeps_if [keeps_rules]:
  "(b \<Longrightarrow> keeps I E m) \<Longrightarrow> (\<not> b \<Longrightarrow> keeps I E n) \<Longrightarrow> keeps I E (if b then m else n)"
  by simp

lemma keeps_when [keeps_rules]: "(b \<Longrightarrow> keeps I E m) \<Longrightarrow> keeps I E (when_s b m)"
  unfolding when_s_def by (intro keeps_rules)

lemma keeps_let [keeps_rules]: "(\<And>x. keeps I E (f x)) \<Longrightarrow> keeps I E (let x = v in f x)"
  by simp

lemma keeps_do_all_Nil [keeps_rules]: "keeps I E (do_all [])"
  by (simp add: keeps_return)

lemma keeps_do_all_Cons [keeps_rules]:
  "keeps I E m \<Longrightarrow> keeps I E (do_all ms) \<Longrightarrow> keeps I E (do_all (m # ms))"
  by (simp add: keeps_then)

lemma keeps_do_all_then [keeps_rules]:
  "keeps I E (do_all ms) \<Longrightarrow> keeps I E k \<Longrightarrow> keeps I E (do_all_then ms k)"
  unfolding do_all_then_def by (rule keeps_then)

end
