(* ===== verification/Cm0_State.thy ===== *)
theory Cm0_State
  imports Sim_Monad Tlm_Device
begin

unbundle bit_operations_syntax

text \<open>
  The state of the Cortex-M0 core: the global structures of the emulator
  (\<open>mcu/cortex-m0/exmemwb.h\<close>, \<open>decode.h\<close>, \<open>sim_support.c\<close>) and the members of the class
  around it (\<open>mcu/cortex-m0/CortexM0Cpu.hpp\<close>), its registers and flags, memory accesses,
  and entry to and return from exceptions.

  Operations belong to the monad of \<open>Sim_Monad\<close>; \<open>bt\<close> is the \<open>b_transport\<close> of the bus and
  \<open>period\<close> the clock period. Waiting adds to \<open>m0_now\<close>; reports to the power model are
  recorded in \<open>m0_log\<close>, the two output ports in \<open>returningException\<close> and
  \<open>activeException\<close>. A failed bus access stops the simulation (\<open>sc_stop\<close>, after which the
  \<open>wait\<close> that follows does not return). Not modelled: waiting for a busy bus (\<open>busStall\<close>),
  log messages and the comparison of the registers after an exception, which only logs.
\<close>

section \<open>State\<close>

record decode_result =
  rD :: u8
  rM :: u8
  rN :: u8
  imm :: u32
  cond :: u32
  reg_list :: u32

record instruction_buffer =
  buf_data :: u32
  buf_address :: u32
  buf_valid :: bool

datatype m0_event = Idle_cycles | N_instructions

datatype m0_power_state = M0_off | M0_on | M0_sleep

datatype m0_effect = M0_event m0_event nat | M0_state m0_power_state

record 's m0_cpu =
  gpr :: "u32 list"
  apsr :: u32
  ipsr :: u32
  espr :: u32
  primask :: u32
  control :: u32
  sp_main :: u32
  sp_process :: u32
  cpu_debug :: u32
  cpu_mode :: u32
  exceptmask :: u32
  decoded :: decode_result
  takenBranch :: bool
  instructionQueue :: "u16 list"
  bubbles :: nat
  pipelineStages :: nat
  sleeping :: bool
  running :: bool
  doStep :: bool
  instructionBuffer :: instruction_buffer
  breakpoints :: "u32 set"
  regsAtExceptEnter :: "u32 list"
  returningException :: int
  activeException :: int
  m0_bus :: 's
  m0_now :: sc_time
  m0_log :: "m0_effect list"

type_synonym ('s, 'a) m0_op = "('s m0_cpu, 'a) sim"

definition m0_wait :: "sc_time \<Rightarrow> ('s, unit) m0_op" where
  "m0_wait d = modify_s (\<lambda>s. s\<lparr>m0_now := m0_now s + d\<rparr>)"

definition m0_report :: "m0_effect \<Rightarrow> ('s, unit) m0_op" where
  "m0_report e = modify_s (\<lambda>s. s\<lparr>m0_log := m0_log s @ [e]\<rparr>)"

section \<open>Registers and flags\<close>

definition cpu_get_gpr :: "nat \<Rightarrow> ('s, u32) m0_op" where
  "cpu_get_gpr x = then_s (require_s (x < 16) Out_of_bounds) (gets_s (\<lambda>s. gpr s ! x))"

definition cpu_set_gpr :: "nat \<Rightarrow> u32 \<Rightarrow> ('s, unit) m0_op" where
  "cpu_set_gpr x y =
     then_s (require_s (x < 16) Out_of_bounds) (modify_s (\<lambda>s. s\<lparr>gpr := (gpr s)[x := y]\<rparr>))"

definition cpu_get_sp :: "('s, u32) m0_op" where "cpu_get_sp = cpu_get_gpr 13"
definition cpu_set_sp :: "u32 \<Rightarrow> ('s, unit) m0_op" where "cpu_set_sp = cpu_set_gpr 13"
definition cpu_get_lr :: "('s, u32) m0_op" where "cpu_get_lr = cpu_get_gpr 14"
definition cpu_set_lr :: "u32 \<Rightarrow> ('s, unit) m0_op" where "cpu_set_lr = cpu_set_gpr 14"
definition cpu_get_pc :: "('s, u32) m0_op" where "cpu_get_pc = cpu_get_gpr 15"
definition cpu_set_pc :: "u32 \<Rightarrow> ('s, unit) m0_op" where "cpu_set_pc = cpu_set_gpr 15"

definition flag_of :: "nat \<Rightarrow> u32 \<Rightarrow> u32" where
  "flag_of i w = drop_bit i (w AND push_bit i 1)"

definition with_flag :: "nat \<Rightarrow> u32 \<Rightarrow> u32 \<Rightarrow> u32" where
  "with_flag i x w = push_bit i (x AND 1) OR (w AND NOT (push_bit i 1))"

definition cpu_get_flag :: "nat \<Rightarrow> ('s, u32) m0_op" where
  "cpu_get_flag i = gets_s (\<lambda>s. flag_of i (apsr s))"

definition cpu_set_flag :: "nat \<Rightarrow> u32 \<Rightarrow> ('s, unit) m0_op" where
  "cpu_set_flag i x = modify_s (\<lambda>s. s\<lparr>apsr := with_flag i x (apsr s)\<rparr>)"

definition cpu_get_flag_n :: "('s, u32) m0_op" where "cpu_get_flag_n = cpu_get_flag 31"
definition cpu_get_flag_z :: "('s, u32) m0_op" where "cpu_get_flag_z = cpu_get_flag 30"
definition cpu_get_flag_c :: "('s, u32) m0_op" where "cpu_get_flag_c = cpu_get_flag 29"
definition cpu_get_flag_v :: "('s, u32) m0_op" where "cpu_get_flag_v = cpu_get_flag 28"
definition cpu_set_flag_n :: "u32 \<Rightarrow> ('s, unit) m0_op" where "cpu_set_flag_n = cpu_set_flag 31"
definition cpu_set_flag_z :: "u32 \<Rightarrow> ('s, unit) m0_op" where "cpu_set_flag_z = cpu_set_flag 30"
definition cpu_set_flag_c :: "u32 \<Rightarrow> ('s, unit) m0_op" where "cpu_set_flag_c = cpu_set_flag 29"
definition cpu_set_flag_v :: "u32 \<Rightarrow> ('s, unit) m0_op" where "cpu_set_flag_v = cpu_set_flag 28"

definition do_zflag :: "u32 \<Rightarrow> ('s, unit) m0_op" where
  "do_zflag x = cpu_set_flag_z (if x = 0 then 1 else 0)"

definition do_nflag :: "u32 \<Rightarrow> ('s, unit) m0_op" where
  "do_nflag x = cpu_set_flag_n (drop_bit 31 x)"

definition vflag :: "u32 \<Rightarrow> u32 \<Rightarrow> u32 \<Rightarrow> bool" where
  "vflag a b r \<longleftrightarrow> drop_bit 31 (a AND b AND NOT r) \<noteq> 0 \<or> drop_bit 31 (NOT a AND NOT b AND r) \<noteq> 0"

definition do_vflag :: "u32 \<Rightarrow> u32 \<Rightarrow> u32 \<Rightarrow> ('s, unit) m0_op" where
  "do_vflag a b r = cpu_set_flag_v (of_bool (vflag a b r))"

definition cflag :: "u32 \<Rightarrow> u32 \<Rightarrow> u32 \<Rightarrow> u32" where
  "cflag a b carry =
     (let result = (a AND 0x7FFFFFFF) + (b AND 0x7FFFFFFF) + carry;
          result' = drop_bit 31 result + drop_bit 31 a + drop_bit 31 b
      in drop_bit 1 result')"

definition do_cflag :: "u32 \<Rightarrow> u32 \<Rightarrow> u32 \<Rightarrow> ('s, unit) m0_op" where
  "do_cflag a b carry = cpu_set_flag_c (cflag a b carry)"

definition cpu_get_apsr :: "('s, u32) m0_op" where "cpu_get_apsr = gets_s apsr"

definition cpu_set_apsr :: "u32 \<Rightarrow> ('s, unit) m0_op" where
  "cpu_set_apsr x = modify_s (\<lambda>s. s\<lparr>apsr := x\<rparr>)"

definition cpu_get_ipsr :: "('s, u32) m0_op" where "cpu_get_ipsr = gets_s ipsr"

definition cpu_set_ipsr :: "u32 \<Rightarrow> ('s, unit) m0_op" where
  "cpu_set_ipsr x = modify_s (\<lambda>s. s\<lparr>ipsr := x AND 0x3F\<rparr>)"

definition cpu_mode_is_handler :: "'s m0_cpu \<Rightarrow> bool" where
  "cpu_mode_is_handler s \<longleftrightarrow> cpu_mode s = 0"

definition cpu_mode_is_thread :: "'s m0_cpu \<Rightarrow> bool" where
  "cpu_mode_is_thread s \<longleftrightarrow> cpu_mode s = 1"

definition cpu_mode_handler :: "('s, unit) m0_op" where
  "cpu_mode_handler = modify_s (\<lambda>s. s\<lparr>cpu_mode := 0\<rparr>)"

definition cpu_mode_thread :: "('s, unit) m0_op" where
  "cpu_mode_thread = modify_s (\<lambda>s. s\<lparr>cpu_mode := 1\<rparr>)"

definition cpu_stack_is_main :: "'s m0_cpu \<Rightarrow> bool" where
  "cpu_stack_is_main s \<longleftrightarrow> control s AND 2 = 0"

definition cpu_stack_use_main :: "('s, unit) m0_op" where
  "cpu_stack_use_main = modify_s (\<lambda>s. s\<lparr>control := control s AND NOT 2\<rparr>)"

definition cpu_stack_use_process :: "('s, unit) m0_op" where
  "cpu_stack_use_process = modify_s (\<lambda>s. s\<lparr>control := control s OR 2\<rparr>)"

definition signExtend32 :: "u32 \<Rightarrow> nat \<Rightarrow> u32" where
  "signExtend32 x n =
     (if drop_bit (n - 1) x AND 1 \<noteq> 0 then push_bit n (NOT 0) OR x else x)"

definition take_branch :: "('s, unit) m0_op" where
  "take_branch = modify_s (\<lambda>s. s\<lparr>takenBranch := True\<rparr>)"

definition alu_write_pc :: "u32 \<Rightarrow> ('s, unit) m0_op" where
  "alu_write_pc x = then_s take_branch (cpu_set_pc (x OR 1))"

section \<open>Memory\<close>

definition m0_writeMem :: "'s transport \<Rightarrow> u32 \<Rightarrow> u8 list \<Rightarrow> ('s, unit) m0_op" where
  "m0_writeMem bt addr buf s =
     bind_r (bt (m0_bus s)
         \<lparr>command = TLM_WRITE_COMMAND, address = ucast addr, data = buf, response_ok = False\<rparr> 0)
       (\<lambda>(b', p', delay, fx).
         check_r (response_ok p') Exit_failure
           (Inr ((), s\<lparr>m0_bus := b', m0_now := m0_now s + delay\<rparr>)))"

definition m0_readMem :: "'s transport \<Rightarrow> u32 \<Rightarrow> nat \<Rightarrow> ('s, u8 list) m0_op" where
  "m0_readMem bt addr bytelen s =
     bind_r (bt (m0_bus s)
         \<lparr>command = TLM_READ_COMMAND, address = ucast addr, data = replicate bytelen 0,
          response_ok = False\<rparr> 0)
       (\<lambda>(b', p', delay, fx).
         check_r (response_ok p') Exit_failure
           (Inr (data p', s\<lparr>m0_bus := b', m0_now := m0_now s + delay\<rparr>)))"

definition lift_r :: "'a result \<Rightarrow> ('s, 'a) m0_op" where
  "lift_r r s = bind_r r (\<lambda>x. Inr (x, s))"

definition write32 :: "'s transport \<Rightarrow> u32 \<Rightarrow> u32 \<Rightarrow> ('s, unit) m0_op" where
  "write32 bt addr val =
     bind_s (lift_r (unpackBytes [0, 0, 0, 0] (ucast (htotl cortex_m0 0 val)) 4)) (\<lambda>tmp.
       m0_writeMem bt addr tmp)"

definition read32 :: "'s transport \<Rightarrow> u32 \<Rightarrow> ('s, u32) m0_op" where
  "read32 bt addr =
     bind_s (m0_readMem bt addr 4) (\<lambda>tmp.
       bind_s (lift_r (packBytes tmp 4)) (\<lambda>w. return_s (ttohl cortex_m0 (ucast w))))"

definition pack32 :: "u8 list \<Rightarrow> u32" where
  "pack32 d = push_bit 24 (ucast (d ! 3)) OR push_bit 16 (ucast (d ! 2))
     OR push_bit 8 (ucast (d ! 1)) OR ucast (d ! 0)"

definition unpack32 :: "u32 \<Rightarrow> u8 list" where
  "unpack32 v = [ucast v, ucast (drop_bit 8 v), ucast (drop_bit 16 v), ucast (drop_bit 24 v)]"

definition pack16 :: "u8 list \<Rightarrow> u16" where
  "pack16 d = push_bit 8 (ucast (d ! 1)) OR ucast (d ! 0)"

definition unpack16 :: "u16 \<Rightarrow> u8 list" where
  "unpack16 v = [ucast v, ucast (drop_bit 8 v)]"

definition simLoadWord :: "'s transport \<Rightarrow> u32 \<Rightarrow> ('s, u32) m0_op" where
  "simLoadWord bt addr =
     bind_s (m0_readMem bt addr 4) (\<lambda>tmp.
       then_s (require_s (length tmp = 4) Out_of_bounds) (return_s (pack32 tmp)))"

definition simLoadHalfWord :: "'s transport \<Rightarrow> u32 \<Rightarrow> ('s, u32) m0_op" where
  "simLoadHalfWord bt addr =
     bind_s (m0_readMem bt addr 2) (\<lambda>tmp.
       then_s (require_s (length tmp = 2) Out_of_bounds) (return_s (ucast (pack16 tmp))))"

definition simLoadByte :: "'s transport \<Rightarrow> u32 \<Rightarrow> ('s, u32) m0_op" where
  "simLoadByte bt addr =
     bind_s (m0_readMem bt addr 1) (\<lambda>tmp.
       then_s (require_s (length tmp = 1) Out_of_bounds) (return_s (ucast (tmp ! 0))))"

definition simStoreWord :: "'s transport \<Rightarrow> u32 \<Rightarrow> u32 \<Rightarrow> ('s, unit) m0_op" where
  "simStoreWord bt addr v =
     then_s (require_s (addr AND 3 = 0) Exit_failure) (m0_writeMem bt addr (unpack32 v))"

definition simStoreHalfWord :: "'s transport \<Rightarrow> u32 \<Rightarrow> u16 \<Rightarrow> ('s, unit) m0_op" where
  "simStoreHalfWord bt addr v =
     then_s (require_s (addr AND 1 = 0) Exit_failure) (m0_writeMem bt addr (unpack16 v))"

definition simStoreByte :: "'s transport \<Rightarrow> u32 \<Rightarrow> u8 \<Rightarrow> ('s, unit) m0_op" where
  "simStoreByte bt addr v = m0_writeMem bt addr [v]"

section \<open>Pipeline\<close>

definition OPCODE_WFE :: u16 where "OPCODE_WFE = 0xbf20"
definition OPCODE_WFI :: u16 where "OPCODE_WFI = 0xbf30"
definition OPCODE_NOP :: u16 where "OPCODE_NOP = 0x46c0"

definition flushPipeline :: "('s, unit) m0_op" where
  "flushPipeline = modify_s (\<lambda>s.
     s\<lparr>instructionBuffer := (instructionBuffer s)\<lparr>buf_valid := False\<rparr>,
       instructionQueue := replicate (pipelineStages s - 1) OPCODE_NOP,
       bubbles := pipelineStages s - 1\<rparr>)"

definition getNextExecutionPc :: "('s, u32) m0_op" where
  "getNextExecutionPc =
     bind_s (gets_s bubbles) (\<lambda>b.
     then_s (require_s (b \<le> 1) Assertion_failed)
      (bind_s cpu_get_pc (\<lambda>pc.
       gets_s (\<lambda>s. (pc AND NOT 1) - 2 * (of_nat (length (instructionQueue s)) - of_nat b)))))"

definition getNextPipelineInstr :: "sc_time \<Rightarrow> ('s, u16) m0_op" where
  "getNextPipelineInstr period =
     bind_s (gets_s instructionQueue) (\<lambda>q.
     do_all_then
       [require_s (q \<noteq> []) Undefined_behaviour,
        modify_s (\<lambda>s. s\<lparr>instructionQueue := tl q\<rparr>),
        m0_wait period, m0_report (M0_event Idle_cycles 1)]
       (return_s (hd q)))"

definition m0_fetch :: "'s transport \<Rightarrow> sc_time \<Rightarrow> u32 \<Rightarrow> ('s, u16) m0_op" where
  "m0_fetch bt period addr =
     (let addressWordAligned = addr AND NOT 3; addressHalfWordAligned = addr AND NOT 1 in
      bind_s (gets_s instructionBuffer) (\<lambda>b.
      then_s
        (if \<not> buf_valid b \<or> addressWordAligned \<noteq> buf_address b then
           bind_s (read32 bt addressWordAligned) (\<lambda>d.
             modify_s (\<lambda>s. s\<lparr>instructionBuffer :=
               \<lparr>buf_data = d, buf_address = addressWordAligned, buf_valid = True\<rparr>\<rparr>))
         else do_all [m0_wait period, m0_report (M0_event Idle_cycles 1)])
        (bind_s (gets_s instructionBuffer) (\<lambda>b'.
           if addressHalfWordAligned = buf_address b' then return_s (ucast (buf_data b' AND 0xffff))
           else if addressHalfWordAligned = buf_address b' + 2 then
             return_s (ucast (drop_bit 16 (buf_data b' AND 0xffff0000)))
           else fail_s Report_fatal))))"

section \<open>Exceptions\<close>

definition ROM_START :: u32 where "ROM_START = 0x08000000"

definition exceptionEnter :: "'s transport \<Rightarrow> u32 \<Rightarrow> ('s, unit) m0_op" where
  "exceptionEnter bt exceptionId =
     bind_s getNextExecutionPc (\<lambda>pc.
     let nextPc = pc OR 1 in
     then_s (modify_s (\<lambda>s. s\<lparr>regsAtExceptEnter := (gpr s)[15 := nextPc] @ [apsr s]\<rparr>))
      (bind_s cpu_get_sp (\<lambda>sp.
       let frameAlign = of_bool (sp AND 4 \<noteq> 0) :: u32 in
       then_s (cpu_set_sp ((sp - 0x20) AND NOT 4))
        (bind_s cpu_get_sp (\<lambda>framePtr.
         do_all_then
           [bind_s (cpu_get_gpr 0) (write32 bt (framePtr + 0 * 4)),
            bind_s (cpu_get_gpr 1) (write32 bt (framePtr + 1 * 4)),
            bind_s (cpu_get_gpr 2) (write32 bt (framePtr + 2 * 4)),
            bind_s (cpu_get_gpr 3) (write32 bt (framePtr + 3 * 4)),
            bind_s (cpu_get_gpr 12) (write32 bt (framePtr + 4 * 4)),
            bind_s cpu_get_lr (write32 bt (framePtr + 5 * 4)),
            write32 bt (framePtr + 6 * 4) nextPc,
            bind_s cpu_get_apsr (\<lambda>psr. write32 bt (framePtr + 7 * 4)
              ((psr AND 0xFFFFFC00) OR push_bit 9 frameAlign OR (psr AND 0x1FF))),
            bind_s (gets_s (\<lambda>s. if cpu_mode_is_handler s then 0xFFFFFFF1
                else if cpu_stack_is_main s then 0xFFFFFFF9 else 0xFFFFFFFD)) cpu_set_lr,
            cpu_mode_handler, cpu_set_ipsr exceptionId, cpu_stack_use_main]
         (bind_s (read32 bt (ROM_START + 4 * exceptionId)) (\<lambda>handlerAddress.
          do_all [modify_s (\<lambda>s. s\<lparr>activeException := sint exceptionId\<rparr>),
            cpu_set_pc handlerAddress, flushPipeline])))))))"

definition exceptionReturn :: "'s transport \<Rightarrow> u32 \<Rightarrow> ('s, unit) m0_op" where
  "exceptionReturn bt EXC_RETURN =
     do_all_then
       [modify_s (\<lambda>s. s\<lparr>returningException := sint (ipsr s)\<rparr>),
        (if EXC_RETURN = 0xFFFFFFF1 then do_all [cpu_mode_handler, cpu_stack_use_main]
         else if EXC_RETURN = 0xFFFFFFF9 then do_all [cpu_mode_thread, cpu_stack_use_main]
         else if EXC_RETURN = 0xFFFFFFFD then do_all [cpu_mode_thread, cpu_stack_use_process]
         else fail_s Report_fatal),
        cpu_set_ipsr 0]
     (bind_s cpu_get_sp (\<lambda>framePtr.
      let restore = (\<lambda>i f. bind_s (read32 bt (framePtr + i * 4)) f) in
      do_all_then
        [restore 0 (cpu_set_gpr 0), restore 1 (cpu_set_gpr 1), restore 2 (cpu_set_gpr 2),
         restore 3 (cpu_set_gpr 3), restore 4 (cpu_set_gpr 12), restore 5 cpu_set_lr,
         restore 6 cpu_set_pc]
      (bind_s (read32 bt (framePtr + 7 * 4)) (\<lambda>storedApsr.
       do_all
         [cpu_set_apsr storedApsr,
          cpu_set_sp (if storedApsr AND push_bit 9 1 \<noteq> 0 then (framePtr + 0x20) OR 4
                      else framePtr + 0x20),
          bind_s cpu_get_apsr (\<lambda>a. cpu_set_apsr (a AND 0xF0000000)),
          cpu_set_ipsr 0, take_branch,
          modify_s (\<lambda>s. s\<lparr>activeException := 0\<rparr>)]))))"

end
