(* ===== verification/Cm0_Words.thy ===== *)
theory Cm0_Words
  imports Cm0_State
begin

unbundle bit_operations_syntax

text \<open>
  The two ways the simulator of the Cortex-M0 turns words into bytes and back agree: the shifts
  of the core's memory access (\<open>pack32\<close>, \<open>unpack32\<close>) and the byte order conversion with
  \<open>packBytes\<close> and \<open>unpackBytes\<close>.
\<close>

lemma pack32_load: "pack32 [b0, b1, b2, b3] = host_load32 b0 b1 b2 b3"
  by (simp add: pack32_def host_load32_def ac_simps)

lemma pack_unpack32: "pack32 (unpack32 v) = v"
  by (simp add: unpack32_def pack32_load host_load32_bytes)

lemma length_unpack32 [simp]: "length (unpack32 v) = 4"
  by (simp add: unpack32_def)

lemma ucast_drop_u64: "ucast (drop_bit n (ucast (w :: u32) :: u64)) = (ucast (drop_bit n w) :: u8)"
  by (rule bit_word_eqI) (auto simp: bit_simps dest: bit_imp_le_length)

lemma unpack_htotl: "unpackBytes [0, 0, 0, 0] (ucast (htotl cortex_m0 0 v)) 4 = Inr (unpack32 v)"
proof -
  have h: "htotl cortex_m0 0 v = host_load32 (ucast (drop_bit 24 v)) (ucast (drop_bit 16 v)) (ucast (drop_bit 8 v)) (ucast v)"
    by (simp add: htotl_def cortex_m0_def u32_div_256 drop_bit_drop_bit)
  note load = host_byte_load [unfolded host_byte_def]
  have b: "ucast (drop_bit 24 (host_load32 b0 b1 b2 b3)) = b3" "ucast (drop_bit 16 (host_load32 b0 b1 b2 b3)) = b2"
    "ucast (drop_bit 8 (host_load32 b0 b1 b2 b3)) = b1" "ucast (host_load32 b0 b1 b2 b3) = b0" for b0 b1 b2 b3
    using load by simp_all
  show ?thesis
    unfolding unpack4 ucast_drop_u64 h b using ucast_drop_u64 [of 0] by (simp add: b unpack32_def)
qed

lemma pack_ttohl: "packBytes [b0, b1, b2, b3] 4 = Inr w \<Longrightarrow> ttohl cortex_m0 (ucast w) = pack32 [b0, b1, b2, b3]"
proof -
  let ?w = "push_bit 8 (push_bit 8 (push_bit 8 (ucast b0) OR ucast b1) OR ucast b2) OR ucast b3 :: u64"
  assume "packBytes [b0, b1, b2, b3] 4 = Inr w"
  then have w: "w = ?w" unfolding pack4 by simp
  have u: "ucast ?w = host_load32 b3 b2 b1 b0"
    by (rule bit_word_eqI) (auto simp: host_load32_def bit_simps dest: bit_imp_le_length)
  show ?thesis
    unfolding w u pack32_load using host_load32_horner [of b3 b2 b1 b0]
    by (simp add: ttohl_def cortex_m0_def host_byte_load)
qed

lemma pack_unpack_ttohl: "bind_r (packBytes (unpack32 v) 4) (\<lambda>w. Inr (ttohl cortex_m0 (ucast w))) = Inr v"
proof -
  obtain w where w: "packBytes (unpack32 v) 4 = Inr w"
    by (simp add: unpack32_def pack4)
  then show ?thesis
    using pack_ttohl [of "ucast v" _ _ _ w] pack_unpack32 [of v] by (simp add: unpack32_def)
qed

end
