(* ===== verification/Cm0_Registers.thy ===== *)
theory Cm0_Registers
  imports Peripheral Cm0_Words
begin

unbundle bit_operations_syntax

text \<open>
  Register files of the 32-bit target: what an access of one, two or four bytes, aligned to
  its length as the bus demands, does to a file of word-aligned registers.
\<close>

definition word_aligned :: "register_file \<Rightarrow> bool" where
  "word_aligned rf \<longleftrightarrow> (\<forall>r \<in> set rf. reg_addr r mod 4 = 0)"

definition word_access :: "nat \<Rightarrow> nat \<Rightarrow> bool" where
  "word_access a n \<longleftrightarrow> n \<in> {1, 2, 4} \<and> a mod n = 0"

definition word_base :: "nat \<Rightarrow> nat" where
  "word_base a = a - a mod 4"

lemma word_aligned_at: "word_aligned rf \<Longrightarrow> reg_at rf a \<noteq> None \<Longrightarrow> a mod 4 = 0"
  using reg_at_set [of rf a] reg_at_addr [of rf a] by (fastforce simp: word_aligned_def)

lemma word_aligned_set_first:
  "word_aligned rf \<Longrightarrow> (\<And>r. reg_addr (f r) = reg_addr r) \<Longrightarrow> word_aligned (set_first a f rf)"
  by (auto simp: word_aligned_def dest!: set_first_set dest: reg_at_set)

lemma word_aligned_put_reg [simp]: "word_aligned rf \<Longrightarrow> word_aligned (put_reg rf a v f)"
  by (simp add: put_reg_def word_aligned_set_first)

lemma word_aligned_reset [simp]: "word_aligned (rf_reset rf) = word_aligned rf"
  by (simp add: word_aligned_def rf_reset_def register_reset_def)

lemma rf_write_put: "rf_write rf a v f = Inr rf' \<Longrightarrow> rf' = put_reg rf a v f"
  by (auto simp: rf_write_def put_reg_def check_r_eq_Inr split: option.splits)

lemma list_of_1: "length xs = 1 \<Longrightarrow> \<exists>b. xs = [b]"
  by (cases xs) auto

lemma list_of_2: "length xs = 2 \<Longrightarrow> \<exists>b c. xs = [b, c]"
  using list_of_1 [of "tl xs"] by (cases xs) auto

lemma list_of_4: "length xs = 4 \<Longrightarrow> \<exists>b c d e. xs = [b, c, d, e]"
  using list_of_2 [of "tl (tl xs)"] by (cases xs; cases "tl xs") auto

text \<open>A short write changes at most the register its address lies in.\<close>

lemma word_write_one_register:
  assumes "word_aligned rf" and "word_access a (length buf)"
    and "rf_write_buf cortex_m0 rf a buf False = Inr rf'"
  shows "\<exists>v. rf' = put_reg rf (word_base a) v False \<and> rf_write rf (word_base a) v False = Inr rf'"
proof -
  consider b where "buf = [b]" | b c where "buf = [b, c]" "a mod 2 = 0"
    | b c d e where "buf = [b, c, d, e]" "a mod 4 = 0"
  proof -
    have "length buf = 1 \<or> length buf = 2 \<and> a mod 2 = 0 \<or> length buf = 4 \<and> a mod 4 = 0"
      using assms(2) by (auto simp: word_access_def)
    then show thesis
      using that by (metis list_of_1 list_of_2 list_of_4)
  qed
  then have "\<exists>v. rf_write rf (word_base a) v False = Inr rf'"
  proof cases
    case 1
    then show ?thesis
      using assms(3) by (auto simp: rf_write_buf.simps(2) Let_def rf_writeByte_def bind_r_eq_Inr
          word_base_def cortex_m0_def)
  next
    case 2
    then obtain v where v: "rf_write rf a v False = Inr rf'"
      using assms(3) by (auto simp: rf_write_buf.simps(2) Let_def bind_r_eq_Inr cortex_m0_def)
    then have "reg_at rf a \<noteq> None" by (auto simp: rf_write_def split: option.splits)
    then have "word_base a = a"
      using word_aligned_at [OF assms(1)] by (simp add: word_base_def)
    then show ?thesis using v by auto
  next
    case 3
    then show ?thesis
      using assms(3) by (auto simp: rf_write_buf.simps(2) Let_def bind_r_eq_Inr cortex_m0_def word_base_def)
  qed
  then show ?thesis using rf_write_put by blast
qed

text \<open>A word write in full.\<close>

lemma word_write:
  assumes "rw rf a" and "a mod 4 = 0"
  shows "rf_write_buf cortex_m0 rf a (unpack32 v) False = Inr (put_reg rf a v False)"
  using pack_unpack_ttohl [of v] assms
  by (auto simp: unpack32_def rf_write_buf.simps Let_def cortex_m0_def bind_r_eq_Inr)

lemma word_read:
  assumes "rw rf a" and "a mod 4 = 0"
  shows "rf_read_buf cortex_m0 rf a 4 = Inr (unpack32 (reg_value rf a))"
  using assms unpack_htotl [of "reg_value rf a"] by (simp add: rf_read_buf.simps cortex_m0_def)

lemma unpack_htotl_any:
  assumes "length buf = 4"
  shows "unpackBytes buf (ucast (htotl cortex_m0 0 v)) 4 = Inr (unpack32 v)"
  using unpack_htotl [of v] list_of_4 [OF assms] by (auto simp: unpack4)

text \<open>Transactions of one word.\<close>

definition read_word :: "nat \<Rightarrow> payload" where
  "read_word a = \<lparr>command = TLM_READ_COMMAND, address = of_nat a, data = [0, 0, 0, 0], response_ok = False\<rparr>"

definition write_word :: "nat \<Rightarrow> u32 \<Rightarrow> payload" where
  "write_word a v = \<lparr>command = TLM_WRITE_COMMAND, address = of_nat a, data = unpack32 v, response_ok = False\<rparr>"

lemma read_word_fields [simp]:
  "command (read_word a) = TLM_READ_COMMAND" "length (data (read_word a)) = 4"
  "a < 2 ^ 64 \<Longrightarrow> unat (address (read_word a)) = a"
  by (simp_all add: read_word_def unat_of_nat_lt)

lemma write_word_fields [simp]:
  "command (write_word a v) = TLM_WRITE_COMMAND" "data (write_word a v) = unpack32 v"
  "a < 2 ^ 64 \<Longrightarrow> unat (address (write_word a v)) = a"
  by (simp_all add: write_word_def unat_of_nat_lt)

lemma bus_read_word:
  assumes "rw rf a" and "a mod 4 = 0" and "a < 2 ^ 64"
  shows "BusTarget_b_transport cortex_m0 period rf (read_word a) d =
    Inr (rf, read_word a\<lparr>data := unpack32 (reg_value rf a), response_ok := True\<rparr>, d + period,
         [Notify Read_event (d + period), Report Pe_read 1])"
  using word_read [OF assms(1,2)] assms(3)
  by (simp add: BusTarget_b_transport_def data_length_def Let_def del: One_nat_def)

lemma bus_write_word:
  assumes "rw rf a" and "a mod 4 = 0" and "a < 2 ^ 64"
  shows "BusTarget_b_transport cortex_m0 period rf (write_word a v) d =
    Inr (put_reg rf a v False, write_word a v\<lparr>response_ok := True\<rparr>, d + period,
         [Notify Write_event (d + period), Report Pe_write 1])"
  using word_write [OF assms(1,2)] assms(3)
  by (simp add: BusTarget_b_transport_def data_length_def Let_def)

lemma masked_fits: "a AND m = a \<Longrightarrow> masked m a v = v AND m"
proof (rule bit_eqI)
  fix n
  assume "a AND m = a"
  then have "bit (a AND m) n = bit a n" by simp
  then show "bit (masked m a v) n = bit (v AND m) n" by (auto simp: masked_def bit_simps)
qed

end
