(* ===== verification/Nvic.thy ===== *)
theory Nvic
  imports Cm0_Registers
begin

unbundle bit_operations_syntax

text \<open>
  \<open>mcu/cortex-m0/Nvic.cpp\<close>: the nested vectored interrupt controller of the Cortex-M0.
  \<open>process\<close> runs when an interrupt line, \<open>active\<close> or \<open>returning\<close> changes, after a bus
  write and after a reset; its result carries the value written to the \<open>pending\<close> signal.
  The scan over the 32 lines is a recursion over their numbers.

  The lemmas give the arbitration (the enabled pending interrupt of least priority value,
  the lowest line among equals), the pending bits after a scan, and that a requested
  interrupt stays pending until it is taken or cleared.
\<close>

section \<open>State and operations\<close>

record nvic =
  nv_regs :: register_file
  m_prevIrq :: "bool list"
  m_prevActive :: int
  m_swClearPending :: u32
  m_swSetPending :: u32

definition OFS_NVIC_ISER :: nat where "OFS_NVIC_ISER = 0"
definition OFS_NVIC_ICER :: nat where "OFS_NVIC_ICER = 0x80"
definition OFS_NVIC_ISPR :: nat where "OFS_NVIC_ISPR = 0x100"
definition OFS_NVIC_ICPR :: nat where "OFS_NVIC_ICPR = 0x180"
definition OFS_NVIC_IPR0 :: nat where "OFS_NVIC_IPR0 = 0x300"
definition NVIC_EXCEPT_ID_BASE :: int where "NVIC_EXCEPT_ID_BASE = 16"

lemmas nvic_offsets = OFS_NVIC_ISER_def OFS_NVIC_ICER_def OFS_NVIC_ISPR_def OFS_NVIC_ICPR_def
  OFS_NVIC_IPR0_def

definition Nvic_regs :: register_file where
  "Nvic_regs =
     fold (\<lambda>i rf. addRegister rf (OFS_NVIC_IPR0 + 4 * i) 0 READ_WRITE 0xc0c0c0c0) [0..<8]
       (addRegister (addRegister (addRegister (addRegister []
          OFS_NVIC_ISER 0 READ_WRITE (- 1)) OFS_NVIC_ICER 0 READ_WRITE (- 1))
          OFS_NVIC_ISPR 0 READ_WRITE 0) OFS_NVIC_ICPR 0 READ_WRITE 0)"

definition Nvic_new :: nvic where
  "Nvic_new =
     \<lparr>nv_regs = Nvic_regs, m_prevIrq = replicate 32 False, m_prevActive = - 1,
      m_swClearPending = 0, m_swSetPending = 0\<rparr>"

definition Nvic_reset :: "nvic \<Rightarrow> nvic" where
  "Nvic_reset s =
     s\<lparr>m_prevIrq := map (\<lambda>_. False) (m_prevIrq s), m_prevActive := - 1, m_swClearPending := 0,
       m_swSetPending := 0, nv_regs := rf_reset (nv_regs s)\<rparr>"

definition writeOneToClear :: "u32 \<Rightarrow> u32 \<Rightarrow> u32" where
  "writeOneToClear clearbits oldval = oldval AND NOT clearbits"

definition writeOneToSet :: "u32 \<Rightarrow> u32 \<Rightarrow> u32" where
  "writeOneToSet setbits oldval = oldval OR setbits"

text \<open>The value of a written word: \<open>packBytes(data, 4)\<close> takes four bytes of the payload.\<close>

definition payload_word :: "target \<Rightarrow> payload \<Rightarrow> u32 result" where
  "payload_word t tp = bind_r (packBytes (data tp) 4) (\<lambda>w. Inr (ttohl t (ucast w)))"

definition set_enables :: "register_file \<Rightarrow> u32 \<Rightarrow> register_file result" where
  "set_enables rf v =
     bind_r (rf_write rf OFS_NVIC_ISER v False) (\<lambda>rf1. rf_write rf1 OFS_NVIC_ICER v False)"

definition Nvic_b_transport :: "target \<Rightarrow> sc_time \<Rightarrow> nvic transport" where
  "Nvic_b_transport t period s tp delay =
     bind_r (BusTarget_b_transport t period (nv_regs s) tp delay) (\<lambda>(rf, tp1, d, fx).
       let s1 = s\<lparr>nv_regs := rf\<rparr>;
           addr = unat (address tp1);
           ofs = addr - addr mod 4;
           wr = (command tp1 = TLM_WRITE_COMMAND)
       in bind_r
         (if ofs = OFS_NVIC_ISER then
            if wr then
              bind_r (rf_read rf OFS_NVIC_ISER) (\<lambda>iser.
              bind_r (rf_read rf OFS_NVIC_ICER) (\<lambda>icer.
              bind_r (set_enables rf (writeOneToSet iser icer)) (\<lambda>rf2. Inr (s1\<lparr>nv_regs := rf2\<rparr>))))
            else Inr s1
          else if ofs = OFS_NVIC_ICER then
            if wr then
              bind_r (rf_read rf OFS_NVIC_ICER) (\<lambda>icer.
              bind_r (rf_read rf OFS_NVIC_ISER) (\<lambda>iser.
              bind_r (set_enables rf (writeOneToClear icer iser)) (\<lambda>rf2. Inr (s1\<lparr>nv_regs := rf2\<rparr>))))
            else Inr s1
          else if ofs = OFS_NVIC_ISPR then
            if wr then bind_r (payload_word t tp1) (\<lambda>v. Inr (s1\<lparr>m_swSetPending := v\<rparr>)) else Inr s1
          else if ofs = OFS_NVIC_ICPR then
            if wr then bind_r (payload_word t tp1) (\<lambda>v. Inr (s1\<lparr>m_swClearPending := v\<rparr>)) else Inr s1
          else if ofs \<in> {OFS_NVIC_IPR0, OFS_NVIC_IPR0 + 4, OFS_NVIC_IPR0 + 8, OFS_NVIC_IPR0 + 12,
              OFS_NVIC_IPR0 + 16, OFS_NVIC_IPR0 + 20, OFS_NVIC_IPR0 + 24, OFS_NVIC_IPR0 + 28} then Inr s1
          else Inl Report_fatal)
         (\<lambda>s2. Inr (s2, tp1, d, fx)))"

definition setPend :: "nvic \<Rightarrow> bool list \<Rightarrow> int \<Rightarrow> nat \<Rightarrow> bool" where
  "setPend s irq returning i =
     (let edge = (irq ! i \<and> \<not> m_prevIrq s ! i);
          stillRequesting = (irq ! i \<and> returning = int i + NVIC_EXCEPT_ID_BASE);
          swSet = (m_swSetPending s AND push_bit i 1 \<noteq> 0)
      in edge \<or> stillRequesting \<or> swSet)"

definition clearPend :: "nvic \<Rightarrow> bool list \<Rightarrow> int \<Rightarrow> nat \<Rightarrow> bool" where
  "clearPend s irq active i =
     (let swClear = (\<not> irq ! i \<and> m_swClearPending s AND push_bit i 1 \<noteq> 0);
          irqActive = (active = int i + NVIC_EXCEPT_ID_BASE \<and> active \<noteq> m_prevActive s)
      in swClear \<or> irqActive)"

record nvic_scan =
  m_pending :: u32
  highestPri :: nat
  highestPriIrq :: int

definition scan_irq ::
  "target \<Rightarrow> bool list \<Rightarrow> int \<Rightarrow> int \<Rightarrow> nat \<Rightarrow> nvic \<times> nvic_scan \<Rightarrow> (nvic \<times> nvic_scan) result" where
  "scan_irq t irq returning active i st =
     (case st of (s, p) \<Rightarrow>
       let setp = setPend s irq returning i;
           clearp = clearPend s irq active i \<and> \<not> setp;
           pend = (if setp then m_pending p OR push_bit i 1
                   else if clearp then m_pending p AND NOT (push_bit i 1)
                   else m_pending p)
       in bind_r (rf_readByte t (nv_regs s) (OFS_NVIC_IPR0 + i)) (\<lambda>ipr.
          bind_r (rf_read (nv_regs s) OFS_NVIC_ISER) (\<lambda>iser.
          let prio = unat (drop_bit 6 ipr);
              p1 = p\<lparr>m_pending := pend\<rparr>;
              p2 = (if pend AND push_bit i 1 \<noteq> 0 \<and> prio < highestPri p1 \<and> iser AND push_bit i 1 \<noteq> 0
                    then p1\<lparr>highestPri := prio, highestPriIrq := int i\<rparr> else p1)
          in Inr (s\<lparr>m_prevIrq := (m_prevIrq s)[i := irq ! i]\<rparr>, p2))))"

fun scan_irqs ::
  "target \<Rightarrow> bool list \<Rightarrow> int \<Rightarrow> int \<Rightarrow> nat list \<Rightarrow> nvic \<times> nvic_scan \<Rightarrow> (nvic \<times> nvic_scan) result" where
  "scan_irqs t irq returning active [] st = Inr st"
| "scan_irqs t irq returning active (i # is) st =
     bind_r (scan_irq t irq returning active i st) (scan_irqs t irq returning active is)"

definition Nvic_process ::
  "target \<Rightarrow> bool \<Rightarrow> bool list \<Rightarrow> int \<Rightarrow> int \<Rightarrow> nvic \<Rightarrow> (nvic \<times> int) result" where
  "Nvic_process t pwrOn irq returning active s =
     (if pwrOn then
        bind_r (rf_read (nv_regs s) OFS_NVIC_ISPR) (\<lambda>ispr.
        bind_r (scan_irqs t irq returning active [0..<length irq]
                  (s, \<lparr>m_pending = ispr, highestPri = 4, highestPriIrq = - 1\<rparr>)) (\<lambda>(s1, p).
        let pending = (if highestPriIrq p \<ge> 0 then NVIC_EXCEPT_ID_BASE + highestPriIrq p
                       else highestPriIrq p)
        in bind_r (rf_write (nv_regs s1) OFS_NVIC_ISPR (m_pending p) True) (\<lambda>rf1.
           bind_r (rf_write rf1 OFS_NVIC_ICPR (m_pending p) True) (\<lambda>rf2.
             Inr (s1\<lparr>nv_regs := rf2, m_prevActive := active, m_swClearPending := 0,
                     m_swSetPending := 0\<rparr>, pending)))))
      else Inr (s, 0))"

section \<open>Registers\<close>

definition nvic_shape :: "register_file \<Rightarrow> bool" where
  "nvic_shape rf \<longleftrightarrow> word_aligned rf \<and> rw rf 0 \<and> rw rf 0x80 \<and> rw rf 0x100 \<and> rw rf 0x180
     \<and> map (mask_of rf) [0, 0x80, 0x100, 0x180] = [- 1, - 1, 0, 0] \<and> (\<forall>k<8. rw rf (0x300 + 4 * k))"

definition nvic_inv :: "nvic \<Rightarrow> bool" where
  "nvic_inv s \<longleftrightarrow> nvic_shape (nv_regs s) \<and> length (m_prevIrq s) = 32
     \<and> reg_value (nv_regs s) 0 = reg_value (nv_regs s) 0x80
     \<and> reg_value (nv_regs s) 0x100 = reg_value (nv_regs s) 0x180"

lemma nvic_shape_put [simp]: "nvic_shape rf \<Longrightarrow> nvic_shape (put_reg rf a v f)"
  by (simp add: nvic_shape_def)

lemma nvic_shape_reset [simp]: "nvic_shape (rf_reset rf) = nvic_shape rf"
  by (simp add: nvic_shape_def)

lemma nvic_shapeD:
  assumes "nvic_shape rf"
  shows "rw rf 0" "rw rf 0x80" "rw rf 0x100" "rw rf 0x180" "mask_of rf 0 = - 1" "mask_of rf 0x80 = - 1"
    "mask_of rf 0x100 = 0" "mask_of rf 0x180 = 0" "word_aligned rf" "k < 8 \<Longrightarrow> rw rf (0x300 + 4 * k)"
  using assms by (simp_all add: nvic_shape_def)

lemma nvic_new_inv: "nvic_inv Nvic_new"
proof -
  have regs: "Nvic_regs = map (\<lambda>(a, m). mk_register a 0 READ_WRITE m)
      [(0, - 1), (0x80, - 1), (0x100, 0), (0x180, 0), (0x300, 0xc0c0c0c0), (0x304, 0xc0c0c0c0),
       (0x308, 0xc0c0c0c0), (0x30c, 0xc0c0c0c0), (0x310, 0xc0c0c0c0), (0x314, 0xc0c0c0c0),
       (0x318, 0xc0c0c0c0), (0x31c, 0xc0c0c0c0)]"
    by (simp add: Nvic_regs_def addRegister_def nvic_offsets upt_rec)
  have "k < 8 \<Longrightarrow> k \<in> {0, 1, 2, 3, 4, 5, 6, 7}" for k :: nat by auto
  then show ?thesis
    unfolding nvic_inv_def nvic_shape_def Nvic_new_def regs
    by (auto simp: rw_def mask_of_def reg_value_def reg_at_def mk_register_def word_aligned_def)
qed

definition irq_prio :: "register_file \<Rightarrow> nat \<Rightarrow> nat" where
  "irq_prio rf i = unat (drop_bit 6 (host_byte (reg_value rf (0x300 + 4 * (i div 4))) (i mod 4)))"

lemma irq_prio_less: "irq_prio rf i < 4"
  using unat_lt_2p [of "host_byte (reg_value rf (0x300 + 4 * (i div 4))) (i mod 4)"]
  by (simp add: irq_prio_def unat_drop_bit_div less_mult_imp_div_less)

lemma read_prio:
  assumes "nvic_shape rf" and "i < 32"
  shows "rf_readByte cortex_m0 rf (0x300 + i)
    = Inr (host_byte (reg_value rf (0x300 + 4 * (i div 4))) (i mod 4))"
proof -
  have "rw rf (0x300 + 4 * (i div 4))" using nvic_shapeD(10) [OF assms(1)] assms(2) by simp
  moreover have "0x300 + i - (0x300 + i) mod 4 = 0x300 + 4 * (i div 4)" "(0x300 + i) mod 4 = i mod 4"
    by presburger+
  ultimately show ?thesis
    using rf_find_rw by (fastforce simp: rf_readByte_def cortex_m0_def rw_def readable_def rf_find_def reg_value_def)
qed

lemma single_bit: "w AND push_bit i 1 \<noteq> 0 \<longleftrightarrow> bit (w :: 'a::len word) i"
  by (metis and_exp_eq_0_iff_not_bit push_bit_of_1)

section \<open>Arbitration\<close>

text \<open>The pending bit of a line after a scan, and the lines that compete.\<close>

definition pend_next :: "nvic \<Rightarrow> bool list \<Rightarrow> int \<Rightarrow> int \<Rightarrow> nat \<Rightarrow> bool" where
  "pend_next s irq returning active i \<longleftrightarrow> setPend s irq returning i
     \<or> bit (reg_value (nv_regs s) 0x100) i \<and> \<not> clearPend s irq active i"

definition competes :: "nvic \<Rightarrow> bool list \<Rightarrow> int \<Rightarrow> int \<Rightarrow> nat \<Rightarrow> bool" where
  "competes s irq returning active i \<longleftrightarrow> pend_next s irq returning active i \<and> bit (reg_value (nv_regs s) 0) i"

definition best_irq :: "(nat \<Rightarrow> bool) \<Rightarrow> (nat \<Rightarrow> nat) \<Rightarrow> nat \<Rightarrow> int \<Rightarrow> nat \<Rightarrow> bool" where
  "best_irq C P k hi hp \<longleftrightarrow>
     (if \<exists>i<k. C i
      then \<exists>j<k. hi = int j \<and> C j \<and> hp = P j \<and> (\<forall>i<k. C i \<longrightarrow> P j < P i \<or> P j = P i \<and> j \<le> i)
      else hi = - 1 \<and> hp = 4)"

lemma best_irq_0: "best_irq C P 0 (- 1) 4"
  by (simp add: best_irq_def)

lemma best_irq_keep: "best_irq C P k hi hp \<Longrightarrow> \<not> (C k \<and> P k < hp) \<Longrightarrow> P k < 4 \<Longrightarrow> best_irq C P (Suc k) hi hp"
  by (cases "\<exists>i<k. C i") (auto simp: best_irq_def less_Suc_eq)

lemma best_irq_new: "best_irq C P k hi hp \<Longrightarrow> C k \<Longrightarrow> P k < hp \<Longrightarrow> best_irq C P (Suc k) (int k) (P k)"
  by (cases "\<exists>i<k. C i") (auto simp: best_irq_def less_Suc_eq)

definition scanned :: "nvic \<Rightarrow> bool list \<Rightarrow> int \<Rightarrow> int \<Rightarrow> nat \<Rightarrow> nvic \<times> nvic_scan \<Rightarrow> bool" where
  "scanned s irq returning active k st \<longleftrightarrow> (case st of (s', p) \<Rightarrow>
     s' = s\<lparr>m_prevIrq := take k irq @ drop k (m_prevIrq s)\<rparr>
     \<and> (\<forall>i<32. bit (m_pending p) i = (if i < k then pend_next s irq returning active i
                                     else bit (reg_value (nv_regs s) 0x100) i))
     \<and> best_irq (competes s irq returning active) (irq_prio (nv_regs s)) k (highestPriIrq p) (highestPri p))"

lemma scan_step:
  assumes "nvic_inv s" and "length irq = 32" and "k < 32" and "scanned s irq returning active k st"
  shows "\<exists>st'. scan_irq cortex_m0 irq returning active k st = Inr st'
    \<and> scanned s irq returning active (Suc k) st'"
proof -
  obtain s' p where st: "st = (s', p)" by fastforce
  have shape: "nvic_shape (nv_regs s)" and len: "length (m_prevIrq s) = 32"
    using assms(1) by (simp_all add: nvic_inv_def)
  have s': "s' = s\<lparr>m_prevIrq := take k irq @ drop k (m_prevIrq s)\<rparr>"
    using assms(4) by (simp add: scanned_def st)
  have same: "setPend s' irq returning k = setPend s irq returning k"
      "clearPend s' irq active k = clearPend s irq active k"
    using assms(2,3) len by (simp_all add: setPend_def clearPend_def s' nth_append Let_def)
  have prev: "(take k irq @ drop k (m_prevIrq s))[k := irq ! k] = take (Suc k) irq @ drop (Suc k) (m_prevIrq s)"
    using assms(2,3) len by (simp add: list_update_append take_Suc_conv_app_nth flip: Cons_nth_drop_Suc [of k "m_prevIrq s"])
  define pend where "pend = (if setPend s irq returning k then m_pending p OR push_bit k 1
    else if clearPend s irq active k then m_pending p AND NOT (push_bit k 1) else m_pending p)"
  have bits: "\<forall>i<32. bit (m_pending p) i = (if i < k then pend_next s irq returning active i
      else bit (reg_value (nv_regs s) 0x100) i)"
    using assms(4) by (simp add: scanned_def st)
  have pend: "\<forall>i<32. bit pend i = (if i < Suc k then pend_next s irq returning active i
      else bit (reg_value (nv_regs s) 0x100) i)"
    using bits assms(3) by (auto simp: pend_def pend_next_def bit_simps less_Suc_eq)
  have win: "bit pend k \<and> bit (reg_value (nv_regs s) 0) k \<longleftrightarrow> competes s irq returning active k"
    using pend assms(3) by (simp add: competes_def)
  define p2 where "p2 = (let p1 = p\<lparr>m_pending := pend\<rparr> in
    if competes s irq returning active k \<and> irq_prio (nv_regs s) k < highestPri p
    then p1\<lparr>highestPri := irq_prio (nv_regs s) k, highestPriIrq := int k\<rparr> else p1)"
  have "scan_irq cortex_m0 irq returning active k st
    = Inr (s\<lparr>m_prevIrq := take (Suc k) irq @ drop (Suc k) (m_prevIrq s)\<rparr>, p2)"
  proof -
    have regs: "nv_regs s' = nv_regs s" and upd: "s'\<lparr>m_prevIrq := (m_prevIrq s')[k := irq ! k]\<rparr>
        = s\<lparr>m_prevIrq := take (Suc k) irq @ drop (Suc k) (m_prevIrq s)\<rparr>"
      by (simp_all add: s' prev)
    have new: "(if setPend s irq returning k then m_pending p OR push_bit k 1
        else if clearPend s irq active k \<and> \<not> setPend s irq returning k
        then m_pending p AND NOT (push_bit k 1) else m_pending p) = pend"
      by (simp add: pend_def)
    have won: "bit pend k \<and> irq_prio (nv_regs s) k < h \<and> bit (reg_value (nv_regs s) 0) k
        \<longleftrightarrow> competes s irq returning active k \<and> irq_prio (nv_regs s) k < h" for h
      using win by blast
    show ?thesis
      unfolding scan_irq_def st prod.case same regs Let_def new upd nvic_offsets read_prio [OF shape assms(3)]
        rf_read_rw [OF nvic_shapeD(1) [OF shape]] bind_r_simps single_bit
        irq_prio_def [symmetric] p2_def by (simp add: won)
  qed
  moreover have "scanned s irq returning active (Suc k)
      (s\<lparr>m_prevIrq := take (Suc k) irq @ drop (Suc k) (m_prevIrq s)\<rparr>, p2)"
  proof -
    have best: "best_irq (competes s irq returning active) (irq_prio (nv_regs s)) k (highestPriIrq p) (highestPri p)"
      using assms(4) by (simp add: scanned_def st)
    show ?thesis
      using pend best_irq_new [OF best] best_irq_keep [OF best _ irq_prio_less]
      by (simp add: scanned_def p2_def Let_def)
  qed
  ultimately show ?thesis by blast
qed

lemma scan_all:
  assumes "nvic_inv s" and "length irq = 32" and "k \<le> 32"
    and "scanned s irq returning active (32 - k) st"
  shows "\<exists>st'. scan_irqs cortex_m0 irq returning active [32 - k..<32] st = Inr st'
    \<and> scanned s irq returning active 32 st'"
  using assms(3,4)
proof (induction k arbitrary: st)
  case (Suc k)
  obtain st1 where "scan_irq cortex_m0 irq returning active (32 - Suc k) st = Inr st1"
      "scanned s irq returning active (32 - k) st1"
    using scan_step [OF assms(1,2) _ Suc.prems(2)] Suc.prems(1) Suc_diff_Suc [of k 32] by force
  moreover have "[32 - Suc k..<32] = (32 - Suc k) # [32 - k..<32]"
    using Suc.prems(1) Suc_diff_Suc [of k 32] by (subst upt_conv_Cons) auto
  ultimately show ?case
    using Suc.IH [of st1] Suc.prems(1) by simp
qed auto

text \<open>C22: the NVIC signals the right interrupt. After \<open>process\<close> a line is pending exactly if
  it was requested (an edge, still high when its handler returns, or set by software), or was
  pending before and was neither taken by the core nor cleared by software while low; and the
  value on \<open>pending\<close> is the exception number of an enabled pending line of the least
  priority value, the lowest such line, or -1 if no enabled line is pending.\<close>

theorem nvic_signals_highest_priority:
  assumes "nvic_inv s" and "length irq = 32"
  shows "\<exists>s' out. Nvic_process cortex_m0 True irq returning active s = Inr (s', out)
    \<and> nvic_inv s' \<and> m_prevIrq s' = irq \<and> m_prevActive s' = active
    \<and> m_swSetPending s' = 0 \<and> m_swClearPending s' = 0
    \<and> (\<forall>i<32. bit (reg_value (nv_regs s') 0x100) i = pend_next s irq returning active i)
    \<and> (if \<exists>i<32. competes s irq returning active i
       then \<exists>j<32. out = NVIC_EXCEPT_ID_BASE + int j \<and> competes s irq returning active j
            \<and> (\<forall>i<32. competes s irq returning active i \<longrightarrow>
                 irq_prio (nv_regs s) j < irq_prio (nv_regs s) i
                 \<or> irq_prio (nv_regs s) j = irq_prio (nv_regs s) i \<and> j \<le> i)
       else out = - 1)"
proof -
  note rf = nvic_shapeD [of "nv_regs s"]
  have shape: "nvic_shape (nv_regs s)" using assms(1) by (simp add: nvic_inv_def)
  let ?p = "\<lparr>m_pending = reg_value (nv_regs s) 0x100, highestPri = 4, highestPriIrq = - 1\<rparr>"
  have "scanned s irq returning active 0 (s, ?p)" by (simp add: scanned_def best_irq_0)
  then obtain s1 p where scan: "scan_irqs cortex_m0 irq returning active [0..<32] (s, ?p) = Inr (s1, p)"
      "scanned s irq returning active 32 (s1, p)"
    using scan_all [OF assms, of 32 returning active "(s, ?p)"] by auto
  then have s1: "s1 = s\<lparr>m_prevIrq := irq\<rparr>"
    using assms by (simp add: scanned_def nvic_inv_def)
  define rf where "rf = put_reg (put_reg (nv_regs s) 0x100 (m_pending p) True) 0x180 (m_pending p) True"
  define out where "out = (if highestPriIrq p \<ge> 0 then NVIC_EXCEPT_ID_BASE + highestPriIrq p else highestPriIrq p)"
  have run: "Nvic_process cortex_m0 True irq returning active s
    = Inr (s1\<lparr>nv_regs := rf, m_prevActive := active, m_swClearPending := 0, m_swSetPending := 0\<rparr>, out)"
    using nvic_shapeD(3,4) [OF shape]
    by (simp add: Nvic_process_def nvic_offsets assms(2) scan(1) Let_def rf_def out_def) (simp add: s1)
  have inv: "nvic_shape rf" "reg_value rf 0x100 = m_pending p" "reg_value rf 0x180 = m_pending p"
      "reg_value rf 0 = reg_value (nv_regs s) 0" "reg_value rf 0x80 = reg_value (nv_regs s) 0x80"
    using shape nvic_shapeD(3,4) [OF shape] by (simp_all add: rf_def)
  let ?s = "s1\<lparr>nv_regs := rf, m_prevActive := active, m_swClearPending := 0, m_swSetPending := 0\<rparr>"
  have "nvic_inv ?s" "m_prevIrq ?s = irq" using assms by (simp_all add: nvic_inv_def inv s1)
  moreover have "\<forall>i<32. bit (reg_value (nv_regs ?s) 0x100) i = pend_next s irq returning active i"
    using scan(2) by (simp add: scanned_def inv)
  ultimately show ?thesis
    using run scan(2) by (intro exI [of _ ?s] exI [of _ out]) (auto simp: scanned_def out_def best_irq_def split: if_splits)
qed

text \<open>Reset state, lines 0 and 3 requested and enabled, line 3 with the more urgent priority.\<close>

definition nvic_two_requests :: nvic where
  "nvic_two_requests = Nvic_new\<lparr>nv_regs := put_reg (put_reg (put_reg Nvic_regs 0 9 False) 0x80 9 False)
     0x300 0x40c0c0c0 False\<rparr>"

theorem nvic_signals_highest_priority_witness:
  "\<exists>s'. Nvic_process cortex_m0 True ([True, True, False, True] @ replicate 28 False) 0 0 nvic_two_requests
     = Inr (s', 19)"
proof -
  let ?irq = "[True, True, False, True] @ replicate 28 False" and ?s = nvic_two_requests
  have inv: "nvic_inv ?s"
    using nvic_new_inv nvic_shapeD [of Nvic_regs]
    by (simp add: nvic_inv_def nvic_two_requests_def Nvic_new_def)
  have vals: "reg_value (nv_regs ?s) 0 = 9" "reg_value (nv_regs ?s) 0x300 = 0x40c0c0c0"
    by code_simp+
  have prev: "m_prevIrq ?s = replicate 32 False"
    by (simp add: nvic_two_requests_def Nvic_new_def)
  have en: "competes ?s ?irq 0 0 i \<Longrightarrow> i = 0 \<or> i = 3" for i
    by (auto simp: competes_def vals bit_numeral_rec bit_1_iff split: nat.splits)
  have c: "competes ?s ?irq 0 0 0" "competes ?s ?irq 0 0 3"
    using prev by (simp_all add: competes_def vals pend_next_def setPend_def bit_numeral_rec)
  have p: "irq_prio (nv_regs ?s) 0 = 3" "irq_prio (nv_regs ?s) 3 = 1"
    by (simp_all add: irq_prio_def vals) code_simp+
  obtain s' out where r: "Nvic_process cortex_m0 True ?irq 0 0 ?s = Inr (s', out)"
      "if \<exists>i<32. competes ?s ?irq 0 0 i
       then \<exists>j<32. out = NVIC_EXCEPT_ID_BASE + int j \<and> competes ?s ?irq 0 0 j
            \<and> (\<forall>i<32. competes ?s ?irq 0 0 i \<longrightarrow> irq_prio (nv_regs ?s) j < irq_prio (nv_regs ?s) i
                 \<or> irq_prio (nv_regs ?s) j = irq_prio (nv_regs ?s) i \<and> j \<le> i)
       else out = - 1"
    using nvic_signals_highest_priority [OF inv, of ?irq 0 0] by auto
  have "\<exists>i<32. competes ?s ?irq 0 0 i" using c(1) by (intro exI [of _ 0]) simp
  with r(2) obtain j where j: "j < 32" "out = NVIC_EXCEPT_ID_BASE + int j" "competes ?s ?irq 0 0 j"
      "irq_prio (nv_regs ?s) j < irq_prio (nv_regs ?s) 3 \<or> irq_prio (nv_regs ?s) j = irq_prio (nv_regs ?s) 3 \<and> j \<le> 3"
    using c(2) by auto
  then have "j = 3" using en [OF j(3)] p by auto
  then show ?thesis using r(1) j(2) by (simp add: NVIC_EXCEPT_ID_BASE_def)
qed

section \<open>Requests are not lost\<close>

datatype nvic_op = Nvic_signals "bool list" int int | Nvic_bus payload

fun nvic_step :: "sc_time \<Rightarrow> nvic_op \<Rightarrow> nvic \<Rightarrow> nvic result" where
  "nvic_step period (Nvic_signals irq returning active) s =
     bind_r (Nvic_process cortex_m0 True irq returning active s) (\<lambda>(s1, _). Inr s1)"
| "nvic_step period (Nvic_bus tp) s =
     bind_r (Nvic_b_transport cortex_m0 period s tp 0) (\<lambda>(s1, _). Inr s1)"

fun nvic_run :: "sc_time \<Rightarrow> nvic_op list \<Rightarrow> nvic \<Rightarrow> nvic result" where
  "nvic_run period [] s = Inr s"
| "nvic_run period (op # ops) s = bind_r (nvic_step period op s) (nvic_run period ops)"

text \<open>Well-formed operations, and those that may withdraw a request on line \<open>i\<close>.\<close>

fun nvic_op_ok :: "nvic_op \<Rightarrow> bool" where
  "nvic_op_ok (Nvic_signals irq returning active) = (length irq = 32)"
| "nvic_op_ok (Nvic_bus tp) = word_access (unat (address tp)) (length (data tp))"

fun withdraws :: "nat \<Rightarrow> nvic_op \<Rightarrow> bool" where
  "withdraws i (Nvic_signals irq returning active) = (active = int i + NVIC_EXCEPT_ID_BASE)"
| "withdraws i (Nvic_bus tp) =
     (command tp = TLM_WRITE_COMMAND \<and> word_base (unat (address tp)) = OFS_NVIC_ICPR)"

lemma masked_none [simp]: "masked 0 old v = old"
  by (simp add: masked_def)

lemma nvic_bus_inv:
  assumes "nvic_inv s" and "word_access (unat (address tp)) (length (data tp))"
    and "Nvic_b_transport cortex_m0 period s tp d = Inr (s', tp', d', fx)"
  shows "nvic_inv s' \<and> m_prevIrq s' = m_prevIrq s \<and> m_prevActive s' = m_prevActive s
    \<and> reg_value (nv_regs s') 0x100 = reg_value (nv_regs s) 0x100
    \<and> (withdraws i (Nvic_bus tp) \<or> m_swClearPending s' = m_swClearPending s)"
proof -
  have shape: "nvic_shape (nv_regs s)" using assms(1) by (simp add: nvic_inv_def)
  let ?b = "word_base (unat (address tp))"
  obtain rf tp1 d1 fx1 where bus: "BusTarget_b_transport cortex_m0 period (nv_regs s) tp d = Inr (rf, tp1, d1, fx1)"
    using assms(3) by (auto simp: Nvic_b_transport_def bind_r_eq_Inr)
  note tp1 = BusTarget_address [OF bus]
  consider "command tp = TLM_READ_COMMAND" | v where "command tp = TLM_WRITE_COMMAND"
      "rf = put_reg (nv_regs s) ?b v False"
    using word_write_one_register [OF nvic_shapeD(9) [OF shape] assms(2)] BusTarget_write [OF _ bus] tp1
    by (cases "command tp") auto
  then show ?thesis
  proof cases
    case 1
    then show ?thesis
      using assms(1,3) bus tp1 BusTarget_read [OF _ bus]
      by (auto simp: Nvic_b_transport_def Let_def split: if_splits)
  next
    case 2
    note rf = nvic_shapeD [OF shape]
    have b: "unat (address tp1) - unat (address tp1) mod 4 = ?b" using tp1 by (simp add: word_base_def)
    have kept: "reg_value rf 0x100 = reg_value (nv_regs s) 0x100" "reg_value rf 0x180 = reg_value (nv_regs s) 0x180"
        "nvic_shape rf"
      using rf shape by (cases "?b = 0x100"; cases "?b = 0x180"; simp add: 2(2))+
    have en: "nvic_shape (put_reg (put_reg rf 0 w False) 0x80 w False)"
        "reg_value (put_reg (put_reg rf 0 w False) 0x80 w False) 0 = w"
        "reg_value (put_reg (put_reg rf 0 w False) 0x80 w False) 0x80 = w" for w
      using kept(3) nvic_shapeD [OF kept(3)] by simp_all
    have same: "nvic_inv (s\<lparr>nv_regs := rf\<rparr>)" if "?b \<noteq> 0" "?b \<noteq> 0x80"
      using that assms(1) kept by (simp add: nvic_inv_def 2(2))
    note unf = assms(3) [unfolded Nvic_b_transport_def bus bind_r_simps prod.case Let_def b set_enables_def
        nvic_offsets]
    show ?thesis
    proof (cases "?b = 0 \<or> ?b = 0x80")
      case True
      then show ?thesis
        using unf kept en assms(1) tp1 2(1) nvic_shapeD(1-4) [OF kept(3)]
        by (elim disjE) (auto simp: nvic_inv_def)
    next
      case False
      then show ?thesis
        using unf kept same assms(1) tp1 2(1)
        by (auto simp: nvic_inv_def bind_r_eq_Inr nvic_offsets split: if_splits)
    qed
  qed
qed

lemma nvic_step_keeps:
  assumes "nvic_inv s" and "i < 32" and "nvic_op_ok op" and "nvic_step period op s = Inr s'"
  shows "nvic_inv s' \<and> (bit (reg_value (nv_regs s) 0x100) i \<and> \<not> bit (m_swClearPending s) i \<and> \<not> withdraws i op
    \<longrightarrow> bit (reg_value (nv_regs s') 0x100) i \<and> \<not> bit (m_swClearPending s') i)"
proof (cases op)
  case (Nvic_signals irq returning active)
  then obtain s1 out where s1: "Nvic_process cortex_m0 True irq returning active s = Inr (s1, out)" "nvic_inv s1"
      "m_swClearPending s1 = 0" "bit (reg_value (nv_regs s1) 0x100) i = pend_next s irq returning active i"
    using nvic_signals_highest_priority [OF assms(1), of irq returning active] assms(2,3) by auto
  then show ?thesis
    using assms(4) by (auto simp: Nvic_signals pend_next_def clearPend_def Let_def and_exp_eq_0_iff_not_bit)
next
  case (Nvic_bus tp)
  then obtain tp' d' fx where "Nvic_b_transport cortex_m0 period s tp 0 = Inr (s', tp', d', fx)"
    using assms(4) by (auto simp: bind_r_eq_Inr)
  from nvic_bus_inv [OF assms(1) _ this] show ?thesis
    using assms(3) by (simp add: Nvic_bus) metis
qed

lemma nvic_run_keeps:
  assumes "nvic_inv s" and "i < 32" and "\<forall>op \<in> set ops. nvic_op_ok op" and "nvic_run period ops s = Inr s'"
  shows "nvic_inv s' \<and> (bit (reg_value (nv_regs s) 0x100) i \<and> \<not> bit (m_swClearPending s) i
    \<and> (\<forall>op \<in> set ops. \<not> withdraws i op) \<longrightarrow> bit (reg_value (nv_regs s') 0x100) i)"
  using assms(1,3,4)
proof (induction ops arbitrary: s)
  case (Cons op ops)
  then obtain s1 where "nvic_step period op s = Inr s1" "nvic_run period ops s1 = Inr s'"
    by (auto simp: bind_r_eq_Inr)
  then show ?case
    using nvic_step_keeps [OF Cons.prems(1) assms(2), of op period s1] Cons.IH [of s1] Cons.prems(2) by auto
qed simp

text \<open>C23: a requested interrupt is not lost. Whatever happens after the rising edge of line
  \<open>i\<close> -- changes of any line, of priorities and enables, other exceptions taken and returned
  from, reads and writes of any register -- the line stays pending, unless the core takes this interrupt or software writes ICPR.\<close>

theorem nvic_keeps_request:
  assumes "nvic_inv s" and "i < 32" and "length irq = 32" and "irq ! i" and "\<not> m_prevIrq s ! i"
    and "Nvic_process cortex_m0 True irq returning active s = Inr (s1, out)"
    and "\<forall>op \<in> set ops. nvic_op_ok op \<and> \<not> withdraws i op"
    and "nvic_run period ops s1 = Inr s2"
  shows "bit (reg_value (nv_regs s2) 0x100) i \<and> nvic_inv s2"
proof -
  have "nvic_inv s1" "m_swClearPending s1 = 0" "bit (reg_value (nv_regs s1) 0x100) i"
    using nvic_signals_highest_priority [OF assms(1,3), of returning active] assms(2,4-6)
    by (auto simp: pend_next_def setPend_def)
  then show ?thesis
    using nvic_run_keeps [OF _ assms(2) _ assms(8)] assms(7) by simp
qed

theorem nvic_keeps_request_witness:
  "\<exists>s1 s2. Nvic_process cortex_m0 True ([True] @ replicate 31 False) 0 0 Nvic_new = Inr (s1, - 1)
     \<and> nvic_run 1 [Nvic_signals (replicate 32 False) 0 17] s1 = Inr s2
     \<and> bit (reg_value (nv_regs s2) 0x100) 0"
proof -
  let ?irq = "[True] @ replicate 31 False"
  have off: "\<not> competes Nvic_new ?irq 0 0 i" for i
  proof -
    have "reg_value (nv_regs Nvic_new) 0 = 0" by code_simp
    then show ?thesis by (simp add: competes_def)
  qed
  obtain s1 out where s1: "Nvic_process cortex_m0 True ?irq 0 0 Nvic_new = Inr (s1, out)" "nvic_inv s1"
      "if \<exists>i<32. competes Nvic_new ?irq 0 0 i then True else out = - 1"
    using nvic_signals_highest_priority [OF nvic_new_inv, of ?irq 0 0] off by auto
  then obtain s2 out2 where s2: "Nvic_process cortex_m0 True (replicate 32 False) 0 17 s1 = Inr (s2, out2)"
    using nvic_signals_highest_priority [OF s1(2), of "replicate 32 False" 0 17] by auto
  have "bit (reg_value (nv_regs s2) 0x100) 0"
    using nvic_keeps_request [OF nvic_new_inv, of 0 ?irq 0 0 s1 out "[Nvic_signals (replicate 32 False) 0 17]" 1 s2]
    using s1(1) s2 by (simp add: Nvic_new_def NVIC_EXCEPT_ID_BASE_def)
  then show ?thesis
    using s1 s2 off by auto
qed

end
