(* ===== verification/Clocks.thy ===== *)
theory Clocks
  imports Fused_Prelude
begin

text \<open>
  \<open>mcu/ClockSourceChannel.hpp\<close>, \<open>mcu/ClockMux.hpp\<close> and \<open>mcu/ClockDivider.hpp\<close>: a clock
  is a period and at most one queued edge. Simulation time is explicit: \<open>nextEdge\<close> is
  the time of the queued edge, and \<open>clock_step\<close> lets the kernel fire the edge or another
  process change the period before it.
\<close>

section \<open>Clock source\<close>

record clock_source =
  m_period :: sc_time
  nextEdge :: "sc_time option"
  periodChanged :: bool

text \<open>\<open>sc_event::notify(t)\<close>: a queued notification that is earlier stays.\<close>

definition notify_at :: "sc_time \<Rightarrow> sc_time option \<Rightarrow> sc_time option" where
  "notify_at t q = (case q of None \<Rightarrow> Some t | Some t' \<Rightarrow> Some (min t t'))"

definition ClockSourceChannel_new :: "sc_time \<Rightarrow> sc_time \<Rightarrow> clock_source" where
  "ClockSourceChannel_new now period =
     \<lparr>m_period = period,
      nextEdge = (if period > 0 then notify_at (now + period) None else None),
      periodChanged = False\<rparr>"

definition getPeriod :: "clock_source \<Rightarrow> sc_time" where
  "getPeriod c = m_period c"

definition setPeriod :: "sc_time \<Rightarrow> sc_time \<Rightarrow> clock_source \<Rightarrow> clock_source" where
  "setPeriod now period c =
     (if period = getPeriod c then c
      else
        let c1 = c\<lparr>nextEdge := None\<rparr>;
            c2 = (if period > 0 then c1\<lparr>nextEdge := notify_at (now + period) (nextEdge c1)\<rparr> else c1)
        in c2\<lparr>periodChanged := True, m_period := period\<rparr>)"

definition clock_reset :: "clock_source \<Rightarrow> clock_source" where
  "clock_reset c = c\<lparr>m_period := 0, nextEdge := None, periodChanged := False\<rparr>"

text \<open>The method \<open>process\<close>, run when the queued edge fires at \<open>now\<close>.\<close>

definition clock_process :: "sc_time \<Rightarrow> clock_source \<Rightarrow> clock_source" where
  "clock_process now c =
     (if m_period c > 0 then c\<lparr>nextEdge := notify_at (now + m_period c) (nextEdge c)\<rparr> else c)"

definition fire_edge :: "clock_source \<Rightarrow> (sc_time \<times> clock_source) option" where
  "fire_edge c =
     (case nextEdge c of None \<Rightarrow> None
      | Some t \<Rightarrow> Some (t, clock_process t (c\<lparr>nextEdge := None\<rparr>)))"

text \<open>The times of the next \<open>n\<close> edges, if nobody touches the clock.\<close>

fun edges :: "nat \<Rightarrow> clock_source \<Rightarrow> sc_time list" where
  "edges 0 c = []"
| "edges (Suc n) c = (case fire_edge c of None \<Rightarrow> [] | Some (t, c') \<Rightarrow> t # edges n c')"

text \<open>The clock among other processes: at any time up to the queued edge the period may be
  set or the clock reset.\<close>

inductive clock_step :: "sc_time \<times> clock_source \<Rightarrow> sc_time \<times> clock_source \<Rightarrow> bool" where
  edge: "fire_edge c = Some (t, c') \<Longrightarrow> clock_step (now, c) (t, c')"
| set_period: "now \<le> t \<Longrightarrow> (\<forall>e. nextEdge c = Some e \<longrightarrow> t \<le> e) \<Longrightarrow>
    clock_step (now, c) (t, setPeriod t p c)"
| reset: "now \<le> t \<Longrightarrow> (\<forall>e. nextEdge c = Some e \<longrightarrow> t \<le> e) \<Longrightarrow>
    clock_step (now, c) (t, clock_reset c)"

inductive_cases clock_stepE: "clock_step s s'"

section \<open>Multiplexer and divider\<close>

text \<open>\<open>ClockMux<N>::process\<close>: \<open>inputs\<close> are the periods of the \<open>N\<close> input clocks.\<close>

definition ClockMux_process ::
  "sc_time \<Rightarrow> sc_time list \<Rightarrow> int \<Rightarrow> clock_source \<Rightarrow> clock_source result" where
  "ClockMux_process now inputs sel out =
     check_r (sel \<le> int (length inputs)) Assertion_failed
      (check_r (0 \<le> sel \<and> nat sel < length inputs) Out_of_bounds
        (Inr (setPeriod now (inputs ! nat sel) out)))"

definition ClockDivider_process ::
  "sc_time \<Rightarrow> sc_time \<Rightarrow> int \<Rightarrow> clock_source \<Rightarrow> clock_source result" where
  "ClockDivider_process now inPeriod divIn out =
     check_r (0 < divIn) Assertion_failed (Inr (setPeriod now (inPeriod * nat divIn) out))"

section \<open>Edges of a clock\<close>

text \<open>A clock is stopped, or its next edge is at most one period away.\<close>

definition clock_inv :: "sc_time \<times> clock_source \<Rightarrow> bool" where
  "clock_inv s =
     (case s of (now, c) \<Rightarrow>
       case nextEdge c of
         None \<Rightarrow> m_period c = 0
       | Some e \<Rightarrow> 0 < m_period c \<and> now \<le> e \<and> e \<le> now + m_period c)"

lemma m_period_setPeriod [simp]: "m_period (setPeriod now p c) = p"
  by (simp add: setPeriod_def getPeriod_def Let_def)

lemma nextEdge_setPeriod:
  "nextEdge (setPeriod now p c) =
    (if p = m_period c then nextEdge c else if p > 0 then Some (now + p) else None)"
  by (simp add: setPeriod_def getPeriod_def Let_def notify_at_def)

lemma clock_inv_new: "clock_inv (now, ClockSourceChannel_new now p)"
  by (simp add: clock_inv_def ClockSourceChannel_new_def notify_at_def)

lemma clock_inv_step:
  assumes "clock_step s s'" and "clock_inv s"
  shows "clock_inv s' \<and> fst s \<le> fst s'"
  using assms
  by (cases rule: clock_step.cases)
    (auto simp: clock_inv_def fire_edge_def clock_process_def notify_at_def nextEdge_setPeriod
      clock_reset_def split: option.splits if_splits)

lemma clock_inv_reachable:
  assumes "clock_step\<^sup>*\<^sup>* s s'" and "clock_inv s"
  shows "clock_inv s' \<and> fst s \<le> fst s'"
  using assms by (induction rule: rtranclp_induct) (auto dest: clock_inv_step)

text \<open>C13: a running clock ticks. Whatever sequence of edges, period changes and resets a
  clock went through since it was built, if its period is not zero then an edge is
  queued within one period from now, firing it is a step of the simulation, and the clock
  is still running afterwards; if the period is zero no edge is queued.\<close>

theorem running_clock_ticks:
  assumes "clock_step\<^sup>*\<^sup>* (t0, ClockSourceChannel_new t0 p) (now, c)"
  shows "if 0 < m_period c
    then \<exists>e c'. fire_edge c = Some (e, c') \<and> now \<le> e \<and> e \<le> now + m_period c
           \<and> clock_step (now, c) (e, c') \<and> m_period c' = m_period c \<and> nextEdge c' = Some (e + m_period c)
    else fire_edge c = None"
proof -
  have "clock_inv (now, c)"
    using clock_inv_reachable [OF assms clock_inv_new] by simp
  then show ?thesis
    by (auto simp: clock_inv_def fire_edge_def clock_process_def notify_at_def
        intro!: clock_step.edge split: option.splits)
qed

theorem running_clock_ticks_witness:
  "\<exists>c. clock_step\<^sup>*\<^sup>* (0, ClockSourceChannel_new 0 7) (5, c) \<and> fire_edge c = Some (15, c\<lparr>nextEdge := Some 25\<rparr>)"
proof -
  let ?c = "setPeriod 5 10 (ClockSourceChannel_new 0 7)"
  have run: "clock_step\<^sup>*\<^sup>* (0, ClockSourceChannel_new 0 7) (5, ?c)"
    by (rule r_into_rtranclp, rule clock_step.set_period)
      (simp_all add: ClockSourceChannel_new_def notify_at_def)
  from running_clock_ticks [OF run] obtain e c' where
    "fire_edge ?c = Some (e, c')" "nextEdge c' = Some (e + 10)" by auto
  then have "fire_edge ?c = Some (15, ?c\<lparr>nextEdge := Some 25\<rparr>)"
    by (auto simp: fire_edge_def nextEdge_setPeriod ClockSourceChannel_new_def clock_process_def notify_at_def)
  with run show ?thesis by blast
qed

lemma edges_periodic:
  assumes "nextEdge c = Some t" and "0 < m_period c"
  shows "edges n c = map (\<lambda>k. t + k * m_period c) [0..<n]"
  using assms
proof (induction n arbitrary: t c)
  case (Suc n)
  have "[0..<Suc n] = 0 # map Suc [0..<n]" by (metis upt_rec map_Suc_upt zero_less_Suc)
  then show ?case
    using Suc.prems
    by (simp add: fire_edge_def clock_process_def notify_at_def Suc.IH [of _ "t + m_period c"])
qed simp

text \<open>The edges of the clock tree. A divider by \<open>d\<close> behind a multiplexer that selects
  input \<open>k\<close> gives, from the time of a change of the output period on, edges exactly \<open>d\<close>
  input periods apart and no edge of the old setting; a stopped input stops the output.\<close>

theorem divided_clock_edges:
  assumes "k < length inputs" and "0 < d"
    and "ClockMux_process now inputs (int k) mux = Inr mux'"
    and "ClockDivider_process now (getPeriod mux') (int d) out = Inr out'"
    and "getPeriod out \<noteq> inputs ! k * d"
  shows "edges n out' =
    (if inputs ! k = 0 then [] else map (\<lambda>i. now + (i + 1) * (inputs ! k * d)) [0..<n])"
proof -
  have mux: "m_period mux' = inputs ! k"
    using assms(1,3) by (auto simp: ClockMux_process_def check_r_def split: if_splits)
  have out': "out' = setPeriod now (inputs ! k * d) out"
    using assms(2,4) mux by (auto simp: ClockDivider_process_def check_r_def getPeriod_def split: if_splits)
  show ?thesis
  proof (cases "inputs ! k = 0")
    case True
    then have "nextEdge out' = None"
      using assms(5) by (simp add: out' nextEdge_setPeriod getPeriod_def)
    then show ?thesis using True by (cases n) (simp_all add: fire_edge_def)
  next
    case False
    then have "nextEdge out' = Some (now + inputs ! k * d)"
      using assms(2,5) by (simp add: out' nextEdge_setPeriod getPeriod_def)
    then show ?thesis
      using False assms(2) by (simp add: edges_periodic out' algebra_simps)
  qed
qed

theorem divided_clock_edges_witness:
  "\<exists>mux out. ClockMux_process 3 [100, 10] 1 (ClockSourceChannel_new 0 0) = Inr mux
    \<and> ClockDivider_process 3 (getPeriod mux) 4 (ClockSourceChannel_new 0 100) = Inr out
    \<and> edges 3 out = [43, 83, 123]"
proof -
  obtain mux out where s: "ClockMux_process 3 [100, 10] (int 1) (ClockSourceChannel_new 0 0) = Inr mux"
    "ClockDivider_process 3 (getPeriod mux) (int 4) (ClockSourceChannel_new 0 100) = Inr out"
    by (simp add: ClockMux_process_def ClockDivider_process_def)
  have "edges 3 out = [43, 83, 123]"
    using divided_clock_edges [OF _ _ s, of 3]
    by (simp add: getPeriod_def ClockSourceChannel_new_def upt_rec)
  with s show ?thesis by auto
qed

text \<open>
  A selector in range forwards that input; the assertion stops larger ones, but it admits
  \<open>N\<close> itself, which indexes the array of inputs out of bounds.
\<close>

lemma mux_selector_range:
  "ClockMux_process now inputs sel out =
    (if 0 \<le> sel \<and> sel < int (length inputs) then Inr (setPeriod now (inputs ! nat sel) out)
     else if sel \<le> int (length inputs) then Inl Out_of_bounds
     else Inl Assertion_failed)"
  by (auto simp: ClockMux_process_def check_r_def)

end
