(* ===== verification/Sys_Tick.thy ===== *)
theory Sys_Tick
  imports Cm0_Registers Clocks
begin

unbundle bit_operations_syntax

text \<open>
  \<open>mcu/cortex-m0/SysTick.cpp\<close>: the system timer of the Cortex-M0. It does not run on every
  clock edge: \<open>m_expiredEvent\<close> is queued for the end of the count (\<open>m_expired\<close> holds its
  time), and the current value register is computed when it is read. The simulation time
  \<open>now\<close> and the clock's period are arguments. \<open>m_updateIrq\<close> tells whether \<open>irqControl\<close> was
  notified.

  \<open>sc_time / sc_time\<close> is a double that the code truncates; below \<open>2^53\<close> resolution steps
  that is the integer quotient used here.
\<close>

section \<open>State and operations\<close>

record systick =
  st_regs :: register_file
  m_expired :: "sc_time option"
  m_updateIrq :: bool
  m_lastTick :: sc_time
  m_setIrq :: bool
  st_irq :: bool

definition OFS_SYST_CSR :: nat where "OFS_SYST_CSR = 0"
definition OFS_SYST_RVR :: nat where "OFS_SYST_RVR = 4"
definition OFS_SYST_CVR :: nat where "OFS_SYST_CVR = 8"
definition OFS_SYST_CALIB :: nat where "OFS_SYST_CALIB = 12"

lemmas systick_offsets = OFS_SYST_CSR_def OFS_SYST_RVR_def OFS_SYST_CVR_def OFS_SYST_CALIB_def

definition SYST_CSR_COUNTFLAG :: u32 where "SYST_CSR_COUNTFLAG = 0x00010000"
definition SYST_CSR_TICKINT :: u32 where "SYST_CSR_TICKINT = 2"
definition SYST_CSR_ENABLE :: u32 where "SYST_CSR_ENABLE = 1"
definition SYST_CSR_CLKSOURCE :: u32 where "SYST_CSR_CLKSOURCE = 4"
definition SYST_CALIB_NOREF :: u32 where "SYST_CALIB_NOREF = 0x80000000"
definition SYST_EXCEPT_ID :: int where "SYST_EXCEPT_ID = 15"

lemmas systick_bits = SYST_CSR_COUNTFLAG_def SYST_CSR_TICKINT_def SYST_CSR_ENABLE_def
  SYST_CSR_CLKSOURCE_def SYST_CALIB_NOREF_def

definition SysTick_regs :: register_file where
  "SysTick_regs =
     addRegister (addRegister (addRegister (addRegister []
       OFS_SYST_CSR SYST_CSR_CLKSOURCE READ_WRITE 3)
       OFS_SYST_RVR 0x00aaaa READ_WRITE 0x00ffffff)
       OFS_SYST_CVR 0x00aaaa READ_WRITE 0x00ffffff)
       OFS_SYST_CALIB 0 READ 0"

definition SysTick_new :: systick where
  "SysTick_new =
     \<lparr>st_regs = SysTick_regs, m_expired = None, m_updateIrq = False, m_lastTick = 0, m_setIrq = False,
      st_irq = False\<rparr>"

text \<open>\<open>ten_ms\<close> is \<open>sc_time(10, SC_MS)\<close>; dividing by the period of a stopped clock is undefined.\<close>

definition write_calib :: "sc_time \<Rightarrow> sc_time \<Rightarrow> register_file \<Rightarrow> register_file result" where
  "write_calib ten_ms period rf =
     check_r (0 < period) Undefined_behaviour
       (let tenms = of_nat (ten_ms div period) - 1
        in rf_write rf OFS_SYST_CALIB (SYST_CALIB_NOREF OR tenms) True)"

definition SysTick_end_of_elaboration :: "sc_time \<Rightarrow> sc_time \<Rightarrow> systick \<Rightarrow> systick result" where
  "SysTick_end_of_elaboration ten_ms period s =
     bind_r (write_calib ten_ms period (st_regs s)) (\<lambda>rf. Inr (s\<lparr>st_regs := rf\<rparr>))"

definition SysTick_reset :: "sc_time \<Rightarrow> sc_time \<Rightarrow> systick \<Rightarrow> systick result" where
  "SysTick_reset ten_ms period s =
     bind_r (write_calib ten_ms period (rf_reset (st_regs s))) (\<lambda>rf.
       Inr (s\<lparr>st_regs := rf, m_expired := None, m_updateIrq := False, m_setIrq := False\<rparr>))"

definition SysTick_process :: "sc_time \<Rightarrow> sc_time \<Rightarrow> systick \<Rightarrow> systick result" where
  "SysTick_process now period s =
     bind_r (rf_read (st_regs s) OFS_SYST_RVR) (\<lambda>rvr.
     bind_r (rf_write (st_regs s) OFS_SYST_CVR rvr False) (\<lambda>rf1.
     bind_r (rf_read rf1 OFS_SYST_CVR) (\<lambda>cvr.
     let s1 = s\<lparr>st_regs := rf1,
                m_expired := (if cvr > 0 then notify_at (now + period * unat (cvr + 1)) (m_expired s)
                              else m_expired s)\<rparr>
     in bind_r (rf_setBitMask rf1 OFS_SYST_CSR SYST_CSR_COUNTFLAG False) (\<lambda>rf2.
        bind_r (rf_read rf2 OFS_SYST_CSR) (\<lambda>csr.
        let s2 = (if csr AND SYST_CSR_TICKINT \<noteq> 0 then s1\<lparr>m_setIrq := True, m_updateIrq := True\<rparr> else s1)
        in bind_r (rf_setBitMask rf2 OFS_SYST_CSR SYST_CSR_COUNTFLAG True) (\<lambda>rf3.
           Inr (s2\<lparr>st_regs := rf3, m_lastTick := now\<rparr>)))))))"

definition SysTick_irqControl :: "int \<Rightarrow> systick \<Rightarrow> systick" where
  "SysTick_irqControl returning_exception s =
     (let s1 = (if m_setIrq s then s\<lparr>st_irq := True\<rparr>
                else if returning_exception = SYST_EXCEPT_ID then s\<lparr>st_irq := False\<rparr>
                else s)
      in s1\<lparr>m_setIrq := False\<rparr>)"

definition calcCVR :: "sc_time \<Rightarrow> sc_time \<Rightarrow> systick \<Rightarrow> u32 result" where
  "calcCVR now period s =
     (if period = 0 then Inr 0
      else bind_r (rf_read (st_regs s) OFS_SYST_RVR) (\<lambda>rvr.
             Inr (rvr - of_nat ((now - m_lastTick s) div period))))"

definition csr_enabled :: "register_file \<Rightarrow> bool result" where
  "csr_enabled rf = bind_r (rf_read rf OFS_SYST_CSR) (\<lambda>csr. Inr (csr AND SYST_CSR_ENABLE \<noteq> 0))"

text \<open>A write to the control register: disabling stores the count, enabling starts it.\<close>

definition csr_written :: "sc_time \<Rightarrow> sc_time \<Rightarrow> bool \<Rightarrow> bool \<Rightarrow> systick \<Rightarrow> systick result" where
  "csr_written now period wasEnabled isEnabled s =
     (if wasEnabled \<and> \<not> isEnabled then
        bind_r (calcCVR now period s) (\<lambda>v.
        bind_r (rf_write (st_regs s) OFS_SYST_CVR v False) (\<lambda>rf.
          Inr (s\<lparr>m_expired := None, st_regs := rf\<rparr>)))
      else if \<not> wasEnabled \<and> isEnabled then
        bind_r (rf_read (st_regs s) OFS_SYST_CVR) (\<lambda>cvr.
        bind_r (rf_read (st_regs s) OFS_SYST_RVR) (\<lambda>rvr.
        let nextTick = (if cvr = 0 then period * unat (rvr + 1) else period * unat (cvr + 1))
        in Inr (s\<lparr>m_lastTick := now, m_expired := notify_at (now + nextTick) (m_expired s)\<rparr>)))
      else Inr s)"

definition cvr_written :: "sc_time \<Rightarrow> sc_time \<Rightarrow> bool \<Rightarrow> systick \<Rightarrow> systick result" where
  "cvr_written now period isEnabled s =
     bind_r (rf_write (st_regs s) OFS_SYST_CVR 0 False) (\<lambda>rf1.
     bind_r (rf_clearBitMask rf1 OFS_SYST_CSR SYST_CSR_COUNTFLAG True) (\<lambda>rf2.
     if isEnabled then
       bind_r (rf_read rf2 OFS_SYST_RVR) (\<lambda>rvr.
         Inr (s\<lparr>st_regs := rf2, m_expired := notify_at (now + period * unat (1 + rvr)) None\<rparr>))
     else Inr (s\<lparr>st_regs := rf2\<rparr>)))"

definition cvr_read :: "target \<Rightarrow> sc_time \<Rightarrow> sc_time \<Rightarrow> bool \<Rightarrow> systick \<Rightarrow> payload \<Rightarrow> payload result" where
  "cvr_read t now period isEnabled s tp =
     (if \<not> isEnabled then
        bind_r (rf_read_buf t (st_regs s) (unat (address tp)) (data_length tp)) (\<lambda>buf.
          Inr (tp\<lparr>data := buf\<rparr>))
      else
        bind_r (calcCVR now period s) (\<lambda>v.
        bind_r (unpackBytes (data tp) (ucast (htotl t 0 v)) 4) (\<lambda>buf.
          Inr (tp\<lparr>data := buf\<rparr>))))"

definition SysTick_b_transport :: "target \<Rightarrow> sc_time \<Rightarrow> sc_time \<Rightarrow> sc_time \<Rightarrow> systick transport" where
  "SysTick_b_transport t now access_period period s tp delay =
     bind_r (csr_enabled (st_regs s)) (\<lambda>wasEnabled.
     bind_r (BusTarget_b_transport t access_period (st_regs s) tp delay) (\<lambda>(rf, tp1, d, fx).
     bind_r (csr_enabled rf) (\<lambda>isEnabled.
     let s1 = s\<lparr>st_regs := rf\<rparr>;
         addr = unat (address tp1);
         ofs = addr - addr mod 4
     in bind_r
       (if ofs = OFS_SYST_CSR then
          (case command tp1 of
             TLM_READ_COMMAND \<Rightarrow>
               bind_r (rf_clearBitMask rf OFS_SYST_CSR SYST_CSR_COUNTFLAG True) (\<lambda>rf2.
                 Inr (s1\<lparr>st_regs := rf2\<rparr>, tp1))
           | TLM_WRITE_COMMAND \<Rightarrow>
               bind_r (csr_written now period wasEnabled isEnabled s1) (\<lambda>s2. Inr (s2, tp1))
           | TLM_IGNORE_COMMAND \<Rightarrow> Inr (s1, tp1))
        else if ofs = OFS_SYST_RVR then Inr (s1, tp1)
        else if ofs = OFS_SYST_CVR then
          (case command tp1 of
             TLM_WRITE_COMMAND \<Rightarrow>
               bind_r (cvr_written now period isEnabled s1) (\<lambda>s2. Inr (s2, tp1))
           | TLM_READ_COMMAND \<Rightarrow>
               bind_r (cvr_read t now period isEnabled s1 tp1) (\<lambda>tp2. Inr (s1, tp2))
           | TLM_IGNORE_COMMAND \<Rightarrow> Inr (s1, tp1))
        else if ofs = OFS_SYST_CALIB then Inr (s1, tp1)
        else Inl Report_fatal)
       (\<lambda>(s2, tp2). Inr (s2, tp2, d, fx)))))"

section \<open>Registers\<close>

definition systick_shape :: "register_file \<Rightarrow> bool" where
  "systick_shape rf \<longleftrightarrow> word_aligned rf \<and> rw rf 0 \<and> rw rf 4 \<and> rw rf 8 \<and> ro rf 12
     \<and> mask_of rf 0 = 3 \<and> mask_of rf 4 = 0xffffff \<and> mask_of rf 8 = 0xffffff"

lemma systick_shapeD:
  assumes "systick_shape rf"
  shows "rw rf 0" "rw rf 4" "rw rf 8" "ro rf 12" "mask_of rf 0 = 3" "mask_of rf 4 = 0xffffff"
    "mask_of rf 8 = 0xffffff" "word_aligned rf"
  using assms by (simp_all add: systick_shape_def)

lemma systick_shape_put [simp]: "systick_shape rf \<Longrightarrow> systick_shape (put_reg rf a v f)"
  by (simp add: systick_shape_def)

lemma systick_shape_new: "systick_shape SysTick_regs"
  by (simp add: systick_shape_def SysTick_regs_def addRegister_def mk_register_def rw_def ro_def mask_of_def
      reg_at_def systick_offsets word_aligned_def)

definition systick_inv :: "systick \<Rightarrow> bool" where
  "systick_inv s \<longleftrightarrow> systick_shape (st_regs s) \<and> reg_value (st_regs s) 4 AND 0xffffff = reg_value (st_regs s) 4
     \<and> reg_value (st_regs s) 8 AND 0xffffff = reg_value (st_regs s) 8"

lemma systick_inv_new: "systick_inv SysTick_new"
proof -
  have "reg_value SysTick_regs 4 = 0xaaaa" "reg_value SysTick_regs 8 = 0xaaaa" by code_simp+
  then show ?thesis by (simp add: systick_inv_def SysTick_new_def systick_shape_new)
qed

lemma and_not_or: "(v AND NOT m) OR (v AND m) = (v :: u32)"
  by (rule bit_eqI) (auto simp: bit_simps)

section \<open>Counting\<close>

lemma read_cvr_running:
  assumes "systick_inv s" and "reg_value (st_regs s) 0 AND 1 \<noteq> 0" and "0 < period"
  shows "\<exists>fx. SysTick_b_transport cortex_m0 now access_period period s (read_word 8) d
    = Inr (s, read_word 8\<lparr>data := unpack32 (reg_value (st_regs s) 4 - of_nat ((now - m_lastTick s) div period)),
                       response_ok := True\<rparr>, d + access_period, fx)"
proof -
  have sh: "systick_shape (st_regs s)" using assms(1) by (simp add: systick_inv_def)
  note rf = systick_shapeD [OF sh]
  show ?thesis
    unfolding SysTick_b_transport_def bus_read_word [OF rf(3), simplified]
    using assms rf unpack_htotl_any [OF length_unpack32]
    by (simp add: csr_enabled_def Let_def systick_offsets systick_bits cvr_read_def calcCVR_def read_word_def)
qed

text \<open>C24: the system timer counts down from the reload value. When its event expires at
  \<open>e\<close> with a reload value \<open>r\<close>, \<open>r > 0\<close>, and the timer enabled, it reloads, sets COUNTFLAG,
  requests its exception if TICKINT is set and queues the next expiry \<open>r + 1\<close> clock
  periods later; at every time before that a read of the current value register returns
  \<open>r\<close> less the number of periods passed, which never goes below 0, and disturbs nothing.\<close>

theorem systick_counts_down:
  assumes "systick_inv s" and "reg_value (st_regs s) 0 AND SYST_CSR_ENABLE \<noteq> 0"
    and "reg_value (st_regs s) 4 = r" and "r > 0" and "m_expired s = Some e" and "0 < period"
  shows "\<exists>s'. SysTick_process e period (s\<lparr>m_expired := None\<rparr>) = Inr s' \<and> systick_inv s'
    \<and> m_expired s' = Some (e + period * (unat r + 1))
    \<and> reg_value (st_regs s') 0 = reg_value (st_regs s) 0 OR SYST_CSR_COUNTFLAG
    \<and> reg_value (st_regs s') 4 = r
    \<and> (reg_value (st_regs s) 0 AND SYST_CSR_TICKINT \<noteq> 0 \<longrightarrow> st_irq (SysTick_irqControl returning s'))
    \<and> (\<forall>now. e \<le> now \<and> now < e + period * (unat r + 1) \<longrightarrow>
         (now - e) div period \<le> unat r
         \<and> (\<exists>fx. SysTick_b_transport cortex_m0 now access_period period s' (read_word 8) d
              = Inr (s', read_word 8\<lparr>data := unpack32 (r - of_nat ((now - e) div period)), response_ok := True\<rparr>,
                     d + access_period, fx)))"
proof -
  have sh: "systick_shape (st_regs s)" using assms(1) by (simp add: systick_inv_def)
  note rf = systick_shapeD [OF sh]
  have r: "r AND 0xffffff = r" using assms(1,3) by (simp add: systick_inv_def)
  then have "unat r < 2 ^ 24" using unat_and_mask [of r 24] by (simp add: mask_eq_exp_minus_1)
  then have r1: "unat (r + 1) = unat r + 1" by (simp add: unat_word_ariths)
  have cvr: "reg_value (put_reg (st_regs s) 8 r False) 8 = r"
    using assms(1,3) rf r by (simp add: masked_fits systick_inv_def)
  define s' where "s' = s\<lparr>st_regs := put_reg (put_reg (put_reg (st_regs s) 8 r False)
        0 (reg_value (st_regs s) 0 OR SYST_CSR_COUNTFLAG) False) 0
        (masked 3 (reg_value (st_regs s) 0) (reg_value (st_regs s) 0 OR SYST_CSR_COUNTFLAG) OR SYST_CSR_COUNTFLAG) True,
      m_expired := Some (e + period * (unat r + 1)), m_lastTick := e,
      m_setIrq := reg_value (st_regs s) 0 AND SYST_CSR_TICKINT \<noteq> 0 \<or> m_setIrq s,
      m_updateIrq := reg_value (st_regs s) 0 AND SYST_CSR_TICKINT \<noteq> 0 \<or> m_updateIrq s\<rparr>"
  have tick: "masked 3 v (v OR SYST_CSR_COUNTFLAG) = v" "(v OR SYST_CSR_COUNTFLAG) AND SYST_CSR_ENABLE = v AND SYST_CSR_ENABLE" for v
    by (simp_all add: masked_def systick_bits or_and_disjoint and_not_or [of _ 3, simplified])
  have run: "SysTick_process e period (s\<lparr>m_expired := None\<rparr>) = Inr s'"
    using rf cvr r r1 assms(3,4)
    by (simp add: SysTick_process_def systick_offsets Let_def notify_at_def s'_def tick)
  have inv: "systick_inv s'"
    using assms(1,3) sh r cvr rf by (simp add: systick_inv_def s'_def tick)
  have vals: "reg_value (st_regs s') 0 = reg_value (st_regs s) 0 OR SYST_CSR_COUNTFLAG" "reg_value (st_regs s') 4 = r"
    using rf assms(3) by (simp_all add: s'_def tick)
  have en: "reg_value (st_regs s') 0 AND 1 \<noteq> 0" using assms(2) tick(2) by (simp add: vals SYST_CSR_ENABLE_def)
  have "(now - e) div period \<le> unat r" if "now < e + period * (unat r + 1)" for now
  proof -
    have "now - e < (unat r + 1) * period" using that assms(6) by (simp add: mult.commute)
    then have "(now - e) div period < unat r + 1" by (rule less_mult_imp_div_less)
    then show ?thesis by simp
  qed
  moreover have "m_lastTick s' = e" "m_expired s' = Some (e + period * (unat r + 1))" by (simp_all add: s'_def)
  ultimately show ?thesis
    using run inv vals read_cvr_running [OF inv en assms(6), of _ access_period d]
    by (intro exI [of _ s']) (auto simp: SysTick_irqControl_def s'_def)
qed

definition systick_example :: systick where
  "systick_example =
     SysTick_new\<lparr>st_regs := put_reg (put_reg SysTick_regs 4 3 False) 0 3 False, m_expired := Some 100\<rparr>"

theorem systick_counts_down_witness:
  "\<exists>s' fx. SysTick_process 100 10 (systick_example\<lparr>m_expired := None\<rparr>) = Inr s' \<and> m_expired s' = Some 140
     \<and> st_irq (SysTick_irqControl 0 s')
     \<and> SysTick_b_transport cortex_m0 125 1 10 s' (read_word 8) 0
       = Inr (s', read_word 8\<lparr>data := unpack32 1, response_ok := True\<rparr>, 1, fx)"
proof -
  let ?s = systick_example
  have vals: "reg_value (st_regs ?s) 0 = 7" "reg_value (st_regs ?s) 4 = 3" "reg_value (st_regs ?s) 8 = 0xaaaa"
    by code_simp+
  have inv: "systick_inv ?s"
    by (simp only: systick_inv_def vals) (simp add: systick_shape_new systick_example_def)
  have en: "reg_value (st_regs ?s) 0 AND SYST_CSR_ENABLE \<noteq> 0" "reg_value (st_regs ?s) 0 AND SYST_CSR_TICKINT \<noteq> 0"
    "m_expired ?s = Some 100" "(0 :: u32) < 3" "(0 :: nat) < 10"
    by (simp_all add: vals systick_bits) (simp add: systick_example_def)
  note tick = systick_counts_down [OF inv en(1) vals(2) en(4,3,5), of 0 1 0]
  have "100 \<le> (125 :: nat) \<and> (125 :: nat) < 100 + 10 * (unat (3 :: u32) + 1)" by simp
  then obtain s' fx where "SysTick_process 100 10 (?s\<lparr>m_expired := None\<rparr>) = Inr s'" "m_expired s' = Some 140"
      "st_irq (SysTick_irqControl 0 s')" "SysTick_b_transport cortex_m0 125 1 10 s' (read_word 8) 0
        = Inr (s', read_word 8\<lparr>data := unpack32 (3 - of_nat ((125 - 100) div 10)), response_ok := True\<rparr>, 0 + 1, fx)"
    using tick en(2) by fastforce
  then show ?thesis by auto
qed

text \<open>
  The count that is read is the count from the reload value, also when the timer was enabled
  with another value in the current value register.
\<close>

lemma systick_enable_ignores_cvr:
  assumes "systick_shape (st_regs s)" and "0 < period" and "m_expired s = None"
    and "reg_value (st_regs s) 8 = c" and "c \<noteq> 0"
  shows "\<exists>s'. csr_written now period False True s = Inr s'
    \<and> m_expired s' = Some (now + period * unat (c + 1))
    \<and> calcCVR now period s' = Inr (reg_value (st_regs s) 4)"
  using systick_shapeD [OF assms(1)] assms(2-5)
  by (simp add: csr_written_def calcCVR_def notify_at_def systick_offsets Let_def)

end
