(* ===== verification/Msp430_System.thy ===== *)
theory Msp430_System
  imports Peripheral
begin

unbundle bit_operations_syntax

text \<open>
  Small parts around the MSP430 core: \<open>mcu/msp430fr5xx/InterruptArbiter.hpp\<close>, which puts one
  of the peripherals' interrupt requests on the core's single line,
  \<open>mcu/msp430fr5xx/Frctl_a.cpp\<close>, the FRAM controller that sets the wait states, and
  \<open>utilities/SimpleMonitor.hpp\<close>, the register with which a program ends the simulation.

  Signals the arbiter writes are its state; a signal read in the same run still has the old
  value, as a SystemC signal does.
\<close>

section \<open>Interrupt arbiter\<close>

record arbiter =
  idxOut :: nat
  irqOut :: bool
  iraConnected :: bool
  iraOut :: "bool list"

text \<open>\<open>irqIn\<close>: the request lines, \<open>None\<close> where nothing is bound; \<open>iraBound\<close>: whether the
  acknowledge line is bound.\<close>

definition forward_ira :: "bool list \<Rightarrow> nat \<Rightarrow> bool \<Rightarrow> arbiter \<Rightarrow> arbiter" where
  "forward_ira iraBound i b s = (if iraBound ! i then s\<lparr>iraOut := (iraOut s)[i := b]\<rparr> else s)"

fun arbiter_scan :: "bool list \<Rightarrow> nat \<Rightarrow> nat \<Rightarrow> bool option list \<Rightarrow> arbiter \<times> bool \<Rightarrow> arbiter \<times> bool" where
  "arbiter_scan iraBound old i [] sp = sp"
| "arbiter_scan iraBound old i (line # rest) sp =
     arbiter_scan iraBound old (i + 1) rest
       (if line = Some True then ((fst sp)\<lparr>idxOut := i, iraConnected := iraBound ! old\<rparr>, True) else sp)"

definition arbiter_process :: "bool \<Rightarrow> bool option list \<Rightarrow> bool list \<Rightarrow> arbiter \<Rightarrow> arbiter result" where
  "arbiter_process iraIn irqIn iraBound s =
     (if iraIn then
        let crntIdx = idxOut s mod 2 ^ 16 in
        check_r (crntIdx < length irqIn) Out_of_bounds
          (case irqIn ! crntIdx of None \<Rightarrow> Inl Report_fatal
           | Some b \<Rightarrow> Inr ((forward_ira iraBound crntIdx True s)\<lparr>irqOut := b\<rparr>))
      else
        check_r (idxOut s < length irqIn) Out_of_bounds
         (let s1 = forward_ira iraBound (idxOut s) False s;
              (s2, pending) = arbiter_scan iraBound (idxOut s) 0 irqIn (s1, False)
          in Inr (s2\<lparr>irqOut := pending\<rparr>)))"

text \<open>The last requesting line.\<close>

definition last_request :: "bool option list \<Rightarrow> nat \<Rightarrow> bool" where
  "last_request irqIn i \<longleftrightarrow> i < length irqIn \<and> irqIn ! i = Some True
     \<and> (\<forall>j<length irqIn. irqIn ! j = Some True \<longrightarrow> j \<le> i)"

lemma arbiter_scan_snoc:
  "arbiter_scan ib old i (xs @ [x]) sp =
    (let sp1 = arbiter_scan ib old i xs sp
     in if x = Some True then ((fst sp1)\<lparr>idxOut := i + length xs, iraConnected := ib ! old\<rparr>, True) else sp1)"
  by (induction xs arbitrary: i sp) (auto simp: Let_def)

lemma arbiter_scan_only:
  "\<exists>j. arbiter_scan ib old i xs (s, p) = (s, p)
    \<or> arbiter_scan ib old i xs (s, p) = (s\<lparr>idxOut := j, iraConnected := ib ! old\<rparr>, True)"
proof (induction xs rule: rev_induct)
  case (snoc x xs)
  then show ?case by (auto simp: arbiter_scan_snoc Let_def)
qed simp

lemma last_request_snoc:
  "last_request (xs @ [x]) i \<longleftrightarrow> (if x = Some True then i = length xs else last_request xs i)"
  by (auto simp: last_request_def nth_append less_Suc_eq)

lemma arbiter_scan_result:
  "last_request xs i \<Longrightarrow>
    arbiter_scan ib old 0 xs (s, False) = (s\<lparr>idxOut := i, iraConnected := ib ! old\<rparr>, True)"
proof (induction xs arbitrary: i rule: rev_induct)
  case (snoc x xs)
  then show ?case
    using arbiter_scan_only [of ib old 0 xs s False]
    by (auto simp: arbiter_scan_snoc last_request_snoc Let_def split: if_splits)
qed (simp add: last_request_def)

text \<open>
  While no interrupt is being accepted the arbiter passes on the request with the largest
  index, and connects the acknowledge line according to the index that was out before.
\<close>

lemma arbiter_forwards_last_request:
  assumes "last_request irqIn i" and "idxOut s < length irqIn"
  shows "\<exists>s'. arbiter_process False irqIn iraBound s = Inr s' \<and> irqOut s' \<and> idxOut s' = i
    \<and> iraConnected s' = iraBound ! idxOut s"
proof -
  have "idxOut (forward_ira iraBound (idxOut s) False s) = idxOut s" by (simp add: forward_ira_def)
  then show ?thesis
    using assms arbiter_scan_result [OF assms(1), of iraBound "idxOut s" "forward_ira iraBound (idxOut s) False s"]
    by (simp add: arbiter_process_def Let_def)
qed

section \<open>FRAM controller\<close>

definition FRCTL_A_SIZE :: nat where "FRCTL_A_SIZE = 8"
definition OFS_FRCTL0 :: nat where "OFS_FRCTL0 = 0"
definition OFS_GCCTL0 :: nat where "OFS_GCCTL0 = 4"

definition Frctl_a_regs :: register_file where
  "Frctl_a_regs =
     fold (\<lambda>i rf. addRegister rf i (if i = OFS_FRCTL0 then 0x9600 else if i = OFS_GCCTL0 then 4 else 0)
             READ_WRITE (- 1))
       (filter even [0..<FRCTL_A_SIZE]) []"

fun clear_regs :: "nat list \<Rightarrow> register_file \<Rightarrow> register_file result" where
  "clear_regs [] rf = Inr rf"
| "clear_regs (i # is) rf = bind_r (rf_write rf i 0 False) (clear_regs is)"

definition Frctl_a_reset :: "bool \<Rightarrow> register_file \<Rightarrow> register_file result" where
  "Frctl_a_reset pwrOn rf = (if pwrOn then clear_regs (filter even [0..<FRCTL_A_SIZE]) rf else Inr rf)"

definition Frctl_a_process :: "register_file \<Rightarrow> u32 result" where
  "Frctl_a_process rf = bind_r (rf_read rf OFS_FRCTL0) (\<lambda>v. Inr (drop_bit 4 v AND 0x000f))"

text \<open>The reset clears registers whose reset value is not 0, FRCTL0 among them.\<close>

lemma Frctl_a_reset_not_default:
  "\<exists>rf. Frctl_a_reset True Frctl_a_regs = Inr rf \<and> reg_value rf OFS_FRCTL0 = 0
     \<and> reg_value (rf_reset Frctl_a_regs) OFS_FRCTL0 = 0x9600"
proof -
  have regs: "filter even [0..<FRCTL_A_SIZE] = [0, 2, 4, 6]" by (simp add: FRCTL_A_SIZE_def upt_rec)
  show ?thesis
    unfolding Frctl_a_reset_def Frctl_a_regs_def regs
    by (simp add: OFS_FRCTL0_def OFS_GCCTL0_def addRegister_def mk_register_def rf_write_def
        reg_at_def writable_def write_reg_def reg_value_def rf_reset_def register_reset_def)
qed

section \<open>Simple monitor\<close>

definition SIMPLE_MONITOR_KILL_SIM :: u32 where "SIMPLE_MONITOR_KILL_SIM = 0x0d1e"
definition SIMPLE_MONITOR_SW_ERROR :: u32 where "SIMPLE_MONITOR_SW_ERROR = 0x5d1e"
definition SIMPLE_MONITOR_TEST_FAIL :: u32 where "SIMPLE_MONITOR_TEST_FAIL = 0xfa11"

definition SimpleMonitor_regs :: register_file where
  "SimpleMonitor_regs = addRegister [] 0 0 READ_WRITE (- 1)"

text \<open>Whether the simulation is asked to stop.\<close>

definition SimpleMonitor_process :: "register_file \<Rightarrow> bool result" where
  "SimpleMonitor_process rf =
     bind_r (rf_read rf 0) (\<lambda>v.
       if v = SIMPLE_MONITOR_KILL_SIM then Inr True
       else if v = SIMPLE_MONITOR_SW_ERROR \<or> v = SIMPLE_MONITOR_TEST_FAIL then Inl Report_fatal
       else Inr False)"

end
