(* ===== verification/Msp430_Dma.thy ===== *)
theory Msp430_Dma
  imports Peripheral Memory_System
begin

unbundle bit_operations_syntax

text \<open>
  \<open>mcu/msp430fr5xx/Dma.cpp\<close>: the DMA controller of the MSP430. A channel is a thread that
  waits for a trigger, then for its transfers to be accepted; the controller is a thread
  that serves the pending channel of lowest number: it reads a unit from the bus, writes
  it, and lets the channel update its addresses and its count.

  A thread that waits is a state machine: \<open>ch_wait\<close> names the \<open>wait\<close> of
  \<open>DmaChannel::process\<close> it is in, \<open>channel_start\<close>, \<open>channel_accept\<close> and \<open>channel_resume\<close>
  run it from there to the next. While a burst channel pauses for two cycles it misses
  the controller's accept signal; \<open>dma_loop\<close> takes from a schedule whether the pause is
  over before each unit (nothing else looks at the schedule), which also bounds the loop.
\<close>

section \<open>Channels\<close>

datatype increment_mode = Unchanged | Decrement | Increment

datatype transfer_mode = Single | Block | BurstBlock | RepeatedSingle | RepeatedBlock | RepeatedBurstBlock

datatype dma_bytes = Bytes_Byte | Bytes_Word

datatype channel_wait = Wait_trigger | Wait_accept | Wait_burst

record dma_channel =
  ch_pending :: bool
  interruptFlag :: bool
  ch_size :: int
  destinationAddress :: u32
  sourceAddress :: u32
  destinationAutoIncrement :: increment_mode
  sourceAutoIncrement :: increment_mode
  destinationBytes :: dma_bytes
  sourceBytes :: dma_bytes
  ch_enable :: bool
  levelSensitive :: bool
  interruptEnable :: bool
  ch_abort :: bool
  transferMode :: transfer_mode
  m_tSize :: int
  m_tSourceAddress :: u32
  m_tDestinationAddress :: u32
  ch_wait :: channel_wait

definition DMAREQ :: u32 where "DMAREQ = 1"
definition DMAIE :: u32 where "DMAIE = 4"
definition DMAIFG :: u32 where "DMAIFG = 8"
definition DMAEN :: u32 where "DMAEN = 0x10"
definition DMALEVEL :: u32 where "DMALEVEL = 0x20"
definition DMASRCBYTE :: u32 where "DMASRCBYTE = 0x40"
definition DMADSTBYTE :: u32 where "DMADSTBYTE = 0x80"
definition DMASRCINCR :: u32 where "DMASRCINCR = 0x0300"
definition DMADSTINCR :: u32 where "DMADSTINCR = 0x0c00"
definition DMADT :: u32 where "DMADT = 0x7000"

text \<open>\<open>interruptFlag\<close> and \<open>interruptEnable\<close> have the values \<open>reset\<close> and the class give them.\<close>

definition DmaChannel_new :: "bool \<Rightarrow> dma_channel" where
  "DmaChannel_new flag0 =
     \<lparr>ch_pending = False, interruptFlag = flag0, ch_size = 0, destinationAddress = 0, sourceAddress = 0,
      destinationAutoIncrement = Unchanged, sourceAutoIncrement = Unchanged, destinationBytes = Bytes_Byte,
      sourceBytes = Bytes_Byte, ch_enable = False, levelSensitive = False, interruptEnable = False,
      ch_abort = False, transferMode = Single, m_tSize = 0, m_tSourceAddress = 0,
      m_tDestinationAddress = 0, ch_wait = Wait_trigger\<rparr>"

definition DmaChannel_reset :: "dma_channel \<Rightarrow> dma_channel" where
  "DmaChannel_reset c =
     c\<lparr>ch_size := 0, destinationAddress := 0, sourceAddress := 0, destinationAutoIncrement := Unchanged,
       sourceAutoIncrement := Unchanged, destinationBytes := Bytes_Word, sourceBytes := Bytes_Word,
       ch_enable := False, levelSensitive := False, ch_abort := False, transferMode := Single,
       interruptFlag := False\<rparr>"

definition unit_bytes :: "dma_bytes \<Rightarrow> nat" where
  "unit_bytes b = (if b = Bytes_Word then 2 else 1)"

definition step_address :: "increment_mode \<Rightarrow> dma_bytes \<Rightarrow> u32 \<Rightarrow> u32" where
  "step_address m b a =
     (case m of Unchanged \<Rightarrow> a | Decrement \<Rightarrow> a - of_nat (unit_bytes b) | Increment \<Rightarrow> a + of_nat (unit_bytes b))"

definition updateAddresses :: "dma_channel \<Rightarrow> dma_channel" where
  "updateAddresses c =
     c\<lparr>m_tDestinationAddress := step_address (destinationAutoIncrement c) (destinationBytes c) (m_tDestinationAddress c),
       m_tSourceAddress := step_address (sourceAutoIncrement c) (sourceBytes c) (m_tSourceAddress c)\<rparr>"

definition increment_of :: "u32 \<Rightarrow> increment_mode" where
  "increment_of v = (if v = 2 then Decrement else if v = 3 then Increment else Unchanged)"

definition mode_of :: "u32 \<Rightarrow> transfer_mode" where
  "mode_of v =
     (if v = 0 then Single else if v = 1 then Block else if v = 2 then BurstBlock else if v = 3 then BurstBlock
      else if v = 4 then RepeatedSingle else if v = 5 then RepeatedBlock else RepeatedBurstBlock)"

text \<open>The second component: the software trigger is notified.\<close>

definition updateConfig :: "u32 \<Rightarrow> dma_channel \<Rightarrow> dma_channel \<times> bool" where
  "updateConfig cfg c =
     (c\<lparr>interruptEnable := (cfg AND DMAIE \<noteq> 0), ch_enable := (cfg AND DMAEN \<noteq> 0),
        levelSensitive := (cfg AND DMALEVEL \<noteq> 0),
        sourceBytes := (if cfg AND DMASRCBYTE \<noteq> 0 then Bytes_Byte else Bytes_Word),
        destinationBytes := (if cfg AND DMADSTBYTE \<noteq> 0 then Bytes_Byte else Bytes_Word),
        sourceAutoIncrement := increment_of (drop_bit 8 (cfg AND DMASRCINCR)),
        destinationAutoIncrement := increment_of (drop_bit 10 (cfg AND DMADSTINCR)),
        transferMode := mode_of (drop_bit 12 (cfg AND DMADT))\<rparr>,
      cfg AND DMAREQ \<noteq> 0)"

definition load_addresses :: "dma_channel \<Rightarrow> dma_channel" where
  "load_addresses c =
     c\<lparr>m_tSourceAddress := sourceAddress c, m_tDestinationAddress := destinationAddress c\<rparr>"

text \<open>The end of a transfer; \<open>en\<close> is what becomes of the enable bit.\<close>

definition channel_finish :: "bool \<Rightarrow> dma_channel \<Rightarrow> dma_channel" where
  "channel_finish en c =
     c\<lparr>ch_size := m_tSize c, ch_enable := en, interruptFlag := True, ch_pending := False,
       ch_wait := Wait_trigger\<rparr>"

text \<open>
  From the trigger to the first wait. The loop of \<open>RepeatedBurstBlock\<close> over a block of size
  0 never waits and never ends.
\<close>

definition channel_start :: "dma_channel \<Rightarrow> dma_channel result" where
  "channel_start c =
     (if \<not> ch_enable c then Inr c
      else case transferMode c of
        Single \<Rightarrow>
          Inr ((if ch_size c = m_tSize c then load_addresses c else c)\<lparr>ch_pending := True, ch_wait := Wait_accept\<rparr>)
      | RepeatedSingle \<Rightarrow>
          Inr ((if ch_size c = m_tSize c then load_addresses c else c)\<lparr>ch_pending := True, ch_wait := Wait_accept\<rparr>)
      | RepeatedBurstBlock \<Rightarrow>
          check_r (m_tSize c \<noteq> 0) Endless_loop
            (Inr ((load_addresses c)\<lparr>ch_size := m_tSize c, ch_pending := True, ch_wait := Wait_accept\<rparr>))
      | m \<Rightarrow>
          (let c1 = (load_addresses c)\<lparr>ch_size := m_tSize c, ch_pending := True, ch_wait := Wait_accept\<rparr>
           in Inr (if ch_size c1 = 0 then channel_finish (m = RepeatedBlock \<and> ch_enable c1) c1 else c1)))"

text \<open>The end of the loop body in the burst modes, after the pause if there is one.\<close>

definition burst_continue :: "dma_channel \<Rightarrow> dma_channel result" where
  "burst_continue c =
     (let c1 = (if ch_enable c then c\<lparr>ch_size := ch_size c - 1\<rparr> else c)
      in if ch_enable c \<and> ch_size c1 \<noteq> 0 then Inr (c1\<lparr>ch_wait := Wait_accept\<rparr>)
         else if transferMode c = BurstBlock then Inr (channel_finish False c1)
         else check_r (m_tSize c \<noteq> 0) Endless_loop
           (Inr ((load_addresses c1)\<lparr>ch_size := m_tSize c1, interruptFlag := True, ch_wait := Wait_accept\<rparr>)))"

definition channel_accept :: "dma_channel \<Rightarrow> dma_channel result" where
  "channel_accept c =
     (let c1 = updateAddresses c in
      case transferMode c1 of
        Single \<Rightarrow>
          Inr ((if ch_size c1 > 1 then c1\<lparr>ch_size := ch_size c1 - 1\<rparr>
                else c1\<lparr>ch_size := m_tSize c1, interruptFlag := True, ch_enable := False\<rparr>)
             \<lparr>ch_pending := False, ch_wait := Wait_trigger\<rparr>)
      | RepeatedSingle \<Rightarrow>
          Inr ((if ch_size c1 > 1 then c1\<lparr>ch_size := ch_size c1 - 1\<rparr>
                else c1\<lparr>ch_size := m_tSize c1, interruptFlag := True\<rparr>)
             \<lparr>ch_pending := False, ch_wait := Wait_trigger\<rparr>)
      | Block \<Rightarrow>
          Inr (if \<not> ch_enable c1 then channel_finish False c1
               else (let c2 = c1\<lparr>ch_size := ch_size c1 - 1\<rparr>
                     in if ch_size c2 = 0 then channel_finish False c2 else c2))
      | RepeatedBlock \<Rightarrow>
          Inr (if \<not> ch_enable c1 \<or> ch_size c1 = 0 then channel_finish (ch_enable c1) c1 else c1)
      | _ \<Rightarrow>
          if ch_size c1 > 0 \<and> ch_size c1 < m_tSize c1 \<and> ch_size c1 mod 4 = 0
          then Inr (c1\<lparr>ch_wait := Wait_burst\<rparr>) else burst_continue c1)"

text \<open>What the accept signal does to the channel, which may be in its pause or just out of it.\<close>

definition channel_signal :: "bool \<Rightarrow> dma_channel \<Rightarrow> dma_channel result" where
  "channel_signal resumed c =
     (case ch_wait c of
        Wait_accept \<Rightarrow> channel_accept c
      | Wait_trigger \<Rightarrow> Inr c
      | Wait_burst \<Rightarrow>
          if resumed then
            bind_r (burst_continue c) (\<lambda>c1. if ch_wait c1 = Wait_accept then channel_accept c1 else Inr c1)
          else Inr c)"

section \<open>Trigger multiplexer\<close>

definition TriggerMux_process :: "bool \<Rightarrow> bool list \<Rightarrow> int \<Rightarrow> bool result" where
  "TriggerMux_process nreset ins select =
     (if \<not> nreset then Inr False
      else check_r (0 \<le> select \<and> nat select < length ins) Out_of_bounds (Inr (ins ! nat select)))"

section \<open>The controller\<close>

record dma =
  dma_regs :: register_file
  m_channels :: "dma_channel list"
  m_clearIfg :: bool
  m_channelTriggerSelect :: "int list"
  dma_irq :: bool
  stallCpu :: bool

definition NCHANNELS :: nat where "NCHANNELS = 6"
definition OFS_DMACTL0 :: nat where "OFS_DMACTL0 = 0"
definition OFS_DMACTL1 :: nat where "OFS_DMACTL1 = 2"
definition OFS_DMACTL2 :: nat where "OFS_DMACTL2 = 4"
definition OFS_DMACTL4 :: nat where "OFS_DMACTL4 = 8"
definition OFS_DMAIV :: nat where "OFS_DMAIV = 0xe"
definition OFS_DMA0CTL :: nat where "OFS_DMA0CTL = 0x10"
definition OFS_DMA1CTL :: nat where "OFS_DMA1CTL = 0x20"
definition OFS_DMA0SA :: nat where "OFS_DMA0SA = 0x12"
definition OFS_DMA0DA :: nat where "OFS_DMA0DA = 0x16"
definition OFS_DMA0SZ :: nat where "OFS_DMA0SZ = 0x1a"
definition OFS_DMA5SZ :: nat where "OFS_DMA5SZ = 0x6a"

lemmas dma_offsets = OFS_DMACTL0_def OFS_DMACTL1_def OFS_DMACTL2_def OFS_DMACTL4_def OFS_DMAIV_def
  OFS_DMA0CTL_def OFS_DMA1CTL_def OFS_DMA0SA_def OFS_DMA0DA_def OFS_DMA0SZ_def OFS_DMA5SZ_def

definition ch_ofs :: "nat \<Rightarrow> nat" where
  "ch_ofs i = i * (OFS_DMA1CTL - OFS_DMA0CTL)"

definition channel_regs :: "nat \<Rightarrow> register_file \<Rightarrow> register_file" where
  "channel_regs i rf =
     (let undef = 0xaaaa; add = (\<lambda>a rv rf. addRegister rf (a + ch_ofs i) rv READ_WRITE (- 1)) in
      add OFS_DMA0SZ undef (add (OFS_DMA0DA + 2) undef (add OFS_DMA0DA undef
        (add (OFS_DMA0SA + 2) undef (add OFS_DMA0SA undef (add OFS_DMA0CTL 0 rf))))))"

definition Dma_regs :: register_file where
  "Dma_regs = fold channel_regs [0..<NCHANNELS]
     (fold (\<lambda>a rf. addRegister rf a 0 READ_WRITE (- 1))
       [OFS_DMACTL0, OFS_DMACTL1, OFS_DMACTL2, OFS_DMACTL4, OFS_DMAIV] [])"

text \<open>\<open>m_clearIfg\<close> and \<open>interruptFlag\<close> are not initialised by the code.\<close>

definition Dma_new :: "bool \<Rightarrow> bool \<Rightarrow> dma" where
  "Dma_new clear0 flag0 =
     \<lparr>dma_regs = Dma_regs, m_channels = replicate NCHANNELS (DmaChannel_new flag0), m_clearIfg = clear0,
      m_channelTriggerSelect = replicate NCHANNELS 0, dma_irq = False, stallCpu = False\<rparr>"

definition Dma_reset :: "dma \<Rightarrow> dma" where
  "Dma_reset d = d\<lparr>dma_regs := rf_reset (dma_regs d), m_channels := map DmaChannel_reset (m_channels d)\<rparr>"

datatype dma_event = Software_trigger nat | Update_irq sc_time

definition setTrigger :: "nat \<Rightarrow> u32 \<Rightarrow> dma \<Rightarrow> dma result" where
  "setTrigger ch n d =
     check_r (n < 30) Aborted
       (Inr (d\<lparr>m_channelTriggerSelect := (m_channelTriggerSelect d)[ch := int (unat n)]\<rparr>))"

definition set_triggers :: "nat \<Rightarrow> u32 \<Rightarrow> dma \<Rightarrow> dma result" where
  "set_triggers ch val d =
     bind_r (setTrigger ch (val AND 0x1f) d) (setTrigger (ch + 1) (drop_bit 8 (val AND push_bit 8 0x1f)))"

definition configure_channel :: "nat \<Rightarrow> u32 \<Rightarrow> dma \<Rightarrow> dma \<times> dma_event list" where
  "configure_channel i val d =
     (let (c, trig) = updateConfig val (m_channels d ! i)
      in (d\<lparr>m_channels := (m_channels d)[i := c]\<rparr>, if trig then [Software_trigger i] else []))"

definition Dma_write_effect :: "nat \<Rightarrow> u32 \<Rightarrow> dma \<Rightarrow> (dma \<times> dma_event list) result" where
  "Dma_write_effect addr val d =
     (let quiet = (\<lambda>r. bind_r r (\<lambda>d1. Inr (d1, []))) in
      if addr = OFS_DMACTL0 then quiet (set_triggers 0 val d)
      else if addr = OFS_DMACTL1 then quiet (set_triggers 2 val d)
      else if addr = OFS_DMACTL2 then quiet (set_triggers 4 val d)
      else if addr \<in> (\<lambda>i. OFS_DMA0CTL + ch_ofs i) ` {..<6}
      then Inr (configure_channel ((addr - OFS_DMA0CTL) div (OFS_DMA1CTL - OFS_DMA0CTL)) val d)
      else Inr (d, []))"

definition channel_addresses :: "register_file \<Rightarrow> nat \<Rightarrow> dma_channel \<Rightarrow> dma_channel result" where
  "channel_addresses rf i c =
     bind_r (rf_read rf (OFS_DMA0SA + ch_ofs i)) (\<lambda>sa.
     bind_r (rf_read rf (OFS_DMA0DA + ch_ofs i)) (\<lambda>da.
     bind_r (rf_read rf (OFS_DMA0SZ + ch_ofs i)) (\<lambda>sz.
       let c1 = c\<lparr>sourceAddress := sa, destinationAddress := da, ch_size := sint sz\<rparr>
       in Inr (if ch_enable c1 then c1 else c1\<lparr>m_tSize := sint sz\<rparr>))))"

fun update_channels :: "register_file \<Rightarrow> nat \<Rightarrow> dma_channel list \<Rightarrow> dma_channel list result" where
  "update_channels rf i [] = Inr []"
| "update_channels rf i (c # cs) =
     bind_r (channel_addresses rf i c) (\<lambda>c1. bind_r (update_channels rf (i + 1) cs) (\<lambda>cs1. Inr (c1 # cs1)))"

definition updateChannelAddresses :: "dma \<Rightarrow> dma result" where
  "updateChannelAddresses d =
     bind_r (update_channels (dma_regs d) 0 (m_channels d)) (\<lambda>cs. Inr (d\<lparr>m_channels := cs\<rparr>))"

definition Dma_b_transport ::
  "target \<Rightarrow> sc_time \<Rightarrow> dma \<Rightarrow> payload \<Rightarrow> sc_time \<Rightarrow>
   (dma \<times> payload \<times> sc_time \<times> effect list \<times> dma_event list) result" where
  "Dma_b_transport t period d tp delay =
     bind_r (BusTarget_b_transport t period (dma_regs d) tp delay) (\<lambda>(rf, tp1, dl, fx).
     let addr = unat (address tp1) in
     bind_r (rf_read rf addr) (\<lambda>val.
     bind_r (if command tp1 = TLM_WRITE_COMMAND then Dma_write_effect addr val (d\<lparr>dma_regs := rf\<rparr>)
             else Inr (d\<lparr>dma_regs := rf\<rparr>, [])) (\<lambda>(d1, ev).
     if addr = OFS_DMAIV then
       bind_r (rf_write (dma_regs d1) OFS_DMAIV 0 True) (\<lambda>rf1.
         Inr (d1\<lparr>dma_regs := rf1, m_clearIfg := True\<rparr>, tp1, dl, fx, ev @ [Update_irq dl]))
     else if OFS_DMA0SA \<le> addr \<and> addr \<le> OFS_DMA5SZ then
       bind_r (updateChannelAddresses d1) (\<lambda>d2. Inr (d2, tp1, dl, fx, ev))
     else Inr (d1, tp1, dl, fx, ev))))"

text \<open>The flags of all channels, and the first channel whose flag is set.\<close>

fun show_flags :: "nat \<Rightarrow> dma_channel list \<Rightarrow> register_file \<Rightarrow> register_file result" where
  "show_flags i [] rf = Inr rf"
| "show_flags i (c # cs) rf =
     bind_r (if interruptFlag c then rf_setBitMask rf (OFS_DMA0CTL + ch_ofs i) DMAIFG False
             else rf_clearBitMask rf (OFS_DMA0CTL + ch_ofs i) DMAIFG False) (show_flags (i + 1) cs)"

fun first_index :: "('a \<Rightarrow> bool) \<Rightarrow> 'a list \<Rightarrow> nat option" where
  "first_index P [] = None"
| "first_index P (x # xs) = (if P x then Some 0 else map_option Suc (first_index P xs))"

text \<open>The second component: \<open>m_updateIrqEvent\<close> is notified again.\<close>

definition interruptUpdate :: "dma \<Rightarrow> (dma \<times> bool) result" where
  "interruptUpdate d =
     bind_r (show_flags 0 (m_channels d) (dma_regs d)) (\<lambda>rf.
     let d1 = d\<lparr>dma_regs := rf\<rparr> in
     case first_index interruptFlag (m_channels d) of
       Some i \<Rightarrow>
         if m_clearIfg d then
           Inr (d1\<lparr>m_channels := (m_channels d1)[i := (m_channels d1 ! i)\<lparr>interruptFlag := False\<rparr>]\<rparr>, True)
         else
           bind_r (rf_write rf OFS_DMAIV (push_bit (i + 1) 1) True) (\<lambda>rf1.
             Inr (d1\<lparr>dma_regs := rf1, m_clearIfg := False,
                     dma_irq := (if interruptEnable (m_channels d1 ! i) then True else dma_irq d)\<rparr>, False))
     | None \<Rightarrow>
         bind_r (rf_write rf OFS_DMAIV 0 True) (\<lambda>rf1.
           Inr (d1\<lparr>dma_regs := rf1, m_clearIfg := False, dma_irq := False\<rparr>, False)))"

section \<open>Transfers\<close>

text \<open>One unit over the bus \<open>bt\<close>; \<open>buf\<close> is what the controller's buffer held.\<close>

definition dma_unit ::
  "'b transport \<Rightarrow> nat \<Rightarrow> nat \<Rightarrow> bool \<Rightarrow> 'b \<times> dma \<times> u8 list \<Rightarrow> ('b \<times> dma \<times> u8 list) result" where
  "dma_unit bt i len resumed st =
     (case st of (b, d, buf) \<Rightarrow>
       let c = m_channels d ! i in
       bind_r (bt b \<lparr>command = TLM_READ_COMMAND, address = scast (m_tSourceAddress c),
                     data = take len buf, response_ok = False\<rparr> 0) (\<lambda>(b1, p1, _, _).
       bind_r (bt b1 \<lparr>command = TLM_WRITE_COMMAND, address = scast (m_tDestinationAddress c),
                      data = data p1, response_ok = response_ok p1\<rparr> 0) (\<lambda>(b2, p2, _, _).
       bind_r (channel_signal resumed c) (\<lambda>c1.
       bind_r (rf_write (dma_regs d) (OFS_DMA0SZ + ch_ofs i) (of_int (ch_size c1)) False) (\<lambda>rf.
         Inr (b2, d\<lparr>m_channels := (m_channels d)[i := c1], dma_regs := rf\<rparr>, data p2 @ drop len buf))))))"

text \<open>\<open>while (ch.pending.read())\<close>; \<open>None\<close>: the schedule ended first.\<close>

fun dma_loop ::
  "'b transport \<Rightarrow> nat \<Rightarrow> nat \<Rightarrow> bool list \<Rightarrow> 'b \<times> dma \<times> u8 list \<Rightarrow> ('b \<times> dma \<times> u8 list) result option" where
  "dma_loop bt i len sched st =
     (if \<not> ch_pending (m_channels (fst (snd st)) ! i) then Some (Inr st)
      else case sched of [] \<Rightarrow> None
        | r # rs \<Rightarrow> (case dma_unit bt i len r st of Inl e \<Rightarrow> Some (Inl e) | Inr st1 \<Rightarrow> dma_loop bt i len rs st1))"

declare dma_loop.simps [simp del]

text \<open>One iteration of \<open>Dma::process\<close>; the last component: \<open>m_updateIrqEvent\<close> is notified.\<close>

definition dma_serve ::
  "'b transport \<Rightarrow> bool list \<Rightarrow> 'b \<times> dma \<times> u8 list \<Rightarrow> (('b \<times> dma \<times> u8 list) \<times> bool) result option" where
  "dma_serve bt sched st =
     (case st of (b, d, buf) \<Rightarrow>
       case first_index ch_pending (m_channels d) of
         None \<Rightarrow> Some (Inr (st, False))
       | Some i \<Rightarrow>
         let len = unit_bytes (sourceBytes (m_channels d ! i)) in
         case rf_clearBitMask (dma_regs d) (OFS_DMA0CTL + ch_ofs i) DMAREQ False of
           Inl e \<Rightarrow> Some (Inl e)
         | Inr rf \<Rightarrow>
           map_option (\<lambda>r. bind_r r (\<lambda>(b1, d1, buf1).
             let c = m_channels d1 ! i in
             bind_r (if \<not> ch_enable c
                     then rf_clearBitMask (dma_regs d1) (OFS_DMA0CTL + ch_ofs i) DMAEN False
                     else Inr (dma_regs d1)) (\<lambda>rf1.
               Inr ((b1, d1\<lparr>dma_regs := rf1, stallCpu := False\<rparr>, buf1), interruptFlag c \<and> interruptEnable c))))
             (dma_loop bt i len sched (b, d\<lparr>dma_regs := rf, stallCpu := True\<rparr>, buf)))"

section \<open>A block transfer\<close>

definition bus_addr :: "u32 \<Rightarrow> nat" where
  "bus_addr a = unat (scast a :: u64)"

text \<open>What \<open>n\<close> units do to the memory.\<close>

fun dma_memory :: "nat \<Rightarrow> nat \<Rightarrow> dma_channel \<Rightarrow> (nat \<Rightarrow> u8) \<Rightarrow> (nat \<Rightarrow> u8)" where
  "dma_memory len 0 c m = m"
| "dma_memory len (Suc n) c m =
     dma_memory len n (updateAddresses c)
       (put_bytes m (bus_addr (m_tDestinationAddress c)) (get_bytes m (bus_addr (m_tSourceAddress c)) len))"

fun dma_served :: "(nat \<Rightarrow> nat \<Rightarrow> bool) \<Rightarrow> nat \<Rightarrow> nat \<Rightarrow> dma_channel \<Rightarrow> bool" where
  "dma_served serves len 0 c = True"
| "dma_served serves len (Suc n) c =
     (serves (bus_addr (m_tSourceAddress c)) len \<and> serves (bus_addr (m_tDestinationAddress c)) len
      \<and> dma_served serves len n (updateAddresses c))"

definition block_running :: "nat \<Rightarrow> dma_channel \<Rightarrow> bool" where
  "block_running n c \<longleftrightarrow> transferMode c = Block \<and> ch_enable c \<and> ch_wait c = Wait_accept
     \<and> ch_pending c \<and> ch_size c = int n \<and> 0 < n"

lemma updateAddresses_fields [simp]:
  "transferMode (updateAddresses c) = transferMode c" "ch_enable (updateAddresses c) = ch_enable c"
  "ch_wait (updateAddresses c) = ch_wait c" "ch_pending (updateAddresses c) = ch_pending c"
  "ch_size (updateAddresses c) = ch_size c" "m_tSize (updateAddresses c) = m_tSize c"
  "interruptEnable (updateAddresses c) = interruptEnable c" "sourceBytes (updateAddresses c) = sourceBytes c"
  by (simp_all add: updateAddresses_def)

lemma dma_memory_size [simp]: "dma_memory len n (c\<lparr>ch_size := k\<rparr>) m = dma_memory len n c m"
proof (induction n arbitrary: c m)
  case (Suc n)
  have "updateAddresses (c\<lparr>ch_size := k\<rparr>) = (updateAddresses c)\<lparr>ch_size := k\<rparr>"
    by (simp add: updateAddresses_def)
  then show ?case using Suc.IH by simp
qed simp

lemma dma_served_size [simp]: "dma_served sv len n (c\<lparr>ch_size := k\<rparr>) = dma_served sv len n c"
proof (induction n arbitrary: c)
  case (Suc n)
  have "updateAddresses (c\<lparr>ch_size := k\<rparr>) = (updateAddresses c)\<lparr>ch_size := k\<rparr>"
    by (simp add: updateAddresses_def)
  then show ?case using Suc.IH by simp
qed simp

lemma block_accept:
  assumes "block_running n c"
  shows "channel_signal r c = Inr (if n = 1 then channel_finish False ((updateAddresses c)\<lparr>ch_size := 0\<rparr>)
                                   else (updateAddresses c)\<lparr>ch_size := int (n - 1)\<rparr>)"
  using assms by (auto simp: block_running_def channel_signal_def channel_accept_def Let_def of_nat_diff)

lemma bus_addr_small:
  assumes "unat a < 2 ^ 31"
  shows "bus_addr a = unat a"
proof -
  have "\<not> bit (unat a) 31" using assms by (simp add: bit_iff_odd)
  then have "\<not> bit a 31" by (simp add: bit_simps)
  moreover have "n = 31" if "31 \<le> n" "bit a n" for n
    using that(1) bit_imp_le_length [OF that(2)] by simp
  ultimately have "(scast a :: u64) = ucast a"
    by (intro bit_word_eqI) (auto simp: bit_simps min_def)
  then show ?thesis by (simp add: bus_addr_def unat_ucast_u32_u64)
qed

text \<open>A forward copy of \<open>n\<close> units of \<open>len\<close> bytes from \<open>S\<close> to \<open>D\<close>.\<close>

definition forward_copy :: "nat \<Rightarrow> nat \<Rightarrow> nat \<Rightarrow> nat \<Rightarrow> dma_channel \<Rightarrow> bool" where
  "forward_copy len n S D c \<longleftrightarrow> sourceAutoIncrement c = Increment \<and> destinationAutoIncrement c = Increment
     \<and> unit_bytes (sourceBytes c) = len \<and> unit_bytes (destinationBytes c) = len
     \<and> unat (m_tSourceAddress c) = S \<and> unat (m_tDestinationAddress c) = D
     \<and> S + n * len < 2 ^ 31 \<and> D + n * len < 2 ^ 31"

lemma forward_copy_step:
  assumes "forward_copy len (Suc n) S D c"
  shows "forward_copy len n (S + len) (D + len) (updateAddresses c)"
proof -
  have "unat (a + of_nat k) = unat a + k" if "unat a + k < 2 ^ 31" for a :: u32 and k
    using that by (subst unat_word_ariths) (simp add: unat_of_nat)
  then show ?thesis
    using assms by (auto simp: forward_copy_def updateAddresses_def step_address_def)
qed

lemma forward_copy_memory:
  assumes "forward_copy len n S D c" and "S + n * len \<le> D \<or> D + n * len \<le> S"
  shows "dma_memory len n c m a = (if D \<le> a \<and> a < D + n * len then m (S + (a - D)) else m a)"
  using assms
proof (induction n arbitrary: S D c m)
  case (Suc n)
  have S: "bus_addr (m_tSourceAddress c) = S" and D: "bus_addr (m_tDestinationAddress c) = D"
    using Suc.prems(1) by (auto simp: forward_copy_def bus_addr_small)
  let ?m = "put_bytes m D (get_bytes m S len)"
  have put: "?m x = (if D \<le> x \<and> x < D + len then m (S + (x - D)) else m x)" for x
    by (auto simp: put_bytes_def get_bytes_def)
  have "dma_memory len (Suc n) c m a = dma_memory len n (updateAddresses c) ?m a"
    by (simp add: S D)
  also have "\<dots> = (if D + len \<le> a \<and> a < D + len + n * len then ?m (S + len + (a - (D + len))) else ?m a)"
    using Suc.prems(2) by (intro Suc.IH forward_copy_step [OF Suc.prems(1)]) auto
  also have "\<dots> = (if D \<le> a \<and> a < D + Suc n * len then m (S + (a - D)) else m a)"
    unfolding put using Suc.prems(2) by auto
  finally show ?case .
qed auto

lemma forward_copy_served:
  assumes "forward_copy len n S D c" and "\<forall>k<n. sv (S + k * len) len \<and> sv (D + k * len) len"
  shows "dma_served sv len n c"
  using assms
proof (induction n arbitrary: S D c)
  case (Suc n)
  have S: "bus_addr (m_tSourceAddress c) = S" and D: "bus_addr (m_tDestinationAddress c) = D"
    using Suc.prems(1) by (auto simp: forward_copy_def bus_addr_small)
  have "\<forall>k<n. sv (S + len + k * len) len \<and> sv (D + len + k * len) len"
    using Suc.prems(2) by (auto simp: add.assoc dest: spec [of _ "Suc _"])
  then show ?case
    using Suc.IH [OF forward_copy_step [OF Suc.prems(1)]] Suc.prems(2) [rule_format, of 0]
    by (simp add: S D)
qed simp

lemma first_index_Some:
  "i < length xs \<Longrightarrow> P (xs ! i) \<Longrightarrow> \<forall>j<i. \<not> P (xs ! j) \<Longrightarrow> first_index P xs = Some i"
proof (induction xs arbitrary: i)
  case (Cons x xs)
  then show ?case by (cases i) (auto simp: All_less_Suc2)
qed simp

context byte_device
begin

lemma dma_unit_block:
  assumes "inv b" and "block_running n (m_channels d ! i)"
    and "rw (dma_regs d) (OFS_DMA0SZ + ch_ofs i)" and "len \<le> length buf" and "0 < len"
    and "serves (bus_addr (m_tSourceAddress (m_channels d ! i))) len"
    and "serves (bus_addr (m_tDestinationAddress (m_channels d ! i))) len"
  shows "\<exists>b' buf' c'. channel_signal r (m_channels d ! i) = Inr c' \<and> inv b' \<and> length buf' = length buf
    \<and> view b' = put_bytes (view b) (bus_addr (m_tDestinationAddress (m_channels d ! i)))
        (get_bytes (view b) (bus_addr (m_tSourceAddress (m_channels d ! i))) len)
    \<and> dma_unit transport i len r (b, d, buf) = Inr (b', d\<lparr>m_channels := (m_channels d)[i := c'],
        dma_regs := put_reg (dma_regs d) (OFS_DMA0SZ + ch_ofs i) (of_int (ch_size c')) False\<rparr>, buf')"
proof -
  let ?c = "m_channels d ! i"
  let ?rd = "\<lparr>command = TLM_READ_COMMAND, address = scast (m_tSourceAddress ?c), data = take len buf, response_ok = False\<rparr>"
  obtain c' where c': "channel_signal r ?c = Inr c'" using block_accept [OF assms(2)] by auto
  obtain b1 p1 d1 f1 where rd: "transport b ?rd 0 = Inr (b1, p1, d1, f1)" "inv b1" "view b1 = view b"
      "data p1 = get_bytes (view b) (bus_addr (m_tSourceAddress ?c)) len" "response_ok p1"
    using read_law [OF assms(1), of ?rd 0] assms(4,6) by (auto simp: bus_addr_def)
  let ?wr = "\<lparr>command = TLM_WRITE_COMMAND, address = scast (m_tDestinationAddress ?c), data = data p1,
      response_ok = response_ok p1\<rparr>"
  obtain b2 p2 d2 f2 where wr: "transport b1 ?wr 0 = Inr (b2, p2, d2, f2)" "inv b2" "data p2 = data p1"
      "view b2 = put_bytes (view b) (bus_addr (m_tDestinationAddress ?c)) (data p1)"
    using write_law [OF rd(2), of ?wr 0] assms(7) rd(3,4) by (auto simp: bus_addr_def)
  show ?thesis
    using rd wr c' assms(3,4) by (simp add: dma_unit_def Let_def)
qed

lemma dma_loop_block:
  assumes "inv b" and "i < length (m_channels d)" and "block_running n (m_channels d ! i)"
    and "rw (dma_regs d) (OFS_DMA0SZ + ch_ofs i)" and "len \<le> length buf" and "0 < len"
    and "dma_served serves len n (m_channels d ! i)" and "n \<le> length sched"
  shows "\<exists>b' d' buf'. dma_loop transport i len sched (b, d, buf) = Some (Inr (b', d', buf')) \<and> inv b'
    \<and> view b' = dma_memory len n (m_channels d ! i) (view b)
    \<and> (\<exists>c'. m_channels d' = (m_channels d)[i := channel_finish False c'] \<and> m_tSize c' = m_tSize (m_channels d ! i)
          \<and> interruptEnable c' = interruptEnable (m_channels d ! i))
    \<and> (\<forall>a. rw (dma_regs d') a = rw (dma_regs d) a) \<and> (\<forall>a. mask_of (dma_regs d') a = mask_of (dma_regs d) a)
    \<and> (\<forall>a. a \<noteq> OFS_DMA0SZ + ch_ofs i \<longrightarrow> reg_value (dma_regs d') a = reg_value (dma_regs d) a)"
  using assms
proof (induction n arbitrary: b d buf sched)
  case (Suc n)
  let ?c = "m_channels d ! i" and ?a = "OFS_DMA0SZ + ch_ofs i"
  obtain r rs where sched: "sched = r # rs" "n \<le> length rs" using Suc.prems(8) by (cases sched) auto
  obtain b1 buf1 c1 where st: "channel_signal r ?c = Inr c1" "inv b1" "length buf1 = length buf"
      "view b1 = put_bytes (view b) (bus_addr (m_tDestinationAddress ?c))
        (get_bytes (view b) (bus_addr (m_tSourceAddress ?c)) len)"
      "dma_unit transport i len r (b, d, buf) = Inr (b1, d\<lparr>m_channels := (m_channels d)[i := c1],
        dma_regs := put_reg (dma_regs d) ?a (of_int (ch_size c1)) False\<rparr>, buf1)"
    using dma_unit_block [OF Suc.prems(1,3-6), of r] Suc.prems(7) by auto
  let ?d = "d\<lparr>m_channels := (m_channels d)[i := c1], dma_regs := put_reg (dma_regs d) ?a (of_int (ch_size c1)) False\<rparr>"
  have loop: "dma_loop transport i len sched (b, d, buf) = dma_loop transport i len rs (b1, ?d, buf1)"
    using Suc.prems(3) st(5) by (subst dma_loop.simps) (simp add: sched block_running_def)
  show ?case
  proof (cases "n = 0")
    case True
    then have c1: "c1 = channel_finish False ((updateAddresses ?c)\<lparr>ch_size := 0\<rparr>)"
      using st(1) block_accept [OF Suc.prems(3)] by simp
    have "dma_loop transport i len rs (b1, ?d, buf1) = Some (Inr (b1, ?d, buf1))"
      using Suc.prems(2) by (subst dma_loop.simps) (simp add: c1 channel_finish_def)
    then show ?thesis
      using loop st(2,4) True c1
      by (intro exI [of _ b1] exI [of _ ?d] exI [of _ buf1]) (auto intro!: exI [of _ "(updateAddresses ?c)\<lparr>ch_size := 0\<rparr>"])
  next
    case False
    then have c1: "c1 = (updateAddresses ?c)\<lparr>ch_size := int n\<rparr>"
      using st(1) block_accept [OF Suc.prems(3)] by simp
    have ch: "m_channels ?d ! i = c1" using Suc.prems(2) by simp
    have "block_running n (m_channels ?d ! i)"
      using Suc.prems(3) False unfolding ch by (simp add: c1 block_running_def)
    moreover have "dma_served serves len n (m_channels ?d ! i)"
      using Suc.prems(7) unfolding ch by (simp add: c1)
    moreover have "dma_memory len n (m_channels ?d ! i) (view b1) = dma_memory len (Suc n) ?c (view b)"
      unfolding ch by (simp add: c1 st(4))
    moreover have "m_tSize c1 = m_tSize ?c" "interruptEnable c1 = interruptEnable ?c" by (simp_all add: c1)
    ultimately show ?thesis
      unfolding loop using Suc.IH [OF st(2), of ?d buf1 rs] Suc.prems(2,4-6) st(3) sched(2) ch by simp
  qed
qed (simp add: block_running_def)

lemma dma_serve_block:
  fixes d :: dma and i :: nat
  defines "c \<equiv> m_channels d ! i"
  assumes "inv b" and "i < length (m_channels d)" and "\<forall>j<i. \<not> ch_pending (m_channels d ! j)"
    and "block_running n c" and "len = unit_bytes (sourceBytes c)" and "length buf = 2"
    and "rw (dma_regs d) (OFS_DMA0CTL + ch_ofs i)" and "rw (dma_regs d) (OFS_DMA0SZ + ch_ofs i)"
    and "mask_of (dma_regs d) (OFS_DMA0CTL + ch_ofs i) = - 1"
    and "dma_served serves len n c" and "n \<le> length sched"
  shows "\<exists>b' d' buf'. dma_serve transport sched (b, d, buf) = Some (Inr ((b', d', buf'), interruptEnable c))
    \<and> inv b' \<and> view b' = dma_memory len n c (view b) \<and> \<not> stallCpu d'
    \<and> \<not> ch_pending (m_channels d' ! i) \<and> \<not> ch_enable (m_channels d' ! i) \<and> interruptFlag (m_channels d' ! i)
    \<and> ch_size (m_channels d' ! i) = m_tSize c
    \<and> reg_value (dma_regs d') (OFS_DMA0CTL + ch_ofs i) AND DMAREQ = 0
    \<and> reg_value (dma_regs d') (OFS_DMA0CTL + ch_ofs i) AND DMAEN = 0"
proof -
  let ?ctl = "OFS_DMA0CTL + ch_ofs i" and ?sz = "OFS_DMA0SZ + ch_ofs i"
  let ?d = "d\<lparr>dma_regs := put_reg (dma_regs d) ?ctl (reg_value (dma_regs d) ?ctl AND NOT DMAREQ) False, stallCpu := True\<rparr>"
  have first: "first_index ch_pending (m_channels d) = Some i"
    using assms(3-5) by (intro first_index_Some) (auto simp: block_running_def c_def)
  have len: "0 < len" "len \<le> 2" using assms(6) by (auto simp: unit_bytes_def)
  obtain b' d' buf' c' where loop: "dma_loop transport i len sched (b, ?d, buf) = Some (Inr (b', d', buf'))"
      "inv b'" "view b' = dma_memory len n c (view b)" "m_channels d' = (m_channels d)[i := channel_finish False c']"
      "m_tSize c' = m_tSize c" "interruptEnable c' = interruptEnable c"
      "\<forall>a. rw (dma_regs d') a = rw (dma_regs ?d) a" "\<forall>a. mask_of (dma_regs d') a = mask_of (dma_regs ?d) a"
      "\<forall>a. a \<noteq> ?sz \<longrightarrow> reg_value (dma_regs d') a = reg_value (dma_regs ?d) a"
    using dma_loop_block [of b i ?d n len buf sched] assms(2-12) len by (auto simp: c_def)
  have ch: "m_channels d' ! i = channel_finish False c'" using loop(4) assms(3) by simp
  have "?ctl \<noteq> ?sz" by (simp add: dma_offsets)
  then have ctl: "reg_value (dma_regs d') ?ctl = reg_value (dma_regs d) ?ctl AND NOT DMAREQ"
    using loop(9) assms(8,10) by simp
  have bits: "(v AND NOT DMAREQ AND NOT DMAEN) AND DMAREQ = 0" "(v AND NOT DMAREQ AND NOT DMAEN) AND DMAEN = 0" for v :: u32
    by (simp_all add: and.assoc and.left_commute [of _ DMAREQ] and.commute [of _ DMAREQ] and.commute [of _ DMAEN] flip: and.assoc)
      (auto simp: bit_eq_iff bit_simps)
  let ?d2 = "d'\<lparr>dma_regs := put_reg (dma_regs d') ?ctl (reg_value (dma_regs d') ?ctl AND NOT DMAEN) False, stallCpu := False\<rparr>"
  have "dma_serve transport sched (b, d, buf) = Some (Inr ((b', ?d2, buf'), interruptEnable c))"
    using loop(1,6,7) assms(8) ch first
    by (simp add: dma_serve_def assms(6) c_def channel_finish_def)
  moreover have "reg_value (dma_regs ?d2) ?ctl = reg_value (dma_regs d) ?ctl AND NOT DMAREQ AND NOT DMAEN"
    using loop(7,8) assms(8,10) by (simp add: ctl and.assoc)
  ultimately show ?thesis
    using loop(2,3,5) ch bits by (intro exI [of _ b'] exI [of _ ?d2] exI [of _ buf']) (simp add: channel_finish_def)
qed

end

section \<open>Properties\<close>

definition dma_shape :: "register_file \<Rightarrow> bool" where
  "dma_shape rf \<longleftrightarrow> (\<forall>i<6. rw rf (OFS_DMA0CTL + ch_ofs i) \<and> rw rf (OFS_DMA0SZ + ch_ofs i)
     \<and> mask_of rf (OFS_DMA0CTL + ch_ofs i) = - 1)"

lemma dma_shape_new: "dma_shape Dma_regs"
proof -
  have "list_all (\<lambda>i. rw Dma_regs (OFS_DMA0CTL + ch_ofs i) \<and> rw Dma_regs (OFS_DMA0SZ + ch_ofs i)
     \<and> mask_of Dma_regs (OFS_DMA0CTL + ch_ofs i) = - 1) [0..<6]"
    by (simp add: Dma_regs_def NCHANNELS_def upt_rec dma_offsets ch_ofs_def channel_regs_def addRegister_def
        Let_def rw_def mask_of_def reg_at_def mk_register_def)
  then show ?thesis by (simp add: dma_shape_def list_all_iff)
qed

lemma block_start:
  assumes "transferMode c = Block" and "ch_enable c" and "m_tSize c = int n" and "0 < n"
  shows "\<exists>c1. channel_start c = Inr c1 \<and> block_running n c1 \<and> sourceBytes c1 = sourceBytes c
    \<and> interruptEnable c1 = interruptEnable c \<and> m_tSize c1 = m_tSize c
    \<and> (sourceAutoIncrement c = Increment \<and> destinationAutoIncrement c = Increment
        \<and> sourceBytes c = destinationBytes c \<and> len = unit_bytes (sourceBytes c)
        \<and> S = unat (sourceAddress c) \<and> D = unat (destinationAddress c) \<and> S + n * len < 2 ^ 31 \<and> D + n * len < 2 ^ 31
       \<longrightarrow> forward_copy len n S D c1)"
  using assms by (auto simp: channel_start_def block_running_def forward_copy_def load_addresses_def)

text \<open>C25: a block transfer copies the block. A channel in block mode, enabled, with both
  addresses incrementing by the same unit, is triggered; the controller then serves it
  over the memory system of the board with exactly its count of units: the destination
  holds what the source held, no other byte of memory changes, the channel is done and
  disabled, its request and enable bits are clear, its size register is restored, and
  the interrupt update is requested if the channel's interrupt is enabled.\<close>

theorem dma_block_copies:
  fixes d :: dma and i n len :: nat and pt and period and ws
  defines "c \<equiv> m_channels d ! i" and "S \<equiv> unat (sourceAddress (m_channels d ! i))"
    and "D \<equiv> unat (destinationAddress (m_channels d ! i))"
    and "bt \<equiv> Bus_b_transport msp430 (slave_transport pt (Cache_cfg 8 2 2 ''WriteAround'') period ws)"
    and "view \<equiv> bus_view msp430_routing is_memory (slave_view (Cache_cfg 8 2 2 ''WriteAround''))"
  assumes "bus_inv msp430_routing is_memory (slave_inv (Cache_cfg 8 2 2 ''WriteAround'')) b"
    and "i < 6" and "length (m_channels d) = 6" and "\<forall>j<i. \<not> ch_pending (m_channels d ! j)"
    and "dma_shape (dma_regs d)" and "length buf = 2" and "n \<le> length sched"
    and "transferMode c = Block" and "ch_enable c" and "m_tSize c = int n" and "0 < n"
    and "sourceAutoIncrement c = Increment" and "destinationAutoIncrement c = Increment"
    and "sourceBytes c = destinationBytes c" and "len = unit_bytes (sourceBytes c)"
    and "S + n * len < 2 ^ 31" and "D + n * len < 2 ^ 31" and "S + n * len \<le> D \<or> D + n * len \<le> S"
    and "\<forall>k<n. bus_serves (word_size msp430) msp430_routing is_memory (S + k * len) len
              \<and> bus_serves (word_size msp430) msp430_routing is_memory (D + k * len) len"
  shows "\<exists>c1 b' d' buf'. channel_start c = Inr c1
    \<and> dma_serve bt sched (b, d\<lparr>m_channels := (m_channels d)[i := c1]\<rparr>, buf)
        = Some (Inr ((b', d', buf'), interruptEnable c))
    \<and> (\<forall>a. view b' a = (if D \<le> a \<and> a < D + n * len then view b (S + (a - D)) else view b a))
    \<and> \<not> ch_pending (m_channels d' ! i) \<and> \<not> ch_enable (m_channels d' ! i) \<and> interruptFlag (m_channels d' ! i)
    \<and> ch_size (m_channels d' ! i) = int n \<and> \<not> stallCpu d'
    \<and> reg_value (dma_regs d') (OFS_DMA0CTL + ch_ofs i) AND DMAREQ = 0
    \<and> reg_value (dma_regs d') (OFS_DMA0CTL + ch_ofs i) AND DMAEN = 0"
proof -
  obtain c1 where c1: "channel_start c = Inr c1" "block_running n c1" "sourceBytes c1 = sourceBytes c"
      "interruptEnable c1 = interruptEnable c" "m_tSize c1 = m_tSize c" "forward_copy len n S D c1"
    using block_start [OF assms(13-16), of len S D] assms(17-22) by (auto simp: S_def D_def c_def)
  let ?d = "d\<lparr>m_channels := (m_channels d)[i := c1]\<rparr>"
  have ch: "m_channels ?d ! i = c1" using assms(7,8) by simp
  have low: "\<forall>j<i. \<not> ch_pending (m_channels ?d ! j)" using assms(9) by simp
  have regs: "rw (dma_regs ?d) (OFS_DMA0CTL + ch_ofs i)" "rw (dma_regs ?d) (OFS_DMA0SZ + ch_ofs i)"
      "mask_of (dma_regs ?d) (OFS_DMA0CTL + ch_ofs i) = - 1"
    using assms(7,10) by (simp_all add: dma_shape_def)
  have served: "dma_served (bus_serves (word_size msp430) msp430_routing is_memory) len n c1"
    using forward_copy_served [OF c1(6), of "bus_serves (word_size msp430) msp430_routing is_memory"] assms(24) by blast
  have "len = unit_bytes (sourceBytes c1)" using assms(20) c1(3) by simp
  then obtain b' d' buf' where r: "dma_serve bt sched (b, ?d, buf) = Some (Inr ((b', d', buf'), interruptEnable c1))"
      "view b' = dma_memory len n c1 (view b)" "\<not> stallCpu d'"
      "\<not> ch_pending (m_channels d' ! i) \<and> \<not> ch_enable (m_channels d' ! i) \<and> interruptFlag (m_channels d' ! i)"
      "ch_size (m_channels d' ! i) = m_tSize c1"
      "reg_value (dma_regs d') (OFS_DMA0CTL + ch_ofs i) AND DMAREQ = 0"
      "reg_value (dma_regs d') (OFS_DMA0CTL + ch_ofs i) AND DMAEN = 0"
    using msp430_bus.bus.dma_serve_block [of b i ?d n len buf sched pt period ws] assms(6-8,11,12) low regs served c1(2)
    unfolding ch bt_def view_def by auto
  then show ?thesis
    using c1(1,4,5) assms(15) forward_copy_memory [OF c1(6) assms(23)]
    by (intro exI [of _ c1] exI [of _ b'] exI [of _ d'] exI [of _ buf']) auto
qed

definition dma_example :: dma where
  "dma_example = (Dma_new False False)\<lparr>m_channels := (DmaChannel_new False)\<lparr>ch_enable := True, transferMode := Block,
     sourceAutoIncrement := Increment, destinationAutoIncrement := Increment, sourceBytes := Bytes_Word,
     destinationBytes := Bytes_Word, sourceAddress := 0x1c00, destinationAddress := 0x2000, m_tSize := 2\<rparr>
     # replicate 5 (DmaChannel_new False)\<rparr>"

theorem dma_block_copies_witness:
  "\<exists>c b b' d' buf'. channel_start (m_channels dma_example ! 0) = Inr c
     \<and> dma_serve (Bus_b_transport msp430 (slave_transport (\<lambda>_ (_ :: unit) _ _. Inl Report_fatal) (Cache_cfg 8 2 2 ''WriteAround'') 1 0))
         [True, True] (b, dma_example\<lparr>m_channels := (m_channels dma_example)[0 := c]\<rparr>, [0, 0])
       = Some (Inr ((b', d', buf'), False))
     \<and> (\<forall>k<4. bus_view msp430_routing is_memory (slave_view (Cache_cfg 8 2 2 ''WriteAround'')) b' (0x2000 + k)
           = bus_view msp430_routing is_memory (slave_view (Cache_cfg 8 2 2 ''WriteAround'')) b (0x1c00 + k))"
proof -
  obtain c where c: "Cache_new (Cache_cfg 8 2 2 ''WriteAround'') ''LRU'' = Inr c"
    by (simp add: Cache_new_def new_policy_def)
  let ?b = "msp430_memory_init (\<lambda>_. ()) c"
  have inv: "bus_inv msp430_routing is_memory (slave_inv (Cache_cfg 8 2 2 ''WriteAround'')) ?b"
    by (rule msp430_init_inv [OF c]) simp_all
  have port: "port_size msp430_routing 16 = 0x2000" "is_memory 16" "16 < length msp430_routing"
      "unat (fst (msp430_routing ! 16)) = 0x1c00"
    by (simp_all add: port_size_def msp430_routing_eq is_memory_def port_id_def msp430_slaves_eq memory_size_def)
  have srv: "bus_serves (word_size msp430) msp430_routing is_memory a 2" if "0x1c00 \<le> a" "a + 2 \<le> 0x3c00" "even a" for a
    unfolding bus_serves_def using port that by (intro exI [of _ 16]) (simp add: aligned_access_def msp430_def)
  let ?c = "m_channels dma_example ! 0"
  have ch: "transferMode ?c = Block" "ch_enable ?c" "m_tSize ?c = int 2" "sourceAutoIncrement ?c = Increment"
      "destinationAutoIncrement ?c = Increment" "sourceBytes ?c = destinationBytes ?c" "unit_bytes (sourceBytes ?c) = 2"
      "unat (sourceAddress ?c) = 0x1c00" "unat (destinationAddress ?c) = 0x2000" "\<not> interruptEnable ?c"
    by (simp_all add: dma_example_def unit_bytes_def DmaChannel_new_def)
  have d: "length (m_channels dma_example) = 6" "dma_shape (dma_regs dma_example)"
    by (simp_all add: dma_example_def Dma_new_def dma_shape_new)
  have served: "\<forall>k<2. bus_serves (word_size msp430) msp430_routing is_memory (unat (sourceAddress ?c) + k * 2) 2
      \<and> bus_serves (word_size msp430) msp430_routing is_memory (unat (destinationAddress ?c) + k * 2) 2"
    unfolding ch by (auto intro!: srv)
  obtain c1 b' d' buf' where r: "channel_start ?c = Inr c1"
      "dma_serve (Bus_b_transport msp430 (slave_transport (\<lambda>_ (_ :: unit) _ _. Inl Report_fatal) (Cache_cfg 8 2 2 ''WriteAround'') 1 0))
         [True, True] (?b, dma_example\<lparr>m_channels := (m_channels dma_example)[0 := c1]\<rparr>, [0, 0])
       = Some (Inr ((b', d', buf'), interruptEnable ?c))"
      "\<forall>a. bus_view msp430_routing is_memory (slave_view (Cache_cfg 8 2 2 ''WriteAround'')) b' a
        = (if unat (destinationAddress ?c) \<le> a \<and> a < unat (destinationAddress ?c) + 2 * 2
           then bus_view msp430_routing is_memory (slave_view (Cache_cfg 8 2 2 ''WriteAround'')) ?b
                  (unat (sourceAddress ?c) + (a - unat (destinationAddress ?c)))
           else bus_view msp430_routing is_memory (slave_view (Cache_cfg 8 2 2 ''WriteAround'')) ?b a)"
    using dma_block_copies [OF inv _ d(1) _ d(2) _ _ ch(1-3) _ ch(4-6) ch(7) [symmetric] _ _ _ served,
        of "[0, 0]" "[True, True]" "\<lambda>_ (_ :: unit) _ _. Inl Report_fatal" 1 0]
    unfolding ch(8,9) by auto
  have "\<forall>k<4. bus_view msp430_routing is_memory (slave_view (Cache_cfg 8 2 2 ''WriteAround'')) b' (0x2000 + k)
      = bus_view msp430_routing is_memory (slave_view (Cache_cfg 8 2 2 ''WriteAround'')) ?b (0x1c00 + k)"
    using r(3) by (simp add: ch(8,9))
  moreover have "interruptEnable ?c = False" using ch(10) by simp
  ultimately show ?thesis
    using r(1) r(2) [unfolded \<open>interruptEnable ?c = False\<close>]
    by (intro exI [of _ c1] exI [of _ ?b] exI [of _ b'] exI [of _ d'] exI [of _ buf'] conjI)
qed

section \<open>Termination\<close>

definition units_left :: "dma_channel \<Rightarrow> nat" where
  "units_left c = 2 * nat (ch_size c) - (if ch_wait c = Wait_burst then 1 else 0)"

definition ending_channel :: "dma_channel \<Rightarrow> bool" where
  "ending_channel c \<longleftrightarrow> transferMode c \<in> {Single, RepeatedSingle, Block, BurstBlock}
     \<and> (ch_pending c \<longrightarrow> 0 < ch_size c \<and> (ch_wait c = Wait_accept \<or> ch_wait c = Wait_burst \<and> transferMode c = BurstBlock))"

lemma burst_continue_ending:
  assumes "transferMode c = BurstBlock" and "0 < ch_size c"
  shows "\<exists>c'. burst_continue c = Inr c' \<and> ending_channel c' \<and> transferMode c' = BurstBlock
    \<and> (if ch_pending c' \<and> ch_pending c then ch_wait c' = Wait_accept \<and> ch_size c' = ch_size c - 1
       else ch_pending c \<longrightarrow> ch_wait c' = Wait_trigger)"
  using assms by (auto simp: burst_continue_def ending_channel_def channel_finish_def Let_def)

lemma burst_accept_ending:
  assumes "transferMode c = BurstBlock" and "0 < ch_size c" and "ch_wait c = Wait_accept" and "ch_pending c"
  shows "\<exists>c'. channel_accept c = Inr c' \<and> ending_channel c' \<and> (ch_pending c' \<longrightarrow> units_left c' < units_left c)"
proof (cases "ch_size c < m_tSize c \<and> ch_size c mod 4 = 0")
  case True
  then show ?thesis
    using assms by (auto simp: channel_accept_def Let_def ending_channel_def units_left_def)
next
  case False
  then have "channel_accept c = burst_continue (updateAddresses c)"
    using assms by (auto simp: channel_accept_def Let_def)
  then show ?thesis
    using burst_continue_ending [of "updateAddresses c"] assms
    by (auto simp: units_left_def split: if_splits)
qed

lemma ending_signal:
  assumes "ending_channel c" and "ch_pending c"
  shows "\<exists>c'. channel_signal r c = Inr c' \<and> ending_channel c'
    \<and> (ch_pending c' \<longrightarrow> units_left c' < units_left c \<or> \<not> r \<and> units_left c' \<le> units_left c)"
proof -
  have size: "0 < ch_size c" using assms by (simp add: ending_channel_def)
  consider "ch_wait c = Wait_burst" "transferMode c = BurstBlock" | "ch_wait c = Wait_accept" "transferMode c = BurstBlock"
    | "ch_wait c = Wait_accept" "transferMode c \<noteq> BurstBlock"
    using assms by (auto simp: ending_channel_def)
  then show ?thesis
  proof cases
    case 1
    obtain c1 where c1: "burst_continue c = Inr c1" "ending_channel c1" "transferMode c1 = BurstBlock"
        "if ch_pending c1 then ch_wait c1 = Wait_accept \<and> ch_size c1 = ch_size c - 1 else ch_wait c1 = Wait_trigger"
      using burst_continue_ending [OF 1(2) size] assms(2) by auto
    show ?thesis
    proof (cases "ch_pending c1 \<and> r")
      case True
      then have "0 < ch_size c1" "ch_wait c1 = Wait_accept" "ch_size c1 = ch_size c - 1"
        using c1(2,4) by (auto simp: ending_channel_def)
      then show ?thesis
        using burst_accept_ending [OF c1(3)] True 1 c1(1)
        by (auto simp: channel_signal_def units_left_def)
    next
      case False
      then show ?thesis using 1 c1 assms by (auto simp: channel_signal_def)
    qed
  next
    case 2
    then show ?thesis
      using burst_accept_ending [OF 2(2) size 2(1) assms(2)] by (auto simp: channel_signal_def)
  next
    case 3
    then show ?thesis
      using assms size
      by (auto simp: channel_signal_def channel_accept_def Let_def ending_channel_def units_left_def
          channel_finish_def)
  qed
qed

text \<open>C26: every transfer that is not repeating ends. Whatever the bus does and however the
  units and the pauses of a burst interleave, the controller's loop is over (or an error
  has stopped the simulation) before it has served twice the channel's count of units
  outside pauses.\<close>

theorem dma_transfer_ends:
  assumes "ending_channel (m_channels d ! i)" and "i < length (m_channels d)"
    and "2 * nat (ch_size (m_channels d ! i)) \<le> length (filter (\<lambda>r. r) sched)"
  shows "dma_loop bt i len sched (b, d, buf) \<noteq> None"
proof -
  have "units_left (m_channels d ! i) \<le> length (filter (\<lambda>r. r) sched)"
    using assms(3) by (simp add: units_left_def)
  then show ?thesis
    using assms(1,2)
  proof (induction sched arbitrary: b d buf)
    case Nil
    then show ?case
      by (subst dma_loop.simps) (auto simp: units_left_def ending_channel_def split: if_splits)
  next
    case (Cons r rs)
    show ?case
    proof (cases "ch_pending (m_channels d ! i)")
      case True
      obtain c' where c': "channel_signal r (m_channels d ! i) = Inr c'" "ending_channel c'"
          "ch_pending c' \<longrightarrow> units_left c' < units_left (m_channels d ! i)
            \<or> \<not> r \<and> units_left c' \<le> units_left (m_channels d ! i)"
        using ending_signal [OF Cons.prems(2) True] by blast
      show ?thesis
      proof (cases "dma_unit bt i len r (b, d, buf)")
        case (Inl e)
        then show ?thesis using True by (subst dma_loop.simps) simp
      next
        case (Inr st1)
        then obtain b1 d1 buf1 where st1: "st1 = (b1, d1, buf1)" "m_channels d1 = (m_channels d)[i := c']"
          using c'(1) by (auto simp: dma_unit_def bind_r_eq_Inr Let_def)
        have next1: "dma_loop bt i len (r # rs) (b, d, buf) = dma_loop bt i len rs (b1, d1, buf1)"
          using True Inr st1 by (subst dma_loop.simps) simp
        have ch: "m_channels d1 ! i = c'" "i < length (m_channels d1)" using st1(2) Cons.prems(3) by simp_all
        show ?thesis
        proof (cases "ch_pending c'")
          case True
          then have "units_left c' \<le> length (filter (\<lambda>r. r) rs)" using c'(3) Cons.prems(1) by (cases r) auto
          then show ?thesis unfolding next1 using Cons.IH c'(2) ch by simp
        next
          case False
          then show ?thesis unfolding next1 by (subst dma_loop.simps) (simp add: ch)
        qed
      qed
    next
      case False
      then show ?thesis by (subst dma_loop.simps) simp
    qed
  qed
qed

theorem dma_transfer_ends_witness:
  "dma_loop (\<lambda>b tp dl. Inr (b, tp, dl, [])) 0 2 [True, True, True, True]
     ((), dma_example\<lparr>m_channels := [(m_channels dma_example ! 0)\<lparr>ch_pending := True, ch_wait := Wait_accept, ch_size := 2\<rparr>]\<rparr>,
      [0, 0]) \<noteq> None"
  by (rule dma_transfer_ends) (simp_all add: ending_channel_def dma_example_def)

text \<open>A repeated block never counts down: its transfer can only end by an error.\<close>

lemma repeated_block_never_ends:
  assumes "transferMode (m_channels d ! i) = RepeatedBlock" and "ch_enable (m_channels d ! i)"
    and "ch_pending (m_channels d ! i)" and "ch_wait (m_channels d ! i) = Wait_accept"
    and "ch_size (m_channels d ! i) \<noteq> 0" and "i < length (m_channels d)"
  shows "dma_loop bt i len sched (b, d, buf) = None \<or> (\<exists>e. dma_loop bt i len sched (b, d, buf) = Some (Inl e))"
  using assms
proof (induction sched arbitrary: b d buf)
  case Nil
  then show ?case by (subst (1 2) dma_loop.simps) simp
next
  case (Cons r rs)
  have sig: "channel_signal r (m_channels d ! i) = Inr (updateAddresses (m_channels d ! i))"
    using Cons.prems by (simp add: channel_signal_def channel_accept_def Let_def)
  show ?case
  proof (cases "dma_unit bt i len r (b, d, buf)")
    case (Inl e)
    then show ?thesis using Cons.prems(3) by (subst (1 2) dma_loop.simps) simp
  next
    case (Inr st1)
    then obtain b1 d1 buf1 where st1: "st1 = (b1, d1, buf1)"
        "m_channels d1 = (m_channels d)[i := updateAddresses (m_channels d ! i)]"
      using sig by (auto simp: dma_unit_def bind_r_eq_Inr Let_def)
    have "dma_loop bt i len (r # rs) (b, d, buf) = dma_loop bt i len rs (b1, d1, buf1)"
      using Cons.prems(3) Inr st1 by (subst dma_loop.simps) simp
    then show ?thesis
      using Cons.IH [of d1 b1 buf1] Cons.prems st1(2) by simp
  qed
qed

end
