(* ===== verification/Sim_Config.thy ===== *)
theory Sim_Config
  imports Fused_Prelude "HOL-Library.Char_ord"
begin

text \<open>
  \<open>utilities/Config.cpp\<close>: the settings of a simulation, from the command line and a YAML
  file, \<open>std::stoi\<close> as its integer settings use it, and
  \<open>utilities/IoSimulationStopper.hpp\<close>.

  The YAML library is a parameter: \<open>yaml\<close> gives the map in a file or the error with which
  loading it ends. \<open>file_exists\<close> stands for the file system, \<open>stod\<close> for the decimal
  parser of the C++ library, which yields a double.

  The lemmas show what the command line means: each option sets its key, the last one
  wins, and the file only fills in what the command line left open.
\<close>

section \<open>The configuration\<close>

record sim_config =
  m_config :: "string \<rightharpoonup> string"
  m_configFileName :: string

definition Config_new :: sim_config where
  "Config_new = \<lparr>m_config = Map.empty, m_configFileName = ''''\<rparr>"

definition set_key :: "string \<Rightarrow> string \<Rightarrow> sim_config \<Rightarrow> sim_config" where
  "set_key k v c = c\<lparr>m_config := (m_config c)(k \<mapsto> v)\<rparr>"

text \<open>
  \<open>args\<close> are \<open>argv[1], \<dots>, argv[argc - 1]\<close>. An option at the end of the line takes
  \<open>argv[argc]\<close>, a null pointer, for its value, and a string made from it is undefined.
\<close>

fun parseCli :: "string list \<Rightarrow> sim_config \<Rightarrow> sim_config result" where
  "parseCli [] c = Inr c"
| "parseCli (a # args) c =
     (if a = ''-h'' \<or> a = ''--help'' then Inl Exit_success
      else if a = ''-C'' \<or> a = ''--config'' then
        (case args of [] \<Rightarrow> Inl Undefined_behaviour
         | v # rest \<Rightarrow> parseCli rest (set_key ''ConfigFile'' v c))
      else if a = ''-O'' \<or> a = ''--odir'' then
        (case args of [] \<Rightarrow> Inl Undefined_behaviour
         | v # rest \<Rightarrow> parseCli rest (set_key ''OutputDirectory'' v c))
      else if a = ''-x'' \<or> a = ''--program'' then
        (case args of [] \<Rightarrow> Inl Undefined_behaviour
         | v # rest \<Rightarrow> parseCli rest (set_key ''ProgramHexFile'' v (set_key ''GdbServer'' ''False'' c)))
      else if a = ''-B'' \<or> a = ''--board'' then
        (case args of [] \<Rightarrow> Inl Undefined_behaviour
         | v # rest \<Rightarrow> parseCli rest (set_key ''Board'' v c))
      else Inl Exit_failure)"

definition parseFile ::
  "(string \<Rightarrow> bool) \<Rightarrow> (string \<Rightarrow> (string \<rightharpoonup> string) result) \<Rightarrow> string \<Rightarrow> sim_config \<Rightarrow> sim_config result" where
  "parseFile file_exists yaml fn c =
     (let c1 = (if fn = '''' then
                  c\<lparr>m_configFileName := (case m_config c ''ConfigFile'' of Some f \<Rightarrow> f | None \<Rightarrow> ''config.yaml'')\<rparr>
                else c)
      in check_r (file_exists (m_configFileName c1)) Exit_failure
        (bind_r (yaml (m_configFileName c1)) (\<lambda>ymlconfig.
          Inr (c1\<lparr>m_config := ymlconfig ++ m_config c1\<rparr>))))"

definition getString :: "string \<Rightarrow> sim_config \<Rightarrow> string result" where
  "getString key c = (case m_config c key of Some v \<Rightarrow> Inr v | None \<Rightarrow> Inl Invalid_argument)"

text \<open>\<open>std::stoi\<close>: white space, a sign, and the digits up to the first other character.\<close>

definition digit_of :: "char \<Rightarrow> int option" where
  "digit_of ch = (if ''0'' ! 0 \<le> ch \<and> ch \<le> ''9'' ! 0 then Some (int (of_char ch) - 48) else None)"

fun digits_value :: "int \<Rightarrow> string \<Rightarrow> int" where
  "digits_value acc [] = acc"
| "digits_value acc (ch # cs) =
     (case digit_of ch of None \<Rightarrow> acc | Some d \<Rightarrow> digits_value (10 * acc + d) cs)"

definition is_space :: "char \<Rightarrow> bool" where
  "is_space ch = (of_char ch \<in> {9, 10, 11, 12, 13, 32 :: nat})"

definition stoi :: "string \<Rightarrow> int result" where
  "stoi s =
     (let s1 = dropWhile is_space s;
          (neg, s2) = (case s1 of [] \<Rightarrow> (False, [])
                       | ch # cs \<Rightarrow> if ch = CHR ''-'' then (True, cs)
                                   else if ch = CHR ''+'' then (False, cs) else (False, s1))
      in case s2 of [] \<Rightarrow> Inl Invalid_argument
         | ch # _ \<Rightarrow>
           if digit_of ch = None then Inl Invalid_argument
           else let v = (if neg then - digits_value 0 s2 else digits_value 0 s2)
                in check_r (- (2 ^ 31) \<le> v \<and> v < 2 ^ 31) Out_of_range (Inr v))"

definition getUint :: "string \<Rightarrow> sim_config \<Rightarrow> u32 result" where
  "getUint key c = bind_r (getString key c) (\<lambda>s. bind_r (stoi s) (\<lambda>v. Inr (of_int v)))"

definition getDouble :: "(string \<Rightarrow> 'r result) \<Rightarrow> string \<Rightarrow> sim_config \<Rightarrow> 'r result" where
  "getDouble stod key c = bind_r (getString key c) stod"

definition getBool :: "string \<Rightarrow> sim_config \<Rightarrow> bool result" where
  "getBool key c =
     bind_r (getString key c) (\<lambda>val.
       if val = ''True'' then Inr True else if val = ''False'' then Inr False else Inl Invalid_argument)"

definition config_contains :: "string \<Rightarrow> sim_config \<Rightarrow> bool" where
  "config_contains key c = (m_config c key \<noteq> None)"

section \<open>Stopping after a number of edges\<close>

text \<open>
  \<open>m_target\<close> is read from the configuration; \<open>cnt\<close> is a static variable of the process. A
  rising edge that the process waits for either is only counted or, 10 us later, ends the
  simulation.
\<close>

record io_stopper =
  m_target :: u32
  io_cnt :: u32

definition IoSimulationStopper_new :: "sim_config \<Rightarrow> io_stopper result" where
  "IoSimulationStopper_new c =
     bind_r (getUint ''IoSimulationStopperTarget'' c) (\<lambda>n. Inr \<lparr>m_target = n, io_cnt = 0\<rparr>)"

definition stopper_posedge :: "io_stopper \<Rightarrow> io_stopper \<times> bool" where
  "stopper_posedge s =
     (let s1 = s\<lparr>io_cnt := io_cnt s + 1\<rparr> in (s1, m_target s1 \<le> io_cnt s1))"

section \<open>What the command line means\<close>

text \<open>The settings of a command line, last one first.\<close>

fun option_key :: "string \<Rightarrow> string option" where
  "option_key a =
     (if a \<in> {''-C'', ''--config''} then Some ''ConfigFile''
      else if a \<in> {''-O'', ''--odir''} then Some ''OutputDirectory''
      else if a \<in> {''-x'', ''--program''} then Some ''ProgramHexFile''
      else if a \<in> {''-B'', ''--board''} then Some ''Board'' else None)"

declare option_key.simps [simp del]

fun cli_settings :: "(string \<times> string) list \<Rightarrow> (string \<rightharpoonup> string)" where
  "cli_settings [] = Map.empty"
| "cli_settings ((a, v) # opts) =
     (if a \<in> {''-x'', ''--program''} then [''GdbServer'' \<mapsto> ''False''] else Map.empty)
     ++ (case option_key a of Some k \<Rightarrow> [k \<mapsto> v] | None \<Rightarrow> Map.empty) ++ cli_settings opts"

lemma parseCli_options:
  assumes "\<forall>(a, v) \<in> set opts. option_key a \<noteq> None"
  shows "parseCli (concat (map (\<lambda>(a, v). [a, v]) opts)) c = Inr (c\<lparr>m_config := m_config c ++ cli_settings opts\<rparr>)"
  using assms
proof (induction opts arbitrary: c)
  case (Cons o1 opts)
  obtain a v where o1: "o1 = (a, v)" by fastforce
  have "option_key a \<noteq> None" using Cons.prems by (simp add: o1)
  then consider "a = ''-C'' \<or> a = ''--config''" | "a = ''-O'' \<or> a = ''--odir''"
    | "a = ''-x'' \<or> a = ''--program''" | "a = ''-B'' \<or> a = ''--board''"
    by (auto simp: option_key.simps split: if_splits)
  then show ?case
    using Cons.IH Cons.prems
    by cases (elim disjE; simp add: o1 set_key_def option_key.simps map_add_assoc [symmetric])+
qed simp

text \<open>
  Every accepted command line is a list of options with their values, and a setting is
  looked up in the last option for its key, then in the file.
\<close>

lemma parseCli_accepted:
  "parseCli args c = Inr c' \<Longrightarrow>
    \<exists>opts. args = concat (map (\<lambda>(a, v). [a, v]) opts) \<and> (\<forall>(a, v) \<in> set opts. option_key a \<noteq> None)"
proof (induction args c rule: parseCli.induct)
  case (1 c)
  show ?case by (rule exI [of _ "[]"]) simp
next
  case (2 a args c)
  from 2(5) obtain v rest c1 where args: "args = v # rest" "option_key a \<noteq> None" "parseCli rest c1 = Inr c'"
      "\<exists>opts. rest = concat (map (\<lambda>(a, v). [a, v]) opts) \<and> (\<forall>(a, v) \<in> set opts. option_key a \<noteq> None)"
    using 2(1-4) by (cases args) (auto simp: option_key.simps split: if_splits)
  then obtain opts where "rest = concat (map (\<lambda>(a, v). [a, v]) opts)" "\<forall>(a, v) \<in> set opts. option_key a \<noteq> None"
    by blast
  then show ?case
    using args by (intro exI [of _ "(a, v) # opts"]) auto
qed

lemma command_line_overrides_file:
  assumes "parseCli args Config_new = Inr c" and "parseFile file_exists yaml '''' c = Inr c'"
    and "yaml (m_configFileName c') = Inr y"
  shows "\<exists>opts. args = concat (map (\<lambda>(a, v). [a, v]) opts)
    \<and> m_config c' = y ++ cli_settings opts
    \<and> m_configFileName c' = (case cli_settings opts ''ConfigFile'' of Some f \<Rightarrow> f | None \<Rightarrow> ''config.yaml'')"
proof -
  obtain opts where opts: "args = concat (map (\<lambda>(a, v). [a, v]) opts)" "\<forall>(a, v) \<in> set opts. option_key a \<noteq> None"
    using parseCli_accepted [OF assms(1)] by blast
  then have "m_config c = cli_settings opts"
    using parseCli_options [OF opts(2), of Config_new] assms(1) by (auto simp: Config_new_def)
  then show ?thesis
    using opts(1) assms(2,3) by (auto simp: parseFile_def Let_def check_r_eq_Inr bind_r_eq_Inr)
qed

end
