(* ===== verification/Power_Model.thy ===== *)
theory Power_Model
  imports Fused_Prelude Complex_Main
begin

text \<open>
  \<open>ps/PowerModelChannel.cpp\<close>, \<open>ps/ConstantEnergyEvent.hpp\<close>,
  \<open>ps/ConstantCurrentState.hpp\<close> and \<open>ps/PowerModelBridge.hpp\<close>: modules register energy
  events and current states, report them while the simulation runs, and the bridge turns
  what was reported since its last read into the supply current.

  \<open>double\<close> values are real numbers (rounding is not modelled) and \<open>int\<close> counters are
  integers. A division by zero, which gives an infinity or NaN in C++, is a failure here.
  \<open>running\<close> is \<open>sc_is_running()\<close>. Simulation time counts picoseconds, the default
  resolution.
\<close>

section \<open>Events and states\<close>

record PowerModelEventBase =
  event_name :: string
  calculateEnergy :: "real \<Rightarrow> real"

record PowerModelStateBase =
  state_name :: string
  calculateCurrent :: "real \<Rightarrow> real"

definition config_value :: "(string \<rightharpoonup> real) \<Rightarrow> string \<Rightarrow> string \<Rightarrow> real" where
  "config_value cfg moduleName name =
     (case cfg (moduleName @ '' '' @ name) of Some x \<Rightarrow> x | None \<Rightarrow> 0)"

definition ConstantEnergyEvent :: "(string \<rightharpoonup> real) \<Rightarrow> string \<Rightarrow> string \<Rightarrow> PowerModelEventBase" where
  "ConstantEnergyEvent cfg moduleName name =
     \<lparr>event_name = name, calculateEnergy = (\<lambda>_. config_value cfg moduleName name)\<rparr>"

definition ConstantCurrentState :: "(string \<rightharpoonup> real) \<Rightarrow> string \<Rightarrow> string \<Rightarrow> PowerModelStateBase" where
  "ConstantCurrentState cfg moduleName name =
     \<lparr>state_name = name, calculateCurrent = (\<lambda>_. config_value cfg moduleName name)\<rparr>"

section \<open>The channel\<close>

datatype csv_line = Csv_header "string list" | Csv_row "int list"

record channel =
  supplyVoltage :: real
  moduleNames :: "string list"
  events :: "(PowerModelEventBase \<times> nat) list"
  eventRates :: "int list"
  states :: "(PowerModelStateBase \<times> nat) list"
  currentStates :: "int list"
  eventlogFileName :: string
  logTimestep :: sc_time
  event_log :: "int list list"
  csv_file :: "csv_line list"
  running :: bool
  voltageChanged :: nat

definition PowerModelChannel_new :: "string \<Rightarrow> string \<Rightarrow> sc_time \<Rightarrow> channel" where
  "PowerModelChannel_new name logFilePath timestep =
     \<lparr>supplyVoltage = 0, moduleNames = [], events = [], eventRates = [], states = [],
      currentStates = [],
      eventlogFileName = (if logFilePath = ''none'' then ''none''
        else logFilePath @ ''/'' @ name @ ''_eventlog.csv''),
      logTimestep = timestep, event_log = [], csv_file = [], running = False, voltageChanged = 0\<rparr>"

fun find_name :: "string \<Rightarrow> string list \<Rightarrow> nat \<Rightarrow> nat option" where
  "find_name x [] i = None"
| "find_name x (y # ys) i = (if y = x then Some i else find_name x ys (Suc i))"

text \<open>The module of a registration: \<open>(id, first registration of the module, channel)\<close>.\<close>

definition module_entry :: "string \<Rightarrow> channel \<Rightarrow> nat \<times> bool \<times> channel" where
  "module_entry moduleName c =
     (case find_name moduleName (moduleNames c) 0 of
        None \<Rightarrow> (length (moduleNames c), True,
          c\<lparr>moduleNames := moduleNames c @ [moduleName], currentStates := currentStates c @ [- 1]\<rparr>)
      | Some i \<Rightarrow> (i, False, c))"

definition registerEvent :: "string \<Rightarrow> PowerModelEventBase \<Rightarrow> channel \<Rightarrow> (nat \<times> channel) result" where
  "registerEvent moduleName ev c =
     check_r (\<not> running c) Runtime_error
      (case module_entry moduleName c of (moduleId, first, c1) \<Rightarrow>
        check_r (first \<or> \<not> list_ex (\<lambda>(e, m). event_name e = event_name ev \<and> m = moduleId) (events c1))
          Invalid_argument
         (let c2 = c1\<lparr>events := events c1 @ [(ev, moduleId)], eventRates := eventRates c1 @ [0]\<rparr> in
          check_r (length (events c2) = length (eventRates c2)) Assertion_failed
           (Inr (length (events c1), c2))))"

definition registerState :: "string \<Rightarrow> PowerModelStateBase \<Rightarrow> channel \<Rightarrow> (nat \<times> channel) result" where
  "registerState moduleName st c =
     check_r (\<not> running c) Runtime_error
      (case module_entry moduleName c of (moduleId, first, c1) \<Rightarrow>
        check_r (first \<or> \<not> list_ex (\<lambda>(s, m). state_name s = state_name st \<and> m = moduleId) (states c1))
          Invalid_argument
         (let sid = length (states c1);
              c2 = c1\<lparr>states := states c1 @ [(st, moduleId)]\<rparr> in
          check_r (moduleId < length (currentStates c2)) Out_of_bounds
           (Inr (sid, if currentStates c2 ! moduleId = - 1
                      then c2\<lparr>currentStates := (currentStates c2)[moduleId := int sid]\<rparr> else c2))))"

definition bump :: "int list \<Rightarrow> nat \<Rightarrow> int \<Rightarrow> int list" where
  "bump xs i n = xs[i := xs ! i + n]"

text \<open>
  \<open>sc_assert(eventId >= 0 && eventId < m_log.back().size())\<close>, the check of every access by
  event id. A row of the log has one element more than there are events.
\<close>

definition check_event_id :: "int \<Rightarrow> channel \<Rightarrow> 'a result \<Rightarrow> 'a result" where
  "check_event_id eventId c k =
     check_r (event_log c \<noteq> []) Out_of_bounds
      (check_r (0 \<le> eventId \<and> nat eventId < length (last (event_log c))) Assertion_failed k)"

definition reportEvent :: "int \<Rightarrow> int \<Rightarrow> channel \<Rightarrow> channel result" where
  "reportEvent eventId n c =
     check_r (running c) Runtime_error
      (check_event_id eventId c
        (check_r (nat eventId < length (eventRates c)) Out_of_bounds
          (Inr (c\<lparr>eventRates := bump (eventRates c) (nat eventId) n,
                  event_log := butlast (event_log c) @ [bump (last (event_log c)) (nat eventId) n]\<rparr>))))"

definition reportState :: "int \<Rightarrow> channel \<Rightarrow> channel result" where
  "reportState stateId c =
     check_r (running c) Runtime_error
      (check_r (0 \<le> stateId \<and> nat stateId < length (states c)) Assertion_failed
        (let mid = snd (states c ! nat stateId) in
         check_r (mid < length (currentStates c)) Out_of_bounds
          (Inr (c\<lparr>currentStates := (currentStates c)[mid := stateId]\<rparr>))))"

definition popEventCount :: "int \<Rightarrow> channel \<Rightarrow> (int \<times> channel) result" where
  "popEventCount eventId c =
     check_event_id eventId c
      (check_r (nat eventId < length (eventRates c)) Out_of_bounds
        (Inr (eventRates c ! nat eventId, c\<lparr>eventRates := (eventRates c)[nat eventId := 0]\<rparr>)))"

definition popEventEnergy :: "int \<Rightarrow> channel \<Rightarrow> (real \<times> channel) result" where
  "popEventEnergy eventId c =
     check_event_id eventId c
      (check_r (nat eventId < length (events c)) Out_of_bounds
        (bind_r (popEventCount eventId c) (\<lambda>(n, c1).
          Inr (calculateEnergy (fst (events c ! nat eventId)) (supplyVoltage c) * of_int n, c1))))"

fun pop_loop :: "nat list \<Rightarrow> real \<Rightarrow> channel \<Rightarrow> (real \<times> channel) result" where
  "pop_loop [] result c = Inr (result, c)"
| "pop_loop (i # is) result c =
     bind_r (popEventEnergy (int i) c) (\<lambda>(e, c1). pop_loop is (result + e) c1)"

definition popDynamicEnergy :: "channel \<Rightarrow> (real \<times> channel) result" where
  "popDynamicEnergy c = pop_loop [0..<length (events c)] 0 c"

fun static_loop :: "channel \<Rightarrow> int list \<Rightarrow> real \<Rightarrow> real result" where
  "static_loop c [] acc = Inr acc"
| "static_loop c (stateId # ids) acc =
     (if 0 \<le> stateId then
        check_r (nat stateId < length (states c)) Out_of_bounds
         (static_loop c ids (acc + calculateCurrent (fst (states c ! nat stateId)) (supplyVoltage c)))
      else static_loop c ids acc)"

definition getStaticCurrent :: "channel \<Rightarrow> real result" where
  "getStaticCurrent c = static_loop c (currentStates c) 0"

definition setSupplyVoltage :: "real \<Rightarrow> channel \<Rightarrow> channel" where
  "setSupplyVoltage val c =
     (if supplyVoltage c \<noteq> val
      then c\<lparr>supplyVoltage := val, voltageChanged := Suc (voltageChanged c)\<rparr> else c)"

section \<open>The event log\<close>

definition microseconds :: "sc_time \<Rightarrow> int" where
  "microseconds t = int (t div 1000000)"

definition log_row :: "sc_time \<Rightarrow> channel \<Rightarrow> int list" where
  "log_row t c = replicate (length (events c)) 0 @ [microseconds t]"

text \<open>The callback before the simulation starts; afterwards the simulation runs.\<close>

definition start_of_simulation :: "channel \<Rightarrow> channel" where
  "start_of_simulation c =
     c\<lparr>event_log := event_log c @ [log_row (logTimestep c) c], running := True\<rparr>"

definition csv_header :: "channel \<Rightarrow> csv_line" where
  "csv_header c =
     Csv_header (map (\<lambda>(e, m). (moduleNames c ! m) @ '' '' @ event_name e) (events c) @ [''time(us)''])"

definition dumpEventCsv :: "channel \<Rightarrow> channel" where
  "dumpEventCsv c =
     c\<lparr>csv_file := csv_file c @ (if csv_file c = [] then [csv_header c] else [])
         @ map Csv_row (event_log c)\<rparr>"

definition logDumpThreshold :: nat where
  "logDumpThreshold = 100000"

text \<open>One turn of \<open>logLoop\<close>, \<open>t\<close> being the time after its wait.\<close>

definition logLoop_step :: "sc_time \<Rightarrow> channel \<Rightarrow> channel" where
  "logLoop_step t c =
     (if eventlogFileName c = ''none'' \<or> logTimestep c = 0 then c
      else
        let c1 = (if length (event_log c) > logDumpThreshold
                  then (dumpEventCsv c)\<lparr>event_log := []\<rparr> else c)
        in c1\<lparr>event_log := event_log c1 @ [log_row (logTimestep c + t) c1]\<rparr>)"

section \<open>The bridge to the electrical model\<close>

definition to_seconds :: "sc_time \<Rightarrow> real" where
  "to_seconds t = real t / 1000000000000"

record bridge =
  i_out :: real
  lastReadTime :: sc_time

definition bridge_process :: "real \<Rightarrow> sc_time \<Rightarrow> bridge \<Rightarrow> channel \<Rightarrow> (bridge \<times> channel) result" where
  "bridge_process v t b c =
     (if v \<le> 0 then Inr (b\<lparr>i_out := 0\<rparr>, c)
      else
        let timestep = to_seconds t - to_seconds (lastReadTime b);
            b1 = b\<lparr>lastReadTime := t\<rparr> in
        bind_r (popDynamicEnergy c) (\<lambda>(energy, c1).
          check_r (v * timestep \<noteq> 0) Division_by_zero
           (bind_r (getStaticCurrent c1) (\<lambda>static.
             Inr (b1\<lparr>i_out := static + energy / (v * timestep)\<rparr>, c1)))))"

end
