(* ===== verification/External_Circuitry.thy ===== *)
theory External_Circuitry
  imports Sim_Config Power_Model
begin

text \<open>
  \<open>ps/ExternalCircuitry.hpp\<close>: the harvesting supply that replays a voltage trace, the
  storage capacitor and the load switch with voltage detector, wired in a loop. One step
  of the loop is one time step of the data flow: the capacitor's output is delayed by one
  sample, so supply and switch see the voltage the previous step left.

  As in the power model, doubles are real numbers and a division by zero fails. Config
  values come from \<open>getDouble\<close> with the parameter \<open>stod\<close>. \<open>VoltageDetectorWithOverride\<close>
  does not initialise \<open>m_isOn\<close>: its first value is a parameter.
\<close>

section \<open>The load switch\<close>

record detector =
  m_vOn :: real
  m_vOff :: real
  m_vWarn :: real
  m_icc :: real
  m_isOn :: bool

record detector_out =
  sw_i_in :: real
  sw_v_out :: real
  v_warn :: bool

type_synonym stod = "string \<Rightarrow> real result"

definition VoltageDetector_new :: "stod \<Rightarrow> bool \<Rightarrow> sim_config \<Rightarrow> detector result" where
  "VoltageDetector_new stod on0 c =
     bind_r (getDouble stod ''SVSVon'' c) (\<lambda>von.
     bind_r (getDouble stod ''SVSVoff'' c) (\<lambda>voff.
     bind_r (getDouble stod ''ext.dc'' c) (\<lambda>icc.
     bind_r (getDouble stod ''VoltageWarning'' c) (\<lambda>vwarn.
       Inr \<lparr>m_vOn = von, m_vOff = voff, m_vWarn = vwarn, m_icc = icc, m_isOn = on0\<rparr>))))"

definition VoltageDetector_processing ::
  "bool \<Rightarrow> real \<Rightarrow> real \<Rightarrow> detector \<Rightarrow> detector \<times> detector_out" where
  "VoltageDetector_processing forceOn i_load crnt_v_in s =
     (let warn = (crnt_v_in < m_vWarn s) in
      if forceOn \<or> crnt_v_in > m_vOn s \<or> (crnt_v_in > m_vOff s \<and> m_isOn s) then
        (s\<lparr>m_isOn := True\<rparr>, \<lparr>sw_i_in = i_load + m_icc s, sw_v_out = crnt_v_in, v_warn = warn\<rparr>)
      else
        (s\<lparr>m_isOn := False\<rparr>, \<lparr>sw_i_in = 0 + m_icc s, sw_v_out = 0, v_warn = warn\<rparr>))"

section \<open>The capacitor\<close>

record capacitor =
  m_capacitance :: real
  m_crntVoltage :: real
  cap_timestep :: real

definition CapacitorIdeal_new :: "stod \<Rightarrow> real \<Rightarrow> sim_config \<Rightarrow> capacitor result" where
  "CapacitorIdeal_new stod timestep c =
     bind_r (getDouble stod ''CapacitorValue'' c) (\<lambda>cap.
     bind_r (getDouble stod ''CapacitorInitialVoltage'' c) (\<lambda>v0.
       Inr \<lparr>m_capacitance = cap, m_crntVoltage = v0, cap_timestep = timestep\<rparr>))"

definition CapacitorIdeal_processing :: "real \<Rightarrow> real \<Rightarrow> capacitor \<Rightarrow> (capacitor \<times> real) result" where
  "CapacitorIdeal_processing i_in i_load s =
     check_r (m_capacitance s \<noteq> 0) Division_by_zero
       (let v = m_crntVoltage s + cap_timestep s * (i_in - i_load) / m_capacitance s;
            v1 = (if v \<le> 0 then 0 else v)
        in Inr (s\<lparr>m_crntVoltage := v1\<rparr>, v1))"

section \<open>The supplies\<close>

record current_supply =
  cs_currentSetpoint :: real
  cs_voltageLimit :: real
  cs_maxStepSize :: real

definition ConstantCurrentSupply_new :: "stod \<Rightarrow> sc_time \<Rightarrow> sim_config \<Rightarrow> current_supply result" where
  "ConstantCurrentSupply_new stod timestep c =
     bind_r (getDouble stod ''SupplyCurrentLimit'' c) (\<lambda>i.
     bind_r (getDouble stod ''SupplyVoltageLimit'' c) (\<lambda>v.
     bind_r (getDouble stod ''CapacitorValue'' c) (\<lambda>cap.
     check_r (cap \<noteq> 0) Division_by_zero
       (Inr \<lparr>cs_currentSetpoint = i, cs_voltageLimit = v, cs_maxStepSize = to_seconds timestep * (i / cap)\<rparr>))))"

definition ConstantCurrentSupply_processing :: "real \<Rightarrow> current_supply \<Rightarrow> real" where
  "ConstantCurrentSupply_processing v s =
     (if v + cs_maxStepSize s < cs_voltageLimit s then cs_currentSetpoint s else 0)"

record trace_supply =
  m_voltageTrace :: "real list"
  m_traceIndex :: u32
  m_currentSetpoint :: real
  m_voltageLimit :: real
  m_maxStepSize :: real
  m_loadResistance :: real
  m_timestep :: sc_time
  m_timeElapsed :: real

text \<open>Lines that are no number are skipped with a message.\<close>

fun readTraceFile :: "stod \<Rightarrow> string list \<Rightarrow> real list result" where
  "readTraceFile stod [] = Inr []"
| "readTraceFile stod (line # lines) =
     (case stod line of
        Inr x \<Rightarrow> bind_r (readTraceFile stod lines) (\<lambda>xs. Inr (x # xs))
      | Inl Invalid_argument \<Rightarrow> readTraceFile stod lines
      | Inl e \<Rightarrow> Inl e)"

definition VoltageTraceReplay_new ::
  "stod \<Rightarrow> (string \<Rightarrow> string list option) \<Rightarrow> sc_time \<Rightarrow> sim_config \<Rightarrow> trace_supply result" where
  "VoltageTraceReplay_new stod file timestep c =
     bind_r (getString ''VoltageTraceFile'' c) (\<lambda>path.
     bind_r (getDouble stod ''SupplyCurrentLimit'' c) (\<lambda>i.
     bind_r (getDouble stod ''SupplyVoltageLimit'' c) (\<lambda>v.
     bind_r (getDouble stod ''CapacitorValue'' c) (\<lambda>cap.
     check_r (cap \<noteq> 0) Division_by_zero
     (bind_r (getDouble stod ''LoadResistance'' c) (\<lambda>r.
      case file path of None \<Rightarrow> Inl Runtime_error
      | Some lines \<Rightarrow> bind_r (readTraceFile stod lines) (\<lambda>tr.
          Inr \<lparr>m_voltageTrace = tr, m_traceIndex = 0, m_currentSetpoint = i, m_voltageLimit = v,
               m_maxStepSize = to_seconds timestep * (i / cap), m_loadResistance = r,
               m_timestep = timestep, m_timeElapsed = 0\<rparr>)))))))"

definition deriveCurrentFromVoltage :: "real \<Rightarrow> real \<Rightarrow> trace_supply \<Rightarrow> real result" where
  "deriveCurrentFromVoltage voltage vcap s =
     check_r (m_loadResistance s \<noteq> 0) Division_by_zero (Inr (voltage / m_loadResistance s))"

definition advance_trace :: "trace_supply \<Rightarrow> trace_supply" where
  "advance_trace s =
     (let s1 = s\<lparr>m_timeElapsed := m_timeElapsed s + to_seconds (m_timestep s)\<rparr>;
          s2 = (if m_timeElapsed s1 \<ge> 1 / 1000
                then s1\<lparr>m_traceIndex := m_traceIndex s1 + 1, m_timeElapsed := 0\<rparr> else s1)
      in if unat (m_traceIndex s2) \<ge> length (m_voltageTrace s2) then s2\<lparr>m_traceIndex := 0\<rparr> else s2)"

definition VoltageTraceReplay_processing :: "real \<Rightarrow> trace_supply \<Rightarrow> (trace_supply \<times> real) result" where
  "VoltageTraceReplay_processing vcap s =
     (let s1 = advance_trace s in
      if vcap + m_maxStepSize s1 < m_voltageLimit s1 then
        check_r (unat (m_traceIndex s1) < length (m_voltageTrace s1)) Out_of_bounds
         (bind_r (deriveCurrentFromVoltage (m_voltageTrace s1 ! unat (m_traceIndex s1)) vcap s1) (\<lambda>i.
            Inr (s1, i)))
      else Inr (s1, 0))"

section \<open>The loop\<close>

record circuit =
  trace_src :: trace_supply
  c_cap :: capacitor
  svs :: detector

text \<open>What a step produces beside the new state: the voltage it saw, the current of the supply
  and the outputs of the switch.\<close>

record sample =
  v_cap :: real
  i_supply :: real
  sw_out :: detector_out

definition circuit_step :: "bool \<Rightarrow> real \<Rightarrow> circuit \<Rightarrow> (circuit \<times> sample) result" where
  "circuit_step keepAlive i_load s =
     (let v = m_crntVoltage (c_cap s) in
      bind_r (VoltageTraceReplay_processing v (trace_src s)) (\<lambda>(sup, i).
      let (sw, out) = VoltageDetector_processing keepAlive i_load v (svs s) in
      bind_r (CapacitorIdeal_processing i (sw_i_in out) (c_cap s)) (\<lambda>(cap, _).
        Inr (\<lparr>trace_src = sup, c_cap = cap, svs = sw\<rparr>, \<lparr>v_cap = v, i_supply = i, sw_out = out\<rparr>))))"

fun circuit_run :: "(bool \<times> real) list \<Rightarrow> circuit \<Rightarrow> (circuit \<times> sample list) result" where
  "circuit_run [] s = Inr (s, [])"
| "circuit_run ((keepAlive, i_load) # loads) s =
     bind_r (circuit_step keepAlive i_load s) (\<lambda>(s1, out).
     bind_r (circuit_run loads s1) (\<lambda>(s2, outs). Inr (s2, out # outs)))"

section \<open>Voltage and charge\<close>

text \<open>
  Well-formed circuits: a capacitor and a time step, all parts stepped alike, a trace whose
  currents stay within the supply's current limit, and a switch that feeds nothing back.
\<close>

definition circuit_wf :: "circuit \<Rightarrow> bool" where
  "circuit_wf s \<longleftrightarrow> 0 < m_capacitance (c_cap s) \<and> 0 < cap_timestep (c_cap s)
     \<and> cap_timestep (c_cap s) = to_seconds (m_timestep (trace_src s))
     \<and> m_maxStepSize (trace_src s) = to_seconds (m_timestep (trace_src s)) * (m_currentSetpoint (trace_src s) / m_capacitance (c_cap s))
     \<and> m_loadResistance (trace_src s) \<noteq> 0 \<and> m_voltageTrace (trace_src s) \<noteq> []
     \<and> (\<forall>x \<in> set (m_voltageTrace (trace_src s)). 0 \<le> x / m_loadResistance (trace_src s)
          \<and> x / m_loadResistance (trace_src s) \<le> m_currentSetpoint (trace_src s))
     \<and> 0 \<le> m_icc (svs s)"

definition voltage_ok :: "circuit \<Rightarrow> bool" where
  "voltage_ok s \<longleftrightarrow> 0 \<le> m_crntVoltage (c_cap s) \<and> m_crntVoltage (c_cap s) \<le> m_voltageLimit (trace_src s)"

lemma advance_trace_fields [simp]:
  "m_voltageTrace (advance_trace s) = m_voltageTrace s" "m_loadResistance (advance_trace s) = m_loadResistance s"
  "m_currentSetpoint (advance_trace s) = m_currentSetpoint s" "m_voltageLimit (advance_trace s) = m_voltageLimit s"
  "m_maxStepSize (advance_trace s) = m_maxStepSize s" "m_timestep (advance_trace s) = m_timestep s"
  by (simp_all add: advance_trace_def Let_def)

lemma advance_trace_index: "m_voltageTrace s \<noteq> [] \<Longrightarrow> unat (m_traceIndex (advance_trace s)) < length (m_voltageTrace s)"
  by (auto simp: advance_trace_def Let_def)

lemma supply_current:
  assumes "circuit_wf s"
  shows "\<exists>i. VoltageTraceReplay_processing v (trace_src s) = Inr (advance_trace (trace_src s), i)
    \<and> 0 \<le> i \<and> (if v + m_maxStepSize (trace_src s) < m_voltageLimit (trace_src s)
                then i \<le> m_currentSetpoint (trace_src s) else i = 0)"
  using assms advance_trace_index [of "trace_src s"]
  by (auto simp: VoltageTraceReplay_processing_def Let_def deriveCurrentFromVoltage_def circuit_wf_def)

lemma detector_fields [simp]:
  "m_icc (fst (VoltageDetector_processing f i v s)) = m_icc s"
  "m_vOn (fst (VoltageDetector_processing f i v s)) = m_vOn s"
  "m_vOff (fst (VoltageDetector_processing f i v s)) = m_vOff s"
  by (simp_all add: VoltageDetector_processing_def Let_def)

lemma circuit_step_ok:
  assumes "circuit_wf s" and "0 \<le> i_load"
  shows "\<exists>s' x. circuit_step keepAlive i_load s = Inr (s', x) \<and> circuit_wf s'
    \<and> m_voltageLimit (trace_src s') = m_voltageLimit (trace_src s)
    \<and> m_capacitance (c_cap s') = m_capacitance (c_cap s) \<and> cap_timestep (c_cap s') = cap_timestep (c_cap s)
    \<and> (voltage_ok s \<longrightarrow> voltage_ok s') \<and> v_cap x = m_crntVoltage (c_cap s)
    \<and> 0 \<le> m_crntVoltage (c_cap s')
    \<and> cap_timestep (c_cap s) * (i_supply x - sw_i_in (sw_out x))
       \<le> m_capacitance (c_cap s) * (m_crntVoltage (c_cap s') - m_crntVoltage (c_cap s))
    \<and> (m_crntVoltage (c_cap s') = 0
       \<or> m_capacitance (c_cap s) * (m_crntVoltage (c_cap s') - m_crntVoltage (c_cap s))
         = cap_timestep (c_cap s) * (i_supply x - sw_i_in (sw_out x)))"
proof -
  define v h C where "v = m_crntVoltage (c_cap s)" and "h = cap_timestep (c_cap s)" and "C = m_capacitance (c_cap s)"
  have pos: "0 < C" "0 < h" using assms(1) by (simp_all add: circuit_wf_def C_def h_def)
  obtain i where i: "VoltageTraceReplay_processing v (trace_src s) = Inr (advance_trace (trace_src s), i)" "0 \<le> i"
      "if v + m_maxStepSize (trace_src s) < m_voltageLimit (trace_src s) then i \<le> m_currentSetpoint (trace_src s) else i = 0"
    using supply_current [OF assms(1)] by blast
  define sw out where "sw = fst (VoltageDetector_processing keepAlive i_load v (svs s))"
    and "out = snd (VoltageDetector_processing keepAlive i_load v (svs s))"
  have pair: "VoltageDetector_processing keepAlive i_load v (svs s) = (sw, out)"
    by (simp add: sw_def out_def)
  have drawn: "0 \<le> sw_i_in out"
    using assms by (auto simp: out_def VoltageDetector_processing_def circuit_wf_def Let_def)
  have icc: "m_icc sw = m_icc (svs s)" by (simp add: sw_def)
  define v1 where "v1 = v + h * (i - sw_i_in out) / C"
  define v2 where "v2 = (if v1 \<le> 0 then 0 else v1)"
  have charge: "C * (v1 - v) = h * (i - sw_i_in out)" using pos by (simp add: v1_def)
  have step: "circuit_step keepAlive i_load s = Inr (\<lparr>trace_src = advance_trace (trace_src s),
      c_cap = c_cap s\<lparr>m_crntVoltage := v2\<rparr>, svs = sw\<rparr>, \<lparr>v_cap = v, i_supply = i, sw_out = out\<rparr>)"
    using pos i(1) pair
    by (simp add: circuit_step_def Let_def CapacitorIdeal_processing_def v_def h_def C_def v1_def v2_def)
  have "v1 \<le> max v (m_voltageLimit (trace_src s))"
  proof (cases "v + m_maxStepSize (trace_src s) < m_voltageLimit (trace_src s)")
    case True
    have "h * (i - sw_i_in out) / C \<le> h * m_currentSetpoint (trace_src s) / C"
      using True i(3) drawn pos by (intro divide_right_mono mult_left_mono) auto
    then show ?thesis using True assms(1) by (simp add: v1_def circuit_wf_def h_def C_def)
  next
    case False
    have "h * (i - sw_i_in out) / C \<le> 0"
      using False i(3) drawn pos by (intro divide_nonpos_pos mult_nonneg_nonpos) auto
    then show ?thesis by (simp add: v1_def)
  qed
  then have limit: "0 \<le> v \<Longrightarrow> v \<le> m_voltageLimit (trace_src s) \<Longrightarrow> v2 \<le> m_voltageLimit (trace_src s)"
    by (auto simp: v2_def)
  let ?s' = "\<lparr>trace_src = advance_trace (trace_src s), c_cap = c_cap s\<lparr>m_crntVoltage := v2\<rparr>, svs = sw\<rparr>"
    and ?x = "\<lparr>v_cap = v, i_supply = i, sw_out = out\<rparr>"
  have "C * (v1 - v) \<le> C * (v2 - v)" using pos by (intro mult_left_mono) (auto simp: v2_def)
  then have more: "h * (i - sw_i_in out) \<le> C * (v2 - v)" by (simp add: charge)
  have same: "v2 = 0 \<or> C * (v2 - v) = h * (i - sw_i_in out)" using charge by (auto simp: v2_def)
  have v2: "0 \<le> v2" by (simp add: v2_def)
  have "circuit_wf ?s'" using assms(1) icc by (simp add: circuit_wf_def)
  moreover have "voltage_ok s \<longrightarrow> voltage_ok ?s'" using limit v2 by (simp add: voltage_ok_def v_def)
  ultimately show ?thesis
    using step more same v2 by (intro exI [of _ ?s'] exI [of _ ?x]) (simp add: v_def h_def C_def)
qed

definition circuit_example :: circuit where
  "circuit_example =
     \<lparr>trace_src = \<lparr>m_voltageTrace = [2, 1], m_traceIndex = 0, m_currentSetpoint = 1 / 50, m_voltageLimit = 3,
        m_maxStepSize = 2 / 100000, m_loadResistance = 100, m_timestep = 10000000, m_timeElapsed = 0\<rparr>,
      c_cap = \<lparr>m_capacitance = 1 / 100, m_crntVoltage = 2, cap_timestep = 1 / 100000\<rparr>,
      svs = \<lparr>m_vOn = 5 / 2, m_vOff = 2, m_vWarn = 21 / 10, m_icc = 0, m_isOn = False\<rparr>\<rparr>"

lemma circuit_run_limit:
  "circuit_run loads s = Inr (s', xs) \<Longrightarrow> m_voltageLimit (trace_src s') = m_voltageLimit (trace_src s)"
proof (induction loads arbitrary: s s' xs)
  case (Cons o1 loads)
  obtain k i where o1: "o1 = (k, i)" by fastforce
  obtain s1 y ys where st: "circuit_step k i s = Inr (s1, y)" "circuit_run loads s1 = Inr (s', ys)"
    using Cons.prems by (auto simp: o1 bind_r_eq_Inr)
  have "m_voltageLimit (trace_src s1) = m_voltageLimit (trace_src s)"
    using st(1) by (cases "VoltageDetector_processing k i (m_crntVoltage (c_cap s)) (svs s)")
      (auto simp: circuit_step_def Let_def bind_r_eq_Inr VoltageTraceReplay_processing_def check_r_eq_Inr
        split: if_splits)
  then show ?case using Cons.IH [OF st(2)] by simp
qed simp

lemma circuit_step_sees: "circuit_step k i s = Inr (s', x) \<Longrightarrow> v_cap x = m_crntVoltage (c_cap s)"
  by (cases "VoltageDetector_processing k i (m_crntVoltage (c_cap s)) (svs s)")
    (auto simp: circuit_step_def Let_def bind_r_eq_Inr)

lemma circuit_run_first:
  "circuit_run loads s = Inr (s', xs) \<Longrightarrow>
   xs = [] \<and> s' = s \<or> (\<exists>y ys. xs = y # ys \<and> v_cap y = m_crntVoltage (c_cap s))"
proof (cases loads)
  case (Cons o1 rest)
  assume run: "circuit_run loads s = Inr (s', xs)"
  obtain k i where o1: "o1 = (k, i)" by fastforce
  obtain s1 y ys where "circuit_step k i s = Inr (s1, y)" "xs = y # ys"
    using run by (auto simp: Cons o1 bind_r_eq_Inr)
  then show ?thesis using circuit_step_sees by blast
qed simp



text \<open>
  The step the supply allows for is the one of its current limit, which the replayed trace
  may exceed: then a step goes over the voltage limit.
\<close>

lemma trace_overshoots_limit:
  "\<exists>s x. circuit_step False 0 (circuit_example\<lparr>trace_src := (trace_src circuit_example)\<lparr>m_voltageTrace := [400000]\<rparr>\<rparr>)
     = Inr (s, x) \<and> m_crntVoltage (c_cap s) > m_voltageLimit (trace_src s)"
  by (simp add: circuit_example_def circuit_step_def VoltageTraceReplay_processing_def advance_trace_def
      deriveCurrentFromVoltage_def VoltageDetector_processing_def CapacitorIdeal_processing_def to_seconds_def Let_def)

section \<open>Hysteresis of the load switch\<close>

fun detector_run :: "real list \<Rightarrow> detector \<Rightarrow> detector" where
  "detector_run [] s = s"
| "detector_run (v # vs) s = detector_run vs (fst (VoltageDetector_processing False 0 v s))"

lemma detector_run_snoc:
  "detector_run (vs @ [v]) s = fst (VoltageDetector_processing False 0 v (detector_run vs s))"
  by (induction vs arbitrary: s) auto

lemma detector_run_fields [simp]:
  "m_vOn (detector_run vs s) = m_vOn s" "m_vOff (detector_run vs s) = m_vOff s"
  by (induction vs arbitrary: s) auto

lemma detector_on_step:
  "m_isOn (fst (VoltageDetector_processing False i v s)) \<longleftrightarrow> v > m_vOn s \<or> (v > m_vOff s \<and> m_isOn s)"
  by (simp add: VoltageDetector_processing_def Let_def)

lemma all_up_to_Suc:
  "(\<forall>j. k < j \<and> j < Suc n \<longrightarrow> R j) \<longleftrightarrow> (k < n \<longrightarrow> R n) \<and> (\<forall>j. k < j \<and> j < n \<longrightarrow> R j)"
  by (auto simp: less_Suc_eq)



end
