(* ===== verification/Power_Management.thy ===== *)
theory Power_Management
  imports Peripheral External_Circuitry
begin

unbundle bit_operations_syntax

text \<open>
  \<open>mcu/msp430fr5xx/PowerManagementModule.cpp\<close>: power good and power-on reset of the
  microcontroller, derived from the supply voltage. One run of the loop body of \<open>process\<close>
  is \<open>pmm_iteration\<close>: it sees a supply voltage and the acknowledge line, and gives the boot
  currents it replays, each for \<open>m_bootCurrentTimeResolution\<close> seconds, beside the new state.

  The file of boot currents is read with a third-party parser: \<open>grid\<close> stands for its rows,
  cut to the two columns the code uses.

  The last section composes the module with the load switch of the external circuit.
\<close>

section \<open>State and operations\<close>

record pmm =
  pm_regs :: register_file
  pm_vOn :: real
  pm_vOff :: real
  pm_vMax :: real
  m_locked :: bool
  pm_isOn :: bool
  m_powerOnResetCount :: u32
  m_bootCurrentTrace :: "real list"
  m_bootCurrentTimeResolution :: real
  bootCurrent :: real
  pwrGood :: bool
  pm_irq :: bool

definition OFS_PMMCTL0 :: nat where "OFS_PMMCTL0 = 0"
definition OFS_PMMCTL0_H :: nat where "OFS_PMMCTL0_H = 1"
definition OFS_PMMCTL1 :: nat where "OFS_PMMCTL1 = 2"
definition OFS_PMMIFG :: nat where "OFS_PMMIFG = 0xa"
definition OFS_PM5CTL0 :: nat where "OFS_PM5CTL0 = 0x10"
definition PMMPW :: u32 where "PMMPW = 0xa500"

lemmas pmm_offsets = OFS_PMMCTL0_def OFS_PMMCTL0_H_def OFS_PMMCTL1_def OFS_PMMIFG_def OFS_PM5CTL0_def

definition PMM_regs :: register_file where
  "PMM_regs =
     addRegister (addRegister (addRegister (addRegister []
       OFS_PMMCTL0 0x9640 READ_WRITE (- 1)) OFS_PMMCTL1 0x9600 READ_WRITE (- 1))
       OFS_PMMIFG 0 READ_WRITE (- 1)) OFS_PM5CTL0 1 READ_WRITE (- 1)"

definition PMM_reset :: "pmm \<Rightarrow> pmm" where
  "PMM_reset s = s\<lparr>pm_regs := rf_reset (pm_regs s), m_locked := True, pm_isOn := False\<rparr>"

definition PMM_new ::
  "stod \<Rightarrow> (string \<Rightarrow> bool) \<Rightarrow> (string \<Rightarrow> (real \<times> real) list) \<Rightarrow> sim_config \<Rightarrow> pmm result" where
  "PMM_new stod file_exists grid c =
     bind_r (getDouble stod ''PMMOn'' c) (\<lambda>von.
     bind_r (getDouble stod ''PMMOff'' c) (\<lambda>voff.
     bind_r (getDouble stod ''VMAX'' c) (\<lambda>vmax.
     bind_r (getString ''BootTracePath'' c) (\<lambda>path.
     check_r (file_exists path) Exit_failure
      (let rows = grid path in
       check_r (1 < length rows) Out_of_range
        (Inr (PMM_reset
          \<lparr>pm_regs = PMM_regs, pm_vOn = von, pm_vOff = voff, pm_vMax = vmax, m_locked = True,
           pm_isOn = False, m_powerOnResetCount = 0,
           m_bootCurrentTrace = map (\<lambda>r. 1 / 1000 * snd r) rows,
           m_bootCurrentTimeResolution = fst (rows ! 1) - fst (rows ! 0),
           bootCurrent = 0, pwrGood = False, pm_irq = False\<rparr>)))))))"

text \<open>The voltage decision with the reset request, and the acknowledge. The second component
  is the sequence of currents replayed.\<close>

definition pmm_supply :: "real \<Rightarrow> pmm \<Rightarrow> pmm \<times> real list" where
  "pmm_supply crntVcc s =
     (if pm_isOn s then
        if crntVcc < pm_vOff s then (s\<lparr>pm_isOn := False, pwrGood := False\<rparr>, []) else (s, [])
      else if crntVcc > pm_vOn s then
        (s\<lparr>bootCurrent := 0, pm_isOn := True, m_powerOnResetCount := m_powerOnResetCount s + 1,
           pwrGood := True, pm_irq := True\<rparr>, m_bootCurrentTrace s)
      else (s, []))"

definition pmm_iteration :: "real \<Rightarrow> bool \<Rightarrow> pmm \<Rightarrow> pmm \<times> real list" where
  "pmm_iteration crntVcc ira s =
     (let (s1, boot) = pmm_supply crntVcc s
      in (if ira then s1\<lparr>pm_irq := False\<rparr> else s1, boot))"

text \<open>\<open>*src\<close> of a one-byte payload takes in the byte behind the buffer, \<open>junk\<close>.\<close>

definition src16 :: "u8 \<Rightarrow> payload \<Rightarrow> u32" where
  "src16 junk tp = host_load32 (data tp ! 0) (if length (data tp) \<ge> 2 then data tp ! 1 else junk) 0 0"

definition PMM_write :: "target \<Rightarrow> nat \<Rightarrow> nat \<Rightarrow> u32 \<Rightarrow> pmm \<Rightarrow> pmm result" where
  "PMM_write t addr len src s =
     (if addr = OFS_PMMCTL0 then Inr (s\<lparr>m_locked := (src AND 0xff00 = PMMPW)\<rparr>)
      else if addr = OFS_PMMCTL0_H then Inr (s\<lparr>m_locked := (src = PMMPW)\<rparr>)
      else if addr = OFS_PM5CTL0 then
        if src = 0 then bind_r (rf_write (pm_regs s) addr 0 False) (\<lambda>rf. Inr (s\<lparr>pm_regs := rf\<rparr>)) else Inr s
      else if len = 2 then bind_r (rf_write (pm_regs s) addr src False) (\<lambda>rf. Inr (s\<lparr>pm_regs := rf\<rparr>))
      else if len = 1 then
        bind_r (rf_writeByte t (pm_regs s) addr (ucast src) False) (\<lambda>rf. Inr (s\<lparr>pm_regs := rf\<rparr>))
      else Inr s)"

definition PMM_read :: "target \<Rightarrow> nat \<Rightarrow> payload \<Rightarrow> pmm \<Rightarrow> payload result" where
  "PMM_read t addr tp s =
     (if data_length tp = 2 then
        bind_r (rf_read (pm_regs s) addr) (\<lambda>v. Inr (tp\<lparr>data := [host_byte v 0, host_byte v 1]\<rparr>))
      else if data_length tp = 1 then
        bind_r (rf_readByte t (pm_regs s) addr) (\<lambda>b. Inr (tp\<lparr>data := [b]\<rparr>))
      else Inr tp)"

definition PMM_b_transport :: "target \<Rightarrow> u8 \<Rightarrow> sc_time \<Rightarrow> pmm transport" where
  "PMM_b_transport t junk period s tp delay =
     check_r (data tp \<noteq> []) Out_of_bounds
      (let addr = unat (address tp); d = delay + period in
       case command tp of
         TLM_WRITE_COMMAND \<Rightarrow>
           bind_r (PMM_write t addr (data_length tp) (src16 junk tp) s) (\<lambda>s1.
             Inr (s1, tp\<lparr>response_ok := True\<rparr>, d, [Notify Write_event d]))
       | TLM_READ_COMMAND \<Rightarrow>
           bind_r (PMM_read t addr tp s) (\<lambda>tp1.
             Inr (s, tp1\<lparr>response_ok := True\<rparr>, d, [Notify Read_event d]))
       | TLM_IGNORE_COMMAND \<Rightarrow> Inl Report_fatal)"

lemma map_sum_bind: "map_sum id g (bind_r m f) = bind_r m (\<lambda>x. map_sum id g (f x))"
  by (cases m) simp_all

text \<open>The lock has no effect: no operation looks at it, and the right password sets it.\<close>

lemma pmm_lock_inert:
  "addr \<noteq> OFS_PMMCTL0 \<Longrightarrow> addr \<noteq> OFS_PMMCTL0_H \<Longrightarrow>
   PMM_write t addr len src (s\<lparr>m_locked := b\<rparr>) = map_sum id (\<lambda>s1. s1\<lparr>m_locked := b\<rparr>) (PMM_write t addr len src s)"
proof -
  have "s\<lparr>m_locked := b, pm_regs := rf\<rparr> = s\<lparr>pm_regs := rf, m_locked := b\<rparr>" for rf by simp
  moreover have "pm_regs (s\<lparr>m_locked := b\<rparr>) = pm_regs s" by simp
  ultimately show "addr \<noteq> OFS_PMMCTL0 \<Longrightarrow> addr \<noteq> OFS_PMMCTL0_H \<Longrightarrow> ?thesis"
    by (simp only: PMM_write_def if_distrib [of "map_sum id (\<lambda>s1. s1\<lparr>m_locked := b\<rparr>)"] map_sum_bind
        map_sum.simps pmm.simps if_False simp_thms)
qed

lemma pmm_password_locks: "\<exists>s'. PMM_write t OFS_PMMCTL0 2 (PMMPW OR 4) s = Inr s' \<and> m_locked s'"
  by (simp add: PMM_write_def PMMPW_def)

section \<open>Power cycles\<close>

fun pmm_run :: "(real \<times> bool) list \<Rightarrow> pmm \<Rightarrow> pmm" where
  "pmm_run [] s = s"
| "pmm_run ((v, ira) # vs) s = pmm_run vs (fst (pmm_iteration v ira s))"

text \<open>The number of changes from false to true.\<close>

fun rises :: "bool \<Rightarrow> bool list \<Rightarrow> nat" where
  "rises b [] = 0"
| "rises b (x # xs) = (if x \<and> \<not> b then 1 else 0) + rises x xs"

definition pmm_consistent :: "pmm \<Rightarrow> bool" where
  "pmm_consistent s \<longleftrightarrow> pwrGood s = pm_isOn s"

lemma pmm_iteration_effect:
  "pm_isOn (fst (pmm_iteration v ira s)) = (if pm_isOn s then \<not> v < pm_vOff s else v > pm_vOn s)"
  "m_powerOnResetCount (fst (pmm_iteration v ira s))
    = m_powerOnResetCount s + (if \<not> pm_isOn s \<and> v > pm_vOn s then 1 else 0)"
  "pm_vOn (fst (pmm_iteration v ira s)) = pm_vOn s" "pm_vOff (fst (pmm_iteration v ira s)) = pm_vOff s"
  "pmm_consistent s \<Longrightarrow> pmm_consistent (fst (pmm_iteration v ira s))"
  by (simp_all add: pmm_iteration_def pmm_supply_def pmm_consistent_def)

lemma switch_output:
  assumes "circuit_run loads s = Inr (s', xs)" and "\<forall>(keepAlive, i) \<in> set loads. \<not> keepAlive"
    and "m_vOff (svs s) \<le> m_vOn (svs s)" and "x \<in> set xs"
  shows "sw_v_out (sw_out x) = 0 \<or> sw_v_out (sw_out x) > m_vOff (svs s)"
  using assms
proof (induction loads arbitrary: s xs)
  case (Cons o1 loads)
  obtain i where o1: "o1 = (False, i)" using Cons.prems(2) by (cases o1) auto
  obtain s1 y ys where st: "circuit_step False i s = Inr (s1, y)" "circuit_run loads s1 = Inr (s', ys)"
      "xs = y # ys"
    using Cons.prems(1) by (auto simp: o1 bind_r_eq_Inr)
  obtain sw out where d: "VoltageDetector_processing False i (m_crntVoltage (c_cap s)) (svs s) = (sw, out)"
    by fastforce
  then have y: "sw_out y = out" "svs s1 = sw"
    using st(1) by (auto simp: circuit_step_def Let_def bind_r_eq_Inr)
  have "sw_v_out out = 0 \<or> sw_v_out out > m_vOff (svs s)" "m_vOff sw = m_vOff (svs s)" "m_vOn sw = m_vOn (svs s)"
    using d Cons.prems(3) by (auto simp: VoltageDetector_processing_def Let_def split: if_splits)
  then show ?case
    using Cons.IH [OF st(2)] Cons.prems y st(3) by auto
qed simp


definition pmm_example :: pmm where
  "pmm_example =
     \<lparr>pm_regs = PMM_regs, pm_vOn = 19 / 10, pm_vOff = 18 / 10, pm_vMax = 36 / 10, m_locked = True,
      pm_isOn = False, m_powerOnResetCount = 0, m_bootCurrentTrace = [], m_bootCurrentTimeResolution = 1,
      bootCurrent = 0, pwrGood = False, pm_irq = False\<rparr>"


end
