(* ===== verification/Cm0_Decode.thy ===== *)
theory Cm0_Decode
  imports Cm0_State
begin

unbundle bit_operations_syntax

text \<open>
  \<open>mcu/cortex-m0/decode.c\<close>: the decoders of the Thumb instruction formats and the jump
  tables that select one from the upper bits of the instruction. A decoder leaves the
  fields it does not name as the previous instruction set them (\<open>DECODE_CLEAR\<close> is 0,
  \<open>DECODE_SAFE\<close> is 1). The 32-bit formats take their second half from the pipeline.
\<close>

definition set_decoded :: "(decode_result \<Rightarrow> decode_result) \<Rightarrow> ('s, unit) m0_op" where
  "set_decoded f = modify_s (\<lambda>s. s\<lparr>decoded := f (decoded s)\<rparr>)"

definition bits_at :: "nat \<Rightarrow> u16 \<Rightarrow> u16 \<Rightarrow> 'a::len word" where
  "bits_at sh m w = ucast (drop_bit sh w AND m)"

definition decode_3lo :: "u16 \<Rightarrow> ('s, unit) m0_op" where
  "decode_3lo pInsn = set_decoded (\<lambda>d.
     d\<lparr>rD := bits_at 0 0x7 pInsn, rN := bits_at 3 0x7 pInsn, rM := bits_at 6 0x7 pInsn\<rparr>)"

definition decode_2loimm5 :: "u16 \<Rightarrow> ('s, unit) m0_op" where
  "decode_2loimm5 pInsn = set_decoded (\<lambda>d.
     d\<lparr>rD := bits_at 0 0x7 pInsn, rM := bits_at 3 0x7 pInsn, rN := bits_at 3 0x7 pInsn,
       imm := bits_at 6 0x1F pInsn\<rparr>)"

definition decode_2loimm3 :: "u16 \<Rightarrow> ('s, unit) m0_op" where
  "decode_2loimm3 pInsn = set_decoded (\<lambda>d.
     d\<lparr>rD := bits_at 0 0x7 pInsn, rM := bits_at 3 0x7 pInsn, rN := bits_at 3 0x7 pInsn,
       imm := bits_at 6 0x7 pInsn\<rparr>)"

definition decode_2lo :: "u16 \<Rightarrow> ('s, unit) m0_op" where
  "decode_2lo pInsn = set_decoded (\<lambda>d.
     d\<lparr>rD := bits_at 0 0x7 pInsn, rM := bits_at 3 0x7 pInsn, rN := bits_at 3 0x7 pInsn\<rparr>)"

definition decode_imm8lo :: "u16 \<Rightarrow> ('s, unit) m0_op" where
  "decode_imm8lo pInsn = set_decoded (\<lambda>d.
     d\<lparr>rD := bits_at 8 0x7 pInsn, rM := bits_at 8 0x7 pInsn, rN := bits_at 8 0x7 pInsn,
       imm := bits_at 0 0xFF pInsn\<rparr>)"

definition decode_imm8 :: "u16 \<Rightarrow> ('s, unit) m0_op" where
  "decode_imm8 pInsn = set_decoded (\<lambda>d. d\<lparr>imm := bits_at 0 0xFF pInsn\<rparr>)"

definition decode_imm8c :: "u16 \<Rightarrow> ('s, unit) m0_op" where
  "decode_imm8c pInsn = set_decoded (\<lambda>d.
     d\<lparr>imm := bits_at 0 0xFF pInsn, cond := bits_at 8 0xF pInsn\<rparr>)"

definition decode_imm7 :: "u16 \<Rightarrow> ('s, unit) m0_op" where
  "decode_imm7 pInsn = set_decoded (\<lambda>d. d\<lparr>rD := 13, imm := bits_at 0 0x7F pInsn\<rparr>)"

definition decode_imm11 :: "u16 \<Rightarrow> ('s, unit) m0_op" where
  "decode_imm11 pInsn = set_decoded (\<lambda>d. d\<lparr>imm := bits_at 0 0x7FF pInsn\<rparr>)"

definition decode_reglistlo :: "u16 \<Rightarrow> ('s, unit) m0_op" where
  "decode_reglistlo pInsn = set_decoded (\<lambda>d.
     d\<lparr>rN := bits_at 8 0x7 pInsn, reg_list := bits_at 0 0xFF pInsn\<rparr>)"

definition decode_pop :: "u16 \<Rightarrow> ('s, unit) m0_op" where
  "decode_pop pInsn = set_decoded (\<lambda>d.
     d\<lparr>reg_list := push_bit 7 (bits_at 0 0x100 pInsn) OR bits_at 0 0xFF pInsn\<rparr>)"

definition decode_cps_push :: "u16 \<Rightarrow> ('s, unit) m0_op" where
  "decode_cps_push pInsn = set_decoded (\<lambda>d.
     d\<lparr>reg_list := bits_at 0 0xFF pInsn OR push_bit 6 (bits_at 0 0x100 pInsn),
       imm := bits_at 4 1 pInsn\<rparr>)"

definition decode_1all :: "u16 \<Rightarrow> ('s, unit) m0_op" where
  "decode_1all pInsn = set_decoded (\<lambda>d. d\<lparr>rM := bits_at 3 0xF pInsn\<rparr>)"

definition decode_mov_r :: "u16 \<Rightarrow> ('s, unit) m0_op" where
  "decode_mov_r pInsn = set_decoded (\<lambda>d.
     let r = bits_at 0 0x7 pInsn OR drop_bit 4 (bits_at 0 0x80 pInsn) in
     d\<lparr>rD := r, rN := r, rM := bits_at 3 0xF pInsn\<rparr>)"

definition decode_error :: "u16 \<Rightarrow> ('s, unit) m0_op" where
  "decode_error pInsn = fail_s Exit_failure"

text \<open>The immediate that marks the 32-bit instructions that are not BL.\<close>

definition not_bl :: u32 where "not_bl = 0x80000000"

definition bl_imm :: "u16 \<Rightarrow> u16 \<Rightarrow> u32" where
  "bl_imm pInsn secondHalf =
     (let S = bits_at 10 1 pInsn; J1 = bits_at 13 1 secondHalf; J2 = bits_at 11 1 secondHalf;
          I1 = NOT (J1 XOR S) AND 1; I2 = NOT (J2 XOR S) AND 1;
          imm10 = bits_at 0 0x3FF pInsn; imm11 = bits_at 0 0x7FF secondHalf
      in push_bit 23 S OR push_bit 22 I1 OR push_bit 21 I2 OR push_bit 11 imm10 OR imm11)"

definition decode_bl :: "sc_time \<Rightarrow> u16 \<Rightarrow> ('s, unit) m0_op" where
  "decode_bl period pInsn =
     bind_s (getNextPipelineInstr period) (\<lambda>secondHalf.
     let wholeInsn = push_bit 16 (ucast pInsn) OR ucast secondHalf :: u32 in
     if wholeInsn AND 0xf800d000 = 0xf000d000 then
       set_decoded (\<lambda>d. d\<lparr>imm := bl_imm pInsn secondHalf\<rparr>)
     else if wholeInsn AND NOT 0x00000fff = 0xf3ef8000 then
       set_decoded (\<lambda>d. d\<lparr>rM := ucast (wholeInsn AND 0x000000ff),
         rD := ucast (drop_bit 8 (wholeInsn AND 0x00000f00)), imm := not_bl\<rparr>)
     else if wholeInsn AND NOT 0x000f00ff = 0xf3808800 then
       set_decoded (\<lambda>d. d\<lparr>rD := ucast (wholeInsn AND 0x000000ff),
         rM := ucast (drop_bit 16 (wholeInsn AND 0x000f0000)), imm := not_bl\<rparr>)
     else if wholeInsn AND NOT 0x0000000f = 0xf3bf8f40 then
       set_decoded (\<lambda>d. d\<lparr>rD := push_bit 3 3, imm := not_bl\<rparr>)
     else if wholeInsn AND NOT 0x0000000f = 0xf3bf8f60 then
       set_decoded (\<lambda>d. d\<lparr>rD := push_bit 3 4, imm := not_bl\<rparr>)
     else fail_s Exit_failure)"

section \<open>Jump tables\<close>

definition decodeJumpTable17 :: "(u16 \<Rightarrow> ('s, unit) m0_op) list" where
  "decodeJumpTable17 = [decode_mov_r, decode_mov_r, decode_mov_r, decode_1all]"

definition decodeJumpTable44 :: "(u16 \<Rightarrow> ('s, unit) m0_op) list" where
  "decodeJumpTable44 = [decode_imm7, decode_error, decode_2lo, decode_error]"

definition decodeJumpTable47 :: "(u16 \<Rightarrow> ('s, unit) m0_op) list" where
  "decodeJumpTable47 = [decode_pop, decode_pop, decode_imm8, decode_imm8]"

definition decode_17 :: "u16 \<Rightarrow> ('s, unit) m0_op" where
  "decode_17 pInsn = (decodeJumpTable17 ! unat (drop_bit 8 pInsn AND 0x3)) pInsn"

definition decode_44 :: "u16 \<Rightarrow> ('s, unit) m0_op" where
  "decode_44 pInsn = (decodeJumpTable44 ! unat (drop_bit 8 pInsn AND 0x3)) pInsn"

definition decode_47 :: "u16 \<Rightarrow> ('s, unit) m0_op" where
  "decode_47 pInsn = (decodeJumpTable47 ! unat (drop_bit 8 pInsn AND 0x3)) pInsn"

definition decodeJumpTable :: "sc_time \<Rightarrow> (u16 \<Rightarrow> ('s, unit) m0_op) list" where
  "decodeJumpTable period =
    [decode_2loimm5,   decode_2loimm5,   decode_2loimm5,   decode_2loimm5,
     decode_2loimm5,   decode_2loimm5,   decode_3lo,       decode_2loimm3,
     decode_imm8lo,    decode_imm8lo,    decode_imm8lo,    decode_imm8lo,
     decode_imm8lo,    decode_imm8lo,    decode_imm8lo,    decode_imm8lo,
     decode_2lo,       decode_17,        decode_imm8lo,    decode_imm8lo,
     decode_3lo,       decode_3lo,       decode_3lo,       decode_3lo,
     decode_2loimm5,   decode_2loimm5,   decode_2loimm5,   decode_2loimm5,
     decode_2loimm5,   decode_2loimm5,   decode_2loimm5,   decode_2loimm5,
     decode_2loimm5,   decode_2loimm5,   decode_2loimm5,   decode_2loimm5,
     decode_imm8lo,    decode_imm8lo,    decode_imm8lo,    decode_imm8lo,
     decode_imm8lo,    decode_imm8lo,    decode_imm8lo,    decode_imm8lo,
     decode_44,        decode_cps_push,  decode_2lo,       decode_47,
     decode_reglistlo, decode_reglistlo, decode_reglistlo, decode_reglistlo,
     decode_imm8c,     decode_imm8c,     decode_imm8c,     decode_imm8c,
     decode_imm11,     decode_imm11,     decode_error,     decode_error,
     decode_bl period, decode_bl period, decode_error,     decode_error]"

definition decode :: "sc_time \<Rightarrow> u16 \<Rightarrow> ('s, unit) m0_op" where
  "decode period pInsn = (decodeJumpTable period ! unat (drop_bit 10 pInsn)) pInsn"

end
