(* ===== verification/Cm0_Execute.thy ===== *)
theory Cm0_Execute
  imports Cm0_Decode
begin

unbundle bit_operations_syntax

text \<open>
  The execute stage of the Cortex-M0 emulator: one definition per instruction
  (\<open>exmemwb_arith.c\<close>, \<open>exmemwb_logic.c\<close>, \<open>exmemwb_mem.c\<close>, \<open>exmemwb_branch.c\<close>,
  \<open>exmemwb_misc.c\<close> of \<open>mcu/cortex-m0\<close>) and the jump tables of \<open>exmemwb.c\<close>. An instruction
  returns the number of extra cycles it takes.
\<close>

definition TIMING_DEFAULT :: nat where "TIMING_DEFAULT = 0"
definition TIMING_MULTIPLY :: nat where "TIMING_MULTIPLY = 32"
definition TIMING_POP_AND_RETURN :: nat where "TIMING_POP_AND_RETURN = 1"
definition TIMING_SPECIAL_REGISTER :: nat where "TIMING_SPECIAL_REGISTER = 1"

lemmas timing = TIMING_DEFAULT_def TIMING_MULTIPLY_def TIMING_POP_AND_RETURN_def
  TIMING_SPECIAL_REGISTER_def

text \<open>The registers named by the decoded instruction.\<close>

definition get_rD :: "('s, u32) m0_op" where
  "get_rD = bind_s (gets_s (\<lambda>s. unat (rD (decoded s)))) cpu_get_gpr"

definition get_rM :: "('s, u32) m0_op" where
  "get_rM = bind_s (gets_s (\<lambda>s. unat (rM (decoded s)))) cpu_get_gpr"

definition get_rN :: "('s, u32) m0_op" where
  "get_rN = bind_s (gets_s (\<lambda>s. unat (rN (decoded s)))) cpu_get_gpr"

definition set_rD :: "u32 \<Rightarrow> ('s, unit) m0_op" where
  "set_rD y = bind_s (gets_s (\<lambda>s. unat (rD (decoded s)))) (\<lambda>x. cpu_set_gpr x y)"

definition set_rN :: "u32 \<Rightarrow> ('s, unit) m0_op" where
  "set_rN y = bind_s (gets_s (\<lambda>s. unat (rN (decoded s)))) (\<lambda>x. cpu_set_gpr x y)"

definition get_imm :: "('s, u32) m0_op" where
  "get_imm = gets_s (\<lambda>s. imm (decoded s))"

definition get_reg_list :: "('s, u32) m0_op" where
  "get_reg_list = gets_s (\<lambda>s. reg_list (decoded s))"

text \<open>Every addition and subtraction ends with the four flags, in this order.\<close>

definition nzcv :: "u32 \<Rightarrow> u32 \<Rightarrow> ('s, u32) m0_op \<Rightarrow> u32 \<Rightarrow> ('s, nat) m0_op" where
  "nzcv opA opB carry result =
     do_all_then
       [do_nflag result, do_zflag result, bind_s carry (do_cflag opA opB), do_vflag opA opB result]
       (return_s TIMING_DEFAULT)"

definition nz :: "u32 \<Rightarrow> nat \<Rightarrow> ('s, nat) m0_op" where
  "nz result cycles = do_all_then [do_nflag result, do_zflag result] (return_s cycles)"

section \<open>Addition, subtraction, multiplication\<close>

definition adcs :: "('s, nat) m0_op" where
  "adcs = bind_s get_rD (\<lambda>opA. bind_s get_rM (\<lambda>opB. bind_s cpu_get_flag_c (\<lambda>c.
     let result = opA + opB + c in
     then_s (set_rD result) (nzcv opA opB cpu_get_flag_c result))))"

definition adds_i3 :: "('s, nat) m0_op" where
  "adds_i3 = bind_s get_rN (\<lambda>opA. bind_s get_imm (\<lambda>opB.
     let result = opA + opB in
     then_s (set_rD result) (nzcv opA opB (return_s 0) result)))"

definition adds_i8 :: "('s, nat) m0_op" where
  "adds_i8 = bind_s get_rD (\<lambda>opA. bind_s get_imm (\<lambda>opB.
     let result = opA + opB in
     then_s (set_rD result) (nzcv opA opB (return_s 0) result)))"

definition adds_r :: "('s, nat) m0_op" where
  "adds_r = bind_s get_rN (\<lambda>opA. bind_s get_rM (\<lambda>opB.
     let result = opA + opB in
     then_s (set_rD result) (nzcv opA opB (return_s 0) result)))"

definition add_r :: "('s, nat) m0_op" where
  "add_r = bind_s (gets_s decoded) (\<lambda>d.
     then_s (require_s (\<not> (rD d = 15 \<and> rM d = 15)) Exit_failure)
      (bind_s get_rD (\<lambda>opA. bind_s get_rM (\<lambda>opB.
        let result = opA + opB in
        then_s (if rD d = 15 then alu_write_pc result else set_rD result)
          (return_s (if rD d = 15 then 2 else 1))))))"

definition add_sp :: "('s, nat) m0_op" where
  "add_sp = bind_s cpu_get_sp (\<lambda>opA. bind_s get_imm (\<lambda>i.
     then_s (set_rD (opA + push_bit 2 i)) (return_s TIMING_DEFAULT)))"

definition adr :: "('s, nat) m0_op" where
  "adr = bind_s cpu_get_pc (\<lambda>pc. bind_s get_imm (\<lambda>i.
     let opA = pc AND 0xFFFFFFFC in
     then_s (set_rD (opA + push_bit 2 i)) (return_s TIMING_DEFAULT)))"

definition subs_i3 :: "('s, nat) m0_op" where
  "subs_i3 = bind_s get_rN (\<lambda>opA. bind_s get_imm (\<lambda>i.
     let opB = NOT i; result = opA + opB + 1 in
     then_s (set_rD result) (nzcv opA opB (return_s 1) result)))"

definition subs_i8 :: "('s, nat) m0_op" where
  "subs_i8 = bind_s get_rD (\<lambda>opA. bind_s get_imm (\<lambda>i.
     let opB = NOT i; result = opA + opB + 1 in
     then_s (set_rD result) (nzcv opA opB (return_s 1) result)))"

definition subs :: "('s, nat) m0_op" where
  "subs = bind_s get_rN (\<lambda>opA. bind_s get_rM (\<lambda>m.
     let opB = NOT m; result = opA + opB + 1 in
     then_s (set_rD result) (nzcv opA opB (return_s 1) result)))"

definition sub_sp :: "('s, nat) m0_op" where
  "sub_sp = bind_s cpu_get_sp (\<lambda>opA. bind_s get_imm (\<lambda>i.
     let opB = NOT (push_bit 2 i); result = opA + opB + 1 in
     then_s (cpu_set_sp result) (return_s TIMING_DEFAULT)))"

definition sbcs :: "('s, nat) m0_op" where
  "sbcs = bind_s get_rD (\<lambda>opA. bind_s get_rM (\<lambda>m. bind_s cpu_get_flag_c (\<lambda>c.
     let opB = NOT m; result = opA + opB + c in
     then_s (set_rD result) (nzcv opA opB cpu_get_flag_c result))))"

definition rsbs :: "('s, nat) m0_op" where
  "rsbs = bind_s get_rN (\<lambda>n.
     let opA = 0; opB = NOT n; result = opA + opB + 1 in
     then_s (set_rD result) (nzcv opA opB (return_s 1) result))"

definition muls :: "('s, nat) m0_op" where
  "muls = bind_s get_rD (\<lambda>opA. bind_s get_rM (\<lambda>opB.
     let result = opA * opB in
     then_s (set_rD result) (nz result TIMING_MULTIPLY)))"

section \<open>Logic\<close>

definition ands :: "('s, nat) m0_op" where
  "ands = bind_s get_rD (\<lambda>opA. bind_s get_rM (\<lambda>opB.
     let result = opA AND opB in then_s (set_rD result) (nz result TIMING_DEFAULT)))"

definition bics :: "('s, nat) m0_op" where
  "bics = bind_s get_rD (\<lambda>opA. bind_s get_rM (\<lambda>opB.
     let result = opA AND NOT opB in then_s (set_rD result) (nz result TIMING_DEFAULT)))"

definition eors :: "('s, nat) m0_op" where
  "eors = bind_s get_rD (\<lambda>opA. bind_s get_rM (\<lambda>opB.
     let result = opA XOR opB in then_s (set_rD result) (nz result TIMING_DEFAULT)))"

definition orrs :: "('s, nat) m0_op" where
  "orrs = bind_s get_rD (\<lambda>opA. bind_s get_rM (\<lambda>opB.
     let result = opA OR opB in then_s (set_rD result) (nz result TIMING_DEFAULT)))"

definition mvns :: "('s, nat) m0_op" where
  "mvns = bind_s get_rM (\<lambda>opA.
     let result = NOT opA in then_s (set_rD result) (nz result TIMING_DEFAULT))"

section \<open>Shifts and rotations\<close>

definition asr_value :: "u32 \<Rightarrow> nat \<Rightarrow> u32" where
  "asr_value opA n =
     (if opA AND 0x80000000 \<noteq> 0 then drop_bit n opA OR push_bit (32 - n) 0xFFFFFFFF
      else drop_bit n opA)"

definition asrs_i :: "('s, nat) m0_op" where
  "asrs_i = bind_s get_rM (\<lambda>opA. bind_s get_imm (\<lambda>i.
     let opB = (if i = 0 then 32 else unat i);
         result = (if i = 0 then (if opA AND 0x80000000 \<noteq> 0 then NOT 0 else 0)
                   else asr_value opA opB)
     in do_all_then [cpu_set_flag_c (drop_bit (opB - 1) opA AND 1), set_rD result]
          (nz result TIMING_DEFAULT)))"

definition asrs_r :: "('s, nat) m0_op" where
  "asrs_r = bind_s get_rD (\<lambda>opA. bind_s get_rM (\<lambda>m.
     let opB = unat (m AND 0xFF);
         result = (if opB = 0 then opA
                   else if opB < 32 then asr_value opA opB
                   else if opA AND 0x80000000 \<noteq> 0 then NOT 0 else 0)
     in do_all_then
          [when_s (opB \<noteq> 0)
             (cpu_set_flag_c (if 32 \<le> opB then drop_bit 31 opA else drop_bit (opB - 1) opA AND 1)),
           set_rD result]
          (nz result TIMING_DEFAULT)))"

definition lsls_i :: "('s, nat) m0_op" where
  "lsls_i = bind_s get_rM (\<lambda>opA. bind_s get_imm (\<lambda>i.
     let opB = unat i; result = push_bit opB opA in
     do_all_then
       [set_rD result, do_nflag result, do_zflag result,
        bind_s cpu_get_flag_c (\<lambda>c.
          cpu_set_flag_c (if opB = 0 then c else drop_bit 31 (push_bit (opB - 1) opA)))]
       (return_s TIMING_DEFAULT)))"

definition lsrs_i :: "('s, nat) m0_op" where
  "lsrs_i = bind_s get_rM (\<lambda>opA. bind_s get_imm (\<lambda>i.
     let opB = unat i; result = (if opB \<noteq> 0 then drop_bit opB opA else 0) in
     do_all_then
       [set_rD result, do_nflag result, do_zflag result,
        cpu_set_flag_c (if opB = 0 then 0 else drop_bit (opB - 1) opA AND 1)]
       (return_s TIMING_DEFAULT)))"

definition lsls_r :: "('s, nat) m0_op" where
  "lsls_r = bind_s get_rD (\<lambda>opA. bind_s get_rM (\<lambda>m.
     let opB = unat (m AND 0xFF); result = (if 32 \<le> opB then 0 else push_bit opB opA) in
     do_all_then
       [set_rD result, do_nflag result, do_zflag result,
        bind_s cpu_get_flag_c (\<lambda>c.
          cpu_set_flag_c (if opB = 0 then c else if 32 < opB then 0
            else drop_bit 31 (push_bit (opB - 1) opA)))]
       (return_s TIMING_DEFAULT)))"

definition lsrs_r :: "('s, nat) m0_op" where
  "lsrs_r = bind_s get_rD (\<lambda>opA. bind_s get_rM (\<lambda>m.
     let opB = unat (m AND 0xFF); result = (if 32 \<le> opB then 0 else drop_bit opB opA) in
     do_all_then
       [set_rD result, do_nflag result, do_zflag result,
        bind_s cpu_get_flag_c (\<lambda>c.
          cpu_set_flag_c (if opB = 0 then c else if 32 < opB then 0
            else drop_bit (opB - 1) opA AND 1))]
       (return_s TIMING_DEFAULT)))"

definition rors :: "('s, nat) m0_op" where
  "rors = bind_s get_rD (\<lambda>opA. bind_s get_rM (\<lambda>m.
     let opB0 = m AND 0xFF; opB = unat (opB0 AND 0x1F);
         result = (if opB0 = 0 \<or> opB = 0 then opA else drop_bit opB opA OR push_bit (32 - opB) opA)
     in then_s
          (when_s (opB0 \<noteq> 0)
             (do_all [cpu_set_flag_c (drop_bit 31 result AND 1), set_rD result]))
          (nz result TIMING_DEFAULT)))"

section \<open>Loads and stores\<close>

definition reg_bit :: "u32 \<Rightarrow> nat \<Rightarrow> bool" where
  "reg_bit regs i \<longleftrightarrow> regs AND push_bit i 1 \<noteq> 0"

fun ldm_loop :: "'s transport \<Rightarrow> nat list \<Rightarrow> u32 \<Rightarrow> u32 \<Rightarrow> ('s, u32) m0_op" where
  "ldm_loop bt [] regs addr = return_s addr"
| "ldm_loop bt (i # is) regs addr =
     (if reg_bit regs i then
        bind_s (simLoadWord bt addr) (\<lambda>x.
          then_s (cpu_set_gpr i x) (ldm_loop bt is regs (addr + 4)))
      else ldm_loop bt is regs addr)"

definition ldm :: "'s transport \<Rightarrow> ('s, nat) m0_op" where
  "ldm bt = bind_s get_reg_list (\<lambda>regs.
     bind_s (gets_s (\<lambda>s. push_bit (unat (rN (decoded s))) 1 AND regs)) (\<lambda>rNWritten.
     bind_s get_rN (\<lambda>base.
     bind_s (ldm_loop bt [0..<8] regs base) (\<lambda>addr.
     then_s (when_s (rNWritten = 0) (set_rN addr)) (return_s TIMING_DEFAULT)))))"

fun stm_loop :: "'s transport \<Rightarrow> nat list \<Rightarrow> u32 \<Rightarrow> nat \<Rightarrow> u32 \<Rightarrow> ('s, u32) m0_op" where
  "stm_loop bt [] regs numStored addr = return_s addr"
| "stm_loop bt (i # is) regs numStored addr =
     (if reg_bit regs i then
        bind_s (gets_s (\<lambda>s. unat (rN (decoded s)))) (\<lambda>n.
        then_s (require_s (\<not> (i = n \<and> numStored = 0)) Exit_failure)
         (bind_s (cpu_get_gpr i) (\<lambda>x.
          then_s (simStoreWord bt addr x) (stm_loop bt is regs (numStored + 1) (addr + 4)))))
      else stm_loop bt is regs numStored addr)"

definition stm :: "'s transport \<Rightarrow> ('s, nat) m0_op" where
  "stm bt = bind_s get_reg_list (\<lambda>regs. bind_s get_rN (\<lambda>base.
     bind_s (stm_loop bt [0..<8] regs 0 base) (\<lambda>addr.
     then_s (set_rN addr) (return_s TIMING_DEFAULT))))"

text \<open>The loop of \<open>pop\<close> runs over registers 0 to 7 and 15; it returns the address after the
  last word, the exception return address (0 for none) and the extra cycles.\<close>

fun pop_regs :: "'s transport \<Rightarrow> nat list \<Rightarrow> u32 \<Rightarrow> u32 \<Rightarrow> u32 \<Rightarrow> nat \<Rightarrow> ('s, u32 \<times> u32 \<times> nat) m0_op" where
  "pop_regs bt [] regs addr exc cycles = return_s (addr, exc, cycles)"
| "pop_regs bt (i # is) regs addr exc cycles =
     (if reg_bit regs i then
        bind_s (simLoadWord bt addr) (\<lambda>x.
        then_s (cpu_set_gpr i x)
         (if i = 15 then
            then_s take_branch
              (pop_regs bt is regs (addr + 4) (if x AND 0xf0000000 = 0xf0000000 then x else exc)
                TIMING_POP_AND_RETURN)
          else pop_regs bt is regs (addr + 4) exc cycles))
      else pop_regs bt is regs addr exc cycles)"

definition pop :: "'s transport \<Rightarrow> ('s, nat) m0_op" where
  "pop bt = bind_s get_reg_list (\<lambda>regs. bind_s cpu_get_sp (\<lambda>sp.
     bind_s (pop_regs bt ([0..<8] @ [15]) regs sp 0 TIMING_DEFAULT) (\<lambda>(addr, exc, cycles).
     do_all_then [cpu_set_sp addr, when_s (exc \<noteq> 0) (exceptionReturn bt exc)] (return_s cycles))))"

fun push_regs :: "'s transport \<Rightarrow> nat list \<Rightarrow> u32 \<Rightarrow> u32 \<Rightarrow> ('s, u32) m0_op" where
  "push_regs bt [] regs addr = return_s addr"
| "push_regs bt (i # is) regs addr =
     (if reg_bit regs i then
        bind_s (cpu_get_gpr i) (\<lambda>x.
          then_s (simStoreWord bt (addr - 4) x) (push_regs bt is regs (addr - 4)))
      else push_regs bt is regs addr)"

definition push :: "'s transport \<Rightarrow> ('s, nat) m0_op" where
  "push bt = bind_s get_reg_list (\<lambda>regs. bind_s cpu_get_sp (\<lambda>sp.
     bind_s (push_regs bt (14 # rev [0..<8]) regs sp) (\<lambda>addr.
     then_s (cpu_set_sp addr) (return_s TIMING_DEFAULT))))"

text \<open>Single transfers: the base register, the offset, and what is done at their sum.\<close>

definition at_sum :: "('s, u32) m0_op \<Rightarrow> ('s, u32) m0_op \<Rightarrow> (u32 \<Rightarrow> ('s, unit) m0_op) \<Rightarrow> ('s, nat) m0_op" where
  "at_sum base offs f = bind_s base (\<lambda>b. bind_s offs (\<lambda>d.
     then_s (f (b + d)) (return_s TIMING_DEFAULT)))"

definition imm_shifted :: "nat \<Rightarrow> ('s, u32) m0_op" where
  "imm_shifted n = bind_s get_imm (\<lambda>i. return_s (push_bit n i))"

definition load_word :: "'s transport \<Rightarrow> u32 \<Rightarrow> ('s, unit) m0_op" where
  "load_word bt a = bind_s (simLoadWord bt a) set_rD"

definition load_byte :: "'s transport \<Rightarrow> u32 \<Rightarrow> ('s, unit) m0_op" where
  "load_byte bt a = bind_s (simLoadByte bt a) (\<lambda>x. set_rD (x AND 0xFF))"

definition load_half :: "'s transport \<Rightarrow> u32 \<Rightarrow> ('s, unit) m0_op" where
  "load_half bt a = bind_s (simLoadHalfWord bt (a AND NOT 1)) (\<lambda>x. set_rD (x AND 0xFFFF))"

definition store_word :: "'s transport \<Rightarrow> u32 \<Rightarrow> ('s, unit) m0_op" where
  "store_word bt a = bind_s get_rD (simStoreWord bt a)"

definition store_byte :: "'s transport \<Rightarrow> u32 \<Rightarrow> ('s, unit) m0_op" where
  "store_byte bt a = bind_s get_rD (\<lambda>x. simStoreByte bt a (ucast (x AND 0xFF)))"

definition store_half :: "'s transport \<Rightarrow> u32 \<Rightarrow> ('s, unit) m0_op" where
  "store_half bt a = bind_s get_rD (\<lambda>x. simStoreHalfWord bt (a AND NOT 1) (ucast (x AND 0xFFFF)))"

definition ldr_i :: "'s transport \<Rightarrow> ('s, nat) m0_op" where
  "ldr_i bt = at_sum get_rN (imm_shifted 2) (load_word bt)"

definition ldr_sp :: "'s transport \<Rightarrow> ('s, nat) m0_op" where
  "ldr_sp bt = at_sum cpu_get_sp (imm_shifted 2) (load_word bt)"

definition ldr_lit :: "'s transport \<Rightarrow> ('s, nat) m0_op" where
  "ldr_lit bt = at_sum (bind_s cpu_get_pc (\<lambda>pc. return_s (pc AND 0xFFFFFFFC))) (imm_shifted 2) (load_word bt)"

definition ldr_r :: "'s transport \<Rightarrow> ('s, nat) m0_op" where
  "ldr_r bt = at_sum get_rN get_rM (load_word bt)"

definition ldrb_i :: "'s transport \<Rightarrow> ('s, nat) m0_op" where
  "ldrb_i bt = at_sum get_rN get_imm (load_byte bt)"

definition ldrb_r :: "'s transport \<Rightarrow> ('s, nat) m0_op" where
  "ldrb_r bt = at_sum get_rN get_rM (load_byte bt)"

definition ldrh_i :: "'s transport \<Rightarrow> ('s, nat) m0_op" where
  "ldrh_i bt = at_sum get_rN (imm_shifted 1) (load_half bt)"

definition ldrh_r :: "'s transport \<Rightarrow> ('s, nat) m0_op" where
  "ldrh_r bt = at_sum get_rN get_rM (load_half bt)"

definition ldrsb_r :: "'s transport \<Rightarrow> ('s, nat) m0_op" where
  "ldrsb_r bt = at_sum get_rN get_rM (\<lambda>a. bind_s (simLoadByte bt a) (\<lambda>x.
     set_rD (signExtend32 (x AND 0xFF) 8)))"

definition ldrsh_r :: "'s transport \<Rightarrow> ('s, nat) m0_op" where
  "ldrsh_r bt = at_sum get_rN get_rM (\<lambda>a. bind_s (simLoadHalfWord bt (a AND NOT 1)) (\<lambda>x.
     set_rD (signExtend32 (x AND 0xFFFF) 16)))"

definition str_i :: "'s transport \<Rightarrow> ('s, nat) m0_op" where
  "str_i bt = at_sum get_rN (imm_shifted 2) (store_word bt)"

definition str_sp :: "'s transport \<Rightarrow> ('s, nat) m0_op" where
  "str_sp bt = at_sum cpu_get_sp (imm_shifted 2) (store_word bt)"

definition str_r :: "'s transport \<Rightarrow> ('s, nat) m0_op" where
  "str_r bt = at_sum get_rN get_rM (store_word bt)"

definition strb_i :: "'s transport \<Rightarrow> ('s, nat) m0_op" where
  "strb_i bt = at_sum get_rN get_imm (store_byte bt)"

definition strb_r :: "'s transport \<Rightarrow> ('s, nat) m0_op" where
  "strb_r bt = at_sum get_rN get_rM (store_byte bt)"

definition strh_i :: "'s transport \<Rightarrow> ('s, nat) m0_op" where
  "strh_i bt = at_sum get_rN (imm_shifted 1) (store_half bt)"

definition strh_r :: "'s transport \<Rightarrow> ('s, nat) m0_op" where
  "strh_r bt = at_sum get_rN get_rM (store_half bt)"

end
