(* ===== verification/Cm0_Tables.thy ===== *)
theory Cm0_Tables
  imports Cm0_Execute
begin

unbundle bit_operations_syntax

text \<open>
  The remaining instructions of the Cortex-M0 emulator: comparisons and branches
  (\<open>exmemwb_branch.c\<close>), moves, special registers and byte manipulation
  (\<open>exmemwb_misc.c\<close>), and the jump tables that select an instruction (\<open>exmemwb.c\<close>).
\<close>

section \<open>Comparisons\<close>

definition cmn :: "('s, nat) m0_op" where
  "cmn = bind_s get_rM (\<lambda>opA. bind_s get_rN (\<lambda>opB.
     nzcv opA opB (return_s 0) (opA + opB)))"

definition cmp_i :: "('s, nat) m0_op" where
  "cmp_i = bind_s get_rD (\<lambda>opA. bind_s get_imm (\<lambda>i.
     let opB = NOT i in nzcv opA opB (return_s 1) (opA + opB + 1)))"

definition cmp_r :: "('s, nat) m0_op" where
  "cmp_r = bind_s get_rD (\<lambda>opA. bind_s get_rM (\<lambda>m.
     let opB = NOT m in nzcv opA opB (return_s 1) (opA + opB + 1)))"

definition tst :: "('s, nat) m0_op" where
  "tst = bind_s get_rD (\<lambda>opA. bind_s get_rM (\<lambda>opB. nz (opA AND opB) TIMING_DEFAULT))"

section \<open>Branches\<close>

definition branch_by :: "u32 \<Rightarrow> ('s, nat) m0_op" where
  "branch_by offs = bind_s cpu_get_pc (\<lambda>pc.
     do_all_then [cpu_set_pc (offs + pc), take_branch] (return_s TIMING_DEFAULT))"

definition b_insn :: "('s, nat) m0_op" where
  "b_insn = bind_s get_imm (\<lambda>i. branch_by (signExtend32 (push_bit 1 i) 12))"

text \<open>The condition of a conditional branch; 14 and 15 are not conditions.\<close>

definition taken :: "u32 \<Rightarrow> u32 \<Rightarrow> bool option" where
  "taken cc w =
     (let n = flag_of 31 w; z = flag_of 30 w; c = flag_of 29 w; v = flag_of 28 w in
      if cc = 0x0 then Some (z \<noteq> 0)
      else if cc = 0x1 then Some (\<not> z \<noteq> 0)
      else if cc = 0x2 then Some (c \<noteq> 0)
      else if cc = 0x3 then Some (\<not> c \<noteq> 0)
      else if cc = 0x4 then Some (n \<noteq> 0)
      else if cc = 0x5 then Some (\<not> n \<noteq> 0)
      else if cc = 0x6 then Some (v \<noteq> 0)
      else if cc = 0x7 then Some (\<not> v \<noteq> 0)
      else if cc = 0x8 then Some (c \<noteq> 0 \<and> \<not> z \<noteq> 0)
      else if cc = 0x9 then Some (z \<noteq> 0 \<or> \<not> c \<noteq> 0)
      else if cc = 0xA then Some (n = v)
      else if cc = 0xB then Some (n \<noteq> v)
      else if cc = 0xC then Some (\<not> z \<noteq> 0 \<and> n = v)
      else if cc = 0xD then Some (z \<noteq> 0 \<or> n \<noteq> v)
      else None)"

definition b_c :: "('s, nat) m0_op" where
  "b_c = bind_s (gets_s (\<lambda>s. taken (cond (decoded s)) (apsr s))) (\<lambda>t.
     case t of None \<Rightarrow> fail_s Exit_failure
     | Some False \<Rightarrow> return_s TIMING_DEFAULT
     | Some True \<Rightarrow> bind_s get_imm (\<lambda>i. branch_by (signExtend32 (push_bit 1 i) 9)))"

definition blx :: "('s, nat) m0_op" where
  "blx = bind_s get_rM (\<lambda>addr.
     then_s (require_s (addr AND 1 \<noteq> 0) Exit_failure)
      (do_all_then [bind_s cpu_get_pc (\<lambda>pc. cpu_set_lr (pc - 2)), cpu_set_pc addr, take_branch]
        (return_s TIMING_DEFAULT)))"

definition bx :: "'s transport \<Rightarrow> ('s, nat) m0_op" where
  "bx bt = bind_s get_rM (\<lambda>addr.
     then_s (require_s (addr AND 1 \<noteq> 0) Exit_failure)
      (do_all_then
        [if drop_bit 28 addr = 0xF then exceptionReturn bt addr else cpu_set_pc addr, take_branch]
        (return_s TIMING_DEFAULT)))"

definition bl :: "('s, nat) m0_op" where
  "bl = bind_s get_imm (\<lambda>i. bind_s cpu_get_pc (\<lambda>pc.
     do_all_then
       [cpu_set_lr pc, cpu_set_pc (signExtend32 (push_bit 1 i) 25 + pc), take_branch]
       (return_s TIMING_DEFAULT)))"

section \<open>Moves and special registers\<close>

definition movs_i :: "('s, nat) m0_op" where
  "movs_i = bind_s get_imm (\<lambda>opA. then_s (set_rD opA) (nz opA TIMING_DEFAULT))"

definition mov_r :: "('s, nat) m0_op" where
  "mov_r = bind_s get_rM (\<lambda>opA. bind_s (gets_s (\<lambda>s. rD (decoded s))) (\<lambda>d.
     then_s (if d = 15 then alu_write_pc opA else set_rD opA) (return_s TIMING_DEFAULT)))"

definition movs_r :: "('s, nat) m0_op" where
  "movs_r = bind_s get_rM (\<lambda>opA. then_s (set_rD opA) (nz opA TIMING_DEFAULT))"

definition mrs :: "('s, nat) m0_op" where
  "mrs = bind_s (gets_s decoded) (\<lambda>dec. let n = rM dec; sel = drop_bit 3 (n AND 0xf8) in
     bind_s
       (if sel = 0 then
          bind_s cpu_get_ipsr (\<lambda>i. bind_s get_rD (\<lambda>g. bind_s cpu_get_apsr (\<lambda>a.
            return_s ((if n AND 1 \<noteq> 0 then i else 0)
              OR (if n AND 2 \<noteq> 0 then g AND NOT (push_bit 24 1) else 0)
              OR (if n AND 4 = 0 then a AND 0xf0000000 else 0)))))
        else if sel = 1 then
          (if n AND 7 = 0 \<or> n AND 7 = 1 then cpu_get_sp else return_s 0)
        else if sel = 2 then
          (if n AND 7 = 0 then gets_s (\<lambda>s. primask s AND 1)
           else if n AND 7 = 4 then gets_s (\<lambda>s. control s AND 3) else return_s 0)
        else return_s 0)
       (\<lambda>result. do_all_then [set_rD result, take_branch] (return_s TIMING_SPECIAL_REGISTER)))"

definition msr_control :: "u32 \<Rightarrow> u32 \<Rightarrow> u32" where
  "msr_control c nval =
     (let c1 = (c AND NOT 1) OR (nval AND NOT 1) in (c1 AND NOT 2) OR (nval AND NOT 2))"

definition msr :: "('s, nat) m0_op" where
  "msr = bind_s get_rM (\<lambda>nval. bind_s (gets_s (\<lambda>s. rD (decoded s))) (\<lambda>d.
     let sel = drop_bit 3 (d AND 0xf8) in
     do_all_then
       [if sel = 0 then when_s (d AND 4 \<noteq> 0) (cpu_set_apsr (nval AND 0xf8000000))
        else if sel = 1 then when_s (d AND 7 = 0 \<or> d AND 7 = 1) (cpu_set_sp (nval AND NOT 3))
        else if sel = 2 then
          (if d AND 7 = 0 then modify_s (\<lambda>s. s\<lparr>primask := nval AND 1\<rparr>)
           else modify_s (\<lambda>s. if d AND 7 = 4 \<and> cpu_mode_is_thread s
             then s\<lparr>control := msr_control (control s) nval\<rparr> else s))
        else return_s (),
        take_branch]
       (return_s TIMING_SPECIAL_REGISTER)))"

definition cps :: "('s, nat) m0_op" where
  "cps = bind_s get_imm (\<lambda>i.
     then_s (modify_s (\<lambda>s. s\<lparr>primask := i\<rparr>)) (return_s TIMING_DEFAULT))"

definition nop :: "('s, nat) m0_op" where
  "nop = return_s TIMING_DEFAULT"

section \<open>Bytes and halfwords of a word\<close>

definition of_rM :: "(u32 \<Rightarrow> u32) \<Rightarrow> ('s, nat) m0_op" where
  "of_rM f = bind_s get_rM (\<lambda>opA. then_s (set_rD (f opA)) (return_s TIMING_DEFAULT))"

definition sxtb :: "('s, nat) m0_op" where
  "sxtb = of_rM (\<lambda>opA. let result = 0xFF AND opA in
     if result AND 0x80 \<noteq> 0 then result OR 0xFFFFFF00 else result)"

definition sxth :: "('s, nat) m0_op" where
  "sxth = of_rM (\<lambda>opA. let result = 0xFFFF AND opA in
     if result AND 0x8000 \<noteq> 0 then result OR 0xFFFF0000 else result)"

definition uxtb :: "('s, nat) m0_op" where
  "uxtb = of_rM (\<lambda>opA. 0xFF AND opA)"

definition uxth :: "('s, nat) m0_op" where
  "uxth = of_rM (\<lambda>opA. 0xFFFF AND opA)"

definition rev_word :: "u32 \<Rightarrow> u32" where
  "rev_word opA = push_bit 24 opA OR (push_bit 8 opA AND 0xFF0000)
     OR (drop_bit 8 opA AND 0xFF00) OR drop_bit 24 opA"

definition rev_insn :: "('s, nat) m0_op" where
  "rev_insn = of_rM rev_word"

definition rev16_word :: "u32 \<Rightarrow> u32" where
  "rev16_word opA = (push_bit 8 opA AND 0xFF000000) OR (drop_bit 8 opA AND 0xFF0000)
     OR (push_bit 8 opA AND 0xFF00) OR (drop_bit 8 opA AND 0xFF)"

definition rev16 :: "('s, nat) m0_op" where
  "rev16 = of_rM rev16_word"

definition revsh :: "('s, nat) m0_op" where
  "revsh = of_rM (\<lambda>opA.
     push_bit 8 (if opA AND 0x8 \<noteq> 0 then 0xFFFFFF00 OR opA else 0xFF AND opA)
       OR (drop_bit 8 opA AND 0xFF))"

section \<open>Jump tables\<close>

definition exmemwb_error :: "('s, nat) m0_op" where
  "exmemwb_error = fail_s Exit_failure"

definition slot :: "nat \<Rightarrow> u16 \<Rightarrow> u16 \<Rightarrow> nat" where
  "slot sh m insn = unat (drop_bit sh insn AND m)"

definition entry6 :: "u16 \<Rightarrow> ('s, nat) m0_op" where
  "entry6 insn = [adds_r, subs] ! slot 9 0x1 insn"

definition entry7 :: "u16 \<Rightarrow> ('s, nat) m0_op" where
  "entry7 insn = [adds_i3, subs_i3] ! slot 9 0x1 insn"

definition executeJumpTable16 :: "('s, nat) m0_op list" where
  "executeJumpTable16 =
    [ands, eors, lsls_r, lsrs_r, asrs_r, adcs, sbcs, rors,
     tst, rsbs, cmp_r, exmemwb_error, orrs, muls, bics, mvns]"

definition entry16 :: "u16 \<Rightarrow> ('s, nat) m0_op" where
  "entry16 insn = executeJumpTable16 ! slot 6 0xF insn"

definition executeJumpTable17 :: "'s transport \<Rightarrow> ('s, nat) m0_op list" where
  "executeJumpTable17 bt = [add_r, add_r, cmp_r, cmp_r, mov_r, mov_r, bx bt, blx]"

definition entry17 :: "'s transport \<Rightarrow> u16 \<Rightarrow> ('s, nat) m0_op" where
  "entry17 bt insn = executeJumpTable17 bt ! slot 7 0x7 insn"

definition entry20 :: "'s transport \<Rightarrow> u16 \<Rightarrow> ('s, nat) m0_op" where
  "entry20 bt insn = [str_r bt, strh_r bt] ! slot 9 0x1 insn"

definition entry21 :: "'s transport \<Rightarrow> u16 \<Rightarrow> ('s, nat) m0_op" where
  "entry21 bt insn = [strb_r bt, ldrsb_r bt] ! slot 9 0x1 insn"

definition entry22 :: "'s transport \<Rightarrow> u16 \<Rightarrow> ('s, nat) m0_op" where
  "entry22 bt insn = [ldr_r bt, ldrh_r bt] ! slot 9 0x1 insn"

definition entry23 :: "'s transport \<Rightarrow> u16 \<Rightarrow> ('s, nat) m0_op" where
  "entry23 bt insn = [ldrb_r bt, ldrsh_r bt] ! slot 9 0x1 insn"

definition executeJumpTable44 :: "('s, nat) m0_op list" where
  "executeJumpTable44 =
    [add_sp, add_sp, sub_sp, sub_sp, exmemwb_error, exmemwb_error, exmemwb_error, exmemwb_error,
     sxth, sxtb, uxth, uxtb, exmemwb_error, exmemwb_error, exmemwb_error, exmemwb_error]"

definition entry44 :: "u16 \<Rightarrow> ('s, nat) m0_op" where
  "entry44 insn = executeJumpTable44 ! slot 6 0xF insn"

definition entry45 :: "'s transport \<Rightarrow> u16 \<Rightarrow> ('s, nat) m0_op" where
  "entry45 bt insn = [push bt, cps] ! slot 9 0x1 insn"

definition executeJumpTable46 :: "('s, nat) m0_op list" where
  "executeJumpTable46 =
    [exmemwb_error, exmemwb_error, exmemwb_error, exmemwb_error,
     exmemwb_error, exmemwb_error, exmemwb_error, exmemwb_error,
     rev_insn, rev16, exmemwb_error, exmemwb_error,
     exmemwb_error, exmemwb_error, exmemwb_error, exmemwb_error]"

definition entry46 :: "u16 \<Rightarrow> ('s, nat) m0_op" where
  "entry46 insn = executeJumpTable46 ! slot 6 0xF insn"

definition entry47 :: "'s transport \<Rightarrow> u16 \<Rightarrow> ('s, nat) m0_op" where
  "entry47 bt insn =
     (if drop_bit 8 insn = 0xbf then
        (if insn AND 0xff \<in> {0, 0x10, 0x20, 0x30, 0x40} then nop else exmemwb_error)
      else if drop_bit 8 insn = 0xbe then exmemwb_error
      else if drop_bit 9 insn = 0x5e then pop bt
      else exmemwb_error)"

definition entry55 :: "u16 \<Rightarrow> ('s, nat) m0_op" where
  "entry55 insn = (if insn AND 0x0300 \<noteq> 0x0300 then b_c else exmemwb_error)"

definition entry6061 :: "u16 \<Rightarrow> ('s, nat) m0_op" where
  "entry6061 insn = bind_s get_imm (\<lambda>i.
     if i = not_bl then
       (if insn AND 0xf3e0 = 0xf3e0 then mrs
        else if insn AND 0xf380 = 0xf380 then msr
        else fail_s Undefined_behaviour)
     else bl)"

definition executeJumpTable :: "'s transport \<Rightarrow> u16 \<Rightarrow> ('s, nat) m0_op list" where
  "executeJumpTable bt insn =
    [lsls_i, lsls_i, lsrs_i, lsrs_i, asrs_i, asrs_i, entry6 insn, entry7 insn,
     movs_i, movs_i, cmp_i, cmp_i, adds_i8, adds_i8, subs_i8, subs_i8,
     entry16 insn, entry17 bt insn, ldr_lit bt, ldr_lit bt,
     entry20 bt insn, entry21 bt insn, entry22 bt insn, entry23 bt insn,
     str_i bt, str_i bt, ldr_i bt, ldr_i bt, strb_i bt, strb_i bt, ldrb_i bt, ldrb_i bt,
     strh_i bt, strh_i bt, ldrh_i bt, ldrh_i bt, str_sp bt, str_sp bt, ldr_sp bt, ldr_sp bt,
     adr, adr, add_sp, add_sp, entry44 insn, entry45 bt insn, entry46 insn, entry47 bt insn,
     stm bt, stm bt, ldm bt, ldm bt, b_c, b_c, b_c, entry55 insn,
     b_insn, b_insn, exmemwb_error, exmemwb_error, entry6061 insn, entry6061 insn,
     exmemwb_error, exmemwb_error]"

definition exwbmem :: "'s transport \<Rightarrow> u16 \<Rightarrow> ('s, nat) m0_op" where
  "exwbmem bt pInsn = executeJumpTable bt pInsn ! unat (drop_bit 10 pInsn)"

end
