(* ===== verification/Cm0_Cpu.thy ===== *)
theory Cm0_Cpu
  imports Cm0_Tables
begin

unbundle bit_operations_syntax

text \<open>
  The main loop of \<open>mcu/cortex-m0/CortexM0Cpu.cpp\<close>: construction, reset, the check for
  pending exceptions, one iteration of \<open>process\<close> and the debugger's operations. The input
  signals an iteration reads are its argument \<open>m0_env\<close> (\<open>m0_pwrOn_end\<close> is \<open>pwrOn\<close> at the
  end of the iteration). A stalled core blocks in \<open>waitForCommand\<close> and a sleeping one in a
  \<open>wait\<close>; both leave the state alone. \<open>powerOffChecks\<close> only logs.
\<close>

definition CortexM0Cpu_new :: "string \<Rightarrow> 's \<Rightarrow> 's m0_cpu result" where
  "CortexM0Cpu_new version bus =
     (let mk = (\<lambda>n. Inr \<lparr>gpr = replicate 16 0, apsr = 0, ipsr = 0, espr = 0, primask = 0, control = 0,
          sp_main = 0, sp_process = 0, cpu_debug = 0, cpu_mode = 0, exceptmask = 0,
          decoded = \<lparr>rD = 0, rM = 0, rN = 0, imm = 0, cond = 0, reg_list = 0\<rparr>,
          takenBranch = False, instructionQueue = [], bubbles = 0, pipelineStages = n,
          sleeping = False, running = False, doStep = False,
          instructionBuffer = \<lparr>buf_data = 0, buf_address = 0, buf_valid = False\<rparr>,
          breakpoints = {}, regsAtExceptEnter = replicate 17 0,
          returningException = 0, activeException = 0, m0_bus = bus, m0_now = 0, m0_log = []\<rparr>)
      in if version = ''cm0'' then mk 3 else if version = ''cm0+'' then mk 2 else Inl Report_fatal)"

definition clear_registers :: "'s m0_cpu \<Rightarrow> 's m0_cpu" where
  "clear_registers s = s\<lparr>sleeping := False, takenBranch := False,
     instructionBuffer := \<lparr>buf_data = 0, buf_address = 0, buf_valid = False\<rparr>,
     apsr := 0, ipsr := 0, espr := push_bit 24 1, primask := 0, control := 0,
     sp_main := 0, sp_process := 0, gpr := replicate 16 0\<rparr>"

definition m0_reset :: "'s transport \<Rightarrow> ('s, unit) m0_op" where
  "m0_reset bt = do_all
     [modify_s clear_registers,
      bind_s (read32 bt ROM_START) (\<lambda>w. cpu_set_sp (0xfffffffc AND w)),
      modify_s (\<lambda>s. s\<lparr>sp_process := 0\<rparr>),
      bind_s (read32 bt (ROM_START + 4)) cpu_set_pc,
      modify_s (\<lambda>s. s\<lparr>exceptmask := 0, cpu_debug := 1\<rparr>),
      cpu_mode_thread, flushPipeline]"

record m0_env =
  m0_pwrOn :: bool
  sysTickIrq :: bool
  nvicIrq :: int
  m0_pwrOn_end :: bool

definition pending_exception :: "m0_env \<Rightarrow> u32" where
  "pending_exception env =
     (if sysTickIrq env then 15 else if nvicIrq env \<noteq> -1 then of_int (nvicIrq env) else 0)"

definition exceptionCheck :: "'s transport \<Rightarrow> m0_env \<Rightarrow> ('s, unit) m0_op" where
  "exceptionCheck bt env = bind_s cpu_get_ipsr (\<lambda>i.
     when_s (i = 0)
       (let exceptionId = pending_exception env in
        when_s (exceptionId \<noteq> 0)
          (then_s (modify_s (\<lambda>s. s\<lparr>sleeping := False\<rparr>)) (exceptionEnter bt exceptionId))))"

definition advance_pc :: "('s, unit) m0_op" where
  "advance_pc = bind_s cpu_get_pc (\<lambda>pc. cpu_set_pc (pc + 0x2))"

definition next_instruction :: "'s transport \<Rightarrow> sc_time \<Rightarrow> ('s, u16) m0_op" where
  "next_instruction bt period =
     bind_s cpu_get_pc (\<lambda>pc. bind_s (m0_fetch bt period pc) (\<lambda>x.
     bind_s (gets_s instructionQueue) (\<lambda>q. let q' = q @ [x] in
     then_s (modify_s (\<lambda>s. s\<lparr>instructionQueue := tl q'\<rparr>)) (return_s (hd q')))))"

definition execute_insn :: "'s transport \<Rightarrow> sc_time \<Rightarrow> u16 \<Rightarrow> ('s, unit) m0_op" where
  "execute_insn bt period insn =
     do_all_then
       [bind_s (gets_s pipelineStages) (\<lambda>n. when_s (n = 2) advance_pc),
        modify_s (\<lambda>s. s\<lparr>takenBranch := False\<rparr>),
        decode period insn]
     (bind_s (exwbmem bt insn) (\<lambda>exCycles.
      when_s (exCycles > 0)
        (do_all [m0_report (M0_event Idle_cycles exCycles), m0_wait (period * exCycles)])))"

definition retire :: "u16 \<Rightarrow> ('s, unit) m0_op" where
  "retire insn = do_all
     [when_s (insn = OPCODE_WFE \<or> insn = OPCODE_WFI)
        (do_all [modify_s (\<lambda>s. s\<lparr>sleeping := True\<rparr>), m0_report (M0_state M0_sleep)]),
      modify_s (\<lambda>s. s\<lparr>bubbles := bubbles s - 1\<rparr>),
      bind_s (gets_s takenBranch) (\<lambda>t. when_s t flushPipeline),
      bind_s (gets_s (\<lambda>s. \<not> takenBranch s \<and> pipelineStages s = 3)) (\<lambda>c. when_s c advance_pc),
      m0_report (M0_event N_instructions 1),
      modify_s (\<lambda>s. if doStep s \<and> bubbles s = 0 then s\<lparr>running := False, doStep := False\<rparr> else s)]"

definition at_breakpoint :: "('s, bool) m0_op" where
  "at_breakpoint = bind_s (gets_s bubbles) (\<lambda>n.
     if n = 0 then bind_s getNextExecutionPc (\<lambda>pc. gets_s (\<lambda>s. pc \<in> breakpoints s))
     else return_s False)"

definition power_off_wait :: "'s transport \<Rightarrow> ('s, unit) m0_op" where
  "power_off_wait bt =
     do_all [m0_report (M0_state M0_off), m0_report (M0_state M0_on), m0_reset bt]"

definition m0_step :: "'s transport \<Rightarrow> sc_time \<Rightarrow> m0_env \<Rightarrow> ('s, unit) m0_op" where
  "m0_step bt period env =
     (let finish = bind_s (gets_s running) (\<lambda>r. when_s (r \<and> \<not> m0_pwrOn_end env) (power_off_wait bt)) in
      bind_s (gets_s running) (\<lambda>run.
      if m0_pwrOn env \<and> run then
        do_all_then
          [bind_s cpu_get_pc (\<lambda>pc. require_s (pc AND 1 \<noteq> 0) Report_fatal),
           exceptionCheck bt env,
           modify_s (\<lambda>s. s\<lparr>returningException := 0\<rparr>)]
        (bind_s (gets_s sleeping) (\<lambda>sl.
         if sl then finish
         else bind_s at_breakpoint (\<lambda>hit.
           if hit then modify_s (\<lambda>s. s\<lparr>running := False\<rparr>)
           else bind_s (next_instruction bt period) (\<lambda>insn.
             do_all [execute_insn bt period insn, retire insn, finish]))))
      else finish))"

fun m0_run :: "'s transport \<Rightarrow> sc_time \<Rightarrow> m0_env list \<Rightarrow> ('s, unit) m0_op" where
  "m0_run bt period [] = return_s ()"
| "m0_run bt period (e # es) = then_s (m0_step bt period e) (m0_run bt period es)"

section \<open>Debugger interface\<close>

definition m0_dbg_readReg :: "nat \<Rightarrow> ('s, u32) m0_op" where
  "m0_dbg_readReg addr =
     (if addr = 15 then getNextExecutionPc
      else if addr = 0x19 then gets_s apsr
      else if addr \<le> 16 then cpu_get_gpr addr
      else return_s 0)"

definition m0_dbg_writeReg :: "nat \<Rightarrow> u32 \<Rightarrow> ('s, unit) m0_op" where
  "m0_dbg_writeReg addr x =
     (if addr = 15 then
        bind_s (gets_s pipelineStages) (\<lambda>n. cpu_set_pc ((x + 2 * (of_nat n - 1)) OR 1))
      else if addr = 0x19 then return_s ()
      else if addr \<le> 16 then cpu_set_gpr addr x
      else fail_s Report_fatal)"

definition m0_insertBreakpoint :: "u32 \<Rightarrow> ('s, unit) m0_op" where
  "m0_insertBreakpoint addr = modify_s (\<lambda>s. s\<lparr>breakpoints := insert (addr AND NOT 1) (breakpoints s)\<rparr>)"

definition m0_removeBreakpoint :: "u32 \<Rightarrow> ('s, unit) m0_op" where
  "m0_removeBreakpoint addr = modify_s (\<lambda>s. s\<lparr>breakpoints := breakpoints s - {addr AND NOT 1}\<rparr>)"

definition m0_single_step :: "('s, unit) m0_op" where
  "m0_single_step = modify_s (\<lambda>s. s\<lparr>doStep := True, running := True\<rparr>)"

definition m0_stall :: "('s, unit) m0_op" where
  "m0_stall = modify_s (\<lambda>s. s\<lparr>running := False\<rparr>)"

definition m0_unstall :: "('s, unit) m0_op" where
  "m0_unstall = modify_s (\<lambda>s. s\<lparr>running := True\<rparr>)"

definition m0_isStalled :: "('s, bool) m0_op" where
  "m0_isStalled = gets_s (\<lambda>s. \<not> running s)"

end
