(* ===== verification/Cm0_Typing.thy ===== *)
theory Cm0_Typing
  imports Cm0_Cpu
begin

unbundle bit_operations_syntax

text \<open>
  The Cortex-M0 core over any bus that keeps the length of its buffers (locale
  \<open>typed_bus\<close>): every instruction keeps the shape of the register file and of the
  pipeline, and neither the core nor its decoder ever indexes an array out of bounds or
  pops from an empty queue.
\<close>

definition reported_errors :: "sim_error set" where
  "reported_errors = - {Out_of_bounds, Undefined_behaviour}"

lemma reported_errors_simps [simp]:
  "Exit_failure \<in> reported_errors" "Report_fatal \<in> reported_errors"
  "Assertion_failed \<in> reported_errors" "Runtime_error \<in> reported_errors"
  by (simp_all add: reported_errors_def)

section \<open>Invariants\<close>

text \<open>What no operation of the execute stage changes, and the shape it keeps.\<close>

definition core :: "('s \<Rightarrow> bool) \<Rightarrow> decode_result \<Rightarrow> u16 list \<Rightarrow> nat \<Rightarrow> 's m0_cpu \<Rightarrow> bool" where
  "core binv d q n s \<longleftrightarrow>
     length (gpr s) = 16 \<and> binv (m0_bus s) \<and> cpu_mode s \<le> 1 \<and> unat (ipsr s) < 64 \<and>
     length (regsAtExceptEnter s) = 17 \<and>
     decoded s = d \<and> instructionQueue s = q \<and> pipelineStages s = n \<and> bubbles s \<le> n - 1"

definition regs_in_range :: "decode_result \<Rightarrow> bool" where
  "regs_in_range d \<longleftrightarrow> unat (rD d) < 16 \<and> unat (rM d) < 16"

text \<open>Between two instructions: the pipeline holds one halfword less than its stages, and the
  register numbers of the last instruction are in range unless the next one is a NOP that
  will set them. The stale numbers matter: DSB and ISB read the register \<open>rM\<close> without
  having set it, and MRS leaves a special register number there.\<close>

definition m0_wf :: "('s \<Rightarrow> bool) \<Rightarrow> 's m0_cpu \<Rightarrow> bool" where
  "m0_wf binv s \<longleftrightarrow>
     (\<exists>d q n. core binv d q n s \<and> (n = 2 \<or> n = 3) \<and> length q = n - 1 \<and> unat (rN d) < 16
        \<and> (regs_in_range d \<or> hd q = OPCODE_NOP))"

lemma core_simps [simp]:
  "core binv d q n (s\<lparr>m0_now := x1\<rparr>) = core binv d q n s"
  "core binv d q n (s\<lparr>m0_log := x2\<rparr>) = core binv d q n s"
  "core binv d q n (s\<lparr>apsr := x3\<rparr>) = core binv d q n s"
  "core binv d q n (s\<lparr>control := x4\<rparr>) = core binv d q n s"
  "core binv d q n (s\<lparr>primask := x5\<rparr>) = core binv d q n s"
  "core binv d q n (s\<lparr>takenBranch := b1\<rparr>) = core binv d q n s"
  "core binv d q n (s\<lparr>sleeping := b2\<rparr>) = core binv d q n s"
  "core binv d q n (s\<lparr>running := b3\<rparr>) = core binv d q n s"
  "core binv d q n (s\<lparr>running := b4, doStep := b5\<rparr>) = core binv d q n s"
  "core binv d q n (s\<lparr>returningException := i1\<rparr>) = core binv d q n s"
  "core binv d q n (s\<lparr>activeException := i2\<rparr>) = core binv d q n s"
  "core binv d q n (s\<lparr>instructionBuffer := ib\<rparr>) = core binv d q n s"
  by (simp_all add: core_def)

lemma unat_and_3F: "unat (x AND 0x3F :: u32) < 64"
proof -
  have "unat (x AND 0x3F) \<le> unat (0x3F :: u32)" by (rule word_and_mask_bound)
  then show ?thesis by simp
qed

abbreviation core_keeps where
  "core_keeps binv d q n \<equiv> keeps (core binv d q n) reported_errors"

locale typed_bus =
  fixes bt :: "'s transport" and binv :: "'s \<Rightarrow> bool"
  assumes typed_ok:
      "binv x \<Longrightarrow> command p \<noteq> TLM_IGNORE_COMMAND \<Longrightarrow> unat (address p) < 2 ^ 32 \<Longrightarrow> data p \<noteq> [] \<Longrightarrow>
       bt x p t = Inr (x', p', t', fx) \<Longrightarrow> binv x' \<and> length (data p') = length (data p)"
    and typed_error:
      "binv x \<Longrightarrow> command p \<noteq> TLM_IGNORE_COMMAND \<Longrightarrow> unat (address p) < 2 ^ 32 \<Longrightarrow> data p \<noteq> [] \<Longrightarrow>
       bt x p t = Inl e \<Longrightarrow> e \<in> reported_errors"
begin

section \<open>The primitive operations\<close>

lemma prim_keeps [keeps_rules]:
  "x < 16 \<Longrightarrow> core_keeps binv d q n (cpu_get_gpr x)"
  "x < 16 \<Longrightarrow> core_keeps binv d q n (cpu_set_gpr x y)"
  "core_keeps binv d q n (m0_wait t)"
  "core_keeps binv d q n (m0_report e)"
  "core_keeps binv d q n (cpu_set_flag k y)"
  "core_keeps binv d q n (cpu_set_apsr y)"
  "core_keeps binv d q n (cpu_set_ipsr y)"
  "core_keeps binv d q n cpu_mode_handler"
  "core_keeps binv d q n cpu_mode_thread"
  "core_keeps binv d q n cpu_stack_use_main"
  "core_keeps binv d q n cpu_stack_use_process"
  "core_keeps binv d q n take_branch"
  using unat_and_3F
  by (auto simp: keeps_def triple_def sim_monad cpu_get_gpr_def cpu_set_gpr_def m0_wait_def m0_report_def
      cpu_set_flag_def cpu_set_apsr_def cpu_set_ipsr_def cpu_mode_handler_def cpu_mode_thread_def
      cpu_stack_use_main_def cpu_stack_use_process_def take_branch_def)
    (simp_all add: core_def)

lemma accessor_keeps [keeps_rules]:
  "core_keeps binv d q n cpu_get_sp" "core_keeps binv d q n (cpu_set_sp y)"
  "core_keeps binv d q n cpu_get_lr" "core_keeps binv d q n (cpu_set_lr y)"
  "core_keeps binv d q n cpu_get_pc" "core_keeps binv d q n (cpu_set_pc y)"
  "core_keeps binv d q n (cpu_get_flag k)"
  "core_keeps binv d q n cpu_get_apsr" "core_keeps binv d q n cpu_get_ipsr"
  unfolding cpu_get_sp_def cpu_set_sp_def cpu_get_lr_def cpu_set_lr_def cpu_get_pc_def cpu_set_pc_def
    cpu_get_flag_def cpu_get_apsr_def cpu_get_ipsr_def
  by (rule keeps_rules; simp)+

lemma flag_keeps [keeps_rules]:
  "core_keeps binv d q n cpu_get_flag_c" "core_keeps binv d q n (cpu_set_flag_c y)"
  "core_keeps binv d q n (do_nflag y)" "core_keeps binv d q n (do_zflag y)"
  "core_keeps binv d q n (do_cflag a b c)" "core_keeps binv d q n (do_vflag a b y)"
  unfolding cpu_get_flag_c_def cpu_set_flag_c_def do_nflag_def do_zflag_def do_cflag_def do_vflag_def
    cpu_set_flag_n_def cpu_set_flag_z_def cpu_set_flag_v_def
  by (rule keeps_rules)+

lemma alu_write_pc_keeps [keeps_rules]: "core_keeps binv d q n (alu_write_pc y)"
  unfolding alu_write_pc_def by (intro keeps_rules)

lemma readMem_cases:
  assumes "core binv d q n s" and "0 < k"
  shows "case m0_readMem bt a k s of Inl e \<Rightarrow> e \<in> reported_errors
    | Inr (buf, s') \<Rightarrow> core binv d q n s' \<and> length buf = k"
proof (cases "bt (m0_bus s)
     \<lparr>command = TLM_READ_COMMAND, address = ucast a, data = replicate k 0, response_ok = False\<rparr> 0")
  case (Inl e)
  then show ?thesis
    using typed_error [OF _ _ _ _ Inl] assms unat_lt_2p [of a]
    by (simp add: m0_readMem_def core_def)
next
  case (Inr r)
  obtain x' p' t' fx where r: "r = (x', p', t', fx)" by (cases r)
  show ?thesis
    using typed_ok [OF _ _ _ _ Inr [unfolded r]] assms unat_lt_2p [of a] Inr r
    by (simp add: m0_readMem_def core_def check_r_def)
qed

lemma writeMem_keeps [keeps_rules]:
  assumes "buf \<noteq> []"
  shows "core_keeps binv d q n (m0_writeMem bt a buf)"
  unfolding keeps_def triple_def
proof (intro allI impI)
  fix s assume s: "core binv d q n s"
  show "case m0_writeMem bt a buf s of Inl e \<Rightarrow> e \<in> reported_errors | Inr (_, s') \<Rightarrow> core binv d q n s'"
  proof (cases "bt (m0_bus s)
       \<lparr>command = TLM_WRITE_COMMAND, address = ucast a, data = buf, response_ok = False\<rparr> 0")
    case (Inl e)
    then show ?thesis
      using typed_error [OF _ _ _ _ Inl] assms s unat_lt_2p [of a]
      by (simp add: m0_writeMem_def core_def)
  next
    case (Inr r)
    obtain x' p' t' fx where r: "r = (x', p', t', fx)" by (cases r)
    show ?thesis
      using typed_ok [OF _ _ _ _ Inr [unfolded r]] assms s unat_lt_2p [of a] Inr r
      by (simp add: m0_writeMem_def core_def check_r_def)
  qed
qed

lemma load_keeps_gen:
  assumes "\<And>s. core binv d q n s \<Longrightarrow> case m s of Inl e \<Rightarrow> e \<in> reported_errors
      | Inr (buf, s') \<Rightarrow> core binv d q n s' \<and> length buf = k"
    and "\<And>buf. length buf = k \<Longrightarrow> core_keeps binv d q n (f buf)"
  shows "core_keeps binv d q n (bind_s m f)"
proof -
  have m: "triple (core binv d q n) m (\<lambda>buf s. core binv d q n s \<and> length buf = k) reported_errors"
    using assms(1) by (simp add: triple_def)
  have "triple (\<lambda>s. core binv d q n s \<and> length buf = k) (f buf) (\<lambda>_. core binv d q n) reported_errors" for buf
    using assms(2) [of buf] by (cases "length buf = k") (simp_all add: keeps_def triple_def)
  then show ?thesis unfolding keeps_def by (rule triple_bind [OF m])
qed

lemma lift_r_keeps [keeps_rules]: "ok r \<Longrightarrow> core_keeps binv d q n (lift_r r)"
  by (cases r) (simp_all add: keeps_def triple_def lift_r_def)

lemma memory_keeps [keeps_rules]:
  "core_keeps binv d q n (read32 bt a)" "core_keeps binv d q n (write32 bt a v)"
  "core_keeps binv d q n (simLoadWord bt a)" "core_keeps binv d q n (simLoadHalfWord bt a)"
  "core_keeps binv d q n (simLoadByte bt a)" "core_keeps binv d q n (simStoreWord bt a v)"
  "core_keeps binv d q n (simStoreHalfWord bt a v2)" "core_keeps binv d q n (simStoreByte bt a v1)"
proof -
  show "core_keeps binv d q n (read32 bt a)"
    unfolding read32_def
    by (rule load_keeps_gen [OF readMem_cases, where k = 4]) (auto intro!: keeps_rules simp: packBytes_def)
  show "core_keeps binv d q n (simLoadWord bt a)"
    unfolding simLoadWord_def
    by (rule load_keeps_gen [OF readMem_cases, where k = 4]) (auto intro!: keeps_rules)
  show "core_keeps binv d q n (simLoadHalfWord bt a)"
    unfolding simLoadHalfWord_def
    by (rule load_keeps_gen [OF readMem_cases, where k = 2]) (auto intro!: keeps_rules)
  show "core_keeps binv d q n (simLoadByte bt a)"
    unfolding simLoadByte_def
    by (rule load_keeps_gen [OF readMem_cases, where k = 1]) (auto intro!: keeps_rules)
  show "core_keeps binv d q n (write32 bt a v)"
    unfolding write32_def
    by (rule load_keeps_gen [where k = 4])
      (auto simp: unpack4 lift_r_def intro!: keeps_rules)
  show "core_keeps binv d q n (simStoreWord bt a v)"
    unfolding simStoreWord_def by (auto intro!: keeps_rules simp: unpack32_def)
  show "core_keeps binv d q n (simStoreHalfWord bt a v2)"
    unfolding simStoreHalfWord_def by (auto intro!: keeps_rules simp: unpack16_def)
  show "core_keeps binv d q n (simStoreByte bt a v1)"
    unfolding simStoreByte_def by (auto intro!: keeps_rules)
qed

end

section \<open>The instructions\<close>

definition operands_ok :: "decode_result \<Rightarrow> bool" where
  "operands_ok d \<longleftrightarrow> regs_in_range d \<and> unat (rN d) < 16"

context typed_bus
begin

lemma reg_keeps [keeps_rules]:
  "unat (rD d) < 16 \<Longrightarrow> core_keeps binv d q n get_rD"
  "unat (rM d) < 16 \<Longrightarrow> core_keeps binv d q n get_rM"
  "unat (rN d) < 16 \<Longrightarrow> core_keeps binv d q n get_rN"
  "unat (rD d) < 16 \<Longrightarrow> core_keeps binv d q n (set_rD y)"
  "unat (rN d) < 16 \<Longrightarrow> core_keeps binv d q n (set_rN y)"
  by (auto simp: keeps_def triple_def get_rD_def get_rM_def get_rN_def set_rD_def set_rN_def sim_monad
      cpu_get_gpr_def cpu_set_gpr_def) (simp_all add: core_def)

lemma get_imm_keeps [keeps_rules]:
  "core_keeps binv d q n get_imm" "core_keeps binv d q n get_reg_list"
  "core_keeps binv d q n (imm_shifted k)"
  unfolding get_imm_def get_reg_list_def imm_shifted_def by (rule keeps_rules)+

lemma flags_keeps [keeps_rules]:
  "core_keeps binv d q n c \<Longrightarrow> core_keeps binv d q n (nzcv a b c r)"
  "core_keeps binv d q n (nz r k)"
  unfolding nzcv_def nz_def by (assumption | rule keeps_rules)+

lemma arith_keeps [keeps_rules]:
  assumes "operands_ok d"
  shows "core_keeps binv d q n adcs" "core_keeps binv d q n adds_i3" "core_keeps binv d q n adds_i8"
    "core_keeps binv d q n adds_r" "core_keeps binv d q n add_r" "core_keeps binv d q n add_sp"
    "core_keeps binv d q n adr" "core_keeps binv d q n subs_i3" "core_keeps binv d q n subs_i8"
    "core_keeps binv d q n subs" "core_keeps binv d q n sub_sp" "core_keeps binv d q n sbcs"
    "core_keeps binv d q n rsbs" "core_keeps binv d q n muls"
proof -
  have r: "unat (rD d) < 16" "unat (rM d) < 16" "unat (rN d) < 16"
    using assms by (simp_all add: operands_ok_def regs_in_range_def)
  show "core_keeps binv d q n adcs" "core_keeps binv d q n adds_i3" "core_keeps binv d q n adds_i8"
    "core_keeps binv d q n adds_r" "core_keeps binv d q n add_r" "core_keeps binv d q n add_sp"
    "core_keeps binv d q n adr" "core_keeps binv d q n subs_i3" "core_keeps binv d q n subs_i8"
    "core_keeps binv d q n subs" "core_keeps binv d q n sub_sp" "core_keeps binv d q n sbcs"
    "core_keeps binv d q n rsbs" "core_keeps binv d q n muls"
    unfolding adcs_def adds_i3_def adds_i8_def adds_r_def add_r_def add_sp_def adr_def subs_i3_def
      subs_i8_def subs_def sub_sp_def sbcs_def rsbs_def muls_def
    by (rule keeps_rules r reported_errors_simps)+
qed

lemma logic_keeps [keeps_rules]:
  assumes "operands_ok d"
  shows "core_keeps binv d q n ands" "core_keeps binv d q n bics" "core_keeps binv d q n eors"
    "core_keeps binv d q n orrs" "core_keeps binv d q n mvns" "core_keeps binv d q n asrs_i"
    "core_keeps binv d q n asrs_r" "core_keeps binv d q n lsls_i" "core_keeps binv d q n lsrs_i"
    "core_keeps binv d q n lsls_r" "core_keeps binv d q n lsrs_r" "core_keeps binv d q n rors"
proof -
  have r: "unat (rD d) < 16" "unat (rM d) < 16" "unat (rN d) < 16"
    using assms by (simp_all add: operands_ok_def regs_in_range_def)
  show "core_keeps binv d q n ands" "core_keeps binv d q n bics" "core_keeps binv d q n eors"
    "core_keeps binv d q n orrs" "core_keeps binv d q n mvns" "core_keeps binv d q n asrs_i"
    "core_keeps binv d q n asrs_r" "core_keeps binv d q n lsls_i" "core_keeps binv d q n lsrs_i"
    "core_keeps binv d q n lsls_r" "core_keeps binv d q n lsrs_r" "core_keeps binv d q n rors"
    unfolding ands_def bics_def eors_def orrs_def mvns_def asrs_i_def asrs_r_def lsls_i_def lsrs_i_def
      lsls_r_def lsrs_r_def rors_def
    by (rule keeps_rules r)+
qed

lemma exceptionReturn_keeps [keeps_rules]: "core_keeps binv d q n (exceptionReturn bt x)"
proof -
  have m: "core_keeps binv d q n (modify_s (\<lambda>s. s\<lparr>returningException := f s\<rparr>))"
    "core_keeps binv d q n (modify_s (\<lambda>s. s\<lparr>activeException := 0\<rparr>))" for f
    by (rule keeps_modify, simp)+
  show ?thesis
    unfolding exceptionReturn_def Let_def
    by (rule keeps_rules m reported_errors_simps | simp)+
qed

lemma loop_keeps [keeps_rules]:
  "\<forall>i \<in> set is. i < 16 \<Longrightarrow> core_keeps binv d q n (ldm_loop bt is rl a)"
  "\<forall>i \<in> set is. i < 16 \<Longrightarrow> core_keeps binv d q n (stm_loop bt is rl k a)"
  "\<forall>i \<in> set is. i < 16 \<Longrightarrow> core_keeps binv d q n (pop_regs bt is rl a e k)"
  "\<forall>i \<in> set is. i < 16 \<Longrightarrow> core_keeps binv d q n (push_regs bt is rl a)"
proof -
  show "\<forall>i \<in> set is. i < 16 \<Longrightarrow> core_keeps binv d q n (ldm_loop bt is rl a)"
    by (induction "is" arbitrary: a) (auto intro!: keeps_rules)
  show "\<forall>i \<in> set is. i < 16 \<Longrightarrow> core_keeps binv d q n (stm_loop bt is rl k a)"
    by (induction "is" arbitrary: a k) (auto intro!: keeps_rules)
  show "\<forall>i \<in> set is. i < 16 \<Longrightarrow> core_keeps binv d q n (pop_regs bt is rl a e k)"
    by (induction "is" arbitrary: a e k) (auto intro!: keeps_rules)
  show "\<forall>i \<in> set is. i < 16 \<Longrightarrow> core_keeps binv d q n (push_regs bt is rl a)"
    by (induction "is" arbitrary: a) (auto intro!: keeps_rules)
qed

lemma keeps_case_prod [keeps_rules]:
  "(\<And>x y z. core_keeps binv d q n (f x y z)) \<Longrightarrow> core_keeps binv d q n (case p of (x, y, z) \<Rightarrow> f x y z)"
  by (cases p) simp

lemma at_sum_keeps [keeps_rules]:
  "core_keeps binv d q n x \<Longrightarrow> core_keeps binv d q n y \<Longrightarrow> (\<And>a. core_keeps binv d q n (f a)) \<Longrightarrow>
    core_keeps binv d q n (at_sum x y f)"
  unfolding at_sum_def by (assumption | rule keeps_rules)+

lemma transfer_keeps [keeps_rules]:
  assumes "operands_ok d"
  shows "core_keeps binv d q n (load_word bt a)" "core_keeps binv d q n (load_byte bt a)"
    "core_keeps binv d q n (load_half bt a)" "core_keeps binv d q n (store_word bt a)"
    "core_keeps binv d q n (store_byte bt a)" "core_keeps binv d q n (store_half bt a)"
proof -
  have r: "unat (rD d) < 16" using assms by (simp add: operands_ok_def regs_in_range_def)
  show "core_keeps binv d q n (load_word bt a)" "core_keeps binv d q n (load_byte bt a)"
    "core_keeps binv d q n (load_half bt a)" "core_keeps binv d q n (store_word bt a)"
    "core_keeps binv d q n (store_byte bt a)" "core_keeps binv d q n (store_half bt a)"
    unfolding load_word_def load_byte_def load_half_def store_word_def store_byte_def store_half_def
    by (rule keeps_rules r)+
qed

lemma mem_keeps [keeps_rules]:
  assumes "operands_ok d"
  shows "core_keeps binv d q n (ldm bt)" "core_keeps binv d q n (stm bt)" "core_keeps binv d q n (pop bt)"
    "core_keeps binv d q n (push bt)" "core_keeps binv d q n (ldr_i bt)" "core_keeps binv d q n (ldr_sp bt)"
    "core_keeps binv d q n (ldr_lit bt)" "core_keeps binv d q n (ldr_r bt)" "core_keeps binv d q n (ldrb_i bt)"
    "core_keeps binv d q n (ldrb_r bt)" "core_keeps binv d q n (ldrh_i bt)" "core_keeps binv d q n (ldrh_r bt)"
    "core_keeps binv d q n (ldrsb_r bt)" "core_keeps binv d q n (ldrsh_r bt)" "core_keeps binv d q n (str_i bt)"
    "core_keeps binv d q n (str_sp bt)" "core_keeps binv d q n (str_r bt)" "core_keeps binv d q n (strb_i bt)"
    "core_keeps binv d q n (strb_r bt)" "core_keeps binv d q n (strh_i bt)" "core_keeps binv d q n (strh_r bt)"
proof -
  have r: "unat (rD d) < 16" "unat (rM d) < 16" "unat (rN d) < 16"
    using assms by (simp_all add: operands_ok_def regs_in_range_def)
  show "core_keeps binv d q n (ldm bt)" "core_keeps binv d q n (stm bt)" "core_keeps binv d q n (pop bt)"
    "core_keeps binv d q n (push bt)" "core_keeps binv d q n (ldr_i bt)" "core_keeps binv d q n (ldr_sp bt)"
    "core_keeps binv d q n (ldr_lit bt)" "core_keeps binv d q n (ldr_r bt)" "core_keeps binv d q n (ldrb_i bt)"
    "core_keeps binv d q n (ldrb_r bt)" "core_keeps binv d q n (ldrh_i bt)" "core_keeps binv d q n (ldrh_r bt)"
    "core_keeps binv d q n (ldrsb_r bt)" "core_keeps binv d q n (ldrsh_r bt)" "core_keeps binv d q n (str_i bt)"
    "core_keeps binv d q n (str_sp bt)" "core_keeps binv d q n (str_r bt)" "core_keeps binv d q n (strb_i bt)"
    "core_keeps binv d q n (strb_r bt)" "core_keeps binv d q n (strh_i bt)" "core_keeps binv d q n (strh_r bt)"
    unfolding ldm_def stm_def pop_def push_def ldr_i_def ldr_sp_def ldr_lit_def ldr_r_def ldrb_i_def
      ldrb_r_def ldrh_i_def ldrh_r_def ldrsb_r_def ldrsh_r_def str_i_def str_sp_def str_r_def strb_i_def
      strb_r_def strh_i_def strh_r_def
    by (rule keeps_rules r assms | (simp; fail))+
qed

end

end
