(* ===== verification/Cm0_Memory.thy ===== *)
theory Cm0_Memory
  imports Memory_System
begin

unbundle bit_operations_syntax

text \<open>
  The memory system the constructor of \<open>mcu/Cm0Microcontroller.cpp\<close> builds: the memory map,
  the slaves sorted by address and bound to the bus, the two nonvolatile memories
  (instructions and data), the SRAM, and the peripherals, whose transports \<open>pt\<close> are a
  parameter. The locale \<open>bus_devices\<close> of the bus is interpreted on it.
\<close>

section \<open>The memory map\<close>

datatype m0_slave_id =
    M_invm | M_dnvm | M_sram | M_scb | M_sysTick | M_nvic | M_mon | M_gpio | M_spi | M_dma

text \<open>In the order of the constructor's \<open>push_back\<close> calls.\<close>

definition cm0_targets :: "(m0_slave_id \<times> nat \<times> nat) list" where
  "cm0_targets =
     [(M_dnvm, 0x20000000, 0x20000000 + 0x4000 - 1), (M_dma, 0x40014000, 0x40014000 + 0x73),
      (M_invm, 0x08000000, 0x08000000 + 0x10000 - 1),
      (M_gpio, 0x40000000, 0x40000000 + 0x1000 - 1), (M_mon, 0x40001000, 0x40001000 + 4 - 1),
      (M_nvic, 0xE000E100, 0xE000E43C), (M_scb, 0xe000ed00, 0xe000ed8f),
      (M_spi, 0x40013000, 0x40013000 + 0x10), (M_sram, 0x20004000, 0x20004000 + 0x2000 - 1),
      (M_sysTick, 0xE000E010, 0xE000E0FF)]"

definition cm0_slaves :: "(m0_slave_id \<times> nat \<times> nat) list" where
  "cm0_slaves = sort_key (\<lambda>x. fst (snd x)) cm0_targets"

definition cm0_bus_init :: bus where
  "cm0_bus_init = foldl (\<lambda>b (x, s, e). bindTarget b (of_nat s) (of_nat e)) Bus_new cm0_slaves"

definition cm0_routing :: routing_table where
  "cm0_routing = routingTable cm0_bus_init"

lemma cm0_slaves_eq:
  "cm0_slaves =
     [(M_invm, 0x08000000, 0x0800ffff), (M_dnvm, 0x20000000, 0x20003fff),
      (M_sram, 0x20004000, 0x20005fff), (M_gpio, 0x40000000, 0x40000fff),
      (M_mon, 0x40001000, 0x40001003), (M_spi, 0x40013000, 0x40013010),
      (M_dma, 0x40014000, 0x40014073), (M_sysTick, 0xE000E010, 0xE000E0FF),
      (M_nvic, 0xE000E100, 0xE000E43C), (M_scb, 0xe000ed00, 0xe000ed8f)]"
  by (simp add: cm0_slaves_def cm0_targets_def)

lemma cm0_routing_eq:
  "cm0_routing =
     [(0x08000000, 0x0800ffff), (0x20000000, 0x20003fff), (0x20004000, 0x20005fff),
      (0x40000000, 0x40000fff), (0x40001000, 0x40001003), (0x40013000, 0x40013010),
      (0x40014000, 0x40014073), (0xE000E010, 0xE000E0FF), (0xE000E100, 0xE000E43C),
      (0xe000ed00, 0xe000ed8f)]"
  by (simp add: cm0_routing_def cm0_bus_init_def cm0_slaves_eq bindTarget_def Bus_new_def)

lemma cm0_chained: "chained cm0_routing"
  by (simp add: cm0_routing_eq chained_def)

section \<open>The slaves behind the ports\<close>

datatype 'p m0_slave = Nvm "u8 list" | Ram "u8 list" | M0_peripheral 'p

definition m0_port_id :: "nat \<Rightarrow> m0_slave_id" where
  "m0_port_id i = fst (cm0_slaves ! i)"

definition lift_m0_slave :: "('s \<Rightarrow> 'p m0_slave) \<Rightarrow> 's transported \<Rightarrow> 'p m0_slave transported" where
  "lift_m0_slave f r = bind_r r (\<lambda>(s', p', d', fx). Inr (f s', p', d', fx))"

definition m0_slave_transport ::
  "(m0_slave_id \<Rightarrow> 'p transport) \<Rightarrow> sc_time \<Rightarrow> nat \<Rightarrow> nat \<Rightarrow> 'p m0_slave transport" where
  "m0_slave_transport pt period waitStates i s tp delay =
     (case s of
        Nvm mem \<Rightarrow> lift_m0_slave Nvm (NonvolatileMemory_b_transport period waitStates mem tp delay)
      | Ram mem \<Rightarrow> lift_m0_slave Ram (GenericMemory_b_transport period mem tp delay)
      | M0_peripheral p \<Rightarrow> lift_m0_slave M0_peripheral (pt (m0_port_id i) p tp delay))"

definition m0_memory_size :: "m0_slave_id \<Rightarrow> nat option" where
  "m0_memory_size x =
     (case x of M_invm \<Rightarrow> Some 0x10000 | M_dnvm \<Rightarrow> Some 0x4000 | M_sram \<Rightarrow> Some 0x2000 | _ \<Rightarrow> None)"

definition m0_is_memory :: "nat \<Rightarrow> bool" where
  "m0_is_memory i = (m0_memory_size (m0_port_id i) \<noteq> None)"

definition m0_slave_view :: "nat \<Rightarrow> 'p m0_slave \<Rightarrow> nat \<Rightarrow> u8" where
  "m0_slave_view i s =
     (case s of Nvm mem \<Rightarrow> mem_view mem | Ram mem \<Rightarrow> mem_view mem | M0_peripheral p \<Rightarrow> (\<lambda>_. 0))"

definition m0_slave_inv :: "nat \<Rightarrow> 'p m0_slave \<Rightarrow> bool" where
  "m0_slave_inv i s =
     (case s of
        Nvm mem \<Rightarrow> m0_memory_size (m0_port_id i) = Some (length mem)
      | Ram mem \<Rightarrow> m0_memory_size (m0_port_id i) = Some (length mem)
      | M0_peripheral p \<Rightarrow> False)"

definition cm0_memory_init :: "(m0_slave_id \<Rightarrow> 'p) \<Rightarrow> (nat \<Rightarrow> u8) \<Rightarrow> bus \<times> 'p m0_slave list" where
  "cm0_memory_init pinit m =
     (cm0_bus_init,
      map (\<lambda>(x, s, e).
        if x = M_sram then Ram (get_bytes m s (e - s + 1))
        else if m0_memory_size x \<noteq> None then Nvm (get_bytes m s (e - s + 1))
        else M0_peripheral (pinit x)) cm0_slaves)"

lemma m0_memory_sizes:
  "list_all (\<lambda>i. case m0_memory_size (m0_port_id i) of None \<Rightarrow> True
      | Some n \<Rightarrow> n = port_size cm0_routing i) [0..<10]"
  by (simp add: upt_rec m0_port_id_def port_size_def cm0_slaves_eq cm0_routing_eq m0_memory_size_def)

lemma m0_memory_port_size:
  assumes "i < length cm0_routing" and "m0_is_memory i"
  shows "m0_memory_size (m0_port_id i) = Some (port_size cm0_routing i)"
proof -
  have "i < 10" using assms(1) by (simp add: cm0_routing_eq)
  then show ?thesis
    using m0_memory_sizes assms(2) by (fastforce simp: list_all_iff m0_is_memory_def split: option.splits)
qed

lemma m0_slave_byte_device:
  fixes pt :: "m0_slave_id \<Rightarrow> 'p transport"
  assumes i: "i < length cm0_routing" "m0_is_memory i"
  shows "byte_device (m0_slave_transport pt period ws i) (m0_slave_view i) (m0_slave_inv i)
    (aligned_access (word_size cortex_m0) (port_size cm0_routing i))"
proof
  note sz = m0_memory_port_size [OF i]
  fix s :: "'p m0_slave" and p :: payload and d :: sc_time
  assume inv: "m0_slave_inv i s"
    and sv: "aligned_access (word_size cortex_m0) (port_size cm0_routing i) (unat (address p)) (length (data p))"
  have bound: "unat (address p) + length (data p) \<le> port_size cm0_routing i"
    using sv by (simp add: aligned_access_def)
  note defs = m0_slave_transport_def lift_m0_slave_def m0_slave_view_def m0_slave_inv_def
    NonvolatileMemory_b_transport_def GenericMemory_b_transport_def Let_def data_length_def
  show "\<exists>s' p' d' fx. m0_slave_transport pt period ws i s p d = Inr (s', p', d', fx)
      \<and> data p' = get_bytes (m0_slave_view i s) (unat (address p)) (length (data p)) \<and> response_ok p'
      \<and> m0_slave_inv i s' \<and> m0_slave_view i s' = m0_slave_view i s"
    if cmd: "command p = TLM_READ_COMMAND"
    using inv bound cmd sz by (cases s) (auto simp: defs get_bytes_mem_view)
  show "\<exists>s' p' d' fx. m0_slave_transport pt period ws i s p d = Inr (s', p', d', fx)
      \<and> data p' = data p \<and> response_ok p' \<and> m0_slave_inv i s'
      \<and> m0_slave_view i s' = put_bytes (m0_slave_view i s) (unat (address p)) (data p)"
    if cmd: "command p = TLM_WRITE_COMMAND"
    using inv bound cmd sz by (cases s) (auto simp: defs put_bytes_mem_view)
next
  fix a n
  assume "aligned_access (word_size cortex_m0) (port_size cm0_routing i) a n"
  then have "a \<le> unat (snd (cm0_routing ! i) - fst (cm0_routing ! i))"
    by (simp add: aligned_access_def port_size_def)
  also have "\<dots> < 2 ^ 32" using unat_lt_2p [of "snd (cm0_routing ! i) - fst (cm0_routing ! i)"] by simp
  finally show "a < 2 ^ 64" by simp
qed

interpretation cm0_bus: bus_devices
  cortex_m0 cm0_routing m0_is_memory "m0_slave_transport pt period ws" m0_slave_view m0_slave_inv
  for pt period ws
  using chained_disjoint [OF cm0_chained] chained_le [OF cm0_chained] m0_slave_byte_device
  by (intro bus_devices.intro)

abbreviation cm0_board_bus where
  "cm0_board_bus pt period ws \<equiv> Bus_b_transport cortex_m0 (m0_slave_transport pt period ws)"

abbreviation cm0_board_view where
  "cm0_board_view \<equiv> bus_view cm0_routing m0_is_memory m0_slave_view"

abbreviation cm0_board_inv where
  "cm0_board_inv \<equiv> bus_inv cm0_routing m0_is_memory m0_slave_inv"

lemma cm0_ports:
  "unat (fst (cm0_routing ! 0)) = 0x08000000" "port_size cm0_routing 0 = 0x10000" "m0_is_memory 0"
  "unat (fst (cm0_routing ! 1)) = 0x20000000" "port_size cm0_routing 1 = 0x4000" "m0_is_memory 1"
  "unat (fst (cm0_routing ! 2)) = 0x20004000" "port_size cm0_routing 2 = 0x2000" "m0_is_memory 2"
  "length cm0_routing = 10"
  by (simp_all add: port_size_def cm0_routing_eq m0_is_memory_def m0_port_id_def cm0_slaves_eq m0_memory_size_def)

lemma upt_10: "[0..<10] = [0, 1, 2, 3, 4, 5, 6, 7, 8, 9 :: nat]"
  by (simp add: upt_rec)

lemma cm0_memory_init_inv: "cm0_board_inv (cm0_memory_init pinit m)"
proof -
  have "list_all (\<lambda>i. m0_is_memory i \<longrightarrow> m0_slave_inv i (snd (cm0_memory_init pinit m) ! i)) [0..<10]"
    unfolding upt_10
    by (simp add: m0_is_memory_def m0_slave_inv_def cm0_memory_init_def cm0_slaves_eq
        m0_port_id_def m0_memory_size_def del: upt_Suc)
  then show ?thesis
    by (simp add: bus_inv_def cm0_memory_init_def cm0_routing_def [symmetric] list_all_iff)
      (simp add: cm0_routing_eq cm0_slaves_eq)
qed

end
