(* ===== verification/Cm0_Step_Typing.thy ===== *)
theory Cm0_Step_Typing
  imports Cm0_Typing Cm0_Memory
begin

unbundle bit_operations_syntax

text \<open>
  The jump tables, the pipeline and the main loop of the Cortex-M0 core keep its state
  well formed (\<open>m0_wf\<close>), over any bus of the locale \<open>typed_bus\<close>; the bus of the
  microcontroller is one.
\<close>

section \<open>The jump tables\<close>

lemma slot_less: "slot sh m w \<le> unat m"
proof -
  have "unat (drop_bit sh w AND m) \<le> unat m" by (rule word_and_mask_bound)
  then show ?thesis by (simp add: slot_def)
qed

lemma keeps_nth:
  assumes "\<forall>m \<in> set ms. keeps I E m" and "i < k" and "length ms = k"
  shows "keeps I E (ms ! i)"
  using assms by simp

context typed_bus
begin

lemma branch_keeps [keeps_rules]:
  assumes "operands_ok d"
  shows "core_keeps binv d q n cmp_i" "core_keeps binv d q n cmp_r" "core_keeps binv d q n tst"
    "core_keeps binv d q n b_insn" "core_keeps binv d q n b_c" "core_keeps binv d q n blx"
    "core_keeps binv d q n (bx bt)" "core_keeps binv d q n movs_i" "core_keeps binv d q n mov_r"
    "core_keeps binv d q n cps" "core_keeps binv d q n nop" "core_keeps binv d q n sxtb"
    "core_keeps binv d q n sxth" "core_keeps binv d q n uxtb" "core_keeps binv d q n uxth"
    "core_keeps binv d q n rev_insn" "core_keeps binv d q n rev16" "core_keeps binv d q n exmemwb_error"
proof -
  have r: "unat (rD d) < 16" "unat (rM d) < 16" "unat (rN d) < 16"
    using assms by (simp_all add: operands_ok_def regs_in_range_def)
  have p: "core_keeps binv d q n (modify_s (\<lambda>s. s\<lparr>primask := i\<rparr>))" for i
    by (rule keeps_modify) simp
  have c: "core_keeps binv d q n (case t of None \<Rightarrow> fail_s Exit_failure
      | Some False \<Rightarrow> return_s TIMING_DEFAULT
      | Some True \<Rightarrow> bind_s get_imm (\<lambda>i. branch_by (signExtend32 (push_bit 1 i) 9)))" for t
    unfolding branch_by_def
    by (auto intro!: keeps_rules split: option.split bool.split)
  show "core_keeps binv d q n cmp_i" "core_keeps binv d q n cmp_r" "core_keeps binv d q n tst"
    "core_keeps binv d q n b_insn" "core_keeps binv d q n b_c" "core_keeps binv d q n blx"
    "core_keeps binv d q n (bx bt)" "core_keeps binv d q n movs_i" "core_keeps binv d q n mov_r"
    "core_keeps binv d q n cps" "core_keeps binv d q n nop" "core_keeps binv d q n sxtb"
    "core_keeps binv d q n sxth" "core_keeps binv d q n uxtb" "core_keeps binv d q n uxth"
    "core_keeps binv d q n rev_insn" "core_keeps binv d q n rev16" "core_keeps binv d q n exmemwb_error"
    unfolding cmp_i_def cmp_r_def tst_def b_insn_def b_c_def blx_def bx_def movs_i_def mov_r_def cps_def
      nop_def sxtb_def sxth_def uxtb_def uxth_def rev_insn_def rev16_def exmemwb_error_def of_rM_def
      branch_by_def
    by (rule c [unfolded branch_by_def] keeps_rules r p reported_errors_simps)+
qed

lemma entry_keeps [keeps_rules]:
  assumes "operands_ok d"
  shows "core_keeps binv d q n (entry6 w)" "core_keeps binv d q n (entry7 w)"
    "core_keeps binv d q n (entry16 w)" "core_keeps binv d q n (entry17 bt w)"
    "core_keeps binv d q n (entry20 bt w)" "core_keeps binv d q n (entry21 bt w)"
    "core_keeps binv d q n (entry22 bt w)" "core_keeps binv d q n (entry23 bt w)"
    "core_keeps binv d q n (entry44 w)" "core_keeps binv d q n (entry45 bt w)"
    "core_keeps binv d q n (entry46 w)" "core_keeps binv d q n (entry47 bt w)"
    "core_keeps binv d q n (entry55 w)"
proof -
  have s: "slot 9 0x1 w < 2" "slot 6 0xF w < 16" "slot 7 0x7 w < 8"
    using slot_less [of 9 "0x1" w] slot_less [of 6 "0xF" w] slot_less [of 7 "0x7" w] by simp_all
  note k = branch_keeps [OF assms] mem_keeps [OF assms] logic_keeps [OF assms] arith_keeps [OF assms]
  show "core_keeps binv d q n (entry6 w)" "core_keeps binv d q n (entry7 w)"
    "core_keeps binv d q n (entry16 w)" "core_keeps binv d q n (entry17 bt w)"
    "core_keeps binv d q n (entry20 bt w)" "core_keeps binv d q n (entry21 bt w)"
    "core_keeps binv d q n (entry22 bt w)" "core_keeps binv d q n (entry23 bt w)"
    "core_keeps binv d q n (entry44 w)" "core_keeps binv d q n (entry45 bt w)"
    "core_keeps binv d q n (entry46 w)"
    unfolding entry6_def entry7_def entry16_def entry17_def entry20_def entry21_def entry22_def entry23_def
      entry44_def entry45_def entry46_def executeJumpTable16_def executeJumpTable17_def
      executeJumpTable44_def executeJumpTable46_def
    by (rule keeps_nth [OF _ s(1)] keeps_nth [OF _ s(2)] keeps_nth [OF _ s(3)]; simp add: k; fail)+
  show "core_keeps binv d q n (entry47 bt w)" "core_keeps binv d q n (entry55 w)"
    unfolding entry47_def entry55_def by (rule keeps_rules k)+
qed

lemma table_keeps:
  assumes "operands_ok d" and "k < 64" and "k \<noteq> 60" and "k \<noteq> 61"
  shows "core_keeps binv d q n (executeJumpTable bt w ! k)"
proof -
  have "core_keeps binv d q n ((executeJumpTable bt w)[60 := nop, 61 := nop] ! k)"
    unfolding executeJumpTable_def
    by (rule keeps_nth [where k = 64]) (use assms(2) in \<open>simp_all add: keeps_rules assms(1)\<close>)
  then show ?thesis using assms(3,4) by simp
qed

end

section \<open>The decoders\<close>

lemma unat_or_le: "unat (x OR y :: 'a::len word) \<le> unat x + unat y"
proof -
  have "uint (x OR y) = uint x OR uint y" by (simp add: unsigned_or_eq)
  moreover have "0 \<le> uint x AND uint y" by simp
  ultimately have "uint (x OR y) \<le> uint x + uint y"
    using plus_and_or [of "uint x" "uint y"] by linarith
  then have "int (unat (x OR y)) \<le> int (unat x + unat y)" by simp
  then show ?thesis by (simp only: of_nat_le_iff)
qed

lemma unat_bits_at: "unat (bits_at sh m w :: 'a::len word) \<le> unat m"
proof -
  have "unat (bits_at sh m w :: 'a word) \<le> unat (drop_bit sh w AND m)"
    by (simp add: bits_at_def unat_ucast_mod)
  then show ?thesis using word_and_mask_bound [of "drop_bit sh w" m] by linarith
qed

lemma bits_at_less: "unat m < k \<Longrightarrow> unat (bits_at sh m w :: 'a::len word) < k"
  using unat_bits_at [where ?'a = 'a, of sh m w] by linarith

lemma mov_r_register:
  "unat (bits_at 0 0x7 w OR drop_bit 4 (bits_at 0 0x80 w) :: u8) < 16"
proof -
  let ?x = "bits_at 0 0x7 w :: u8" and ?y = "bits_at 0 0x80 w :: u8"
  have "unat (?x OR drop_bit 4 ?y) \<le> unat ?x + unat ?y div 16"
    using unat_or_le [of ?x "drop_bit 4 ?y"] by (simp add: unat_drop_bit_div)
  moreover have "unat ?x \<le> 7" "unat ?y \<le> 128"
    using unat_bits_at [where ?'a = 8, of 0 "0x7" w] unat_bits_at [where ?'a = 8, of 0 "0x80" w] by simp_all
  ultimately show ?thesis by linarith
qed

lemma set_decoded_triple:
  assumes "operands_ok (f d)"
  shows "triple (core binv d q n) (set_decoded f) (\<lambda>_ s. \<exists>d'. core binv d' q n s \<and> operands_ok d') E"
  unfolding set_decoded_def
  by (rule triple_modify) (use assms in \<open>auto simp: core_def\<close>)

lemma decoder_triple:
  assumes d: "operands_ok d"
    and m: "m \<in> {decode_3lo, decode_2loimm5, decode_2loimm3, decode_2lo, decode_imm8lo, decode_imm8,
        decode_imm8c, decode_imm7, decode_imm11, decode_reglistlo, decode_pop, decode_cps_push,
        decode_1all, decode_mov_r, decode_error}"
  shows "triple (core binv d q n) (m w) (\<lambda>_ s. \<exists>d'. core binv d' q n s \<and> operands_ok d') reported_errors"
proof -
  have e: "triple (core binv d q n) (decode_error w) (\<lambda>_ s. \<exists>d'. core binv d' q n s \<and> operands_ok d') reported_errors"
    by (simp add: triple_def decode_error_def fail_s_def)
  have "unat (rD d) < 16" "unat (rM d) < 16" "unat (rN d) < 16"
    using d by (simp_all add: operands_ok_def regs_in_range_def)
  note r = this bits_at_less mov_r_register
  note defs = operands_ok_def regs_in_range_def
  show ?thesis
    using m
    by (elim insertE emptyE; simp only:)
      (rule e | (simp only: decode_3lo_def decode_2loimm5_def decode_2loimm3_def decode_2lo_def
        decode_imm8lo_def decode_imm8_def decode_imm8c_def decode_imm7_def decode_imm11_def
        decode_reglistlo_def decode_pop_def decode_cps_push_def decode_1all_def decode_mov_r_def Let_def,
        rule set_decoded_triple, simp add: defs r; fail))+
qed

lemma decode_sub_triple:
  assumes "operands_ok d" and m: "m \<in> {decode_17, decode_44, decode_47}"
  shows "triple (core binv d q n) (m w) (\<lambda>_ s. \<exists>d'. core binv d' q n s \<and> operands_ok d') reported_errors"
proof -
  have "unat (drop_bit 8 w AND 0x3) \<le> unat (0x3 :: u16)" by (rule word_and_mask_bound)
  then have "unat (drop_bit 8 w AND 0x3) < 4" by simp
  then have i: "unat (drop_bit 8 w AND 0x3) = 0 \<or> unat (drop_bit 8 w AND 0x3) = 1
      \<or> unat (drop_bit 8 w AND 0x3) = 2 \<or> unat (drop_bit 8 w AND 0x3) = 3" by linarith
  have "\<exists>m' \<in> {decode_imm7, decode_error, decode_2lo, decode_pop, decode_imm8, decode_mov_r, decode_1all}.
      m w = m' w"
    using m i unfolding decode_17_def decode_44_def decode_47_def decodeJumpTable17_def
      decodeJumpTable44_def decodeJumpTable47_def by auto
  then obtain m' where m': "m w = m' w" "m' \<in> {decode_imm7, decode_error, decode_2lo, decode_pop,
      decode_imm8, decode_mov_r, decode_1all}" by blast
  show ?thesis
    unfolding m'(1) by (rule decoder_triple [OF assms(1)]) (use m'(2) in blast)
qed

lemma decode_triple:
  assumes d: "operands_ok d" and k: "unat (drop_bit 10 w) \<noteq> 60" "unat (drop_bit 10 w) \<noteq> 61"
  shows "triple (core binv d q n) (decode period w) (\<lambda>_ s. \<exists>d'. core binv d' q n s \<and> operands_ok d') reported_errors"
proof -
  let ?k = "unat (drop_bit 10 w)"
  let ?P = "\<lambda>m. triple (core binv d q n) (m w) (\<lambda>_ s. \<exists>d'. core binv d' q n s \<and> operands_ok d') reported_errors"
  have lt: "?k < 64" using unat_lt_2p [of w] by (simp add: unat_drop_bit_div)
  have "\<forall>m \<in> set ((decodeJumpTable period)[60 := decode_error, 61 := decode_error]). ?P m"
    unfolding decodeJumpTable_def
    by (simp add: decoder_triple [OF d] decode_sub_triple [OF d])
  moreover have "?k < length ((decodeJumpTable period)[60 := decode_error, 61 := decode_error])"
    using lt by (simp add: decodeJumpTable_def)
  ultimately have "?P (((decodeJumpTable period)[60 := decode_error, 61 := decode_error]) ! ?k)"
    by (meson nth_mem)
  then show ?thesis using k by (simp add: decode_def)
qed

lemma decode_nop:
  assumes "unat (rN d) < 16"
  shows "triple (core binv d q n) (decode period OPCODE_NOP) (\<lambda>_ s. \<exists>d'. core binv d' q n s \<and> operands_ok d') reported_errors"
proof -
  have eq: "(decode period OPCODE_NOP :: ('s, unit) m0_op) = decode_mov_r OPCODE_NOP"
    by (simp add: decode_def decodeJumpTable_def OPCODE_NOP_def decode_17_def decodeJumpTable17_def)
  show ?thesis
    unfolding eq decode_mov_r_def
    by (rule set_decoded_triple)
      (simp add: Let_def operands_ok_def regs_in_range_def bits_at_less mov_r_register)
qed

text \<open>The 32-bit formats. \<open>wide_ok\<close> is what the execute stage of \<open>entry6061\<close> needs.\<close>

definition wide_ok :: "u16 \<Rightarrow> decode_result \<Rightarrow> bool" where
  "wide_ok w d \<longleftrightarrow> unat (rN d) < 16 \<and> (imm d = not_bl \<longrightarrow>
     (w AND 0xf3e0 = 0xf3e0 \<and> unat (rD d) < 16)
     \<or> (w AND 0xf3e0 \<noteq> 0xf3e0 \<and> w AND 0xf380 = 0xf380 \<and> unat (rM d) < 16))"

lemma bl_imm_not: "bl_imm w h \<noteq> not_bl"
proof
  assume "bl_imm w h = not_bl"
  moreover have "bit not_bl 31" by (simp add: not_bl_def)
  moreover have "\<not> bit (bl_imm w h) 31"
    by (simp add: bl_imm_def bits_at_def Let_def bit_simps)
  ultimately show False by simp
qed

lemma upper_half:
  fixes w h :: u16
  shows "drop_bit 16 (push_bit 16 (ucast w) OR ucast h :: u32) = ucast w"
  by (rule bit_word_eqI) (auto simp: bit_simps dest: bit_imp_le_length)

lemma upper_masked:
  fixes w h :: u16
  assumes "(push_bit 16 (ucast w) OR ucast h :: u32) AND m = v"
  shows "w AND ucast (drop_bit 16 m) = ucast (drop_bit 16 v)"
proof -
  have "drop_bit 16 ((push_bit 16 (ucast w) OR ucast h :: u32) AND m) = drop_bit 16 v"
    using assms by simp
  then have "ucast w AND drop_bit 16 m = drop_bit 16 v"
    by (simp only: drop_bit_and upper_half)
  then have "ucast (ucast w AND drop_bit 16 m :: u32) = (ucast (drop_bit 16 v) :: u16)" by simp
  moreover have "(ucast (ucast w AND drop_bit 16 m :: u32) :: u16) = w AND ucast (drop_bit 16 m)"
    by (rule bit_word_eqI) (auto simp: bit_simps dest: bit_imp_le_length)
  ultimately show ?thesis by simp
qed

lemma and_and_const: "w AND a = c \<Longrightarrow> a AND m = m \<Longrightarrow> w AND m = c AND m" for w a m c :: "'a::len word"
  by (metis and.assoc)

lemma unat_ucast_le: "unat (ucast (x :: u32) :: u8) \<le> unat x"
  by (simp add: unat_ucast_mod)

context typed_bus
begin

lemma decode_bl_post:
  assumes d: "operands_ok d" and q: "q \<noteq> []"
  shows "triple (core binv d q n) (decode_bl period w)
    (\<lambda>_ s. \<exists>d'. core binv d' (tl q) n s \<and> wide_ok w d') reported_errors"
proof -
  have rs: "unat (rM d) < 16" "unat (rN d) < 16" using d by (simp_all add: operands_ok_def regs_in_range_def)
  have pop: "triple (core binv d q n) (getNextPipelineInstr period) (\<lambda>_. core binv d (tl q) n) reported_errors"
    using q by (auto simp: triple_def getNextPipelineInstr_def sim_monad m0_wait_def m0_report_def core_def)
  have set: "triple (core binv d (tl q) n) (set_decoded f)
      (\<lambda>_ s. \<exists>d'. core binv d' (tl q) n s \<and> wide_ok w d') reported_errors" if "wide_ok w (f d)" for f
    unfolding set_decoded_def by (rule triple_modify) (use that in \<open>auto simp: core_def\<close>)
  have fail: "triple (core binv d (tl q) n) (fail_s Exit_failure)
      (\<lambda>_ s. \<exists>d'. core binv d' (tl q) n s \<and> wide_ok w d') reported_errors"
    by (simp add: triple_def fail_s_def)
  show ?thesis
    unfolding decode_bl_def Let_def
  proof (rule triple_bind [OF pop], intro triple_if set fail)
    fix h :: u16
    let ?i = "push_bit 16 (ucast w) OR ucast h :: u32"
    show "wide_ok w (d\<lparr>imm := bl_imm w h\<rparr>)"
      using bl_imm_not [of w h] rs by (simp add: wide_ok_def)
    show "wide_ok w (d\<lparr>rM := ucast (?i AND 0x000000ff), rD := ucast (drop_bit 8 (?i AND 0x00000f00)), imm := not_bl\<rparr>)"
      if "?i AND NOT 0x00000fff = 0xf3ef8000"
    proof -
      have "w AND 0xffff = 0xf3ef" using upper_masked [OF that] by simp
      then have "w AND 0xf3e0 = 0xf3e0"
        using and_and_const [of w "0xffff" "0xf3ef" "0xf3e0"] by simp
      moreover have "unat (drop_bit 8 (?i AND 0x00000f00)) < 16"
        unfolding unat_drop_bit_div using word_and_mask_bound [of ?i "0x00000f00"] by simp
      then have "unat (ucast (drop_bit 8 (?i AND 0x00000f00)) :: u8) < 16"
        using unat_ucast_le le_less_trans by blast
      ultimately show ?thesis using rs by (simp add: wide_ok_def)
    qed
    show "wide_ok w (d\<lparr>rD := ucast (?i AND 0x000000ff), rM := ucast (drop_bit 16 (?i AND 0x000f0000)), imm := not_bl\<rparr>)"
      if "?i AND NOT 0x000f00ff = 0xf3808800"
    proof -
      have "w AND 0xfff0 = 0xf380" using upper_masked [OF that] by simp
      then have "w AND 0xf3e0 = 0xf380" "w AND 0xf380 = 0xf380"
        using and_and_const [of w "0xfff0" "0xf380" "0xf3e0"] and_and_const [of w "0xfff0" "0xf380" "0xf380"] by simp_all
      moreover have "unat (drop_bit 16 (?i AND 0x000f0000)) < 16"
        unfolding unat_drop_bit_div using word_and_mask_bound [of ?i "0x000f0000"] by simp
      then have "unat (ucast (drop_bit 16 (?i AND 0x000f0000)) :: u8) < 16"
        using unat_ucast_le le_less_trans by blast
      ultimately show ?thesis using rs by (simp add: wide_ok_def)
    qed
    have barrier: "wide_ok w (d\<lparr>rD := r, imm := not_bl\<rparr>)" if "w AND 0xffff = 0xf3bf" for r
    proof -
      have "w AND 0xf3e0 = 0xf3a0" "w AND 0xf380 = 0xf380"
        using and_and_const [OF that, of "0xf3e0"] and_and_const [OF that, of "0xf380"] by simp_all
      then show ?thesis using rs by (simp add: wide_ok_def)
    qed
    show "wide_ok w (d\<lparr>rD := push_bit 3 3, imm := not_bl\<rparr>)" if "?i AND NOT 0x0000000f = 0xf3bf8f40"
      using upper_masked [OF that] by (intro barrier) simp
    show "wide_ok w (d\<lparr>rD := push_bit 3 4, imm := not_bl\<rparr>)" if "?i AND NOT 0x0000000f = 0xf3bf8f60"
      using upper_masked [OF that] by (intro barrier) simp
  qed
qed

end

end
