(* ===== verification/Cm0_Wellformed.thy ===== *)
theory Cm0_Wellformed
  imports Cm0_Step_Typing
begin

unbundle bit_operations_syntax

text \<open>
  One iteration of the main loop of the Cortex-M0 core keeps \<open>m0_wf\<close>: the pipeline has its
  length again after every instruction, because each 32-bit instruction, having taken its
  second half from the queue, counts as a taken branch and refills it.
\<close>

section \<open>Weaker forms of the invariant\<close>

definition m0_shape :: "('s \<Rightarrow> bool) \<Rightarrow> 's m0_cpu \<Rightarrow> bool" where
  "m0_shape binv s \<longleftrightarrow> (\<exists>d q n. core binv d q n s \<and> (n = 2 \<or> n = 3) \<and> unat (rN d) < 16)"

text \<open>After the execute stage: the pipeline is short only if it will be refilled.\<close>

definition m0_executed :: "('s \<Rightarrow> bool) \<Rightarrow> 's m0_cpu \<Rightarrow> bool" where
  "m0_executed binv s \<longleftrightarrow>
     (\<exists>d q n. core binv d q n s \<and> (n = 2 \<or> n = 3) \<and> unat (rN d) < 16
        \<and> (takenBranch s \<or> (length q = n - 1 \<and> regs_in_range d)))"

definition m0_fetched :: "('s \<Rightarrow> bool) \<Rightarrow> u16 \<Rightarrow> 's m0_cpu \<Rightarrow> bool" where
  "m0_fetched binv w s \<longleftrightarrow>
     (\<exists>d q n. core binv d q n s \<and> (n = 2 \<or> n = 3) \<and> length q = n - 1 \<and> unat (rN d) < 16
        \<and> (regs_in_range d \<or> w = OPCODE_NOP))"

lemma wf_shape: "m0_wf binv s \<Longrightarrow> m0_shape binv s"
  by (auto simp: m0_wf_def m0_shape_def)

lemma keeps_ex_core:
  assumes k: "\<And>d q n. keeps (core binv d q n) E m"
  shows "keeps (\<lambda>s. \<exists>d q n. core binv d q n s \<and> P d q n) E m"
  unfolding keeps_def triple_def
proof (intro allI impI)
  fix s assume "\<exists>d q n. core binv d q n s \<and> P d q n"
  then obtain d q n where c: "core binv d q n s" and P: "P d q n" by blast
  have "case m s of Inl e \<Rightarrow> e \<in> E | Inr (x, s') \<Rightarrow> core binv d q n s'"
    using k [of d q n] c by (simp add: keeps_def triple_def)
  then show "case m s of Inl e \<Rightarrow> e \<in> E | Inr (x, s') \<Rightarrow> \<exists>d q n. core binv d q n s' \<and> P d q n"
    using P by (cases "m s") auto
qed

lemma keeps_wf: "(\<And>d q n. keeps (core binv d q n) E m) \<Longrightarrow> keeps (m0_wf binv) E m"
  unfolding m0_wf_def by (rule keeps_ex_core)

lemma keeps_shape: "(\<And>d q n. keeps (core binv d q n) E m) \<Longrightarrow> keeps (m0_shape binv) E m"
  unfolding m0_shape_def by (rule keeps_ex_core)

lemma triple_bind_keeps:
  "keeps I E m \<Longrightarrow> (\<And>x. triple I (f x) Q E) \<Longrightarrow> triple I (bind_s m f) Q E"
  unfolding keeps_def by (rule triple_bind)

lemma triple_then_keeps: "keeps I E m \<Longrightarrow> triple I k Q E \<Longrightarrow> triple I (then_s m k) Q E"
  unfolding keeps_def by (rule triple_then)

lemma triple_do_all_then_keeps:
  "keeps I E (do_all ms) \<Longrightarrow> triple I k Q E \<Longrightarrow> triple I (do_all_then ms k) Q E"
  unfolding keeps_def by (rule triple_do_all_then)

lemma triple_do_all_keeps: "keeps I E m \<Longrightarrow> triple I (do_all ms) Q E \<Longrightarrow> triple I (do_all (m # ms)) Q E"
  unfolding keeps_def by (rule triple_do_all_Cons)

lemma triple_do_all_last: "triple I m (\<lambda>_. Q) E \<Longrightarrow> triple I (do_all [m]) (\<lambda>_. Q) E"
  by (erule triple_do_all_Cons) (simp add: triple_def return_s_def)

lemmas keeps_triples = triple_bind_keeps triple_then_keeps triple_do_all_then_keeps triple_do_all_keeps

lemma flush_triple: "triple (m0_shape binv) flushPipeline (\<lambda>_. m0_wf binv) E"
proof -
  have h: "hd (replicate (n - 1) OPCODE_NOP) = OPCODE_NOP" if "n = 2 \<or> n = 3" for n :: nat
    using that by auto
  show ?thesis
    unfolding flushPipeline_def
  proof (rule triple_modify)
    fix s assume "m0_shape binv s"
    then obtain d q n where c: "core binv d q n s" "n = 2 \<or> n = 3" "unat (rN d) < 16"
      by (auto simp: m0_shape_def)
    have p: "pipelineStages s = n" using c(1) by (simp add: core_def)
    let ?t = "s\<lparr>instructionBuffer := (instructionBuffer s)\<lparr>buf_valid := False\<rparr>,
       instructionQueue := replicate (pipelineStages s - 1) OPCODE_NOP,
       bubbles := pipelineStages s - 1\<rparr>"
    have "core binv d (replicate (n - 1) OPCODE_NOP) n ?t"
      using c(1) p by (simp add: core_def)
    then show "m0_wf binv ?t"
      unfolding m0_wf_def using c(2,3) h [OF c(2)] by (metis length_replicate)
  qed
qed

section \<open>Exceptions and reset\<close>

context typed_bus
begin

lemma getNextExecutionPc_keeps [keeps_rules]: "core_keeps binv d q n getNextExecutionPc"
  unfolding getNextExecutionPc_def by (rule keeps_rules reported_errors_simps)+

lemma exceptionEnter_triple: "triple (m0_shape binv) (exceptionEnter bt x) (\<lambda>_. m0_wf binv) reported_errors"
proof -
  have m: "core_keeps binv d q n (modify_s (\<lambda>s. s\<lparr>regsAtExceptEnter := (gpr s)[15 := y] @ [apsr s]\<rparr>))"
    "core_keeps binv d q n (modify_s (\<lambda>s. s\<lparr>activeException := i\<rparr>))" for d q n y i
    by (rule keeps_modify, simp add: core_def)+
  show ?thesis
    unfolding exceptionEnter_def Let_def
    by ((rule keeps_triples, rule keeps_shape, (rule keeps_rules m | simp; fail)+)+,
        rule triple_do_all_last, rule flush_triple)
qed

lemma clear_registers_shape: "m0_shape binv s \<Longrightarrow> m0_shape binv (clear_registers s)"
  by (auto simp: m0_shape_def core_def clear_registers_def)

lemma m0_reset_triple: "triple (m0_shape binv) (m0_reset bt) (\<lambda>_. m0_wf binv) reported_errors"
proof -
  have c: "keeps (m0_shape binv) reported_errors (modify_s clear_registers)"
    by (rule keeps_modify) (rule clear_registers_shape)
  have m: "core_keeps binv d q n (modify_s (\<lambda>s. s\<lparr>sp_process := 0\<rparr>))"
    "core_keeps binv d q n (modify_s (\<lambda>s. s\<lparr>exceptmask := 0, cpu_debug := 1\<rparr>))" for d q n
    by (rule keeps_modify, simp add: core_def)+
  show ?thesis
    unfolding m0_reset_def
    by (rule triple_do_all_keeps [OF c],
        (rule keeps_triples, rule keeps_shape, (rule keeps_rules m | simp; fail)+)+,
        rule triple_do_all_last, rule flush_triple)
qed

end

section \<open>One instruction\<close>

lemma ex_core_triple:
  assumes "\<And>d q n. P d q n \<Longrightarrow> triple (core binv d q n) m Q E"
  shows "triple (\<lambda>s. \<exists>d q n. core binv d q n s \<and> P d q n) m Q E"
  unfolding triple_def
proof (intro allI impI)
  fix s assume "\<exists>d q n. core binv d q n s \<and> P d q n"
  then obtain d q n where "core binv d q n s" "P d q n" by blast
  then show "case m s of Inl e \<Rightarrow> e \<in> E | Inr (x, s') \<Rightarrow> Q x s'"
    using assms [of d q n] by (simp add: triple_def)
qed

lemma then_return: "then_s m (return_s ()) = m"
proof (rule ext)
  fix s
  show "then_s m (return_s ()) s = m s" by (cases "m s") (auto simp: sim_monad)
qed

lemma then_assoc: "then_s (then_s a b) c = then_s a (then_s b c)"
  by (simp only: then_s_def bind_s_assoc)

lemma return_then: "then_s (return_s x) m = m"
  by (simp only: then_s_def return_bind)

lemma triple_conj_keeps:
  assumes "keeps I E m" and "triple I m (\<lambda>_. P) E"
  shows "triple I m (\<lambda>_ s. I s \<and> P s) E"
  using assms unfolding keeps_def triple_def by (auto split: sum.splits)

context typed_bus
begin

lemma exceptionCheck_triple: "triple (m0_wf binv) (exceptionCheck bt env) (\<lambda>_. m0_wf binv) reported_errors"
proof -
  have s: "core_keeps binv d q n (modify_s (\<lambda>s. s\<lparr>sleeping := False\<rparr>))" for d q n
    by (rule keeps_modify) simp
  have e: "triple (m0_wf binv) (exceptionEnter bt x) (\<lambda>_. m0_wf binv) reported_errors" for x
    by (rule triple_weaken [OF exceptionEnter_triple]) (simp_all add: wf_shape)
  show ?thesis
    unfolding exceptionCheck_def Let_def
    by (rule triple_bind_keeps [OF keeps_wf], rule keeps_rules, rule triple_when, rule triple_when,
        rule triple_then_keeps [OF keeps_wf [OF s]], rule e, simp_all)
qed

lemma m0_fetch_keeps [keeps_rules]: "core_keeps binv d q n (m0_fetch bt period a)"
proof -
  have m: "core_keeps binv d q n (modify_s (\<lambda>s. s\<lparr>instructionBuffer := x\<rparr>))" for x
    by (rule keeps_modify) simp
  show ?thesis
    unfolding m0_fetch_def Let_def by (rule keeps_rules m reported_errors_simps)+
qed

lemma next_instruction_triple:
  "triple (m0_wf binv) (next_instruction bt period) (m0_fetched binv) reported_errors"
proof -
  have "triple (m0_wf binv) (bind_s (gets_s instructionQueue) (\<lambda>q. let q' = q @ [x] in
     then_s (modify_s (\<lambda>s. s\<lparr>instructionQueue := tl q'\<rparr>)) (return_s (hd q'))))
     (m0_fetched binv) reported_errors" for x
    unfolding triple_def
  proof (intro allI impI)
    fix s assume "m0_wf binv s"
    then obtain d q n where c: "core binv d q n s" and r: "n = 2 \<or> n = 3" "length q = n - 1"
      "unat (rN d) < 16" "regs_in_range d \<or> hd q = OPCODE_NOP"
      unfolding m0_wf_def by blast
    have q: "instructionQueue s = q" "q \<noteq> []" using c r(1,2) by (auto simp: core_def)
    let ?t = "s\<lparr>instructionQueue := tl (q @ [x])\<rparr>"
    have "core binv d (tl (q @ [x])) n ?t" using c by (simp add: core_def)
    moreover have "length (tl (q @ [x])) = n - 1" using r(2) by simp
    moreover have "regs_in_range d \<or> hd (q @ [x]) = OPCODE_NOP" using r(4) q(2) by simp
    ultimately have "m0_fetched binv (hd (q @ [x])) ?t"
      using r(1,3) unfolding m0_fetched_def by blast
    then show "case bind_s (gets_s instructionQueue) (\<lambda>q. let q' = q @ [x] in
        then_s (modify_s (\<lambda>s. s\<lparr>instructionQueue := tl q'\<rparr>)) (return_s (hd q'))) s of
        Inl e \<Rightarrow> e \<in> reported_errors | Inr (w, s') \<Rightarrow> m0_fetched binv w s'"
      by (simp add: sim_monad q(1) Let_def)
  qed
  note last = this
  show ?thesis
    unfolding next_instruction_def
    by (rule triple_bind_keeps [OF keeps_wf], rule keeps_rules,
        rule triple_bind_keeps [OF keeps_wf], rule keeps_rules, rule last)
qed

lemma advance_pc_keeps [keeps_rules]: "core_keeps binv d q n advance_pc"
  unfolding advance_pc_def by (rule keeps_rules)+

lemma branch_last:
  assumes "core_keeps binv d q n (do_all ms)"
  shows "triple (core binv d q n) (do_all_then (ms @ [take_branch]) (return_s k))
    (\<lambda>_ s. core binv d q n s \<and> takenBranch s) reported_errors"
proof -
  have split: "do_all (ms @ [m]) = then_s (do_all ms) m" for m :: "('s, unit) m0_op"
    by (induction ms) (simp_all add: then_return return_then then_assoc)
  have a: "triple (core binv d q n) (do_all ms) (\<lambda>_. core binv d q n) reported_errors"
    using assms unfolding keeps_def .
  have b: "triple (core binv d q n) take_branch (\<lambda>_ s. core binv d q n s \<and> takenBranch s) reported_errors"
    by (simp add: triple_def take_branch_def modify_s_def)
  have c: "triple P (return_s k) (\<lambda>_. P) reported_errors" for P :: "'s m0_cpu \<Rightarrow> bool"
    by (simp add: triple_def return_s_def)
  show ?thesis
    unfolding do_all_then_def split by (rule triple_then [OF triple_then [OF a b] c])
qed

lemma entry6061_triple:
  assumes "wide_ok w d"
  shows "triple (core binv d q n) (entry6061 w) (\<lambda>_ s. core binv d q n s \<and> takenBranch s) reported_errors"
proof -
  let ?Q = "\<lambda>_ s. core binv d q n s \<and> takenBranch s"
  have bl: "triple (core binv d q n) bl ?Q reported_errors"
    unfolding bl_def
    by (rule triple_bind_keeps, rule keeps_rules, rule triple_bind_keeps, rule keeps_rules)
      (rule branch_last [of _ _ _ "[_, _]", simplified append.simps], (rule keeps_rules)+)
  have mrs: "triple (core binv d q n) mrs ?Q reported_errors" if "unat (rD d) < 16"
    unfolding mrs_def Let_def
    by (rule triple_bind_keeps, rule keeps_rules, rule triple_bind_keeps, (rule keeps_rules that)+)
      (rule branch_last [of _ _ _ "[_]", simplified append.simps], (rule keeps_rules that)+)
  have p: "core_keeps binv d q n (modify_s (\<lambda>s. s\<lparr>primask := v AND 1\<rparr>))"
    "core_keeps binv d q n (modify_s (\<lambda>s. if x \<and> cpu_mode_is_thread s
       then s\<lparr>control := msr_control (control s) v\<rparr> else s))" for v x
    by (rule keeps_modify, simp)+
  have msr: "triple (core binv d q n) msr ?Q reported_errors" if "unat (rM d) < 16"
    unfolding msr_def Let_def
    by (rule triple_bind_keeps, rule keeps_rules, rule that, rule triple_bind_keeps, rule keeps_rules)
      (rule branch_last [of _ _ _ "[_]", simplified append.simps], (rule keeps_rules p)+)
  have "triple (core binv d q n) (if imm d = not_bl then
       (if w AND 0xf3e0 = 0xf3e0 then mrs
        else if w AND 0xf380 = 0xf380 then msr
        else fail_s Undefined_behaviour)
     else bl) ?Q reported_errors"
    using assms bl mrs msr by (auto simp: wide_ok_def)
  moreover have "get_imm s = Inr (imm d, s)" if "core binv d q n s" for s
    using that by (simp add: get_imm_def gets_s_def core_def)
  ultimately show ?thesis
    unfolding entry6061_def triple_def by (simp add: bind_s_def)
qed

lemma exwbmem_wide:
  assumes "unat (drop_bit 10 w) = 60 \<or> unat (drop_bit 10 w) = 61"
  shows "exwbmem bt w = entry6061 w" and "decode period w = decode_bl period w"
  using assms by (auto simp: exwbmem_def executeJumpTable_def decode_def decodeJumpTable_def)

lemma executed_keeps:
  assumes "\<And>d q n. core_keeps binv d q n m" and "\<And>s x s'. m s = Inr (x, s') \<Longrightarrow> takenBranch s' = takenBranch s"
  shows "keeps (m0_executed binv) reported_errors m"
  unfolding keeps_def triple_def
proof (intro allI impI)
  fix s assume "m0_executed binv s"
  then obtain d q n where c: "core binv d q n s" and r: "n = 2 \<or> n = 3" "unat (rN d) < 16"
    "takenBranch s \<or> (length q = n - 1 \<and> regs_in_range d)"
    unfolding m0_executed_def by blast
  show "case m s of Inl e \<Rightarrow> e \<in> reported_errors | Inr (x, s') \<Rightarrow> m0_executed binv s'"
    using assms(1) [of d q n] c r assms(2) [of s]
    unfolding keeps_def triple_def m0_executed_def by (cases "m s") fastforce+
qed

lemma execute_insn_triple:
  "triple (m0_fetched binv w) (execute_insn bt period w) (\<lambda>_. m0_executed binv) reported_errors"
proof -
  let ?tail = "\<lambda>k. when_s (k > 0) (do_all [m0_report (M0_event Idle_cycles k), m0_wait (period * k)])"
  have tail: "triple (m0_executed binv) (?tail k) (\<lambda>_. m0_executed binv) reported_errors" for k
    unfolding keeps_def [symmetric]
    by (rule executed_keeps)
      (rule keeps_rules | (auto simp: when_s_def sim_monad m0_report_def m0_wait_def split: if_splits; fail))+
  have main: "triple (core binv d q n) (do_all_then
       [bind_s (gets_s pipelineStages) (\<lambda>n. when_s (n = 2) advance_pc),
        modify_s (\<lambda>s. s\<lparr>takenBranch := False\<rparr>), decode period w] (exwbmem bt w))
      (\<lambda>_. m0_executed binv) reported_errors"
    if r: "(n = 2 \<or> n = 3) \<and> length q = n - 1 \<and> unat (rN d) < 16 \<and> (regs_in_range d \<or> w = OPCODE_NOP)"
    for d q n
  proof -
    have pre: "core_keeps binv d q n (bind_s (gets_s pipelineStages) (\<lambda>n. when_s (n = 2) advance_pc))"
      "core_keeps binv d q n (modify_s (\<lambda>s. s\<lparr>takenBranch := False\<rparr>))"
      by (rule keeps_rules)+ (rule keeps_modify, simp)
    have body: "triple (core binv d q n) (then_s (decode period w) (exwbmem bt w))
        (\<lambda>_. m0_executed binv) reported_errors"
    proof (cases "unat (drop_bit 10 w) = 60 \<or> unat (drop_bit 10 w) = 61")
      case True
      have "w \<noteq> OPCODE_NOP" using True by (auto simp: OPCODE_NOP_def)
      then have ok: "operands_ok d" using r by (simp add: operands_ok_def)
      have "q \<noteq> []" using r by auto
      then have dec: "triple (core binv d q n) (decode period w)
          (\<lambda>_ s. \<exists>d'. core binv d' (tl q) n s \<and> wide_ok w d') reported_errors"
        unfolding exwbmem_wide(2) [OF True] by (rule decode_bl_post [OF ok])
      have exe: "triple (core binv d' (tl q) n) (exwbmem bt w) (\<lambda>_. m0_executed binv) reported_errors"
        if "wide_ok w d'" for d'
        unfolding exwbmem_wide(1) [OF True]
        by (rule triple_weaken [OF entry6061_triple [OF that]])
          (use r that in \<open>auto simp: m0_executed_def wide_ok_def\<close>)
      show ?thesis
        by (rule triple_then [OF dec], rule triple_ex) (use exe in \<open>auto simp: triple_def\<close>)
    next
      case False
      have dec: "triple (core binv d q n) (decode period w)
          (\<lambda>_ s. \<exists>d'. core binv d' q n s \<and> operands_ok d') reported_errors"
      proof (cases "w = OPCODE_NOP")
        case True
        show ?thesis unfolding True using r by (intro decode_nop) simp
      next
        case nop: False
        then have "operands_ok d" using r by (simp add: operands_ok_def)
        then show ?thesis using False by (intro decode_triple) simp_all
      qed
      have lt: "unat (drop_bit 10 w) < 64" using unat_lt_2p [of w] by (simp add: unat_drop_bit_div)
      have exe: "triple (core binv d' q n) (exwbmem bt w) (\<lambda>_. m0_executed binv) reported_errors"
        if ok: "operands_ok d'" for d'
        unfolding exwbmem_def
        by (rule triple_weaken [OF table_keeps [unfolded keeps_def, OF ok lt]])
          (use r False ok in \<open>auto simp: m0_executed_def operands_ok_def\<close>)
      show ?thesis
        by (rule triple_then [OF dec], rule triple_ex) (use exe in \<open>auto simp: triple_def\<close>)
    qed
    show ?thesis
      unfolding do_all_then_def do_all.simps then_return then_assoc
      by (rule triple_then_keeps [OF pre(1)], rule triple_then_keeps [OF pre(2)], rule body)
  qed
  have split: "execute_insn bt period w = bind_s (do_all_then
       [bind_s (gets_s pipelineStages) (\<lambda>n. when_s (n = 2) advance_pc),
        modify_s (\<lambda>s. s\<lparr>takenBranch := False\<rparr>), decode period w] (exwbmem bt w)) ?tail"
    by (simp only: execute_insn_def do_all_then_def then_s_def bind_s_assoc)
  show ?thesis
    unfolding split m0_fetched_def
    by (rule triple_bind [OF ex_core_triple [OF main] tail])
qed

lemma retire_triple: "triple (m0_executed binv) (retire w) (\<lambda>_. m0_wf binv) reported_errors"
proof -
  have sleep: "keeps (m0_executed binv) reported_errors (when_s (w = OPCODE_WFE \<or> w = OPCODE_WFI)
      (do_all [modify_s (\<lambda>s. s\<lparr>sleeping := True\<rparr>), m0_report (M0_state M0_sleep)]))"
    by (rule executed_keeps)
      (rule keeps_rules | (rule keeps_modify, simp; fail) | (auto simp: when_s_def sim_monad m0_report_def split: if_splits; fail))+
  have bub: "keeps (m0_executed binv) reported_errors (modify_s (\<lambda>s. s\<lparr>bubbles := bubbles s - 1\<rparr>))"
    by (rule executed_keeps) (rule keeps_modify, auto simp: core_def modify_s_def)
  have flush: "triple (m0_executed binv) (bind_s (gets_s takenBranch) (\<lambda>t. when_s t flushPipeline))
      (\<lambda>_. m0_wf binv) reported_errors"
    unfolding triple_def
  proof (intro allI impI)
    fix s assume x: "m0_executed binv s"
    have "case flushPipeline s of Inl e \<Rightarrow> e \<in> reported_errors | Inr (_, s') \<Rightarrow> m0_wf binv s'"
      using flush_triple [of binv reported_errors] x
      unfolding triple_def m0_executed_def m0_shape_def by blast
    moreover have "m0_wf binv s" if "\<not> takenBranch s"
      using x that unfolding m0_executed_def m0_wf_def by blast
    ultimately show "case bind_s (gets_s takenBranch) (\<lambda>t. when_s t flushPipeline) s of
        Inl e \<Rightarrow> e \<in> reported_errors | Inr (_, s') \<Rightarrow> m0_wf binv s'"
      by (simp add: bind_s_def gets_s_def when_s_def return_s_def)
  qed
  have adv: "keeps (m0_wf binv) reported_errors
      (bind_s (gets_s (\<lambda>s. \<not> takenBranch s \<and> pipelineStages s = 3)) (\<lambda>c. when_s c advance_pc))"
    "keeps (m0_wf binv) reported_errors (m0_report e)"
    "keeps (m0_wf binv) reported_errors (modify_s (\<lambda>s. if doStep s \<and> bubbles s = 0
        then s\<lparr>running := False, doStep := False\<rparr> else s))" for e
    by (rule keeps_wf, (rule keeps_rules)+)+ (rule keeps_wf, rule keeps_modify, simp)
  show ?thesis
    unfolding retire_def
    by (rule triple_do_all_keeps [OF sleep], rule triple_do_all_keeps [OF bub],
        rule triple_do_all_Cons [OF flush], rule triple_do_all_keeps [OF adv(1)],
        rule triple_do_all_keeps [OF adv(2)], rule triple_do_all_last, rule adv(3) [unfolded keeps_def])
qed

end

end
