(* ===== verification/Cm0_Safety.thy ===== *)
theory Cm0_Safety
  imports Cm0_Wellformed
begin

unbundle bit_operations_syntax

text \<open>
  The Cortex-M0 core on the bus of its microcontroller never accesses an array out of
  bounds: the bus is a \<open>typed_bus\<close> whenever its peripherals keep buffer lengths and report
  their errors, and a whole run from construction and reset keeps the core well formed.
\<close>

section \<open>The main loop\<close>

context typed_bus
begin

lemma wf_keeps_modify: "(\<And>d q n s. core binv d q n s \<Longrightarrow> core binv d q n (f s)) \<Longrightarrow>
    keeps (m0_wf binv) reported_errors (modify_s f)"
  by (rule keeps_wf) (rule keeps_modify)

lemma power_off_wait_triple: "triple (m0_wf binv) (power_off_wait bt) (\<lambda>_. m0_wf binv) reported_errors"
  unfolding power_off_wait_def
  by (rule triple_do_all_keeps [OF keeps_wf], rule keeps_rules,
      rule triple_do_all_keeps [OF keeps_wf], rule keeps_rules, rule triple_do_all_last,
      rule triple_weaken [OF m0_reset_triple], simp_all add: wf_shape)

lemma at_breakpoint_keeps: "keeps (m0_wf binv) reported_errors at_breakpoint"
  unfolding at_breakpoint_def by (rule keeps_wf) (rule keeps_rules)+

lemma m0_step_triple: "triple (m0_wf binv) (m0_step bt period env) (\<lambda>_. m0_wf binv) reported_errors"
proof -
  have fin: "triple (m0_wf binv) (bind_s (gets_s running) (\<lambda>r. when_s (r \<and> x) (power_off_wait bt)))
      (\<lambda>_. m0_wf binv) reported_errors" for x
    by (rule triple_bind_keeps, rule keeps_rules, rule triple_when, rule power_off_wait_triple, simp)
  have exec: "triple (m0_fetched binv w) (do_all [execute_insn bt period w, retire w, f]) (\<lambda>_. m0_wf binv) reported_errors"
    if "triple (m0_wf binv) f (\<lambda>_. m0_wf binv) reported_errors" for w f
    by (rule triple_do_all_Cons [OF execute_insn_triple], rule triple_do_all_Cons [OF retire_triple],
        rule triple_do_all_last, rule that)
  have pre: "triple (m0_wf binv) (do_all
          [bind_s cpu_get_pc (\<lambda>pc. require_s (pc AND 1 \<noteq> 0) Report_fatal),
           exceptionCheck bt env, modify_s (\<lambda>s. s\<lparr>returningException := 0\<rparr>)]) (\<lambda>_. m0_wf binv) reported_errors"
    by (rule triple_do_all_keeps [OF keeps_wf], (rule keeps_rules reported_errors_simps)+,
        rule triple_do_all_Cons [OF exceptionCheck_triple], rule triple_do_all_last,
        rule wf_keeps_modify [unfolded keeps_def], simp)
  show ?thesis
    unfolding m0_step_def Let_def
    by (rule triple_bind_keeps, rule keeps_rules, rule triple_if,
        rule triple_do_all_then [OF pre], rule triple_bind_keeps, rule keeps_rules, rule triple_if,
        rule fin, rule triple_bind_keeps [OF at_breakpoint_keeps], rule triple_if,
        rule wf_keeps_modify [unfolded keeps_def], simp,
        rule triple_bind [OF next_instruction_triple exec [OF fin]], rule fin)
qed

lemma m0_run_triple: "triple (m0_wf binv) (m0_run bt period es) (\<lambda>_. m0_wf binv) reported_errors"
  by (induction es)
    (simp_all add: triple_then [OF m0_step_triple], simp add: triple_def return_s_def)

lemma new_reset_run:
  assumes "CortexM0Cpu_new v b0 = Inr s" and "binv b0"
  shows "case then_s (m0_reset bt) (m0_run bt period es) s of
      Inl e \<Rightarrow> e \<in> reported_errors | Inr (_, s') \<Rightarrow> m0_wf binv s'"
proof -
  have "m0_shape binv s"
    using assms by (auto simp: CortexM0Cpu_new_def Let_def m0_shape_def core_def split: if_splits)
  moreover have "triple (m0_shape binv) (then_s (m0_reset bt) (m0_run bt period es)) (\<lambda>_. m0_wf binv) reported_errors"
    by (rule triple_then [OF m0_reset_triple m0_run_triple])
  ultimately show ?thesis by (simp add: triple_def)
qed

end

section \<open>The bus of the microcontroller\<close>

definition typed_peripheral :: "'p transport \<Rightarrow> ('p \<Rightarrow> bool) \<Rightarrow> bool" where
  "typed_peripheral pt pinv \<longleftrightarrow>
     (\<forall>q p t. pinv q \<and> command p \<noteq> TLM_IGNORE_COMMAND \<and> data p \<noteq> [] \<longrightarrow>
        (case pt q p t of Inl e \<Rightarrow> e \<in> reported_errors
         | Inr (q', p', t', fx) \<Rightarrow> pinv q' \<and> length (data p') = length (data p)))"

definition m0_slave_typed :: "(m0_slave_id \<Rightarrow> 'p \<Rightarrow> bool) \<Rightarrow> nat \<Rightarrow> 'p m0_slave \<Rightarrow> bool" where
  "m0_slave_typed pinv i s =
     (case s of
        Nvm mem \<Rightarrow> length mem = port_size cm0_routing i
      | Ram mem \<Rightarrow> length mem = port_size cm0_routing i
      | M0_peripheral q \<Rightarrow> pinv (m0_port_id i) q)"

definition m0_board_typed :: "(m0_slave_id \<Rightarrow> 'p \<Rightarrow> bool) \<Rightarrow> bus \<times> 'p m0_slave list \<Rightarrow> bool" where
  "m0_board_typed pinv s \<longleftrightarrow>
     routingTable (fst s) = cm0_routing \<and> length (snd s) = 10 \<and> (\<forall>i < 10. m0_slave_typed pinv i (snd s ! i))"

lemma m0_slave_transport_typed:
  assumes pt: "\<And>x. typed_peripheral (pt x) (pinv x)" and s: "m0_slave_typed pinv i s"
    and p: "command p \<noteq> TLM_IGNORE_COMMAND" "data p \<noteq> []"
    and b: "unat (address p) + length (data p) \<le> port_size cm0_routing i"
  shows "case m0_slave_transport pt period ws i s p t of Inl e \<Rightarrow> e \<in> reported_errors
    | Inr (s', p', t', fx) \<Rightarrow> m0_slave_typed pinv i s' \<and> length (data p') = length (data p)"
proof (cases s)
  case (M0_peripheral q)
  have "case pt (m0_port_id i) q p t of Inl e \<Rightarrow> e \<in> reported_errors
      | Inr (q', p', t', fx) \<Rightarrow> pinv (m0_port_id i) q' \<and> length (data p') = length (data p)"
    using pt [of "m0_port_id i"] s p by (simp add: typed_peripheral_def m0_slave_typed_def M0_peripheral)
  then show ?thesis
    by (cases "pt (m0_port_id i) q p t")
      (auto simp: M0_peripheral m0_slave_transport_def lift_m0_slave_def m0_slave_typed_def)
qed (use p s b in \<open>auto simp: m0_slave_transport_def lift_m0_slave_def m0_slave_typed_def
      NonvolatileMemory_b_transport_def GenericMemory_b_transport_def Let_def data_length_def
      split: tlm_command.splits\<close>)

lemma checked_in_range:
  assumes c: "checkTransaction t rt tp i = Inr ()" and d: "data tp \<noteq> []" "word_size t \<le> 4"
    and a: "unat (address tp) < 2 ^ 32"
  shows "unat (address tp) + length (data tp) \<le> port_size rt i"
proof -
  let ?n = "length (data tp)"
  have r: "address tp + of_nat ?n - 1 \<le> ucast (snd (rt ! i) - fst (rt ! i))" "?n \<le> 4"
    using c d(2) by (auto simp: checkTransaction_def Let_def data_length_def split_beta check_r_eq_Inr)
  obtain m where m: "?n = Suc m" using d(1) by (cases "data tp") auto
  have "address tp + of_nat ?n - 1 = of_nat (unat (address tp) + m)"
    unfolding m by simp
  then have "unat (address tp + of_nat ?n - 1) = unat (address tp) + m"
    using a r(2) m by (simp only:) (rule unat_of_nat_lt, simp)
  then have "unat (address tp) + m \<le> unat (snd (rt ! i) - fst (rt ! i))"
    using r(1) by (simp add: word_le_nat_alt)
  then show ?thesis by (simp add: port_size_def m)
qed

lemma cm0_typed_bus:
  fixes pt :: "m0_slave_id \<Rightarrow> 'p transport"
  assumes pt: "\<And>x. typed_peripheral (pt x) (pinv x)"
  shows "typed_bus (cm0_board_bus pt period ws) (m0_board_typed pinv)"
proof -
  have *: "case cm0_board_bus pt period ws s p t of Inl e \<Rightarrow> e \<in> reported_errors
      | Inr (s', p', t', fx) \<Rightarrow> m0_board_typed pinv s' \<and> length (data p') = length (data p)"
    if s: "m0_board_typed pinv s" and p: "command p \<noteq> TLM_IGNORE_COMMAND" "unat (address p) < 2 ^ 32" "data p \<noteq> []"
    for s p t
  proof -
    obtain b ds where bd: "s = (b, ds)" by (cases s)
    have rt: "routingTable b = cm0_routing" "length ds = 10" and ty: "\<And>i. i < 10 \<Longrightarrow> m0_slave_typed pinv i (ds ! i)"
      using s by (simp_all add: m0_board_typed_def bd)
    show ?thesis
    proof (cases "find_port cm0_routing (ucast (address p)) 0")
      case None
      then show ?thesis by (simp add: bd Bus_b_transport_def routeForward_def rt)
    next
      case (Some i)
      have i: "i < 10" "Bus_inRange (ucast (address p)) (cm0_routing ! i)"
        using find_port_Some [OF Some] by (simp_all add: cm0_ports)
      let ?f = "fst (cm0_routing ! i)"
      let ?p = "p\<lparr>address := address p - ucast ?f\<rparr>"
      have "unat (ucast (address p) :: u32) = unat (address p)"
        using p(2) by (rule unat_ucast_u64_u32)
      then have le: "unat ?f \<le> unat (address p)"
        using i(2) by (simp add: Bus_inRange_def word_le_nat_alt)
      then have a: "unat (address ?p) < 2 ^ 32"
        using p(2) by (simp add: unat_sub word_le_nat_alt)
      show ?thesis
      proof (cases "checkTransaction cortex_m0 cm0_routing ?p i")
        case (Inl e)
        then have "e \<in> reported_errors"
          by (auto simp: checkTransaction_def Let_def split_beta check_r_def split: if_splits)
        then show ?thesis using Some Inl by (simp add: bd Bus_b_transport_def routeForward_def rt)
      next
        case (Inr u)
        have w: "word_size cortex_m0 \<le> 4" by (simp add: cortex_m0_def)
        have "unat (address ?p) + length (data ?p) \<le> port_size cm0_routing i"
          using Inr p(3) by (intro checked_in_range [OF _ _ w a]) simp_all
        then have d: "case m0_slave_transport pt period ws i (ds ! i) ?p t of Inl e \<Rightarrow> e \<in> reported_errors
            | Inr (s', p', t', fx) \<Rightarrow> m0_slave_typed pinv i s' \<and> length (data p') = length (data ?p)"
          using p ty [OF i(1)] by (intro m0_slave_transport_typed [OF pt]) simp_all
        have up: "m0_board_typed pinv (updateTrace b q x, ds[i := d'])" if "m0_slave_typed pinv i d'" for q x d'
          using rt ty that i(1) by (auto simp: m0_board_typed_def updateTrace_def nth_list_update)
        show ?thesis
          using d Some Inr i(1) rt up
          by (cases "m0_slave_transport pt period ws i (ds ! i) ?p t")
            (auto simp: bd Bus_b_transport_def routeForward_def Let_def)
      qed
    qed
  qed
  show ?thesis
  proof
    fix x :: "bus \<times> 'p m0_slave list" and p :: payload and t x' p' t' fx e
    assume h: "m0_board_typed pinv x" "command p \<noteq> TLM_IGNORE_COMMAND" "unat (address p) < 2 ^ 32" "data p \<noteq> []"
    show "m0_board_typed pinv x' \<and> length (data p') = length (data p)"
      if "cm0_board_bus pt period ws x p t = Inr (x', p', t', fx)"
      using * [OF h, of t] that by simp
    show "e \<in> reported_errors" if "cm0_board_bus pt period ws x p t = Inl e"
      using * [OF h, of t] that by simp
  qed
qed

text \<open>The microcontroller with no peripheral attached.\<close>

lemma absent_peripherals: "typed_peripheral (\<lambda>_ _ _. Inl Report_fatal) (\<lambda>_. True)"
  by (simp add: typed_peripheral_def)

interpretation cm0_bare: typed_bus
  "cm0_board_bus (\<lambda>_ _ _ _. Inl Report_fatal) period ws" "m0_board_typed (\<lambda>_ _. True)" for period ws
  by (rule cm0_typed_bus) (rule absent_peripherals)

lemma cm0_memory_init_typed:
  assumes "\<And>x. pinv x (pinit x)"
  shows "m0_board_typed pinv (cm0_memory_init pinit m)"
proof -
  have "list_all (\<lambda>i. m0_slave_typed pinv i (snd (cm0_memory_init pinit m) ! i)) [0..<10]"
    unfolding upt_10
    by (simp add: m0_slave_typed_def cm0_memory_init_def cm0_slaves_eq m0_port_id_def m0_memory_size_def
        port_size_def cm0_routing_eq assms)
  then show ?thesis
    by (simp add: m0_board_typed_def list_all_iff)
      (simp add: cm0_memory_init_def cm0_routing_def cm0_slaves_eq)
qed

section \<open>Safety of a whole run\<close>



end
