(* ===== verification/Cm0_Symbolic.thy ===== *)
theory Cm0_Symbolic
  imports Cm0_Safety Cm0_Words
begin

unbundle bit_operations_syntax

text \<open>
  The Cortex-M0 core over a byte device behind the bus (locale \<open>m0_memory\<close>). \<open>runs m r op Q\<close>
  is total correctness of an operation: from a bus that shows the bytes \<open>m\<close> and a core in
  the state \<open>r\<close> it succeeds, with a value, bytes and core in \<open>Q\<close>; only the state of the bus
  and the simulation time are left open. The rules \<open>runs_rules\<close> execute an operation
  symbolically; here they execute entry to and return from exceptions.
\<close>

section \<open>Words in memory\<close>

definition word32_at :: "(nat \<Rightarrow> u8) \<Rightarrow> nat \<Rightarrow> u32" where
  "word32_at m a = pack32 [m a, m (a + 1), m (a + 2), m (a + 3)]"

lemma word32_at_put_same [simp]: "word32_at (put_bytes m a (unpack32 v)) a = v"
proof -
  have "word32_at (put_bytes m a (unpack32 v)) a = pack32 (unpack32 v)"
    by (simp add: word32_at_def put_bytes_def unpack32_def pack32_def)
  then show ?thesis by (simp add: pack_unpack32)
qed

lemma word32_at_put_other:
  "b + 4 \<le> a \<or> a + 4 \<le> b \<Longrightarrow> word32_at (put_bytes m a (unpack32 v)) b = word32_at m b"
  by (auto simp: word32_at_def put_bytes_def)

lemma word32_at_cong: "(\<And>x. a \<le> x \<Longrightarrow> x < a + 4 \<Longrightarrow> m x = m' x) \<Longrightarrow> word32_at m a = word32_at m' a"
  by (simp add: word32_at_def)

text \<open>Consecutive words, as the stacking of an exception or STM write them.\<close>

fun store_words :: "(nat \<Rightarrow> u8) \<Rightarrow> u32 \<Rightarrow> u32 list \<Rightarrow> (nat \<Rightarrow> u8)" where
  "store_words m a [] = m"
| "store_words m a (w # ws) = store_words (put_bytes m (unat a) (unpack32 w)) (a + 4) ws"

lemma unat_add_small: "unat a + n < 2 ^ 32 \<Longrightarrow> unat (a + of_nat n :: u32) = unat a + n"
  by (simp add: unat_word_ariths unat_of_nat)

lemma store_words_outside:
  assumes "unat a + 4 * length ws \<le> 2 ^ 32" and "x < unat a \<or> unat a + 4 * length ws \<le> x"
  shows "store_words m a ws x = m x"
  using assms
proof (induction ws arbitrary: m a)
  case (Cons w ws)
  show ?case
  proof (cases "ws = []")
    case False
    then have "unat (a + 4) = unat a + 4"
      using Cons.prems(1) unat_add_small [of a 4] by (cases ws) auto
    then show ?thesis using Cons by (auto simp: put_bytes_def)
  qed (use Cons.prems in \<open>auto simp: put_bytes_def\<close>)
qed simp

lemma store_words_at:
  assumes "unat a + 4 * length ws \<le> 2 ^ 32" and "i < length ws"
  shows "word32_at (store_words m a ws) (unat a + 4 * i) = ws ! i"
  using assms
proof (induction ws arbitrary: m a i)
  case (Cons w ws)
  show ?case
  proof (cases "ws = []")
    case True
    then show ?thesis using Cons.prems by simp
  next
    case False
    then have a: "unat (a + 4) = unat a + 4"
      using Cons.prems(1) unat_add_small [of a 4] by (cases ws) auto
    show ?thesis
    proof (cases i)
      case 0
      have "word32_at (store_words (put_bytes m (unat a) (unpack32 w)) (a + 4) ws) (unat a) = w"
        using Cons.prems(1) a
        by (subst word32_at_cong [of _ _ "put_bytes m (unat a) (unpack32 w)"])
          (auto intro!: store_words_outside)
      then show ?thesis by (simp add: 0)
    next
      case (Suc j)
      then show ?thesis using Cons.IH [of "a + 4" j] Cons.prems a by (simp add: add.assoc)
    qed
  qed
qed simp

section \<open>The stack frame of an exception\<close>

definition frame_at :: "u32 \<Rightarrow> u32" where
  "frame_at sp = (sp - 0x20) AND NOT 4"

definition stacked_psr :: "u32 \<Rightarrow> u32 \<Rightarrow> u32" where
  "stacked_psr sp psr = (psr AND 0xFFFFFC00) OR push_bit 9 (of_bool (sp AND 4 \<noteq> 0)) OR (psr AND 0x1FF)"

text \<open>The address at which execution resumes, with the Thumb bit.\<close>

definition resume_pc :: "'s m0_cpu \<Rightarrow> u32" where
  "resume_pc r = ((gpr r ! 15 AND NOT 1) - 2 * (of_nat (length (instructionQueue r)) - of_nat (bubbles r))) OR 1"

definition exc_return :: "'s m0_cpu \<Rightarrow> u32" where
  "exc_return r = (if cpu_mode_is_handler r then 0xFFFFFFF1 else if cpu_stack_is_main r then 0xFFFFFFF9 else 0xFFFFFFFD)"

definition frame_words :: "'s m0_cpu \<Rightarrow> u32 list" where
  "frame_words r = [gpr r ! 0, gpr r ! 1, gpr r ! 2, gpr r ! 3, gpr r ! 12, gpr r ! 14, resume_pc r,
     stacked_psr (gpr r ! 13) (apsr r)]"

lemma stacked_psr_flags: "stacked_psr sp psr AND 0xF0000000 = psr AND 0xF0000000"
proof -
  have "push_bit 9 (of_bool b) AND (0xF0000000 :: u32) = 0" "0xFFFFFC00 AND (0xF0000000 :: u32) = 0xF0000000"
    "0x1FF AND (0xF0000000 :: u32) = 0" for b
    by (cases b) simp_all
  then show ?thesis by (simp add: stacked_psr_def bit.conj_disj_distrib2 and.assoc)
qed

lemma stacked_psr_align: "stacked_psr sp psr AND push_bit 9 1 = 0 \<longleftrightarrow> sp AND 4 = 0"
proof -
  have "stacked_psr sp psr AND push_bit 9 1 = push_bit 9 (of_bool (sp AND 4 \<noteq> 0))"
    by (simp add: stacked_psr_def bit.conj_disj_distrib2 and.assoc)
  then show ?thesis by simp
qed

lemma split_bit_2: "(x AND 4) + (x AND NOT 4) = (x :: u32)"
  by (subst disjunctive_add_eq_or) (auto simp: bit_eq_iff bit_simps)

lemma frame_at_eq: "frame_at sp + 0x20 = sp - (sp AND 4)"
proof -
  have "unat (sp - 0x20) mod 8 = unat sp mod 8"
  proof (cases "0x20 \<le> unat sp")
    case True
    then obtain k where "unat sp = 0x20 + k" using le_Suc_ex by blast
    moreover from this have "unat (sp - 0x20) = k" by (simp add: unat_sub_if')
    moreover have "(0x20 + k) mod 8 = k mod 8" for k :: nat by (simp add: mod_add_eq [symmetric])
    ultimately show ?thesis by (simp only:)
  next
    case False
    then have "unat (sp - 0x20) = unat sp + 536870908 * 8" by (simp add: unat_sub_if')
    then show ?thesis by (simp only: mod_mult_self1)
  qed
  then have t: "take_bit 3 (sp - 0x20) = take_bit 3 sp"
    by (simp add: word_unat_eq_iff unat_take_bit_mod)
  have m: "take_bit 3 x AND 4 = x AND 4" for x :: u32
    by (simp add: take_bit_eq_mask and.assoc mask_eq_exp_minus_1)
  have "(sp - 0x20) AND 4 = take_bit 3 (sp - 0x20) AND 4" by (rule m [symmetric])
  also have "\<dots> = sp AND 4" unfolding t by (rule m)
  finally have b: "(sp - 0x20) AND 4 = sp AND 4" .
  show ?thesis
    using split_bit_2 [of "sp - 0x20"] unfolding b frame_at_def by (simp add: algebra_simps)
qed

lemma frame_restores_sp:
  "(if stacked_psr sp psr AND push_bit 9 1 \<noteq> 0 then (frame_at sp + 0x20) OR 4 else frame_at sp + 0x20) = sp"
proof -
  have "sp - (sp AND 4) = sp AND NOT 4" using split_bit_2 [of sp] by (simp add: algebra_simps)
  moreover have "(sp AND NOT 4) OR 4 = sp" if "sp AND 4 \<noteq> 0"
  proof (rule bit_word_eqI)
    fix n :: nat
    have "bit (4 :: u32) n \<longleftrightarrow> n = 2" using bit_exp_iff [of 2 n, where 'a = u32] by auto
    moreover have "bit (- 5 :: u32) n \<longleftrightarrow> n < 32 \<and> \<not> bit (4 :: u32) n"
      using bit_not_iff [of "4 :: u32" n] by simp
    moreover have "bit sp 2" using that bit_iff_and_push_bit_not_eq_0 [of sp 2] by simp
    ultimately show "bit ((sp AND NOT 4) OR 4) n = bit sp n"
      by (auto simp: bit_or_iff bit_and_iff bit_not_iff dest: bit_imp_le_length)
  qed
  ultimately show ?thesis
    unfolding stacked_psr_align frame_at_eq by auto
qed

text \<open>The words of a frame, read back.\<close>

definition frame_word :: "(nat \<Rightarrow> u8) \<Rightarrow> u32 \<Rightarrow> nat \<Rightarrow> u32" where
  "frame_word m fp i = word32_at m (unat (fp + of_nat (4 * i)))"

definition entered :: "u32 \<Rightarrow> 's m0_cpu \<Rightarrow> (nat \<Rightarrow> u8) \<Rightarrow> 's m0_cpu \<Rightarrow> bool" where
  "entered k s m' s1 \<longleftrightarrow>
     gpr s1 = (gpr s)[13 := frame_at (gpr s ! 13), 14 := exc_return s,
                15 := word32_at m' (unat (ROM_START + 4 * k))]
     \<and> cpu_mode s1 = 0 \<and> control s1 AND 2 = 0 \<and> ipsr s1 = k AND 0x3F \<and> activeException s1 = sint k
     \<and> instructionQueue s1 = replicate (pipelineStages s - 1) OPCODE_NOP"

definition returned :: "u32 list \<Rightarrow> u32 list \<Rightarrow> u32 \<Rightarrow> u32 \<Rightarrow> u32 \<Rightarrow> 's m0_cpu \<Rightarrow> bool" where
  "returned g ws exc c sp s3 \<longleftrightarrow>
     gpr s3 = g[0 := ws ! 0, 1 := ws ! 1, 2 := ws ! 2, 3 := ws ! 3, 12 := ws ! 4, 14 := ws ! 5, 15 := ws ! 6, 13 := sp]
     \<and> apsr s3 = ws ! 7 AND 0xF0000000 \<and> cpu_mode s3 = (if exc = 0xFFFFFFF1 then 0 else 1)
     \<and> control s3 = (if exc = 0xFFFFFFFD then c OR 2 else c AND NOT 2)
     \<and> ipsr s3 = 0 \<and> activeException s3 = 0 \<and> takenBranch s3"

lemma returned_restores:
  assumes "returned (gpr s2) (frame_words s) (exc_return s) c (gpr s ! 13) s3" and "length (gpr s2) = 16"
    and "cpu_mode s \<le> 1"
  shows "\<forall>i \<in> {0, 1, 2, 3, 12, 13, 14}. gpr s3 ! i = gpr s ! i" and "\<forall>i \<in> {4..11}. gpr s3 ! i = gpr s2 ! i"
    and "gpr s3 ! 15 = resume_pc s" and "apsr s3 = apsr s AND 0xF0000000"
    and "cpu_mode s3 = cpu_mode s" and "ipsr s3 = 0"
    and "cpu_mode_is_thread s \<Longrightarrow> cpu_stack_is_main s3 = cpu_stack_is_main s"
proof -
  have g: "gpr s3 = (gpr s2)[0 := gpr s ! 0, 1 := gpr s ! 1, 2 := gpr s ! 2, 3 := gpr s ! 3, 12 := gpr s ! 12,
      14 := gpr s ! 14, 15 := resume_pc s, 13 := gpr s ! 13]"
    using assms(1) by (simp add: returned_def frame_words_def numeral_eq_Suc)
  show "\<forall>i \<in> {0, 1, 2, 3, 12, 13, 14}. gpr s3 ! i = gpr s ! i" "\<forall>i \<in> {4..11}. gpr s3 ! i = gpr s2 ! i"
    "gpr s3 ! 15 = resume_pc s"
    using assms(2) by (auto simp: g nth_list_update)
  show "apsr s3 = apsr s AND 0xF0000000"
    using assms(1) by (simp add: returned_def frame_words_def stacked_psr_flags numeral_eq_Suc)
  have "cpu_mode s = 0 \<or> cpu_mode s = 1" using assms(3) by (simp add: word_le_nat_alt word_unat_eq_iff) linarith
  then show "cpu_mode s3 = cpu_mode s"
    using assms(1) by (auto simp: returned_def exc_return_def cpu_mode_is_handler_def)
  show "ipsr s3 = 0" using assms(1) by (simp add: returned_def)
  have "(c AND NOT 2) AND 2 = 0" "(c OR 2) AND 2 \<noteq> 0" by (simp_all add: and.assoc bit.conj_disj_distrib2)
  then show "cpu_stack_is_main s3 = cpu_stack_is_main s" if "cpu_mode_is_thread s"
    using assms(1) that by (auto simp: returned_def exc_return_def cpu_mode_is_handler_def cpu_mode_is_thread_def cpu_stack_is_main_def)
qed

section \<open>Symbolic execution\<close>

locale m0_memory = byte_device bt view inv serves
  for bt :: "'s transport" and view inv serves
begin

definition at_state :: "(nat \<Rightarrow> u8) \<Rightarrow> 's m0_cpu \<Rightarrow> 's m0_cpu \<Rightarrow> bool" where
  "at_state m r s \<longleftrightarrow> inv (m0_bus s) \<and> view (m0_bus s) = m
     \<and> s = r\<lparr>m0_bus := m0_bus s, m0_now := m0_now s\<rparr>"

definition runs ::
  "(nat \<Rightarrow> u8) \<Rightarrow> 's m0_cpu \<Rightarrow> ('s, 'a) m0_op \<Rightarrow> ('a \<Rightarrow> (nat \<Rightarrow> u8) \<Rightarrow> 's m0_cpu \<Rightarrow> bool) \<Rightarrow> bool" where
  "runs m r op Q \<longleftrightarrow>
     (\<forall>s. at_state m r s \<longrightarrow> (\<exists>x s' m' r'. op s = Inr (x, s') \<and> at_state m' r' s' \<and> Q x m' r'))"

named_theorems runs_rules \<open>symbolic execution\<close>

lemma runs_return [runs_rules]: "Q x m r \<Longrightarrow> runs m r (return_s x) Q"
  by (auto simp: runs_def return_s_def)

lemma runs_bind [runs_rules]:
  assumes "runs m r op (\<lambda>x m1 r1. runs m1 r1 (f x) Q)"
  shows "runs m r (bind_s op f) Q"
  unfolding runs_def
proof (intro allI impI)
  fix s assume "at_state m r s"
  then obtain x s1 m1 r1 where "op s = Inr (x, s1)" "at_state m1 r1 s1" "runs m1 r1 (f x) Q"
    using assms unfolding runs_def by blast
  then show "\<exists>y s' m' r'. bind_s op f s = Inr (y, s') \<and> at_state m' r' s' \<and> Q y m' r'"
    by (auto simp: bind_s_def runs_def)
qed

lemma runs_then [runs_rules]: "runs m r op (\<lambda>_ m1 r1. runs m1 r1 k Q) \<Longrightarrow> runs m r (then_s op k) Q"
  unfolding then_s_def by (rule runs_bind)

lemma runs_do_all_Nil [runs_rules]: "Q () m r \<Longrightarrow> runs m r (do_all []) Q"
  by (simp add: runs_return)

lemma runs_do_all_Cons [runs_rules]:
  "runs m r op (\<lambda>_ m1 r1. runs m1 r1 (do_all ops) Q) \<Longrightarrow> runs m r (do_all (op # ops)) Q"
  by (simp add: runs_then)

lemma runs_do_all_then [runs_rules]:
  "runs m r (do_all ops) (\<lambda>_ m1 r1. runs m1 r1 k Q) \<Longrightarrow> runs m r (do_all_then ops k) Q"
  unfolding do_all_then_def by (rule runs_then)

lemma runs_require [runs_rules]: "b \<Longrightarrow> Q () m r \<Longrightarrow> runs m r (require_s b e) Q"
  by (auto simp: runs_def require_s_def)

lemma runs_let [runs_rules]: "runs m r (f v) Q \<Longrightarrow> runs m r (let x = v in f x) Q"
  by simp

lemma runs_gets [runs_rules]:
  assumes "\<And>b t. f (r\<lparr>m0_bus := b, m0_now := t\<rparr>) = f r" and "Q (f r) m r"
  shows "runs m r (gets_s f) Q"
proof -
  have "f s = f r" if "at_state m r s" for s
    using that assms(1) [of "m0_now s" "m0_bus s"] by (simp add: at_state_def)
  then show ?thesis using assms(2) by (auto simp: runs_def gets_s_def)
qed

lemma runs_modify [runs_rules]:
  assumes "\<And>b t. f (r\<lparr>m0_bus := b, m0_now := t\<rparr>) = (f r)\<lparr>m0_bus := b, m0_now := t\<rparr>" and "Q () m (f r)"
  shows "runs m r (modify_s f) Q"
proof -
  have "at_state m (f r) (f s)" if "at_state m r s" for s
  proof -
    have "f s = (f r)\<lparr>m0_bus := m0_bus s, m0_now := m0_now s\<rparr>"
      using that assms(1) [of "m0_now s" "m0_bus s"] by (simp add: at_state_def)
    then show ?thesis using that by (simp add: at_state_def)
  qed
  then show ?thesis using assms(2) by (auto simp: runs_def modify_s_def)
qed

lemma runs_when [runs_rules]: "(b \<Longrightarrow> runs m r op Q) \<Longrightarrow> (\<not> b \<Longrightarrow> Q () m r) \<Longrightarrow> runs m r (when_s b op) Q"
  unfolding when_s_def by (simp add: runs_return)

lemma runs_get_gpr [runs_rules]: "x < 16 \<Longrightarrow> Q (gpr r ! x) m r \<Longrightarrow> runs m r (cpu_get_gpr x) Q"
  unfolding cpu_get_gpr_def by (intro runs_rules) simp_all

lemma runs_set_gpr [runs_rules]:
  "x < 16 \<Longrightarrow> Q () m (r\<lparr>gpr := (gpr r)[x := y]\<rparr>) \<Longrightarrow> runs m r (cpu_set_gpr x y) Q"
  unfolding cpu_set_gpr_def by (intro runs_rules) simp_all

lemma runs_accessors [runs_rules]:
  "Q (gpr r ! 13) m r \<Longrightarrow> runs m r cpu_get_sp Q"
  "Q' () m (r\<lparr>gpr := (gpr r)[13 := y]\<rparr>) \<Longrightarrow> runs m r (cpu_set_sp y) Q'"
  "Q (gpr r ! 14) m r \<Longrightarrow> runs m r cpu_get_lr Q"
  "Q' () m (r\<lparr>gpr := (gpr r)[14 := y]\<rparr>) \<Longrightarrow> runs m r (cpu_set_lr y) Q'"
  "Q (gpr r ! 15) m r \<Longrightarrow> runs m r cpu_get_pc Q"
  "Q' () m (r\<lparr>gpr := (gpr r)[15 := y]\<rparr>) \<Longrightarrow> runs m r (cpu_set_pc y) Q'"
  unfolding cpu_get_sp_def cpu_set_sp_def cpu_get_lr_def cpu_set_lr_def cpu_get_pc_def cpu_set_pc_def
  by (rule runs_get_gpr runs_set_gpr; simp)+

lemma runs_specials [runs_rules]:
  "Q (apsr r) m r \<Longrightarrow> runs m r cpu_get_apsr Q" "Q' () m (r\<lparr>apsr := y\<rparr>) \<Longrightarrow> runs m r (cpu_set_apsr y) Q'"
  "Q (ipsr r) m r \<Longrightarrow> runs m r cpu_get_ipsr Q" "Q' () m (r\<lparr>ipsr := y AND 0x3F\<rparr>) \<Longrightarrow> runs m r (cpu_set_ipsr y) Q'"
  "Q' () m (r\<lparr>cpu_mode := 0\<rparr>) \<Longrightarrow> runs m r cpu_mode_handler Q'" "Q' () m (r\<lparr>cpu_mode := 1\<rparr>) \<Longrightarrow> runs m r cpu_mode_thread Q'"
  "Q' () m (r\<lparr>control := control r AND NOT 2\<rparr>) \<Longrightarrow> runs m r cpu_stack_use_main Q'"
  "Q' () m (r\<lparr>control := control r OR 2\<rparr>) \<Longrightarrow> runs m r cpu_stack_use_process Q'"
  "Q' () m (r\<lparr>takenBranch := True\<rparr>) \<Longrightarrow> runs m r take_branch Q'"
  "Q' () m (r\<lparr>instructionBuffer := (instructionBuffer r)\<lparr>buf_valid := False\<rparr>,
       instructionQueue := replicate (pipelineStages r - 1) OPCODE_NOP,
       bubbles := pipelineStages r - 1\<rparr>) \<Longrightarrow> runs m r flushPipeline Q'"
  unfolding cpu_get_apsr_def cpu_set_apsr_def cpu_get_ipsr_def cpu_set_ipsr_def cpu_mode_handler_def
    cpu_mode_thread_def cpu_stack_use_main_def cpu_stack_use_process_def take_branch_def flushPipeline_def
  by (intro runs_rules; simp)+

lemma readMem_ok:
  assumes "inv (m0_bus s)" and "serves (unat addr) n"
  shows "\<exists>b' t. m0_readMem bt addr n s
      = Inr (get_bytes (view (m0_bus s)) (unat addr) n, s\<lparr>m0_bus := b', m0_now := t\<rparr>)
    \<and> inv b' \<and> view b' = view (m0_bus s)"
proof -
  let ?p = "\<lparr>command = TLM_READ_COMMAND, address = ucast addr, data = replicate n 0, response_ok = False\<rparr>"
  obtain b' p' d' fx where r: "bt (m0_bus s) ?p 0 = Inr (b', p', d', fx)"
      "data p' = get_bytes (view (m0_bus s)) (unat addr) n" "response_ok p'" "inv b'" "view b' = view (m0_bus s)"
    using read_law [OF assms(1), of ?p 0] assms(2) by auto
  then show ?thesis
    by (intro exI [of _ b'] exI [of _ "m0_now s + d'"]) (simp add: m0_readMem_def)
qed

lemma writeMem_ok:
  assumes "inv (m0_bus s)" and "serves (unat addr) (length buf)"
  shows "\<exists>b' t. m0_writeMem bt addr buf s = Inr ((), s\<lparr>m0_bus := b', m0_now := t\<rparr>)
    \<and> inv b' \<and> view b' = put_bytes (view (m0_bus s)) (unat addr) buf"
proof -
  let ?p = "\<lparr>command = TLM_WRITE_COMMAND, address = ucast addr, data = buf, response_ok = False\<rparr>"
  obtain b' p' d' fx where r: "bt (m0_bus s) ?p 0 = Inr (b', p', d', fx)" "response_ok p'" "inv b'"
      "view b' = put_bytes (view (m0_bus s)) (unat addr) buf"
    using write_law [OF assms(1), of ?p 0] assms(2) by auto
  then show ?thesis
    by (intro exI [of _ b'] exI [of _ "m0_now s + d'"]) (simp add: m0_writeMem_def)
qed

lemma at_state_bus:
  assumes "at_state m r s" and "inv b" and "view b = m'"
  shows "at_state m' r (s\<lparr>m0_bus := b, m0_now := t\<rparr>)"
proof -
  have "s = r\<lparr>m0_bus := m0_bus s, m0_now := m0_now s\<rparr>" using assms(1) by (simp add: at_state_def)
  from arg_cong [where f = "\<lambda>s. s\<lparr>m0_bus := b, m0_now := t\<rparr>", OF this]
  have "s\<lparr>m0_bus := b, m0_now := t\<rparr> = r\<lparr>m0_bus := b, m0_now := t\<rparr>" by simp
  then show ?thesis using assms(2,3) by (simp add: at_state_def)
qed

lemma runs_readMem:
  assumes "serves (unat a) n" and "Q (get_bytes m (unat a) n) m r"
  shows "runs m r (m0_readMem bt a n) Q"
  unfolding runs_def
proof (intro allI impI)
  fix s assume s: "at_state m r s"
  then have "inv (m0_bus s)" "view (m0_bus s) = m" by (simp_all add: at_state_def)
  then obtain b t where "m0_readMem bt a n s = Inr (get_bytes m (unat a) n, s\<lparr>m0_bus := b, m0_now := t\<rparr>)"
      "inv b" "view b = m"
    using readMem_ok [of s a n] assms(1) by auto
  then show "\<exists>x s' m' r'. m0_readMem bt a n s = Inr (x, s') \<and> at_state m' r' s' \<and> Q x m' r'"
    using at_state_bus [OF s] assms(2) by blast
qed

lemma runs_writeMem:
  assumes "serves (unat a) (length buf)" and "Q () (put_bytes m (unat a) buf) r"
  shows "runs m r (m0_writeMem bt a buf) Q"
  unfolding runs_def
proof (intro allI impI)
  fix s assume s: "at_state m r s"
  then have "inv (m0_bus s)" "view (m0_bus s) = m" by (simp_all add: at_state_def)
  then obtain b t where "m0_writeMem bt a buf s = Inr ((), s\<lparr>m0_bus := b, m0_now := t\<rparr>)"
      "inv b" "view b = put_bytes m (unat a) buf"
    using writeMem_ok [of s a buf] assms(1) by auto
  then show "\<exists>x s' m' r'. m0_writeMem bt a buf s = Inr (x, s') \<and> at_state m' r' s' \<and> Q x m' r'"
    using at_state_bus [OF s] assms(2) by blast
qed

lemma get_bytes_4: "get_bytes m a 4 = [m a, m (a + 1), m (a + 2), m (a + 3)]"
  by (simp add: get_bytes_def numeral_eq_Suc)

lemma runs_lift_r: "Q x m r \<Longrightarrow> runs m r (lift_r (Inr x)) Q"
  by (auto simp: runs_def lift_r_def)

lemma runs_read32 [runs_rules]:
  assumes "serves (unat a) 4" and "Q (word32_at m (unat a)) m r"
  shows "runs m r (read32 bt a) Q"
proof -
  obtain w where w: "packBytes (get_bytes m (unat a) 4) 4 = Inr w"
    unfolding get_bytes_4 pack4 by blast
  have "ttohl cortex_m0 (ucast w) = word32_at m (unat a)"
    using pack_ttohl [OF w [unfolded get_bytes_4]] by (simp add: word32_at_def)
  then show ?thesis
    unfolding read32_def using assms
    by (intro runs_bind runs_readMem) (simp_all add: w runs_lift_r runs_return)
qed

lemma runs_write32 [runs_rules]:
  "serves (unat a) 4 \<Longrightarrow> Q () (put_bytes m (unat a) (unpack32 v)) r \<Longrightarrow> runs m r (write32 bt a v) Q"
  unfolding write32_def unpack_htotl by (intro runs_bind runs_lift_r runs_writeMem) simp_all

lemma runs_simLoadWord [runs_rules]:
  "serves (unat a) 4 \<Longrightarrow> Q (word32_at m (unat a)) m r \<Longrightarrow> runs m r (simLoadWord bt a) Q"
  unfolding simLoadWord_def
  by (intro runs_rules runs_readMem) (simp_all add: get_bytes_4 word32_at_def)

lemma runs_simStoreWord [runs_rules]:
  "a AND 3 = 0 \<Longrightarrow> serves (unat a) 4 \<Longrightarrow> Q () (put_bytes m (unat a) (unpack32 v)) r \<Longrightarrow>
   runs m r (simStoreWord bt a v) Q"
  unfolding simStoreWord_def by (intro runs_rules runs_writeMem) simp_all

lemma runs_getNextExecutionPc [runs_rules]:
  "bubbles r \<le> 1 \<Longrightarrow>
   Q ((gpr r ! 15 AND NOT 1) - 2 * (of_nat (length (instructionQueue r)) - of_nat (bubbles r))) m r \<Longrightarrow>
   runs m r getNextExecutionPc Q"
  unfolding getNextExecutionPc_def by (intro runs_rules) simp_all

definition frame_serves :: "u32 \<Rightarrow> bool" where
  "frame_serves fp \<longleftrightarrow> list_all (\<lambda>i. serves (unat (fp + i)) 4) [0, 4, 8, 12, 16, 20, 24, 28]"

lemma runs_exceptionEnter:
  assumes "length (gpr r) = 16" and "bubbles r \<le> 1" and "frame_serves (frame_at (gpr r ! 13))"
    and "serves (unat (ROM_START + 4 * k)) 4"
    and "Q () (store_words m (frame_at (gpr r ! 13)) (frame_words r))
      (r\<lparr>regsAtExceptEnter := (gpr r)[15 := resume_pc r] @ [apsr r],
         cpu_mode := 0, ipsr := k AND 0x3F, control := control r AND NOT 2, activeException := sint k,
         gpr := (gpr r)[13 := frame_at (gpr r ! 13), 14 := exc_return r,
           15 := word32_at (store_words m (frame_at (gpr r ! 13)) (frame_words r)) (unat (ROM_START + 4 * k))],
         instructionBuffer := (instructionBuffer r)\<lparr>buf_valid := False\<rparr>,
         instructionQueue := replicate (pipelineStages r - 1) OPCODE_NOP, bubbles := pipelineStages r - 1\<rparr>)"
  shows "runs m r (exceptionEnter bt k) Q"
  unfolding exceptionEnter_def Let_def cpu_mode_is_handler_def cpu_stack_is_main_def
  using assms unfolding frame_serves_def
  by (intro runs_rules)
    (simp_all add: frame_at_def frame_words_def resume_pc_def stacked_psr_def exc_return_def
      cpu_mode_is_handler_def cpu_stack_is_main_def ac_simps cong: if_cong split del: if_split)

lemma runs_return_mode:
  fixes exc :: u32
  assumes "exc \<in> {0xFFFFFFF1, 0xFFFFFFF9, 0xFFFFFFFD}"
    and "Q () m (r\<lparr>cpu_mode := if exc = 0xFFFFFFF1 then 0 else 1,
         control := if exc = 0xFFFFFFFD then control r OR 2 else control r AND NOT 2\<rparr>)"
  shows "runs m r
     (if exc = 0xFFFFFFF1 then do_all [cpu_mode_handler, cpu_stack_use_main]
      else if exc = 0xFFFFFFF9 then do_all [cpu_mode_thread, cpu_stack_use_main]
      else if exc = 0xFFFFFFFD then do_all [cpu_mode_thread, cpu_stack_use_process]
      else fail_s Report_fatal) Q"
proof -
  have h: "runs m r (do_all [cpu_mode_handler, cpu_stack_use_main]) Q" if "exc = 0xFFFFFFF1"
    by (intro runs_rules) (use assms(2) that in simp)
  have t: "runs m r (do_all [cpu_mode_thread, cpu_stack_use_main]) Q" if "exc = 0xFFFFFFF9"
    by (intro runs_rules) (use assms(2) that in simp)
  have p: "runs m r (do_all [cpu_mode_thread, cpu_stack_use_process]) Q" if "exc = 0xFFFFFFFD"
    by (intro runs_rules) (use assms(2) that in simp)
  show ?thesis
    using assms(1) by (auto simp del: do_all.simps intro: h t p)
qed

lemma runs_exceptionReturn:
  assumes "length (gpr r) = 16" and "frame_serves (gpr r ! 13)" and "exc \<in> {0xFFFFFFF1, 0xFFFFFFF9, 0xFFFFFFFD}"
    and "let w = frame_word m (gpr r ! 13) in
      Q () m (r\<lparr>returningException := sint (ipsr r), cpu_mode := if exc = 0xFFFFFFF1 then 0 else 1,
         control := if exc = 0xFFFFFFFD then control r OR 2 else control r AND NOT 2,
         gpr := (gpr r)[0 := w 0, 1 := w 1, 2 := w 2, 3 := w 3, 12 := w 4, 14 := w 5, 15 := w 6,
           13 := if w 7 AND push_bit 9 1 \<noteq> 0 then (gpr r ! 13 + 0x20) OR 4 else gpr r ! 13 + 0x20],
         apsr := w 7 AND 0xF0000000, ipsr := 0, takenBranch := True, activeException := 0\<rparr>)"
  shows "runs m r (exceptionReturn bt exc) Q"
  unfolding exceptionReturn_def
  by (insert assms(1,2,4), unfold frame_serves_def, intro runs_do_all_then runs_do_all_Cons, rule runs_modify, simp,
      rule runs_do_all_Cons, rule runs_return_mode, rule assms(3), intro runs_rules)
    (simp_all add: Let_def frame_word_def ac_simps cong: if_cong split del: if_split)

lemma runs_result:
  assumes "runs (view (m0_bus s)) s op Q" and "inv (m0_bus s)"
  obtains x s' b t where "op s = Inr (x, s')" "inv (m0_bus s')"
    "Q x (view (m0_bus s')) (s'\<lparr>m0_bus := b, m0_now := t\<rparr>)"
proof -
  have "at_state (view (m0_bus s)) s s" using assms(2) by (simp add: at_state_def)
  then obtain x s' m' r' where r: "op s = Inr (x, s')" "at_state m' r' s'" "Q x m' r'"
    using assms(1) unfolding runs_def by blast
  have "s' = r'\<lparr>m0_bus := m0_bus s', m0_now := m0_now s'\<rparr>" using r(2) by (simp add: at_state_def)
  from arg_cong [where f = "\<lambda>s. s\<lparr>m0_bus := m0_bus r', m0_now := m0_now r'\<rparr>", OF this]
  have "s'\<lparr>m0_bus := m0_bus r', m0_now := m0_now r'\<rparr> = r'" by simp
  then show thesis
    using that [of x s' "m0_now r'" "m0_bus r'"] r by (simp add: at_state_def)
qed

lemma enter_ok:
  assumes "inv (m0_bus s)" and "length (gpr s) = 16" and "bubbles s \<le> 1"
    and "frame_serves (frame_at (gpr s ! 13))" and "serves (unat (ROM_START + 4 * k)) 4"
  defines "m' \<equiv> store_words (view (m0_bus s)) (frame_at (gpr s ! 13)) (frame_words s)"
  shows "\<exists>s1. exceptionEnter bt k s = Inr ((), s1) \<and> inv (m0_bus s1) \<and> view (m0_bus s1) = m' \<and> entered k s m' s1"
proof -
  have "(control s AND NOT 2) AND 2 = 0" by (simp add: and.assoc)
  then have "runs (view (m0_bus s)) s (exceptionEnter bt k) (\<lambda>_ m r. m = m' \<and> entered k s m r)"
    by (intro runs_exceptionEnter assms(2-5)) (simp add: m'_def entered_def)
  then show ?thesis
    by (rule runs_result [OF _ assms(1)]) (auto simp: entered_def)
qed

lemma return_ok:
  assumes "inv (m0_bus s)" and "length (gpr s) = 16" and "frame_serves (gpr s ! 13)"
    and "exc \<in> {0xFFFFFFF1, 0xFFFFFFF9, 0xFFFFFFFD}" and fp: "gpr s ! 13 = frame_at sp"
    and ws: "\<And>i. i < 8 \<Longrightarrow> frame_word (view (m0_bus s)) (frame_at sp) i = ws ! i"
    and psr: "ws ! 7 = stacked_psr sp psr"
  shows "\<exists>s3. exceptionReturn bt exc s = Inr ((), s3) \<and> inv (m0_bus s3) \<and> view (m0_bus s3) = view (m0_bus s)
    \<and> returned (gpr s) ws exc (control s) sp s3"
proof -
  have "runs (view (m0_bus s)) s (exceptionReturn bt exc)
      (\<lambda>_ m r. m = view (m0_bus s) \<and> returned (gpr s) ws exc (control s) sp r)"
    by (intro runs_exceptionReturn assms(2-4)) 
      (simp add: Let_def returned_def fp ws psr frame_restores_sp [simplified] cong: if_cong split del: if_split)
  then show ?thesis
    by (rule runs_result [OF _ assms(1)]) (auto simp: returned_def split del: if_split)
qed

end

end
