(* ===== verification/Cm0_Exception.thy ===== *)
theory Cm0_Exception
  imports Cm0_Symbolic
begin

unbundle bit_operations_syntax

text \<open>
  Exceptions of the Cortex-M0 core on the memory system of its microcontroller: the
  locale \<open>m0_memory\<close> is interpreted there, and entry followed by return restores the
  interrupted program.
\<close>

interpretation m0_cm0: m0_memory
  "cm0_board_bus pt period ws" cm0_board_view cm0_board_inv
  "bus_serves (word_size cortex_m0) cm0_routing m0_is_memory" for pt period ws
  by (intro m0_memory.intro cm0_bus.bus.byte_device_axioms)

lemma m0_word_serves:
  assumes "i < 10" "m0_is_memory i" "unat (fst (cm0_routing ! i)) mod 4 = 0"
    and "unat (fst (cm0_routing ! i)) \<le> a" "a + 4 \<le> unat (fst (cm0_routing ! i)) + port_size cm0_routing i" "a mod 4 = 0"
  shows "bus_serves (word_size cortex_m0) cm0_routing m0_is_memory a 4"
proof -
  have "(a - unat (fst (cm0_routing ! i))) mod 4 = 0"
    using assms(3,4,6) by (metis mod_0_imp_dvd dvd_imp_mod_0 dvd_diff_nat)
  then show ?thesis
    using assms cm0_ports(10) unfolding bus_serves_def
    by (intro exI [of _ i]) (auto simp: aligned_access_def cortex_m0_def)
qed

lemma m0_sram_serves:
  "0x20004000 \<le> a \<Longrightarrow> a + 4 \<le> 0x20006000 \<Longrightarrow> a mod 4 = 0 \<Longrightarrow>
   bus_serves (word_size cortex_m0) cm0_routing m0_is_memory a 4"
  by (rule m0_word_serves [of 2]) (simp_all add: cm0_ports)

lemma m0_rom_serves:
  "0x08000000 \<le> a \<Longrightarrow> a + 4 \<le> 0x08010000 \<Longrightarrow> a mod 4 = 0 \<Longrightarrow>
   bus_serves (word_size cortex_m0) cm0_routing m0_is_memory a 4"
  using cm0_ports by (intro m0_word_serves [of 0]) simp_all

text \<open>A word-aligned stack pointer in the SRAM with room for a frame.\<close>

definition sram_frame :: "u32 \<Rightarrow> bool" where
  "sram_frame sp \<longleftrightarrow> sp AND 3 = 0 \<and> 0x20004024 \<le> sp \<and> sp \<le> 0x20006000"

lemma unat_frame_at:
  assumes "sram_frame sp"
  shows "unat (frame_at sp) = unat sp - 32 - unat sp mod 8" and "unat sp mod 8 = 0 \<or> unat sp mod 8 = 4"
    and "0x20004024 \<le> unat sp" and "unat sp \<le> 0x20006000"
proof -
  have b: "0x20004024 \<le> unat sp" "unat sp \<le> 0x20006000"
    using assms by (simp_all add: sram_frame_def word_le_nat_alt)
  have "sp AND 3 = 0" using assms by (simp add: sram_frame_def)
  moreover have "sp AND mask 2 = sp AND 3" by (simp add: mask_eq_exp_minus_1)
  ultimately have "unat sp mod 4 = 0" using unat_and_mask [of sp 2] by simp
  then show m: "unat sp mod 8 = 0 \<or> unat sp mod 8 = 4" by presburger
  have "sp AND 4 = sp AND 7"
    using \<open>sp AND 3 = 0\<close> bit.conj_disj_distrib [of sp 3 4] by simp
  moreover have "sp AND mask 3 = sp AND 7" by (simp add: mask_eq_exp_minus_1)
  ultimately have u: "unat (sp AND 4) = unat sp mod 8" using unat_and_mask [of sp 3] by simp
  have "frame_at sp + 0x20 = sp - (sp AND 4)" by (rule frame_at_eq)
  then have f: "frame_at sp = sp - (sp AND 4) - 0x20" by (simp add: algebra_simps)
  have "unat (sp - (sp AND 4)) = unat sp - unat sp mod 8"
    using u by (simp add: unat_sub word_le_nat_alt)
  moreover from this have "unat (sp - (sp AND 4) - 0x20) = unat (sp - (sp AND 4)) - 0x20"
    using b m unat_sub [of "0x20" "sp - (sp AND 4)"] by (auto simp: word_le_nat_alt)
  ultimately show "unat (frame_at sp) = unat sp - 32 - unat sp mod 8"
    using b m unfolding f by auto
  show "0x20004024 \<le> unat sp" "unat sp \<le> 0x20006000" by (rule b)+
qed

lemma frame_at_aligned:
  assumes "sram_frame sp"
  shows "frame_at sp AND 7 = 0"
proof -
  have "unat sp - 32 - unat sp mod 8 = unat sp - unat sp mod 8 - 32" by (rule diff_commute)
  also have "\<dots> = 8 * (unat sp div 8 - 4)" by (simp add: minus_mod_eq_mult_div)
  finally have "unat (frame_at sp) mod 8 = 0" using unat_frame_at(1) [OF assms] by (simp only:) simp
  then have "unat (frame_at sp AND mask 3) = 0" by (simp add: unat_and_mask)
  then have "frame_at sp AND mask 3 = 0" by (simp only: unat_eq_0)
  then show ?thesis by (simp add: mask_eq_exp_minus_1)
qed

lemma sram_frame_serves:
  assumes "sram_frame sp"
  shows "m0_memory.frame_serves (bus_serves (word_size cortex_m0) cm0_routing m0_is_memory) (frame_at sp)"
proof -
  note u = unat_frame_at [OF assms]
  have "bus_serves (word_size cortex_m0) cm0_routing m0_is_memory (unat (frame_at sp + of_nat i)) 4"
    if "i \<in> {0, 4, 8, 12, 16, 20, 24, 28}" for i
  proof -
    have i: "i \<le> 28" "i mod 4 = 0" using that by auto
    have a: "unat (frame_at sp + of_nat i) = unat (frame_at sp) + i"
      using u i by (intro unat_add_small) auto
    have "unat (frame_at sp) mod 4 = 0" using u by (auto; presburger)
    then have "(unat (frame_at sp) + i) mod 4 = 0" using i(2) by (simp add: mod_eq_0_iff_dvd)
    then show ?thesis
      unfolding a using u i(1) by (intro m0_sram_serves) auto
  qed
  note s = this
  show ?thesis
    unfolding m0_cm0.frame_serves_def
    using s [of 0] s [of 4] s [of 8] s [of 12] s [of 16] s [of 20] s [of 24] s [of 28] by simp
qed

lemma m0_vector_serves:
  assumes "k < 64"
  shows "bus_serves (word_size cortex_m0) cm0_routing m0_is_memory (unat (ROM_START + 4 * k)) 4"
    and "unat (ROM_START + 4 * k) = 0x08000000 + 4 * unat k"
proof -
  have k: "unat k < 64" using assms by (simp add: word_less_nat_alt)
  have "ROM_START + 4 * k = of_nat (0x08000000 + 4 * unat k)" by (simp add: ROM_START_def)
  then show u: "unat (ROM_START + 4 * k) = 0x08000000 + 4 * unat k"
    using k by (simp only:) (rule unat_of_nat_lt, simp)
  show "bus_serves (word_size cortex_m0) cm0_routing m0_is_memory (unat (ROM_START + 4 * k)) 4"
    unfolding u using k by (intro m0_rom_serves) (auto simp: mod_eq_0_iff_dvd)
qed

lemma frame_words_7 [simp]: "frame_words r ! 7 = stacked_psr (gpr r ! 13) (apsr r)" "length (frame_words r) = 8"
  by (simp_all add: frame_words_def)


text \<open>SysTick interrupts a core with a stack at the end of the SRAM.\<close>

definition m0_at_stack_top :: "(bus \<times> unit m0_slave list) m0_cpu" where
  "m0_at_stack_top =
     (case CortexM0Cpu_new ''cm0+'' (cm0_memory_init (\<lambda>_. ()) (\<lambda>_. 0)) of
        Inr s \<Rightarrow> s\<lparr>gpr := (replicate 16 7)[13 := 0x20005FFC, 15 := 0x08000101], apsr := 0x60000000, cpu_mode := 1\<rparr>)"


end
