(* ===== verification/Cm0_Stack.thy ===== *)
theory Cm0_Stack
  imports Cm0_Exception
begin

unbundle bit_operations_syntax

text \<open>
  PUSH and POP of the Cortex-M0 core, executed symbolically over a byte device: a function
  that pushes registers and the link register and pops them into the registers and the
  program counter returns to its caller with the registers restored.
\<close>

section \<open>Words below an address\<close>

fun down_words :: "(nat \<Rightarrow> u8) \<Rightarrow> u32 \<Rightarrow> u32 list \<Rightarrow> (nat \<Rightarrow> u8)" where
  "down_words m a [] = m"
| "down_words m a (w # ws) = down_words (put_bytes m (unat (a - 4)) (unpack32 w)) (a - 4) ws"

lemma unat_sub_small: "n \<le> unat a \<Longrightarrow> n < 2 ^ 32 \<Longrightarrow> unat (a - of_nat n :: u32) = unat a - n"
  by (subst unat_sub) (simp_all add: word_le_nat_alt)

lemma unat_minus_4: "4 * Suc n \<le> unat (a :: u32) \<Longrightarrow> unat (a - 4) = unat a - 4"
  using unat_sub_small [of 4 a] by simp

lemma down_words_outside:
  assumes "4 * length ws \<le> unat a" and "x < unat a - 4 * length ws \<or> unat a \<le> x"
  shows "down_words m a ws x = m x"
  using assms
proof (induction ws arbitrary: m a)
  case (Cons w ws)
  have a: "unat (a - 4) = unat a - 4" using Cons.prems(1) unat_minus_4 [of "length ws" a] by simp
  have "down_words (put_bytes m (unat (a - 4)) (unpack32 w)) (a - 4) ws x = put_bytes m (unat (a - 4)) (unpack32 w) x"
    by (rule Cons.IH) (use Cons.prems a in auto)
  then show ?case using Cons.prems by (auto simp: a put_bytes_def)
qed simp

lemma down_words_at:
  assumes "4 * length ws \<le> unat a" and "j < length ws"
  shows "word32_at (down_words m a ws) (unat a - 4 * Suc j) = ws ! j"
  using assms
proof (induction ws arbitrary: m a j)
  case (Cons w ws)
  have a: "unat (a - 4) = unat a - 4" using Cons.prems(1) unat_minus_4 [of "length ws" a] by simp
  show ?case
  proof (cases j)
    case 0
    have "word32_at (down_words (put_bytes m (unat (a - 4)) (unpack32 w)) (a - 4) ws) (unat a - 4) = w"
      using Cons.prems(1)
      by (subst word32_at_cong [of _ _ "put_bytes m (unat (a - 4)) (unpack32 w)"])
        (auto intro!: down_words_outside simp: a)
    then show ?thesis by (simp add: 0)
  next
    case (Suc i)
    then show ?thesis using Cons.IH [of "a - 4" i] Cons.prems a by simp
  qed
qed simp

section \<open>The loops of PUSH and POP\<close>

definition listed :: "u32 \<Rightarrow> nat list \<Rightarrow> nat list" where
  "listed regs is = filter (reg_bit regs) is"

definition set_regs :: "u32 list \<Rightarrow> nat list \<Rightarrow> (nat \<Rightarrow> u32) \<Rightarrow> u32 list" where
  "set_regs g ls f = fold (\<lambda>i g. g[i := f i]) ls g"

lemma length_set_regs [simp]: "length (set_regs g ls f) = length g"
  unfolding set_regs_def by (induction ls arbitrary: g) simp_all

lemma set_regs_nth: "i < length g \<Longrightarrow> set_regs g ls f ! i = (if i \<in> set ls then f i else g ! i)"
  unfolding set_regs_def by (induction ls arbitrary: g) (auto simp: nth_list_update)

context m0_memory
begin

lemma runs_push_regs:
  assumes "a AND 3 = 0" and "\<forall>i \<in> set is. i < 16" and "4 * length (listed regs is) \<le> unat a"
    and "\<And>x. unat a - 4 * length (listed regs is) \<le> x \<Longrightarrow> x < unat a \<Longrightarrow> (unat a - x) mod 4 = 0 \<Longrightarrow> serves x 4"
    and "Q (a - of_nat (4 * length (listed regs is))) (down_words m a (map ((!) (gpr r)) (listed regs is))) r"
  shows "runs m r (push_regs bt is regs a) Q"
  using assms
proof (induction "is" arbitrary: m a)
  case Nil
  then show ?case by (simp add: listed_def runs_return)
next
  case (Cons i "is")
  show ?case
  proof (cases "reg_bit regs i")
    case False
    then show ?thesis using Cons by (simp add: listed_def)
  next
    case True
    then have l: "listed regs (i # is) = i # listed regs is" by (simp add: listed_def)
    have a: "unat (a - 4) = unat a - 4"
      using Cons.prems(3) unat_minus_4 [of "length (listed regs is)" a] by (simp add: l)
    have al: "(a - 4) AND 3 = 0"
    proof -
      have "unat a mod 4 = 0" using Cons.prems(1) unat_and_mask [of a 2] by (simp add: mask_eq_exp_minus_1)
      then have "unat (a - 4) mod 4 = 0" unfolding a by (simp add: mod_eq_0_iff_dvd)
      then have "unat ((a - 4) AND mask 2) = 0" by (simp add: unat_and_mask)
      then show ?thesis unfolding unat_eq_0 by (simp add: mask_eq_exp_minus_1)
    qed
    have s: "serves (unat (a - 4)) 4"
      unfolding a using Cons.prems(3) by (intro Cons.prems(4)) (auto simp: l)
    have "runs (put_bytes m (unat (a - 4)) (unpack32 (gpr r ! i))) r (push_regs bt is regs (a - 4)) Q"
    proof (rule Cons.IH [OF al])
      show "serves x 4" if "unat (a - 4) - 4 * length (listed regs is) \<le> x" "x < unat (a - 4)"
        "(unat (a - 4) - x) mod 4 = 0" for x
      proof (rule Cons.prems(4))
        have "unat a - x = (unat (a - 4) - x) + 4" using that(2) Cons.prems(3) a by (simp add: l)
        then show "(unat a - x) mod 4 = 0" using that(3) by simp
      qed (use that Cons.prems(3) a in \<open>auto simp: l\<close>)
      show "Q (a - 4 - of_nat (4 * length (listed regs is)))
          (down_words (put_bytes m (unat (a - 4)) (unpack32 (gpr r ! i))) (a - 4) (map ((!) (gpr r)) (listed regs is))) r"
        using Cons.prems(5) by (simp add: l algebra_simps)
    qed (use Cons.prems(2,3) a in \<open>auto simp: l\<close>)
    moreover have "i < 16" using Cons.prems(2) by simp
    ultimately show ?thesis
      using True al s by (auto intro!: runs_rules)
  qed
qed

lemma runs_pop_regs:
  assumes "\<forall>i \<in> set is. i < 15" and "unat a + 4 * length (listed regs is) \<le> 2 ^ 32" and "distinct is"
    and "\<And>x. unat a \<le> x \<Longrightarrow> x < unat a + 4 * length (listed regs is) \<Longrightarrow> (x - unat a) mod 4 = 0 \<Longrightarrow> serves x 4"
    and f: "\<And>j. j < length (listed regs is) \<Longrightarrow> word32_at m (unat a + 4 * j) = f (listed regs is ! j)"
    and "runs m (r\<lparr>gpr := set_regs (gpr r) (listed regs is) f\<rparr>)
      (pop_regs bt js regs (a + of_nat (4 * length (listed regs is))) exc c) Q"
  shows "runs m r (pop_regs bt (is @ js) regs a exc c) Q"
  using assms
proof (induction "is" arbitrary: r a)
  case Nil
  then show ?case by (simp add: listed_def set_regs_def)
next
  case (Cons i "is")
  show ?case
  proof (cases "reg_bit regs i")
    case False
    then show ?thesis using Cons by (simp add: listed_def)
  next
    case True
    then have l: "listed regs (i # is) = i # listed regs is" by (simp add: listed_def)
    have i: "i < 16" "i \<noteq> 15" using Cons.prems(1) by auto
    have s: "serves (unat a) 4" by (rule Cons.prems(4)) (simp_all add: l)
    have v: "word32_at m (unat a) = f i" using Cons.prems(5) [of 0] by (simp add: l)
    have rest: "runs m (r\<lparr>gpr := (gpr r)[i := f i]\<rparr>) (pop_regs bt (is @ js) regs (a + 4) exc c) Q"
    proof (cases "listed regs is = []")
      case True
      then show ?thesis
        using Cons.IH [of "a + 4" "r\<lparr>gpr := (gpr r)[i := f i]\<rparr>"] Cons.prems(1,3,6)
          unat_lt_2p [of "a + 4"]
        by (simp add: l set_regs_def)
    next
      case False
      then have a: "unat (a + 4) = unat a + 4"
        using Cons.prems(2) unat_add_small [of a 4] by (cases "listed regs is") (auto simp: l)
      show ?thesis
      proof (rule Cons.IH)
        show "serves x 4" if "unat (a + 4) \<le> x" "x < unat (a + 4) + 4 * length (listed regs is)"
          "(x - unat (a + 4)) mod 4 = 0" for x
        proof (rule Cons.prems(4))
          have "x - unat a = (x - unat (a + 4)) + 4" using that(1) a by simp
          then show "(x - unat a) mod 4 = 0" using that(3) by simp
        qed (use that a in \<open>auto simp: l\<close>)
        show "word32_at m (unat (a + 4) + 4 * j) = f (listed regs is ! j)" if "j < length (listed regs is)" for j
          using Cons.prems(5) [of "Suc j"] that a by (simp add: l add.assoc)
        show "runs m (r\<lparr>gpr := (gpr r)[i := f i]\<rparr>\<lparr>gpr := set_regs (gpr (r\<lparr>gpr := (gpr r)[i := f i]\<rparr>)) (listed regs is) f\<rparr>)
            (pop_regs bt js regs (a + 4 + of_nat (4 * length (listed regs is))) exc c) Q"
          using Cons.prems(6) by (simp add: l set_regs_def algebra_simps)
      qed (use Cons.prems(1-3) a in \<open>auto simp: l\<close>)
    qed
    show ?thesis
      using True i s v rest by (auto intro!: runs_rules)
  qed
qed

lemma runs_get_reg_list [runs_rules]: "Q (reg_list (decoded r)) m r \<Longrightarrow> runs m r get_reg_list Q"
  unfolding get_reg_list_def by (rule runs_gets) simp_all

lemma runs_pop_pc:
  assumes "reg_bit regs 15" and "serves (unat a) 4" and "word32_at m (unat a) AND 0xf0000000 \<noteq> 0xf0000000"
    and "Q (a + 4, 0, TIMING_POP_AND_RETURN) m
      (r\<lparr>gpr := (gpr r)[15 := word32_at m (unat a)], takenBranch := True\<rparr>)"
  shows "runs m r (pop_regs bt [15] regs a 0 c) Q"
  using assms by (auto intro!: runs_rules)

end

section \<open>A function call\<close>

text \<open>The registers PUSH \<open>{list, LR}\<close> stores, highest first, and POP \<open>{list, PC}\<close> loads.\<close>

definition low_regs :: "u32 \<Rightarrow> nat list" where
  "low_regs l = listed l [0..<8]"

lemma reg_bit_iff: "reg_bit l i = bit l i"
  by (simp add: reg_bit_def bit_iff_and_push_bit_not_eq_0)

lemma reg_bit_or: "reg_bit (l OR push_bit k 1) i \<longleftrightarrow> reg_bit l i \<or> i = k \<and> k < 32"
  by (auto simp: reg_bit_iff bit_or_iff bit_exp_iff possible_bit_def)

lemma filter_low: "(\<And>i. i < 8 \<Longrightarrow> P i = R i) \<Longrightarrow> filter P [0..<8] = filter R [0..<(8 :: nat)]"
  by (rule filter_cong) auto

lemma listed_push: "listed (l OR push_bit 14 1) (14 # rev [0..<8]) = 14 # rev (low_regs l)"
proof -
  have "filter (reg_bit (l OR push_bit 14 1)) [0..<8] = filter (reg_bit l) [0..<8]"
    by (rule filter_low) (unfold reg_bit_or, simp)
  moreover have "reg_bit (l OR push_bit 14 1) 14" unfolding reg_bit_or by simp
  ultimately show ?thesis by (simp only: listed_def low_regs_def filter.simps rev_filter [symmetric] if_True)
qed

lemma listed_pop: "listed (l OR push_bit 15 1) [0..<8] = low_regs l" "reg_bit (l OR push_bit 15 1) 15"
proof -
  show "listed (l OR push_bit 15 1) [0..<8] = low_regs l"
    unfolding listed_def low_regs_def
    by (rule filter_low) (unfold reg_bit_or, simp)
  show "reg_bit (l OR push_bit 15 1) 15" unfolding reg_bit_or by simp
qed

lemma low_regs_less: "i \<in> set (low_regs l) \<longleftrightarrow> i < 8 \<and> reg_bit l i"
  by (auto simp: low_regs_def listed_def)

lemma length_low_regs: "length (low_regs l) \<le> 8"
  using length_filter_le [of "reg_bit l" "[0..<8]"] by (simp add: low_regs_def listed_def)

context m0_memory
begin

text \<open>The words of the stack frame of a call: the listed registers, then the link register.\<close>

definition call_room :: "u32 \<Rightarrow> bool" where
  "call_room sp \<longleftrightarrow> sp AND 3 = 0 \<and> 36 \<le> unat sp
     \<and> (\<forall>x. unat sp - 36 \<le> x \<longrightarrow> x < unat sp \<longrightarrow> x mod 4 = 0 \<longrightarrow> serves x 4)"

lemma call_room_serves:
  "call_room sp \<Longrightarrow> unat sp - 36 \<le> x \<Longrightarrow> x < unat sp \<Longrightarrow> (unat sp - x) mod 4 = 0 \<Longrightarrow> serves x 4"
proof -
  assume c: "call_room sp" "unat sp - 36 \<le> x" "x < unat sp" "(unat sp - x) mod 4 = 0"
  have "unat sp mod 4 = 0" using c(1) unat_and_mask [of sp 2] by (simp add: call_room_def mask_eq_exp_minus_1)
  then have "x mod 4 = 0" using c(3,4) by (simp add: mod_eq_0_iff_dvd) (metis dvd_diffD1 less_imp_le)
  then show ?thesis using c by (simp add: call_room_def)
qed

lemma push_ok:
  assumes "inv (m0_bus s)" and "length (gpr s) = 16" and "call_room (gpr s ! 13)"
    and "reg_list (decoded s) = l OR push_bit 14 1"
  defines "n \<equiv> length (low_regs l)"
  shows "\<exists>s1. push bt s = Inr (TIMING_DEFAULT, s1) \<and> inv (m0_bus s1)
    \<and> view (m0_bus s1) = down_words (view (m0_bus s)) (gpr s ! 13) (gpr s ! 14 # map ((!) (gpr s)) (rev (low_regs l)))
    \<and> gpr s1 = (gpr s)[13 := gpr s ! 13 - of_nat (4 * Suc n)]"
proof -
  have n: "n \<le> 8" unfolding n_def by (rule length_low_regs)
  have "runs (view (m0_bus s)) s (push bt) (\<lambda>x m r. x = TIMING_DEFAULT
      \<and> m = down_words (view (m0_bus s)) (gpr s ! 13) (gpr s ! 14 # map ((!) (gpr s)) (rev (low_regs l)))
      \<and> gpr r = (gpr s)[13 := gpr s ! 13 - of_nat (4 * Suc n)])"
    unfolding push_def
    apply (intro runs_bind runs_get_reg_list runs_accessors, unfold assms(4))
    apply (rule runs_push_regs, unfold listed_push)
    subgoal using assms(3) by (simp add: call_room_def)
    subgoal by auto
    subgoal using assms(3) n by (simp add: call_room_def n_def)
    subgoal by (rule call_room_serves [OF assms(3)]) (use n in \<open>simp_all add: n_def\<close>)
    subgoal by (intro runs_then runs_accessors runs_return) (simp add: n_def)
    done
  then show ?thesis
    by (rule runs_result [OF _ assms(1)]) auto
qed

lemma words_from_top:
  assumes "a = t - 4 * k" "4 * k \<le> t" "a \<le> x" "x \<le> t" "(x - a) mod 4 = 0"
  shows "(t - x) mod 4 = (0 :: nat)"
proof -
  have "t - x = 4 * k - (x - a)" using assms(1-4) by linarith
  then show ?thesis using assms(5) by (simp add: mod_eq_0_iff_dvd dvd_diff_nat)
qed

lemma pop_ok:
  assumes "inv (m0_bus s)" and "length (gpr s) = 16" and room: "call_room sp"
    and "reg_list (decoded s) = l OR push_bit 15 1"
  defines "n \<equiv> length (low_regs l)" and "m \<equiv> view (m0_bus s)"
  assumes "gpr s ! 13 = sp - of_nat (4 * Suc n)"
    and f: "\<And>j. j < n \<Longrightarrow> word32_at m (unat sp - 4 * Suc n + 4 * j) = f (low_regs l ! j)"
    and pc: "word32_at m (unat sp - 4) AND 0xf0000000 \<noteq> 0xf0000000"
  shows "\<exists>s1. pop bt s = Inr (TIMING_POP_AND_RETURN, s1) \<and> takenBranch s1 \<and> inv (m0_bus s1)
    \<and> gpr s1 = (set_regs (gpr s) (low_regs l) f)[15 := word32_at m (unat sp - 4), 13 := sp]"
proof -
  have n: "n \<le> 8" unfolding n_def by (rule length_low_regs)
  have sp: "36 \<le> unat sp" using room by (simp add: call_room_def)
  then have a: "unat (gpr s ! 13) = unat sp - 4 * Suc n" "unat (gpr s ! 13 + of_nat (4 * n)) = unat sp - 4"
    "gpr s ! 13 + of_nat (4 * n) + 4 = sp"
    unfolding assms(7) using n unat_sub_small [of "4 * Suc n" sp] unat_sub_small [of 4 sp]
    by (simp_all add: algebra_simps)
  have "runs m s (pop bt) (\<lambda>x m' r. x = TIMING_POP_AND_RETURN \<and> takenBranch r
      \<and> gpr r = (set_regs (gpr s) (low_regs l) f)[15 := word32_at m (unat sp - 4), 13 := sp])"
    unfolding pop_def
    apply (intro runs_bind runs_get_reg_list runs_accessors, unfold assms(4))
    apply (rule runs_pop_regs [where f = f], unfold listed_pop n_def [symmetric] a)
    subgoal by auto
    subgoal using n sp unat_lt_2p [of sp] by simp
    subgoal by simp
    subgoal for x
      using n sp words_from_top [OF refl, of "Suc n" "unat sp" x]
      by (intro call_room_serves [OF room]) simp_all
    subgoal using f by (simp add: n_def)
    subgoal
      apply (rule runs_pop_pc, rule listed_pop, unfold a)
      subgoal using sp by (intro call_room_serves [OF room]) simp_all
      subgoal by (rule pc)
      subgoal by (auto intro!: runs_rules)
      done
    done
  then show ?thesis
    unfolding m_def by (rule runs_result [OF _ assms(1)]) auto
qed

end

text \<open>C20: a function of the program that starts with \<open>PUSH {list, LR}\<close> and ends with
  \<open>POP {list, PC}\<close> returns to its caller: with a word-aligned stack pointer in the SRAM,
  for every list of low registers and whatever the body does to the registers, if it
  leaves the stack pointer and the pushed words as it found them then the PC is the link
  register at the call, and SP and the listed registers have their values at the call.
  (A link register whose top four bits are set is an exception return instead.)\<close>

theorem push_pop_returns:
  assumes "cm0_board_inv (m0_bus s)" and "length (gpr s) = 16" and "sram_frame (gpr s ! 13)"
    and "reg_list (decoded s) = l OR push_bit 14 1" and "gpr s ! 14 AND 0xf0000000 \<noteq> 0xf0000000"
  shows "\<exists>s1. push (cm0_board_bus pt period ws) s = Inr (TIMING_DEFAULT, s1)
    \<and> cm0_board_inv (m0_bus s1) \<and> gpr s1 = (gpr s)[13 := gpr s1 ! 13] \<and> gpr s1 ! 13 < gpr s ! 13
    \<and> (\<forall>s2. cm0_board_inv (m0_bus s2) \<and> length (gpr s2) = 16 \<and> gpr s2 ! 13 = gpr s1 ! 13
        \<and> reg_list (decoded s2) = l OR push_bit 15 1
        \<and> (\<forall>x \<in> {unat (gpr s1 ! 13)..<unat (gpr s ! 13)}.
              cm0_board_view (m0_bus s2) x = cm0_board_view (m0_bus s1) x)
        \<longrightarrow> (\<exists>s3. pop (cm0_board_bus pt period ws) s2 = Inr (TIMING_POP_AND_RETURN, s3)
              \<and> takenBranch s3 \<and> gpr s3 ! 15 = gpr s ! 14 \<and> gpr s3 ! 13 = gpr s ! 13
              \<and> (\<forall>i < 8. gpr s3 ! i = (if reg_bit l i then gpr s ! i else gpr s2 ! i))))"
proof -
  let ?bus = "cm0_board_bus pt period ws"
  define sp where "sp = gpr s ! 13"
  define n where "n = length (low_regs l)"
  define vals where "vals = gpr s ! 14 # map ((!) (gpr s)) (rev (low_regs l))"
  define m1 where "m1 = down_words (cm0_board_view (m0_bus s)) sp vals"
  note u = unat_frame_at [OF assms(3)[folded sp_def]]
  have n: "n \<le> 8" "length vals = Suc n" unfolding n_def vals_def by (simp_all add: length_low_regs)
  have room: "m0_memory.call_room (bus_serves (word_size cortex_m0) cm0_routing m0_is_memory) sp"
    using assms(3) u unfolding m0_cm0.call_room_def sp_def
    by (auto simp: sram_frame_def intro!: m0_sram_serves)
  obtain s1 where s1: "push ?bus s = Inr (TIMING_DEFAULT, s1)" "cm0_board_inv (m0_bus s1)"
      "cm0_board_view (m0_bus s1) = m1" "gpr s1 = (gpr s)[13 := sp - of_nat (4 * Suc n)]"
    using m0_cm0.push_ok [OF assms(1,2) room [unfolded sp_def] assms(4), of pt period ws]
    unfolding m1_def vals_def n_def sp_def by blast
  have sp1: "gpr s1 ! 13 = sp - of_nat (4 * Suc n)" using assms(2) by (simp add: s1(4))
  then have u1: "unat (gpr s1 ! 13) = unat sp - 4 * Suc n" using u n unat_sub_small [of "4 * Suc n" sp] by simp
  then have lt: "gpr s1 ! 13 < sp" using u by (simp add: word_less_nat_alt)
  have at: "word32_at m1 (unat sp - 4 * Suc j) = vals ! j" if "j < Suc n" for j
    unfolding m1_def using u n that by (intro down_words_at) auto
  have "\<exists>s3. pop ?bus s2 = Inr (TIMING_POP_AND_RETURN, s3)
      \<and> takenBranch s3 \<and> gpr s3 ! 15 = gpr s ! 14 \<and> gpr s3 ! 13 = sp
      \<and> (\<forall>i < 8. gpr s3 ! i = (if reg_bit l i then gpr s ! i else gpr s2 ! i))"
    if s2: "cm0_board_inv (m0_bus s2)" "length (gpr s2) = 16" "gpr s2 ! 13 = sp - of_nat (4 * Suc n)"
      "reg_list (decoded s2) = l OR push_bit 15 1"
      "\<forall>x \<in> {unat sp - 4 * Suc n..<unat sp}. cm0_board_view (m0_bus s2) x = m1 x" for s2
  proof -
    have same: "word32_at (cm0_board_view (m0_bus s2)) x = word32_at m1 x"
      if "unat sp - 4 * Suc n \<le> x" "x + 4 \<le> unat sp" for x
      using s2(5) that by (intro word32_at_cong) auto
    have pc: "word32_at (cm0_board_view (m0_bus s2)) (unat sp - 4) = gpr s ! 14"
      using same [of "unat sp - 4"] at [of 0] u by (simp add: vals_def)
    have regs: "word32_at (cm0_board_view (m0_bus s2)) (unat sp - 4 * Suc n + 4 * j) = gpr s ! (low_regs l ! j)"
      if "j < n" for j
    proof -
      have e: "unat sp - 4 * Suc n + 4 * j = unat sp - 4 * Suc (n - j)" using that u n by auto
      have "vals ! (n - j) = gpr s ! (low_regs l ! j)"
        using that by (simp add: vals_def n_def nth_Cons' rev_nth)
      then show ?thesis
        using same [of "unat sp - 4 * Suc (n - j)"] at [of "n - j"] that u n unfolding e by simp
    qed
    obtain s3 where s3: "pop ?bus s2 = Inr (TIMING_POP_AND_RETURN, s3)" "takenBranch s3"
        "gpr s3 = (set_regs (gpr s2) (low_regs l) ((!) (gpr s)))[15 := gpr s ! 14, 13 := sp]"
      using m0_cm0.pop_ok [OF s2(1,2) room s2(4), where f = "(!) (gpr s)", folded n_def, OF s2(3) regs, of pt period ws]
        assms(5) unfolding pc by blast
    show ?thesis
      using s3 s2(2) by (intro exI [of _ s3]) (auto simp: set_regs_nth low_regs_less)
  qed
  then show ?thesis
    using s1 sp1 u1 lt by (intro exI [of _ s1]) (simp add: sp_def)
qed

theorem push_pop_returns_witness:
  "let bus = cm0_board_bus (\<lambda>_ _ _ _. Inl Report_fatal) 1 0;
       with_list = (\<lambda>l s. s\<lparr>decoded := (decoded s)\<lparr>reg_list := l\<rparr>\<rparr>);
       s = with_list (3 OR push_bit 14 1) (m0_at_stack_top\<lparr>gpr := (replicate 16 7)[13 := 0x20005FFC, 14 := 0x08000123]\<rparr>)
   in \<exists>s1 s3. push bus s = Inr (TIMING_DEFAULT, s1)
      \<and> pop bus (with_list (3 OR push_bit 15 1) s1) = Inr (TIMING_POP_AND_RETURN, s3)
      \<and> gpr s3 ! 15 = 0x08000123 \<and> gpr s3 ! 13 = 0x20005FFC \<and> gpr s3 ! 1 = 7"
proof -
  define bus where "bus = cm0_board_bus (\<lambda>_ _ _ _ :: sc_time. Inl Report_fatal :: unit transported) 1 0"
  define with_list where "with_list l s = s\<lparr>decoded := (decoded s)\<lparr>reg_list := l\<rparr>\<rparr>" for l and s :: "(bus \<times> unit m0_slave list) m0_cpu"
  define s where "s = with_list (3 OR push_bit 14 1) (m0_at_stack_top\<lparr>gpr := (replicate 16 7)[13 := 0x20005FFC, 14 := 0x08000123]\<rparr>)"
  have f: "m0_bus s = cm0_memory_init (\<lambda>_. ()) (\<lambda>_. 0)" "gpr s = (replicate 16 7)[13 := 0x20005FFC, 14 := 0x08000123]"
    "reg_list (decoded s) = 3 OR push_bit 14 1"
    by (simp_all add: s_def with_list_def m0_at_stack_top_def CortexM0Cpu_new_def)
  have g: "m0_bus (with_list l x) = m0_bus x" "gpr (with_list l x) = gpr x" "reg_list (decoded (with_list l x)) = l" for l x
    by (simp_all add: with_list_def)
  have "cm0_board_inv (m0_bus s)" unfolding f by (rule cm0_memory_init_inv)
  moreover have "length (gpr s) = 16" "sram_frame (gpr s ! 13)" "gpr s ! 14 AND 0xf0000000 \<noteq> 0xf0000000"
    by (simp_all add: f sram_frame_def)
  ultimately obtain s1 where s1: "push bus s = Inr (TIMING_DEFAULT, s1)" "cm0_board_inv (m0_bus s1)"
    "gpr s1 = (gpr s)[13 := gpr s1 ! 13]"
    and ret: "\<forall>s2. cm0_board_inv (m0_bus s2) \<and> length (gpr s2) = 16 \<and> gpr s2 ! 13 = gpr s1 ! 13
        \<and> reg_list (decoded s2) = 3 OR push_bit 15 1
        \<and> (\<forall>x \<in> {unat (gpr s1 ! 13)..<unat (gpr s ! 13)}.
              cm0_board_view (m0_bus s2) x = cm0_board_view (m0_bus s1) x)
        \<longrightarrow> (\<exists>s3. pop bus s2 = Inr (TIMING_POP_AND_RETURN, s3)
              \<and> takenBranch s3 \<and> gpr s3 ! 15 = gpr s ! 14 \<and> gpr s3 ! 13 = gpr s ! 13
              \<and> (\<forall>i < 8. gpr s3 ! i = (if reg_bit 3 i then gpr s ! i else gpr s2 ! i)))"
    using push_pop_returns [of s 3 "\<lambda>_ _ _ _. Inl Report_fatal" 1 0] f(3) unfolding bus_def by blast
  have "length (gpr s1) = 16" by (subst s1(3)) (simp add: f)
  then obtain s3 where s3: "pop bus (with_list (3 OR push_bit 15 1) s1) = Inr (TIMING_POP_AND_RETURN, s3)"
    "gpr s3 ! 15 = gpr s ! 14" "gpr s3 ! 13 = gpr s ! 13" "\<forall>i < 8. gpr s3 ! i = (if reg_bit 3 i then gpr s ! i else gpr s1 ! i)"
    using ret [rule_format, of "with_list (3 OR push_bit 15 1) s1"] s1(2) by (auto simp: g)
  have "gpr s3 ! 1 = 7" using s3(4) by (simp add: f reg_bit_def)
  then show ?thesis
    using s1(1) s3(1-3) f(2) unfolding Let_def bus_def s_def with_list_def by auto
qed

end
