(* ===== verification/Cm0_Flags.thy ===== *)
theory Cm0_Flags
  imports Cm0_Cpu
begin

unbundle bit_operations_syntax

text \<open>
  The condition flags of the Cortex-M0 core: the carry and overflow the emulator computes
  are those of 33-bit and of signed arithmetic, so that a conditional branch after a
  comparison decides the relation it is named for.
\<close>

section \<open>Flags as numbers\<close>

lemma flag_of_with_flag:
  assumes "i < 32" "j < 32"
  shows "flag_of i (with_flag j x w) = (if i = j then x AND 1 else flag_of i w)"
proof -
  have f: "flag_of i v = of_bool (bit v i)" for v
    by (rule bit_word_eqI) (use assms in \<open>auto simp: flag_of_def bit_simps\<close>)
  have o: "x AND 1 = of_bool (bit x 0)"
    by (simp add: and_one_eq mod_2_eq_odd bit_0)
  show ?thesis
    unfolding f o with_flag_def using assms by (auto simp: bit_simps)
qed

lemma bit_31: "bit (x :: u32) 31 \<longleftrightarrow> 2 ^ 31 \<le> unat x"
  using bit_top [of x] by simp

lemma cflag_carry:
  assumes "unat c \<le> 1"
  shows "cflag a b c = of_bool (2 ^ 32 \<le> unat a + unat b + unat c)"
proof -
  let ?l = "unat a mod 2 ^ 31 + unat b mod 2 ^ 31 + unat c"
  have m: "unat (x AND 0x7FFFFFFF) = unat x mod 2 ^ 31" for x :: u32
    using unat_and_mask [of x 31] by (simp add: mask_eq_exp_minus_1)
  have "unat a mod 2 ^ 31 < 2 ^ 31" "unat b mod 2 ^ 31 < 2 ^ 31" by simp_all
  then have l: "?l < 2 ^ 32" using assms by simp
  have low: "unat ((a AND 0x7FFFFFFF) + (b AND 0x7FFFFFFF) + c) = ?l"
    using l by (simp add: unat_word_ariths m mod_simps)
  have ab: "unat a div 2 ^ 31 \<le> 1" "unat b div 2 ^ 31 \<le> 1"
    using unat_lt_2p [of a] unat_lt_2p [of b] by simp_all
  have "?l div 2 ^ 31 \<le> 1" using l by simp
  have sum3: "unat (x + y + z) = unat x + unat y + unat z" if "unat x + unat y + unat z < 2 ^ 32" for x y z :: u32
    using that by (simp add: unat_word_ariths mod_simps)
  have high: "unat (drop_bit 31 ((a AND 0x7FFFFFFF) + (b AND 0x7FFFFFFF) + c) + drop_bit 31 a + drop_bit 31 b)
      = ?l div 2 ^ 31 + unat a div 2 ^ 31 + unat b div 2 ^ 31"
    using ab \<open>?l div 2 ^ 31 \<le> 1\<close> by (subst sum3) (simp_all only: unat_drop_bit_div low, simp)
  have "unat (cflag a b c) = (?l div 2 ^ 31 + unat a div 2 ^ 31 + unat b div 2 ^ 31) div 2"
    unfolding cflag_def Let_def unat_drop_bit_div high by simp
  also have "\<dots> = (unat a + unat b + unat c) div 2 ^ 32"
  proof -
    have "unat a + unat b + unat c = ?l + (unat a div 2 ^ 31 + unat b div 2 ^ 31) * 2 ^ 31"
      using div_mult_mod_eq [of "unat a" "2 ^ 31"] div_mult_mod_eq [of "unat b" "2 ^ 31"]
      unfolding distrib_right by linarith
    then have "(unat a + unat b + unat c) div 2 ^ 31 = ?l div 2 ^ 31 + unat a div 2 ^ 31 + unat b div 2 ^ 31"
      by (simp only:) (subst div_mult_self1; simp)
    then show ?thesis by (simp add: div_mult2_eq [of _ "2 ^ 31" 2, simplified])
  qed
  also have "\<dots> = of_bool (2 ^ 32 \<le> unat a + unat b + unat c)"
    using unat_lt_2p [of a] unat_lt_2p [of b] assms by (simp add: div_nat_eqI)
  finally show ?thesis by (simp add: word_unat_eq_iff)
qed

lemma vflag_bits: "vflag a b r \<longleftrightarrow> bit a 31 = bit b 31 \<and> bit r 31 \<noteq> bit a 31"
proof -
  have top: "drop_bit 31 x \<noteq> 0 \<longleftrightarrow> bit x 31" for x :: u32
  proof -
    have "unat (drop_bit 31 x) = 0 \<longleftrightarrow> \<not> 2 ^ 31 \<le> unat x"
      unfolding unat_drop_bit_div by (simp add: div_eq_0_iff not_le)
    then show ?thesis unfolding bit_31 unat_eq_0 by blast
  qed
  show ?thesis
    unfolding vflag_def top by (auto simp: bit_and_iff bit_not_iff)
qed

section \<open>Subtraction\<close>

lemma sub_bit_31:
  fixes a m :: u32
  assumes "bit a 31 = bit m 31"
  shows "bit (a - m) 31 \<longleftrightarrow> a < m"
  using assms unat_lt_2p [of a] unat_lt_2p [of m] unfolding bit_31
  by (auto simp: unat_sub_if' word_less_nat_alt)

lemma sub_signed: "bit (a - m) 31 \<noteq> vflag a (NOT m) (a - m) \<longleftrightarrow> sint a < sint (m :: u32)"
proof -
  have s: "sint x = int (unat x) - (if bit x 31 then 2 ^ 32 else 0)" for x :: u32
    using sint_unat [of x] by simp
  have order: "int x - (if 2 ^ 31 \<le> x then 2 ^ 32 else 0) < int y - (if 2 ^ 31 \<le> y then 2 ^ 32 else 0)
      \<longleftrightarrow> (2 ^ 31 \<le> y \<longrightarrow> 2 ^ 31 \<le> x) \<and> (2 ^ 31 \<le> x \<and> \<not> 2 ^ 31 \<le> y \<or> x < y)"
    if "x < 2 ^ 32" "y < 2 ^ 32" for x y :: nat
    using that by auto
  have "sint a < sint m \<longleftrightarrow> (bit m 31 \<longrightarrow> bit a 31) \<and> (bit a 31 \<and> \<not> bit m 31 \<or> a < m)"
    unfolding s bit_31 word_less_nat_alt using unat_lt_2p [of a] unat_lt_2p [of m] by (intro order) simp_all
  then show ?thesis
    using sub_bit_31 [of a m] unfolding vflag_bits by (auto simp: bit_simps)
qed

section \<open>Comparisons\<close>

lemma nzcv_eq:
  "nzcv a b (return_s c) r s = Inr (0, s\<lparr>apsr := with_flag 28 (of_bool (vflag a b r)) (with_flag 29 (cflag a b c)
     (with_flag 30 (of_bool (r = 0)) (with_flag 31 (drop_bit 31 r) (apsr s))))\<rparr>)"
  by (simp add: nzcv_def sim_monad do_nflag_def do_zflag_def do_cflag_def do_vflag_def cpu_set_flag_n_def
      cpu_set_flag_z_def cpu_set_flag_c_def cpu_set_flag_v_def cpu_set_flag_def TIMING_DEFAULT_def of_bool_def)

definition compare_flags :: "u32 \<Rightarrow> u32 \<Rightarrow> u32 \<Rightarrow> u32" where
  "compare_flags a m w = with_flag 28 (of_bool (vflag a (NOT m) (a - m))) (with_flag 29 (cflag a (NOT m) 1)
     (with_flag 30 (of_bool (a = m)) (with_flag 31 (drop_bit 31 (a - m)) w)))"

lemma compare_flag_of:
  "flag_of 31 (compare_flags a m w) = of_bool (bit (a - m) 31)"
  "flag_of 30 (compare_flags a m w) = of_bool (a = m)"
  "flag_of 29 (compare_flags a m w) = of_bool (m \<le> a)"
  "flag_of 28 (compare_flags a m w) = of_bool (vflag a (NOT m) (a - m))"
proof -
  have n: "drop_bit 31 x AND 1 = of_bool (bit x 31)" for x :: u32
    by (simp add: and_one_eq mod_2_eq_odd bit_iff_odd_drop_bit)
  have "NOT m = - 1 - m" by (simp add: not_eq_complement)
  moreover have "unat (- 1 - m) = unat (- 1 :: u32) - unat m" by (intro unat_sub) simp
  ultimately have "unat (NOT m) = 2 ^ 32 - 1 - unat m" by (simp add: unsigned_minus_1_eq_mask mask_eq_exp_minus_1)
  then have "2 ^ 32 \<le> unat a + unat (NOT m) + unat (1 :: u32) \<longleftrightarrow> m \<le> a"
    using unat_lt_2p [of m] by (auto simp: word_le_nat_alt)
  then have c: "cflag a (NOT m) 1 = of_bool (m \<le> a)" using cflag_carry [of 1 a "NOT m"] by simp
  show "flag_of 31 (compare_flags a m w) = of_bool (bit (a - m) 31)"
    "flag_of 30 (compare_flags a m w) = of_bool (a = m)"
    "flag_of 29 (compare_flags a m w) = of_bool (m \<le> a)"
    "flag_of 28 (compare_flags a m w) = of_bool (vflag a (NOT m) (a - m))"
    unfolding compare_flags_def c by (simp_all add: flag_of_with_flag n of_bool_def)
qed

lemma compare_conditions:
  "taken 0x0 (compare_flags a m w) = Some (a = m)" "taken 0x1 (compare_flags a m w) = Some (a \<noteq> m)"
  "taken 0x2 (compare_flags a m w) = Some (m \<le> a)" "taken 0x3 (compare_flags a m w) = Some (a < m)"
  "taken 0x8 (compare_flags a m w) = Some (m < a)" "taken 0x9 (compare_flags a m w) = Some (a \<le> m)"
  "taken 0xA (compare_flags a m w) = Some (sint m \<le> sint a)" "taken 0xB (compare_flags a m w) = Some (sint a < sint m)"
  "taken 0xC (compare_flags a m w) = Some (sint m < sint a)" "taken 0xD (compare_flags a m w) = Some (sint a \<le> sint m)"
proof -
  have lt: "(of_bool (bit (a - m) 31) :: u32) \<noteq> of_bool (vflag a (NOT m) (a - m)) \<longleftrightarrow> sint a < sint m"
    using sub_signed [of a m] by auto
  have eq: "a = m \<longleftrightarrow> sint a = sint m" by (rule word_eq_iff_signed)
  note taken = taken_def Let_def compare_flag_of
  show "taken 0x0 (compare_flags a m w) = Some (a = m)" "taken 0x1 (compare_flags a m w) = Some (a \<noteq> m)"
    "taken 0x2 (compare_flags a m w) = Some (m \<le> a)" "taken 0x3 (compare_flags a m w) = Some (a < m)"
    "taken 0x8 (compare_flags a m w) = Some (m < a)" "taken 0x9 (compare_flags a m w) = Some (a \<le> m)"
    by (auto simp: taken)
  show "taken 0xA (compare_flags a m w) = Some (sint m \<le> sint a)" "taken 0xB (compare_flags a m w) = Some (sint a < sint m)"
    "taken 0xC (compare_flags a m w) = Some (sint m < sint a)" "taken 0xD (compare_flags a m w) = Some (sint a \<le> sint m)"
    using lt eq by (auto simp: taken)
qed

text \<open>C21: after \<open>CMP\<close> with a register or an immediate, each conditional branch of the
  Cortex-M0 decides the relation it is named for: EQ and NE equality, HS, LO, HI and LS the
  unsigned order, GE, LT, GT and LE the signed order. The comparison changes nothing but
  the four flags.\<close>

theorem m0_compare_and_branch:
  assumes "length (gpr s) = 16" and "unat (rD (decoded s)) < 16" and "unat (rM (decoded s)) < 16"
    and "(op, m) \<in> {(cmp_r, gpr s ! unat (rM (decoded s))), (cmp_i, imm (decoded s))}"
  defines "a \<equiv> gpr s ! unat (rD (decoded s))"
  shows "\<exists>w. op s = Inr (TIMING_DEFAULT, s\<lparr>apsr := w\<rparr>) \<and> w AND 0x0FFFFFFF = apsr s AND 0x0FFFFFFF
    \<and> taken 0x0 w = Some (a = m) \<and> taken 0x1 w = Some (a \<noteq> m)
    \<and> taken 0x2 w = Some (m \<le> a) \<and> taken 0x3 w = Some (a < m)
    \<and> taken 0x8 w = Some (m < a) \<and> taken 0x9 w = Some (a \<le> m)
    \<and> taken 0xA w = Some (sint m \<le> sint a) \<and> taken 0xB w = Some (sint a < sint m)
    \<and> taken 0xC w = Some (sint m < sint a) \<and> taken 0xD w = Some (sint a \<le> sint m)"
proof -
  have sub: "a + NOT m + 1 = a - m" "a - m = 0 \<longleftrightarrow> a = m" for a m :: u32
    by (simp_all add: not_eq_complement)
  have cmp: "nzcv a (NOT m) (return_s 1) (a - m) s = Inr (0, s\<lparr>apsr := compare_flags a m (apsr s)\<rparr>)" for a m
    unfolding nzcv_eq by (simp add: compare_flags_def sub)
  have "op s = Inr (TIMING_DEFAULT, s\<lparr>apsr := compare_flags a m (apsr s)\<rparr>)"
    using assms(2-4) unfolding a_def
    by (auto simp: cmp_r_def cmp_i_def get_rD_def get_rM_def get_imm_def cpu_get_gpr_def sim_monad TIMING_DEFAULT_def
        Let_def cmp sub)
  moreover have "compare_flags a m (apsr s) AND 0x0FFFFFFF = apsr s AND 0x0FFFFFFF"
  proof -
    have "push_bit i (x AND 1) AND (0x0FFFFFFF :: u32) = 0" "NOT (push_bit i 1) AND (0x0FFFFFFF :: u32) = 0x0FFFFFFF"
      if "i \<in> {28, 29, 30, 31}" for i x
      using that by (auto simp: and_one_eq mod_2_eq_odd of_bool_def)
    then have "with_flag i x w AND 0x0FFFFFFF = w AND 0x0FFFFFFF" if "i \<in> {28, 29, 30, 31}" for i x w
      using that unfolding with_flag_def by (simp add: bit.conj_disj_distrib2 and.assoc)
    then show ?thesis by (simp add: compare_flags_def)
  qed
  ultimately show ?thesis
    by (intro exI [of _ "compare_flags a m (apsr s)"]) (simp only: compare_conditions simp_thms)
qed

theorem m0_compare_and_branch_witness:
  "\<exists>s. CortexM0Cpu_new ''cm0+'' () = Inr s \<and>
    (\<exists>w. cmp_i (s\<lparr>decoded := (decoded s)\<lparr>imm := 5\<rparr>\<rparr>) = Inr (TIMING_DEFAULT, s\<lparr>decoded := (decoded s)\<lparr>imm := 5\<rparr>, apsr := w\<rparr>)
      \<and> taken 0x3 w = Some True \<and> taken 0xB w = Some True \<and> taken 0x0 w = Some False)"
proof -
  obtain s where s: "CortexM0Cpu_new ''cm0+'' () = Inr s" "gpr s = replicate 16 0" "rD (decoded s) = 0" "rM (decoded s) = 0"
    by (simp add: CortexM0Cpu_new_def)
  let ?s = "s\<lparr>decoded := (decoded s)\<lparr>imm := 5\<rparr>\<rparr>"
  have "length (gpr ?s) = 16" "unat (rD (decoded ?s)) < 16" "unat (rM (decoded ?s)) < 16"
    "(cmp_i, 5) \<in> {(cmp_r, gpr ?s ! unat (rM (decoded ?s))), (cmp_i, imm (decoded ?s))}"
    by (simp_all add: s)
  from m0_compare_and_branch [OF this] obtain w where "cmp_i ?s = Inr (TIMING_DEFAULT, ?s\<lparr>apsr := w\<rparr>)"
    "taken 0x3 w = Some ((0 :: u32) < 5)" "taken 0xB w = Some (sint (0 :: u32) < sint (5 :: u32))" "taken 0x0 w = Some ((0 :: u32) = 5)"
    by (auto simp: s)
  then have "cmp_i ?s = Inr (TIMING_DEFAULT, s\<lparr>decoded := (decoded s)\<lparr>imm := 5\<rparr>, apsr := w\<rparr>)"
    "taken 0x3 w = Some True" "taken 0xB w = Some True" "taken 0x0 w = Some False"
    by simp_all
  then show ?thesis using s(1) by blast
qed

end
