(* ===== verification/Power_Accounting.thy ===== *)
theory Power_Accounting
  imports Power_Model
begin

text \<open>
  What the power model promises: registration hands out consecutive ids and keeps the
  channel well formed; during the simulation no reported event is lost or counted twice,
  neither in the energy drawn through the bridge nor in the event log; the static current
  is that of the last reported state of each module.
\<close>

section \<open>Sequences of operations\<close>

datatype reg_op = Reg_event string PowerModelEventBase | Reg_state string PowerModelStateBase

fun reg_step :: "reg_op \<Rightarrow> channel \<Rightarrow> (nat \<times> channel) result" where
  "reg_step (Reg_event m e) c = registerEvent m e c"
| "reg_step (Reg_state m s) c = registerState m s c"

fun reg_run :: "reg_op list \<Rightarrow> channel \<Rightarrow> (nat list \<times> channel) result" where
  "reg_run [] c = Inr ([], c)"
| "reg_run (op # ops) c =
     bind_r (reg_step op c) (\<lambda>(i, c1). bind_r (reg_run ops c1) (\<lambda>(is, c2). Inr (i # is, c2)))"

datatype sim_op =
    Report nat int
  | Report_state nat
  | Set_voltage real
  | Log_tick sc_time
  | Bridge_read real sc_time

text \<open>A read of the bridge yields the current, its static part, the voltage and the timestep.\<close>

type_synonym reading = "real \<times> real \<times> real \<times> real"

fun sim_step :: "sim_op \<Rightarrow> bridge \<Rightarrow> channel \<Rightarrow> (bridge \<times> channel \<times> reading list) result" where
  "sim_step (Report i n) b c = bind_r (reportEvent (int i) n c) (\<lambda>c1. Inr (b, c1, []))"
| "sim_step (Report_state i) b c = bind_r (reportState (int i) c) (\<lambda>c1. Inr (b, c1, []))"
| "sim_step (Set_voltage v) b c = Inr (b, setSupplyVoltage v c, [])"
| "sim_step (Log_tick t) b c = Inr (b, logLoop_step t c, [])"
| "sim_step (Bridge_read v t) b c =
     bind_r (bridge_process v t b c) (\<lambda>(b1, c1). bind_r (getStaticCurrent c1) (\<lambda>static.
       Inr (b1, c1, if v \<le> 0 then []
                    else [(i_out b1, static, v, to_seconds t - to_seconds (lastReadTime b))])))"

fun sim_run :: "sim_op list \<Rightarrow> bridge \<Rightarrow> channel \<Rightarrow> (bridge \<times> channel \<times> reading list) result" where
  "sim_run [] b c = Inr (b, c, [])"
| "sim_run (op # ops) b c =
     bind_r (sim_step op b c) (\<lambda>(b1, c1, r1).
       bind_r (sim_run ops b1 c1) (\<lambda>(b2, c2, r2). Inr (b2, c2, r1 @ r2)))"

section \<open>Well-formed channels\<close>

definition channel_wf :: "channel \<Rightarrow> bool" where
  "channel_wf c \<longleftrightarrow>
     length (eventRates c) = length (events c)
   \<and> length (currentStates c) = length (moduleNames c)
   \<and> distinct (moduleNames c)
   \<and> (\<forall>k < length (events c). snd (events c ! k) < length (moduleNames c))
   \<and> (\<forall>k < length (states c). snd (states c ! k) < length (moduleNames c))
   \<and> distinct (map (\<lambda>p. (snd p, event_name (fst p))) (events c))
   \<and> distinct (map (\<lambda>p. (snd p, state_name (fst p))) (states c))
   \<and> (\<forall>m < length (moduleNames c). currentStates c ! m = - 1
        \<or> (\<exists>k. currentStates c ! m = int k \<and> k < length (states c) \<and> snd (states c ! k) = m))
   \<and> (\<forall>row \<in> set (event_log c). length row = length (events c) + 1)
   \<and> (running c \<longleftrightarrow> event_log c \<noteq> [])"

lemma channel_wfD:
  assumes "channel_wf c"
  shows "length (eventRates c) = length (events c)" "length (currentStates c) = length (moduleNames c)"
    "row \<in> set (event_log c) \<Longrightarrow> length row = length (events c) + 1"
    "running c \<longleftrightarrow> event_log c \<noteq> []"
    "k < length (states c) \<Longrightarrow> snd (states c ! k) < length (moduleNames c)"
    "k < length (events c) \<Longrightarrow> snd (events c ! k) < length (moduleNames c)"
  using assms by (auto simp: channel_wf_def)

lemma channel_wf_current:
  assumes "channel_wf c" and "m < length (moduleNames c)" and "0 \<le> currentStates c ! m"
  shows "nat (currentStates c ! m) < length (states c)" "snd (states c ! nat (currentStates c ! m)) = m"
  using assms by (auto simp: channel_wf_def)

lemma channel_wf_new: "channel_wf (PowerModelChannel_new name path ts)"
  by (simp add: channel_wf_def PowerModelChannel_new_def)

lemma length_bump [simp]: "length (bump xs i n) = length xs"
  by (simp add: bump_def)

lemma find_name_None: "find_name x ys i = None \<longleftrightarrow> x \<notin> set ys"
  by (induction ys arbitrary: i) auto

lemma find_name_Some: "find_name x ys i = Some k \<Longrightarrow> i \<le> k \<and> k < i + length ys \<and> ys ! (k - i) = x"
proof (induction ys arbitrary: i)
  case (Cons y ys)
  then show ?case
    by (cases "y = x") (auto dest!: Cons.IH simp: nth_Cons')
qed simp

text \<open>A module entry keeps the channel well formed and names a module of it.\<close>

lemma module_entry_wf:
  assumes "channel_wf c" and "\<not> running c" and "module_entry n c = (i, first, c1)"
  shows "channel_wf c1" "\<not> running c1" "i < length (moduleNames c1)" "moduleNames c1 ! i = n"
    "events c1 = events c" "states c1 = states c"
    "first \<Longrightarrow> i = length (moduleNames c) \<and> currentStates c1 ! i = - 1"
    "eventRates c1 = eventRates c" "event_log c1 = event_log c"
proof -
  consider (new) "find_name n (moduleNames c) 0 = None" "i = length (moduleNames c)" first
      "c1 = c\<lparr>moduleNames := moduleNames c @ [n], currentStates := currentStates c @ [- 1]\<rparr>"
    | (old) "find_name n (moduleNames c) 0 = Some i" "\<not> first" "c1 = c"
    using assms(3) by (auto simp: module_entry_def split: option.splits)
  note cs = this
  from cs show "channel_wf c1"
  proof cases
    case new
    then show ?thesis
      using assms(1) unfolding channel_wf_def
      by (simp add: find_name_None nth_append All_less_Suc less_SucI)
  qed (use assms(1) in simp)
  from cs show "i < length (moduleNames c1)" "moduleNames c1 ! i = n"
    "first \<Longrightarrow> i = length (moduleNames c) \<and> currentStates c1 ! i = - 1"
    using channel_wfD(2) [OF assms(1)]
    by (cases; auto simp: nth_append dest: find_name_Some)+
  from cs show "\<not> running c1" "events c1 = events c" "states c1 = states c"
    "eventRates c1 = eventRates c" "event_log c1 = event_log c"
    using assms(2) by (cases; simp)+
qed

lemma module_fresh:
  assumes "channel_wf c" and "module_entry n c = (i, True, c1)"
  shows "\<forall>p \<in> set (events c). snd p \<noteq> i" "\<forall>p \<in> set (states c). snd p \<noteq> i"
proof -
  have "i = length (moduleNames c)"
    using assms(2) by (auto simp: module_entry_def split: option.splits)
  then show "\<forall>p \<in> set (events c). snd p \<noteq> i" "\<forall>p \<in> set (states c). snd p \<noteq> i"
    using channel_wfD(5,6) [OF assms(1)] by (metis in_set_conv_nth nat_neq_iff)+
qed

lemma registerEvent_wf:
  assumes "channel_wf c" and "registerEvent n e c = Inr (k, c')"
  shows "channel_wf c'" "\<not> running c'" "k = length (events c)" "states c' = states c"
    "\<exists>i. events c' = events c @ [(e, i)] \<and> i < length (moduleNames c') \<and> moduleNames c' ! i = n"
proof -
  obtain i first c1 where me: "module_entry n c = (i, first, c1)" by (cases "module_entry n c")
  have nr: "\<not> running c" using assms(2) by (auto simp: registerEvent_def result_simps)
  note wf = module_entry_wf [OF assms(1) nr me]
  have new: "\<not> list_ex (\<lambda>(e', m). event_name e' = event_name e \<and> m = i) (events c)"
    using assms(2) module_fresh(1) [OF assms(1), of n i c1] me wf(5)
    by (cases first) (auto simp: registerEvent_def result_simps list_ex_iff)
  have c': "c' = c1\<lparr>events := events c1 @ [(e, i)], eventRates := eventRates c1 @ [0]\<rparr>"
    "k = length (events c)"
    using assms(2) me wf(5) by (auto simp: registerEvent_def result_simps Let_def)
  show "channel_wf c'"
    using wf(1-6) new unfolding c' channel_wf_def
    by (simp add: list_ex_iff image_iff nth_append All_less_Suc split_beta) metis
  show "\<not> running c'" "k = length (events c)" "states c' = states c"
    "\<exists>i. events c' = events c @ [(e, i)] \<and> i < length (moduleNames c') \<and> moduleNames c' ! i = n"
    using c' wf(2-6) by auto
qed

lemma registerState_wf:
  assumes "channel_wf c" and "registerState n s c = Inr (k, c')"
  shows "channel_wf c'" "\<not> running c'" "k = length (states c)" "events c' = events c"
    "\<exists>i. states c' = states c @ [(s, i)] \<and> i < length (moduleNames c') \<and> moduleNames c' ! i = n"
proof -
  obtain i first c1 where me: "module_entry n c = (i, first, c1)" by (cases "module_entry n c")
  have nr: "\<not> running c" using assms(2) by (auto simp: registerState_def result_simps)
  note wf = module_entry_wf [OF assms(1) nr me]
  have new: "\<not> list_ex (\<lambda>(s', m). state_name s' = state_name s \<and> m = i) (states c)"
    using assms(2) module_fresh(2) [OF assms(1), of n i c1] me wf(6)
    by (cases first) (auto simp: registerState_def result_simps list_ex_iff)
  define c2 where "c2 = c1\<lparr>states := states c1 @ [(s, i)]\<rparr>"
  have c': "c' = (if currentStates c2 ! i = - 1
      then c2\<lparr>currentStates := (currentStates c2)[i := int (length (states c))]\<rparr> else c2)"
    "k = length (states c)"
    using assms(2) me wf(6) by (auto simp: registerState_def result_simps Let_def c2_def)
  have cur: "length (currentStates c1) = length (moduleNames c1)"
    using channel_wfD(2) [OF wf(1)] .
  have "channel_wf c2"
    using wf(1-6) new unfolding c2_def channel_wf_def
    by (simp add: list_ex_iff image_iff nth_append All_less_Suc split_beta) (metis less_SucI)
  then show "channel_wf c'"
    using wf(3,6) cur unfolding c' channel_wf_def
    by (auto simp: c2_def nth_list_update nth_append)
  show "\<not> running c'" "k = length (states c)" "events c' = events c"
    "\<exists>i. states c' = states c @ [(s, i)] \<and> i < length (moduleNames c') \<and> moduleNames c' ! i = n"
    using c' wf(2-6) by (auto simp: c2_def)
qed

lemma reg_run_wf:
  assumes "channel_wf c" and "\<not> running c" and "reg_run ops c = Inr (ids, c')"
  shows "channel_wf c' \<and> \<not> running c'"
  using assms
proof (induction ops arbitrary: c ids)
  case (Cons op ops)
  then obtain i c1 "is" where "reg_step op c = Inr (i, c1)" "reg_run ops c1 = Inr (is, c')"
    by (auto simp: result_simps)
  then show ?case
    using Cons.IH [of c1 "is"] registerEvent_wf(1,2) [OF Cons.prems(1)] registerState_wf(1,2) [OF Cons.prems(1)]
    by (cases op) auto
qed simp

section \<open>Energy\<close>

definition event_energy :: "channel \<Rightarrow> nat \<Rightarrow> real" where
  "event_energy c i = calculateEnergy (fst (events c ! i)) (supplyVoltage c)"

text \<open>The energy reported and not yet drawn through the bridge.\<close>

definition pending :: "channel \<Rightarrow> real" where
  "pending c = (\<Sum>i<length (events c). event_energy c i * of_int (eventRates c ! i))"

lemma sum_bump:
  "i < k \<Longrightarrow> k \<le> length xs \<Longrightarrow>
   (\<Sum>j<k. f j * real_of_int (bump xs i n ! j)) = (\<Sum>j<k. f j * of_int (xs ! j)) + f i * of_int n"
proof (induction k)
  case (Suc k)
  show ?case
  proof (cases "i = k")
    case True
    then have "(\<Sum>j<k. f j * real_of_int (bump xs i n ! j)) = (\<Sum>j<k. f j * of_int (xs ! j))"
      by (intro sum.cong) (simp_all add: bump_def)
    then show ?thesis
      using True Suc.prems by (simp add: bump_def algebra_simps)
  next
    case False
    then show ?thesis
      using Suc by (simp add: bump_def)
  qed
qed simp

lemma channel_wf_rates:
  "channel_wf c \<Longrightarrow> length r = length (events c) \<Longrightarrow> channel_wf (c\<lparr>eventRates := r\<rparr>)"
  by (simp add: channel_wf_def)

lemma event_id_ok:
  assumes "channel_wf c" and "running c" and "i < length (events c)"
  shows "check_event_id (int i) c k = k"
  using assms channel_wfD(3) [OF assms(1), of "last (event_log c)"] channel_wfD(4) [OF assms(1)]
  by (simp add: check_event_id_def)

lemma popEventEnergy_ok:
  assumes "channel_wf c" and "running c" and "i < length (events c)"
  shows "popEventEnergy (int i) c
    = Inr (event_energy c i * of_int (eventRates c ! i), c\<lparr>eventRates := (eventRates c)[i := 0]\<rparr>)"
  using assms channel_wfD(1) [OF assms(1)]
  by (simp add: popEventEnergy_def popEventCount_def event_id_ok event_energy_def)

lemma pop_loop_ok:
  assumes "channel_wf c" and "running c" and "k \<le> length (events c)"
  shows "pop_loop [k..<length (events c)] acc c
    = Inr (acc + (\<Sum>i=k..<length (events c). event_energy c i * of_int (eventRates c ! i)),
        c\<lparr>eventRates := take k (eventRates c) @ replicate (length (events c) - k) 0\<rparr>)"
  using assms
proof (induction "length (events c) - k" arbitrary: k acc c)
  case 0
  then show ?case
    using channel_wfD(1) [OF 0(2)] by simp
next
  case (Suc d)
  define c1 where "c1 = c\<lparr>eventRates := (eventRates c)[k := 0]\<rparr>"
  have k: "k < length (events c)" "k < length (eventRates c)"
    using Suc.hyps(2) channel_wfD(1) [OF Suc.prems(1)] by simp_all
  have c1: "channel_wf c1" "running c1" "events c1 = events c"
    using Suc.prems k channel_wfD(1) [OF Suc.prems(1)] by (simp_all add: c1_def channel_wf_rates)
  have e: "event_energy c1 = event_energy c"
    by (rule ext) (simp add: event_energy_def c1_def)
  have sums: "(\<Sum>i=Suc k..<length (events c). event_energy c i * real_of_int (eventRates c1 ! i))
      = (\<Sum>i=Suc k..<length (events c). event_energy c i * of_int (eventRates c ! i))"
    by (rule sum.cong) (simp_all add: c1_def)
  have r: "take (Suc k) (eventRates c1) @ replicate (length (events c) - Suc k) 0
      = take k (eventRates c) @ replicate (length (events c) - k) 0"
    using k by (simp add: c1_def take_Suc_conv_app_nth Suc_diff_Suc [symmetric] del: append_eq_append_conv)
  have "pop_loop [k..<length (events c)] acc c
    = pop_loop [Suc k..<length (events c1)] (acc + event_energy c k * of_int (eventRates c ! k)) c1"
    using k Suc.prems(1,2) by (simp add: upt_conv_Cons popEventEnergy_ok c1_def)
  also have "\<dots> = Inr (acc + event_energy c k * of_int (eventRates c ! k)
      + (\<Sum>i=Suc k..<length (events c). event_energy c i * of_int (eventRates c ! i)),
        c\<lparr>eventRates := take k (eventRates c) @ replicate (length (events c) - k) 0\<rparr>)"
    using Suc.hyps(1) [of c1 "Suc k"] Suc.hyps(2) c1 k(1) r by (simp add: e sums) (simp add: c1_def)
  finally show ?case
    using k by (simp add: sum.atLeast_Suc_lessThan)
qed

lemma popDynamicEnergy_ok:
  assumes "channel_wf c" and "running c"
  shows "popDynamicEnergy c
    = Inr (pending c, c\<lparr>eventRates := replicate (length (events c)) 0\<rparr>)"
  using pop_loop_ok [OF assms, of 0 0]
  by (simp add: popDynamicEnergy_def pending_def atLeast0LessThan)

section \<open>Static current\<close>

definition state_current :: "channel \<Rightarrow> int \<Rightarrow> real" where
  "state_current c k =
     (if 0 \<le> k then calculateCurrent (fst (states c ! nat k)) (supplyVoltage c) else 0)"

lemma static_loop_ok:
  assumes "\<forall>k \<in> set ids. 0 \<le> k \<longrightarrow> nat k < length (states c)"
  shows "static_loop c ids acc = Inr (acc + sum_list (map (state_current c) ids))"
  using assms by (induction ids arbitrary: acc) (auto simp: state_current_def)

lemma getStaticCurrent_ok:
  assumes "channel_wf c"
  shows "getStaticCurrent c = Inr (\<Sum>m<length (moduleNames c). state_current c (currentStates c ! m))"
proof -
  have "\<forall>k \<in> set (currentStates c). 0 \<le> k \<longrightarrow> nat k < length (states c)"
    using channel_wf_current(1) [OF assms] channel_wfD(2) [OF assms] by (metis in_set_conv_nth)
  then show ?thesis
    using channel_wfD(2) [OF assms]
    by (simp add: getStaticCurrent_def static_loop_ok sum_list_sum_nth atLeast0LessThan)
qed

section \<open>Steps of the simulation\<close>

text \<open>
  The operations the simulation may perform: ids it was given at registration, and bridge
  reads at increasing times (the bridge is woken by a change of the voltage; at a voltage
  of zero or less it does not account).
\<close>

fun sim_ok :: "nat \<Rightarrow> nat \<Rightarrow> sc_time \<Rightarrow> sim_op list \<Rightarrow> bool" where
  "sim_ok ne ns t0 [] = True"
| "sim_ok ne ns t0 (Report i n # ops) = (i < ne \<and> sim_ok ne ns t0 ops)"
| "sim_ok ne ns t0 (Report_state i # ops) = (i < ns \<and> sim_ok ne ns t0 ops)"
| "sim_ok ne ns t0 (Bridge_read v t # ops) =
     (if v \<le> 0 then sim_ok ne ns t0 ops else t0 < t \<and> sim_ok ne ns t ops)"
| "sim_ok ne ns t0 (Set_voltage v # ops) = sim_ok ne ns t0 ops"
| "sim_ok ne ns t0 (Log_tick t # ops) = sim_ok ne ns t0 ops"

definition static_current :: "channel \<Rightarrow> real" where
  "static_current c = (\<Sum>m<length (moduleNames c). state_current c (currentStates c ! m))"

text \<open>What a step does, in one closed form per operation.\<close>

definition drain :: "channel \<Rightarrow> channel" where
  "drain c = c\<lparr>eventRates := replicate (length (events c)) 0\<rparr>"

fun sim_effect :: "sim_op \<Rightarrow> bridge \<Rightarrow> channel \<Rightarrow> bridge \<times> channel \<times> reading list" where
  "sim_effect (Report i n) b c =
     (b, c\<lparr>eventRates := bump (eventRates c) i n,
           event_log := butlast (event_log c) @ [bump (last (event_log c)) i n]\<rparr>, [])"
| "sim_effect (Report_state i) b c =
     (b, c\<lparr>currentStates := (currentStates c)[snd (states c ! i) := int i]\<rparr>, [])"
| "sim_effect (Set_voltage v) b c = (b, setSupplyVoltage v c, [])"
| "sim_effect (Log_tick t) b c = (b, logLoop_step t c, [])"
| "sim_effect (Bridge_read v t) b c =
     (if v \<le> 0 then (b\<lparr>i_out := 0\<rparr>, c, [])
      else
        let dt = to_seconds t - to_seconds (lastReadTime b);
            i = static_current c + pending c / (v * dt)
        in (b\<lparr>i_out := i, lastReadTime := t\<rparr>, drain c, [(i, static_current c, v, dt)]))"

lemma to_seconds_less [simp]: "to_seconds s < to_seconds t \<longleftrightarrow> s < t"
  by (simp add: to_seconds_def)

lemma drain_wf: "channel_wf c \<Longrightarrow> channel_wf (drain c)"
  by (simp add: drain_def channel_wf_rates)

lemma static_current_drain [simp]: "static_current (drain c) = static_current c"
proof -
  have "state_current (drain c) k = state_current c k" for k
    by (cases "0 \<le> k") (simp_all add: drain_def state_current_def)
  then show ?thesis by (simp add: static_current_def) (simp add: drain_def)
qed

lemma length_log_row [simp]: "length (log_row t c) = length (events c) + 1"
  by (simp add: log_row_def)

lemma logLoop_step_wf: "channel_wf c \<Longrightarrow> running c \<Longrightarrow> channel_wf (logLoop_step t c)"
  by (auto simp: logLoop_step_def channel_wf_def dumpEventCsv_def Let_def)

lemma logLoop_step_same [simp]:
  "events (logLoop_step t c) = events c" "states (logLoop_step t c) = states c"
  "moduleNames (logLoop_step t c) = moduleNames c" "currentStates (logLoop_step t c) = currentStates c"
  "eventRates (logLoop_step t c) = eventRates c" "supplyVoltage (logLoop_step t c) = supplyVoltage c"
  "running (logLoop_step t c) = running c"
  by (simp_all add: logLoop_step_def dumpEventCsv_def Let_def)

lemma setSupplyVoltage_same [simp]:
  "events (setSupplyVoltage v c) = events c" "states (setSupplyVoltage v c) = states c"
  "moduleNames (setSupplyVoltage v c) = moduleNames c"
  "currentStates (setSupplyVoltage v c) = currentStates c"
  "eventRates (setSupplyVoltage v c) = eventRates c" "event_log (setSupplyVoltage v c) = event_log c"
  "csv_file (setSupplyVoltage v c) = csv_file c" "running (setSupplyVoltage v c) = running c"
  by (simp_all add: setSupplyVoltage_def)

lemma setSupplyVoltage_wf: "channel_wf c \<Longrightarrow> channel_wf (setSupplyVoltage v c)"
  by (simp add: channel_wf_def)

lemma report_wf:
  assumes "channel_wf c" and "running c" and "i < length (events c)"
  shows "channel_wf (c\<lparr>eventRates := bump (eventRates c) i n,
           event_log := butlast (event_log c) @ [bump (last (event_log c)) i n]\<rparr>)"
  using assms channel_wfD(3) [OF assms(1), of "last (event_log c)"] channel_wfD(4) [OF assms(1)]
  by (auto simp: channel_wf_def dest: in_set_butlastD)

lemma report_state_wf:
  assumes "channel_wf c" and "running c" and "i < length (states c)"
  shows "channel_wf (c\<lparr>currentStates := (currentStates c)[snd (states c ! i) := int i]\<rparr>)"
  using assms by (auto simp: channel_wf_def nth_list_update)

lemma sim_step_effect:
  assumes "channel_wf c" and "running c"
    and "sim_ok (length (events c)) (length (states c)) (lastReadTime b) (op # ops)"
  shows "sim_step op b c = Inr (sim_effect op b c)"
    and "sim_effect op b c = (b', c', r) \<Longrightarrow> channel_wf c' \<and> running c' \<and> events c' = events c
      \<and> states c' = states c \<and> moduleNames c' = moduleNames c
      \<and> sim_ok (length (events c)) (length (states c)) (lastReadTime b') ops"
proof -
  show "sim_step op b c = Inr (sim_effect op b c)"
  proof (cases op)
    case (Report i n)
    then show ?thesis
      using assms channel_wfD(1) [OF assms(1)] by (simp add: reportEvent_def event_id_ok)
  next
    case (Report_state i)
    then show ?thesis
      using assms channel_wfD(2,5) [OF assms(1)] by (simp add: reportState_def)
  next
    case (Bridge_read v t)
    show ?thesis
    proof (cases "v \<le> 0")
      case True
      then show ?thesis
        using Bridge_read getStaticCurrent_ok [OF assms(1)] by (simp add: bridge_process_def)
    next
      case False
      have "to_seconds t - to_seconds (lastReadTime b) \<noteq> 0"
        using False assms(3) Bridge_read by (auto simp: to_seconds_def)
      then show ?thesis
        using False Bridge_read popDynamicEnergy_ok [OF assms(1,2), folded drain_def]
          getStaticCurrent_ok [OF drain_wf [OF assms(1)], folded static_current_def]
        by (simp add: bridge_process_def Let_def)
    qed
  qed simp_all
  assume "sim_effect op b c = (b', c', r)"
  then show "channel_wf c' \<and> running c' \<and> events c' = events c \<and> states c' = states c
      \<and> moduleNames c' = moduleNames c
      \<and> sim_ok (length (events c)) (length (states c)) (lastReadTime b') ops"
  proof (cases op)
    case (Bridge_read v t)
    then show ?thesis
      using assms \<open>sim_effect op b c = (b', c', r)\<close> drain_wf [OF assms(1)]
      by (auto simp: Let_def drain_def split: if_splits)
  qed (use assms report_wf report_state_wf logLoop_step_wf setSupplyVoltage_wf in auto)
qed

lemma sim_run_step:
  assumes "channel_wf c" and "running c"
    and "sim_ok (length (events c)) (length (states c)) (lastReadTime b) (op # ops)"
    and "sim_effect op b c = (b1, c1, r1)"
  shows "sim_run (op # ops) b c = bind_r (sim_run ops b1 c1) (\<lambda>(b2, c2, r2). Inr (b2, c2, r1 @ r2))"
  using sim_step_effect(1) [OF assms(1-3)] assms(4) by simp

text \<open>A simulation of permitted operations does not fail, and keeps the channel well formed.\<close>

lemma sim_run_ok:
  assumes "channel_wf c" and "running c"
    and "sim_ok (length (events c)) (length (states c)) (lastReadTime b) ops"
  shows "\<exists>b' c' rs. sim_run ops b c = Inr (b', c', rs) \<and> channel_wf c' \<and> running c'
    \<and> events c' = events c \<and> states c' = states c \<and> moduleNames c' = moduleNames c"
  using assms
proof (induction ops arbitrary: b c)
  case (Cons op ops)
  obtain b1 c1 r1 where eff: "sim_effect op b c = (b1, c1, r1)" by (cases "sim_effect op b c")
  note st = sim_step_effect(2) [OF Cons.prems eff]
  from Cons.IH [of c1 b1] st sim_run_step [OF Cons.prems eff] show ?case by auto
qed simp

text \<open>An additive measure of the channel that each step changes by a known amount.\<close>

lemma sim_run_measure:
  assumes "channel_wf c" and "running c" and "Q c"
    and "sim_ok (length (events c)) (length (states c)) (lastReadTime b) ops"
    and step: "\<And>op b c b' c' r. channel_wf c \<Longrightarrow> running c \<Longrightarrow> Q c \<Longrightarrow>
        sim_ok (length (events c)) (length (states c)) (lastReadTime b) [op] \<Longrightarrow>
        sim_effect op b c = (b', c', r) \<Longrightarrow> f c' + sum_list (map g r) = f c + h op \<and> Q c'"
    and run: "sim_run ops b c = Inr (b', c', rs)"
  shows "f c' + sum_list (map g rs) = f c + (sum_list (map h ops) :: real)"
  using assms(1-4) run
proof (induction ops arbitrary: b c rs)
  case (Cons op ops)
  obtain b1 c1 r1 where eff: "sim_effect op b c = (b1, c1, r1)" by (cases "sim_effect op b c")
  note st = sim_step_effect(2) [OF Cons.prems(1,2,4) eff]
  obtain r2 where r2: "sim_run ops b1 c1 = Inr (b', c', r2)" "rs = r1 @ r2"
    using Cons.prems(5) unfolding sim_run_step [OF Cons.prems(1,2,4) eff]
    by (auto simp: bind_r_eq_Inr)
  have "sim_ok (length (events c)) (length (states c)) (lastReadTime b) [op]"
    using Cons.prems(4) by (cases op) auto
  then show ?case
    using Cons.IH [of c1 b1 r2] st r2 step [OF Cons.prems(1-3) _ eff] by auto
qed simp

section \<open>Conservation of energy\<close>

definition constant_events :: "channel \<Rightarrow> bool" where
  "constant_events c \<longleftrightarrow> (\<forall>k < length (events c). \<forall>v w.
     calculateEnergy (fst (events c ! k)) v = calculateEnergy (fst (events c ! k)) w)"

fun reported_energy :: "channel \<Rightarrow> sim_op \<Rightarrow> real" where
  "reported_energy c (Report i n) = event_energy c i * of_int n"
| "reported_energy c _ = 0"

fun dynamic_energy :: "reading \<Rightarrow> real" where
  "dynamic_energy (i, static, v, dt) = (i - static) * v * dt"

lemma pending_same:
  assumes "events c' = events c" and "eventRates c' = eventRates c" and "constant_events c"
  shows "pending c' = pending c"
  unfolding pending_def event_energy_def assms(1,2)
  by (rule sum.cong) (use assms(3) in \<open>simp_all add: constant_events_def\<close>)

lemma energy_step:
  assumes "channel_wf c" and "running c" and "constant_events c \<and> events c = events c0"
    and "sim_ok (length (events c)) (length (states c)) (lastReadTime b) [op]"
    and "sim_effect op b c = (b', c', r)"
  shows "pending c' + sum_list (map dynamic_energy r) = pending c + reported_energy c0 op
    \<and> constant_events c' \<and> events c' = events c0"
proof -
  have same: "events c' = events c"
    using sim_step_effect(2) [OF assms(1,2,4,5)] by simp
  show ?thesis
  proof (cases op)
    case (Report i n)
    have "event_energy c' = event_energy c" "event_energy c i = event_energy c0 i"
      using Report assms by (auto simp: event_energy_def constant_events_def fun_eq_iff)
    then show ?thesis
      using Report assms same channel_wfD(1) [OF assms(1)] sum_bump [of i "length (events c)" "eventRates c"]
      by (auto simp: pending_def constant_events_def)
  next
    case (Bridge_read v t)
    show ?thesis
    proof (cases "v \<le> 0")
      case False
      then have "to_seconds t - to_seconds (lastReadTime b) \<noteq> 0" "v \<noteq> 0"
        using Bridge_read assms(4) by (auto simp: to_seconds_def)
      moreover have "pending (drain c) = 0" by (simp add: pending_def drain_def)
      ultimately show ?thesis
        using False Bridge_read assms same by (auto simp: Let_def constant_events_def)
    qed (use Bridge_read assms in auto)
  qed (use assms same pending_same [of c' c] in \<open>auto simp: constant_events_def\<close>)
qed

text \<open>The state in which a simulation starts.\<close>

definition bridge_init :: bridge where
  "bridge_init = \<lparr>i_out = 0, lastReadTime = 0\<rparr>"

lemma lastRead_init: "lastReadTime bridge_init = 0"
  by (simp add: bridge_init_def)

definition fresh_channel :: "channel \<Rightarrow> bool" where
  "fresh_channel c \<longleftrightarrow> (\<forall>r \<in> set (eventRates c). r = 0) \<and> csv_file c = []"

lemma reg_step_fresh: "fresh_channel c \<Longrightarrow> reg_step op c = Inr (k, c') \<Longrightarrow> fresh_channel c'"
  by (cases op) (auto simp: registerEvent_def registerState_def module_entry_def fresh_channel_def
      result_simps Let_def split: option.splits if_splits)

lemma reg_run_fresh: "fresh_channel c \<Longrightarrow> reg_run ops c = Inr (ids, c') \<Longrightarrow> fresh_channel c'"
  by (induction ops arbitrary: c ids) (auto simp: result_simps dest: reg_step_fresh)

lemma start_wf:
  assumes "reg_run regs (PowerModelChannel_new name path ts) = Inr (ids, c)"
  shows "channel_wf (start_of_simulation c)" "running (start_of_simulation c)"
    "pending (start_of_simulation c) = 0" "csv_file (start_of_simulation c) = []"
    "event_log (start_of_simulation c) = [log_row (logTimestep c) c]"
    "events (start_of_simulation c) = events c" "states (start_of_simulation c) = states c"
proof -
  have wf: "channel_wf c" "\<not> running c" "fresh_channel c"
    using reg_run_wf [OF channel_wf_new _ assms] reg_run_fresh [OF _ assms]
    by (simp_all add: PowerModelChannel_new_def fresh_channel_def)
  then have z: "eventRates c ! i = 0" if "i < length (events c)" for i
    using that channel_wfD(1) [OF wf(1)] by (simp add: fresh_channel_def)
  show "channel_wf (start_of_simulation c)" "running (start_of_simulation c)"
    "csv_file (start_of_simulation c) = []"
    "event_log (start_of_simulation c) = [log_row (logTimestep c) c]"
    "events (start_of_simulation c) = events c" "states (start_of_simulation c) = states c"
    using wf by (simp_all add: start_of_simulation_def channel_wf_def fresh_channel_def)
  show "pending (start_of_simulation c) = 0"
    using z by (simp add: pending_def start_of_simulation_def)
qed



section \<open>The event log\<close>

fun csv_rows :: "csv_line list \<Rightarrow> int list list" where
  "csv_rows [] = []"
| "csv_rows (Csv_header h # ls) = csv_rows ls"
| "csv_rows (Csv_row r # ls) = r # csv_rows ls"

text \<open>The count of event \<open>i\<close> over the rows written to the file and those in memory.\<close>

definition logged :: "nat \<Rightarrow> channel \<Rightarrow> int" where
  "logged i c = sum_list (map (\<lambda>r. r ! i) (csv_rows (csv_file c) @ event_log c))"

fun reported_count :: "nat \<Rightarrow> sim_op \<Rightarrow> int" where
  "reported_count i (Report k n) = (if k = i then n else 0)"
| "reported_count i _ = 0"

lemma csv_rows_append [simp]: "csv_rows (xs @ ys) = csv_rows xs @ csv_rows ys"
  by (induction xs rule: csv_rows.induct) auto

lemma csv_rows_map [simp]: "csv_rows (map Csv_row rs) = rs"
  by (induction rs) auto

lemma csv_rows_header [simp]: "csv_rows [csv_header c] = []"
  by (simp add: csv_header_def)

lemma logged_logLoop:
  "i < length (events c) \<Longrightarrow> logged i (logLoop_step t c) = logged i c"
  by (simp add: logged_def logLoop_step_def dumpEventCsv_def Let_def log_row_def nth_append)

lemma sum_list_snoc_bump:
  assumes "rows \<noteq> []" and "k < length (last rows)"
  shows "sum_list (map (\<lambda>r. r ! i) (butlast rows)) + bump (last rows) k n ! i
    = sum_list (map (\<lambda>r. r ! i) rows) + (if k = i then n else (0::int))"
proof -
  have "sum_list (map (\<lambda>r. r ! i) rows) = sum_list (map (\<lambda>r. r ! i) (butlast rows @ [last rows]))"
    using assms(1) by simp
  then show ?thesis
    using assms(2) by (simp add: bump_def)
qed

lemma log_step:
  assumes "channel_wf c" and "running c" and "i < length (events c)"
    and "sim_ok (length (events c)) (length (states c)) (lastReadTime b) [op]"
    and "sim_effect op b c = (b', c', r)"
  shows "logged i c' = logged i c + reported_count i op"
proof (cases op)
  case (Report k n)
  then have "event_log c \<noteq> []" "k < length (last (event_log c))"
    using assms channel_wfD(3) [OF assms(1), of "last (event_log c)"] channel_wfD(4) [OF assms(1)]
    by auto
  then show ?thesis
    using Report assms(5) by (auto simp: logged_def sum_list_snoc_bump)
next
  case (Bridge_read v t)
  then show ?thesis
    using assms(5) by (auto simp: logged_def drain_def Let_def split: if_splits)
next
  case (Log_tick t)
  then show ?thesis using assms(3,5) by (auto simp: logged_logLoop)
qed (use assms in \<open>auto simp: logged_def\<close>)



lemma log_bound_step:
  assumes "channel_wf c" and "running c" and "length (event_log c) \<le> logDumpThreshold + 1"
    and "sim_effect op b c = (b', c', r)"
  shows "length (event_log c') \<le> logDumpThreshold + 1"
  using assms channel_wfD(4) [OF assms(1)]
  by (cases op) (auto simp: logLoop_step_def dumpEventCsv_def Let_def drain_def split: if_splits)

text \<open>The memory the log takes is bounded. However long a permitted simulation runs,
  at most \<open>m_logDumpThreshold + 1\<close> rows (100001) are kept in memory, each with one
  column per event and one for the time.\<close>

lemma event_log_bounded:
  assumes "reg_run regs (PowerModelChannel_new name path ts) = Inr (ids, c)"
    and "sim_ok (length (events c)) (length (states c)) 0 ops"
    and "sim_run ops bridge_init (start_of_simulation c) = Inr (b', c', rs)"
  shows "length (event_log c') \<le> logDumpThreshold + 1
    \<and> (\<forall>row \<in> set (event_log c'). length row = length (events c) + 1)"
proof -
  note st = start_wf [OF assms(1)]
  have "channel_wf c' \<and> events c' = events x \<and> length (event_log c') \<le> logDumpThreshold + 1"
    if "channel_wf x" "running x" "length (event_log x) \<le> logDumpThreshold + 1"
      "sim_ok (length (events x)) (length (states x)) (lastReadTime b) ops"
      "sim_run ops b x = Inr (b', c', rs)" for x b ops rs
    using that
  proof (induction ops arbitrary: b x rs)
    case (Cons op ops)
    obtain b1 x1 r1 where eff: "sim_effect op b x = (b1, x1, r1)" by (cases "sim_effect op b x")
    note next_ok = sim_step_effect(2) [OF Cons.prems(1,2,4) eff]
    obtain r2 where "sim_run ops b1 x1 = Inr (b', c', r2)"
      using Cons.prems(5) unfolding sim_run_step [OF Cons.prems(1,2,4) eff] by (auto simp: bind_r_eq_Inr)
    then show ?case
      using Cons.IH [of x1 b1 r2] next_ok log_bound_step [OF Cons.prems(1-3) eff] by simp
  qed simp
  from this [OF st(1,2) _ _ assms(3)] show ?thesis
    using assms(2) channel_wfD(3) by (auto simp: st bridge_init_def)
qed

lemma event_log_bounded_witness:
  "length (event_log (start_of_simulation (PowerModelChannel_new ''pm'' ''out'' 100))) \<le> 100001"
proof -
  have "reg_run [] (PowerModelChannel_new ''pm'' ''out'' 100) = Inr ([], PowerModelChannel_new ''pm'' ''out'' 100)"
    by simp
  from event_log_bounded [OF this, where ops = "[]"] show ?thesis
    by (simp add: logDumpThreshold_def)
qed

section \<open>States and ids\<close>

text \<open>The state a module reported last, starting from its state \<open>cur\<close>.\<close>

fun last_state :: "channel \<Rightarrow> nat \<Rightarrow> sim_op list \<Rightarrow> int \<Rightarrow> int" where
  "last_state c m [] cur = cur"
| "last_state c m (Report_state i # ops) cur =
     last_state c m ops (if snd (states c ! i) = m then int i else cur)"
| "last_state c m (_ # ops) cur = last_state c m ops cur"

lemma last_state_cong: "states c' = states c \<Longrightarrow> last_state c' m ops cur = last_state c m ops cur"
proof (induction ops arbitrary: cur)
  case (Cons op ops)
  then show ?case by (cases op) auto
qed simp

lemma last_state_step:
  assumes "channel_wf c" and "m < length (moduleNames c)" and "sim_effect op b c = (b1, c1, r1)"
  shows "last_state c m ops (currentStates c1 ! m) = last_state c m (op # ops) (currentStates c ! m)"
  using assms(2,3) channel_wfD(2) [OF assms(1)]
  by (cases op) (auto simp: Let_def drain_def nth_list_update split: if_splits)

text \<open>The static current is that of the module states. At any point of a permitted
  simulation it is the sum, over the modules, of the current of the state the module reported
  last, or of its first registered state if it reported none; a module without states
  draws none.\<close>

lemma static_current_of_last_states:
  assumes "channel_wf c" and "running c"
    and "sim_ok (length (events c)) (length (states c)) (lastReadTime b) ops"
    and "sim_run ops b c = Inr (b', c', rs)"
  shows "getStaticCurrent c' = Inr (\<Sum>m<length (moduleNames c).
      let k = last_state c m ops (currentStates c ! m)
      in if 0 \<le> k then calculateCurrent (fst (states c ! nat k)) (supplyVoltage c') else 0)"
proof -
  have "channel_wf c' \<and> states c' = states c \<and> moduleNames c' = moduleNames c
      \<and> (\<forall>m < length (moduleNames c). currentStates c' ! m = last_state c m ops (currentStates c ! m))"
    using assms
  proof (induction ops arbitrary: b c rs)
    case (Cons op ops)
    obtain b1 c1 r1 where eff: "sim_effect op b c = (b1, c1, r1)" by (cases "sim_effect op b c")
    note st = sim_step_effect(2) [OF Cons.prems(1,2,3) eff]
    obtain r2 where r2: "sim_run ops b1 c1 = Inr (b', c', r2)"
      using Cons.prems(4) unfolding sim_run_step [OF Cons.prems(1,2,3) eff] by (auto simp: bind_r_eq_Inr)
    have "last_state c1 m ops (currentStates c1 ! m) = last_state c m (op # ops) (currentStates c ! m)"
      if "m < length (moduleNames c)" for m
      using last_state_step [OF Cons.prems(1) that eff] last_state_cong [of c1 c] st by metis
    then show ?case
      using Cons.IH [OF _ _ _ r2] st by (metis (no_types, lifting))
  qed simp
  then show ?thesis
    using getStaticCurrent_ok [of c'] by (simp add: state_current_def Let_def cong: if_cong)
qed

lemma static_current_of_last_states_witness:
  "\<exists>ids c b' c' rs. reg_run
      [Reg_state ''CPU'' (ConstantCurrentState [''CPU on'' \<mapsto> 3] ''CPU'' ''on''),
       Reg_state ''CPU'' (ConstantCurrentState [''CPU off'' \<mapsto> 1] ''CPU'' ''off''),
       Reg_state ''RAM'' (ConstantCurrentState [''RAM on'' \<mapsto> 5] ''RAM'' ''on'')]
      (PowerModelChannel_new ''pm'' ''none'' 0) = Inr (ids, c)
    \<and> sim_run [Report_state 1] bridge_init (start_of_simulation c) = Inr (b', c', rs)
    \<and> getStaticCurrent c' = Inr 6"
proof -
  define c where "c = (PowerModelChannel_new ''pm'' ''none'' 0)
      \<lparr>moduleNames := [''CPU'', ''RAM''],
       states := [(ConstantCurrentState [''CPU on'' \<mapsto> 3] ''CPU'' ''on'', 0),
         (ConstantCurrentState [''CPU off'' \<mapsto> 1] ''CPU'' ''off'', 0),
         (ConstantCurrentState [''RAM on'' \<mapsto> 5] ''RAM'' ''on'', 1)],
       currentStates := [0, 2]\<rparr>"
  have reg: "reg_run [Reg_state ''CPU'' (ConstantCurrentState [''CPU on'' \<mapsto> 3] ''CPU'' ''on''),
       Reg_state ''CPU'' (ConstantCurrentState [''CPU off'' \<mapsto> 1] ''CPU'' ''off''),
       Reg_state ''RAM'' (ConstantCurrentState [''RAM on'' \<mapsto> 5] ''RAM'' ''on'')]
      (PowerModelChannel_new ''pm'' ''none'' 0) = Inr ([0, 1, 2], c)"
    by (simp add: registerState_def module_entry_def PowerModelChannel_new_def c_def ConstantCurrentState_def)
  note st = start_wf [OF reg]
  have okb: "sim_ok (length (events (start_of_simulation c))) (length (states (start_of_simulation c)))
      (lastReadTime bridge_init) [Report_state 1]"
    unfolding st by (simp add: c_def)
  obtain b' c' rs where run: "sim_run [Report_state 1] bridge_init (start_of_simulation c) = Inr (b', c', rs)"
    using sim_run_ok [OF st(1,2) okb] by blast
  have "getStaticCurrent c' = Inr 6"
    using static_current_of_last_states [OF st(1,2) okb run]
    by (simp add: start_of_simulation_def c_def lessThan_Suc numeral_2_eq_2 ConstantCurrentState_def config_value_def)
  with reg run show ?thesis by blast
qed

section \<open>Registration\<close>

text \<open>The id \<open>i\<close> stands for the registration \<open>op\<close>.\<close>

definition registered :: "channel \<Rightarrow> reg_op \<Rightarrow> nat \<Rightarrow> bool" where
  "registered c op i =
     (case op of
        Reg_event m e \<Rightarrow> i < length (events c) \<and> fst (events c ! i) = e
          \<and> snd (events c ! i) < length (moduleNames c) \<and> moduleNames c ! snd (events c ! i) = m
      | Reg_state m s \<Rightarrow> i < length (states c) \<and> fst (states c ! i) = s
          \<and> snd (states c ! i) < length (moduleNames c) \<and> moduleNames c ! snd (states c ! i) = m)"

definition extends :: "channel \<Rightarrow> channel \<Rightarrow> bool" where
  "extends c c' \<longleftrightarrow> (\<exists>x. events c' = events c @ x) \<and> (\<exists>x. states c' = states c @ x)
     \<and> (\<exists>x. moduleNames c' = moduleNames c @ x)"

lemma registered_extends: "extends c c' \<Longrightarrow> registered c op i \<Longrightarrow> registered c' op i"
  by (auto simp: extends_def registered_def nth_append split: reg_op.splits)

lemma extends_refl: "extends c c"
  by (simp add: extends_def)

lemma extends_trans: "extends a b \<Longrightarrow> extends b c \<Longrightarrow> extends a c"
  by (auto simp: extends_def)

lemma reg_step_extends: "reg_step op c = Inr (i, c') \<Longrightarrow> extends c c'"
  by (cases op) (auto simp: registerEvent_def registerState_def module_entry_def extends_def
      result_simps Let_def split: option.splits if_splits)

lemma reg_step_registered:
  "channel_wf c \<Longrightarrow> reg_step op c = Inr (i, c') \<Longrightarrow> channel_wf c' \<and> registered c' op i"
proof (cases op)
  case (Reg_event m e)
  assume a: "channel_wf c" "reg_step op c = Inr (i, c')"
  from registerEvent_wf [OF a(1), of m e i c'] a(2) show ?thesis
    unfolding Reg_event by (auto simp: registered_def)
next
  case (Reg_state m s)
  assume a: "channel_wf c" "reg_step op c = Inr (i, c')"
  from registerState_wf [OF a(1), of m s i c'] a(2) show ?thesis
    unfolding Reg_state by (auto simp: registered_def)
qed

lemma reg_run_registered:
  assumes "channel_wf c" and "reg_run ops c = Inr (ids, c')"
  shows "extends c c' \<and> length ids = length ops \<and> (\<forall>k < length ops. registered c' (ops ! k) (ids ! k))"
  using assms
proof (induction ops arbitrary: c ids)
  case (Cons op ops)
  then obtain i c1 "is" where st: "reg_step op c = Inr (i, c1)" "reg_run ops c1 = Inr (is, c')" "ids = i # is"
    by (auto simp: result_simps)
  note r = reg_step_registered [OF Cons.prems(1) st(1)]
  note ih = Cons.IH [OF conjunct1 [OF r] st(2)]
  have "registered c' op i" using r ih registered_extends by blast
  then show ?case
    using ih extends_trans [OF reg_step_extends [OF st(1)]] st(3) by (auto simp: nth_Cons')
qed (simp add: extends_refl)

lemma find_name_registered:
  "distinct ys \<Longrightarrow> k < length ys \<Longrightarrow> find_name (ys ! k) ys i = Some (i + k)"
  by (induction ys arbitrary: i k) (auto simp: nth_Cons' less_Suc_eq_0_disj)

text \<open>Registration. Every registration that succeeds during elaboration gets an id, and
  at the end the id still stands for the event or state that was registered and for its
  module; registering an event or state name a second time with the same module is
  rejected.\<close>

lemma registration_ids:
  assumes "reg_run ops (PowerModelChannel_new name path ts) = Inr (ids, c)"
  shows "length ids = length ops \<and> (\<forall>k < length ops. registered c (ops ! k) (ids ! k))
    \<and> (\<forall>m e e'. Reg_event m e \<in> set ops \<and> event_name e' = event_name e
         \<longrightarrow> registerEvent m e' c = Inl Invalid_argument)
    \<and> (\<forall>m s s'. Reg_state m s \<in> set ops \<and> state_name s' = state_name s
         \<longrightarrow> registerState m s' c = Inl Invalid_argument)"
proof -
  have reg: "length ids = length ops" "\<And>k. k < length ops \<Longrightarrow> registered c (ops ! k) (ids ! k)"
    using reg_run_registered [OF channel_wf_new assms] by simp_all
  have wf: "distinct (moduleNames c)" "\<not> running c"
    using reg_run_wf [OF channel_wf_new _ assms] by (auto simp: PowerModelChannel_new_def channel_wf_def)
  have ids: "\<exists>i. registered c op i" if "op \<in> set ops" for op
    using that reg(2) by (auto simp: in_set_conv_nth)
  have "registerEvent m e' c = Inl Invalid_argument"
    if "Reg_event m e \<in> set ops" "event_name e' = event_name e" for m e e'
  proof -
    have "\<exists>i. registered c (Reg_event m e) i" by (rule ids [OF that(1)])
    then obtain i where i: "i < length (events c)" "fst (events c ! i) = e"
        "snd (events c ! i) < length (moduleNames c)" "moduleNames c ! snd (events c ! i) = m"
      by (auto simp: registered_def)
    then have "module_entry m c = (snd (events c ! i), False, c)"
      using find_name_registered [OF wf(1) i(3), of 0] by (simp add: module_entry_def)
    moreover have "events c ! i \<in> set (events c)" using i(1) by simp
    then have "list_ex (\<lambda>(x, m). event_name x = event_name e' \<and> m = snd (events c ! i)) (events c)"
      unfolding list_ex_iff by (rule bexI [rotated]) (simp add: split_beta that(2) i(2))
    ultimately show ?thesis
      using wf(2) by (simp add: registerEvent_def)
  qed
  moreover have "registerState m s' c = Inl Invalid_argument"
    if "Reg_state m s \<in> set ops" "state_name s' = state_name s" for m s s'
  proof -
    have "\<exists>i. registered c (Reg_state m s) i" by (rule ids [OF that(1)])
    then obtain i where i: "i < length (states c)" "fst (states c ! i) = s"
        "snd (states c ! i) < length (moduleNames c)" "moduleNames c ! snd (states c ! i) = m"
      by (auto simp: registered_def)
    then have "module_entry m c = (snd (states c ! i), False, c)"
      using find_name_registered [OF wf(1) i(3), of 0] by (simp add: module_entry_def)
    moreover have "states c ! i \<in> set (states c)" using i(1) by simp
    then have "list_ex (\<lambda>(x, m). state_name x = state_name s' \<and> m = snd (states c ! i)) (states c)"
      unfolding list_ex_iff by (rule bexI [rotated]) (simp add: split_beta that(2) i(2))
    ultimately show ?thesis
      using wf(2) by (simp add: registerState_def)
  qed
  ultimately show ?thesis using reg by blast
qed

lemma registration_ids_witness:
  "\<exists>c e. reg_run [Reg_event ''CPU'' e] (PowerModelChannel_new ''pm'' ''none'' 0) = Inr ([0], c)
    \<and> registered c (Reg_event ''CPU'' e) 0 \<and> registerEvent ''CPU'' e c = Inl Invalid_argument"
proof -
  define e where "e = ConstantEnergyEvent Map.empty ''CPU'' ''ADD''"
  obtain c where reg: "reg_run [Reg_event ''CPU'' e] (PowerModelChannel_new ''pm'' ''none'' 0) = Inr ([0], c)"
    by (simp add: registerEvent_def module_entry_def PowerModelChannel_new_def)
  from registration_ids [OF reg] reg show ?thesis by (intro exI [of _ c] exI [of _ e]) simp
qed

text \<open>A report with an id that was never handed out stops the simulation instead of
  being counted, with one exception: the bounds check compares with the length of a log row,
  which has one column more than there are events (the time), so the id equal to the
  number of events passes the check and indexes the event counts out of bounds.\<close>

theorem report_unregistered_event:
  assumes "channel_wf c" and "running c" and "k < 0 \<or> int (length (events c)) \<le> k"
  shows "reportEvent k n c =
    Inl (if k = int (length (events c)) then Out_of_bounds else Assertion_failed)"
proof -
  have "event_log c \<noteq> []" "length (last (event_log c)) = length (events c) + 1"
    using assms(1,2) channel_wfD(3) [OF assms(1), of "last (event_log c)"] channel_wfD(4) [OF assms(1)]
    by auto
  then show ?thesis
    using assms(2,3) channel_wfD(1) [OF assms(1)] by (auto simp: reportEvent_def check_event_id_def check_r_def)
qed

theorem report_unregistered_event_witness:
  "reportEvent 0 1 (start_of_simulation (PowerModelChannel_new ''pm'' ''none'' 0)) = Inl Out_of_bounds
   \<and> reportEvent 1 1 (start_of_simulation (PowerModelChannel_new ''pm'' ''none'' 0)) = Inl Assertion_failed"
proof -
  have "reg_run [] (PowerModelChannel_new ''pm'' ''none'' 0) = Inr ([], PowerModelChannel_new ''pm'' ''none'' 0)"
    by simp
  note st = start_wf [OF this]
  have "events (start_of_simulation (PowerModelChannel_new ''pm'' ''none'' 0)) = []"
    by (simp add: st(6)) (simp add: PowerModelChannel_new_def)
  then show ?thesis
    using report_unregistered_event [OF st(1,2), of 0] report_unregistered_event [OF st(1,2), of 1] by simp
qed

end
