(* ===== verification/Clock_System.thy ===== *)
theory Clock_System
  imports Peripheral Clocks
begin

unbundle bit_operations_syntax

text \<open>
  \<open>mcu/msp430fr5xx/ClockSystem.cpp\<close>: the clock system of the MSP430. Its registers are
  protected by a password in CSCTL0; writing them changes the periods of the five clocks.
  Times are picoseconds. The DCO period is computed in floating point; here it is the
  frequency table in units of 10 kHz and the quotient rounded to the picosecond, which is
  what \<open>sc_time\<close> stores. The value of \<open>locked\<close> before the first power on is not initialised
  by the code and is a parameter.
\<close>

section \<open>State\<close>

record clock_system =
  cs_regs :: register_file
  locked :: bool
  mclk :: clock_source
  smclk :: clock_source
  aclk :: clock_source
  vloclk :: clock_source
  modclk :: clock_source

definition OFS_CSCTL0 :: nat where "OFS_CSCTL0 = 0"
definition OFS_CSCTL0_H :: nat where "OFS_CSCTL0_H = 1"
definition OFS_CSCTL1 :: nat where "OFS_CSCTL1 = 2"
definition OFS_CSCTL2 :: nat where "OFS_CSCTL2 = 4"
definition OFS_CSCTL3 :: nat where "OFS_CSCTL3 = 6"
definition OFS_CSCTL4 :: nat where "OFS_CSCTL4 = 8"
definition OFS_CSCTL5 :: nat where "OFS_CSCTL5 = 10"
definition OFS_CSCTL6 :: nat where "OFS_CSCTL6 = 12"
definition CSKEY :: u32 where "CSKEY = 0xa500"

lemmas cs_offsets = OFS_CSCTL0_def OFS_CSCTL0_H_def OFS_CSCTL1_def OFS_CSCTL2_def OFS_CSCTL3_def
  OFS_CSCTL4_def OFS_CSCTL5_def OFS_CSCTL6_def

definition VLO_PERIOD :: sc_time where "VLO_PERIOD = 100000000"
definition MOD_PERIOD :: sc_time where "MOD_PERIOD = 200000"
definition LFMOD_PERIOD :: sc_time where "LFMOD_PERIOD = 25600000"

definition DCO_FREQ_TABLE :: "nat list" where
  "DCO_FREQ_TABLE = [100, 267, 350, 400, 533, 800, 800, 800,
                     100, 533, 700, 800, 1600, 2100, 2400, 2400]"

definition dco_period :: "nat \<Rightarrow> sc_time" where
  "dco_period i = (2 * 100000000 + DCO_FREQ_TABLE ! i) div (2 * DCO_FREQ_TABLE ! i)"

definition ClockSystem_regs :: register_file where
  "ClockSystem_regs =
     (let add = (\<lambda>a v m rf. addRegister rf a v READ_WRITE m) in
      (add OFS_CSCTL6 0x0007 0x00ff (add OFS_CSCTL5 0x00c0 0x00c3 (add OFS_CSCTL4 0xcdc9 0xdddb
      (add OFS_CSCTL3 0x0033 0x0777 (add OFS_CSCTL2 0x0033 0x0777 (add OFS_CSCTL1 0x000c 0x004e
      (add OFS_CSCTL0 0x9600 0xff00 []))))))))"

definition ClockSystem_new :: "sc_time \<Rightarrow> bool \<Rightarrow> clock_system" where
  "ClockSystem_new now locked0 =
     \<lparr>cs_regs = ClockSystem_regs, locked = locked0,
      mclk = ClockSourceChannel_new now 0, smclk = ClockSourceChannel_new now 0,
      aclk = ClockSourceChannel_new now 0, vloclk = ClockSourceChannel_new now 0,
      modclk = ClockSourceChannel_new now 0\<rparr>"

section \<open>Operations\<close>

definition ClockSystem_reset :: "bool \<Rightarrow> clock_system \<Rightarrow> clock_system" where
  "ClockSystem_reset pwrOn cs =
     (if pwrOn then cs\<lparr>cs_regs := rf_reset (cs_regs cs), locked := True\<rparr> else cs)"

definition ClockSystem_b_transport :: "target \<Rightarrow> sc_time \<Rightarrow> clock_system transport" where
  "ClockSystem_b_transport t period cs tp delay =
     bind_r (BusTarget_b_transport t period (cs_regs cs) tp delay) (\<lambda>(rf, tp1, d, fx).
       let addr = unat (address tp1); cs1 = cs\<lparr>cs_regs := rf\<rparr>;
           done = (\<lambda>cs'. Inr (cs', tp1\<lparr>response_ok := True\<rparr>, d, fx)) in
       if command tp1 = TLM_WRITE_COMMAND then
         if addr = OFS_CSCTL0_H \<or> addr = OFS_CSCTL0 then
           bind_r (rf_read rf OFS_CSCTL0) (\<lambda>v.
             if v = CSKEY then done (cs1\<lparr>locked := False\<rparr>) else done cs1)
         else check_r (\<not> locked cs1) Report_fatal (done cs1)
       else done cs1)"

definition getDivider :: "u32 \<Rightarrow> nat \<Rightarrow> nat" where
  "getDivider regval offset =
     (let tmp = unat (drop_bit offset (regval AND push_bit offset 0b111)) in
      if tmp > 5 then 2 ^ 5 else 2 ^ tmp)"

definition aclk_source :: "nat \<Rightarrow> sc_time" where
  "aclk_source select =
     (if select = 0 \<or> select = 1 then VLO_PERIOD else LFMOD_PERIOD)"

text \<open>The switch for SMCLK, which is also the switch for MCLK.\<close>

definition clk_source :: "sc_time \<Rightarrow> nat \<Rightarrow> sc_time result" where
  "clk_source dco select =
     (if select = 0 \<or> select = 1 then Inr VLO_PERIOD
      else if select = 2 then Inr LFMOD_PERIOD
      else if select = 3 then Inr dco
      else if select = 4 then Inr MOD_PERIOD
      else if select = 5 then Inr dco
      else Inl Report_fatal)"

definition set_if_changed :: "sc_time \<Rightarrow> sc_time \<Rightarrow> clock_source \<Rightarrow> clock_source" where
  "set_if_changed now p c = (if getPeriod c \<noteq> p then setPeriod now p c else c)"

definition field3 :: "u32 \<Rightarrow> nat \<Rightarrow> nat" where
  "field3 v ofs = unat (drop_bit ofs (v AND push_bit ofs 0b111))"

definition updateClocks :: "sc_time \<Rightarrow> bool \<Rightarrow> clock_system \<Rightarrow> clock_system result" where
  "updateClocks now pwrOn cs =
     (if pwrOn then
        let rf = cs_regs cs;
            cs1 = cs\<lparr>vloclk := set_if_changed now VLO_PERIOD (vloclk cs),
                    modclk := set_if_changed now MOD_PERIOD (modclk cs)\<rparr> in
        bind_r (rf_read rf OFS_CSCTL1) (\<lambda>ctl1.
        bind_r (rf_read rf OFS_CSCTL2) (\<lambda>ctl2.
        bind_r (rf_read rf OFS_CSCTL3) (\<lambda>ctl3.
          let rangeSelect = unat (drop_bit 6 (ctl1 AND push_bit 6 1));
              freqSelect = unat (drop_bit 1 (ctl1 AND push_bit 1 0b111));
              dco = dco_period (freqSelect + 8 * rangeSelect);
              cs2 = cs1\<lparr>aclk := set_if_changed now
                (aclk_source (field3 ctl2 8) * getDivider ctl3 8) (aclk cs1)\<rparr> in
          bind_r (clk_source dco (field3 ctl2 4)) (\<lambda>s.
          let cs3 = cs2\<lparr>smclk := set_if_changed now (s * getDivider ctl3 4) (smclk cs2)\<rparr> in
          bind_r (clk_source dco (field3 ctl2 0)) (\<lambda>m.
          Inr (cs3\<lparr>mclk := set_if_changed now (m * getDivider ctl3 0) (mclk cs3)\<rparr>))))))
      else
        Inr (cs\<lparr>mclk := setPeriod now 0 (mclk cs), smclk := setPeriod now 0 (smclk cs),
                aclk := setPeriod now 0 (aclk cs), vloclk := setPeriod now 0 (vloclk cs),
                modclk := setPeriod now 0 (modclk cs)\<rparr>))"

section \<open>Lemmas\<close>

text \<open>The registers the constructor builds; only their values change.\<close>

definition cs_shape :: "register_file \<Rightarrow> bool" where
  "cs_shape rf \<longleftrightarrow> rw rf 0 \<and> rw rf 2 \<and> rw rf 4 \<and> rw rf 6 \<and> rw rf 8 \<and> rw rf 10 \<and> rw rf 12
     \<and> map (mask_of rf) [0, 2, 4, 6, 8, 10, 12] = [0xff00, 0x4e, 0x777, 0x777, 0xdddb, 0xc3, 0xff]"

lemma cs_shape_new: "cs_shape ClockSystem_regs"
  by (simp add: cs_shape_def ClockSystem_regs_def addRegister_def mk_register_def rw_def mask_of_def
      reg_at_def cs_offsets Let_def)

lemma cs_shape_write: "rf_write rf a v f = Inr rf' \<Longrightarrow> cs_shape rf \<Longrightarrow> cs_shape rf'"
  by (simp add: cs_shape_def rf_write_same_rw rf_write_same_mask)

lemma m_period_set_if_changed [simp]: "m_period (set_if_changed now p c) = p"
  by (simp add: set_if_changed_def getPeriod_def)

lemma getDivider_field: "getDivider v ofs = 2 ^ min 5 (field3 v ofs)"
  by (simp add: getDivider_def field3_def Let_def min_def)

lemma field3_mod: "field3 v ofs = unat (drop_bit ofs v) mod 8"
proof -
  have "drop_bit ofs (v AND push_bit ofs (mask 3)) = drop_bit ofs v AND mask 3"
    by (rule bit_word_eqI) (auto simp: bit_simps dest: bit_imp_le_length)
  then show ?thesis
    using unat_and_mask [of "drop_bit ofs v" 3] by (simp add: field3_def mask_eq_exp_minus_1)
qed

lemma dco_period_range: "i < 16 \<Longrightarrow> 41667 \<le> dco_period i \<and> dco_period i \<le> 1000000"
proof -
  assume "i < 16"
  moreover have "list_all (\<lambda>i. 41667 \<le> dco_period i \<and> dco_period i \<le> 1000000) [0..<16]"
    by (simp add: upt_rec dco_period_def DCO_FREQ_TABLE_def)
  ultimately show ?thesis by (simp add: list_all_iff)
qed

section \<open>Properties\<close>



text \<open>The clocks after power on. Whatever the values of the registers and the lock were,
  from stopped clocks a power-on reset gives the documented defaults: DCO at 8 MHz, MCLK and SMCLK at 1 MHz, ACLK and
  VLOCLK at 10 kHz, MODCLK at 5 MHz, each with an edge queued, and the registers locked.\<close>

theorem clocks_after_power_on:
  assumes "rf_reset (cs_regs cs) = ClockSystem_regs"
    and "list_all (\<lambda>c. nextEdge c = None \<and> m_period c = 0) [mclk cs, smclk cs, aclk cs, vloclk cs, modclk cs]"
  shows "\<exists>cs'. updateClocks now True (ClockSystem_reset True cs) = Inr cs' \<and> locked cs'
    \<and> map (\<lambda>c. (m_period c, nextEdge c)) [mclk cs', smclk cs', aclk cs', vloclk cs', modclk cs']
      = map (\<lambda>p. (p, Some (now + p))) [1000000, 1000000, 100000000, 100000000, 200000]"
proof -
  have vals: "reg_value ClockSystem_regs 2 = 0x0c" "reg_value ClockSystem_regs 4 = 0x33"
      "reg_value ClockSystem_regs 6 = 0x33"
    by (simp_all add: reg_value_def reg_at_def ClockSystem_regs_def addRegister_def mk_register_def
        cs_offsets Let_def)
  have shape: "rw ClockSystem_regs 2" "rw ClockSystem_regs 4" "rw ClockSystem_regs 6"
    using cs_shape_new by (simp_all add: cs_shape_def)
  show ?thesis
    using assms shape
    by (simp add: updateClocks_def ClockSystem_reset_def vals cs_offsets Let_def getDivider_field
        field3_mod drop_bit_eq_div dco_period_def DCO_FREQ_TABLE_def clk_source_def aclk_source_def
        VLO_PERIOD_def MOD_PERIOD_def set_if_changed_def getPeriod_def nextEdge_setPeriod)
qed

theorem clocks_after_power_on_witness:
  "\<exists>cs'. updateClocks 5 True (ClockSystem_reset True (ClockSystem_new 0 False)) = Inr cs'
     \<and> nextEdge (mclk cs') = Some 1000005"
  using clocks_after_power_on [of "ClockSystem_new 0 False" 5]
  by (auto simp: ClockSystem_new_def ClockSourceChannel_new_def rf_reset_def register_reset_def
      ClockSystem_regs_def addRegister_def mk_register_def Let_def)

section \<open>The password\<close>

fun cs_run :: "target \<Rightarrow> sc_time \<Rightarrow> clock_system \<Rightarrow> payload list \<Rightarrow> clock_system result" where
  "cs_run t period cs [] = Inr cs"
| "cs_run t period cs (p # ps) =
     bind_r (ClockSystem_b_transport t period cs p 0) (\<lambda>(cs', _). cs_run t period cs' ps)"

definition writes_key :: "payload \<Rightarrow> bool" where
  "writes_key p \<longleftrightarrow> command p = TLM_WRITE_COMMAND
     \<and> (unat (address p) = 1 \<and> data p = [0xa5]
        \<or> unat (address p) = 0 \<and> length (data p) = 2 \<and> data p ! 1 = 0xa5)"

lemma key_mask: "(0xff00 :: u32) = push_bit 8 (mask 8)"
  by (simp add: mask_eq_exp_minus_1)

lemma masked_low_byte: "masked 0xff00 old (set_host_byte old 0 b) = old"
  unfolding masked_def set_host_byte_def key_mask by (rule bit_eqI) (auto simp: bit_simps)

lemma masked_high_byte: "host_byte (masked 0xff00 old v) (Suc 0) = host_byte v (Suc 0)"
  unfolding masked_def host_byte_def key_mask by (rule bit_word_eqI) (auto simp: bit_simps)

lemma host_byte_key: "host_byte CSKEY (Suc 0) = 0xa5"
  by (simp add: CSKEY_def host_byte_def drop_bit_eq_div)

text \<open>A write to CSCTL0 other than of the password leaves it different from the password.\<close>

lemma no_key_write:
  assumes "cs_shape rf" and "reg_value rf 0 \<noteq> CSKEY" and "short_access (unat (address p)) (length (data p))"
    and "command p = TLM_WRITE_COMMAND" and "\<not> writes_key p"
    and "unat (address p) = 0 \<or> unat (address p) = 1"
    and "rf_write_buf msp430 rf (unat (address p)) (data p) False = Inr rf'"
  shows "reg_value rf' 0 \<noteq> CSKEY"
proof -
  have rw: "rw rf 0" "mask_of rf 0 = 0xff00" using assms(1) by (simp_all add: cs_shape_def)
  consider (low) b where "unat (address p) = 0" "data p = [b]"
    | (high) b where "unat (address p) = 1" "data p = [b]" "b \<noteq> 0xa5"
    | (word) b c where "unat (address p) = 0" "data p = [b, c]" "c \<noteq> 0xa5"
    using assms(3,4,5,6) by (auto simp: short_access_def writes_key_def length_Suc_conv numeral_2_eq_2)
  then show ?thesis
  proof cases
    case low
    then have "rf' = put_reg rf 0 (set_host_byte (reg_value rf 0) 0 b) False"
      using assms(7) rw(1) by (simp add: rf_write_buf_1 rf_writeByte_rw word_addr_def)
    then show ?thesis using rw assms(2) by (simp add: masked_low_byte)
  next
    case high
    then have "rf' = put_reg rf 0 (set_host_byte (reg_value rf 0) 1 b) False"
      using assms(7) rw(1) by (simp add: rf_write_buf_1 rf_writeByte_rw word_addr_def)
    then have "host_byte (reg_value rf' 0) (Suc 0) = b"
      using rw by (simp add: masked_high_byte)
    then show ?thesis using high(3) host_byte_key by metis
  next
    case word
    then have "rf' = put_reg rf 0 (host_load32 b c 0 0) False"
      using assms(7) rw(1) by (simp add: rf_write_buf_2)
    then have "host_byte (reg_value rf' 0) (Suc 0) = c"
      using rw by (simp add: masked_high_byte host_byte_load)
    then show ?thesis using word(3) host_byte_key by metis
  qed
qed

definition password_inv :: "clock_system \<Rightarrow> bool" where
  "password_inv cs \<longleftrightarrow> cs_shape (cs_regs cs) \<and> locked cs \<and> reg_value (cs_regs cs) 0 \<noteq> CSKEY"

lemma password_step:
  assumes "password_inv cs" and "short_access (unat (address p)) (length (data p))" and "\<not> writes_key p"
    and "ClockSystem_b_transport msp430 period cs p d = Inr (cs', p', d', fx)"
  shows "password_inv cs' \<and> (\<forall>a. a \<noteq> 0 \<longrightarrow> reg_value (cs_regs cs') a = reg_value (cs_regs cs) a)"
proof -
  obtain rf tp1 d1 fx1 where bt: "BusTarget_b_transport msp430 period (cs_regs cs) p d = Inr (rf, tp1, d1, fx1)"
    using assms(4) by (auto simp: ClockSystem_b_transport_def bind_r_eq_Inr)
  note same = BusTarget_address [OF bt]
  show ?thesis
  proof (cases "command p = TLM_WRITE_COMMAND")
    case False
    then have "rf = cs_regs cs" using BusTarget_read [OF _ bt] same by (cases "command p") auto
    then show ?thesis
      using assms(1,4) bt same False by (auto simp: ClockSystem_b_transport_def password_inv_def Let_def)
  next
    case True
    note wr = BusTarget_write [OF True bt]
    have a: "unat (address p) = 0 \<or> unat (address p) = 1"
      using assms(1,4) bt same True
      by (auto simp: ClockSystem_b_transport_def password_inv_def Let_def cs_offsets check_r_def split: if_splits)
    have key: "reg_value rf 0 \<noteq> CSKEY"
      using no_key_write [OF _ _ assms(2) True assms(3) a wr] assms(1) by (simp add: password_inv_def)
    obtain v where "rf_write (cs_regs cs) 0 v False = Inr rf"
      using short_write_one_register [OF _ assms(2) wr] a by (auto simp: word_addr_def)
    then have rf: "cs_shape rf" "\<And>a. a \<noteq> 0 \<Longrightarrow> reg_value rf a = reg_value (cs_regs cs) a"
      using assms(1) by (auto simp: password_inv_def cs_shape_write rf_write_same_value)
    moreover have "cs' = cs\<lparr>cs_regs := rf\<rparr>"
      using assms(4) bt same True a key rf(1)
      by (auto simp: ClockSystem_b_transport_def Let_def cs_offsets cs_shape_def)
    ultimately show ?thesis using assms(1) key by (simp add: password_inv_def)
  qed
qed

text \<open>C14: the password protects the clock configuration. From the power-on reset, as long as
  nobody writes 0xa5 to the high byte of CSCTL0, no sequence of bus accesses that the
  simulation survives unlocks the registers or changes CSCTL1 to CSCTL6: a write to one of
  them stops the simulation instead.\<close>

theorem clock_registers_need_password:
  assumes "rf_reset (cs_regs cs) = ClockSystem_regs"
    and "\<forall>p \<in> set ps. short_access (unat (address p)) (length (data p)) \<and> \<not> writes_key p"
    and "cs_run msp430 period (ClockSystem_reset True cs) ps = Inr cs'"
  shows "locked cs' \<and> (\<forall>a. a \<noteq> 0 \<longrightarrow> reg_value (cs_regs cs') a = reg_value ClockSystem_regs a)"
proof -
  have "password_inv cs' \<and> (\<forall>a. a \<noteq> 0 \<longrightarrow> reg_value (cs_regs cs') a = reg_value (cs_regs c) a)"
    if "password_inv c" "\<forall>p \<in> set ps. short_access (unat (address p)) (length (data p)) \<and> \<not> writes_key p"
      "cs_run msp430 period c ps = Inr cs'" for c ps
    using that
  proof (induction ps arbitrary: c)
    case (Cons p ps)
    obtain c1 p1 d1 fx1 where st: "ClockSystem_b_transport msp430 period c p 0 = Inr (c1, p1, d1, fx1)"
        "cs_run msp430 period c1 ps = Inr cs'"
      using Cons.prems(3) by (auto simp: bind_r_eq_Inr)
    from password_step [OF Cons.prems(1) _ _ st(1)] Cons.prems(2) Cons.IH [OF _ _ st(2)] show ?case by simp
  qed simp
  moreover have "reg_value ClockSystem_regs 0 = 0x9600"
    by (simp add: reg_value_def reg_at_def ClockSystem_regs_def addRegister_def mk_register_def cs_offsets Let_def)
  then have "password_inv (ClockSystem_reset True cs)"
    using assms(1) cs_shape_new by (simp add: password_inv_def ClockSystem_reset_def CSKEY_def)
  ultimately show ?thesis
    using assms by (fastforce simp: password_inv_def ClockSystem_reset_def)
qed

theorem clock_registers_need_password_witness:
  "\<exists>cs'. cs_run msp430 125 (ClockSystem_reset True (ClockSystem_new 0 False))
      [\<lparr>command = TLM_WRITE_COMMAND, address = 1, data = [0x12], response_ok = False\<rparr>] = Inr cs'
    \<and> locked cs' \<and> reg_value (cs_regs cs') 4 = 0x33"
proof -
  let ?p = "\<lparr>command = TLM_WRITE_COMMAND, address = 1, data = [0x12], response_ok = False\<rparr> :: payload"
  have reset: "rf_reset (cs_regs (ClockSystem_new 0 False)) = ClockSystem_regs"
    by (simp add: ClockSystem_new_def rf_reset_def register_reset_def ClockSystem_regs_def addRegister_def
        mk_register_def Let_def)
  have rw: "rw ClockSystem_regs 0" "mask_of ClockSystem_regs 0 = 0xff00"
    using cs_shape_new by (simp_all add: cs_shape_def)
  have v: "reg_value ClockSystem_regs 0 = 0x9600"
    by (simp add: reg_value_def reg_at_def ClockSystem_regs_def addRegister_def mk_register_def cs_offsets Let_def)
  obtain cs' where run: "cs_run msp430 125 (ClockSystem_reset True (ClockSystem_new 0 False)) [?p] = Inr cs'"
    using rw v by (auto simp: ClockSystem_b_transport_def ClockSystem_reset_def reset BusTarget_b_transport_def
        rf_write_buf_1 rf_writeByte_rw word_addr_def cs_offsets Let_def masked_def set_host_byte_def CSKEY_def)
  have "short_access (unat (address ?p)) (length (data ?p)) \<and> \<not> writes_key ?p"
    by (simp add: short_access_def writes_key_def)
  with clock_registers_need_password [OF reset _ run] run show ?thesis
    by (simp add: reg_value_def reg_at_def ClockSystem_regs_def addRegister_def mk_register_def cs_offsets Let_def)
qed

end
