(* ===== verification/Timer_A.thy ===== *)
theory Timer_A
  imports Peripheral Clocks
begin

unbundle bit_operations_syntax

text \<open>
  \<open>mcu/msp430fr5xx/TimerA.cpp\<close>: the timer. \<open>process\<close> runs on every edge of the timer clock
  (and of the acknowledge line); what it waits for next is part of its result.
  Writes of the signals \<open>irq\<close> and \<open>dmaTrigger\<close> are state, reported energy events are
  counted. The initial counting direction is not initialised by the code and is a
  parameter.
\<close>

section \<open>State and operations\<close>

record timer_a =
  ta_regs :: register_file
  direction :: bool
  ta_irq :: bool
  dmaTrigger :: bool
  triggered :: nat
  clkMuxSelect :: int
  clkDivAmount :: int

definition OFS_TA1CTL :: nat where "OFS_TA1CTL = 0"
definition OFS_TA1CCTL0 :: nat where "OFS_TA1CCTL0 = 2"
definition OFS_TA1CCTL1 :: nat where "OFS_TA1CCTL1 = 4"
definition OFS_TA1CCTL2 :: nat where "OFS_TA1CCTL2 = 6"
definition OFS_TA1R :: nat where "OFS_TA1R = 0x10"
definition OFS_TA1CCR0 :: nat where "OFS_TA1CCR0 = 0x12"
definition OFS_TA1CCR1 :: nat where "OFS_TA1CCR1 = 0x14"
definition OFS_TA1CCR2 :: nat where "OFS_TA1CCR2 = 0x16"
definition OFS_TA1EX0 :: nat where "OFS_TA1EX0 = 0x20"
definition OFS_TA1IV :: nat where "OFS_TA1IV = 0x2e"

lemmas ta_offsets = OFS_TA1CTL_def OFS_TA1CCTL0_def OFS_TA1CCTL1_def OFS_TA1CCTL2_def OFS_TA1R_def
  OFS_TA1CCR0_def OFS_TA1CCR1_def OFS_TA1CCR2_def OFS_TA1EX0_def OFS_TA1IV_def

abbreviation TAIFG :: u32 where "TAIFG \<equiv> 1"
abbreviation TAIE :: u32 where "TAIE \<equiv> 2"
abbreviation TACLR :: u32 where "TACLR \<equiv> 4"
abbreviation CCIE :: u32 where "CCIE \<equiv> 0x10"
abbreviation TASSEL :: u32 where "TASSEL \<equiv> 0x300"
abbreviation TAIDEX :: u32 where "TAIDEX \<equiv> 7"

definition TimerA_regs :: register_file where
  "TimerA_regs =
     (let add = (\<lambda>a am rf. addRegister rf a 0 am (- 1)) in
      add OFS_TA1EX0 READ_WRITE (add OFS_TA1IV READ (add OFS_TA1CCR2 READ_WRITE (add OFS_TA1CCR1 READ_WRITE
      (add OFS_TA1CCR0 READ_WRITE (add OFS_TA1R READ_WRITE (add OFS_TA1CCTL2 READ_WRITE
      (add OFS_TA1CCTL1 READ_WRITE (add OFS_TA1CCTL0 READ_WRITE (add OFS_TA1CTL READ_WRITE []))))))))))"

definition TimerA_new :: "bool \<Rightarrow> timer_a" where
  "TimerA_new dir =
     \<lparr>ta_regs = TimerA_regs, direction = dir, ta_irq = False, dmaTrigger = False, triggered = 0,
      clkMuxSelect = 0, clkDivAmount = 1\<rparr>"

definition TimerA_reset :: "timer_a \<Rightarrow> timer_a" where
  "TimerA_reset s = s\<lparr>ta_regs := rf_reset (ta_regs s)\<rparr>"

definition ta_mode :: "u32 \<Rightarrow> u32" where
  "ta_mode ctl = drop_bit 4 (ctl AND push_bit 4 0b11)"

text \<open>The switch over the mode: the new state and whether the timer is stopped.\<close>

definition timer_count :: "target \<Rightarrow> timer_a \<Rightarrow> (timer_a \<times> bool) result" where
  "timer_count t s =
     (let rf = ta_regs s in
      bind_r (rf_read rf OFS_TA1R) (\<lambda>crntCnt.
      bind_r (rf_read rf OFS_TA1CTL) (\<lambda>ctl.
      let modeControl = ta_mode ctl in
      if modeControl = 0 then Inr (s, True)
      else bind_r (rf_read rf OFS_TA1CCR0) (\<lambda>ccr0.
      if modeControl = 1 then
        if crntCnt < ccr0 then
          bind_r (rf_write rf OFS_TA1R (crntCnt + 1) False) (\<lambda>rf1. Inr (s\<lparr>ta_regs := rf1\<rparr>, False))
        else
          bind_r (rf_setBit t rf OFS_TA1CTL 0 False) (\<lambda>rf1.
          bind_r (rf_write rf1 OFS_TA1R 0 False) (\<lambda>rf2.
            Inr (s\<lparr>ta_regs := rf2, triggered := triggered s + 1\<rparr>, False)))
      else if modeControl = 2 then
        if crntCnt < 0xffff then
          bind_r (rf_write rf OFS_TA1R (crntCnt + 1) False) (\<lambda>rf1. Inr (s\<lparr>ta_regs := rf1\<rparr>, False))
        else
          bind_r (rf_setBitMask rf OFS_TA1CTL TAIFG False) (\<lambda>rf1.
          bind_r (rf_write rf1 OFS_TA1R 0 False) (\<lambda>rf2.
            Inr (s\<lparr>ta_regs := rf2, triggered := triggered s + 1\<rparr>, False)))
      else
        bind_r
          (if direction s \<and> crntCnt < ccr0 then
             bind_r (rf_write rf OFS_TA1R (crntCnt + 1) False) (\<lambda>rf1.
             bind_r (rf_read rf1 OFS_TA1CCR0) (\<lambda>ccr0'.
               Inr (crntCnt + 1, s\<lparr>ta_regs := rf1, direction := \<not> (crntCnt + 1 < ccr0')\<rparr>)))
           else if crntCnt > 0 \<and> \<not> direction s then
             bind_r (rf_write rf OFS_TA1R (crntCnt - 1) False) (\<lambda>rf1.
               Inr (crntCnt - 1, s\<lparr>ta_regs := rf1, direction := (crntCnt - 1 = 0)\<rparr>))
           else Inr (crntCnt, s))
          (\<lambda>(cnt, s1).
             if cnt = 0 then
               bind_r (rf_setBitMask (ta_regs s1) OFS_TA1CTL TAIFG False) (\<lambda>rf2.
                 Inr (s1\<lparr>ta_regs := rf2, triggered := triggered s1 + 1\<rparr>, False))
             else Inr (s1, False))))))"

definition timer_clear :: "timer_a \<Rightarrow> timer_a result" where
  "timer_clear s =
     bind_r (rf_read (ta_regs s) OFS_TA1CTL) (\<lambda>ctl.
       if ctl AND TACLR \<noteq> 0 then
         bind_r (rf_write (ta_regs s) OFS_TA1CTL 0 False) (\<lambda>rf.
           Inr (s\<lparr>ta_regs := rf, direction := True\<rparr>))
       else Inr s)"

definition timer_signals :: "bool \<Rightarrow> timer_a \<Rightarrow> timer_a result" where
  "timer_signals ira s =
     bind_r (rf_read (ta_regs s) OFS_TA1CTL) (\<lambda>ctl.
     bind_r (rf_read (ta_regs s) OFS_TA1CCTL0) (\<lambda>cctl0.
     let irqEnabled = (ctl AND TAIE \<noteq> 0 \<or> cctl0 AND CCIE \<noteq> 0) in
     bind_r
       (if ira then
          bind_r (rf_clearBitMask (ta_regs s) OFS_TA1CTL TAIFG False) (\<lambda>rf.
            Inr (s\<lparr>ta_regs := rf, ta_irq := False\<rparr>))
        else if irqEnabled then Inr (s\<lparr>ta_irq := (ctl AND TAIFG \<noteq> 0)\<rparr>)
        else Inr s)
       (\<lambda>s1. bind_r (rf_read (ta_regs s1) OFS_TA1CTL) (\<lambda>ctl1.
          if \<not> irqEnabled \<and> ctl1 AND TAIFG \<noteq> 0 then
            bind_r (rf_clearBitMask (ta_regs s1) OFS_TA1CTL TAIFG False) (\<lambda>rf.
              Inr (s1\<lparr>ta_regs := rf, dmaTrigger := True\<rparr>))
          else Inr (s1\<lparr>dmaTrigger := False\<rparr>)))))"

datatype ta_wait = Wait_write | Wait_clock_or_ira | Wait_static

definition timer_process :: "target \<Rightarrow> bool \<Rightarrow> bool \<Rightarrow> timer_a \<Rightarrow> (timer_a \<times> ta_wait) result" where
  "timer_process t pwrOn ira s =
     (if pwrOn then
        bind_r (timer_count t s) (\<lambda>(s1, stopped).
        bind_r (timer_clear s1) (\<lambda>s2.
        bind_r (timer_signals ira s2) (\<lambda>s3.
          Inr (s3, if stopped then Wait_write else Wait_clock_or_ira))))
      else Inr (s, Wait_static))"

definition ACLK_SEL :: int where "ACLK_SEL = 0"
definition SMCLK_SEL :: int where "SMCLK_SEL = 1"

text \<open>The divider field is masked with \<open>0x11 << 6\<close> in the code, and so it is here.\<close>

definition updateClkSource :: "timer_a \<Rightarrow> timer_a result" where
  "updateClkSource s =
     bind_r (rf_read (ta_regs s) OFS_TA1CTL) (\<lambda>ctl.
     bind_r (rf_read (ta_regs s) OFS_TA1EX0) (\<lambda>ex0.
       let tassel = ctl AND TASSEL;
           sel = (if tassel = 0x100 then ACLK_SEL else SMCLK_SEL);
           amount = 2 ^ unat (drop_bit 6 (ctl AND push_bit 6 0x11)) * (1 + unat (ex0 AND TAIDEX))
       in Inr (s\<lparr>clkMuxSelect := sel, clkDivAmount := int amount\<rparr>)))"

text \<open>The last component of the result: the delay after which \<open>sourceChangeEvent\<close> fires.\<close>

definition TimerA_b_transport ::
  "target \<Rightarrow> sc_time \<Rightarrow> timer_a \<Rightarrow> payload \<Rightarrow> sc_time \<Rightarrow>
   (timer_a \<times> payload \<times> sc_time \<times> effect list \<times> sc_time option) result" where
  "TimerA_b_transport t period s tp delay =
     bind_r (BusTarget_b_transport t period (ta_regs s) tp delay) (\<lambda>(rf, tp1, d, fx).
       let addr = ucast (address tp1) :: u16 in
       Inr (s\<lparr>ta_regs := rf\<rparr>, tp1, d, fx,
            if command tp1 = TLM_WRITE_COMMAND \<and> unat addr = OFS_TA1CTL then Some d else None))"

fun timer_run :: "target \<Rightarrow> nat \<Rightarrow> timer_a \<Rightarrow> timer_a result" where
  "timer_run t 0 s = Inr s"
| "timer_run t (Suc n) s = bind_r (timer_process t True False s) (\<lambda>(s1, _). timer_run t n s1)"

section \<open>Lemmas\<close>

definition ta_shape :: "register_file \<Rightarrow> bool" where
  "ta_shape rf \<longleftrightarrow> rw rf 0 \<and> rw rf 2 \<and> rw rf 0x10 \<and> rw rf 0x12 \<and> rw rf 0x20
     \<and> map (mask_of rf) [0, 2, 0x10, 0x12, 0x20] = replicate 5 (- 1)"

lemma ta_shape_new: "ta_shape TimerA_regs"
  by (simp add: ta_shape_def TimerA_regs_def addRegister_def mk_register_def rw_def mask_of_def
      reg_at_def ta_offsets Let_def numeral_eq_Suc)

lemma ta_shape_put [simp]: "ta_shape (put_reg rf a v f) = ta_shape rf"
  by (simp add: ta_shape_def)

lemma ta_shapeD:
  assumes "ta_shape rf"
  shows "rw rf 0" "rw rf 2" "rw rf 0x10" "rw rf 0x12" "rw rf 0x20"
    "mask_of rf 0 = - 1" "mask_of rf 2 = - 1" "mask_of rf 0x10 = - 1" "mask_of rf 0x12 = - 1"
  using assms by (simp_all add: ta_shape_def numeral_eq_Suc)

lemma and_not_disjoint: "k AND m = 0 \<Longrightarrow> (v AND NOT k) AND m = v AND (m :: u32)"
  by (auto simp: bit_eq_iff bit_simps)

lemma ta_bits [simp]:
  "ta_mode (v OR 1) = ta_mode v" "ta_mode (v AND NOT 1) = ta_mode v"
  "(v OR 1) AND 2 = v AND (2 :: u32)" "(v OR 1) AND 4 = v AND (4 :: u32)"
  "(v OR 1) AND 1 = (1 :: u32)" "(v AND NOT 1) AND 1 = (0 :: u32)"
  "(v AND NOT 1) AND 2 = v AND (2 :: u32)" "(v AND NOT 1) AND 4 = v AND (4 :: u32)"
  by (simp_all add: ta_mode_def or_and_disjoint and_not_disjoint and.assoc)

lemma clear_flag_bits [simp]:
  "ta_mode (v AND - 2) = ta_mode v" "(v AND - 2) AND 1 = (0 :: u32)"
  "(v AND - 2) AND 2 = v AND (2 :: u32)" "(v AND - 2) AND 4 = v AND (4 :: u32)"
  using ta_bits(2,6-8) [of v] by simp_all

lemma clear_flag:
  "v AND 1 = 0 \<Longrightarrow> v AND - 2 = (v :: u32)" "v AND 1 = 0 \<Longrightarrow> (v OR 1) AND - 2 = (v :: u32)"
proof -
  assume "v AND 1 = 0"
  then have "v AND NOT 1 = v" "(v OR 1) AND NOT 1 = v" by (auto simp: bit_eq_iff bit_simps)
  then show "v AND - 2 = v" "(v OR 1) AND - 2 = v" by simp_all
qed

section \<open>Counting\<close>

definition irq_enabled :: "register_file \<Rightarrow> bool" where
  "irq_enabled rf \<longleftrightarrow> reg_value rf 0 AND TAIE \<noteq> 0 \<or> reg_value rf 2 AND CCIE \<noteq> 0"

text \<open>The last count of the up and the continuous mode.\<close>

definition ta_limit :: "register_file \<Rightarrow> u32" where
  "ta_limit rf = (if ta_mode (reg_value rf 0) = 1 then reg_value rf 0x12 else 0xffff)"

text \<open>One run of \<open>process\<close> in these modes.\<close>

lemma count_step:
  assumes "ta_shape (ta_regs s)" and "ta_mode (reg_value (ta_regs s) 0) \<in> {1, 2}"
    and "reg_value (ta_regs s) 0 AND TACLR = 0"
  defines "wrap \<equiv> \<not> reg_value (ta_regs s) 0x10 < ta_limit (ta_regs s)"
    and "flags \<equiv> reg_value (ta_regs s) 0 OR (if \<not> reg_value (ta_regs s) 0x10 < ta_limit (ta_regs s) then 1 else 0)"
    and "en \<equiv> irq_enabled (ta_regs s)"
  shows "\<exists>s'. timer_process msp430 True False s = Inr (s', Wait_clock_or_ira) \<and> ta_shape (ta_regs s')
    \<and> reg_value (ta_regs s') 0x10 = (if wrap then 0 else reg_value (ta_regs s) 0x10 + 1)
    \<and> reg_value (ta_regs s') 0x12 = reg_value (ta_regs s) 0x12
    \<and> reg_value (ta_regs s') 2 = reg_value (ta_regs s) 2
    \<and> reg_value (ta_regs s') 0 = (if en then flags else flags AND NOT 1)
    \<and> triggered s' = triggered s + (if wrap then 1 else 0)
    \<and> ta_irq s' = (if en then flags AND 1 \<noteq> 0 else ta_irq s)
    \<and> dmaTrigger s' = (\<not> en \<and> flags AND 1 \<noteq> 0)"
proof -
  note rf = ta_shapeD [OF assms(1)]
  note defs = timer_process_def timer_count_def timer_clear_def timer_signals_def ta_offsets
    Let_def msp430_def
  consider "ta_mode (reg_value (ta_regs s) 0) = 1" | "ta_mode (reg_value (ta_regs s) 0) = 2"
    using assms(2) by auto
  then show ?thesis
    using assms(1,3) rf unfolding wrap_def flags_def en_def irq_enabled_def ta_limit_def
    by cases (cases "reg_value (ta_regs s) 0 AND TAIFG = 0"; simp add: defs clear_flag)+
qed

lemma timer_run_Suc:
  "timer_run t (Suc k) s = bind_r (timer_run t k s) (\<lambda>s1. bind_r (timer_process t True False s1) (\<lambda>(s2, _). Inr s2))"
proof (induction k arbitrary: s)
  case (Suc k)
  have "timer_run t (Suc (Suc k)) s = bind_r (timer_process t True False s) (\<lambda>(s1, _). timer_run t (Suc k) s1)"
    by simp
  also have "\<dots> = bind_r (bind_r (timer_process t True False s) (\<lambda>(s1, _). timer_run t k s1))
      (\<lambda>s1. bind_r (timer_process t True False s1) (\<lambda>(s2, _). Inr s2))"
    by (cases "timer_process t True False s") (auto simp: Suc.IH simp del: timer_run.simps)
  finally show ?case by simp
qed simp

lemma unat_succ: "c < (m :: u32) \<Longrightarrow> unat (c + 1) = unat c + 1"
  using unat_lt_2p [of m] by (simp add: word_less_nat_alt unat_word_ariths(1) mod_less)

text \<open>C16: the period of the timer. In the up mode with \<open>CCR0 = n\<close>, and in the continuous mode with
  \<open>n = 0xffff\<close>, starting from zero: after any number \<open>k\<close> of timer clock edges the count is
  \<open>k mod (n + 1)\<close> and the timer has triggered \<open>k div (n + 1)\<close> times. With interrupts enabled
  the request line is raised by the first overflow and stays raised until it is
  acknowledged; with interrupts disabled the DMA trigger is high exactly after the
  overflow edges.\<close>

theorem timer_period:
  assumes "ta_shape (ta_regs s)" and "ta_mode (reg_value (ta_regs s) 0) \<in> {1, 2}"
    and "reg_value (ta_regs s) 0 AND TACLR = 0" and "reg_value (ta_regs s) 0 AND TAIFG = 0"
    and "reg_value (ta_regs s) 0x10 = 0"
  defines "n \<equiv> unat (ta_limit (ta_regs s))"
  shows "\<exists>s'. timer_run msp430 k s = Inr s'
    \<and> unat (reg_value (ta_regs s') 0x10) = k mod (n + 1)
    \<and> triggered s' = triggered s + k div (n + 1)
    \<and> (0 < k \<longrightarrow>
         (if irq_enabled (ta_regs s) then ta_irq s' = (n < k) \<and> \<not> dmaTrigger s'
          else ta_irq s' = ta_irq s \<and> dmaTrigger s' = (k mod (n + 1) = 0)))"
proof -
  let ?ctl = "reg_value (ta_regs s) 0" and ?en = "irq_enabled (ta_regs s)"
  have "\<exists>s'. timer_run msp430 k s = Inr s' \<and> ta_shape (ta_regs s')
    \<and> unat (reg_value (ta_regs s') 0x10) = k mod (n + 1)
    \<and> reg_value (ta_regs s') 0x12 = reg_value (ta_regs s) 0x12
    \<and> reg_value (ta_regs s') 2 = reg_value (ta_regs s) 2
    \<and> reg_value (ta_regs s') 0 = (if ?en \<and> n < k then ?ctl OR 1 else ?ctl)
    \<and> triggered s' = triggered s + k div (n + 1)
    \<and> (?en \<longrightarrow> 0 < k \<longrightarrow> ta_irq s' = (n < k) \<and> \<not> dmaTrigger s')
    \<and> (\<not> ?en \<longrightarrow> ta_irq s' = ta_irq s \<and> (0 < k \<longrightarrow> dmaTrigger s' = (k mod (n + 1) = 0)))"
  proof (induction k)
    case 0
    then show ?case using assms by simp
  next
    case (Suc k)
    then obtain s1 where s1: "timer_run msp430 k s = Inr s1" "ta_shape (ta_regs s1)"
      "unat (reg_value (ta_regs s1) 0x10) = k mod (n + 1)"
      "reg_value (ta_regs s1) 0x12 = reg_value (ta_regs s) 0x12"
      "reg_value (ta_regs s1) 2 = reg_value (ta_regs s) 2"
      "reg_value (ta_regs s1) 0 = (if ?en \<and> n < k then ?ctl OR 1 else ?ctl)"
      "triggered s1 = triggered s + k div (n + 1)" "\<not> ?en \<longrightarrow> ta_irq s1 = ta_irq s" by blast
    have mode: "ta_mode (reg_value (ta_regs s1) 0) \<in> {1, 2}" "reg_value (ta_regs s1) 0 AND TACLR = 0"
      "ta_limit (ta_regs s1) = ta_limit (ta_regs s)" "irq_enabled (ta_regs s1) = ?en"
      using assms(2,3) s1 by (auto simp: ta_limit_def irq_enabled_def)
    have wrap: "\<not> reg_value (ta_regs s1) 0x10 < ta_limit (ta_regs s1) \<longleftrightarrow> Suc (k mod (n + 1)) = n + 1"
    proof -
      have "k mod (n + 1) < n + 1" by simp
      then show ?thesis
        unfolding word_less_nat_alt s1(3) mode(3) n_def [symmetric] by linarith
    qed
    obtain s2 where s2: "timer_process msp430 True False s1 = Inr (s2, Wait_clock_or_ira)" "ta_shape (ta_regs s2)"
      "reg_value (ta_regs s2) 0x10 = (if Suc (k mod (n + 1)) = n + 1 then 0 else reg_value (ta_regs s1) 0x10 + 1)"
      "reg_value (ta_regs s2) 0x12 = reg_value (ta_regs s1) 0x12"
      "reg_value (ta_regs s2) 2 = reg_value (ta_regs s1) 2"
      "reg_value (ta_regs s2) 0 = (let f = reg_value (ta_regs s1) 0 OR (if Suc (k mod (n + 1)) = n + 1 then 1 else 0)
          in if ?en then f else f AND NOT 1)"
      "triggered s2 = triggered s1 + (if Suc (k mod (n + 1)) = n + 1 then 1 else 0)"
      "ta_irq s2 = (let f = reg_value (ta_regs s1) 0 OR (if Suc (k mod (n + 1)) = n + 1 then 1 else 0)
          in if ?en then f AND 1 \<noteq> 0 else ta_irq s1)"
      "dmaTrigger s2 = (let f = reg_value (ta_regs s1) 0 OR (if Suc (k mod (n + 1)) = n + 1 then 1 else 0)
          in \<not> ?en \<and> f AND 1 \<noteq> 0)"
      using count_step [OF s1(2) mode(1,2)] unfolding wrap mode(4) Let_def by blast
    have run: "timer_run msp430 (Suc k) s = Inr s2"
      using s1(1) s2(1) unfolding timer_run_Suc by simp
    have count: "unat (reg_value (ta_regs s2) 0x10) = Suc k mod (n + 1)"
    proof (cases "Suc (k mod (n + 1)) = n + 1")
      case False
      then have "reg_value (ta_regs s1) 0x10 < ta_limit (ta_regs s1)" using wrap by simp
      then show ?thesis
        using False s2(3) s1(3) by (simp add: unat_succ mod_Suc)
    qed (simp add: s2(3) mod_Suc)
    have trig: "triggered s2 = triggered s + Suc k div (n + 1)"
      using s2(7) s1(7) by (simp add: div_Suc mod_Suc)
    have flag: "n < Suc k \<longleftrightarrow> n < k \<or> Suc (k mod (n + 1)) = n + 1"
      by (cases "k < n + 1") auto
    have ctl: "reg_value (ta_regs s2) 0 = (if ?en \<and> n < Suc k then ?ctl OR 1 else ?ctl)"
      unfolding s2(6) s1(6) flag Let_def using assms(4)
      by (cases "?en"; cases "Suc (k mod (n + 1)) = n + 1"; cases "n < k") (simp_all add: clear_flag)
    have irq: "ta_irq s2 = (n < Suc k) \<and> \<not> dmaTrigger s2" if "?en"
      unfolding s2(8,9) s1(6) flag Let_def using assms(4) that
      by (cases "Suc (k mod (n + 1)) = n + 1"; cases "n < k") simp_all
    have zero: "Suc k mod (n + 1) = 0 \<longleftrightarrow> Suc (k mod (n + 1)) = n + 1"
      unfolding mod_Suc by simp
    have dma: "ta_irq s2 = ta_irq s \<and> dmaTrigger s2 = (Suc k mod (n + 1) = 0)" if dis: "\<not> ?en"
    proof -
      have "(?ctl OR (if w then 1 else 0)) AND TAIFG \<noteq> 0 \<longleftrightarrow> w" for w
        using assms(4) by (cases w) simp_all
      note flag_or = this
      have "ta_irq s2 = ta_irq s1" using s2(8) dis unfolding Let_def by (metis (full_types))
      moreover have "ta_irq s1 = ta_irq s" using s1(8) dis by (rule mp)
      moreover have e: "reg_value (ta_regs s1) 0 = ?ctl" using s1(6) dis by metis
      have "dmaTrigger s2 = (Suc (k mod (n + 1)) = n + 1)"
        unfolding s2(9) Let_def e flag_or using dis by blast
      ultimately show ?thesis unfolding zero by metis
    qed
    have irq': "?en \<longrightarrow> 0 < Suc k \<longrightarrow> ta_irq s2 = (n < Suc k) \<and> \<not> dmaTrigger s2"
      using irq by fast
    have dma': "\<not> ?en \<longrightarrow> ta_irq s2 = ta_irq s \<and> (0 < Suc k \<longrightarrow> dmaTrigger s2 = (Suc k mod (n + 1) = 0))"
      by (intro impI) (drule dma, elim conjE, intro conjI impI)
    show ?case
      by (intro exI [of _ s2] conjI run s2(2) count s2(4) [unfolded s1(4)] s2(5) [unfolded s1(5)]
          ctl trig irq' dma')
  qed
  then obtain s' where run: "timer_run msp430 k s = Inr s'"
    and count: "unat (reg_value (ta_regs s') 0x10) = k mod (n + 1)" "triggered s' = triggered s + k div (n + 1)"
    and en: "?en \<longrightarrow> 0 < k \<longrightarrow> ta_irq s' = (n < k) \<and> \<not> dmaTrigger s'"
    and dis: "\<not> ?en \<longrightarrow> ta_irq s' = ta_irq s \<and> (0 < k \<longrightarrow> dmaTrigger s' = (k mod (n + 1) = 0))"
    by (elim exE conjE) (rule that)
  have "if ?en then ta_irq s' = (n < k) \<and> \<not> dmaTrigger s'
      else ta_irq s' = ta_irq s \<and> dmaTrigger s' = (k mod (n + 1) = 0)" if "0 < k"
  proof (cases "?en")
    case True
    from en [rule_format, OF True that] show ?thesis unfolding if_P [OF True] .
  next
    case False
    from dis [rule_format, OF False] that show ?thesis unfolding if_not_P [OF False] by (elim conjE) (intro conjI, assumption, rule mp)
  qed
  then show ?thesis
    by (intro exI [of _ s'] conjI impI run count)
qed

theorem timer_period_witness:
  "\<exists>s'. timer_run msp430 9 ((TimerA_new True)\<lparr>ta_regs := put_reg (put_reg TimerA_regs 0 0x12 True) 0x12 3 True\<rparr>)
     = Inr s' \<and> unat (reg_value (ta_regs s') 0x10) = 1 \<and> triggered s' = 2 \<and> ta_irq s'"
proof -
  let ?rf = "put_reg (put_reg TimerA_regs 0 0x12 True) 0x12 3 True"
  note sh = ta_shapeD [OF ta_shape_new]
  have "reg_value TimerA_regs 0x10 = 0" "reg_value TimerA_regs 2 = 0"
    by (simp_all add: reg_value_def reg_at_def TimerA_regs_def addRegister_def mk_register_def ta_offsets Let_def)
  then have "reg_value ?rf 0 = 0x12" "reg_value ?rf 0x12 = 3" "reg_value ?rf 0x10 = 0" "ta_shape ?rf"
    using sh by (simp_all add: ta_shape_new)
  moreover from this have "ta_mode (reg_value ?rf 0) = 1" "ta_limit ?rf = 3" "irq_enabled ?rf"
    by (simp_all add: ta_mode_def ta_limit_def irq_enabled_def)
  ultimately show ?thesis
    using timer_period [of "(TimerA_new True)\<lparr>ta_regs := ?rf\<rparr>" 9]
    by (auto simp: TimerA_new_def)
qed

section \<open>The up/down mode\<close>

text \<open>One run of \<open>process\<close> in the up/down mode, from the two states the timer visits.\<close>

lemma up_down_step:
  assumes "ta_shape (ta_regs s)" and "ta_mode (reg_value (ta_regs s) 0) = 3"
    and "reg_value (ta_regs s) 0 AND TACLR = 0" and "1 < reg_value (ta_regs s) 0x12"
    and "reg_value (ta_regs s) 0x10 = (if direction s then 0 else 1)"
  shows "\<exists>s'. timer_process msp430 True False s = Inr (s', Wait_clock_or_ira) \<and> ta_shape (ta_regs s')
    \<and> ta_mode (reg_value (ta_regs s') 0) = 3 \<and> reg_value (ta_regs s') 0 AND TACLR = 0
    \<and> reg_value (ta_regs s') 0x12 = reg_value (ta_regs s) 0x12
    \<and> direction s' = (\<not> direction s)
    \<and> reg_value (ta_regs s') 0x10 = (if direction s then 1 else 0)
    \<and> triggered s' = triggered s + (if direction s then 0 else 1)"
proof -
  note rf = ta_shapeD [OF assms(1)]
  note defs = timer_process_def timer_count_def timer_clear_def timer_signals_def ta_offsets
    Let_def msp430_def
  have "0 < reg_value (ta_regs s) 0x12" using assms(4) by (simp add: word_less_nat_alt)
  then show ?thesis
    using assms rf
    by (cases "direction s"; cases "reg_value (ta_regs s) 0 AND TAIFG = 0"; cases "reg_value (ta_regs s) 0 AND TAIE = 0";
        cases "reg_value (ta_regs s) 2 AND CCIE = 0"; simp add: defs clear_flag)
qed

text \<open>What the up/down mode does. With \<open>CCR0\<close> of at least two, starting from zero, the
  timer alternates between the counts 0 and 1 and triggers on every second edge: the new
  direction is computed with the comparison negated, so the timer turns around after one
  step instead of at \<open>CCR0\<close>.\<close>

lemma up_down_alternates:
  assumes "ta_shape (ta_regs s)" and "ta_mode (reg_value (ta_regs s) 0) = 3"
    and "reg_value (ta_regs s) 0 AND TACLR = 0" and "1 < reg_value (ta_regs s) 0x12"
    and "reg_value (ta_regs s) 0x10 = 0" and "direction s"
  shows "\<exists>s'. timer_run msp430 k s = Inr s' \<and> reg_value (ta_regs s') 0x10 = of_nat (k mod 2)
    \<and> triggered s' = triggered s + k div 2"
proof -
  have "\<exists>s'. timer_run msp430 k s = Inr s' \<and> ta_shape (ta_regs s')
    \<and> ta_mode (reg_value (ta_regs s') 0) = 3 \<and> reg_value (ta_regs s') 0 AND TACLR = 0
    \<and> reg_value (ta_regs s') 0x12 = reg_value (ta_regs s) 0x12
    \<and> direction s' = even k \<and> reg_value (ta_regs s') 0x10 = (if even k then 0 else 1)
    \<and> triggered s' = triggered s + k div 2"
  proof (induction k)
    case 0
    then show ?case using assms by simp
  next
    case (Suc k)
    then obtain s1 where s1: "timer_run msp430 k s = Inr s1" "ta_shape (ta_regs s1)"
      "ta_mode (reg_value (ta_regs s1) 0) = 3" "reg_value (ta_regs s1) 0 AND TACLR = 0"
      "reg_value (ta_regs s1) 0x12 = reg_value (ta_regs s) 0x12" "direction s1 = even k"
      "reg_value (ta_regs s1) 0x10 = (if even k then 0 else 1)" "triggered s1 = triggered s + k div 2"
      by blast
    obtain s2 where s2: "timer_process msp430 True False s1 = Inr (s2, Wait_clock_or_ira)" "ta_shape (ta_regs s2)"
      "ta_mode (reg_value (ta_regs s2) 0) = 3" "reg_value (ta_regs s2) 0 AND TACLR = 0"
      "reg_value (ta_regs s2) 0x12 = reg_value (ta_regs s1) 0x12" "direction s2 = (\<not> direction s1)"
      "reg_value (ta_regs s2) 0x10 = (if direction s1 then 1 else 0)"
      "triggered s2 = triggered s1 + (if direction s1 then 0 else 1)"
      using up_down_step [OF s1(2-4)] s1(5-7) assms(4) by auto
    have "timer_run msp430 (Suc k) s = Inr s2"
      using s1(1) s2(1) unfolding timer_run_Suc by simp
    moreover have "triggered s2 = triggered s + Suc k div 2"
      using s1(6,8) s2(8) by (cases "even k") (auto elim: evenE oddE)
    ultimately show ?case
      using s2 s1(5,6) by (intro exI [of _ s2]) (simp del: timer_run.simps)
  qed
  then show ?thesis by (auto simp: mod_2_eq_odd)
qed

lemma up_down_alternates_witness:
  "\<exists>s'. timer_run msp430 5 ((TimerA_new True)\<lparr>ta_regs := put_reg (put_reg TimerA_regs 0 0x30 True) 0x12 100 True\<rparr>)
     = Inr s' \<and> reg_value (ta_regs s') 0x10 = 1 \<and> triggered s' = 2"
proof -
  let ?rf = "put_reg (put_reg TimerA_regs 0 0x30 True) 0x12 100 True"
  note sh = ta_shapeD [OF ta_shape_new]
  have "reg_value TimerA_regs 0x10 = 0"
    by (simp_all add: reg_value_def reg_at_def TimerA_regs_def addRegister_def mk_register_def ta_offsets Let_def)
  then have "reg_value ?rf 0 = 0x30" "reg_value ?rf 0x12 = 100" "reg_value ?rf 0x10 = 0" "ta_shape ?rf"
    using sh by (simp_all add: ta_shape_new)
  then show ?thesis
    using up_down_alternates [of "(TimerA_new True)\<lparr>ta_regs := ?rf\<rparr>" 5]
    by (auto simp: TimerA_new_def ta_mode_def)
qed

end
