(* ===== verification/Mpy32.thy ===== *)
theory Mpy32
  imports Peripheral
begin

unbundle bit_operations_syntax

text \<open>
  \<open>mcu/msp430fr5xx/Mpy32.cpp\<close>: the hardware multiplier. A bus access to one of the first
  operand registers selects the mode, an access to a second operand register starts
  \<open>process\<close> (through an event with the delay of the transaction), which multiplies in
  16, 32, 64 and 128 bit integers as the code does. The switch over the address is
  made for reads as well as for writes, and so it is here.
\<close>

section \<open>Registers\<close>

definition OFS_MPY :: nat where "OFS_MPY = 0x00"
definition OFS_MPYS :: nat where "OFS_MPYS = 0x02"
definition OFS_MAC :: nat where "OFS_MAC = 0x04"
definition OFS_MACS :: nat where "OFS_MACS = 0x06"
definition OFS_OP2 :: nat where "OFS_OP2 = 0x08"
definition OFS_RESLO :: nat where "OFS_RESLO = 0x0a"
definition OFS_RESHI :: nat where "OFS_RESHI = 0x0c"
definition OFS_SUMEXT :: nat where "OFS_SUMEXT = 0x0e"
definition OFS_MPY32L :: nat where "OFS_MPY32L = 0x10"
definition OFS_MPY32H :: nat where "OFS_MPY32H = 0x12"
definition OFS_MPYS32L :: nat where "OFS_MPYS32L = 0x14"
definition OFS_MPYS32H :: nat where "OFS_MPYS32H = 0x16"
definition OFS_MAC32L :: nat where "OFS_MAC32L = 0x18"
definition OFS_MAC32H :: nat where "OFS_MAC32H = 0x1a"
definition OFS_MACS32L :: nat where "OFS_MACS32L = 0x1c"
definition OFS_MACS32H :: nat where "OFS_MACS32H = 0x1e"
definition OFS_OP2L :: nat where "OFS_OP2L = 0x20"
definition OFS_OP2H :: nat where "OFS_OP2H = 0x22"
definition OFS_RES0 :: nat where "OFS_RES0 = 0x24"
definition OFS_RES1 :: nat where "OFS_RES1 = 0x26"
definition OFS_RES2 :: nat where "OFS_RES2 = 0x28"
definition OFS_RES3 :: nat where "OFS_RES3 = 0x2a"
definition OFS_MPY32CTL0 :: nat where "OFS_MPY32CTL0 = 0x2c"

lemmas mpy_offsets = OFS_MPY_def OFS_MPYS_def OFS_MAC_def OFS_MACS_def OFS_OP2_def OFS_RESLO_def
  OFS_RESHI_def OFS_SUMEXT_def OFS_MPY32L_def OFS_MPY32H_def OFS_MPYS32L_def OFS_MPYS32H_def
  OFS_MAC32L_def OFS_MAC32H_def OFS_MACS32L_def OFS_MACS32H_def OFS_OP2L_def OFS_OP2H_def
  OFS_RES0_def OFS_RES1_def OFS_RES2_def OFS_RES3_def OFS_MPY32CTL0_def

abbreviation MPYC :: u32 where "MPYC \<equiv> 0x01"
abbreviation MPYFRAC :: u32 where "MPYFRAC \<equiv> 0x04"
abbreviation MPYM__MPYS :: u32 where "MPYM__MPYS \<equiv> 0x10"
abbreviation MPYM__MAC :: u32 where "MPYM__MAC \<equiv> 0x20"
abbreviation MPYM__MACS :: u32 where "MPYM__MACS \<equiv> 0x30"
abbreviation MPYOP1_32 :: u32 where "MPYOP1_32 \<equiv> 0x40"
abbreviation MPYOP2_32 :: u32 where "MPYOP2_32 \<equiv> 0x80"

definition Mpy32_regs :: "u16 \<Rightarrow> u16 \<Rightarrow> register_file" where
  "Mpy32_regs s e =
     foldl (\<lambda>rf i. addRegister rf (2 * i) 0 READ_WRITE (- 1)) [] [0..<(unat (e - s + 1) + 1) div 2]"

definition Mpy32_reset :: "register_file \<Rightarrow> register_file" where
  "Mpy32_reset rf = rf_reset rf"

section \<open>Bus accesses\<close>

text \<open>The new value of the control register for an access at \<open>addr\<close>, if it is written.\<close>

definition mpy_control :: "nat \<Rightarrow> u16 \<Rightarrow> u32 option" where
  "mpy_control addr ctrl =
     (let c = ucast ctrl :: u32; mode = (\<lambda>m. (c AND NOT MPYM__MACS) OR m) in
      if addr = OFS_MPY then Some (mode 0 AND NOT MPYOP1_32)
      else if addr = OFS_MPYS then Some (mode MPYM__MPYS AND NOT MPYOP1_32)
      else if addr = OFS_MAC then Some (mode MPYM__MAC AND NOT MPYOP1_32)
      else if addr = OFS_MACS then Some (mode MPYM__MACS AND NOT MPYOP1_32)
      else if addr = OFS_MPY32L then Some (mode 0 OR MPYOP1_32)
      else if addr = OFS_MPYS32L then Some (mode MPYM__MPYS OR MPYOP1_32)
      else if addr = OFS_MAC32L then Some (mode MPYM__MAC OR MPYOP1_32)
      else if addr = OFS_MACS32L then Some (mode MPYM__MACS OR MPYOP1_32)
      else if addr = OFS_OP2 then Some (c AND NOT MPYOP2_32)
      else if addr = OFS_OP2L then Some (c OR MPYOP2_32)
      else None)"

text \<open>The last component of the result: the delay after which \<open>process\<close> runs.\<close>

definition Mpy32_b_transport ::
  "target \<Rightarrow> sc_time \<Rightarrow> register_file \<Rightarrow> payload \<Rightarrow> sc_time \<Rightarrow>
   (register_file \<times> payload \<times> sc_time \<times> effect list \<times> sc_time option) result" where
  "Mpy32_b_transport t period rf tp delay =
     (let addr = unat (address tp) in
      bind_r (rf_read rf OFS_MPY32CTL0) (\<lambda>v.
      let ctrl = ucast v :: u16 in
      check_r (ucast ctrl AND MPYFRAC = 0) Report_fatal
      (bind_r (case mpy_control addr ctrl of None \<Rightarrow> Inr rf | Some c \<Rightarrow> rf_write rf OFS_MPY32CTL0 c False) (\<lambda>rf1.
       bind_r (BusTarget_b_transport t period rf1 tp delay) (\<lambda>(rf2, tp2, d, fx).
         Inr (rf2, tp2, d, fx, if addr = OFS_OP2 \<or> addr = OFS_OP2H then Some delay else None))))))"

section \<open>Multiplication\<close>

text \<open>Consecutive \<open>m_regs.write\<close>.\<close>

fun rf_writes :: "register_file \<Rightarrow> (nat \<times> u32) list \<Rightarrow> register_file result" where
  "rf_writes rf [] = Inr rf"
| "rf_writes rf ((a, v) # ws) = bind_r (rf_write rf a v False) (\<lambda>rf1. rf_writes rf1 ws)"

fun clear_bits :: "target \<Rightarrow> nat \<Rightarrow> nat \<Rightarrow> register_file \<Rightarrow> register_file result" where
  "clear_bits t a 0 rf = Inr rf"
| "clear_bits t a (Suc i) rf = bind_r (rf_clearBit t rf a i False) (clear_bits t a i)"

definition read16_reg :: "register_file \<Rightarrow> nat \<Rightarrow> u16 result" where
  "read16_reg rf a = bind_r (rf_read rf a) (\<lambda>v. Inr (ucast v))"

text \<open>\<open>(uint32_t)H << 16 | (uint32_t)L\<close> of two registers.\<close>

definition read_pair :: "register_file \<Rightarrow> nat \<Rightarrow> nat \<Rightarrow> u32 result" where
  "read_pair rf aL aH =
     bind_r (read16_reg rf aL) (\<lambda>l. bind_r (read16_reg rf aH) (\<lambda>h.
       Inr (push_bit 16 (ucast h) OR ucast l)))"

definition sext32 :: "'a::len word \<Rightarrow> 'a word" where
  "sext32 x = (if x AND 0x80000000 \<noteq> 0 then x OR 0xffffffff00000000 else x)"

definition sext16 :: "u32 \<Rightarrow> u32" where
  "sext16 x = (if x AND 0x8000 \<noteq> 0 then x OR 0xffff0000 else x)"

text \<open>\<open>(uint16_t)((res >> 16 * i) & 0xffff)\<close>\<close>

definition chunk :: "'a::len word \<Rightarrow> nat \<Rightarrow> u32" where
  "chunk res i = ucast (ucast (drop_bit (16 * i) res AND 0xffff) :: u16)"

definition write_res64 :: "register_file \<Rightarrow> 'a::len word \<Rightarrow> (nat \<times> u32) list \<Rightarrow> register_file result" where
  "write_res64 rf res extra =
     rf_writes rf ([(OFS_RES3, chunk res 3), (OFS_RES2, chunk res 2), (OFS_RES1, chunk res 1),
       (OFS_RES0, chunk res 0)] @ extra)"

definition write_res32 :: "register_file \<Rightarrow> 'a::len word \<Rightarrow> (nat \<times> u32) list \<Rightarrow> register_file result" where
  "write_res32 rf res extra = rf_writes rf ([(OFS_RES1, chunk res 1), (OFS_RES0, chunk res 0)] @ extra)"

definition carry :: "u16 \<Rightarrow> bool \<Rightarrow> nat \<times> u32" where
  "carry ctrl b =
     (OFS_MPY32CTL0, if b then ucast ctrl OR MPYC else ucast ctrl AND NOT MPYC)"

definition sign_ext :: "u32 \<Rightarrow> nat \<times> u32" where
  "sign_ext msw = (OFS_SUMEXT, if msw AND 0x8000 \<noteq> 0 then 0xffff else 0)"

definition mac32 :: "register_file \<Rightarrow> u16 \<Rightarrow> register_file result" where
  "mac32 rf ctrl =
     bind_r (rf_read rf OFS_SUMEXT) (\<lambda>pC. bind_r (rf_read rf OFS_RES3) (\<lambda>p3.
     bind_r (rf_read rf OFS_RES2) (\<lambda>p2. bind_r (rf_read rf OFS_RES1) (\<lambda>p1.
     bind_r (rf_read rf OFS_RES0) (\<lambda>p0.
     let prev = push_bit 64 (ucast pC) OR push_bit 48 (ucast p3) OR push_bit 32 (ucast p2)
                  OR push_bit 16 (ucast p1) OR ucast p0 :: 128 word in
     if ucast ctrl AND MPYM__MPYS \<noteq> 0 then
       bind_r (read_pair rf OFS_MACS32L OFS_MACS32H) (\<lambda>a. bind_r (read_pair rf OFS_OP2L OFS_OP2H) (\<lambda>b.
       let res = ucast (ucast (sext32 (ucast a :: 128 word) * sext32 (ucast b)) :: u64) + prev in
       write_res64 rf res
         [sign_ext (chunk res 3), carry ctrl ((ucast res :: u64) < ucast prev)]))
     else
       bind_r (read_pair rf OFS_MAC32L OFS_MAC32H) (\<lambda>a. bind_r (read_pair rf OFS_OP2L OFS_OP2H) (\<lambda>b.
       let res = ucast (ucast (ucast a * ucast b :: 128 word) :: u64) + prev in
       write_res64 rf res [(OFS_SUMEXT, chunk res 4), carry ctrl (chunk res 4 \<noteq> 0)])))))))"

definition mpy32 :: "target \<Rightarrow> register_file \<Rightarrow> u16 \<Rightarrow> register_file result" where
  "mpy32 t rf0 ctrl =
     bind_r (clear_bits t OFS_RES3 16 rf0) (\<lambda>rf1. bind_r (clear_bits t OFS_RES2 16 rf1) (\<lambda>rf2.
     bind_r (clear_bits t OFS_RES1 16 rf2) (\<lambda>rf3. bind_r (clear_bits t OFS_RES0 16 rf3) (\<lambda>rf.
     if ucast ctrl AND MPYM__MPYS \<noteq> 0 then
       bind_r (read_pair rf OFS_MPYS32L OFS_MPYS32H) (\<lambda>a. bind_r (read_pair rf OFS_OP2L OFS_OP2H) (\<lambda>b.
       let res = sext32 (ucast a :: u64) * sext32 (ucast b) in
       write_res64 rf res [carry ctrl (chunk res 3 AND 0x8000 \<noteq> 0), sign_ext (chunk res 3)]))
     else
       bind_r (read_pair rf OFS_MPY32L OFS_MPY32H) (\<lambda>a. bind_r (read_pair rf OFS_OP2L OFS_OP2H) (\<lambda>b.
       let res = ucast a * ucast b :: u64 in
       write_res64 rf res [carry ctrl False, (OFS_SUMEXT, 0)]))))))"

text \<open>The signed branch computes its operands and writes nothing.\<close>

definition mac16 :: "register_file \<Rightarrow> u16 \<Rightarrow> register_file result" where
  "mac16 rf ctrl =
     bind_r (rf_read rf OFS_SUMEXT) (\<lambda>pC. bind_r (rf_read rf OFS_RES1) (\<lambda>p1. bind_r (rf_read rf OFS_RES0) (\<lambda>p0.
     let prev = push_bit 32 (ucast pC) OR push_bit 16 (ucast p1) OR ucast p0 :: u64 in
     if ucast ctrl AND MPYM__MPYS \<noteq> 0 then
       bind_r (rf_read rf OFS_MACS) (\<lambda>a. bind_r (rf_read rf OFS_OP2) (\<lambda>b. Inr rf))
     else
       bind_r (rf_read rf OFS_MAC) (\<lambda>a. bind_r (rf_read rf OFS_OP2) (\<lambda>b.
       let res = ucast a * ucast b + prev in
       write_res32 rf res [(OFS_SUMEXT, chunk res 2), carry ctrl (chunk res 2 \<noteq> 0)])))))"

definition mpy16 :: "target \<Rightarrow> register_file \<Rightarrow> u16 \<Rightarrow> register_file result" where
  "mpy16 t rf0 ctrl =
     bind_r (clear_bits t OFS_RES1 16 rf0) (\<lambda>rf1. bind_r (clear_bits t OFS_RES0 16 rf1) (\<lambda>rf.
     if ucast ctrl AND MPYM__MPYS \<noteq> 0 then
       bind_r (rf_read rf OFS_MPYS) (\<lambda>a. bind_r (rf_read rf OFS_OP2) (\<lambda>b.
       let res = sext16 a * sext16 b in
       write_res32 rf res [carry ctrl (chunk res 1 AND 0x8000 \<noteq> 0), sign_ext (chunk res 1)]))
     else
       bind_r (read16_reg rf OFS_MPY) (\<lambda>a. bind_r (read16_reg rf OFS_OP2) (\<lambda>b.
       let res = ucast a * ucast b :: u32 in
       write_res32 rf res [carry ctrl False, (OFS_SUMEXT, 0)]))))"

definition Mpy32_process :: "target \<Rightarrow> bool \<Rightarrow> register_file \<Rightarrow> register_file result" where
  "Mpy32_process t pwrOn rf =
     (if pwrOn then
        bind_r (read16_reg rf OFS_MPY32CTL0) (\<lambda>ctrl.
        let c = ucast ctrl :: u32; accumulate = (c AND MPYM__MAC \<noteq> 0) in
        bind_r
          (if c AND MPYOP1_32 \<noteq> 0 \<or> c AND MPYOP2_32 \<noteq> 0
           then (if accumulate then mac32 rf ctrl else mpy32 t rf ctrl)
           else (if accumulate then mac16 rf ctrl else mpy16 t rf ctrl))
          (\<lambda>rf1. bind_r (rf_read rf1 OFS_RES0) (\<lambda>r0. bind_r (rf_write rf1 OFS_RESLO r0 False) (\<lambda>rf2.
            bind_r (rf_read rf2 OFS_RES1) (\<lambda>r1. rf_write rf2 OFS_RESHI r1 False)))))
      else Inr rf)"

section \<open>Lemmas\<close>

definition mpy_shape :: "register_file \<Rightarrow> bool" where
  "mpy_shape rf \<longleftrightarrow> (\<forall>i<24. rw rf (2 * i) \<and> mask_of rf (2 * i) = - 1)"

lemma mpy_shapeD:
  assumes "mpy_shape rf" and "even a" and "a < 48"
  shows "rw rf a" "mask_of rf a = - 1"
  using assms by (auto simp: mpy_shape_def elim!: evenE)

lemma mpy_shape_put [simp]: "mpy_shape (put_reg rf a v f) = mpy_shape rf"
  by (simp add: mpy_shape_def)

lemma mpy_shape_new: "mpy_shape (Mpy32_regs 0x4c0 (0x4c0 + 0x2f))"
proof -
  have n: "(unat ((0x4c0 :: u16) + 0x2f - 0x4c0 + 1) + 1) div 2 = 24" by simp
  have "list_all (\<lambda>i. rw (Mpy32_regs 0x4c0 (0x4c0 + 0x2f)) (2 * i)
      \<and> mask_of (Mpy32_regs 0x4c0 (0x4c0 + 0x2f)) (2 * i) = - 1) [0..<24]"
    unfolding Mpy32_regs_def n
    by (simp add: upt_rec addRegister_def mk_register_def rw_def mask_of_def reg_at_def)
  then show ?thesis by (simp add: mpy_shape_def list_all_iff)
qed

text \<open>Clearing the bits of a register leaves the others.\<close>

lemma clear_bits_ok:
  assumes "mpy_shape rf" and "even a" and "a < 48" and "n \<le> 16"
  shows "\<exists>rf'. clear_bits msp430 a n rf = Inr rf' \<and> mpy_shape rf'
    \<and> (\<forall>b. b \<noteq> a \<longrightarrow> reg_value rf' b = reg_value rf b)"
  using assms
proof (induction n arbitrary: rf)
  case (Suc n)
  note a = mpy_shapeD [OF Suc.prems(1-3)]
  have "rf_clearBit msp430 rf a n False = Inr (put_reg rf a (reg_value rf a AND NOT (push_bit n 1)) False)"
    using a Suc.prems(4) by (simp add: msp430_def)
  then show ?case
    using Suc.IH [of "put_reg rf a (reg_value rf a AND NOT (push_bit n 1)) False"] Suc.prems by auto
qed simp

lemma clear_two:
  assumes "mpy_shape rf"
  shows "\<exists>rf1 rf2. clear_bits msp430 0x26 16 rf = Inr rf1 \<and> clear_bits msp430 0x24 16 rf1 = Inr rf2 \<and> mpy_shape rf2
    \<and> (\<forall>b. b < 0x24 \<or> 0x2c \<le> b \<longrightarrow> reg_value rf2 b = reg_value rf b)"
proof -
  obtain rf1 where 1: "clear_bits msp430 0x26 16 rf = Inr rf1" "mpy_shape rf1"
      "\<forall>b. b \<noteq> 0x26 \<longrightarrow> reg_value rf1 b = reg_value rf b"
    using clear_bits_ok [OF assms, of "0x26" 16] by auto
  obtain rf2 where 2: "clear_bits msp430 0x24 16 rf1 = Inr rf2" "mpy_shape rf2"
      "\<forall>b. b \<noteq> 0x24 \<longrightarrow> reg_value rf2 b = reg_value rf1 b"
    using clear_bits_ok [OF 1(2), of "0x24" 16] by auto
  show ?thesis using 1 2 by (intro exI [of _ rf1] exI [of _ rf2]) simp
qed

lemma clear_four:
  assumes "mpy_shape rf"
  shows "\<exists>rf1 rf2 rf3 rf4. clear_bits msp430 0x2a 16 rf = Inr rf1 \<and> clear_bits msp430 0x28 16 rf1 = Inr rf2
    \<and> clear_bits msp430 0x26 16 rf2 = Inr rf3 \<and> clear_bits msp430 0x24 16 rf3 = Inr rf4 \<and> mpy_shape rf4
    \<and> (\<forall>b. b < 0x24 \<or> 0x2c \<le> b \<longrightarrow> reg_value rf4 b = reg_value rf b)"
proof -
  obtain rf1 where 1: "clear_bits msp430 0x2a 16 rf = Inr rf1" "mpy_shape rf1"
      "\<forall>b. b \<noteq> 0x2a \<longrightarrow> reg_value rf1 b = reg_value rf b"
    using clear_bits_ok [OF assms, of "0x2a" 16] by auto
  obtain rf2 where 2: "clear_bits msp430 0x28 16 rf1 = Inr rf2" "mpy_shape rf2"
      "\<forall>b. b \<noteq> 0x28 \<longrightarrow> reg_value rf2 b = reg_value rf1 b"
    using clear_bits_ok [OF 1(2), of "0x28" 16] by auto
  obtain rf3 rf4 where 3: "clear_bits msp430 0x26 16 rf2 = Inr rf3" "clear_bits msp430 0x24 16 rf3 = Inr rf4"
      "mpy_shape rf4" "\<forall>b. b < 0x24 \<or> 0x2c \<le> b \<longrightarrow> reg_value rf4 b = reg_value rf2 b"
    using clear_two [OF 2(2)] by blast
  show ?thesis using 1 2 3 by (intro exI [of _ rf1] exI [of _ rf2] exI [of _ rf3] exI [of _ rf4]) simp
qed

text \<open>A word write over the bus.\<close>

definition word_payload :: "nat \<Rightarrow> u16 \<Rightarrow> payload" where
  "word_payload a v = \<lparr>command = TLM_WRITE_COMMAND, address = of_nat a,
     data = [ucast v, ucast (drop_bit 8 v)], response_ok = False\<rparr>"

lemma host_load_word: "host_load32 (ucast (v :: u16)) (ucast (drop_bit 8 v)) 0 0 = ucast v"
  unfolding host_load32_def by (rule bit_word_eqI) (auto simp: bit_simps dest: bit_imp_le_length)

lemma bus_word_write:
  assumes "rw rf a" and "even a" and "a < 2 ^ 64"
  shows "BusTarget_b_transport msp430 period rf (word_payload a v) d = Inr (put_reg rf a (ucast v) False,
     (word_payload a v)\<lparr>response_ok := True\<rparr>, d + period, [Notify Write_event (d + period), Report Pe_write 1])"
  using assms
  by (simp add: BusTarget_b_transport_def word_payload_def rf_write_buf_2 host_load_word even_iff_mod_2_eq_zero)

lemma ctl_bits:
  "(v :: u32) AND 4 = 0 \<longleftrightarrow> \<not> bit v 2" "(v :: u32) AND 0x10 = 0 \<longleftrightarrow> \<not> bit v 4"
  "(v :: u32) AND 0x20 = 0 \<longleftrightarrow> \<not> bit v 5" "(v :: u32) AND 0x40 = 0 \<longleftrightarrow> \<not> bit v 6"
  "(v :: u32) AND 0x80 = 0 \<longleftrightarrow> \<not> bit v 7" "(v :: u32) AND 0x8000 = 0 \<longleftrightarrow> \<not> bit v 15"
  using and_exp_eq_0_iff_not_bit [of v 2] and_exp_eq_0_iff_not_bit [of v 4]
    and_exp_eq_0_iff_not_bit [of v 5] and_exp_eq_0_iff_not_bit [of v 6]
    and_exp_eq_0_iff_not_bit [of v 7] and_exp_eq_0_iff_not_bit [of v 15] by simp_all

text \<open>What \<open>process\<close> leaves, per mode, as a function of the registers.\<close>

definition copies_result :: "register_file \<Rightarrow> bool" where
  "copies_result rf \<longleftrightarrow> reg_value rf 0x0a = reg_value rf 0x24 \<and> reg_value rf 0x0c = reg_value rf 0x26"

lemma process_mpy16:
  assumes "mpy_shape rf" and "\<not> bit (reg_value rf 0x2c) 5" and "\<not> bit (reg_value rf 0x2c) 6"
    and "\<not> bit (reg_value rf 0x2c) 7"
  defines "res \<equiv> (if bit (reg_value rf 0x2c) 4 then sext16 (reg_value rf 2) * sext16 (reg_value rf 8)
      else ucast (ucast (reg_value rf 0) :: u16) * ucast (ucast (reg_value rf 8) :: u16))"
  shows "\<exists>rf'. Mpy32_process msp430 True rf = Inr rf' \<and> mpy_shape rf' \<and> copies_result rf'
    \<and> reg_value rf' 0x24 = chunk res 0 \<and> reg_value rf' 0x26 = chunk res 1
    \<and> reg_value rf' 0x0e = (if bit (reg_value rf 0x2c) 4 \<and> bit (chunk res 1) 15 then 0xffff else 0)"
proof -
  obtain rf1 rf2 where c: "clear_bits msp430 0x26 16 rf = Inr rf1" "clear_bits msp430 0x24 16 rf1 = Inr rf2"
    "mpy_shape rf2" "\<forall>b. b < 0x24 \<or> 0x2c \<le> b \<longrightarrow> reg_value rf2 b = reg_value rf b"
    using clear_two [OF assms(1)] by blast
  note sh = mpy_shapeD [OF assms(1)] mpy_shapeD [OF c(3)]
  show ?thesis
    using assms(2-4) c(3,4) sh unfolding res_def copies_result_def
    by (cases "bit (reg_value rf 0x2c) 4")
      (simp_all add: Mpy32_process_def mpy16_def read16_reg_def mpy_offsets c(1,2) Let_def ctl_bits bit_simps
        write_res32_def carry_def sign_ext_def)
qed

definition pair_value :: "register_file \<Rightarrow> nat \<Rightarrow> u32" where
  "pair_value rf a = push_bit 16 (ucast (ucast (reg_value rf (a + 2)) :: u16)) OR ucast (ucast (reg_value rf a) :: u16)"

lemma process_mpy32:
  assumes "mpy_shape rf" and "\<not> bit (reg_value rf 0x2c) 5"
    and "bit (reg_value rf 0x2c) 6 \<or> bit (reg_value rf 0x2c) 7"
  defines "res \<equiv> (if bit (reg_value rf 0x2c) 4
      then sext32 (ucast (pair_value rf 0x14)) * sext32 (ucast (pair_value rf 0x20))
      else ucast (pair_value rf 0x10) * ucast (pair_value rf 0x20) :: u64)"
  shows "\<exists>rf'. Mpy32_process msp430 True rf = Inr rf' \<and> mpy_shape rf' \<and> copies_result rf'
    \<and> reg_value rf' 0x24 = chunk res 0 \<and> reg_value rf' 0x26 = chunk res 1
    \<and> reg_value rf' 0x28 = chunk res 2 \<and> reg_value rf' 0x2a = chunk res 3
    \<and> reg_value rf' 0x0e = (if bit (reg_value rf 0x2c) 4 \<and> bit (chunk res 3) 15 then 0xffff else 0)"
proof -
  obtain rf1 rf2 rf3 rf4 where c: "clear_bits msp430 0x2a 16 rf = Inr rf1" "clear_bits msp430 0x28 16 rf1 = Inr rf2"
    "clear_bits msp430 0x26 16 rf2 = Inr rf3" "clear_bits msp430 0x24 16 rf3 = Inr rf4"
    "mpy_shape rf4" "\<forall>b. b < 0x24 \<or> 0x2c \<le> b \<longrightarrow> reg_value rf4 b = reg_value rf b"
    using clear_four [OF assms(1)] by blast
  note sh = mpy_shapeD [OF assms(1)] mpy_shapeD [OF c(5)]
  show ?thesis
    using assms(2,3) c(5,6) sh unfolding res_def copies_result_def pair_value_def
    by (cases "bit (reg_value rf 0x2c) 4")
      (simp_all add: Mpy32_process_def mpy32_def read16_reg_def read_pair_def mpy_offsets c(1-4) Let_def ctl_bits
        bit_simps write_res64_def carry_def sign_ext_def)
qed

lemma process_mac16:
  assumes "mpy_shape rf" and "bit (reg_value rf 0x2c) 5" and "\<not> bit (reg_value rf 0x2c) 6"
    and "\<not> bit (reg_value rf 0x2c) 7"
  defines "res \<equiv> ucast (reg_value rf 4) * ucast (reg_value rf 8) + (push_bit 32 (ucast (reg_value rf 0x0e))
      OR push_bit 16 (ucast (reg_value rf 0x26)) OR ucast (reg_value rf 0x24)) :: u64"
  shows "\<exists>rf'. Mpy32_process msp430 True rf = Inr rf' \<and> mpy_shape rf' \<and> copies_result rf'
    \<and> (if bit (reg_value rf 0x2c) 4
       then reg_value rf' 0x24 = reg_value rf 0x24 \<and> reg_value rf' 0x26 = reg_value rf 0x26
         \<and> reg_value rf' 0x0e = reg_value rf 0x0e
       else reg_value rf' 0x24 = chunk res 0 \<and> reg_value rf' 0x26 = chunk res 1
         \<and> reg_value rf' 0x0e = chunk res 2 \<and> bit (reg_value rf' 0x2c) 0 = (chunk res 2 \<noteq> 0))"
proof -
  note sh = mpy_shapeD [OF assms(1)]
  show ?thesis
    using assms(1-4) sh unfolding res_def copies_result_def
    by (cases "bit (reg_value rf 0x2c) 4")
      (simp_all add: Mpy32_process_def mac16_def read16_reg_def mpy_offsets Let_def ctl_bits
        bit_simps write_res32_def carry_def sign_ext_def)
qed

section \<open>Sequences of writes\<close>

text \<open>Word writes over the bus, each followed by the multiplication if it starts one.\<close>

definition mpy_step :: "sc_time \<Rightarrow> register_file \<Rightarrow> nat \<times> u16 \<Rightarrow> register_file result" where
  "mpy_step period rf w =
     bind_r (Mpy32_b_transport msp430 period rf (word_payload (fst w) (snd w)) 0) (\<lambda>(rf1, p, d, fx, start).
       if start = None then Inr rf1 else Mpy32_process msp430 True rf1)"

fun mpy_seq :: "sc_time \<Rightarrow> register_file \<Rightarrow> (nat \<times> u16) list \<Rightarrow> register_file result" where
  "mpy_seq period rf [] = Inr rf"
| "mpy_seq period rf (w # ws) = bind_r (mpy_step period rf w) (\<lambda>rf1. mpy_seq period rf1 ws)"

definition result32 :: "register_file \<Rightarrow> nat" where
  "result32 rf = unat (reg_value rf 0x24) + 2 ^ 16 * unat (reg_value rf 0x26)"

definition result64 :: "register_file \<Rightarrow> nat" where
  "result64 rf = result32 rf + 2 ^ 32 * unat (reg_value rf 0x28) + 2 ^ 48 * unat (reg_value rf 0x2a)"

lemma unat_chunk: "unat (chunk (res :: 'a::len word) i) = unat res div 2 ^ (16 * i) mod 2 ^ 16"
proof -
  have "(ucast (drop_bit (16 * i) res AND 0xffff) :: u16) = ucast (drop_bit (16 * i) res)"
    using bit_mask_numerals(2) by (intro bit_word_eqI) (auto simp: bit_simps dest: bit_imp_le_length)
  then show ?thesis
    by (simp add: chunk_def unat_ucast_mod unat_drop_bit_div)
qed

lemma chunks32: "unat (chunk (res :: u32) 0) + 2 ^ 16 * unat (chunk res 1) = unat res"
proof -
  have "unat res < 2 ^ 16 * 2 ^ 16" using unat_lt_2p [of res] by simp
  then have "unat res div 2 ^ 16 < 2 ^ 16" by (simp add: less_mult_imp_div_less)
  then show ?thesis by (simp add: unat_chunk)
qed

lemma chunks64:
  "unat (chunk (res :: u64) 0) + 2 ^ 16 * unat (chunk res 1) + 2 ^ 32 * unat (chunk res 2)
    + 2 ^ 48 * unat (chunk res 3) = unat res"
proof -
  let ?x = "unat res"
  have "?x div 2 ^ 48 < 2 ^ 16"
    using unat_lt_2p [of res] by (simp add: less_mult_imp_div_less)
  then have top: "?x div 2 ^ 48 mod 2 ^ 16 = ?x div 2 ^ 48" by simp
  have "?x = ?x mod 2 ^ 16 + 2 ^ 16 * (?x div 2 ^ 16)" by simp
  also have "?x div 2 ^ 16 = ?x div 2 ^ 16 mod 2 ^ 16 + 2 ^ 16 * (?x div 2 ^ 32)"
    using div_mult2_eq [of ?x "2 ^ 16" "2 ^ 16"] by simp
  also have "?x div 2 ^ 32 = ?x div 2 ^ 32 mod 2 ^ 16 + 2 ^ 16 * (?x div 2 ^ 48)"
    using div_mult2_eq [of ?x "2 ^ 32" "2 ^ 16"] by simp
  finally show ?thesis
    unfolding unat_chunk using top by simp
qed


lemma sint_scast_up: "sint (scast (a :: u16) :: u32) = sint a"
  using sint_range_size [of a] 
  by (simp add: signed_scast_eq signed_take_bit_int_eq_self word_size)

lemma sint_range16: "- (2 ^ 15) \<le> sint (a :: u16) \<and> sint a < 2 ^ 15"
  using sint_range_size [of a] by (simp add: word_size)

lemma prod_bounds:
  fixes x y :: int
  assumes "- B \<le> x" "x < B" "- B \<le> y" "y < B"
  shows "- (B * B) \<le> x * y \<and> x * y \<le> B * B"
proof -
  have "\<bar>x * y\<bar> \<le> B * B" unfolding abs_mult using assms by (intro mult_mono) auto
  then show ?thesis by linarith
qed

lemma sint_prod16: "sint (scast (a :: u16) * scast (b :: u16) :: u32) = sint a * sint b"
proof -
  have r: "- (2 ^ 15 * 2 ^ 15) \<le> sint a * sint b \<and> sint a * sint b \<le> 2 ^ 15 * 2 ^ 15"
    using sint_range16 [of a] sint_range16 [of b] by (intro prod_bounds) auto
  have "sint (scast a * scast b :: u32) = signed_take_bit 31 (sint a * sint b)"
    by (simp add: sint_word_ariths sint_scast_up)
  then show ?thesis using r by (simp add: signed_take_bit_int_eq_self)
qed

lemma sext16_ucast: "sext16 (ucast a) = scast (a :: u16)"
proof -
  have m: "(0xffff0000 :: u32) = NOT (mask 16)" by (simp add: mask_eq_exp_minus_1)
  have b: "(ucast a :: u32) AND 0x8000 = 0 \<longleftrightarrow> \<not> bit a 15"
    using and_exp_eq_0_iff_not_bit [of "ucast a :: u32" 15] by (simp add: bit_simps)
  show ?thesis unfolding b m sext16_def
  proof (rule bit_word_eqI)
    fix n
    assume "n < LENGTH(32)"
    consider "n < 15" | "n = 15" | "16 \<le> n" by linarith
    then show "bit (if \<not> \<not> bit a 15 then (ucast a :: u32) OR NOT (mask 16) else ucast a) n = bit (scast a :: u32) n"
      using \<open>n < LENGTH(32)\<close> by cases (auto simp: bit_simps min_def dest: bit_imp_le_length)
  qed
qed

lemma sext32_ucast: "sext32 (ucast a :: u64) = scast (a :: u32)"
proof -
  have m: "(0xffffffff00000000 :: u64) = NOT (mask 32)" by (simp add: mask_eq_exp_minus_1)
  have b: "(ucast a :: u64) AND 0x80000000 = 0 \<longleftrightarrow> \<not> bit a 31"
    using and_exp_eq_0_iff_not_bit [of "ucast a :: u64" 31] by (simp add: bit_simps)
  show ?thesis unfolding b m sext32_def
  proof (rule bit_word_eqI)
    fix n
    assume "n < LENGTH(64)"
    consider "n < 31" | "n = 31" | "32 \<le> n" by linarith
    then show "bit (if \<not> \<not> bit a 31 then (ucast a :: u64) OR NOT (mask 32) else ucast a) n = bit (scast a :: u64) n"
      using \<open>n < LENGTH(64)\<close> by cases (auto simp: bit_simps min_def dest: bit_imp_le_length)
  qed
qed

lemma sint_scast_up32: "sint (scast (a :: u32) :: u64) = sint a"
  using sint_range_size [of a] 
  by (simp add: signed_scast_eq signed_take_bit_int_eq_self word_size)

lemma sint_range32: "- (2 ^ 31) \<le> sint (a :: u32) \<and> sint a < 2 ^ 31"
  using sint_range_size [of a] by (simp add: word_size)

lemma sint_prod32: "sint (scast (a :: u32) * scast (b :: u32) :: u64) = sint a * sint b"
proof -
  have r: "- (2 ^ 31 * 2 ^ 31) \<le> sint a * sint b \<and> sint a * sint b \<le> 2 ^ 31 * 2 ^ 31"
    using sint_range32 [of a] sint_range32 [of b] by (intro prod_bounds) auto
  have "sint (scast a * scast b :: u64) = signed_take_bit 63 (sint a * sint b)"
    by (simp add: sint_word_ariths sint_scast_up32)
  then show ?thesis using r by (simp add: signed_take_bit_int_eq_self)
qed

lemma mpy_step_ok:
  assumes "mpy_shape rf" and "even a" and "a < 0x30" and "\<not> bit (reg_value rf 0x2c) 2"
  shows "mpy_step period rf (a, v) =
    (let rf1 = (case mpy_control a (ucast (reg_value rf 0x2c)) of None \<Rightarrow> rf | Some c \<Rightarrow> put_reg rf 0x2c c False);
         rf2 = put_reg rf1 a (ucast v) False
     in if a = 8 \<or> a = 0x22 then Mpy32_process msp430 True rf2 else Inr rf2)"
proof -
  note sh = mpy_shapeD [OF assms(1)]
  have a: "unat (of_nat a :: u64) = a" using assms(3) by simp
  show ?thesis
    using assms(2-4) sh
    by (cases "mpy_control a (ucast (reg_value rf 0x2c))")
      (simp_all add: mpy_step_def Mpy32_b_transport_def Let_def mpy_offsets ctl_bits bit_simps bus_word_write
        a word_payload_def [THEN arg_cong, of address])
qed

section \<open>Properties\<close>

lemma unat_ucast_u16_u32 [simp]: "unat (ucast (a :: u16) :: u32) = unat a"
  using unat_lt_2p [of a] by (simp add: unat_ucast_mod)

lemma ucast_u16_u32 [simp]: "ucast (ucast (a :: u16) :: u32) = a"
  by (rule bit_word_eqI) (simp add: bit_simps)

text \<open>The signed reading of the 32-bit and of the 64-bit result.\<close>

definition signed_result32 :: "register_file \<Rightarrow> int" where
  "signed_result32 rf = sint (of_nat (result32 rf) :: u32)"

definition signed_result64 :: "register_file \<Rightarrow> int" where
  "signed_result64 rf = sint (of_nat (result64 rf) :: u64)"

lemma write_op16:
  assumes "mpy_shape rf" and "\<not> bit (reg_value rf 0x2c) 2" and "k = 0 \<or> k = 2 \<or> k = 4 \<or> k = 6"
  shows "\<exists>rf1. mpy_seq period rf [(k, a), (OFS_OP2, b)] = Mpy32_process msp430 True rf1 \<and> mpy_shape rf1
    \<and> bit (reg_value rf1 0x2c) 4 = (k = 2 \<or> k = 6) \<and> bit (reg_value rf1 0x2c) 5 = (4 \<le> k)
    \<and> \<not> bit (reg_value rf1 0x2c) 6 \<and> \<not> bit (reg_value rf1 0x2c) 7
    \<and> reg_value rf1 k = ucast a \<and> reg_value rf1 8 = ucast b
    \<and> (\<forall>c. 0x0a \<le> c \<and> c < 0x2c \<longrightarrow> reg_value rf1 c = reg_value rf c)"
proof -
  note sh = mpy_shapeD [OF assms(1)]
  define v where "v = reg_value rf 0x2c"
  obtain c1 where c1: "mpy_control k (ucast v) = Some c1" "\<not> bit c1 2" "bit c1 4 = (k = 2 \<or> k = 6)"
      "bit c1 5 = (4 \<le> k)" "\<not> bit c1 6"
    using assms(2,3) by (elim disjE) (auto simp: mpy_control_def mpy_offsets Let_def bit_simps v_def)
  define s1 where "s1 = put_reg (put_reg rf 0x2c c1 False) k (ucast a) False"
  have k: "even k" "k < 0x30" "k \<noteq> 8" "k \<noteq> 0x22" "k \<noteq> 0x2c" using assms(3) by auto
  have r: "rw rf k" "mask_of rf k = - 1" "rw rf 8" "mask_of rf 8 = - 1"
    using sh [OF k(1)] sh [of 8] k(2) by simp_all
  have s1: "mpy_shape s1" "reg_value s1 0x2c = c1" using assms(1) sh k by (simp_all add: s1_def)
  have 1: "mpy_step period rf (k, a) = Inr s1"
    using mpy_step_ok [OF assms(1) k(1,2) assms(2)] k c1(1) by (simp add: Let_def s1_def v_def)
  define s2 where "s2 = put_reg (put_reg s1 0x2c (ucast (ucast c1 :: u16) AND NOT 0x80) False) 8 (ucast b) False"
  have "mpy_control 8 (ucast c1) = Some (ucast (ucast c1 :: u16) AND NOT 0x80)"
    by (simp add: mpy_control_def mpy_offsets)
  then have 2: "mpy_step period s1 (OFS_OP2, b) = Mpy32_process msp430 True s2"
    using mpy_step_ok [OF s1(1), of 8 period b] s1(2) c1(2) by (simp add: Let_def s2_def mpy_offsets)
  have "mpy_seq period rf [(k, a), (OFS_OP2, b)] = Mpy32_process msp430 True s2"
    using 1 2 by (cases "Mpy32_process msp430 True s2") simp_all
  moreover have "mpy_shape s2" using s1(1) by (simp add: s2_def)
  moreover have "reg_value s2 0x2c = ucast (ucast c1 :: u16) AND NOT 0x80"
    using mpy_shapeD [OF s1(1)] by (simp add: s2_def)
  moreover have "reg_value s2 k = ucast a" "reg_value s2 8 = ucast b"
      "\<forall>c. 0x0a \<le> c \<and> c < 0x2c \<longrightarrow> reg_value s2 c = reg_value rf c"
    using k r assms(3) by (auto simp: s2_def s1_def)
  ultimately show ?thesis
    using c1(3-5) by (intro exI [of _ s2]) (simp add: bit_simps)
qed

lemma result32_chunks:
  "reg_value rf 0x24 = chunk (res :: u32) 0 \<Longrightarrow> reg_value rf 0x26 = chunk res 1 \<Longrightarrow> result32 rf = unat res"
  using chunks32 [of res] by (simp add: result32_def)

lemma bit_chunk: "bit (chunk (res :: 'a::len word) i) 15 = bit res (16 * i + 15)"
proof -
  have m: "(0xffff :: 'a word) = mask 16" by (simp add: mask_eq_exp_minus_1)
  show ?thesis unfolding chunk_def m by (auto simp: bit_simps dest: bit_imp_le_length)
qed

text \<open>The 16-bit products. Whatever mode the multiplier was in, writing \<open>MPY\<close> and \<open>OP2\<close> over
  the bus leaves the exact product of the unsigned operands in the result registers, and
  writing \<open>MPYS\<close> and \<open>OP2\<close> the exact signed product with its sign in \<open>SUMEXT\<close>.\<close>

lemma mpy16_products:
  assumes "mpy_shape rf" and "\<not> bit (reg_value rf OFS_MPY32CTL0) 2"
  shows "(\<exists>rf'. mpy_seq period rf [(OFS_MPY, a), (OFS_OP2, b)] = Inr rf'
      \<and> result32 rf' = unat a * unat b \<and> reg_value rf' OFS_SUMEXT = 0 \<and> copies_result rf')
    \<and> (\<exists>rf'. mpy_seq period rf [(OFS_MPYS, a), (OFS_OP2, b)] = Inr rf'
      \<and> signed_result32 rf' = sint a * sint b
      \<and> reg_value rf' OFS_SUMEXT = (if sint a * sint b < 0 then 0xffff else 0) \<and> copies_result rf')"
proof (rule conjI)
  obtain r1 where r1: "mpy_seq period rf [(0, a), (OFS_OP2, b)] = Mpy32_process msp430 True r1" "mpy_shape r1"
    "\<not> bit (reg_value r1 0x2c) 4" "\<not> bit (reg_value r1 0x2c) 5" "\<not> bit (reg_value r1 0x2c) 6"
    "\<not> bit (reg_value r1 0x2c) 7" "reg_value r1 0 = ucast a" "reg_value r1 8 = ucast b"
    using write_op16 [OF assms(1), of 0 period a b] assms(2) by (auto simp: mpy_offsets)
  obtain rf' where f: "Mpy32_process msp430 True r1 = Inr rf'" "copies_result rf'"
    "reg_value rf' 0x24 = chunk (ucast a * ucast b :: u32) 0" "reg_value rf' 0x26 = chunk (ucast a * ucast b :: u32) 1"
    "reg_value rf' 0x0e = 0"
    using process_mpy16 [OF r1(2) r1(4-6)] r1(3,7,8) by (auto simp: ucast_u16_u32)
  have "unat a * unat b < 2 ^ 32"
    using mult_strict_mono [of "unat a" "2 ^ 16" "unat b" "2 ^ 16"] unat_lt_2p [of a] unat_lt_2p [of b] by simp
  then have "result32 rf' = unat a * unat b"
    using result32_chunks [OF f(3,4)] by (simp add: unat_word_ariths(2))
  then show "\<exists>rf'. mpy_seq period rf [(OFS_MPY, a), (OFS_OP2, b)] = Inr rf'
      \<and> result32 rf' = unat a * unat b \<and> reg_value rf' OFS_SUMEXT = 0 \<and> copies_result rf'"
    using r1(1) f by (auto simp: mpy_offsets)
next
  obtain r1 where r1: "mpy_seq period rf [(2, a), (OFS_OP2, b)] = Mpy32_process msp430 True r1" "mpy_shape r1"
    "bit (reg_value r1 0x2c) 4" "\<not> bit (reg_value r1 0x2c) 5" "\<not> bit (reg_value r1 0x2c) 6"
    "\<not> bit (reg_value r1 0x2c) 7" "reg_value r1 2 = ucast a" "reg_value r1 8 = ucast b"
    using write_op16 [OF assms(1), of 2 period a b] assms(2) by (auto simp: mpy_offsets)
  define res where "res = (scast a * scast b :: u32)"
  obtain rf' where f: "Mpy32_process msp430 True r1 = Inr rf'" "copies_result rf'"
    "reg_value rf' 0x24 = chunk res 0" "reg_value rf' 0x26 = chunk res 1"
    "reg_value rf' 0x0e = (if bit res 31 then 0xffff else 0)"
    using process_mpy16 [OF r1(2) r1(4-6)] r1(3,7,8) by (auto simp: sext16_ucast bit_chunk res_def)
  have "signed_result32 rf' = sint a * sint b"
    using result32_chunks [OF f(3,4)] by (simp add: signed_result32_def res_def sint_prod16)
  moreover have "bit res 31 \<longleftrightarrow> sint a * sint b < 0"
    using sint_prod16 [of a b] bit_last_iff [of res] by (simp add: res_def)
  ultimately show "\<exists>rf'. mpy_seq period rf [(OFS_MPYS, a), (OFS_OP2, b)] = Inr rf'
      \<and> signed_result32 rf' = sint a * sint b
      \<and> reg_value rf' OFS_SUMEXT = (if sint a * sint b < 0 then 0xffff else 0) \<and> copies_result rf'"
    using r1(1) f by (auto simp: mpy_offsets)
qed

text \<open>The four word writes that multiply two 32-bit operands.\<close>

definition mpy32_writes :: "nat \<Rightarrow> u32 \<Rightarrow> u32 \<Rightarrow> (nat \<times> u16) list" where
  "mpy32_writes k a b =
     [(k, ucast a), (k + 2, ucast (drop_bit 16 a)), (OFS_OP2L, ucast b), (OFS_OP2H, ucast (drop_bit 16 b))]"

lemma halves: "push_bit 16 (ucast (ucast (drop_bit 16 a) :: u16)) OR ucast (ucast a :: u16) = (a :: u32)"
  by (rule bit_word_eqI) (auto simp: bit_simps not_le)

lemma write_op32:
  assumes "mpy_shape rf" and "\<not> bit (reg_value rf 0x2c) 2" and "k = 0x10 \<or> k = 0x14"
  shows "\<exists>rf1. mpy_seq period rf (mpy32_writes k a b) = Mpy32_process msp430 True rf1 \<and> mpy_shape rf1
    \<and> bit (reg_value rf1 0x2c) 4 = (k = 0x14) \<and> \<not> bit (reg_value rf1 0x2c) 5
    \<and> bit (reg_value rf1 0x2c) 6 \<and> pair_value rf1 k = a \<and> pair_value rf1 0x20 = b"
proof -
  have k: "even k" "k < 0x30" "k \<noteq> 8" "k \<noteq> 0x22" "k \<noteq> 0x2c" "k \<noteq> 0x20" "k + 2 \<noteq> 0x2c" "k + 2 \<noteq> 0x20" "k + 2 \<noteq> 0x22"
      "k + 2 \<noteq> 8" "even (k + 2)" "k + 2 < 0x30"
    using assms(3) by auto
  define v where "v = reg_value rf 0x2c"
  obtain c1 where c1: "mpy_control k (ucast v) = Some c1" "\<not> bit c1 2" "bit c1 4 = (k = 0x14)"
      "\<not> bit c1 5" "bit c1 6" "mpy_control (k + 2) (ucast c1) = None"
    using assms(2,3) by (elim disjE) (auto simp: mpy_control_def mpy_offsets Let_def bit_simps v_def)
  define s1 where "s1 = put_reg (put_reg rf 0x2c c1 False) k (ucast (ucast a :: u16)) False"
  define s2 where "s2 = put_reg s1 (k + 2) (ucast (ucast (drop_bit 16 a) :: u16)) False"
  define c3 where "c3 = (ucast (ucast c1 :: u16) :: u32) OR 0x80"
  define s3 where "s3 = put_reg (put_reg s2 0x2c c3 False) 0x20 (ucast (ucast b :: u16)) False"
  define s4 where "s4 = put_reg s3 0x22 (ucast (ucast (drop_bit 16 b) :: u16)) False"
  have r: "rw rf 0x2c" "mask_of rf 0x2c = - 1" "rw rf k" "mask_of rf k = - 1" "rw rf (k + 2)" "mask_of rf (k + 2) = - 1"
      "rw rf 0x20" "mask_of rf 0x20 = - 1" "rw rf 0x22" "mask_of rf 0x22 = - 1"
    using mpy_shapeD [OF assms(1)] k by simp_all
  have sh: "mpy_shape s1" "mpy_shape s2" "mpy_shape s3" "mpy_shape s4"
    using assms(1) by (simp_all add: s1_def s2_def s3_def s4_def)
  have ctl: "reg_value s1 0x2c = c1" "reg_value s2 0x2c = c1" "reg_value s3 0x2c = c3" "reg_value s4 0x2c = c3"
    using k r by (simp_all add: s1_def s2_def s3_def s4_def)
  have c3: "\<not> bit c3 2" "bit c3 4 = (k = 0x14)" "\<not> bit c3 5" "bit c3 6"
    using c1 by (simp_all add: c3_def bit_simps)
  have "mpy_control 0x20 (ucast c1) = Some c3" "mpy_control 0x22 (ucast c3) = None"
    by (simp_all add: mpy_control_def mpy_offsets c3_def)
  then have "mpy_step period rf (k, ucast a) = Inr s1" "mpy_step period s2 (0x20, ucast b) = Inr s3"
      "mpy_step period s3 (0x22, ucast (drop_bit 16 b)) = Mpy32_process msp430 True s4"
    using mpy_step_ok [OF assms(1) k(1,2) assms(2)] mpy_step_ok [OF sh(2), of "0x20"]
      mpy_step_ok [OF sh(3), of "0x22"] k(1-4) c1(1,2) c3(1)
    by (simp_all add: Let_def s1_def [symmetric] s3_def [symmetric] s4_def [symmetric] ctl v_def [symmetric])
  moreover have "mpy_step period s1 (k + 2, ucast (drop_bit 16 a)) = Inr s2"
    using mpy_step_ok [OF sh(1) k(11,12), of period] k(9,10) c1(2,6) by (simp add: Let_def ctl s2_def)
  ultimately have "mpy_seq period rf (mpy32_writes k a b) = Mpy32_process msp430 True s4"
    by (cases "Mpy32_process msp430 True s4") (simp_all add: mpy32_writes_def mpy_offsets)
  moreover have "pair_value s4 k = a" "pair_value s4 0x20 = b"
    using k r assms(3) by (auto simp: pair_value_def s4_def s3_def s2_def s1_def halves)
  ultimately show ?thesis using sh(4) ctl(4) c3 by (intro exI [of _ s4]) simp
qed

lemma unat_ucast_u64: "unat (ucast (a :: u32) :: u64) = unat a"
  by (rule unat_ucast_u32_u64)

text \<open>C17: the 32-bit products. Writing the two words of each operand to \<open>MPY32L/H\<close> and \<open>OP2L/H\<close> leaves the
  exact 64-bit product of the unsigned operands in the four result registers, and through
  \<open>MPYS32L/H\<close> the exact signed product with its sign in \<open>SUMEXT\<close>.\<close>

theorem mpy32_products:
  assumes "mpy_shape rf" and "\<not> bit (reg_value rf OFS_MPY32CTL0) 2"
  shows "(\<exists>rf'. mpy_seq period rf (mpy32_writes OFS_MPY32L a b) = Inr rf'
      \<and> result64 rf' = unat a * unat b \<and> reg_value rf' OFS_SUMEXT = 0 \<and> copies_result rf')
    \<and> (\<exists>rf'. mpy_seq period rf (mpy32_writes OFS_MPYS32L a b) = Inr rf'
      \<and> signed_result64 rf' = sint a * sint b
      \<and> reg_value rf' OFS_SUMEXT = (if sint a * sint b < 0 then 0xffff else 0) \<and> copies_result rf')"
proof (rule conjI)
  obtain r1 where r1: "mpy_seq period rf (mpy32_writes 0x10 a b) = Mpy32_process msp430 True r1" "mpy_shape r1"
    "\<not> bit (reg_value r1 0x2c) 4" "\<not> bit (reg_value r1 0x2c) 5" "bit (reg_value r1 0x2c) 6"
    "pair_value r1 0x10 = a" "pair_value r1 0x20 = b"
    using write_op32 [OF assms(1), of "0x10" period a b] assms(2) by (auto simp: mpy_offsets)
  define res where "res = (ucast a * ucast b :: u64)"
  obtain rf' where f: "Mpy32_process msp430 True r1 = Inr rf'" "copies_result rf'"
    "reg_value rf' 0x24 = chunk res 0" "reg_value rf' 0x26 = chunk res 1"
    "reg_value rf' 0x28 = chunk res 2" "reg_value rf' 0x2a = chunk res 3" "reg_value rf' 0x0e = 0"
    using process_mpy32 [OF r1(2,4) disjI1 [OF r1(5)]] r1(3,6,7) unfolding res_def by auto
  have "unat a * unat b < 2 ^ 64"
    using mult_strict_mono [of "unat a" "2 ^ 32" "unat b" "2 ^ 32"] unat_lt_2p [of a] unat_lt_2p [of b] by simp
  then have "unat res = unat a * unat b"
    by (simp add: res_def unat_word_ariths(2))
  then have "result64 rf' = unat a * unat b"
    using chunks64 [of res] f(3-6) by (simp add: result64_def result32_def)
  then show "\<exists>rf'. mpy_seq period rf (mpy32_writes OFS_MPY32L a b) = Inr rf'
      \<and> result64 rf' = unat a * unat b \<and> reg_value rf' OFS_SUMEXT = 0 \<and> copies_result rf'"
    using r1(1) f by (auto simp: mpy_offsets)
next
  obtain r1 where r1: "mpy_seq period rf (mpy32_writes 0x14 a b) = Mpy32_process msp430 True r1" "mpy_shape r1"
    "bit (reg_value r1 0x2c) 4" "\<not> bit (reg_value r1 0x2c) 5" "bit (reg_value r1 0x2c) 6"
    "pair_value r1 0x14 = a" "pair_value r1 0x20 = b"
    using write_op32 [OF assms(1), of "0x14" period a b] assms(2) by (auto simp: mpy_offsets)
  define res where "res = (scast a * scast b :: u64)"
  obtain rf' where f: "Mpy32_process msp430 True r1 = Inr rf'" "copies_result rf'"
    "reg_value rf' 0x24 = chunk res 0" "reg_value rf' 0x26 = chunk res 1"
    "reg_value rf' 0x28 = chunk res 2" "reg_value rf' 0x2a = chunk res 3"
    "reg_value rf' 0x0e = (if bit res 63 then 0xffff else 0)"
    using process_mpy32 [OF r1(2,4) disjI1 [OF r1(5)]] r1(3,6,7)
    by (auto simp: sext32_ucast bit_chunk res_def)
  have "result64 rf' = unat res"
    using chunks64 [of res] f(3-6) by (simp add: result64_def result32_def)
  then have "signed_result64 rf' = sint a * sint b"
    by (simp add: signed_result64_def res_def sint_prod32)
  moreover have "bit res 63 \<longleftrightarrow> sint a * sint b < 0"
    using sint_prod32 [of a b] bit_last_iff [of res] by (simp add: res_def)
  ultimately show "\<exists>rf'. mpy_seq period rf (mpy32_writes OFS_MPYS32L a b) = Inr rf'
      \<and> signed_result64 rf' = sint a * sint b
      \<and> reg_value rf' OFS_SUMEXT = (if sint a * sint b < 0 then 0xffff else 0) \<and> copies_result rf'"
    using r1(1) f by (auto simp: mpy_offsets)
qed

lemma mpy16_products_witness:
  "\<exists>rf'. mpy_seq 125 (Mpy32_regs 0x4c0 (0x4c0 + 0x2f)) [(OFS_MPYS, - 3), (OFS_OP2, 7)] = Inr rf'
     \<and> signed_result32 rf' = - 21"
proof -
  have "reg_value (Mpy32_regs 0x4c0 (0x4c0 + 0x2f)) OFS_MPY32CTL0 = 0"
    by (simp add: mpy_offsets Mpy32_regs_def upt_rec addRegister_def mk_register_def reg_value_def reg_at_def)
  then show ?thesis
    using mpy16_products [OF mpy_shape_new, of 125 "- 3" 7] by auto
qed

theorem mpy32_products_witness:
  "\<exists>rf'. mpy_seq 125 (Mpy32_regs 0x4c0 (0x4c0 + 0x2f)) (mpy32_writes OFS_MPY32L 100000 300000) = Inr rf'
     \<and> result64 rf' = 30000000000"
proof -
  have "reg_value (Mpy32_regs 0x4c0 (0x4c0 + 0x2f)) OFS_MPY32CTL0 = 0"
    by (simp add: mpy_offsets Mpy32_regs_def upt_rec addRegister_def mk_register_def reg_value_def reg_at_def)
  then show ?thesis
    using mpy32_products [OF mpy_shape_new, of 125 "100000" "300000"] by auto
qed

section \<open>Accumulation\<close>

lemma unat_or_low:
  fixes x z :: u64
  assumes "unat z < 2 ^ n" and "unat x * 2 ^ n + unat z < 2 ^ 64"
  shows "unat (push_bit n x OR z) = unat x * 2 ^ n + unat z"
proof -
  have "take_bit n z = z"
    using assms(1) by (simp add: word_unat_eq_iff unat_take_bit_mod)
  moreover have "push_bit n x AND take_bit n z = 0"
    by (rule bit_eqI) (simp add: bit_simps)
  ultimately have "push_bit n x OR z = push_bit n x + z"
    by (simp add: disjunctive_add_eq_or)
  moreover have "unat (push_bit n x) = unat x * 2 ^ n"
    using assms(2) by (simp only: unsigned_push_bit_eq) (simp add: take_bit_nat_eq_self push_bit_eq_mult)
  ultimately show ?thesis
    using assms by (simp add: unat_word_ariths(1))
qed

text \<open>The 16-bit accumulation. Writing \<open>MAC\<close> and \<open>OP2\<close> adds the product of the unsigned
  operands to the 48-bit number in \<open>SUMEXT\<close> and the result registers, and the carry flag says
  whether the sum exceeds 32 bits. The signed accumulation through \<open>MACS\<close> leaves the
  results as they were: its branch computes the operands and writes nothing.\<close>

lemma mac16_accumulates:
  fixes a b :: u16
  assumes "mpy_shape rf" and "\<not> bit (reg_value rf OFS_MPY32CTL0) 2"
    and "reg_value rf OFS_RES0 < 2 ^ 16" and "reg_value rf OFS_RES1 < 2 ^ 16" and "reg_value rf OFS_SUMEXT < 2 ^ 16"
  defines "acc \<equiv> result32 rf + 2 ^ 32 * unat (reg_value rf OFS_SUMEXT) + unat a * unat b"
  shows "(\<exists>rf'. mpy_seq period rf [(OFS_MAC, a), (OFS_OP2, b)] = Inr rf'
      \<and> result32 rf' + 2 ^ 32 * unat (reg_value rf' OFS_SUMEXT) = acc mod 2 ^ 48
      \<and> bit (reg_value rf' OFS_MPY32CTL0) 0 = (2 ^ 32 \<le> acc mod 2 ^ 48))
    \<and> (\<exists>rf'. mpy_seq period rf [(OFS_MACS, a), (OFS_OP2, b)] = Inr rf'
      \<and> result32 rf' = result32 rf \<and> reg_value rf' OFS_SUMEXT = reg_value rf OFS_SUMEXT)"
proof (rule conjI)
  obtain r1 where r1: "mpy_seq period rf [(4, a), (OFS_OP2, b)] = Mpy32_process msp430 True r1" "mpy_shape r1"
    "\<not> bit (reg_value r1 0x2c) 4" "bit (reg_value r1 0x2c) 5" "\<not> bit (reg_value r1 0x2c) 6"
    "\<not> bit (reg_value r1 0x2c) 7" "reg_value r1 4 = ucast a" "reg_value r1 8 = ucast b"
    "reg_value r1 0x24 = reg_value rf 0x24" "reg_value r1 0x26 = reg_value rf 0x26" "reg_value r1 0x0e = reg_value rf 0x0e"
    using write_op16 [OF assms(1), of 4 period a b] assms(2) by (auto simp: mpy_offsets)
  define p0 p1 pC where "p0 = unat (reg_value rf 0x24)" and "p1 = unat (reg_value rf 0x26)" and "pC = unat (reg_value rf 0x0e)"
  have p: "p0 < 2 ^ 16" "p1 < 2 ^ 16" "pC < 2 ^ 16"
    using assms(3-5) by (simp_all add: p0_def p1_def pC_def mpy_offsets word_less_nat_alt)
  define prev where "prev = (push_bit 32 (ucast (reg_value rf 0x0e)) OR push_bit 16 (ucast (reg_value rf 0x26))
      OR ucast (reg_value rf 0x24) :: u64)"
  have low: "unat (push_bit 16 (ucast (reg_value rf 0x26)) OR ucast (reg_value rf 0x24) :: u64) = p1 * 2 ^ 16 + p0"
    using p by (subst unat_or_low) (simp_all add: p0_def p1_def)
  have prev: "unat prev = pC * 2 ^ 32 + (p1 * 2 ^ 16 + p0)"
    unfolding prev_def or.assoc using p low by (subst unat_or_low) (simp_all add: pC_def)
  define res where "res = ucast (ucast a :: u32) * ucast (ucast b :: u32) + prev"
  have ab: "unat a * unat b < 2 ^ 32"
    using mult_strict_mono [of "unat a" "2 ^ 16" "unat b" "2 ^ 16"] unat_lt_2p [of a] unat_lt_2p [of b] by simp
  have prod: "unat (ucast (ucast a :: u32) * ucast (ucast b :: u32) :: u64) = unat a * unat b"
    using ab by (simp add: unat_word_ariths(2))
  have "unat a * unat b + (pC * 2 ^ 32 + (p1 * 2 ^ 16 + p0)) < 2 ^ 64"
  proof -
    define q where "q = unat a * unat b"
    have "q < 4294967296" "p0 < 65536" "p1 < 65536" "pC < 65536" using ab p by (simp_all add: q_def)
    then show ?thesis unfolding q_def [symmetric] by simp
  qed
  then have "unat res = unat a * unat b + (pC * 2 ^ 32 + (p1 * 2 ^ 16 + p0))"
    unfolding res_def unat_word_ariths(1) prod prev by simp
  then have res: "unat res = acc"
    unfolding acc_def result32_def p0_def p1_def pC_def mpy_offsets by simp
  obtain rf' where f: "Mpy32_process msp430 True r1 = Inr rf'"
    "reg_value rf' 0x24 = chunk res 0" "reg_value rf' 0x26 = chunk res 1" "reg_value rf' 0x0e = chunk res 2"
    "bit (reg_value rf' 0x2c) 0 = (chunk res 2 \<noteq> 0)"
    using process_mac16 [OF r1(2) r1(4-6)] r1(3,7-11) by (auto simp: res_def prev_def)
  have div: "acc mod 2 ^ 48 = acc mod 2 ^ 32 + 2 ^ 32 * (acc div 2 ^ 32 mod 2 ^ 16)"
    using mod_mult2_eq [of acc "2 ^ 32" "2 ^ 16"] by simp
  have low32: "acc mod 2 ^ 32 = acc mod 2 ^ 16 + 2 ^ 16 * (acc div 2 ^ 16 mod 2 ^ 16)"
    using mod_mult2_eq [of acc "2 ^ 16" "2 ^ 16"] by simp
  have sum: "result32 rf' + 2 ^ 32 * unat (reg_value rf' 0x0e) = acc mod 2 ^ 48"
    unfolding result32_def f unat_chunk res div low32 by simp
  have "chunk res 2 \<noteq> 0 \<longleftrightarrow> acc div 2 ^ 32 mod 2 ^ 16 \<noteq> 0"
    using unat_chunk [of res 2] unfolding res by (simp add: unat_eq_0 [symmetric] del: unat_eq_0)
  also have "\<dots> \<longleftrightarrow> 2 ^ 32 \<le> acc mod 2 ^ 48"
    unfolding div using mod_less_divisor [of "2 ^ 32" acc] by (cases "acc div 2 ^ 32 mod 2 ^ 16") auto
  finally show "\<exists>rf'. mpy_seq period rf [(OFS_MAC, a), (OFS_OP2, b)] = Inr rf'
      \<and> result32 rf' + 2 ^ 32 * unat (reg_value rf' OFS_SUMEXT) = acc mod 2 ^ 48
      \<and> bit (reg_value rf' OFS_MPY32CTL0) 0 = (2 ^ 32 \<le> acc mod 2 ^ 48)"
    using r1(1) f(1,5) sum by (intro exI [of _ rf']) (simp add: mpy_offsets)
next
  obtain r1 where r1: "mpy_seq period rf [(6, a), (OFS_OP2, b)] = Mpy32_process msp430 True r1" "mpy_shape r1"
    "bit (reg_value r1 0x2c) 4" "bit (reg_value r1 0x2c) 5" "\<not> bit (reg_value r1 0x2c) 6"
    "\<not> bit (reg_value r1 0x2c) 7"
    "reg_value r1 0x24 = reg_value rf 0x24" "reg_value r1 0x26 = reg_value rf 0x26" "reg_value r1 0x0e = reg_value rf 0x0e"
    using write_op16 [OF assms(1), of 6 period a b] assms(2) by (auto simp: mpy_offsets)
  then show "\<exists>rf'. mpy_seq period rf [(OFS_MACS, a), (OFS_OP2, b)] = Inr rf'
      \<and> result32 rf' = result32 rf \<and> reg_value rf' OFS_SUMEXT = reg_value rf OFS_SUMEXT"
    using process_mac16 [OF r1(2) r1(4-6)] by (auto simp: mpy_offsets result32_def)
qed

lemma mac16_accumulates_witness:
  "\<exists>rf'. mpy_seq 125 (Mpy32_regs 0x4c0 (0x4c0 + 0x2f)) [(OFS_MAC, 300), (OFS_OP2, 500)] = Inr rf'
     \<and> result32 rf' + 2 ^ 32 * unat (reg_value rf' OFS_SUMEXT) = 150000"
proof -
  have z: "reg_value (Mpy32_regs 0x4c0 (0x4c0 + 0x2f)) OFS_MPY32CTL0 = 0"
    "reg_value (Mpy32_regs 0x4c0 (0x4c0 + 0x2f)) OFS_RES0 = 0"
    "reg_value (Mpy32_regs 0x4c0 (0x4c0 + 0x2f)) OFS_RES1 = 0"
    "reg_value (Mpy32_regs 0x4c0 (0x4c0 + 0x2f)) OFS_SUMEXT = 0"
    by (simp_all add: mpy_offsets Mpy32_regs_def upt_rec addRegister_def mk_register_def reg_value_def reg_at_def)
  moreover have "result32 (Mpy32_regs 0x4c0 (0x4c0 + 0x2f)) = 0"
    using z(2,3) by (simp add: result32_def mpy_offsets)
  ultimately show ?thesis
    using mac16_accumulates [OF mpy_shape_new, of 125 "300" "500"] by auto
qed

end
