(* ===== verification/Spi_Device.thy ===== *)
theory Spi_Device
  imports Peripheral
begin

unbundle bit_operations_syntax

text \<open>
  The SPI bus as the devices see it: \<open>mcu/SpiTransactionExtension.hpp\<close>, the parameters and
  the response that travel with a transaction, \<open>sd/SpiDevice.cpp\<close>, the base class of the
  serial devices, and \<open>sd/SpiLoopBack.cpp\<close>, the device that answers with what it is sent.

  A device that takes part in a transaction stores the byte sent, responds with what it had
  prepared before, and notifies \<open>m_transactionEvent\<close>; its own process then runs and prepares
  the next response. The notification is part of the result (its delay, or \<open>None\<close>). The
  locale \<open>spi_reader\<close> is the contract of burst reads the sensors share, \<open>spi_master\<close> the one of
  the masters that software polls.
\<close>

section \<open>Signals and the extension\<close>

datatype sc_logic = SC_LOGIC_0 | SC_LOGIC_1 | SC_LOGIC_Z | SC_LOGIC_X

definition sc_logic_of :: "bool \<Rightarrow> sc_logic" where
  "sc_logic_of b = (if b then SC_LOGIC_1 else SC_LOGIC_0)"

datatype spi_polarity = Polarity_HIGH | Polarity_LOW
datatype spi_phase = CAPTURE_SECOND_EDGE | CAPTURE_FIRST_EDGE
datatype spi_bit_order = LSB_FIRST | MSB_FIRST

record spi_extension =
  nDataBits :: int
  clkPeriod :: sc_time
  polarity :: spi_polarity
  phase :: spi_phase
  bitOrder :: spi_bit_order
  response :: u32

definition SpiTransactionExtension_default :: spi_extension where
  "SpiTransactionExtension_default =
     \<lparr>nDataBits = 0, clkPeriod = 0, polarity = Polarity_LOW, phase = CAPTURE_FIRST_EDGE,
      bitOrder = LSB_FIRST, response = 0\<rparr>"

definition SpiTransactionExtension ::
  "int \<Rightarrow> sc_time \<Rightarrow> spi_polarity \<Rightarrow> spi_phase \<Rightarrow> spi_bit_order \<Rightarrow> spi_extension" where
  "SpiTransactionExtension n period pol ph order =
     \<lparr>nDataBits = n, clkPeriod = period, polarity = pol, phase = ph, bitOrder = order, response = 0\<rparr>"

text \<open>The shift amount must be below the width of \<open>unsigned\<close>.\<close>

definition maskData :: "spi_extension \<Rightarrow> u32 \<Rightarrow> u32 result" where
  "maskData e w =
     check_r (0 \<le> nDataBits e + 1 \<and> nDataBits e + 1 < 32) Undefined_behaviour
       (Inr (w AND (push_bit (nat (nDataBits e + 1)) 1 - 1)))"

text \<open>\<open>int * sc_time\<close>; a negative number of bits is outside the range of \<open>sc_time\<close>.\<close>

definition transferTime :: "spi_extension \<Rightarrow> sc_time" where
  "transferTime e = nat (nDataBits e) * clkPeriod e"

definition extension_clone :: "spi_extension \<Rightarrow> spi_extension" where
  "extension_clone e = SpiTransactionExtension (nDataBits e) (clkPeriod e) (polarity e) (phase e) (bitOrder e)"

definition extension_copy_from :: "spi_extension \<Rightarrow> spi_extension \<Rightarrow> spi_extension" where
  "extension_copy_from src e =
     e\<lparr>nDataBits := nDataBits src, clkPeriod := clkPeriod src, polarity := polarity src,
       phase := phase src, bitOrder := bitOrder src, response := response src\<rparr>"

section \<open>The base class\<close>

datatype chip_select_polarity = ActiveHigh | ActiveLow

record spi_device =
  m_SlaveInRegister :: u32
  m_SlaveOutRegister :: u32
  m_chipSelectPolarity :: chip_select_polarity

definition SpiDevice_reset :: "spi_device \<Rightarrow> spi_device" where
  "SpiDevice_reset s = s\<lparr>m_SlaveOutRegister := 0, m_SlaveInRegister := 0\<rparr>"

definition readSlaveIn :: "spi_device \<Rightarrow> u32" where
  "readSlaveIn s = m_SlaveInRegister s"

definition writeSlaveIn :: "u32 \<Rightarrow> spi_device \<Rightarrow> spi_device" where
  "writeSlaveIn v s = s\<lparr>m_SlaveInRegister := v\<rparr>"

definition readSlaveOut :: "spi_device \<Rightarrow> u32" where
  "readSlaveOut s = m_SlaveOutRegister s"

definition writeSlaveOut :: "u32 \<Rightarrow> spi_device \<Rightarrow> spi_device" where
  "writeSlaveOut v s = s\<lparr>m_SlaveOutRegister := v\<rparr>"

definition spi_enabled :: "sc_logic \<Rightarrow> spi_device \<Rightarrow> bool" where
  "spi_enabled chipSelect s \<longleftrightarrow>
     chipSelect = SC_LOGIC_1 \<and> m_chipSelectPolarity s = ActiveHigh
     \<or> chipSelect = SC_LOGIC_0 \<and> m_chipSelectPolarity s = ActiveLow"

type_synonym spi_transported =
  "(spi_device \<times> payload \<times> spi_extension option \<times> sc_time option) result"

text \<open>
  The extension is looked up in the payload (\<open>None\<close> where it carries none, a null pointer).
\<close>

definition SpiDevice_b_transport ::
  "sc_logic \<Rightarrow> bool \<Rightarrow> spi_device \<Rightarrow> payload \<Rightarrow> spi_extension option \<Rightarrow> sc_time \<Rightarrow> spi_transported" where
  "SpiDevice_b_transport chipSelect nReset s tp ext delay =
     (if spi_enabled chipSelect s \<and> nReset then
        case ext of None \<Rightarrow> Inl Undefined_behaviour
        | Some e \<Rightarrow>
            check_r (data tp \<noteq> []) Out_of_bounds
              (Inr (writeSlaveIn (ucast (data tp ! 0)) s, tp\<lparr>response_ok := True\<rparr>,
                    Some (e\<lparr>response := readSlaveOut s\<rparr>), Some delay))
      else Inr (s, tp, ext, None))"

definition SpiLoopBack_b_transport ::
  "sc_logic \<Rightarrow> bool \<Rightarrow> spi_device \<Rightarrow> payload \<Rightarrow> spi_extension option \<Rightarrow> sc_time \<Rightarrow> spi_transported" where
  "SpiLoopBack_b_transport chipSelect nReset s tp ext delay =
     (if spi_enabled chipSelect s \<and> nReset then
        case ext of None \<Rightarrow> Inl Undefined_behaviour
        | Some e \<Rightarrow>
            check_r (data tp \<noteq> []) Out_of_bounds
              (Inr (s, tp\<lparr>response_ok := True\<rparr>,
                    Some (e\<lparr>response := ucast (data tp ! 0)\<rparr>), Some delay))
      else Inr (s, tp, ext, None))"

definition SpiLoopBack_new :: "spi_device" where
  "SpiLoopBack_new = \<lparr>m_SlaveInRegister = 0, m_SlaveOutRegister = 0, m_chipSelectPolarity = ActiveLow\<rparr>"

definition SpiLoopBack_reset :: "spi_device \<Rightarrow> spi_device" where
  "SpiLoopBack_reset s = s\<lparr>m_SlaveOutRegister := 0, m_SlaveInRegister := 0\<rparr>"

section \<open>Transactions as bytes\<close>

text \<open>What a master sends for one byte, and a transaction that only looks at the byte.\<close>

definition spi_payload :: "u8 \<Rightarrow> payload" where
  "spi_payload b = \<lparr>command = TLM_WRITE_COMMAND, address = 0, data = [b], response_ok = False\<rparr>"

lemma spi_enabled_put [simp]:
  "spi_enabled cs (writeSlaveIn v s) = spi_enabled cs s"
  "spi_enabled cs (writeSlaveOut v s) = spi_enabled cs s"
  "spi_enabled cs (SpiDevice_reset s) = spi_enabled cs s"
  by (simp_all add: spi_enabled_def writeSlaveIn_def writeSlaveOut_def SpiDevice_reset_def)

lemma slave_registers [simp]:
  "readSlaveIn (writeSlaveIn v s) = v"
  "readSlaveOut (writeSlaveOut v s) = v"
  "readSlaveIn (writeSlaveOut v s) = readSlaveIn s"
  "readSlaveOut (writeSlaveIn v s) = readSlaveOut s"
  by (simp_all add: readSlaveIn_def writeSlaveIn_def readSlaveOut_def writeSlaveOut_def)

lemma SpiDevice_selected:
  "spi_enabled cs s \<Longrightarrow> SpiDevice_b_transport cs True s (spi_payload b) (Some e) d =
     Inr (writeSlaveIn (ucast b) s, (spi_payload b)\<lparr>response_ok := True\<rparr>,
          Some (e\<lparr>response := readSlaveOut s\<rparr>), Some d)"
  by (simp add: SpiDevice_b_transport_def spi_payload_def)

text \<open>A device that is not selected, or held in reset, keeps its state and answers nothing.\<close>

lemma SpiDevice_deselected:
  "\<not> (spi_enabled cs s \<and> nReset) \<Longrightarrow>
   SpiDevice_b_transport cs nReset s tp e d = Inr (s, tp, e, None)
   \<and> SpiLoopBack_b_transport cs nReset s tp e d = Inr (s, tp, e, None)"
  by (auto simp: SpiDevice_b_transport_def SpiLoopBack_b_transport_def)

lemma SpiLoopBack_echo:
  "spi_enabled cs s \<Longrightarrow> SpiLoopBack_b_transport cs True s (spi_payload b) (Some e) d =
     Inr (s, (spi_payload b)\<lparr>response_ok := True\<rparr>, Some (e\<lparr>response := ucast b\<rparr>), Some d)"
  by (simp add: SpiLoopBack_b_transport_def spi_payload_def)

text \<open>
  The mask keeps one bit more than the transfer has: with 8 data bits nine bits pass.
\<close>

lemma maskData_one_bit_too_many:
  assumes "0 \<le> nDataBits e" and "nDataBits e < 31"
  shows "maskData e w = Inr (take_bit (nat (nDataBits e) + 1) w)"
proof -
  have n: "nat (nDataBits e + 1) = nat (nDataBits e) + 1" using assms(1) by (simp add: nat_add_distrib)
  show ?thesis
    using assms unfolding maskData_def n take_bit_eq_mask
    by (simp add: mask_eq_exp_minus_1 push_bit_of_1 and.commute del: power_Suc)
qed

section \<open>Devices with a process\<close>

text \<open>
  \<open>process\<close> is the method sensitive to \<open>m_transactionEvent\<close>, run on the device after the byte
  has been stored; \<open>dev\<close> is the base-class part of its state.
\<close>

definition spi_exchange ::
  "('s \<Rightarrow> spi_device) \<Rightarrow> (spi_device \<Rightarrow> 's \<Rightarrow> 's) \<Rightarrow> (sc_logic \<Rightarrow> 's \<Rightarrow> ('s \<times> 'fx list) result) \<Rightarrow>
   sc_logic \<Rightarrow> bool \<Rightarrow> spi_extension \<Rightarrow> u8 \<Rightarrow> 's \<Rightarrow> ('s \<times> u32 \<times> 'fx list) result" where
  "spi_exchange dev put process chipSelect nReset e b s =
     bind_r (SpiDevice_b_transport chipSelect nReset (dev s) (spi_payload b) (Some e) 0) (\<lambda>(d, _, e', notified).
       let out = (case e' of Some x \<Rightarrow> response x | None \<Rightarrow> 0) in
       if notified = None then Inr (put d s, out, [])
       else bind_r (process chipSelect (put d s)) (\<lambda>(s', fx). Inr (s', out, fx)))"

fun spi_burst ::
  "(u8 \<Rightarrow> 's \<Rightarrow> ('s \<times> u32 \<times> 'fx list) result) \<Rightarrow> u8 list \<Rightarrow> 's \<Rightarrow> ('s \<times> u32 list) result" where
  "spi_burst exchange [] s = Inr (s, [])"
| "spi_burst exchange (b # bs) s =
     bind_r (exchange b s) (\<lambda>(s1, out, _).
       bind_r (spi_burst exchange bs s1) (\<lambda>(s2, outs). Inr (s2, out # outs)))"

lemma spi_exchange_selected:
  assumes "spi_enabled cs (dev s)"
  shows "spi_exchange dev put process cs True e b s =
    bind_r (process cs (put (writeSlaveIn (ucast b) (dev s)) s)) (\<lambda>(s', fx). Inr (s', readSlaveOut (dev s), fx))"
  using assms by (simp add: spi_exchange_def SpiDevice_selected)

text \<open>
  Burst reads: while \<open>reading\<close> holds each transaction returns what the device shows of its
  abstract state, whatever byte the master sends, and moves to the next one. Then a burst
  reads out the sequence of abstract states.
\<close>

locale spi_reader =
  fixes exchange :: "u8 \<Rightarrow> 's \<Rightarrow> ('s \<times> u32 \<times> 'fx list) result"
    and reading :: "'s \<Rightarrow> bool"
    and content :: "'s \<Rightarrow> 'a"
    and shown :: "'a \<Rightarrow> u32"
    and advance :: "'a \<Rightarrow> 'a"
  assumes read_step: "reading s \<Longrightarrow>
      \<exists>s' fx. exchange b s = Inr (s', shown (content s), fx) \<and> reading s' \<and> content s' = advance (content s)"
begin

lemma burst_reads:
  "reading s \<Longrightarrow> \<exists>s'. spi_burst exchange bs s
      = Inr (s', map (\<lambda>k. shown ((advance ^^ k) (content s))) [0..<length bs])
    \<and> reading s' \<and> content s' = (advance ^^ length bs) (content s)"
proof (induction bs arbitrary: s)
  case Nil
  then show ?case by simp
next
  case (Cons b bs)
  obtain s1 fx where s1: "exchange b s = Inr (s1, shown (content s), fx)" "reading s1"
      "content s1 = advance (content s)"
    using read_step [OF Cons.prems] by blast
  have shift: "(advance ^^ k) (advance x) = (advance ^^ Suc k) x" for k x
    by (simp add: funpow_swap1)
  have "map (\<lambda>k. shown ((advance ^^ k) (content s))) [0..<length (b # bs)]
    = shown (content s) # map (\<lambda>k. shown ((advance ^^ k) (content s1))) [0..<length bs]"
    unfolding s1(3) shift by (simp add: upt_conv_Cons map_Suc_upt [symmetric] comp_def del: upt_Suc funpow.simps)
  moreover have "(advance ^^ length bs) (content s1) = (advance ^^ length (b # bs)) (content s)"
    by (simp add: s1(3) funpow_swap1)
  ultimately show ?case
    using Cons.IH [OF s1(2)] s1(1) by auto
qed

end

section \<open>Masters\<close>

text \<open>
  A target of a master is a transport function over the state of what is attached. A device is
  one: its base class takes part in the transaction.
\<close>

type_synonym 'e spi_target =
  "'e \<Rightarrow> payload \<Rightarrow> spi_extension \<Rightarrow> sc_time \<Rightarrow> ('e \<times> payload \<times> spi_extension \<times> sc_time) result"

definition device_target ::
  "('s \<Rightarrow> spi_device) \<Rightarrow> (spi_device \<Rightarrow> 's \<Rightarrow> 's) \<Rightarrow> sc_logic \<Rightarrow> bool \<Rightarrow> 's spi_target" where
  "device_target dev put chipSelect nReset s tp e delay =
     bind_r (SpiDevice_b_transport chipSelect nReset (dev s) tp (Some e) delay) (\<lambda>(d, tp1, e1, _).
       Inr (put d s, tp1, (case e1 of Some e' \<Rightarrow> e' | None \<Rightarrow> e), delay))"

lemma device_target_selected:
  assumes "spi_enabled cs (dev s)" and "data tp = [b]"
  shows "device_target dev put cs True s tp e delay
    = Inr (put (writeSlaveIn (ucast b) (dev s)) s, tp\<lparr>response_ok := True\<rparr>, e\<lparr>response := readSlaveOut (dev s)\<rparr>, delay)"
  using assms by (simp add: device_target_def SpiDevice_b_transport_def)

text \<open>One-byte accesses of software to the registers of a master.\<close>

definition write_byte :: "nat \<Rightarrow> u8 \<Rightarrow> payload" where
  "write_byte a b = \<lparr>command = TLM_WRITE_COMMAND, address = of_nat a, data = [b], response_ok = False\<rparr>"

definition read_byte :: "nat \<Rightarrow> payload" where
  "read_byte a = \<lparr>command = TLM_READ_COMMAND, address = of_nat a, data = [0], response_ok = False\<rparr>"

text \<open>Software that exchanges byte after byte over a state \<open>x\<close> of master and device.\<close>

fun spi_software_burst :: "(u8 \<Rightarrow> 'x \<Rightarrow> ('x \<times> u8) result) \<Rightarrow> u8 list \<Rightarrow> 'x \<Rightarrow> ('x \<times> u8 list) result" where
  "spi_software_burst exchange [] x = Inr (x, [])"
| "spi_software_burst exchange (b # bs) x =
     bind_r (exchange b x) (\<lambda>(x1, out).
       bind_r (spi_software_burst exchange bs x1) (\<lambda>(x2, outs). Inr (x2, out # outs)))"

text \<open>
  The contract of a master that software polls: while it is idle and a device answers
  (\<open>ready\<close>), one exchange by software is one transaction of the device, after which the master
  is idle again. Then whatever device is attached, software reads back the responses the
  device gives to the same bytes, and the device ends in the same state.
\<close>

locale spi_master =
  fixes idle :: "'m \<Rightarrow> bool"
    and ready :: "'e \<Rightarrow> bool"
    and exchange :: "u8 \<Rightarrow> 'e \<Rightarrow> ('e \<times> u32 \<times> 'fx list) result"
    and software :: "u8 \<Rightarrow> 'm \<times> 'e \<Rightarrow> (('m \<times> 'e) \<times> u8) result"
  assumes software_step: "idle s \<Longrightarrow> ready env \<Longrightarrow> exchange b env = Inr (env', out, fx) \<Longrightarrow>
      \<exists>s'. software b (s, env) = Inr ((s', env'), host_byte out 0) \<and> idle s'"
begin

lemma relays:
  assumes "idle s" and "J env" and "\<And>x. J x \<Longrightarrow> ready x"
    and "\<And>x b x' out fx. J x \<Longrightarrow> exchange b x = Inr (x', out, fx) \<Longrightarrow> J x'"
    and "spi_burst exchange bs env = Inr (env', outs)"
  shows "\<exists>s'. spi_software_burst software bs (s, env) = Inr ((s', env'), map (\<lambda>v. host_byte v 0) outs) \<and> idle s'"
  using assms(1,2,5)
proof (induction bs arbitrary: s env outs)
  case (Cons b bs)
  obtain x1 out fx outs' where x1: "exchange b env = Inr (x1, out, fx)" "spi_burst exchange bs x1 = Inr (env', outs')"
      "outs = out # outs'"
    using Cons.prems(3) by (auto simp: bind_r_eq_Inr)
  obtain s1 where s1: "software b (s, env) = Inr ((s1, x1), host_byte out 0)" "idle s1"
    using software_step [OF Cons.prems(1) assms(3) [OF Cons.prems(2)] x1(1)] by blast
  show ?case
    using Cons.IH [OF s1(2) assms(4) [OF Cons.prems(2) x1(1)] x1(2)] s1(1) x1(3) by auto
qed simp

end

end
