(* ===== verification/Cm0_Spi.thy ===== *)
theory Cm0_Spi
  imports Spi_Device Cm0_Registers
begin

unbundle bit_operations_syntax

text \<open>
  \<open>mcu/cortex-m0/Spi.cpp\<close>: the serial master of the Cortex-M0 microcontroller, with its
  32-bit receive and transmit FIFOs (\<open>Spi::Fifo\<close> of the header), its registers and the
  process that sends. The process is a state machine between its waits; its targets are a
  list of transport functions over a common state, called in order. Notified events are part
  of the result of a bus access.

  \<open>nValidBytes\<close> is a mathematical integer: the code lets it become negative, which is an
  undefined shift at the next \<open>put\<close>; it would need \<open>2 ^ 30\<close> reads to overflow.

  The lemmas show that a FIFO is a bounded queue of bytes, and that software that writes bytes
  to the data register and reads it back sees exactly the responses of the device.
\<close>

section \<open>FIFOs\<close>

record spi_fifo =
  nValidBytes :: int
  fifo_data :: u32

definition Fifo_new :: spi_fifo where
  "Fifo_new = \<lparr>nValidBytes = 0, fifo_data = 0\<rparr>"

definition Fifo_reset :: "spi_fifo \<Rightarrow> spi_fifo" where
  "Fifo_reset f = f\<lparr>nValidBytes := 0, fifo_data := 0\<rparr>"

definition frame_bytes :: "int \<Rightarrow> int" where
  "frame_bytes nbits = (nbits - 1) div 8 + 1"

definition Fifo_get :: "int \<Rightarrow> spi_fifo \<Rightarrow> (u32 \<times> spi_fifo) result" where
  "Fifo_get nbits f =
     check_r (4 \<le> nbits \<and> nbits \<le> 16) Assertion_failed
       (let nbytes = frame_bytes nbits; f1 = f\<lparr>nValidBytes := nValidBytes f - nbytes\<rparr> in
        if nbytes = 1
        then Inr (fifo_data f1 AND 0x000000ff, f1\<lparr>fifo_data := drop_bit 8 (fifo_data f1)\<rparr>)
        else Inr (fifo_data f1 AND 0x0000ffff, f1\<lparr>fifo_data := drop_bit 16 (fifo_data f1)\<rparr>))"

text \<open>The result says whether the FIFO overflows. A negative shift is undefined.\<close>

definition Fifo_put :: "int \<Rightarrow> u32 \<Rightarrow> spi_fifo \<Rightarrow> (bool \<times> spi_fifo) result" where
  "Fifo_put nbits val f =
     check_r (4 \<le> nbits \<and> nbits \<le> 16) Assertion_failed
       (let nbytes = frame_bytes nbits in
        if nbytes + nValidBytes f > 4 then Inr (True, f)
        else check_r (0 \<le> nValidBytes f \<and> nValidBytes f * 8 < 32) Undefined_behaviour
          (let m = (if nbytes = 1 then 0x000000ff else 0x0000ffff); sh = nat (nValidBytes f * 8);
               d1 = fifo_data f AND NOT (push_bit sh m);
               d2 = d1 OR push_bit sh (val AND m)
           in Inr (False, f\<lparr>fifo_data := d2, nValidBytes := nValidBytes f + nbytes\<rparr>)))"

definition Fifo_level :: "spi_fifo \<Rightarrow> int" where
  "Fifo_level f = (if nValidBytes f \<le> 2 then nValidBytes f else if nValidBytes f = 3 then 2 else 3)"

section \<open>State and registers\<close>

datatype spi_pc = Spi_start | Spi_waiting | Spi_transfer u32 int

record spi =
  sp_regs :: register_file
  m_enable :: bool
  sp_setIrq :: bool
  m_txFifo :: spi_fifo
  m_rxFifo :: spi_fifo
  sp_irq :: bool
  sp_ext :: spi_extension
  dataOut :: "u8 list"
  sp_pc :: spi_pc

datatype spi_event = Tx_event sc_time | Enable_event sc_time | Update_irq_event
  | Cancel_update_irq | Cancel_tx | Cancel_enable

definition OFS_SPI_CR1 :: nat where "OFS_SPI_CR1 = 0x00"
definition OFS_SPI_CR2 :: nat where "OFS_SPI_CR2 = 0x04"
definition OFS_SPI_SR :: nat where "OFS_SPI_SR = 0x08"
definition OFS_SPI_DR :: nat where "OFS_SPI_DR = 0x0c"
definition OFS_SPI_CRCPR :: nat where "OFS_SPI_CRCPR = 0x10"
definition OFS_SPI_RXCRCR :: nat where "OFS_SPI_RXCRCR = 0x14"
definition OFS_SPI_TXCRCR :: nat where "OFS_SPI_TXCRCR = 0x18"
definition SPI1_EXCEPT_ID :: int where "SPI1_EXCEPT_ID = 25"

lemmas spi_offsets = OFS_SPI_CR1_def OFS_SPI_CR2_def OFS_SPI_SR_def OFS_SPI_DR_def OFS_SPI_CRCPR_def
  OFS_SPI_RXCRCR_def OFS_SPI_TXCRCR_def

abbreviation BIDIMODE_MASK :: u32 where "BIDIMODE_MASK \<equiv> 0x8000"
abbreviation CRCEN_MASK :: u32 where "CRCEN_MASK \<equiv> 0x2000"
abbreviation CRCNEXT_MASK :: u32 where "CRCNEXT_MASK \<equiv> 0x1000"
abbreviation RXONLY_MASK :: u32 where "RXONLY_MASK \<equiv> 0x400"
abbreviation LSBFIRST_MASK :: u32 where "LSBFIRST_MASK \<equiv> 0x80"
abbreviation SPE_MASK :: u32 where "SPE_MASK \<equiv> 0x40"
abbreviation BR_MASK :: u32 where "BR_MASK \<equiv> 0x38"
abbreviation CPOL_MASK :: u32 where "CPOL_MASK \<equiv> 2"
abbreviation CPHA_MASK :: u32 where "CPHA_MASK \<equiv> 1"
abbreviation FRXTH_MASK :: u32 where "FRXTH_MASK \<equiv> 0x1000"
abbreviation DS_MASK :: u32 where "DS_MASK \<equiv> 0xf00"
abbreviation TXEIE_MASK :: u32 where "TXEIE_MASK \<equiv> 0x80"
abbreviation RXNEIE_MASK :: u32 where "RXNEIE_MASK \<equiv> 0x40"
abbreviation BSY_MASK :: u32 where "BSY_MASK \<equiv> 0x80"
abbreviation TXE_MASK :: u32 where "TXE_MASK \<equiv> 2"
abbreviation RXNE_MASK :: u32 where "RXNE_MASK \<equiv> 1"

definition Spi_regs :: register_file where
  "Spi_regs =
     (let add = (\<lambda>a v rf. addRegister rf a v READ_WRITE (- 1)) in
      add OFS_SPI_TXCRCR 0 (add OFS_SPI_RXCRCR 0 (add OFS_SPI_CRCPR 7 (add OFS_SPI_DR 0
      (add OFS_SPI_SR 2 (add OFS_SPI_CR2 0x0700 (add OFS_SPI_CR1 0 [])))))))"

text \<open>The two bytes of \<open>dataOut\<close> are not initialised.\<close>

definition Spi_new :: "u8 \<Rightarrow> u8 \<Rightarrow> spi" where
  "Spi_new j0 j1 =
     \<lparr>sp_regs = Spi_regs, m_enable = False, sp_setIrq = False, m_txFifo = Fifo_new, m_rxFifo = Fifo_new,
      sp_irq = False, sp_ext = SpiTransactionExtension_default, dataOut = [j0, j1], sp_pc = Spi_start\<rparr>"

definition Spi_reset :: "spi \<Rightarrow> spi \<times> spi_event list" where
  "Spi_reset s =
     (s\<lparr>sp_regs := rf_reset (sp_regs s), m_enable := False, sp_setIrq := False,
        m_txFifo := Fifo_reset (Fifo_reset (m_txFifo s))\<rparr>, [Cancel_update_irq, Cancel_tx, Cancel_enable])"

definition updateStatusRegister :: "bool \<Rightarrow> spi \<Rightarrow> spi result" where
  "updateStatusRegister isBusy s =
     bind_r (rf_read (sp_regs s) OFS_SPI_CR2) (\<lambda>cr2.
     let FRXTH_nbytes = (if drop_bit 12 (cr2 AND FRXTH_MASK) \<noteq> 0 then 1 else 2);
         RXNE = of_bool (nValidBytes (m_rxFifo s) \<ge> FRXTH_nbytes);
         TXE = of_bool (nValidBytes (m_txFifo s) \<le> 2);
         newSr = push_bit 11 (of_int (Fifo_level (m_txFifo s)))
           OR push_bit 9 (of_int (Fifo_level (m_rxFifo s))) OR push_bit 1 TXE OR RXNE
           OR push_bit 7 (of_bool isBusy)
     in bind_r (rf_write (sp_regs s) OFS_SPI_SR newSr False) (\<lambda>rf. Inr (s\<lparr>sp_regs := rf\<rparr>)))"

definition checkImplemented :: "spi \<Rightarrow> unit result" where
  "checkImplemented s =
     bind_r (rf_read (sp_regs s) OFS_SPI_CR1) (\<lambda>cr1.
       check_r (cr1 AND BIDIMODE_MASK = 0) Report_fatal
      (check_r (cr1 AND CRCEN_MASK = 0) Report_fatal
      (check_r (cr1 AND CRCNEXT_MASK = 0) Report_fatal
      (check_r (cr1 AND RXONLY_MASK = 0) Report_fatal (Inr ())))))"

definition Spi_irqControl :: "int \<Rightarrow> spi \<Rightarrow> spi" where
  "Spi_irqControl active_exception s =
     (let s1 = (if sp_setIrq s \<and> \<not> sp_irq s then s\<lparr>sp_irq := True\<rparr>
                else if active_exception - 16 = SPI1_EXCEPT_ID then s\<lparr>sp_irq := False\<rparr> else s)
      in s1\<lparr>sp_setIrq := False\<rparr>)"

section \<open>Bus access\<close>

definition word_offset :: "u64 \<Rightarrow> nat" where
  "word_offset a = unat (a AND 0xfffffffc)"

definition is_busy :: "spi \<Rightarrow> bool result" where
  "is_busy s = bind_r (rf_read (sp_regs s) OFS_SPI_SR) (\<lambda>sr. Inr (sr AND BSY_MASK \<noteq> 0))"

definition spi_written :: "nat \<Rightarrow> nat \<Rightarrow> u32 \<Rightarrow> sc_time \<Rightarrow> spi \<Rightarrow> (spi \<times> spi_event list) result" where
  "spi_written ofs len val delay s =
     (if ofs = OFS_SPI_CR1 then
        let fx = (if \<not> m_enable s \<and> val AND SPE_MASK \<noteq> 0 then [Enable_event delay] else []);
            s1 = s\<lparr>m_enable := (val AND SPE_MASK \<noteq> 0)\<rparr>
        in bind_r (checkImplemented s1) (\<lambda>_. Inr (s1, fx))
      else if ofs = OFS_SPI_CR2 then bind_r (checkImplemented s) (\<lambda>_. Inr (s, []))
      else if ofs = OFS_SPI_DR then
        bind_r (Fifo_put (8 * int len) val (m_txFifo s)) (\<lambda>(_, f).
        let s1 = s\<lparr>m_txFifo := f\<rparr> in
        bind_r (is_busy s1) (\<lambda>busy.
        bind_r (updateStatusRegister busy s1) (\<lambda>s2. Inr (s2, [Tx_event delay]))))
      else Inr (s, []))"

definition spi_data_read :: "target \<Rightarrow> spi \<Rightarrow> payload \<Rightarrow> (spi \<times> payload) result" where
  "spi_data_read t s tp =
     bind_r
       (if data_length tp = 2 then
          bind_r (Fifo_get 16 (m_rxFifo s)) (\<lambda>(v, f).
          bind_r (unpackBytes (data tp) (ucast (htots t 0 v)) 2) (\<lambda>buf.
            Inr (s\<lparr>m_rxFifo := f\<rparr>, tp\<lparr>data := buf\<rparr>)))
        else
          check_r (data tp \<noteq> []) Out_of_bounds
            (bind_r (Fifo_get 8 (m_rxFifo s)) (\<lambda>(v, f).
              Inr (s\<lparr>m_rxFifo := f\<rparr>, tp\<lparr>data := (data tp)[0 := ucast v]\<rparr>))))
       (\<lambda>(s1, tp1). bind_r (is_busy s1) (\<lambda>busy.
         bind_r (updateStatusRegister busy s1) (\<lambda>s2. Inr (s2, tp1))))"

definition Spi_b_transport ::
  "target \<Rightarrow> sc_time \<Rightarrow> spi \<Rightarrow> payload \<Rightarrow> sc_time
     \<Rightarrow> (spi \<times> payload \<times> sc_time \<times> effect list \<times> spi_event list) result" where
  "Spi_b_transport t access_period s tp delay =
     bind_r (BusTarget_b_transport t access_period (sp_regs s) tp delay) (\<lambda>(rf, tp1, d, fx).
     let s1 = s\<lparr>sp_regs := rf\<rparr>; len = data_length tp1; ofs = word_offset (address tp1) in
     bind_r (rf_read rf (unat (address tp1))) (\<lambda>val.
     check_r (\<not> (len > 2 \<and> ofs = OFS_SPI_DR)) Report_fatal
       (case command tp1 of
          TLM_WRITE_COMMAND \<Rightarrow>
            bind_r (spi_written ofs len val d s1) (\<lambda>(s2, ev). Inr (s2, tp1, d, fx, ev))
        | TLM_READ_COMMAND \<Rightarrow>
            if ofs = OFS_SPI_DR then
              bind_r (spi_data_read t s1 tp1) (\<lambda>(s2, tp2). Inr (s2, tp2, d, fx, []))
            else Inr (s1, tp1, d, fx, [])
        | TLM_IGNORE_COMMAND \<Rightarrow> Inr (s1, tp1, d, fx, []))))"

section \<open>The sending process\<close>

definition frame_bits :: "u32 \<Rightarrow> int" where
  "frame_bits cr2 =
     (let nbits = int (unat (drop_bit 8 (cr2 AND DS_MASK))) + 1 in if nbits < 4 then 8 else nbits)"

definition readyToTransmit :: "bool \<Rightarrow> spi \<Rightarrow> bool result" where
  "readyToTransmit pwrOn s =
     bind_r (rf_read (sp_regs s) OFS_SPI_CR2) (\<lambda>cr2.
       Inr (pwrOn \<and> m_enable s \<and> nValidBytes (m_txFifo s) \<ge> (frame_bits cr2 + 7) div 8))"

text \<open>Every target is called; more than one answer is fatal. \<open>answered\<close> is \<open>responses > 0\<close>.\<close>

fun transport_all ::
  "'e spi_target list \<Rightarrow> bool \<Rightarrow> 'e \<Rightarrow> payload \<Rightarrow> spi_extension \<Rightarrow> sc_time
     \<Rightarrow> ('e \<times> payload \<times> spi_extension \<times> sc_time) result" where
  "transport_all [] answered env tp e delay = Inr (env, tp\<lparr>response_ok := answered\<rparr>, e, delay)"
| "transport_all (target # targets) answered env tp e delay =
     bind_r (target env tp e delay) (\<lambda>(env1, tp1, e1, d1).
       if response_ok tp1 then
         check_r (\<not> answered) Report_fatal
           (transport_all targets True env1 (tp1\<lparr>response_ok := False\<rparr>) e1 d1)
       else transport_all targets answered env1 tp1 e1 d1)"

text \<open>The parameters of a transaction.\<close>

definition spi_parameters :: "sc_time \<Rightarrow> u32 \<Rightarrow> u32 \<Rightarrow> spi_extension \<Rightarrow> spi_extension" where
  "spi_parameters period cr1 cr2 e =
     e\<lparr>bitOrder := (if cr1 AND LSBFIRST_MASK \<noteq> 0 then LSB_FIRST else MSB_FIRST),
       clkPeriod := period * unat (push_bit (unat (drop_bit 3 (cr1 AND BR_MASK))) 2 :: u32),
       polarity := (if cr1 AND CPOL_MASK \<noteq> 0 then Polarity_HIGH else Polarity_LOW),
       phase := (if cr1 AND CPHA_MASK \<noteq> 0 then CAPTURE_SECOND_EDGE else CAPTURE_FIRST_EDGE),
       nDataBits := frame_bits cr2\<rparr>"

definition spi_begin ::
  "'e spi_target list \<Rightarrow> sc_time \<Rightarrow> spi \<Rightarrow> 'e \<Rightarrow> (spi \<times> 'e \<times> sc_time) result" where
  "spi_begin targets period s env =
     bind_r (updateStatusRegister True s) (\<lambda>s1.
     bind_r (rf_read (sp_regs s1) OFS_SPI_CR1) (\<lambda>cr1.
     bind_r (rf_read (sp_regs s1) OFS_SPI_CR2) (\<lambda>cr2.
     let nbits = frame_bits cr2; nbytes = nat ((nbits + 7) div 8);
         e = spi_parameters period cr1 cr2 (sp_ext s1)
     in bind_r (Fifo_get nbits (m_txFifo s1)) (\<lambda>(v, f).
        bind_r (unpackBytes (dataOut s1) (ucast v) nbytes) (\<lambda>out.
        let tp = \<lparr>command = TLM_WRITE_COMMAND, address = 0, data = take nbytes out, response_ok = False\<rparr>
        in bind_r (transport_all targets False env tp e (transferTime e)) (\<lambda>(env1, tp1, e1, delay).
             Inr (s1\<lparr>m_txFifo := f, dataOut := data tp1 @ drop nbytes out, sp_ext := e1,
                     sp_pc := Spi_transfer cr2 nbits\<rparr>, env1, delay)))))))"

definition spi_finish :: "u32 \<Rightarrow> int \<Rightarrow> spi \<Rightarrow> (spi \<times> spi_event list) result" where
  "spi_finish cr2 nbits s =
     bind_r (Fifo_put nbits (response (sp_ext s)) (m_rxFifo s)) (\<lambda>(_, f).
     bind_r (updateStatusRegister False (s\<lparr>m_rxFifo := f\<rparr>)) (\<lambda>s1.
     bind_r (rf_read (sp_regs s1) OFS_SPI_SR) (\<lambda>sr.
     let RXIRQ = (cr2 AND RXNEIE_MASK \<noteq> 0 \<and> sr AND RXNE_MASK \<noteq> 0);
         TXIRQ = (cr2 AND TXEIE_MASK \<noteq> 0 \<and> sr AND TXE_MASK \<noteq> 0)
     in if RXIRQ \<or> TXIRQ then Inr (s1\<lparr>sp_setIrq := True\<rparr>, [Update_irq_event])
        else Inr (s1, []))))"

text \<open>What the process waits for: an event (transmit, enable, power) or a delay.\<close>

datatype spi_wait = Spi_wait_event | Spi_wait_time sc_time

definition spi_try ::
  "'e spi_target list \<Rightarrow> sc_time \<Rightarrow> bool \<Rightarrow> spi \<Rightarrow> 'e \<Rightarrow> (spi \<times> 'e \<times> spi_wait) result" where
  "spi_try targets period pwrOn s env =
     bind_r (readyToTransmit pwrOn s) (\<lambda>ready.
       if ready then bind_r (spi_begin targets period s env) (\<lambda>(s1, env1, delay). Inr (s1, env1, Spi_wait_time delay))
       else Inr (s\<lparr>sp_pc := Spi_waiting\<rparr>, env, Spi_wait_event))"

definition Spi_process ::
  "'e spi_target list \<Rightarrow> sc_time \<Rightarrow> bool \<Rightarrow> spi \<Rightarrow> 'e \<Rightarrow> (spi \<times> 'e \<times> spi_event list \<times> spi_wait) result" where
  "Spi_process targets period pwrOn s env =
     (case sp_pc s of
        Spi_start \<Rightarrow> bind_r (spi_try targets period pwrOn s env) (\<lambda>(s1, env1, w). Inr (s1, env1, [], w))
      | Spi_waiting \<Rightarrow> bind_r (spi_try targets period pwrOn s env) (\<lambda>(s1, env1, w). Inr (s1, env1, [], w))
      | Spi_transfer cr2 nbits \<Rightarrow>
          bind_r (spi_finish cr2 nbits s) (\<lambda>(s1, ev).
          bind_r (spi_try targets period pwrOn s1 env) (\<lambda>(s2, env1, w). Inr (s2, env1, ev, w))))"

section \<open>A FIFO is a bounded queue of bytes\<close>

definition fifo_ok :: "spi_fifo \<Rightarrow> bool" where
  "fifo_ok f \<longleftrightarrow> 0 \<le> nValidBytes f \<and> nValidBytes f \<le> 4"

definition fifo_content :: "spi_fifo \<Rightarrow> u8 list" where
  "fifo_content f = map (host_byte (fifo_data f)) [0..<nat (nValidBytes f)]"

text \<open>The operations on the queue; a \<open>get\<close> of more than there is has no meaning.\<close>

definition queue_put :: "nat \<Rightarrow> u32 \<Rightarrow> u8 list \<Rightarrow> bool \<times> u8 list" where
  "queue_put k v q = (if k + length q > 4 then (True, q) else (False, q @ map (host_byte v) [0..<k]))"

definition queue_value :: "u8 list \<Rightarrow> u32" where
  "queue_value bs = (case bs of [b] \<Rightarrow> ucast b | b # c # _ \<Rightarrow> host_load32 b c 0 0 | [] \<Rightarrow> 0)"

definition queue_get :: "nat \<Rightarrow> u8 list \<Rightarrow> (u32 \<times> u8 list) option" where
  "queue_get k q = (if k \<le> length q then Some (queue_value (take k q), drop k q) else None)"

definition legal_bits :: "int \<Rightarrow> bool" where
  "legal_bits nbits \<longleftrightarrow> 4 \<le> nbits \<and> nbits \<le> 16"

lemma frame_bytes_cases: "legal_bits nbits \<Longrightarrow> frame_bytes nbits = (if nbits \<le> 8 then 1 else 2)"
  by (auto simp: frame_bytes_def legal_bits_def)

lemma length_fifo_content [simp]: "length (fifo_content f) = nat (nValidBytes f)"
  by (simp add: fifo_content_def)

lemma host_byte_drop [simp]: "host_byte (drop_bit (8 * k) v) i = host_byte v (i + k)"
  by (simp add: host_byte_def algebra_simps)

lemma fifo_content_drop:
  "k \<le> nat n \<Longrightarrow>
   fifo_content \<lparr>nValidBytes = n - int k, fifo_data = drop_bit (8 * k) d\<rparr>
     = drop k (fifo_content \<lparr>nValidBytes = n, fifo_data = d\<rparr>)"
  by (rule nth_equalityI) (auto simp: fifo_content_def nat_diff_distrib add.commute)

lemma and_ff: "(v :: u32) AND 0xff = ucast (host_byte v 0)"
  by (rule bit_eqI) (auto simp: host_byte_def bit_simps dest: bit_imp_le_length)

lemma and_ffff: "(v :: u32) AND 0xffff = host_load32 (host_byte v 0) (host_byte v (Suc 0)) 0 0"
  by (rule bit_eqI) (auto simp: host_byte_def host_load32_def bit_simps dest: bit_imp_le_length)

lemma fifo_get_queue:
  assumes "fifo_ok f" and "legal_bits nbits" and "queue_get (nat (frame_bytes nbits)) (fifo_content f) = Some (v, q)"
  shows "\<exists>f'. Fifo_get nbits f = Inr (v, f') \<and> fifo_ok f' \<and> fifo_content f' = q"
proof -
  obtain n d where f: "f = \<lparr>nValidBytes = n, fifo_data = d\<rparr>" by (cases f)
  have n: "0 \<le> n" "n \<le> 4" using assms(1) by (simp_all add: f fifo_ok_def)
  show ?thesis
  proof (cases "nbits \<le> 8")
    case True
    then have k: "frame_bytes nbits = 1" using assms(2) by (simp add: frame_bytes_cases)
    then have le: "1 \<le> nat n" and vq: "v = queue_value (take 1 (fifo_content f))" "q = drop 1 (fifo_content f)"
      using assms(3) by (auto simp: queue_get_def f split: if_splits)
    have "take 1 (fifo_content f) = [host_byte d 0]"
      using le by (simp add: fifo_content_def f take_map)
    then have "Fifo_get nbits f = Inr (v, \<lparr>nValidBytes = n - int 1, fifo_data = drop_bit (8 * 1) d\<rparr>)"
      using assms(2) k vq(1) by (simp add: Fifo_get_def legal_bits_def f queue_value_def and_ff)
    moreover have "fifo_ok \<lparr>nValidBytes = n - int 1, fifo_data = drop_bit (8 * 1) d\<rparr>"
      using le n by (simp add: fifo_ok_def)
    ultimately show ?thesis using fifo_content_drop [OF le, of d] vq(2) f by blast
  next
    case False
    then have k: "frame_bytes nbits = 2" using assms(2) by (simp add: frame_bytes_cases)
    then have le: "2 \<le> nat n" and vq: "v = queue_value (take 2 (fifo_content f))" "q = drop 2 (fifo_content f)"
      using assms(3) by (auto simp: queue_get_def f split: if_splits)
    have "take 2 (fifo_content f) = [host_byte d 0, host_byte d 1]"
      using le by (simp add: fifo_content_def f take_map numeral_2_eq_2)
    then have "Fifo_get nbits f = Inr (v, \<lparr>nValidBytes = n - int 2, fifo_data = drop_bit (8 * 2) d\<rparr>)"
      using assms(2) k vq(1) by (simp add: Fifo_get_def legal_bits_def f queue_value_def and_ffff)
    moreover have "fifo_ok \<lparr>nValidBytes = n - int 2, fifo_data = drop_bit (8 * 2) d\<rparr>"
      using le n by (simp add: fifo_ok_def)
    ultimately show ?thesis using fifo_content_drop [OF le, of d] vq(2) f by blast
  qed
qed

lemma host_byte_put:
  fixes d v :: u32
  assumes "i < 4" and "j < 4"
  shows "host_byte (d AND NOT (push_bit (8 * j) 0xff) OR push_bit (8 * j) (v AND 0xff)) i
      = (if i = j then host_byte v 0 else host_byte d i)"
    "i \<le> Suc j \<Longrightarrow> host_byte (d AND NOT (push_bit (8 * j) 0xffff) OR push_bit (8 * j) (v AND 0xffff)) i
      = (if i = j then host_byte v 0 else if i = Suc j then host_byte v (Suc 0) else host_byte d i)"
proof -
  consider "i < j" | "i = j" | "i = Suc j" | "Suc j < i" by linarith
  note c = this
  show "host_byte (d AND NOT (push_bit (8 * j) 0xff) OR push_bit (8 * j) (v AND 0xff)) i
      = (if i = j then host_byte v 0 else host_byte d i)"
    using c assms by cases (auto intro!: bit_word_eqI simp: host_byte_def bit_simps)
  show "host_byte (d AND NOT (push_bit (8 * j) 0xffff) OR push_bit (8 * j) (v AND 0xffff)) i
      = (if i = j then host_byte v 0 else if i = Suc j then host_byte v (Suc 0) else host_byte d i)" if "i \<le> Suc j"
    using c that assms by cases (auto intro!: bit_word_eqI simp: host_byte_def bit_simps)
qed

lemma fifo_put_queue:
  assumes "fifo_ok f" and "legal_bits nbits"
  shows "\<exists>f'. Fifo_put nbits v f = Inr (fst (queue_put (nat (frame_bytes nbits)) v (fifo_content f)), f')
    \<and> fifo_ok f' \<and> fifo_content f' = snd (queue_put (nat (frame_bytes nbits)) v (fifo_content f))"
proof -
  obtain n d where f: "f = \<lparr>nValidBytes = n, fifo_data = d\<rparr>" by (cases f)
  have n: "0 \<le> n" "n \<le> 4" using assms(1) by (simp_all add: f fifo_ok_def)
  define j where "j = nat n"
  have j: "n = int j" using n by (simp add: j_def)
  have k: "frame_bytes nbits = (if nbits \<le> 8 then 1 else 2)" by (rule frame_bytes_cases [OF assms(2)])
  show ?thesis
  proof (cases "frame_bytes nbits + n > 4")
    case True
    then show ?thesis
      using assms k by (auto simp: Fifo_put_def legal_bits_def f queue_put_def j)
  next
    case False
    have shift: "nat (int j * 8) = 8 * j" by simp
    let ?m = "if nbits \<le> 8 then 0xff else 0xffff :: u32"
    define f' where "f' = \<lparr>nValidBytes = n + frame_bytes nbits,
      fifo_data = d AND NOT (push_bit (8 * j) ?m) OR push_bit (8 * j) (v AND ?m)\<rparr>"
    have put: "Fifo_put nbits v f = Inr (False, f')"
      using False assms(2) k j shift by (auto simp: Fifo_put_def legal_bits_def f f'_def Let_def)
    have ok': "fifo_ok f'" using False n k by (auto simp: fifo_ok_def f'_def)
    have len: "j + (if nbits \<le> 8 then 1 else 2) \<le> 4" using False j k by (auto split: if_splits)
    have "fifo_content f' = fifo_content f @ map (host_byte v) [0..<if nbits \<le> 8 then 1 else 2]"
    proof (rule nth_equalityI)
      show "length (fifo_content f') = length (fifo_content f @ map (host_byte v) [0..<if nbits \<le> 8 then 1 else 2])"
        by (simp add: f'_def f j k nat_add_distrib)
      fix i assume "i < length (fifo_content f')"
      then have i: "i < j + (if nbits \<le> 8 then 1 else 2)" by (simp add: f'_def j k nat_add_distrib split: if_splits)
      then show "fifo_content f' ! i = (fifo_content f @ map (host_byte v) [0..<if nbits \<le> 8 then 1 else 2]) ! i"
        using len host_byte_put [of i j d v]
        by (auto simp: fifo_content_def f'_def f j k nth_append nat_add_distrib less_Suc_eq split: if_splits)
    qed
    then show ?thesis
      using put ok' False by (auto simp: queue_put_def k f j)
  qed
qed

datatype fifo_op = Put int u32 | Get int

fun fifo_run :: "fifo_op list \<Rightarrow> spi_fifo \<Rightarrow> (u32 list \<times> spi_fifo) result" where
  "fifo_run [] f = Inr ([], f)"
| "fifo_run (Put nbits v # ops) f = bind_r (Fifo_put nbits v f) (\<lambda>(_, f'). fifo_run ops f')"
| "fifo_run (Get nbits # ops) f =
     bind_r (Fifo_get nbits f) (\<lambda>(v, f'). bind_r (fifo_run ops f') (\<lambda>(vs, f''). Inr (v # vs, f'')))"

fun queue_run :: "fifo_op list \<Rightarrow> u8 list \<Rightarrow> (u32 list \<times> u8 list) option" where
  "queue_run [] q = Some ([], q)"
| "queue_run (Put nbits v # ops) q =
     (if legal_bits nbits then queue_run ops (snd (queue_put (nat (frame_bytes nbits)) v q)) else None)"
| "queue_run (Get nbits # ops) q =
     (if legal_bits nbits then
        (case queue_get (nat (frame_bytes nbits)) q of None \<Rightarrow> None
         | Some (v, q') \<Rightarrow> map_option (\<lambda>(vs, q''). (v # vs, q'')) (queue_run ops q'))
      else None)"

text \<open>C32: the 32-bit FIFOs of the serial master implement a queue of at most four bytes. Any
  sequence of puts and gets of 4 to 16 bits that never takes out more than there is returns
  what the queue returns and leaves what the queue leaves; a put that does not fit is
  ignored.\<close>

theorem spi_fifo_is_queue:
  assumes "fifo_ok f" and "queue_run ops (fifo_content f) = Some (vs, q)"
  shows "\<exists>f'. fifo_run ops f = Inr (vs, f') \<and> fifo_ok f' \<and> fifo_content f' = q"
  using assms
proof (induction ops arbitrary: f vs)
  case (Cons op ops)
  show ?case
  proof (cases op)
    case (Put nbits v)
    then have l: "legal_bits nbits" using Cons.prems(2) by (simp split: if_splits)
    obtain f1 where "Fifo_put nbits v f = Inr (fst (queue_put (nat (frame_bytes nbits)) v (fifo_content f)), f1)"
        "fifo_ok f1" "fifo_content f1 = snd (queue_put (nat (frame_bytes nbits)) v (fifo_content f))"
      using fifo_put_queue [OF Cons.prems(1) l] by blast
    then show ?thesis using Cons.IH [of f1 vs] Cons.prems(2) l Put by simp
  next
    case (Get nbits)
    then have l: "legal_bits nbits" using Cons.prems(2) by (simp split: if_splits)
    obtain v q1 vs' where v: "queue_get (nat (frame_bytes nbits)) (fifo_content f) = Some (v, q1)"
        "queue_run ops q1 = Some (vs', q)" "vs = v # vs'"
      using Cons.prems(2) l Get by (auto split: option.splits)
    then obtain f1 where "Fifo_get nbits f = Inr (v, f1)" "fifo_ok f1" "fifo_content f1 = q1"
      using fifo_get_queue [OF Cons.prems(1) l] by blast
    then show ?thesis using Cons.IH [of f1 vs'] v Get by auto
  qed
qed simp

theorem spi_fifo_is_queue_witness:
  "\<exists>f'. fifo_run [Put 8 0x41, Put 16 0x4342, Get 8, Put 16 0x9999, Get 16] Fifo_new = Inr ([0x41, 0x4342], f')
    \<and> fifo_content f' = [0x99, 0x99]"
proof -
  have "fifo_content Fifo_new = []" by (simp add: fifo_content_def Fifo_new_def)
  moreover have "queue_run [Put 8 0x41, Put 16 0x4342, Get 8, Put 16 0x9999, Get 16] []
      = Some ([0x41, 0x4342], [0x99, 0x99])"
    by code_simp
  ultimately show ?thesis
    using spi_fifo_is_queue [of Fifo_new "[Put 8 0x41, Put 16 0x4342, Get 8, Put 16 0x9999, Get 16]"]
    by (fastforce simp: fifo_ok_def Fifo_new_def)
qed

text \<open>A read of the empty receive FIFO leaves a negative number of bytes.\<close>

lemma fifo_underflow_undefined:
  "bind_r (Fifo_get 8 Fifo_new) (\<lambda>(v, f). Fifo_put 8 w f) = Inl Undefined_behaviour"
  by (simp add: Fifo_get_def Fifo_put_def Fifo_new_def frame_bytes_def)

section \<open>A byte sent by software and its response\<close>

definition spi_shape :: "register_file \<Rightarrow> bool" where
  "spi_shape rf \<longleftrightarrow> rw rf 0 \<and> rw rf 4 \<and> rw rf 8 \<and> rw rf 12 \<and> mask_of rf 12 = - 1"

lemma spi_shapeD:
  assumes "spi_shape rf"
  shows "rw rf 0" "rw rf 4" "rw rf 8" "rw rf 12" "mask_of rf 12 = - 1"
  using assms by (simp_all add: spi_shape_def)

lemma spi_shape_put [simp]: "spi_shape (put_reg rf a v f) = spi_shape rf"
  unfolding spi_shape_def rw_put_reg mask_of_put_reg by (rule refl)

text \<open>The master is idle and enabled, its FIFOs are empty, and frames have eight bits.\<close>

definition spi_idle :: "spi \<Rightarrow> bool" where
  "spi_idle s \<longleftrightarrow> spi_shape (sp_regs s) \<and> sp_pc s = Spi_waiting \<and> m_enable s
     \<and> nValidBytes (m_txFifo s) = 0 \<and> nValidBytes (m_rxFifo s) = 0
     \<and> frame_bits (reg_value (sp_regs s) 4) = 8 \<and> length (dataOut s) = 2"

definition status_value :: "bool \<Rightarrow> spi \<Rightarrow> u32" where
  "status_value isBusy s =
     push_bit 11 (of_int (Fifo_level (m_txFifo s))) OR push_bit 9 (of_int (Fifo_level (m_rxFifo s)))
     OR push_bit 1 (of_bool (nValidBytes (m_txFifo s) \<le> 2))
     OR of_bool (nValidBytes (m_rxFifo s)
          \<ge> (if drop_bit 12 (reg_value (sp_regs s) 4 AND FRXTH_MASK) \<noteq> 0 then 1 else 2))
     OR push_bit 7 (of_bool isBusy)"

lemma update_status:
  "spi_shape (sp_regs s) \<Longrightarrow> updateStatusRegister b s
    = Inr (s\<lparr>sp_regs := put_reg (sp_regs s) 8 (status_value b s) False\<rparr>)"
  using spi_shapeD [of "sp_regs s"]
  by (simp add: updateStatusRegister_def spi_offsets status_value_def Let_def)

lemma is_busy_ok: "spi_shape (sp_regs s) \<Longrightarrow> is_busy s = Inr (reg_value (sp_regs s) 8 AND BSY_MASK \<noteq> 0)"
  using spi_shapeD [of "sp_regs s"] by (simp add: is_busy_def spi_offsets)

definition spi_software_exchange ::
  "'e spi_target list \<Rightarrow> sc_time \<Rightarrow> sc_time \<Rightarrow> ('e \<Rightarrow> ('e \<times> 'fx list) result)
     \<Rightarrow> u8 \<Rightarrow> spi \<times> 'e \<Rightarrow> ((spi \<times> 'e) \<times> u8) result" where
  "spi_software_exchange targets period access_period process b se =
     bind_r (Spi_b_transport cortex_m0 access_period (fst se) (write_byte 0xc b) 0) (\<lambda>(s1, _).
     bind_r (Spi_process targets period True s1 (snd se)) (\<lambda>(s2, env1, _, _).
     bind_r (process env1) (\<lambda>(env2, _).
     bind_r (Spi_process targets period True s2 env2) (\<lambda>(s3, env3, _, _).
     bind_r (Spi_b_transport cortex_m0 access_period s3 (read_byte 0xc) 0) (\<lambda>(s4, tp, _).
       Inr ((s4, env3), data tp ! 0))))))"

lemma host_byte_set_0: "host_byte (set_host_byte v 0 b) 0 = b"
  by simp

lemma data_register_offset: "word_offset (of_nat 12) = 12"
  by (simp add: word_offset_def)

lemma fifo_put_one:
  "nValidBytes f = 0 \<Longrightarrow> \<exists>d. Fifo_put 8 v f = Inr (False, f\<lparr>fifo_data := d, nValidBytes := 1\<rparr>) \<and> host_byte d 0 = host_byte v 0"
  using host_byte_put(1) [of 0 0 "fifo_data f" v]
  by (intro exI [of _ "fifo_data f AND NOT (push_bit 0 0xff) OR push_bit 0 (v AND 0xff)"])
    (simp add: Fifo_put_def frame_bytes_def Let_def)

lemma fifo_get_one:
  "nValidBytes f = 1 \<Longrightarrow> Fifo_get 8 f
    = Inr (ucast (host_byte (fifo_data f) 0), f\<lparr>nValidBytes := 0, fifo_data := drop_bit 8 (fifo_data f)\<rparr>)"
  by (simp add: Fifo_get_def frame_bytes_def and_ff)

lemma spi_write_data:
  assumes "spi_shape (sp_regs s)" and "nValidBytes (m_txFifo s) = 0"
  shows "\<exists>s' tp dl fx ev. Spi_b_transport cortex_m0 access_period s (write_byte 0xc b) 0 = Inr (s', tp, dl, fx, ev)
    \<and> spi_shape (sp_regs s') \<and> reg_value (sp_regs s') 4 = reg_value (sp_regs s) 4
    \<and> nValidBytes (m_txFifo s') = 1 \<and> host_byte (fifo_data (m_txFifo s')) 0 = b
    \<and> m_rxFifo s' = m_rxFifo s \<and> m_enable s' = m_enable s \<and> sp_pc s' = sp_pc s \<and> dataOut s' = dataOut s"
proof -
  note rf = spi_shapeD [OF assms(1)]
  define v where "v = set_host_byte (reg_value (sp_regs s) 12) 0 b"
  define r1 where "r1 = put_reg (sp_regs s) 12 v False"
  have bus: "BusTarget_b_transport cortex_m0 access_period (sp_regs s) (write_byte 0xc b) 0
    = Inr (r1, (write_byte 0xc b)\<lparr>response_ok := True\<rparr>, access_period, [Notify Write_event access_period, Report Pe_write 1])"
    using rf by (simp add: BusTarget_b_transport_def write_byte_def rf_write_buf.simps rf_writeByte_def
        cortex_m0_def Let_def v_def r1_def)
  have r1: "spi_shape r1" "reg_value r1 12 = v" "reg_value r1 4 = reg_value (sp_regs s) 4" "rw r1 12"
    using rf assms(1) by (simp_all add: r1_def)
  obtain d where d: "Fifo_put 8 v (m_txFifo s) = Inr (False, (m_txFifo s)\<lparr>fifo_data := d, nValidBytes := 1\<rparr>)"
      "host_byte d 0 = b"
    using fifo_put_one [OF assms(2), of v] by (auto simp: v_def host_byte_set_0)
  define s1 where "s1 = s\<lparr>sp_regs := r1, m_txFifo := (m_txFifo s)\<lparr>fifo_data := d, nValidBytes := 1\<rparr>\<rparr>"
  have s1: "spi_shape (sp_regs s1)" using r1 by (simp add: s1_def)
  have "Spi_b_transport cortex_m0 access_period s (write_byte 0xc b) 0
      = Inr (s1\<lparr>sp_regs := put_reg r1 8 (status_value (reg_value r1 8 AND BSY_MASK \<noteq> 0) s1) False\<rparr>,
             (write_byte 0xc b)\<lparr>response_ok := True\<rparr>, access_period,
             [Notify Write_event access_period, Report Pe_write 1], [Tx_event access_period])"
    using bus r1 d(1) is_busy_ok [OF s1] update_status [OF s1] data_register_offset
    by (simp add: Spi_b_transport_def write_byte_def data_length_def spi_written_def spi_offsets s1_def Let_def)
  then show ?thesis
    using d(2) r1 by (simp add: s1_def)
qed

lemma transport_one:
  assumes "target env tp e d = Inr (env', tp', e', d')" and "response_ok tp'"
  shows "transport_all [target] False env tp e d = Inr (env', tp', e', d')"
  using assms by simp

text \<open>The first step sends the byte, the second one stores the response.\<close>

lemma spi_process_begin:
  assumes "spi_shape (sp_regs s)" and "sp_pc s = Spi_waiting" and "m_enable s"
    and "frame_bits (reg_value (sp_regs s) 4) = 8" and "length (dataOut s) = 2"
    and "nValidBytes (m_txFifo s) = 1" and "spi_enabled cs (dev env)"
  shows "\<exists>s' ev w. Spi_process [device_target dev put cs True] period True s env
      = Inr (s', put (writeSlaveIn (ucast (host_byte (fifo_data (m_txFifo s)) 0)) (dev env)) env, ev, w)
    \<and> spi_shape (sp_regs s') \<and> reg_value (sp_regs s') 4 = reg_value (sp_regs s) 4
    \<and> nValidBytes (m_txFifo s') = 0 \<and> m_rxFifo s' = m_rxFifo s \<and> m_enable s'
    \<and> sp_pc s' = Spi_transfer (reg_value (sp_regs s) 4) 8 \<and> length (dataOut s') = 2
    \<and> response (sp_ext s') = readSlaveOut (dev env)"
proof -
  note rf = spi_shapeD [OF assms(1)]
  define b where "b = host_byte (fifo_data (m_txFifo s)) 0"
  define s1 where "s1 = s\<lparr>sp_regs := put_reg (sp_regs s) 8 (status_value True s) False\<rparr>"
  have up: "updateStatusRegister True s = Inr s1" by (simp add: update_status [OF assms(1)] s1_def)
  obtain j0 j1 where junk: "dataOut s = [j0, j1]" using list_of_2 [OF assms(5)] by blast
  have out: "unpackBytes (dataOut s1) (ucast (ucast b :: u32)) (Suc 0) = Inr [b, j1]"
    by (simp add: s1_def junk unpackBytes_def) (rule bit_eqI, simp add: bit_simps)
  define e where "e = spi_parameters period (reg_value (sp_regs s1) 0) (reg_value (sp_regs s) 4) (sp_ext s1)"
  define tp where "tp = \<lparr>command = TLM_WRITE_COMMAND, address = 0, data = [b], response_ok = False\<rparr>"
  let ?env = "put (writeSlaveIn (ucast b) (dev env)) env"
  have tr: "transport_all [device_target dev put cs True] False env tp e (transferTime e)
      = Inr (?env, tp\<lparr>response_ok := True\<rparr>, e\<lparr>response := readSlaveOut (dev env)\<rparr>, transferTime e)"
    using device_target_selected [of cs dev env tp b put e "transferTime e"] assms(7) by (simp add: tp_def)
  have regs: "rf_read (sp_regs s1) 0 = Inr (reg_value (sp_regs s1) 0)" "rf_read (sp_regs s1) 4 = Inr (reg_value (sp_regs s1) 4)"
      "reg_value (sp_regs s1) 4 = reg_value (sp_regs s) 4"
    using rf by (simp_all add: s1_def)
  have get: "Fifo_get 8 (m_txFifo s1) = Inr (ucast b, (m_txFifo s)\<lparr>nValidBytes := 0, fifo_data := drop_bit 8 (fifo_data (m_txFifo s))\<rparr>)"
    using fifo_get_one [OF assms(6)] by (simp add: s1_def b_def)
  have "spi_begin [device_target dev put cs True] period s env
    = Inr (s1\<lparr>m_txFifo := (m_txFifo s)\<lparr>nValidBytes := 0, fifo_data := drop_bit 8 (fifo_data (m_txFifo s))\<rparr>,
             dataOut := [b, j1], sp_ext := e\<lparr>response := readSlaveOut (dev env)\<rparr>,
             sp_pc := Spi_transfer (reg_value (sp_regs s) 4) 8\<rparr>, ?env, transferTime e)"
    using assms(4) up regs get out tr
    by (simp add: spi_begin_def spi_offsets Let_def e_def [symmetric] tp_def del: transport_all.simps)
  then show ?thesis
    using assms(1-4,6) rf
    by (simp add: Spi_process_def spi_try_def readyToTransmit_def spi_offsets b_def [symmetric] s1_def)
qed

lemma spi_process_finish:
  assumes "spi_shape (sp_regs s)" and "sp_pc s = Spi_transfer cr2 8"
    and "frame_bits (reg_value (sp_regs s) 4) = 8" and "nValidBytes (m_txFifo s) = 0" and "nValidBytes (m_rxFifo s) = 0"
  shows "\<exists>s' ev w. Spi_process targets period True s env = Inr (s', env, ev, w)
    \<and> spi_shape (sp_regs s') \<and> reg_value (sp_regs s') 4 = reg_value (sp_regs s) 4
    \<and> nValidBytes (m_txFifo s') = 0 \<and> nValidBytes (m_rxFifo s') = 1
    \<and> host_byte (fifo_data (m_rxFifo s')) 0 = host_byte (response (sp_ext s)) 0
    \<and> m_enable s' = m_enable s \<and> sp_pc s' = Spi_waiting \<and> dataOut s' = dataOut s"
proof -
  note rf = spi_shapeD [OF assms(1)]
  obtain d where put: "Fifo_put 8 (response (sp_ext s)) (m_rxFifo s)
      = Inr (False, (m_rxFifo s)\<lparr>fifo_data := d, nValidBytes := 1\<rparr>)" "host_byte d 0 = host_byte (response (sp_ext s)) 0"
    using fifo_put_one [OF assms(5)] by blast
  define s1 where "s1 = s\<lparr>m_rxFifo := (m_rxFifo s)\<lparr>fifo_data := d, nValidBytes := 1\<rparr>\<rparr>"
  have s1: "spi_shape (sp_regs s1)" using assms(1) by (simp add: s1_def)
  define s2 where "s2 = s1\<lparr>sp_regs := put_reg (sp_regs s1) 8 (status_value False s1) False\<rparr>"
  have "rw (sp_regs s2) 8" using rf by (simp add: s2_def s1_def)
  then obtain b ev where fin: "spi_finish cr2 8 s = Inr (s2\<lparr>sp_setIrq := b\<rparr>, ev)"
    using put(1) update_status [OF s1, of False] that [of "sp_setIrq s2"] that [of True]
    by (fastforce simp: spi_finish_def spi_offsets s2_def [symmetric] s1_def [symmetric] Let_def)
  have fields: "m_txFifo s2 = m_txFifo s" "spi_shape (sp_regs s2)" "reg_value (sp_regs s2) 4 = reg_value (sp_regs s) 4"
      "m_rxFifo s2 = (m_rxFifo s)\<lparr>fifo_data := d, nValidBytes := 1\<rparr>" "m_enable s2 = m_enable s" "dataOut s2 = dataOut s"
    using assms(1) by (simp_all add: s2_def s1_def)
  then show ?thesis
    using fin assms(2-4) spi_shapeD(2) [OF fields(2)] put(2)
    by (simp add: Spi_process_def spi_try_def readyToTransmit_def spi_offsets)
qed

lemma spi_read_data:
  assumes "spi_shape (sp_regs s)" and "nValidBytes (m_rxFifo s) = 1"
  shows "\<exists>s' tp dl fx ev. Spi_b_transport cortex_m0 access_period s (read_byte 0xc) 0 = Inr (s', tp, dl, fx, ev)
    \<and> data tp = [host_byte (fifo_data (m_rxFifo s)) 0]
    \<and> spi_shape (sp_regs s') \<and> reg_value (sp_regs s') 4 = reg_value (sp_regs s) 4
    \<and> m_txFifo s' = m_txFifo s \<and> nValidBytes (m_rxFifo s') = 0 \<and> m_enable s' = m_enable s
    \<and> sp_pc s' = sp_pc s \<and> dataOut s' = dataOut s"
proof -
  note rf = spi_shapeD [OF assms(1)]
  obtain r where r: "reg_at (sp_regs s) 12 = Some r" "access r = READ_WRITE" using rf(4) by (auto simp: rw_def)
  have bus: "BusTarget_b_transport cortex_m0 access_period (sp_regs s) (read_byte 0xc) 0
    = Inr (sp_regs s, (read_byte 0xc)\<lparr>data := [host_byte (reg_val r) 0], response_ok := True\<rparr>, access_period,
        [Notify Read_event access_period, Report Pe_read 1])"
    using r by (simp add: BusTarget_b_transport_def read_byte_def data_length_def rf_read_buf.simps rf_readByte_def
        cortex_m0_def Let_def rf_find_def readable_def)
  define s1 where "s1 = s\<lparr>m_rxFifo := (m_rxFifo s)\<lparr>nValidBytes := 0, fifo_data := drop_bit 8 (fifo_data (m_rxFifo s))\<rparr>\<rparr>"
  have s1: "spi_shape (sp_regs s1)" using assms(1) by (simp add: s1_def)
  have byte: "ucast (ucast b :: u32) = b" for b :: u8 by (rule bit_eqI) (simp add: bit_simps)
  have "Spi_b_transport cortex_m0 access_period s (read_byte 0xc) 0
      = Inr (s1\<lparr>sp_regs := put_reg (sp_regs s1) 8 (status_value (reg_value (sp_regs s) 8 AND BSY_MASK \<noteq> 0) s1) False\<rparr>,
             (read_byte 0xc)\<lparr>data := [host_byte (fifo_data (m_rxFifo s)) 0], response_ok := True\<rparr>, access_period,
             [Notify Read_event access_period, Report Pe_read 1], [])"
    using bus fifo_get_one [OF assms(2)] is_busy_ok [OF s1] update_status [OF s1] data_register_offset rf
    by (simp add: Spi_b_transport_def read_byte_def data_length_def spi_data_read_def spi_offsets s1_def Let_def byte)
  then show ?thesis using assms(1) by (simp add: s1_def)
qed

lemma spi_software_step:
  assumes "spi_idle s" and "spi_enabled cs (dev env)"
    and "spi_exchange dev put process cs True e b env = Inr (env', out, fx)"
  shows "\<exists>s'. spi_software_exchange [device_target dev put cs True] period access_period (process cs) b (s, env)
      = Inr ((s', env'), host_byte out 0) \<and> spi_idle s'"
proof -
  let ?target = "[device_target dev put cs True]" and ?env1 = "put (writeSlaveIn (ucast b) (dev env)) env"
  have out: "process cs ?env1 = Inr (env', fx)" "out = readSlaveOut (dev env)"
    using assms(3) unfolding spi_exchange_selected [where dev = dev, OF assms(2)] by (auto simp: bind_r_eq_Inr)
  have idle: "spi_shape (sp_regs s)" "sp_pc s = Spi_waiting" "m_enable s" "nValidBytes (m_txFifo s) = 0"
      "nValidBytes (m_rxFifo s) = 0" "frame_bits (reg_value (sp_regs s) 4) = 8" "length (dataOut s) = 2"
    using assms(1) by (simp_all add: spi_idle_def)
  obtain s1 tp1 dl1 fx1 ev1 where s1:
      "Spi_b_transport cortex_m0 access_period s (write_byte 0xc b) 0 = Inr (s1, tp1, dl1, fx1, ev1)"
      "spi_shape (sp_regs s1)" "reg_value (sp_regs s1) 4 = reg_value (sp_regs s) 4"
      "nValidBytes (m_txFifo s1) = 1" "host_byte (fifo_data (m_txFifo s1)) 0 = b"
      "m_rxFifo s1 = m_rxFifo s" "m_enable s1" "sp_pc s1 = Spi_waiting" "length (dataOut s1) = 2"
    using spi_write_data [OF idle(1,4), of access_period b] idle by auto
  obtain s2 ev2 w2 where s2: "Spi_process ?target period True s1 env = Inr (s2, ?env1, ev2, w2)"
      "spi_shape (sp_regs s2)" "reg_value (sp_regs s2) 4 = reg_value (sp_regs s) 4"
      "nValidBytes (m_txFifo s2) = 0" "m_rxFifo s2 = m_rxFifo s" "m_enable s2"
      "sp_pc s2 = Spi_transfer (reg_value (sp_regs s) 4) 8" "length (dataOut s2) = 2"
      "response (sp_ext s2) = readSlaveOut (dev env)"
    using spi_process_begin [of s1 cs dev env put period] s1 idle assms(2) by (auto simp del: host_byte_drop)
  obtain s3 ev3 w3 where s3: "Spi_process ?target period True s2 env' = Inr (s3, env', ev3, w3)"
      "spi_shape (sp_regs s3)" "reg_value (sp_regs s3) 4 = reg_value (sp_regs s) 4"
      "nValidBytes (m_txFifo s3) = 0" "nValidBytes (m_rxFifo s3) = 1"
      "host_byte (fifo_data (m_rxFifo s3)) 0 = host_byte out 0"
      "m_enable s3" "sp_pc s3 = Spi_waiting" "length (dataOut s3) = 2"
    using spi_process_finish [OF s2(2,7), of ?target period env'] s2 idle out(2) by auto
  obtain s4 tp4 dl4 fx4 ev4 where s4:
      "Spi_b_transport cortex_m0 access_period s3 (read_byte 0xc) 0 = Inr (s4, tp4, dl4, fx4, ev4)"
      "data tp4 = [host_byte out 0]" "spi_shape (sp_regs s4)" "reg_value (sp_regs s4) 4 = reg_value (sp_regs s) 4"
      "nValidBytes (m_txFifo s4) = 0" "nValidBytes (m_rxFifo s4) = 0" "m_enable s4" "sp_pc s4 = Spi_waiting"
      "length (dataOut s4) = 2"
    using spi_read_data [OF s3(2,5), of access_period] s3 by auto
  show ?thesis
    using s1(1) s2(1) out(1) s3(1) s4 idle(6) by (simp add: spi_software_exchange_def spi_idle_def)
qed

interpretation m0_master: spi_master spi_idle "\<lambda>x. spi_enabled cs (dev x)" "spi_exchange dev put process cs True e"
  "spi_software_exchange [device_target dev put cs True] period access_period (process cs)"
  for cs dev put process e period access_period
  by unfold_locales (rule spi_software_step)

end
