(* ===== verification/Input_Trace.thy ===== *)
theory Input_Trace
  imports Sim_Config Power_Model
begin

text \<open>
  The input traces of the sensors (constructors of \<open>sd/Accelerometer.cpp\<close> and
  \<open>sd/Bme280.cpp\<close>): a file of comma-separated numbers, the time in seconds in the first
  column and three physical values in the next ones, replayed cyclically with the time step
  of its first two rows. The tokenizer \<open>libs/strtk.hpp\<close> is a parameter \<open>grid\<close>, from the
  file name to the rows of numbers. Doubles are real numbers, times are picoseconds; the
  conversion of a real number to a machine integer outside its range is undefined.
\<close>

section \<open>Conversions\<close>

text \<open>The constructor \<open>sc_time(v, SC_MS)\<close> rounds to the resolution.\<close>

definition sc_time_ms :: "real \<Rightarrow> sc_time" where
  "sc_time_ms v = nat \<lfloor>v * 1000000000 + 1 / 2\<rfloor>"

text \<open>\<open>static_cast\<close> from \<open>double\<close> to an unsigned type of \<open>LENGTH('a)\<close> bits: towards zero.\<close>

definition real_to_unsigned :: "real \<Rightarrow> 'a::len word result" where
  "real_to_unsigned x =
     check_r (- 1 < x \<and> x < 2 ^ LENGTH('a)) Undefined_behaviour
       (Inr (if x < 0 then 0 else of_int \<lfloor>x\<rfloor>))"

section \<open>Traces\<close>

type_synonym trace_entry = "real \<times> real \<times> real"

definition grid_get :: "real list list \<Rightarrow> nat \<Rightarrow> nat \<Rightarrow> real result" where
  "grid_get rows r c =
     check_r (r < length rows \<and> c < length (rows ! r)) Out_of_bounds (Inr (rows ! r ! c))"

fun trace_entries :: "real list list \<Rightarrow> nat list \<Rightarrow> trace_entry list result" where
  "trace_entries rows [] = Inr []"
| "trace_entries rows (i # is) =
     bind_r (grid_get rows i 1) (\<lambda>x.
     bind_r (grid_get rows i 2) (\<lambda>y.
     bind_r (grid_get rows i 3) (\<lambda>z.
     bind_r (trace_entries rows is) (\<lambda>rest. Inr ((x, y, z) # rest)))))"

definition load_trace ::
  "(string \<Rightarrow> bool) \<Rightarrow> (string \<Rightarrow> real list list result) \<Rightarrow> string \<Rightarrow> trace_entry \<Rightarrow> sim_config
     \<Rightarrow> (trace_entry list \<times> sc_time) result" where
  "load_trace file_exists grid key constant c =
     bind_r (if config_contains key c then bind_r (getString key c) (\<lambda>fn. Inr (fn \<noteq> ''none'')) else Inr False)
       (\<lambda>valid.
        if valid then
          bind_r (getString key c) (\<lambda>fn.
          check_r (file_exists fn) Exit_failure
            (bind_r (grid fn) (\<lambda>rows.
             bind_r (trace_entries rows [0..<length rows]) (\<lambda>entries.
             bind_r (grid_get rows 1 0) (\<lambda>t1.
             bind_r (grid_get rows 0 0) (\<lambda>t0.
               Inr (entries, sc_time_ms (1000 * (t1 - t0)))))))))
        else Inr ([constant], sc_time_ms 1000))"

text \<open>The entry replayed at a time.\<close>

definition trace_at :: "trace_entry list \<Rightarrow> sc_time \<Rightarrow> sc_time \<Rightarrow> trace_entry result" where
  "trace_at trace timestep now =
     check_r (timestep \<noteq> 0) Division_by_zero
       (check_r (now div timestep < 2 ^ 32) Undefined_behaviour
         (check_r (trace \<noteq> []) Division_by_zero
           (Inr (trace ! ((now div timestep) mod length trace)))))"

lemma trace_at_cyclic:
  assumes "trace \<noteq> []" and "timestep \<noteq> 0" and "k < 2 ^ 32" and "r < timestep"
  shows "trace_at trace timestep (k * timestep + r) = Inr (trace ! (k mod length trace))"
  using assms by (simp add: trace_at_def)

lemma real_to_unsigned_ok:
  assumes "0 \<le> x" and "x < 2 ^ LENGTH('a::len)"
  shows "\<exists>w :: 'a word. real_to_unsigned x = Inr w \<and> real (unat w) \<le> x \<and> x < real (unat w) + 1"
proof -
  have fl: "0 \<le> \<lfloor>x\<rfloor>" "\<lfloor>x\<rfloor> < 2 ^ LENGTH('a)"
    using assms by (simp_all add: floor_less_iff)
  define n where "n = nat \<lfloor>x\<rfloor>"
  have n: "\<lfloor>x\<rfloor> = int n" "n < 2 ^ LENGTH('a)"
    using fl by (simp_all add: n_def nat_less_iff)
  have u: "unat (of_int \<lfloor>x\<rfloor> :: 'a word) = n" using n by simp
  have "real n \<le> x" "x < real n + 1"
    using n(1) of_int_floor_le [of x] floor_correct [of x] by simp_all
  then show ?thesis using assms u by (auto simp: real_to_unsigned_def)
qed

lemma load_trace_nonempty:
  assumes "load_trace file_exists grid key constant c = Inr (trace, step)"
  shows "trace \<noteq> []"
proof -
  have "trace_entries rows is = Inr es \<Longrightarrow> length es = length is" for rows "is" es
    by (induction "is" arbitrary: es) (auto simp: bind_r_eq_Inr)
  then show ?thesis
    using assms by (fastforce simp: load_trace_def result_elims grid_get_def split: if_splits)
qed

end
