(* ===== verification/Accelerometer.thy ===== *)
theory Accelerometer
  imports Spi_Device Input_Trace
begin

unbundle bit_operations_syntax

text \<open>
  \<open>sd/Accelerometer.cpp\<close>: a three-axis sensor with an output FIFO behind a serial
  interface. \<open>spiInterface\<close> is the method that runs after each transaction and when the chip
  is deselected, \<open>measurementLoop\<close> the thread that samples; the thread is a state machine
  whose program counter says which \<open>wait\<close> it is in. Notified events, reports to the power
  model and the write of the interrupt line are effects of a step, the interrupt line as last
  written is part of the state.
\<close>

section \<open>State\<close>

datatype spi_mode = Mode_Address | Mode_DataRead | Mode_DataWrite

datatype accel_state = Acc_Sleep | Acc_Standby | Acc_Continuous | Acc_Single

datatype accel_pc =
    Apc_start
  | Apc_idle
  | Apc_to_standby accel_state
  | Apc_to_sleep accel_state
  | Apc_sampling

datatype accel_effect =
    Acc_notify_mode | Acc_cancel_mode | Acc_notify_irq
  | Acc_report_sleep | Acc_report_active | Acc_report_sample

record accel =
  ac_dev :: spi_device
  ac_regs :: register_file
  ac_mode :: spi_mode
  ac_address :: u32
  ac_state :: accel_state
  m_fifo :: "u8 list"
  m_setIrq :: bool
  ac_irq :: sc_logic
  ac_trace :: "trace_entry list"
  ac_timestep :: sc_time
  ac_pc :: accel_pc

definition AC_CTRL :: nat where "AC_CTRL = 0x00"
definition AC_CTRL_FS :: nat where "AC_CTRL_FS = 0x04"
definition AC_STATUS :: nat where "AC_STATUS = 0x08"
definition AC_DATA :: nat where "AC_DATA = 0x0c"
definition AC_FIFO_THR :: nat where "AC_FIFO_THR = 0x10"

definition FIFO_CAPACITY :: nat where "FIFO_CAPACITY = 1024"

lemmas ac_offsets = AC_CTRL_def AC_CTRL_FS_def AC_STATUS_def AC_DATA_def AC_FIFO_THR_def

abbreviation CTRL_MODE :: u32 where "CTRL_MODE \<equiv> 3"
abbreviation CTRL_MODE_STANDBY :: u32 where "CTRL_MODE_STANDBY \<equiv> 1"
abbreviation CTRL_SW_RESET :: u32 where "CTRL_SW_RESET \<equiv> 4"
abbreviation CTRL_X_EN :: u32 where "CTRL_X_EN \<equiv> 8"
abbreviation CTRL_Y_EN :: u32 where "CTRL_Y_EN \<equiv> 0x10"
abbreviation CTRL_Z_EN :: u32 where "CTRL_Z_EN \<equiv> 0x20"
abbreviation CTRL_HEADER_MASK :: u32 where "CTRL_HEADER_MASK \<equiv> 0x38"
abbreviation CTRL_IE :: u32 where "CTRL_IE \<equiv> 0x40"
abbreviation STATUS_BUSY :: u32 where "STATUS_BUSY \<equiv> 1"

definition Accelerometer_regs :: register_file where
  "Accelerometer_regs =
     (let add = (\<lambda>a v rf. addRegister rf a v READ_WRITE (- 1)) in
      add AC_FIFO_THR 0 (add AC_DATA 0 (add AC_STATUS STATUS_BUSY (add AC_CTRL_FS 0 (add AC_CTRL 0 [])))))"

text \<open>\<open>junk_in\<close> and \<open>junk_out\<close>: the shift registers, which only \<open>reset\<close> initialises.\<close>

definition Accelerometer_new ::
  "(string \<Rightarrow> bool) \<Rightarrow> (string \<Rightarrow> real list list result) \<Rightarrow> sim_config \<Rightarrow> u32 \<Rightarrow> u32 \<Rightarrow> accel result" where
  "Accelerometer_new file_exists grid c junk_in junk_out =
     bind_r (load_trace file_exists grid ''AccelerometerTraceFile'' (0, 0, 981 / 100) c) (\<lambda>(trace, step).
       Inr \<lparr>ac_dev = \<lparr>m_SlaveInRegister = junk_in, m_SlaveOutRegister = junk_out, m_chipSelectPolarity = ActiveLow\<rparr>,
            ac_regs = Accelerometer_regs, ac_mode = Mode_Address, ac_address = 0xffffffff,
            ac_state = Acc_Sleep, m_fifo = [], m_setIrq = False, ac_irq = SC_LOGIC_X,
            ac_trace = trace, ac_timestep = step, ac_pc = Apc_start\<rparr>)"

definition Accelerometer_reportState :: "accel \<Rightarrow> accel_effect" where
  "Accelerometer_reportState s = (if ac_state s = Acc_Sleep then Acc_report_sleep else Acc_report_active)"

definition Accelerometer_reset :: "accel \<Rightarrow> accel \<times> accel_effect list" where
  "Accelerometer_reset s =
     (let s1 = s\<lparr>ac_regs := rf_reset (ac_regs s), ac_dev := SpiDevice_reset (ac_dev s),
                ac_mode := Mode_Address, ac_address := 0xffffffff, m_fifo := [], ac_state := Acc_Sleep\<rparr>
      in (s1, [Acc_cancel_mode, Accelerometer_reportState s1]))"

definition Accelerometer_updateIrq :: "accel \<Rightarrow> accel" where
  "Accelerometer_updateIrq s = s\<lparr>ac_irq := sc_logic_of (m_setIrq s)\<rparr>"

section \<open>The serial interface\<close>

text \<open>Whether the FIFO is below its threshold; the product is a 32-bit one.\<close>

definition below_threshold :: "accel \<Rightarrow> bool result" where
  "below_threshold s =
     bind_r (rf_read (ac_regs s) AC_FIFO_THR) (\<lambda>thr. Inr (length (m_fifo s) < unat (thr * 4)))"

definition clear_irq_on_read :: "accel \<Rightarrow> (accel \<times> accel_effect list) result" where
  "clear_irq_on_read s =
     (if ac_irq s = SC_LOGIC_1 then
        bind_r (if ac_state s = Acc_Continuous then below_threshold s else Inr False) (\<lambda>clearContinuousMode.
        bind_r (rf_read (ac_regs s) AC_CTRL) (\<lambda>ctrl.
          if clearContinuousMode \<or> m_fifo s = [] \<or> ctrl AND CTRL_IE = 0
          then Inr (s\<lparr>m_setIrq := False\<rparr>, [Acc_notify_irq])
          else Inr (s, [])))
      else Inr (s, []))"

definition accel_command :: "u32 \<Rightarrow> accel \<Rightarrow> (accel \<times> accel_effect list) result" where
  "accel_command payload s =
     check_r (rf_contains (ac_regs s) (unat (ac_address s))) Report_fatal
       (bind_r (rf_write (ac_regs s) (unat (ac_address s)) payload False) (\<lambda>rf.
          let s1 = s\<lparr>ac_regs := rf\<rparr>;
              (s2, fx) = (if ac_address s1 = 0 then
                            if payload AND CTRL_SW_RESET \<noteq> 0 then Accelerometer_reset s1
                            else (s1, [Acc_notify_mode])
                          else (s1, []))
          in Inr (s2\<lparr>ac_mode := Mode_Address\<rparr>, fx)))"

definition accel_prepare :: "accel \<Rightarrow> accel result" where
  "accel_prepare s =
     (if ac_mode s = Mode_DataRead then
        check_r (rf_contains (ac_regs s) (unat (ac_address s))) Report_fatal
          (if ac_address s = 0x0c then
             Inr (s\<lparr>ac_dev := writeSlaveOut (case m_fifo s of [] \<Rightarrow> 0 | b # _ \<Rightarrow> ucast b) (ac_dev s)\<rparr>)
           else
             bind_r (rf_read (ac_regs s) (unat (ac_address s))) (\<lambda>v.
               Inr (s\<lparr>ac_dev := writeSlaveOut v (ac_dev s)\<rparr>)))
      else Inr (s\<lparr>ac_dev := writeSlaveOut 0 (ac_dev s)\<rparr>))"

definition Accelerometer_spiInterface :: "sc_logic \<Rightarrow> accel \<Rightarrow> (accel \<times> accel_effect list) result" where
  "Accelerometer_spiInterface chipSelect s =
     (let READ_BIT = push_bit 7 1; payload = readSlaveIn (ac_dev s) in
      if spi_enabled chipSelect (ac_dev s) then
        bind_r
          (case ac_mode s of
             Mode_Address \<Rightarrow>
               Inr (s\<lparr>ac_address := payload AND NOT READ_BIT,
                      ac_mode := (if payload AND READ_BIT \<noteq> 0 then Mode_DataRead else Mode_DataWrite)\<rparr>, [])
           | Mode_DataRead \<Rightarrow>
               clear_irq_on_read
                 (if ac_address s = 0x0c \<and> m_fifo s \<noteq> [] then s\<lparr>m_fifo := tl (m_fifo s)\<rparr> else s)
           | Mode_DataWrite \<Rightarrow> accel_command payload s)
          (\<lambda>(s1, fx). bind_r (accel_prepare s1) (\<lambda>s2. Inr (s2, fx)))
      else Inr (s\<lparr>ac_mode := Mode_Address\<rparr>, []))"

section \<open>The measurement loop\<close>

definition accel_setting :: "u32 \<Rightarrow> accel_state" where
  "accel_setting ctrl =
     (let m = ctrl AND CTRL_MODE in
      if m = 0 then Acc_Sleep else if m = 1 then Acc_Standby else if m = 2 then Acc_Continuous else Acc_Single)"

definition to_standby_mode :: "accel \<Rightarrow> accel result" where
  "to_standby_mode s =
     bind_r (rf_clearBitMask (ac_regs s) AC_CTRL CTRL_MODE False) (\<lambda>rf1.
     bind_r (rf_setBitMask rf1 AC_CTRL CTRL_MODE_STANDBY False) (\<lambda>rf2. Inr (s\<lparr>ac_regs := rf2\<rparr>)))"

text \<open>What a wait is for: the mode event or a time.\<close>

datatype accel_wait = Wait_mode | Wait_delay sc_time

text \<open>The end of \<open>nextMeasurementState\<close> and the start of the loop body, up to its wait.\<close>

definition accel_enter :: "accel_state \<Rightarrow> accel \<Rightarrow> (accel \<times> accel_effect list \<times> accel_wait) result" where
  "accel_enter setting s =
     (let fx = (if setting \<noteq> ac_state s then [Accelerometer_reportState s] else []);
          s1 = s\<lparr>ac_state := setting\<rparr>
      in if setting = Acc_Continuous \<or> setting = Acc_Single then
           bind_r (rf_setBitMask (ac_regs s1) AC_STATUS STATUS_BUSY False) (\<lambda>rf.
           bind_r (rf_read rf AC_CTRL_FS) (\<lambda>fs.
             Inr (s1\<lparr>ac_regs := rf, ac_pc := Apc_sampling\<rparr>, fx, Wait_delay (100000000 * unat (fs + 1)))))
         else Inr (s1\<lparr>ac_pc := Apc_idle\<rparr>, fx, Wait_mode))"

text \<open>The start of \<open>nextMeasurementState\<close>.\<close>

definition accel_next :: "accel \<Rightarrow> (accel \<times> accel_effect list \<times> accel_wait) result" where
  "accel_next s =
     bind_r (rf_read (ac_regs s) AC_CTRL) (\<lambda>ctrl.
     bind_r (if ac_state s = Acc_Sleep \<and> (accel_setting ctrl = Acc_Continuous \<or> accel_setting ctrl = Acc_Single)
             then bind_r (to_standby_mode s) (\<lambda>s1. Inr (Acc_Standby, s1))
             else Inr (accel_setting ctrl, s))
       (\<lambda>(setting, s1).
        if ac_state s1 = Acc_Sleep \<and> setting = Acc_Standby then
          Inr (s1\<lparr>ac_pc := Apc_to_standby setting\<rparr>, [], Wait_delay 1000000000)
        else if ac_state s1 = Acc_Standby \<and> setting = Acc_Sleep then
          Inr (s1\<lparr>ac_pc := Apc_to_sleep setting\<rparr>, [], Wait_delay 1000000000)
        else accel_enter setting s1))"

definition sampleTrace :: "real \<Rightarrow> u8 result" where
  "sampleTrace v = real_to_unsigned (0 + 255 / 40 * v)"

text \<open>Every pop after the first is unguarded in the code.\<close>

definition pop_front :: "'a list \<Rightarrow> 'a list result" where
  "pop_front xs = (case xs of [] \<Rightarrow> Inl Undefined_behaviour | _ # ys \<Rightarrow> Inr ys)"

definition popOldestframe :: "u8 list \<Rightarrow> u8 list result" where
  "popOldestframe q =
     (case q of [] \<Rightarrow> Inr []
      | header # q0 \<Rightarrow>
          bind_r (if header AND 1 \<noteq> 0 then pop_front q0 else Inr q0) (\<lambda>q1.
          bind_r (if header AND 2 \<noteq> 0 then pop_front q1 else Inr q1) (\<lambda>q2.
            if header AND 4 \<noteq> 0 then pop_front q2 else Inr q2)))"

text \<open>The loop that pops; each round removes at least the header, so the length is enough fuel.\<close>

fun pop_frames :: "nat \<Rightarrow> u8 list \<Rightarrow> u8 list result" where
  "pop_frames 0 q = Inr q"
| "pop_frames (Suc n) q =
     (if length q > FIFO_CAPACITY then bind_r (popOldestframe q) (pop_frames n) else Inr q)"

definition accel_sample :: "sc_time \<Rightarrow> accel \<Rightarrow> (accel \<times> accel_effect list) result" where
  "accel_sample now s =
     bind_r (trace_at (ac_trace s) (ac_timestep s) now) (\<lambda>(ax, ay, az).
     bind_r (rf_read (ac_regs s) AC_CTRL) (\<lambda>ctrl.
     bind_r (if ctrl AND CTRL_X_EN \<noteq> 0 then bind_r (sampleTrace ax) (\<lambda>v. Inr [v]) else Inr []) (\<lambda>xs.
     bind_r (if ctrl AND CTRL_Y_EN \<noteq> 0 then bind_r (sampleTrace ay) (\<lambda>v. Inr [v]) else Inr []) (\<lambda>ys.
     bind_r (if ctrl AND CTRL_Z_EN \<noteq> 0 then bind_r (sampleTrace az) (\<lambda>v. Inr [v]) else Inr []) (\<lambda>zs.
     let header = ucast (drop_bit 3 (ctrl AND CTRL_HEADER_MASK)); q = m_fifo s @ [header] @ xs @ ys @ zs in
     bind_r (pop_frames (length q) q) (\<lambda>q1.
     bind_r (rf_clearBitMask (ac_regs s) AC_STATUS STATUS_BUSY False) (\<lambda>rf.
     let s1 = s\<lparr>m_fifo := q1, ac_regs := rf\<rparr> in
     bind_r
       (if ctrl AND CTRL_IE \<noteq> 0 then
          bind_r (if ac_state s1 = Acc_Continuous then bind_r (below_threshold s1) (\<lambda>b. Inr (\<not> b)) else Inr False)
            (\<lambda>fifoIrq.
             if fifoIrq \<or> (ac_state s1 \<noteq> Acc_Continuous \<and> m_fifo s1 \<noteq> [])
             then Inr (s1\<lparr>m_setIrq := True\<rparr>, [Acc_notify_irq]) else Inr (s1, []))
        else Inr (s1, []))
       (\<lambda>(s2, fx).
        bind_r (sampleTrace ax) (\<lambda>_. bind_r (sampleTrace ay) (\<lambda>_. bind_r (sampleTrace az) (\<lambda>_.
        bind_r (if ac_state s2 = Acc_Single then to_standby_mode s2 else Inr s2) (\<lambda>s3.
          Inr (s3, fx @ [Acc_report_sample])))))))))))))"

text \<open>
  The thread resumed when its wait is over. In \<open>Apc_start\<close> it has waited for the delta cycle
  and goes on to wait for the first change of mode.
\<close>

definition Accelerometer_measurementLoop ::
  "sc_time \<Rightarrow> accel \<Rightarrow> (accel \<times> accel_effect list \<times> accel_wait) result" where
  "Accelerometer_measurementLoop now s =
     (case ac_pc s of
        Apc_start \<Rightarrow> Inr (s\<lparr>ac_pc := Apc_idle\<rparr>, [], Wait_mode)
      | Apc_idle \<Rightarrow> accel_next s
      | Apc_to_standby setting \<Rightarrow>
          bind_r (rf_clearBitMask (ac_regs s) AC_STATUS STATUS_BUSY False) (\<lambda>rf.
            accel_enter setting (s\<lparr>ac_regs := rf\<rparr>))
      | Apc_to_sleep setting \<Rightarrow> accel_enter setting s
      | Apc_sampling \<Rightarrow>
          bind_r (accel_sample now s) (\<lambda>(s1, fx1).
          bind_r (accel_next s1) (\<lambda>(s2, fx2, w). Inr (s2, fx1 @ fx2, w))))"

section \<open>Invariant\<close>

definition accel_shape :: "register_file \<Rightarrow> bool" where
  "accel_shape rf \<longleftrightarrow> rw rf 0 \<and> rw rf 4 \<and> rw rf 8 \<and> rw rf 0xc \<and> rw rf 0x10"

lemma accel_shape_rw [simp]:
  "accel_shape rf \<Longrightarrow> rw rf 0" "accel_shape rf \<Longrightarrow> rw rf 4" "accel_shape rf \<Longrightarrow> rw rf 8"
  "accel_shape rf \<Longrightarrow> rw rf 0xc" "accel_shape rf \<Longrightarrow> rw rf 0x10"
  by (simp_all add: accel_shape_def)

lemma accel_shape_put [simp]:
  "accel_shape (put_reg rf a v f) = accel_shape rf" "accel_shape (rf_reset rf) = accel_shape rf"
  unfolding accel_shape_def rw_put_reg rw_reset by (rule refl)+

lemma accel_shape_write: "rf_write rf a v f = Inr rf' \<Longrightarrow> accel_shape rf' = accel_shape rf"
  unfolding accel_shape_def using rf_write_same_rw [of rf a v f rf'] by (simp only:)

lemma accel_shape_new: "accel_shape Accelerometer_regs"
  by (simp add: accel_shape_def rw_def Accelerometer_regs_def addRegister_def mk_register_def reg_at_Cons
      ac_offsets)

definition accel_inv :: "accel \<Rightarrow> bool" where
  "accel_inv s \<longleftrightarrow> accel_shape (ac_regs s) \<and> length (m_fifo s) \<le> FIFO_CAPACITY
     \<and> m_chipSelectPolarity (ac_dev s) = ActiveLow"

lemma polarity_put [simp]:
  "m_chipSelectPolarity (writeSlaveOut v d) = m_chipSelectPolarity d"
  "m_chipSelectPolarity (writeSlaveIn v d) = m_chipSelectPolarity d"
  "m_chipSelectPolarity (SpiDevice_reset d) = m_chipSelectPolarity d"
  by (simp_all add: writeSlaveOut_def writeSlaveIn_def SpiDevice_reset_def)

lemma below_threshold_eq [simp]:
  "accel_shape (ac_regs s) \<Longrightarrow>
   below_threshold s = Inr (length (m_fifo s) < unat (reg_value (ac_regs s) 0x10 * 4))"
  by (simp add: below_threshold_def ac_offsets)

section \<open>Frames\<close>

text \<open>A frame is a header and as many samples as its low three bits select.\<close>

definition axis_count :: "u8 \<Rightarrow> nat" where
  "axis_count h = of_bool (h AND 1 \<noteq> 0) + of_bool (h AND 2 \<noteq> 0) + of_bool (h AND 4 \<noteq> 0)"

definition accel_frame :: "u8 list \<Rightarrow> bool" where
  "accel_frame f \<longleftrightarrow> f \<noteq> [] \<and> length f = Suc (axis_count (hd f))"

lemma popOldestframe_drop:
  assumes "Suc (axis_count h) \<le> length (h # q)"
  shows "popOldestframe (h # q) = Inr (drop (axis_count h) q)"
  using assms
  by (auto simp: popOldestframe_def axis_count_def pop_front_def drop_Suc split: list.split)

lemma popOldestframe_frame:
  assumes "accel_frame f"
  shows "popOldestframe (f @ q) = Inr q"
proof -
  obtain h d where f: "f = h # d" using assms by (cases f) (auto simp: accel_frame_def)
  then have "length d = axis_count h" using assms by (simp add: accel_frame_def)
  then show ?thesis using popOldestframe_drop [of h "d @ q"] by (simp add: f)
qed

lemma axis_count_le: "axis_count h \<le> 3"
  by (simp add: axis_count_def)

text \<open>The pops end, never read an empty queue, and leave at most the capacity.\<close>

lemma pop_frames_bounded:
  "length q \<le> n \<Longrightarrow> \<exists>q'. pop_frames n q = Inr q' \<and> length q' \<le> FIFO_CAPACITY"
proof (induction n arbitrary: q)
  case (Suc n)
  show ?case
  proof (cases "length q > FIFO_CAPACITY")
    case True
    then obtain h q0 where q: "q = h # q0" by (cases q) auto
    have "popOldestframe q = Inr (drop (axis_count h) q0)"
      using True axis_count_le [of h] by (simp add: q popOldestframe_drop FIFO_CAPACITY_def)
    then show ?thesis using True Suc.IH [of "drop (axis_count h) q0"] Suc.prems by (simp add: q)
  qed auto
qed simp

lemma pop_frames_whole:
  assumes "\<forall>f \<in> set frames. accel_frame f" and "length (concat frames) \<le> n"
  shows "\<exists>k \<le> length frames. pop_frames n (concat frames) = Inr (concat (drop k frames))
    \<and> length (concat (drop k frames)) \<le> FIFO_CAPACITY
    \<and> (\<forall>j<k. FIFO_CAPACITY < length (concat (drop j frames)))"
  using assms
proof (induction n arbitrary: frames)
  case 0
  then have "length (concat frames) = 0" by (simp only: le_zero_eq)
  then show ?case by (intro exI [of _ 0]) (simp del: length_concat concat_eq_Nil_conv)
next
  case (Suc n)
  show ?case
  proof (cases "length (concat frames) > FIFO_CAPACITY")
    case True
    then obtain f fs where fs: "frames = f # fs" by (cases frames) auto
    have f: "accel_frame f" using Suc.prems by (simp add: fs)
    then have "length (concat fs) \<le> n" using Suc.prems(2) by (cases f) (auto simp: fs accel_frame_def)
    then obtain k where k: "k \<le> length fs" "pop_frames n (concat fs) = Inr (concat (drop k fs))"
        "length (concat (drop k fs)) \<le> FIFO_CAPACITY" "\<forall>j<k. FIFO_CAPACITY < length (concat (drop j fs))"
      using Suc.IH [of fs] Suc.prems(1) by (auto simp: fs)
    have "\<forall>j<Suc k. FIFO_CAPACITY < length (concat (drop j frames))"
      using True k(4) by (auto simp: fs drop_Cons' less_Suc_eq_0_disj)
    then show ?thesis
      using True k(1-3) popOldestframe_frame [OF f, of "concat fs"]
      by (intro exI [of _ "Suc k"]) (simp add: fs)
  next
    case False
    then show ?thesis by (intro exI [of _ 0]) simp
  qed
qed

text \<open>The frame a sample makes.\<close>

definition frame_of :: "u32 \<Rightarrow> u8 \<Rightarrow> u8 \<Rightarrow> u8 \<Rightarrow> u8 list" where
  "frame_of ctrl x y z =
     ucast (drop_bit 3 (ctrl AND CTRL_HEADER_MASK))
     # (if ctrl AND CTRL_X_EN \<noteq> 0 then [x] else []) @ (if ctrl AND CTRL_Y_EN \<noteq> 0 then [y] else [])
     @ (if ctrl AND CTRL_Z_EN \<noteq> 0 then [z] else [])"

lemma header_bit: "bit (ucast (drop_bit 3 (ctrl AND CTRL_HEADER_MASK)) :: u8) i \<longleftrightarrow> i < 3 \<and> bit ctrl (3 + i)"
proof -
  have "drop_bit 3 (ctrl AND CTRL_HEADER_MASK) = drop_bit 3 ctrl AND mask 3"
    by (simp add: drop_bit_and mask_numeral)
  then show ?thesis
    by (simp only: bit_ucast_iff bit_drop_bit_eq bit_and_iff bit_mask_iff) auto
qed

lemma header_bits:
  fixes ctrl :: u32
  defines "h \<equiv> ucast (drop_bit 3 (ctrl AND CTRL_HEADER_MASK)) :: u8"
  shows "h AND 1 \<noteq> 0 \<longleftrightarrow> ctrl AND CTRL_X_EN \<noteq> 0" "h AND 2 \<noteq> 0 \<longleftrightarrow> ctrl AND CTRL_Y_EN \<noteq> 0"
    "h AND 4 \<noteq> 0 \<longleftrightarrow> ctrl AND CTRL_Z_EN \<noteq> 0"
proof -
  have b: "w AND 2 ^ i \<noteq> 0 \<longleftrightarrow> bit w i" for w :: "'a::len word" and i
    by (simp add: and_exp_eq_0_iff_not_bit)
  note h = header_bit [of ctrl, folded h_def]
  show "h AND 1 \<noteq> 0 \<longleftrightarrow> ctrl AND CTRL_X_EN \<noteq> 0"
    using b [of h 0] b [of ctrl 3] h [of 0] by simp
  show "h AND 2 \<noteq> 0 \<longleftrightarrow> ctrl AND CTRL_Y_EN \<noteq> 0"
    using b [of h 1] b [of ctrl 4] h [of 1] by simp
  show "h AND 4 \<noteq> 0 \<longleftrightarrow> ctrl AND CTRL_Z_EN \<noteq> 0"
    using b [of h 2] b [of ctrl 5] h [of 2] by simp
qed

lemma frame_of_frame: "accel_frame (frame_of ctrl x y z)"
proof -
  have "hd (frame_of ctrl x y z) = ucast (drop_bit 3 (ctrl AND CTRL_HEADER_MASK))"
    by (simp add: frame_of_def del: drop_bit_and)
  then have "axis_count (hd (frame_of ctrl x y z))
    = of_bool (ctrl AND CTRL_X_EN \<noteq> 0) + of_bool (ctrl AND CTRL_Y_EN \<noteq> 0) + of_bool (ctrl AND CTRL_Z_EN \<noteq> 0)"
    by (simp only: axis_count_def header_bits)
  then show ?thesis by (simp add: accel_frame_def) (simp add: frame_of_def)
qed

section \<open>Sampling\<close>

lemma accel_sample_eq:
  assumes "accel_shape (ac_regs s)" and "trace_at (ac_trace s) (ac_timestep s) now = Inr (ax, ay, az)"
    and "sampleTrace ax = Inr x" and "sampleTrace ay = Inr y" and "sampleTrace az = Inr z"
    and "pop_frames (length q) q = Inr q'" and "q = m_fifo s @ frame_of (reg_value (ac_regs s) 0) x y z"
  shows "\<exists>s' fx. accel_sample now s = Inr (s', fx) \<and> m_fifo s' = q' \<and> accel_shape (ac_regs s')
    \<and> ac_dev s' = ac_dev s"
proof -
  define ctrl where "ctrl = reg_value (ac_regs s) 0"
  have q: "m_fifo s @ [ucast (drop_bit 3 (ctrl AND CTRL_HEADER_MASK))]
      @ (if ctrl AND CTRL_X_EN \<noteq> 0 then [x] else []) @ (if ctrl AND CTRL_Y_EN \<noteq> 0 then [y] else [])
      @ (if ctrl AND CTRL_Z_EN \<noteq> 0 then [z] else []) = q"
    by (simp add: assms(7) frame_of_def ctrl_def)
  have if_r: "(if b then Inr [v] else Inr []) = (Inr (if b then [v] else []) :: u8 list result)"
    for b and v :: u8 by simp
  show ?thesis
    unfolding accel_sample_def assms(2-5) bind_r_simps prod.case ac_offsets
      rf_read_rw [OF accel_shape_rw(1) [OF assms(1)]] ctrl_def [symmetric] if_r Let_def q assms(6)
      rf_clearBitMask_rw [OF accel_shape_rw(3) [OF assms(1)]]
    using assms(1) by (simp add: to_standby_mode_def ac_offsets)
qed


text \<open>A full FIFO of 512 one-axis frames: one sample drops one frame.\<close>

definition accel_example :: accel where
  "accel_example =
     \<lparr>ac_dev = \<lparr>m_SlaveInRegister = 0, m_SlaveOutRegister = 0, m_chipSelectPolarity = ActiveLow\<rparr>,
      ac_regs = put_reg Accelerometer_regs 0 0x22 False, ac_mode = Mode_Address, ac_address = 0,
      ac_state = Acc_Continuous, m_fifo = concat (replicate 512 [4, 7]), m_setIrq = False,
      ac_irq = SC_LOGIC_0, ac_trace = [(0, 0, 981 / 100)], ac_timestep = 1000000000000,
      ac_pc = Apc_sampling\<rparr>"

lemma accel_example_inv: "accel_inv accel_example"
  using accel_shape_new
  by (simp add: accel_inv_def accel_example_def FIFO_CAPACITY_def length_concat sum_list_replicate)

lemma accel_example_ctrl: "reg_value (ac_regs accel_example) 0 = 0x22"
proof -
  have "reg_value (put_reg Accelerometer_regs 0 0x22 False) 0 = 0x22" by code_simp
  then show ?thesis by (simp add: accel_example_def)
qed

lemma sampleTrace_examples: "sampleTrace 0 = Inr 0" "sampleTrace (981 / 100) = Inr 62"
proof -
  show "sampleTrace 0 = Inr 0" by (simp add: sampleTrace_def real_to_unsigned_def)
  have v: "0 + 255 / 40 * (981 / 100) = (50031 / 800 :: real)" by (simp add: field_simps)
  have "\<lfloor>50031 / 800 :: real\<rfloor> = 62" by (rule floor_eq2) auto
  then show "sampleTrace (981 / 100) = Inr 62"
    unfolding sampleTrace_def v real_to_unsigned_def by simp
qed


section \<open>Reading the FIFO\<close>

definition accel_exchange ::
  "sc_logic \<Rightarrow> bool \<Rightarrow> spi_extension \<Rightarrow> u8 \<Rightarrow> accel \<Rightarrow> (accel \<times> u32 \<times> accel_effect list) result" where
  "accel_exchange = spi_exchange ac_dev (\<lambda>d s. s\<lparr>ac_dev := d\<rparr>) Accelerometer_spiInterface"

definition fifo_shown :: "u8 list \<Rightarrow> u32" where
  "fifo_shown q = (case q of [] \<Rightarrow> 0 | b # _ \<Rightarrow> ucast b)"

definition fifo_reading :: "accel \<Rightarrow> bool" where
  "fifo_reading s \<longleftrightarrow> accel_inv s \<and> ac_mode s = Mode_DataRead \<and> ac_address s = 0x0c
     \<and> readSlaveOut (ac_dev s) = fifo_shown (m_fifo s)"

lemma active_low: "accel_inv s \<Longrightarrow> spi_enabled SC_LOGIC_0 (ac_dev s)"
  by (simp add: accel_inv_def spi_enabled_def)

lemma clear_irq_on_read_total:
  "accel_inv s \<Longrightarrow> \<exists>b fx. clear_irq_on_read s = Inr (s\<lparr>m_setIrq := b\<rparr>, fx)"
  by (cases "ac_irq s = SC_LOGIC_1"; cases "ac_state s = Acc_Continuous")
    (auto simp: clear_irq_on_read_def accel_inv_def ac_offsets intro: exI [of _ "m_setIrq s"])

lemma contains_rw: "rw rf a \<Longrightarrow> rf_contains rf a"
  by (auto simp: rw_def rf_contains_def)

lemma accel_pop_tl:
  "(if b \<and> m_fifo x \<noteq> [] then x\<lparr>m_fifo := tl (m_fifo x)\<rparr> else x) = (if b then x\<lparr>m_fifo := tl (m_fifo x)\<rparr> else x)"
  by (cases "m_fifo x") simp_all

lemma accel_read_step:
  assumes "fifo_reading s"
  shows "\<exists>s' fx. accel_exchange SC_LOGIC_0 True e b s = Inr (s', fifo_shown (m_fifo s), fx)
    \<and> fifo_reading s' \<and> m_fifo s' = tl (m_fifo s)"
proof -
  have inv: "accel_inv s" and m: "ac_mode s = Mode_DataRead" "ac_address s = 0x0c"
      "readSlaveOut (ac_dev s) = fifo_shown (m_fifo s)"
    using assms by (simp_all add: fifo_reading_def)
  define d where "d = writeSlaveIn (ucast b) (ac_dev s)"
  define s1 where "s1 = s\<lparr>ac_dev := d, m_fifo := tl (m_fifo s)\<rparr>"
  have inv1: "accel_inv s1" using inv by (auto simp: accel_inv_def s1_def d_def)
  obtain c fx where clr: "clear_irq_on_read s1 = Inr (s1\<lparr>m_setIrq := c\<rparr>, fx)"
    using clear_irq_on_read_total [OF inv1] by blast
  have cont: "rf_contains (ac_regs s) 0xc" using inv by (simp add: accel_inv_def contains_rw)
  define s2 where "s2 = s1\<lparr>m_setIrq := c, ac_dev := writeSlaveOut (fifo_shown (m_fifo s1)) d\<rparr>"
  have "Accelerometer_spiInterface SC_LOGIC_0 (s\<lparr>ac_dev := d\<rparr>) = Inr (s2, fx)"
    using active_low [OF inv] clr cont unfolding Accelerometer_spiInterface_def accel_pop_tl
    by (simp add: Let_def m accel_prepare_def s2_def s1_def d_def fifo_shown_def)
  then have "accel_exchange SC_LOGIC_0 True e b s = Inr (s2, fifo_shown (m_fifo s), fx)"
    unfolding accel_exchange_def spi_exchange_selected [where dev = ac_dev, OF active_low [OF inv]]
    by (simp add: d_def [symmetric] m)
  moreover have "fifo_reading s2" "m_fifo s2 = tl (m_fifo s)"
    using inv1 m by (auto simp: fifo_reading_def accel_inv_def s2_def s1_def d_def)
  ultimately show ?thesis by blast
qed

interpretation accel_fifo: spi_reader
  "accel_exchange SC_LOGIC_0 True e" fifo_reading m_fifo fifo_shown tl for e
  by unfold_locales (rule accel_read_step)

lemma tl_funpow: "(tl ^^ k) xs = drop k xs"
  by (induction k arbitrary: xs) (simp_all add: drop_Suc tl_drop)

lemma accel_address_step:
  assumes "accel_inv s" and "ac_mode s = Mode_Address"
  shows "\<exists>s' fx. accel_exchange SC_LOGIC_0 True e 0x8c s = Inr (s', readSlaveOut (ac_dev s), fx)
    \<and> fifo_reading s' \<and> m_fifo s' = m_fifo s"
proof -
  define d where "d = writeSlaveIn (ucast (0x8c :: u8)) (ac_dev s)"
  define s2 where "s2 = s\<lparr>ac_dev := writeSlaveOut (fifo_shown (m_fifo s)) d, ac_address := 0x0c,
    ac_mode := Mode_DataRead\<rparr>"
  have cont: "rf_contains (ac_regs s) 0xc" using assms by (simp add: accel_inv_def contains_rw)
  have "readSlaveIn d = 0x8c" "spi_enabled SC_LOGIC_0 d" using active_low [OF assms(1)] by (simp_all add: d_def)
  then have "Accelerometer_spiInterface SC_LOGIC_0 (s\<lparr>ac_dev := d\<rparr>) = Inr (s2, [])"
    using cont assms(2)
    by (simp add: Accelerometer_spiInterface_def Let_def accel_prepare_def s2_def fifo_shown_def)
  then have "accel_exchange SC_LOGIC_0 True e 0x8c s = Inr (s2, readSlaveOut (ac_dev s), [])"
    unfolding accel_exchange_def spi_exchange_selected [where dev = ac_dev, OF active_low [OF assms(1)]]
    by (simp add: d_def)
  moreover have "fifo_reading s2" "m_fifo s2 = m_fifo s"
    using assms(1) by (auto simp: fifo_reading_def accel_inv_def s2_def d_def)
  ultimately show ?thesis by blast
qed

text \<open>A burst read empties the FIFO in order. With the chip selected, the address byte of
  the data register followed by any bytes returns the contents of the FIFO, oldest first and
  zeros when it is exhausted, and removes as many bytes as were read.\<close>

lemma accelerometer_burst:
  assumes "accel_inv s" and "ac_mode s = Mode_Address"
  shows "\<exists>s'. spi_burst (accel_exchange SC_LOGIC_0 True e) (0x8c # bs) s
      = Inr (s', readSlaveOut (ac_dev s)
          # map (\<lambda>k. if k < length (m_fifo s) then ucast (m_fifo s ! k) else 0) [0..<length bs])
    \<and> m_fifo s' = drop (length bs) (m_fifo s) \<and> accel_inv s'"
proof -
  obtain s1 fx where s1: "accel_exchange SC_LOGIC_0 True e 0x8c s = Inr (s1, readSlaveOut (ac_dev s), fx)"
      "fifo_reading s1" "m_fifo s1 = m_fifo s"
    using accel_address_step [OF assms] by blast
  have shown: "fifo_shown (drop k q) = (if k < length q then ucast (q ! k) else 0)" for k and q :: "u8 list"
    by (auto simp: fifo_shown_def Cons_nth_drop_Suc [symmetric])
  obtain s2 where "spi_burst (accel_exchange SC_LOGIC_0 True e) bs s1
      = Inr (s2, map (\<lambda>k. fifo_shown ((tl ^^ k) (m_fifo s1))) [0..<length bs])"
      "fifo_reading s2" "m_fifo s2 = (tl ^^ length bs) (m_fifo s1)"
    using accel_fifo.burst_reads [OF s1(2)] by blast
  then show ?thesis
    using s1 by (simp add: tl_funpow shown fifo_reading_def)
qed

lemma accel_example_fifo: "m_fifo accel_example = 4 # 7 # concat (replicate 511 [4, 7])"
proof -
  have "replicate 512 [4, 7 :: u8] = [4, 7] # replicate 511 [4, 7]" by (simp flip: replicate_Suc)
  then show ?thesis by (simp add: accel_example_def)
qed

section \<open>Every step keeps the invariant\<close>

datatype accel_op =
    Acc_byte sc_logic bool spi_extension u8
  | Acc_deselect sc_logic
  | Acc_resume sc_time
  | Acc_update_irq
  | Acc_reset

fun accel_step :: "accel_op \<Rightarrow> accel \<Rightarrow> accel result" where
  "accel_step (Acc_byte cs nReset e b) s = bind_r (accel_exchange cs nReset e b s) (\<lambda>(s', _). Inr s')"
| "accel_step (Acc_deselect cs) s = bind_r (Accelerometer_spiInterface cs s) (\<lambda>(s', _). Inr s')"
| "accel_step (Acc_resume now) s = bind_r (Accelerometer_measurementLoop now s) (\<lambda>(s', _). Inr s')"
| "accel_step Acc_update_irq s = Inr (Accelerometer_updateIrq s)"
| "accel_step Acc_reset s = Inr (fst (Accelerometer_reset s))"

fun accel_run :: "accel_op list \<Rightarrow> accel \<Rightarrow> accel result" where
  "accel_run [] s = Inr s"
| "accel_run (op # ops) s = bind_r (accel_step op s) (accel_run ops)"

lemma accel_inv_dev [simp]:
  "m_chipSelectPolarity d = m_chipSelectPolarity (ac_dev s) \<Longrightarrow> accel_inv (s\<lparr>ac_dev := d\<rparr>) = accel_inv s"
  by (simp add: accel_inv_def)

lemma accel_inv_regs: "accel_inv s \<Longrightarrow> accel_shape rf \<Longrightarrow> accel_inv (s\<lparr>ac_regs := rf\<rparr>)"
  by (simp add: accel_inv_def)

lemma accel_inv_fields [simp]:
  "accel_inv (s\<lparr>ac_mode := m\<rparr>) = accel_inv s" "accel_inv (s\<lparr>ac_address := a\<rparr>) = accel_inv s"
  "accel_inv (s\<lparr>ac_state := st\<rparr>) = accel_inv s" "accel_inv (s\<lparr>m_setIrq := i\<rparr>) = accel_inv s"
  "accel_inv (s\<lparr>ac_pc := pc\<rparr>) = accel_inv s" "accel_inv (s\<lparr>ac_irq := q\<rparr>) = accel_inv s"
  by (simp_all add: accel_inv_def)

lemma accel_inv_fifo: "accel_inv s \<Longrightarrow> length q \<le> FIFO_CAPACITY \<Longrightarrow> accel_inv (s\<lparr>m_fifo := q\<rparr>)"
  by (simp add: accel_inv_def)

lemma accel_inv_shape: "accel_inv s \<Longrightarrow> accel_shape (ac_regs s)"
  by (simp add: accel_inv_def)

lemma accel_reset_inv: "accel_inv s \<Longrightarrow> accel_inv (fst (Accelerometer_reset s))"
  by (simp add: Accelerometer_reset_def accel_inv_def Let_def)

lemma accel_command_inv:
  assumes "accel_inv s" and "accel_command p s = Inr (s', fx)"
  shows "accel_inv s'"
proof -
  obtain rf where rf: "rf_write (ac_regs s) (unat (ac_address s)) p False = Inr rf"
    using assms(2) by (auto simp: accel_command_def result_elims)
  have "accel_inv (s\<lparr>ac_regs := rf\<rparr>)"
    using assms(1) accel_shape_write [OF rf] by (simp add: accel_inv_def)
  then show ?thesis
    using assms(2) rf accel_reset_inv [of "s\<lparr>ac_regs := rf\<rparr>"]
    by (auto simp: accel_command_def result_elims Let_def split: if_splits prod.splits)
qed

lemma clear_irq_on_read_inv: "accel_inv s \<Longrightarrow> clear_irq_on_read s = Inr (s', fx) \<Longrightarrow> accel_inv s'"
  using clear_irq_on_read_total [of s] by force

lemma accel_prepare_inv: "accel_inv s \<Longrightarrow> accel_prepare s = Inr s' \<Longrightarrow> accel_inv s'"
  by (auto simp: accel_prepare_def result_elims split: if_splits)

lemma accel_interface_inv:
  assumes "accel_inv s" and "Accelerometer_spiInterface cs s = Inr (s', fx)"
  shows "accel_inv s'"
proof (cases "spi_enabled cs (ac_dev s)")
  case False
  then show ?thesis using assms by (auto simp: Accelerometer_spiInterface_def)
next
  case True
  have pop: "accel_inv (if ac_address s = 0x0c then s\<lparr>m_fifo := tl (m_fifo s)\<rparr> else s)"
    using assms(1) by (auto simp: accel_inv_def)
  show ?thesis
    using True assms pop unfolding Accelerometer_spiInterface_def accel_pop_tl Let_def
    by (cases "ac_mode s")
      (auto simp: bind_r_eq_Inr simp del: if_split
        dest!: accel_prepare_inv [rotated] dest: accel_command_inv clear_irq_on_read_inv)
qed

lemma accel_exchange_inv:
  assumes "accel_inv s" and "accel_exchange cs nReset e b s = Inr (s', out, fx)"
  shows "accel_inv s'"
  using assms
  by (auto simp: accel_exchange_def spi_exchange_def SpiDevice_b_transport_def result_elims spi_payload_def
      split: if_splits dest!: accel_interface_inv [rotated])

lemma to_standby_inv: "accel_inv s \<Longrightarrow> to_standby_mode s = Inr s' \<Longrightarrow> accel_inv s'"
  using accel_inv_shape [of s] by (auto simp: to_standby_mode_def ac_offsets intro: accel_inv_regs)

lemma accel_enter_inv: "accel_inv s \<Longrightarrow> accel_enter st s = Inr (s', fx, w) \<Longrightarrow> accel_inv s'"
  using accel_inv_shape [of s]
  by (auto simp: accel_enter_def Let_def ac_offsets accel_inv_def split: if_splits)

lemma accel_next_inv: "accel_inv s \<Longrightarrow> accel_next s = Inr (s', fx, w) \<Longrightarrow> accel_inv s'"
  by (auto simp: accel_next_def bind_r_eq_Inr dest: to_standby_inv accel_enter_inv split: if_splits)

lemma accel_sample_inv:
  assumes inv: "accel_inv s" and run: "accel_sample now s = Inr (s', fx)"
  shows "accel_inv s'"
proof -
  have shape: "accel_shape (ac_regs s)" by (rule accel_inv_shape [OF inv])
  obtain ax ay az where entry: "trace_at (ac_trace s) (ac_timestep s) now = Inr (ax, ay, az)"
    using run by (auto simp: accel_sample_def bind_r_eq_Inr)
  obtain x y z where axes: "sampleTrace ax = Inr x" "sampleTrace ay = Inr y" "sampleTrace az = Inr z"
    using run by (auto simp: accel_sample_def bind_r_eq_Inr entry Let_def)
  define q where "q = m_fifo s @ frame_of (reg_value (ac_regs s) 0) x y z"
  obtain q' where q': "pop_frames (length q) q = Inr q'" "length q' \<le> FIFO_CAPACITY"
    using pop_frames_bounded by blast
  show ?thesis
    using accel_sample_eq [OF shape entry axes q'(1) q_def] run q'(2) inv by (auto simp: accel_inv_def)
qed

lemma accel_loop_inv:
  "accel_inv s \<Longrightarrow> Accelerometer_measurementLoop now s = Inr (s', fx, w) \<Longrightarrow> accel_inv s'"
  using accel_inv_shape [of s]
  by (auto simp: Accelerometer_measurementLoop_def bind_r_eq_Inr ac_offsets split: accel_pc.splits
      dest!: accel_next_inv [rotated] accel_enter_inv [rotated] accel_sample_inv [rotated] intro: accel_inv_regs)

text \<open>C31: no sequence of transactions, of steps of the measurement loop and of resets makes
  the FIFO of the accelerometer grow beyond its capacity, and none removes a register.\<close>

theorem accelerometer_fifo_bounded:
  assumes "accel_inv s" and "accel_run ops s = Inr s'"
  shows "accel_inv s' \<and> length (m_fifo s') \<le> FIFO_CAPACITY"
proof -
  have step: "accel_inv t \<Longrightarrow> accel_step op t = Inr t' \<Longrightarrow> accel_inv t'" for t t' op
    by (cases op) (auto simp: bind_r_eq_Inr Accelerometer_updateIrq_def intro: accel_reset_inv
        dest: accel_exchange_inv accel_interface_inv accel_loop_inv)
  have "accel_inv s'" using assms by (induction ops arbitrary: s) (auto simp: bind_r_eq_Inr dest: step)
  then show ?thesis by (simp add: accel_inv_def)
qed

theorem accelerometer_fifo_bounded_witness:
  "\<exists>s'. accel_run [Acc_byte SC_LOGIC_0 True SpiTransactionExtension_default 0x8c,
      Acc_byte SC_LOGIC_0 True SpiTransactionExtension_default 0, Acc_update_irq, Acc_reset] accel_example = Inr s'
    \<and> length (m_fifo s') \<le> FIFO_CAPACITY" (is "\<exists>s'. accel_run ?ops _ = _ \<and> _")
proof -
  have "ac_mode accel_example = Mode_Address" by (simp add: accel_example_def)
  then obtain s1 out fx where "accel_exchange SC_LOGIC_0 True SpiTransactionExtension_default 0x8c accel_example
      = Inr (s1, out, fx)" "fifo_reading s1"
    using accel_address_step [OF accel_example_inv] by blast
  moreover from this obtain s2 out2 fx2 where
    "accel_exchange SC_LOGIC_0 True SpiTransactionExtension_default 0 s1 = Inr (s2, out2, fx2)"
    using accel_read_step by blast
  ultimately obtain s3 where run: "accel_run ?ops accel_example = Inr s3" by simp
  show ?thesis
    using accelerometer_fifo_bounded [OF accel_example_inv run] run by blast
qed

end
