(* ===== verification/Sensor_Node.thy ===== *)
theory Sensor_Node
  imports Cm0_Spi Accelerometer
begin

text \<open>
  The sensor node of \<open>boards/Cm0SensorNode.cpp\<close> seen from its software: the serial master of
  the Cortex-M0 microcontroller with the accelerometer as the selected device. Software writes
  a byte to the data register, waits until the transfer is over and reads the data register.
\<close>

definition read_accelerometer ::
  "sc_time \<Rightarrow> sc_time \<Rightarrow> u8 list \<Rightarrow> spi \<times> accel \<Rightarrow> ((spi \<times> accel) \<times> u8 list) result" where
  "read_accelerometer period access_period =
     spi_software_burst (spi_software_exchange
       [device_target ac_dev (\<lambda>d s. s\<lparr>ac_dev := d\<rparr>) SC_LOGIC_0 True] period access_period
       (Accelerometer_spiInterface SC_LOGIC_0))"

text \<open>C33: software on the sensor node reads the measurements in order. If the accelerometer is
  selected and expects an address and the master is idle, then writing the address of the data
  register and any further bytes to the master's data register, and reading it after each
  transfer, returns (after the response to the address) the contents of the accelerometer's
  FIFO, oldest byte first and zeros when it is exhausted; the bytes read are removed, and the
  master is idle again.\<close>

theorem software_reads_accelerometer:
  assumes "spi_idle s" and "accel_inv acc" and "ac_mode acc = Mode_Address"
  shows "\<exists>s' acc' b0. read_accelerometer period access_period (0x8c # bs) (s, acc)
      = Inr ((s', acc'), b0 # map (\<lambda>k. if k < length (m_fifo acc) then m_fifo acc ! k else 0) [0..<length bs])
    \<and> spi_idle s' \<and> accel_inv acc' \<and> m_fifo acc' = drop (length bs) (m_fifo acc)"
proof -
  let ?e = SpiTransactionExtension_default
  let ?outs = "readSlaveOut (ac_dev acc)
    # map (\<lambda>k. if k < length (m_fifo acc) then ucast (m_fifo acc ! k) else 0) [0..<length bs]"
  obtain acc' where acc': "spi_burst (accel_exchange SC_LOGIC_0 True ?e) (0x8c # bs) acc = Inr (acc', ?outs)"
      "m_fifo acc' = drop (length bs) (m_fifo acc)" "accel_inv acc'"
    using accelerometer_burst [OF assms(2,3)] by blast
  have "host_byte (ucast b :: u32) 0 = b" for b :: u8
    by (rule bit_eqI) (simp add: host_byte_def bit_simps)
  then have outs: "map (\<lambda>v. host_byte v 0) ?outs = host_byte (readSlaveOut (ac_dev acc)) 0
      # map (\<lambda>k. if k < length (m_fifo acc) then m_fifo acc ! k else 0) [0..<length bs]"
    by (auto simp: host_byte_def)
  have "\<exists>s'. read_accelerometer period access_period (0x8c # bs) (s, acc)
      = Inr ((s', acc'), map (\<lambda>v. host_byte v 0) ?outs) \<and> spi_idle s'"
    unfolding read_accelerometer_def
  proof (rule m0_master.relays [where J = accel_inv and e = ?e, OF assms(1,2)])
    show "accel_inv x'"
      if "accel_inv x" "spi_exchange ac_dev (\<lambda>d s. s\<lparr>ac_dev := d\<rparr>) Accelerometer_spiInterface
            SC_LOGIC_0 True ?e b x = Inr (x', out, fx)" for x b x' out fx
      using accel_exchange_inv that by (simp add: accel_exchange_def)
  qed (use acc'(1) active_low in \<open>simp_all add: accel_exchange_def\<close>)
  then show ?thesis
    unfolding outs using acc'(2,3) by blast
qed

text \<open>A master as software sets it up: enabled, with eight-bit frames as after reset.\<close>

definition spi_example :: spi where
  "spi_example = (Spi_new 0 0)\<lparr>m_enable := True, sp_pc := Spi_waiting\<rparr>"

lemma spi_example_idle: "spi_idle spi_example"
proof -
  have "reg_value Spi_regs 4 = 0x700" by code_simp
  moreover have "frame_bits 0x700 = 8" by code_simp
  moreover have "spi_shape Spi_regs"
    by (simp add: spi_shape_def rw_def mask_of_def Spi_regs_def addRegister_def mk_register_def reg_at_Cons spi_offsets)
  ultimately show ?thesis
    by (simp add: spi_idle_def spi_example_def Spi_new_def Fifo_new_def)
qed

theorem software_reads_accelerometer_witness:
  "\<exists>s' acc' b0. read_accelerometer 1 1 [0x8c, 0, 0] (spi_example, accel_example)
     = Inr ((s', acc'), [b0, 4, 7]) \<and> length (m_fifo acc') = 1022"
proof -
  have f: "m_fifo accel_example = 4 # 7 # concat (replicate 511 [4, 7])"
    by (rule accel_example_fifo)
  have "ac_mode accel_example = Mode_Address" by (simp add: accel_example_def)
  from software_reads_accelerometer [OF spi_example_idle accel_example_inv this, of 1 1 "[0, 0]"]
  show ?thesis by (auto simp: f upt_conv_Cons length_concat sum_list_replicate)
qed

end
