(* ===== verification/Io_Ports.thy ===== *)
theory Io_Ports
  imports Peripheral Spi_Device
begin

unbundle bit_operations_syntax

text \<open>
  The digital ports: \<open>mcu/cortex-m0/Gpio.cpp\<close> with 32 pins and
  \<open>mcu/msp430fr5xx/DigitalIo.cpp\<close> with 16. A pin is a resolved signal: the process reads the
  value of the net (the argument \<open>nets\<close>, one logic value per pin) and writes its own
  contribution (the list of driven values in the state). Reported energy events, interrupt
  updates and write events are effects, labelled with the pin.
\<close>

section \<open>Pins\<close>

definition pin_high :: "sc_logic \<Rightarrow> bool" where
  "pin_high v = (if v = SC_LOGIC_0 \<or> v = SC_LOGIC_1 then v = SC_LOGIC_1 else False)"

datatype port_effect = Pos_edge nat | Neg_edge nat | Update_irq | Write_notify

definition pin_mask :: "nat \<Rightarrow> u32" where
  "pin_mask i = push_bit i 1"

lemma pin_mask_bit [simp]: "w AND pin_mask i \<noteq> 0 \<longleftrightarrow> bit w i" "w AND pin_mask i = 0 \<longleftrightarrow> \<not> bit w i"
  by (simp_all add: pin_mask_def push_bit_of_1 and_exp_eq_0_iff_not_bit)

lemma pin_pow: "(2 :: u32) ^ k = pin_mask k"
  by (simp add: pin_mask_def push_bit_of_1)

lemma bit_pin_mask: "j < 32 \<Longrightarrow> bit (pin_mask i) j \<longleftrightarrow> i = j"
  by (auto simp: pin_mask_def push_bit_of_1 bit_exp_iff)

section \<open>The port of the Cortex-M0 microcontroller\<close>

record gpio =
  gp_regs :: register_file
  gp_setIrq :: bool
  gp_lastState :: u32
  gp_pins :: "sc_logic list"
  gp_irq :: bool

definition OFS_GPIO_DATA :: nat where "OFS_GPIO_DATA = 0"
definition OFS_GPIO_DIR :: nat where "OFS_GPIO_DIR = 0x400"
definition OFS_GPIO_IFG :: nat where "OFS_GPIO_IFG = 0x404"
definition OFS_GPIO_IE :: nat where "OFS_GPIO_IE = 0x410"
definition GPIO_EXCEPT_ID :: int where "GPIO_EXCEPT_ID = 0"

lemmas gpio_offsets = OFS_GPIO_DATA_def OFS_GPIO_DIR_def OFS_GPIO_IFG_def OFS_GPIO_IE_def

definition Gpio_regs :: register_file where
  "Gpio_regs =
     addRegister (addRegister (addRegister (addRegister []
       OFS_GPIO_DATA 0 READ_WRITE (- 1)) OFS_GPIO_DIR 0 READ_WRITE (- 1))
       OFS_GPIO_IE 0 READ_WRITE (- 1)) OFS_GPIO_IFG 0 READ (- 1)"

definition Gpio_new :: gpio where
  "Gpio_new =
     \<lparr>gp_regs = Gpio_regs, gp_setIrq = False, gp_lastState = 0, gp_pins = replicate 32 SC_LOGIC_Z, gp_irq = False\<rparr>"

definition Gpio_reset :: "gpio \<Rightarrow> gpio \<times> port_effect list" where
  "Gpio_reset s =
     (s\<lparr>gp_regs := rf_reset (gp_regs s), gp_lastState := 0, gp_setIrq := False\<rparr>, [Write_notify, Update_irq])"

definition gpio_output :: "u32 \<Rightarrow> sc_logic \<Rightarrow> nat \<Rightarrow> gpio \<Rightarrow> gpio \<times> port_effect list" where
  "gpio_output gpdata net i s =
     (let current = pin_high net; level = (gpdata AND pin_mask i \<noteq> 0) in
      (s\<lparr>gp_pins := (gp_pins s)[i := sc_logic_of level]\<rparr>,
       if \<not> current \<and> level then [Pos_edge i] else if current \<and> \<not> level then [Neg_edge i] else []))"

definition gpio_input :: "target \<Rightarrow> u32 \<Rightarrow> sc_logic \<Rightarrow> nat \<Rightarrow> gpio \<Rightarrow> (gpio \<times> port_effect list) result" where
  "gpio_input t ie net i s =
     (let current = pin_high net; was = (gp_lastState s AND pin_mask i \<noteq> 0) in
      if current \<and> \<not> was then
        bind_r (rf_setBit t (gp_regs s) OFS_GPIO_DATA i True) (\<lambda>rf.
        let s1 = s\<lparr>gp_regs := rf, gp_lastState := gp_lastState s OR pin_mask i\<rparr> in
        if ie AND pin_mask i \<noteq> 0 then
          bind_r (rf_setBit t (gp_regs s1) OFS_GPIO_IFG i True) (\<lambda>rf2.
            Inr (s1\<lparr>gp_regs := rf2, gp_setIrq := True\<rparr>, [Update_irq]))
        else Inr (s1, []))
      else if \<not> current \<and> was then
        bind_r (rf_clearBit t (gp_regs s) OFS_GPIO_DATA i True) (\<lambda>rf.
          Inr (s\<lparr>gp_regs := rf, gp_lastState := gp_lastState s AND NOT (pin_mask i)\<rparr>, []))
      else Inr (s, []))"

fun gpio_pins_loop ::
  "target \<Rightarrow> u32 \<Rightarrow> u32 \<Rightarrow> u32 \<Rightarrow> sc_logic list \<Rightarrow> nat list \<Rightarrow> gpio \<Rightarrow> (gpio \<times> port_effect list) result" where
  "gpio_pins_loop t dir gpdata ie nets [] s = Inr (s, [])"
| "gpio_pins_loop t dir gpdata ie nets (i # is) s =
     bind_r (if dir AND pin_mask i \<noteq> 0 then Inr (gpio_output gpdata (nets ! i) i s)
             else gpio_input t ie (nets ! i) i s)
       (\<lambda>(s1, fx1). bind_r (gpio_pins_loop t dir gpdata ie nets is s1) (\<lambda>(s2, fx2). Inr (s2, fx1 @ fx2)))"

definition Gpio_process :: "target \<Rightarrow> bool \<Rightarrow> sc_logic list \<Rightarrow> gpio \<Rightarrow> (gpio \<times> port_effect list) result" where
  "Gpio_process t pwrOn nets s =
     bind_r (rf_read (gp_regs s) OFS_GPIO_DIR) (\<lambda>dir.
     bind_r (rf_read (gp_regs s) OFS_GPIO_DATA) (\<lambda>gpdata.
     bind_r (rf_read (gp_regs s) OFS_GPIO_IE) (\<lambda>ie.
       if pwrOn then gpio_pins_loop t dir gpdata ie nets [0..<32] s
       else Inr (s\<lparr>gp_pins := replicate 32 SC_LOGIC_Z\<rparr>, []))))"

definition Gpio_irqControl :: "bool \<Rightarrow> int \<Rightarrow> gpio \<Rightarrow> gpio" where
  "Gpio_irqControl pwrOn active_exception s =
     (if \<not> pwrOn then s\<lparr>gp_irq := False, gp_setIrq := False\<rparr>
      else (if gp_setIrq s \<and> \<not> gp_irq s then s\<lparr>gp_irq := True\<rparr>
            else if active_exception - 16 = GPIO_EXCEPT_ID then s\<lparr>gp_irq := False\<rparr> else s)
           \<lparr>gp_setIrq := False\<rparr>)"

section \<open>The ports of the MSP430\<close>

record digital_io =
  io_regs :: register_file
  io_lastState :: u32
  io_pins :: "sc_logic list"
  io_irq :: "bool \<times> bool"

definition OFS_PAIN :: nat where "OFS_PAIN = 0"
definition OFS_PAOUT :: nat where "OFS_PAOUT = 2"
definition OFS_PADIR :: nat where "OFS_PADIR = 4"
definition OFS_PAREN :: nat where "OFS_PAREN = 6"
definition OFS_PASEL0 :: nat where "OFS_PASEL0 = 0xa"
definition OFS_PASEL1 :: nat where "OFS_PASEL1 = 0xc"
definition OFS_PAIES :: nat where "OFS_PAIES = 0x18"
definition OFS_PAIE :: nat where "OFS_PAIE = 0x1a"
definition OFS_PAIFG :: nat where "OFS_PAIFG = 0x1c"

lemmas port_offsets = OFS_PAIN_def OFS_PAOUT_def OFS_PADIR_def OFS_PAREN_def OFS_PASEL0_def OFS_PASEL1_def
  OFS_PAIES_def OFS_PAIE_def OFS_PAIFG_def

text \<open>\<open>endOffset\<close> is \<open>endAddress - startAddress + 1\<close> in 16 bits.\<close>

definition DigitalIo_regs :: "u16 \<Rightarrow> u16 \<Rightarrow> register_file" where
  "DigitalIo_regs startAddr endAddr =
     fold (\<lambda>i rf. addRegister rf i 0 READ_WRITE (- 1)) (filter even [0..<unat (endAddr - startAddr + 1)]) []"

definition DigitalIo_new :: "u16 \<Rightarrow> u16 \<Rightarrow> digital_io" where
  "DigitalIo_new startAddr endAddr =
     \<lparr>io_regs = DigitalIo_regs startAddr endAddr, io_lastState = 0, io_pins = replicate 16 SC_LOGIC_Z,
      io_irq = (False, False)\<rparr>"

definition DigitalIo_reset :: "digital_io \<Rightarrow> digital_io" where
  "DigitalIo_reset s = s\<lparr>io_regs := rf_reset (io_regs s), io_lastState := 0\<rparr>"

definition port_drive :: "u32 \<Rightarrow> u32 \<Rightarrow> u32 \<Rightarrow> sc_logic \<Rightarrow> nat \<Rightarrow> digital_io \<Rightarrow> digital_io \<times> port_effect list" where
  "port_drive dir out ren net i s =
     (if (ren OR dir) AND pin_mask i \<noteq> 0 then
        let current = pin_high net; level = (out AND pin_mask i \<noteq> 0) in
        (s\<lparr>io_pins := (io_pins s)[i := sc_logic_of level]\<rparr>,
         if \<not> current \<and> level then [Pos_edge i] else if current \<and> \<not> level then [Neg_edge i] else [])
      else (s, []))"

definition port_sense ::
  "target \<Rightarrow> u32 \<Rightarrow> u32 \<Rightarrow> u32 \<Rightarrow> sc_logic \<Rightarrow> nat \<Rightarrow> digital_io \<Rightarrow> digital_io result" where
  "port_sense t dir irqEn irqEdge net i s =
     (if NOT dir AND pin_mask i \<noteq> 0 then
        let current = pin_high net; was = (io_lastState s AND pin_mask i \<noteq> 0) in
        if current \<and> \<not> was then
          bind_r (rf_setBit t (io_regs s) OFS_PAIN i True) (\<lambda>rf.
          let s1 = s\<lparr>io_regs := rf, io_lastState := io_lastState s OR pin_mask i\<rparr> in
          if irqEn AND NOT irqEdge AND pin_mask i \<noteq> 0 then
            bind_r (rf_setBit t rf OFS_PAIFG i True) (\<lambda>rf2. Inr (s1\<lparr>io_regs := rf2\<rparr>))
          else Inr s1)
        else if \<not> current \<and> was then
          bind_r (rf_clearBit t (io_regs s) OFS_PAIN i True) (\<lambda>rf.
          let s1 = s\<lparr>io_regs := rf, io_lastState := io_lastState s AND NOT (pin_mask i)\<rparr> in
          if irqEn AND irqEdge AND pin_mask i \<noteq> 0 then
            bind_r (rf_setBit t rf OFS_PAIFG i True) (\<lambda>rf2. Inr (s1\<lparr>io_regs := rf2\<rparr>))
          else Inr s1)
        else Inr s
      else Inr s)"

definition port_irq :: "digital_io \<Rightarrow> digital_io result" where
  "port_irq s =
     bind_r (rf_read (io_regs s) OFS_PAIFG) (\<lambda>v.
     let irqFlags = v AND 0xffff in
       Inr (s\<lparr>io_irq := (irqFlags AND 0x00ff \<noteq> 0, irqFlags AND 0xff00 \<noteq> 0)\<rparr>))"

fun port_pins_loop ::
  "target \<Rightarrow> u32 \<Rightarrow> u32 \<Rightarrow> u32 \<Rightarrow> u32 \<Rightarrow> u32 \<Rightarrow> sc_logic list \<Rightarrow> nat list \<Rightarrow> digital_io
     \<Rightarrow> (digital_io \<times> port_effect list) result" where
  "port_pins_loop t dir out ren irqEn irqEdge nets [] s = Inr (s, [])"
| "port_pins_loop t dir out ren irqEn irqEdge nets (i # is) s =
     (let (s1, fx1) = port_drive dir out ren (nets ! i) i s in
      bind_r (port_sense t dir irqEn irqEdge (nets ! i) i s1) (\<lambda>s2.
      bind_r (port_irq s2) (\<lambda>s3.
      bind_r (port_pins_loop t dir out ren irqEn irqEdge nets is s3) (\<lambda>(s4, fx2). Inr (s4, fx1 @ fx2)))))"

text \<open>The five values are 16-bit variables; of \<open>PASEL1\<close> only the low byte is read.\<close>

definition DigitalIo_process ::
  "target \<Rightarrow> bool \<Rightarrow> sc_logic list \<Rightarrow> digital_io \<Rightarrow> (digital_io \<times> port_effect list) result" where
  "DigitalIo_process t pwrOn nets s =
     bind_r (rf_read (io_regs s) OFS_PADIR) (\<lambda>dir.
     bind_r (rf_read (io_regs s) OFS_PAOUT) (\<lambda>out.
     bind_r (rf_read (io_regs s) OFS_PAREN) (\<lambda>ren.
     bind_r (rf_read (io_regs s) OFS_PASEL0) (\<lambda>sel0.
     bind_r (rf_readByte t (io_regs s) OFS_PASEL1) (\<lambda>sel1.
     bind_r (rf_read (io_regs s) OFS_PAIE) (\<lambda>paie.
     bind_r (rf_read (io_regs s) OFS_PAIES) (\<lambda>irqEdge.
     let irqEn = NOT sel0 AND NOT (ucast sel1) AND paie in
       if pwrOn then
         port_pins_loop t (dir AND 0xffff) (out AND 0xffff) (ren AND 0xffff) (irqEn AND 0xffff) (irqEdge AND 0xffff)
           nets [0..<16] s
       else Inr (s\<lparr>io_pins := replicate 16 (sc_logic_of False)\<rparr>, []))))))))"

section \<open>What one run of the process does\<close>

definition gpio_shape :: "register_file \<Rightarrow> bool" where
  "gpio_shape rf \<longleftrightarrow> rw rf 0 \<and> rw rf 0x400 \<and> ro rf 0x404 \<and> rw rf 0x410"

lemma gpio_shapeD:
  assumes "gpio_shape rf"
  shows "rw rf 0" "rw rf 0x400" "ro rf 0x404" "rw rf 0x410"
  using assms by (simp_all add: gpio_shape_def)

lemma gpio_shape_put [simp]: "gpio_shape (put_reg rf a v f) = gpio_shape rf"
  unfolding gpio_shape_def rw_put_reg ro_put_reg by (rule refl)

lemma gpio_shape_new: "gpio_shape Gpio_regs"
  by (simp add: gpio_shape_def Gpio_regs_def rw_def ro_def addRegister_def mk_register_def reg_at_Cons gpio_offsets)

text \<open>
  The values of a pin after a run: it is an output iff \<open>dir\<close> has the bit, \<open>rose\<close> and \<open>fell\<close> are
  the edges of an input since the run before.
\<close>

definition rose :: "u32 \<Rightarrow> sc_logic list \<Rightarrow> u32 \<Rightarrow> nat \<Rightarrow> bool" where
  "rose dir nets was i \<longleftrightarrow> \<not> bit dir i \<and> pin_high (nets ! i) \<and> \<not> bit was i"

definition fell :: "u32 \<Rightarrow> sc_logic list \<Rightarrow> u32 \<Rightarrow> nat \<Rightarrow> bool" where
  "fell dir nets was i \<longleftrightarrow> \<not> bit dir i \<and> \<not> pin_high (nets ! i) \<and> bit was i"

text \<open>
  What the process knows of a pin: the remembered level, its bits of the data and the flag
  register, and the value driven; and what the run makes of it.
\<close>

definition pin_view :: "gpio \<Rightarrow> nat \<Rightarrow> bool \<times> bool \<times> bool \<times> sc_logic" where
  "pin_view s i = (bit (gp_lastState s) i, bit (reg_value (gp_regs s) 0) i, bit (reg_value (gp_regs s) 0x404) i,
     gp_pins s ! i)"

definition pin_next ::
  "u32 \<Rightarrow> u32 \<Rightarrow> u32 \<Rightarrow> sc_logic list \<Rightarrow> nat \<Rightarrow> bool \<times> bool \<times> bool \<times> sc_logic \<Rightarrow> bool \<times> bool \<times> bool \<times> sc_logic" where
  "pin_next dir gpdata ie nets i v = (case v of (l, d, f, p) \<Rightarrow>
     if bit dir i then (l, d, f, sc_logic_of (bit gpdata i))
     else if pin_high (nets ! i) \<and> \<not> l then (True, True, f \<or> bit ie i, p)
     else if \<not> pin_high (nets ! i) \<and> l then (False, False, f, p)
     else v)"

definition pin_request :: "u32 \<Rightarrow> u32 \<Rightarrow> sc_logic list \<Rightarrow> nat \<Rightarrow> bool \<times> bool \<times> bool \<times> sc_logic \<Rightarrow> bool" where
  "pin_request dir ie nets i v \<longleftrightarrow> \<not> bit dir i \<and> pin_high (nets ! i) \<and> \<not> fst v \<and> bit ie i"

definition pin_edges :: "u32 \<Rightarrow> u32 \<Rightarrow> sc_logic list \<Rightarrow> nat \<Rightarrow> port_effect set" where
  "pin_edges dir gpdata nets i =
     (if bit dir i then
        if \<not> pin_high (nets ! i) \<and> bit gpdata i then {Pos_edge i}
        else if pin_high (nets ! i) \<and> \<not> bit gpdata i then {Neg_edge i} else {}
      else {})"

definition gpio_wf :: "gpio \<Rightarrow> bool" where
  "gpio_wf s \<longleftrightarrow> gpio_shape (gp_regs s) \<and> length (gp_pins s) = 32"

lemma gpio_bits:
  assumes "i < 32"
  shows "bit (w OR pin_mask k) i = (bit w i \<or> i = k)" "bit (w AND NOT (pin_mask k)) i = (bit w i \<and> i \<noteq> k)"
  using bit_pin_mask [OF assms] by (auto simp: bit_or_iff bit_and_iff bit_not_iff assms)

lemma gpio_pin_step:
  assumes "gpio_wf s" and "k < 32"
  shows "\<exists>s2 fx. (if dir AND pin_mask k \<noteq> 0 then Inr (gpio_output gpdata (nets ! k) k s)
      else gpio_input cortex_m0 ie (nets ! k) k s) = Inr (s2, fx)
    \<and> gpio_wf s2 \<and> set fx - {Update_irq} = pin_edges dir gpdata nets k
    \<and> gp_setIrq s2 = (gp_setIrq s \<or> pin_request dir ie nets k (pin_view s k))
    \<and> (\<forall>i<32. pin_view s2 i = (if i = k then pin_next dir gpdata ie nets k (pin_view s k) else pin_view s i))"
proof -
  note rf = gpio_shapeD [of "gp_regs s"] and wf = assms(1) [unfolded gpio_wf_def]
  have ws: "k < word_size cortex_m0 * 8" using assms(2) by (simp add: cortex_m0_def)
  show ?thesis
  proof (cases "bit dir k")
    case True
    then show ?thesis
      using assms(2) wf
      by (auto simp: gpio_output_def Let_def gpio_wf_def pin_view_def pin_next_def pin_request_def pin_edges_def)
  next
    case False
    consider "pin_high (nets ! k)" "\<not> bit (gp_lastState s) k" | "\<not> pin_high (nets ! k)" "bit (gp_lastState s) k"
      | "pin_high (nets ! k) = bit (gp_lastState s) k" by blast
    then show ?thesis
    proof cases
      case 1
      define s2 where "s2 = s\<lparr>gp_regs := put_reg (gp_regs s) 0 (reg_value (gp_regs s) 0 OR pin_mask k) True,
        gp_lastState := gp_lastState s OR pin_mask k\<rparr>"
      define s3 where "s3 = s2\<lparr>gp_regs := put_reg (gp_regs s2) 0x404
          (reg_value (gp_regs s2) 0x404 OR pin_mask k) True, gp_setIrq := True\<rparr>"
      have run: "gpio_input cortex_m0 ie (nets ! k) k s = (if bit ie k then Inr (s3, [Update_irq]) else Inr (s2, []))"
        using 1 wf rf ws by (simp add: gpio_input_def gpio_offsets s3_def s2_def Let_def pin_pow)
      have s2: "gpio_wf s2" "gp_setIrq s2 = gp_setIrq s"
          "\<forall>i<32. pin_view s2 i = (if i = k then (True, True, snd (snd (pin_view s k))) else pin_view s i)"
        using wf rf by (auto simp: s2_def gpio_wf_def pin_view_def gpio_bits)
      have s3: "gpio_wf s3" "gp_setIrq s3"
          "\<forall>i<32. pin_view s3 i = (if i = k then (True, True, True, gp_pins s ! k) else pin_view s i)"
        using wf rf by (auto simp: s3_def s2_def gpio_wf_def pin_view_def gpio_bits)
      show ?thesis
      proof (cases "bit ie k")
        case True
        then show ?thesis
          using False 1 run s3 by (simp add: pin_edges_def pin_request_def pin_next_def pin_view_def)
      next
        case nie: False
        then show ?thesis
          using False 1 run s2 by (simp add: pin_edges_def pin_request_def pin_next_def pin_view_def)
      qed
    next
      case 2
      define s2 where "s2 = s\<lparr>gp_regs := put_reg (gp_regs s) 0 (reg_value (gp_regs s) 0 AND NOT (pin_mask k)) True,
        gp_lastState := gp_lastState s AND NOT (pin_mask k)\<rparr>"
      have run: "gpio_input cortex_m0 ie (nets ! k) k s = Inr (s2, [])"
        using 2 wf rf ws by (simp add: gpio_input_def gpio_offsets s2_def Let_def pin_pow)
      have s2: "gpio_wf s2" "gp_setIrq s2 = gp_setIrq s"
          "\<forall>i<32. pin_view s2 i = (if i = k then (False, False, snd (snd (pin_view s k))) else pin_view s i)"
        using wf rf by (auto simp: s2_def gpio_wf_def pin_view_def gpio_bits)
      show ?thesis
        using False 2 run s2 by (simp add: pin_edges_def pin_request_def pin_next_def pin_view_def)
    next
      case 3
      then have "gpio_input cortex_m0 ie (nets ! k) k s = Inr (s, [])" by (auto simp: gpio_input_def Let_def)
      then show ?thesis
        using False 3 assms(1) by (auto simp: pin_edges_def pin_request_def pin_next_def pin_view_def)
    qed
  qed
qed

lemma gpio_loop_done:
  assumes "gpio_wf s" and "distinct ks" and "set ks \<subseteq> {..<32}"
  shows "\<exists>s2 fx. gpio_pins_loop cortex_m0 dir gpdata ie nets ks s = Inr (s2, fx)
    \<and> gpio_wf s2 \<and> set fx - {Update_irq} = (\<Union>k \<in> set ks. pin_edges dir gpdata nets k)
    \<and> gp_setIrq s2 = (gp_setIrq s \<or> (\<exists>k \<in> set ks. pin_request dir ie nets k (pin_view s k)))
    \<and> (\<forall>i<32. pin_view s2 i = (if i \<in> set ks then pin_next dir gpdata ie nets i (pin_view s i) else pin_view s i))"
  using assms
proof (induction ks arbitrary: s)
  case (Cons k ks)
  have k: "k < 32" using Cons.prems(3) by simp
  obtain s1 fx1 where s1: "(if dir AND pin_mask k \<noteq> 0 then Inr (gpio_output gpdata (nets ! k) k s)
      else gpio_input cortex_m0 ie (nets ! k) k s) = Inr (s1, fx1)" "gpio_wf s1"
      "set fx1 - {Update_irq} = pin_edges dir gpdata nets k"
      "gp_setIrq s1 = (gp_setIrq s \<or> pin_request dir ie nets k (pin_view s k))"
      "\<forall>i<32. pin_view s1 i = (if i = k then pin_next dir gpdata ie nets k (pin_view s k) else pin_view s i)"
    using gpio_pin_step [OF Cons.prems(1) k, of dir gpdata nets ie] by blast
  have rest: "distinct ks" "set ks \<subseteq> {..<32}" "k \<notin> set ks" using Cons.prems by auto
  obtain s2 fx2 where s2: "gpio_pins_loop cortex_m0 dir gpdata ie nets ks s1 = Inr (s2, fx2)" "gpio_wf s2"
      "set fx2 - {Update_irq} = (\<Union>k \<in> set ks. pin_edges dir gpdata nets k)"
      "gp_setIrq s2 = (gp_setIrq s1 \<or> (\<exists>k \<in> set ks. pin_request dir ie nets k (pin_view s1 k)))"
      "\<forall>i<32. pin_view s2 i = (if i \<in> set ks then pin_next dir gpdata ie nets i (pin_view s1 i) else pin_view s1 i)"
    using Cons.IH [OF s1(2) rest(1,2)] by blast
  have same: "pin_view s1 i = pin_view s i" if "i \<in> set ks" for i
    using that rest s1(5) by auto
  have "gpio_pins_loop cortex_m0 dir gpdata ie nets (k # ks) s = Inr (s2, fx1 @ fx2)"
    unfolding gpio_pins_loop.simps s1(1) using s2(1) by simp
  moreover have "set (fx1 @ fx2) - {Update_irq} = (\<Union>k \<in> set (k # ks). pin_edges dir gpdata nets k)"
    using s1(3) s2(3) by auto
  moreover have "gp_setIrq s2 = (gp_setIrq s \<or> (\<exists>k \<in> set (k # ks). pin_request dir ie nets k (pin_view s k)))"
    using s1(4) s2(4) same by auto
  moreover have "\<forall>i<32. pin_view s2 i = (if i \<in> set (k # ks) then pin_next dir gpdata ie nets i (pin_view s i) else pin_view s i)"
    using s1(5) s2(5) same rest(3) by auto
  ultimately show ?case using s2(2) by blast
qed auto

text \<open>C34: one run of the port's process with the power on. Every output pin is driven to its bit
  of the data register, and an edge is reported for exactly the output pins whose net shows
  the other level. For every input pin the remembered level becomes the level of the net; a
  rising edge sets its bit of the data register and, if enabled, its interrupt flag, a falling
  edge clears its bit of the data register, and all other bits keep their values. An interrupt
  is requested if and only if an enabled input rose or a request was pending.\<close>

theorem gpio_process_spec:
  assumes "gpio_shape (gp_regs s)" and "length (gp_pins s) = 32"
  defines "dir \<equiv> reg_value (gp_regs s) OFS_GPIO_DIR" and "gpdata \<equiv> reg_value (gp_regs s) OFS_GPIO_DATA"
    and "ie \<equiv> reg_value (gp_regs s) OFS_GPIO_IE"
  shows "\<exists>s' fx. Gpio_process cortex_m0 True nets s = Inr (s', fx)
    \<and> (\<forall>i<32. if bit dir i
        then gp_pins s' ! i = sc_logic_of (bit gpdata i) \<and> (Pos_edge i \<in> set fx \<longleftrightarrow> bit gpdata i \<and> \<not> pin_high (nets ! i))
          \<and> (Neg_edge i \<in> set fx \<longleftrightarrow> \<not> bit gpdata i \<and> pin_high (nets ! i))
          \<and> bit (reg_value (gp_regs s') OFS_GPIO_DATA) i = bit gpdata i
        else bit (gp_lastState s') i = pin_high (nets ! i) \<and> gp_pins s' ! i = gp_pins s ! i
          \<and> bit (reg_value (gp_regs s') OFS_GPIO_DATA) i
             = (if rose dir nets (gp_lastState s) i then True
                else if fell dir nets (gp_lastState s) i then False else bit gpdata i))
    \<and> (\<forall>i<32. bit (reg_value (gp_regs s') OFS_GPIO_IFG) i = (bit (reg_value (gp_regs s) OFS_GPIO_IFG) i
          \<or> rose dir nets (gp_lastState s) i \<and> bit ie i))
    \<and> gp_setIrq s' = (gp_setIrq s \<or> (\<exists>i<32. rose dir nets (gp_lastState s) i \<and> bit ie i))"
proof -
  note rf = gpio_shapeD [OF assms(1)]
  have wf: "gpio_wf s" and below: "set [0..<32] \<subseteq> {..<32}" using assms(1,2) by (auto simp: gpio_wf_def)
  obtain s2 fx where s2: "gpio_pins_loop cortex_m0 dir gpdata ie nets [0..<32] s = Inr (s2, fx)"
      "set fx - {Update_irq} = (\<Union>k \<in> set [0..<32]. pin_edges dir gpdata nets k)"
      "gp_setIrq s2 = (gp_setIrq s \<or> (\<exists>k \<in> set [0..<32]. pin_request dir ie nets k (pin_view s k)))"
      "\<forall>i<32. pin_view s2 i = (if i \<in> set [0..<32] then pin_next dir gpdata ie nets i (pin_view s i) else pin_view s i)"
    using gpio_loop_done [OF wf distinct_upt below, of dir gpdata ie nets] by blast
  have run: "Gpio_process cortex_m0 True nets s = Inr (s2, fx)"
    using rf s2(1) by (simp add: Gpio_process_def gpio_offsets dir_def gpdata_def ie_def)
  have edges: "Pos_edge i \<in> set fx \<longleftrightarrow> Pos_edge i \<in> (\<Union>k<32. pin_edges dir gpdata nets k)"
      "Neg_edge i \<in> set fx \<longleftrightarrow> Neg_edge i \<in> (\<Union>k<32. pin_edges dir gpdata nets k)" for i
    using s2(2) by (auto simp: lessThan_atLeast0)
  have view: "pin_view s2 i = pin_next dir gpdata ie nets i (pin_view s i)" if "i < 32" for i
    using s2(4) that by simp
  note unf = pin_view_def pin_next_def pin_edges_def rose_def fell_def gpio_offsets
  have "if bit dir i
        then gp_pins s2 ! i = sc_logic_of (bit gpdata i) \<and> (Pos_edge i \<in> set fx \<longleftrightarrow> bit gpdata i \<and> \<not> pin_high (nets ! i))
          \<and> (Neg_edge i \<in> set fx \<longleftrightarrow> \<not> bit gpdata i \<and> pin_high (nets ! i))
          \<and> bit (reg_value (gp_regs s2) OFS_GPIO_DATA) i = bit gpdata i
        else bit (gp_lastState s2) i = pin_high (nets ! i) \<and> gp_pins s2 ! i = gp_pins s ! i
          \<and> bit (reg_value (gp_regs s2) OFS_GPIO_DATA) i
             = (if rose dir nets (gp_lastState s) i then True
                else if fell dir nets (gp_lastState s) i then False else bit gpdata i)" if i: "i < 32" for i
    using view [OF i] edges [of i] i by (auto simp: unf gpdata_def split: if_splits)
  moreover have "bit (reg_value (gp_regs s2) OFS_GPIO_IFG) i = (bit (reg_value (gp_regs s) OFS_GPIO_IFG) i
          \<or> rose dir nets (gp_lastState s) i \<and> bit ie i)" if i: "i < 32" for i
    using view [OF i] by (auto simp: unf split: if_splits)
  moreover have "gp_setIrq s2 = (gp_setIrq s \<or> (\<exists>i<32. rose dir nets (gp_lastState s) i \<and> bit ie i))"
    using s2(3) by (auto simp: pin_request_def rose_def pin_view_def lessThan_atLeast0)
  ultimately show ?thesis using run by blast
qed

text \<open>A port after reset with pin 3 an enabled input on a high net.\<close>

definition gpio_example :: gpio where
  "gpio_example = Gpio_new\<lparr>gp_regs := put_reg (put_reg (put_reg Gpio_regs 0x400 2 False) 0x410 8 False) 0 2 False\<rparr>"

theorem gpio_process_spec_witness:
  "\<exists>s' fx. Gpio_process cortex_m0 True (replicate 3 SC_LOGIC_0 @ [SC_LOGIC_1] @ replicate 28 SC_LOGIC_0) gpio_example
      = Inr (s', fx)
    \<and> Pos_edge 1 \<in> set fx \<and> gp_pins s' ! 1 = SC_LOGIC_1 \<and> bit (reg_value (gp_regs s') OFS_GPIO_IFG) 3 \<and> gp_setIrq s'"
proof -
  let ?nets = "replicate 3 SC_LOGIC_0 @ [SC_LOGIC_1] @ replicate 28 SC_LOGIC_0"
  have shape: "gpio_shape (gp_regs gpio_example)" "length (gp_pins gpio_example) = 32"
    using gpio_shape_new by (simp_all add: gpio_example_def Gpio_new_def)
  have vals: "reg_value (gp_regs gpio_example) OFS_GPIO_DIR = 2" "reg_value (gp_regs gpio_example) OFS_GPIO_IE = 8"
      "reg_value (gp_regs gpio_example) OFS_GPIO_DATA = 2" "gp_lastState gpio_example = 0"
    by code_simp+
  have nets: "?nets ! 1 = SC_LOGIC_0" "?nets ! 3 = SC_LOGIC_1" by (simp_all add: nth_append)
  have bits: "bit (2 :: u32) 1" "\<not> bit (2 :: u32) 3" "bit (8 :: u32) 3" by (simp_all add: bit_numeral_rec)
  have rose: "rose 2 ?nets 0 3" using bits nets by (simp add: rose_def pin_high_def)
  obtain s' fx where r: "Gpio_process cortex_m0 True ?nets gpio_example = Inr (s', fx)"
      "\<forall>i<32. if bit (2 :: u32) i
        then gp_pins s' ! i = sc_logic_of (bit (2 :: u32) i) \<and> (Pos_edge i \<in> set fx \<longleftrightarrow> bit (2 :: u32) i \<and> \<not> pin_high (?nets ! i))
          \<and> (Neg_edge i \<in> set fx \<longleftrightarrow> \<not> bit (2 :: u32) i \<and> pin_high (?nets ! i))
          \<and> bit (reg_value (gp_regs s') OFS_GPIO_DATA) i = bit (2 :: u32) i
        else bit (gp_lastState s') i = pin_high (?nets ! i) \<and> gp_pins s' ! i = gp_pins gpio_example ! i
          \<and> bit (reg_value (gp_regs s') OFS_GPIO_DATA) i
             = (if rose 2 ?nets 0 i then True else if fell 2 ?nets 0 i then False else bit (2 :: u32) i)"
      "\<forall>i<32. bit (reg_value (gp_regs s') OFS_GPIO_IFG) i = (bit (reg_value (gp_regs gpio_example) OFS_GPIO_IFG) i
          \<or> rose 2 ?nets 0 i \<and> bit (8 :: u32) i)"
      "gp_setIrq s' = (gp_setIrq gpio_example \<or> (\<exists>i<32. rose 2 ?nets 0 i \<and> bit (8 :: u32) i))"
    using gpio_process_spec [OF shape, of ?nets] unfolding vals by blast
  have "Pos_edge 1 \<in> set fx \<and> gp_pins s' ! 1 = SC_LOGIC_1"
    using r(2) [rule_format, of 1] bits nets by (simp add: pin_high_def sc_logic_of_def)
  moreover have "bit (reg_value (gp_regs s') OFS_GPIO_IFG) 3" using r(3) [rule_format, of 3] rose bits by simp
  moreover have "gp_setIrq s'"
  proof -
    have "\<exists>i<32. rose 2 ?nets 0 i \<and> bit (8 :: u32) i" using rose bits by (intro exI [of _ 3]) simp
    then show ?thesis using r(4) by blast
  qed
  ultimately show ?thesis using r(1) by blast
qed

end
