(* ===== verification/Adc12.thy ===== *)
theory Adc12
  imports Peripheral Input_Trace
begin

unbundle bit_operations_syntax

text \<open>
  \<open>mcu/msp430fr5xx/Adc12.cpp\<close>: the analogue to digital converter, which samples half the
  supply voltage against a reference of 2 V at a rate derived from the clock source, the
  dividers, the sampling and the conversion time, and requests an interrupt when the sample
  leaves a window. Voltages are real numbers. What \<open>process\<close> is next triggered by, the
  notified events and the reports to the power model are part of the results; the signals it
  writes are state.
\<close>

section \<open>State and registers\<close>

record adc12 =
  ad_regs :: register_file
  m_active :: bool
  ad_irq :: bool
  ad_muxSelect :: int
  ad_divAmount :: int

datatype adc_effect =
    Adc_mode sc_time | Adc_cancel_mode | Adc_clock_update sc_time | Adc_off | Adc_on | Adc_sample

datatype adc_trigger = Trigger_clock | Trigger_mode | Trigger_write_clock | Trigger_power

definition OFS_ADC12CTL0 :: nat where "OFS_ADC12CTL0 = 0"
definition OFS_ADC12CTL1 :: nat where "OFS_ADC12CTL1 = 2"
definition OFS_ADC12CTL2 :: nat where "OFS_ADC12CTL2 = 4"
definition OFS_ADC12LO :: nat where "OFS_ADC12LO = 8"
definition OFS_ADC12HI :: nat where "OFS_ADC12HI = 0xa"
definition OFS_ADC12IER2 :: nat where "OFS_ADC12IER2 = 0x16"
definition OFS_ADC12IV :: nat where "OFS_ADC12IV = 0x18"
definition OFS_ADC12MEM0 :: nat where "OFS_ADC12MEM0 = 0x60"
definition OFS_ADC12MEM31 :: nat where "OFS_ADC12MEM31 = 0x9e"
definition ADC12_B_SIZE :: nat where "ADC12_B_SIZE = OFS_ADC12MEM31 + 2"

lemmas adc_offsets = OFS_ADC12CTL0_def OFS_ADC12CTL1_def OFS_ADC12CTL2_def OFS_ADC12LO_def OFS_ADC12HI_def
  OFS_ADC12IER2_def OFS_ADC12IV_def OFS_ADC12MEM0_def OFS_ADC12MEM31_def

abbreviation ADC12ON :: u32 where "ADC12ON \<equiv> 0x10"
abbreviation ADC12ENC :: u32 where "ADC12ENC \<equiv> 2"
abbreviation ADC12RES :: u32 where "ADC12RES \<equiv> 0x30"
abbreviation ADC12LOIE :: u32 where "ADC12LOIE \<equiv> 4"
abbreviation ADC12HIIE :: u32 where "ADC12HIIE \<equiv> 8"
abbreviation ADC12IV_LOIFG :: u32 where "ADC12IV_LOIFG \<equiv> 8"
abbreviation ADC12IV_HIIFG :: u32 where "ADC12IV_HIIFG \<equiv> 6"
abbreviation ADC12SSEL :: u32 where "ADC12SSEL \<equiv> 0x18"
abbreviation ADC12PDIV :: u32 where "ADC12PDIV \<equiv> 0x6000"
abbreviation ADC12DIV :: u32 where "ADC12DIV \<equiv> 0xe0"
abbreviation ADC12SHT0 :: u32 where "ADC12SHT0 \<equiv> 0xf00"

definition Adc12_MODCLK_SEL :: int where "Adc12_MODCLK_SEL = 0"
definition Adc12_ACLK_SEL :: int where "Adc12_ACLK_SEL = 1"
definition Adc12_MCLK_SEL :: int where "Adc12_MCLK_SEL = 2"
definition Adc12_SMCLK_SEL :: int where "Adc12_SMCLK_SEL = 3"

definition Adc12_regs :: register_file where
  "Adc12_regs =
     fold (\<lambda>i rf. addRegister rf i
             (if i = OFS_ADC12CTL2 then 0x20 else if i = OFS_ADC12HI then 0xfff
              else if OFS_ADC12MEM0 \<le> i \<and> i \<le> OFS_ADC12MEM31 then 0xaaaa else 0) READ_WRITE (- 1))
       (filter even [0..<ADC12_B_SIZE]) []"

definition Adc12_new :: adc12 where
  "Adc12_new = \<lparr>ad_regs = Adc12_regs, m_active = False, ad_irq = False, ad_muxSelect = 0, ad_divAmount = 1\<rparr>"

definition Adc12_reset :: "bool \<Rightarrow> adc12 \<Rightarrow> adc12 \<times> adc_effect list" where
  "Adc12_reset pwrOn s =
     (if pwrOn then (s\<lparr>ad_regs := rf_reset (ad_regs s)\<rparr>, [Adc_cancel_mode, Adc_mode 0])
      else if m_active s then (s\<lparr>m_active := False\<rparr>, [Adc_off])
      else (s, []))"

section \<open>Sampling\<close>

definition adc_resolution :: "u32 \<Rightarrow> int result" where
  "adc_resolution ctl2 =
     (let r = ctl2 AND ADC12RES in
      if r = 0 then Inr (2 ^ 8) else if r = 0x10 then Inr (2 ^ 10) else if r = 0x20 then Inr (2 ^ 12)
      else Inl Report_fatal)"

definition adc_convert :: "int \<Rightarrow> real \<Rightarrow> u16 result" where
  "adc_convert res vcc = real_to_unsigned (of_int res * (vcc / 4))"

definition adc_low :: "u16 \<Rightarrow> adc12 \<Rightarrow> (adc12 \<times> bool) result" where
  "adc_low v s =
     bind_r (rf_testBitMask (ad_regs s) OFS_ADC12IER2 ADC12LOIE) (\<lambda>ie.
     bind_r (rf_read (ad_regs s) OFS_ADC12LO) (\<lambda>lo.
       if ie \<and> ucast v < lo then
         bind_r (rf_setBitMask (ad_regs s) OFS_ADC12IV ADC12IV_LOIFG False) (\<lambda>rf.
           Inr (s\<lparr>ad_regs := rf, ad_irq := True\<rparr>, True))
       else Inr (s, False)))"

definition adc_high :: "u16 \<Rightarrow> adc12 \<Rightarrow> (adc12 \<times> bool) result" where
  "adc_high v s =
     bind_r (rf_testBitMask (ad_regs s) OFS_ADC12IER2 ADC12HIIE) (\<lambda>ie.
     bind_r (rf_read (ad_regs s) OFS_ADC12HI) (\<lambda>hi.
       if ie \<and> ucast v > hi then
         bind_r (rf_setBitMask (ad_regs s) OFS_ADC12IV ADC12IV_HIIFG False) (\<lambda>rf.
           Inr (s\<lparr>ad_regs := rf, ad_irq := True\<rparr>, True))
       else Inr (s, False)))"

definition adc_clear_irq :: "adc12 \<Rightarrow> adc12 result" where
  "adc_clear_irq s =
     bind_r (rf_read (ad_regs s) OFS_ADC12IV) (\<lambda>iv. Inr (if iv = 0 then s\<lparr>ad_irq := False\<rparr> else s))"

definition adc_take_sample :: "real \<Rightarrow> adc12 \<Rightarrow> (adc12 \<times> adc_effect list \<times> adc_trigger) result" where
  "adc_take_sample vcc s =
     bind_r (adc_clear_irq s) (\<lambda>s0.
     bind_r (rf_read (ad_regs s0) OFS_ADC12CTL2) (\<lambda>ctl2.
     bind_r (adc_resolution ctl2) (\<lambda>res.
     bind_r (adc_convert res vcc) (\<lambda>v.
     bind_r (rf_write (ad_regs s0) OFS_ADC12MEM0 (ucast v) False) (\<lambda>rf.
     bind_r (adc_low v (s0\<lparr>ad_regs := rf\<rparr>)) (\<lambda>(s1, b1).
     bind_r (adc_high v s1) (\<lambda>(s2, b2).
       Inr (s2, [Adc_sample], if b1 \<or> b2 then Trigger_write_clock else Trigger_clock))))))))"

definition Adc12_process :: "bool \<Rightarrow> real \<Rightarrow> adc12 \<Rightarrow> (adc12 \<times> adc_effect list \<times> adc_trigger) result" where
  "Adc12_process pwrOn vcc s =
     (if \<not> pwrOn then Inr (s, [], Trigger_power)
      else
        bind_r (rf_testBitMask (ad_regs s) OFS_ADC12CTL0 ADC12ON) (\<lambda>is_on.
        bind_r (if is_on then rf_testBitMask (ad_regs s) OFS_ADC12CTL0 ADC12ENC else Inr False) (\<lambda>run.
          if run then
            bind_r (adc_take_sample vcc (s\<lparr>m_active := True\<rparr>)) (\<lambda>(s1, fx, t).
              Inr (s1, (if m_active s then [] else [Adc_on]) @ fx, t))
          else Inr (s\<lparr>m_active := False, ad_irq := False\<rparr>, if m_active s then [Adc_off] else [], Trigger_mode))))"

section \<open>Bus access and clock\<close>

definition Adc12_b_transport ::
  "target \<Rightarrow> sc_time \<Rightarrow> adc12 \<Rightarrow> payload \<Rightarrow> sc_time
     \<Rightarrow> (adc12 \<times> payload \<times> sc_time \<times> effect list \<times> adc_effect list) result" where
  "Adc12_b_transport t period s tp delay =
     bind_r (BusTarget_b_transport t period (ad_regs s) tp delay) (\<lambda>(rf, tp1, d, fx).
     let s1 = s\<lparr>ad_regs := rf\<rparr>; addr = unat (address tp1) in
     case command tp1 of
       TLM_WRITE_COMMAND \<Rightarrow>
         Inr (s1, tp1, d, fx,
              if addr = OFS_ADC12CTL0 then [Adc_mode d, Adc_clock_update d]
              else if addr = OFS_ADC12CTL1 \<or> addr = OFS_ADC12CTL2 then [Adc_clock_update d] else [])
     | TLM_READ_COMMAND \<Rightarrow>
         if addr = OFS_ADC12IV then
           bind_r (rf_write rf OFS_ADC12IV 0 False) (\<lambda>rf2. Inr (s1\<lparr>ad_regs := rf2\<rparr>, tp1, d, fx, [Adc_mode d]))
         else Inr (s1, tp1, d, fx, [])
     | TLM_IGNORE_COMMAND \<Rightarrow> Inr (s1, tp1, d, fx, []))"

definition adc_mux :: "u32 \<Rightarrow> int" where
  "adc_mux ctl1 =
     (let sel = ctl1 AND ADC12SSEL in
      if sel = 0 then Adc12_MODCLK_SEL else if sel = 8 then Adc12_ACLK_SEL else if sel = 0x10 then Adc12_MCLK_SEL else Adc12_MCLK_SEL)"

definition adc_prediv :: "u32 \<Rightarrow> int" where
  "adc_prediv ctl1 =
     (let p = ctl1 AND ADC12PDIV in if p = 0 then 1 else if p = 0x2000 then 4 else if p = 0x4000 then 32 else 64)"

definition adc_sample_time :: "u32 \<Rightarrow> int result" where
  "adc_sample_time ctl0 =
     (let k = unat (drop_bit 8 (ctl0 AND ADC12SHT0)) in
      check_r (k < 10) Report_fatal (Inr ([4, 8, 16, 32, 64, 96, 128, 256, 384, 512] ! k)))"

definition adc_conversion_time :: "u32 \<Rightarrow> int result" where
  "adc_conversion_time ctl2 =
     (let r = ctl2 AND ADC12RES in
      if r = 0 then Inr 10 else if r = 0x10 then Inr 12 else if r = 0x20 then Inr 14 else Inl Report_fatal)"

definition Adc12_updateClkSource :: "adc12 \<Rightarrow> adc12 result" where
  "Adc12_updateClkSource s =
     bind_r (rf_read (ad_regs s) OFS_ADC12CTL1) (\<lambda>ctl1.
     bind_r (rf_read (ad_regs s) OFS_ADC12CTL0) (\<lambda>ctl0.
     bind_r (adc_sample_time ctl0) (\<lambda>sampleTime.
     bind_r (rf_read (ad_regs s) OFS_ADC12CTL2) (\<lambda>ctl2.
     bind_r (adc_conversion_time ctl2) (\<lambda>conversionTime.
       Inr (s\<lparr>ad_muxSelect := adc_mux ctl1,
              ad_divAmount := adc_prediv ctl1 * (1 + int (unat (drop_bit 5 (ctl1 AND ADC12DIV))))
                * (sampleTime + conversionTime)\<rparr>))))))"

section \<open>Properties\<close>

definition adc_shape :: "register_file \<Rightarrow> bool" where
  "adc_shape rf \<longleftrightarrow> rw rf 0 \<and> rw rf 2 \<and> rw rf 4 \<and> rw rf 8 \<and> rw rf 0xa \<and> rw rf 0x16 \<and> rw rf 0x18 \<and> rw rf 0x60
     \<and> mask_of rf 0x18 = - 1 \<and> mask_of rf 0x60 = - 1"

lemma adc_shapeD:
  assumes "adc_shape rf"
  shows "rw rf 0" "rw rf 2" "rw rf 4" "rw rf 8" "rw rf 0xa" "rw rf 0x16" "rw rf 0x18" "rw rf 0x60"
    "mask_of rf 0x18 = - 1" "mask_of rf 0x60 = - 1"
  using assms by (simp_all add: adc_shape_def)

text \<open>The levels of the window comparator: enabled and outside.\<close>

definition below_window :: "register_file \<Rightarrow> u16 \<Rightarrow> bool" where
  "below_window rf v \<longleftrightarrow> reg_value rf OFS_ADC12IER2 AND ADC12LOIE > 0 \<and> ucast v < reg_value rf OFS_ADC12LO"

definition above_window :: "register_file \<Rightarrow> u16 \<Rightarrow> bool" where
  "above_window rf v \<longleftrightarrow> reg_value rf OFS_ADC12IER2 AND ADC12HIIE > 0 \<and> reg_value rf OFS_ADC12HI < ucast v"


lemma reg_at_Adc12_regs:
  "reg_at Adc12_regs a = (if even a \<and> a < ADC12_B_SIZE then
     Some (mk_register a (if a = OFS_ADC12CTL2 then 0x20 else if a = OFS_ADC12HI then 0xfff
       else if OFS_ADC12MEM0 \<le> a \<and> a \<le> OFS_ADC12MEM31 then 0xaaaa else 0) READ_WRITE (- 1)) else None)"
  unfolding Adc12_regs_def fold_addRegister append_Nil reg_at_map by auto

lemma adc_shape_new: "adc_shape Adc12_regs"
  by (simp add: adc_shape_def rw_def mask_of_def reg_at_Adc12_regs ADC12_B_SIZE_def adc_offsets mk_register_def)

lemma adc_shape_put [simp]: "adc_shape (put_reg rf a v f) = adc_shape rf"
  unfolding adc_shape_def rw_put_reg mask_of_put_reg by (rule refl)

definition adc_example :: adc12 where
  "adc_example = Adc12_new\<lparr>ad_regs :=
     put_reg (put_reg (put_reg Adc12_regs OFS_ADC12CTL0 0x12 False) OFS_ADC12IER2 ADC12LOIE False) OFS_ADC12LO 0x100 False\<rparr>"

lemma adc_example_values:
  "reg_value (ad_regs adc_example) 0 = 0x12" "reg_value (ad_regs adc_example) 0x16 = 4"
  "reg_value (ad_regs adc_example) 8 = 0x100" "reg_value (ad_regs adc_example) 4 = 0x20"
  by (simp_all add: adc_example_def Adc12_new_def reg_value_def reg_at_put_reg reg_at_Adc12_regs write_reg_val
      mk_register_def ADC12_B_SIZE_def adc_offsets)

lemma adc_example_facts:
  "adc_shape (ad_regs adc_example)" "reg_value (ad_regs adc_example) OFS_ADC12CTL0 AND ADC12ON > 0"
  "reg_value (ad_regs adc_example) OFS_ADC12CTL0 AND ADC12ENC > 0"
  "adc_resolution (reg_value (ad_regs adc_example) OFS_ADC12CTL2) = Inr 4096"
  "below_window (ad_regs adc_example) 0"
  using adc_example_values adc_shape_new
  by (simp_all add: adc_offsets below_window_def adc_resolution_def adc_example_def Adc12_new_def)


end
