(* ===== verification/Eusci_B.thy ===== *)
theory Eusci_B
  imports Spi_Device
begin

unbundle bit_operations_syntax

text \<open>
  \<open>mcu/msp430fr5xx/eUSCI_B.cpp\<close>: the serial master of the MSP430. Its two threads are state
  machines between their waits; the external bus is a target, a transport function over the
  state of what is attached. Bus accesses notify the transmission event, which the sending
  thread only sees while it waits for it.

  The lemmas show that software that polls (no interrupt enabled) exchanges bytes with the
  attached device, and how the module requests direct memory access and interrupts.
\<close>

section \<open>State and registers\<close>

datatype eusci_pc = Eu_start | Eu_power | Eu_idle | Eu_transfer | Eu_accept | Eu_again | Eu_accept_again

text \<open>What the sending thread waits for: a delta cycle, power, the event, a delay, an acceptance.\<close>

datatype eusci_wait = Eu_wait_delta | Eu_wait_power | Eu_wait_tx | Eu_wait_time sc_time | Eu_wait_ira

datatype eusci_event = Eu_tx_event | Eu_dma_event

record eusci =
  eu_regs :: register_file
  eu_ext :: spi_extension
  eu_irq :: bool
  eu_pc :: eusci_pc

definition OFS_UCB0CTLW0 :: nat where "OFS_UCB0CTLW0 = 0"
definition OFS_UCB0BRW :: nat where "OFS_UCB0BRW = 6"
definition OFS_UCB0STATW :: nat where "OFS_UCB0STATW = 8"
definition OFS_UCB0RXBUF :: nat where "OFS_UCB0RXBUF = 0xc"
definition OFS_UCB0TXBUF :: nat where "OFS_UCB0TXBUF = 0xe"
definition OFS_UCB0IE :: nat where "OFS_UCB0IE = 0x2a"
definition OFS_UCB0IFG :: nat where "OFS_UCB0IFG = 0x2c"
definition OFS_UCB0IV :: nat where "OFS_UCB0IV = 0x2e"

lemmas eusci_offsets = OFS_UCB0CTLW0_def OFS_UCB0BRW_def OFS_UCB0STATW_def OFS_UCB0RXBUF_def OFS_UCB0TXBUF_def
  OFS_UCB0IE_def OFS_UCB0IFG_def OFS_UCB0IV_def

abbreviation UCSWRST :: u32 where "UCSWRST \<equiv> 1"
abbreviation UCSSEL1 :: u32 where "UCSSEL1 \<equiv> 0x80"
abbreviation UC7BIT :: u32 where "UC7BIT \<equiv> 0x1000"
abbreviation UCMSB :: u32 where "UCMSB \<equiv> 0x2000"
abbreviation UCCKPL :: u32 where "UCCKPL \<equiv> 0x4000"
abbreviation UCCKPH :: u32 where "UCCKPH \<equiv> 0x8000"
abbreviation UCBUSY :: u32 where "UCBUSY \<equiv> 1"
abbreviation UCRXIE :: u32 where "UCRXIE \<equiv> 1"
abbreviation UCTXIE :: u32 where "UCTXIE \<equiv> 2"
abbreviation UCRXIFG :: u32 where "UCRXIFG \<equiv> 1"
abbreviation UCTXIFG :: u32 where "UCTXIFG \<equiv> 2"

definition eUSCI_B_regs :: "u16 \<Rightarrow> u16 \<Rightarrow> register_file" where
  "eUSCI_B_regs startAddr endAddr =
     fold (\<lambda>i rf. addRegister rf i
             (if i = OFS_UCB0CTLW0 then 0x01c1 else if i = OFS_UCB0IFG then 2 else 0) READ_WRITE (- 1))
       (filter even [0..<unat (endAddr - startAddr + 1)]) []"

definition eUSCI_B_new :: "u16 \<Rightarrow> u16 \<Rightarrow> eusci" where
  "eUSCI_B_new startAddr endAddr =
     \<lparr>eu_regs = eUSCI_B_regs startAddr endAddr, eu_ext = SpiTransactionExtension_default,
      eu_irq = False, eu_pc = Eu_start\<rparr>"

definition eUSCI_B_reset :: "bool \<Rightarrow> eusci \<Rightarrow> eusci" where
  "eUSCI_B_reset pwrOn s = (if pwrOn then s\<lparr>eu_regs := rf_reset (eu_regs s)\<rparr> else s)"

definition eUSCI_B_swreset :: "bool \<Rightarrow> eusci \<Rightarrow> eusci result" where
  "eUSCI_B_swreset pwrOn s =
     (if pwrOn then
        bind_r (rf_write (eu_regs s) OFS_UCB0IE 0 False) (\<lambda>rf.
        bind_r (rf_write rf OFS_UCB0IFG 2 False) (\<lambda>rf2. Inr (s\<lparr>eu_regs := rf2\<rparr>)))
      else Inr s)"

section \<open>Bus access\<close>

definition eusci_written :: "bool \<Rightarrow> nat \<Rightarrow> eusci \<Rightarrow> (eusci \<times> eusci_event list) result" where
  "eusci_written pwrOn addr s =
     (if addr = OFS_UCB0CTLW0 then
        bind_r (rf_read (eu_regs s) OFS_UCB0CTLW0) (\<lambda>v.
          if v AND UCSWRST \<noteq> 0 then bind_r (eUSCI_B_swreset pwrOn s) (\<lambda>s1. Inr (s1, [])) else Inr (s, []))
      else if addr = OFS_UCB0TXBUF then Inr (s, [Eu_tx_event])
      else Inr (s, []))"

definition eusci_read :: "nat \<Rightarrow> eusci \<Rightarrow> eusci result" where
  "eusci_read addr s =
     (if addr = OFS_UCB0RXBUF then
        bind_r (rf_read (eu_regs s) OFS_UCB0IFG) (\<lambda>v.
        bind_r (rf_write (eu_regs s) OFS_UCB0IFG (v AND NOT UCRXIFG) False) (\<lambda>rf. Inr (s\<lparr>eu_regs := rf\<rparr>)))
      else if addr = OFS_UCB0IV then
        bind_r (rf_read (eu_regs s) OFS_UCB0IFG) (\<lambda>v.
        bind_r (rf_write (eu_regs s) OFS_UCB0IV (if v AND UCRXIFG \<noteq> 0 then 2 else 0) False) (\<lambda>rf.
          Inr (s\<lparr>eu_regs := rf\<rparr>)))
      else Inr s)"

definition eUSCI_B_b_transport ::
  "target \<Rightarrow> sc_time \<Rightarrow> bool \<Rightarrow> eusci \<Rightarrow> payload \<Rightarrow> sc_time
     \<Rightarrow> (eusci \<times> payload \<times> sc_time \<times> effect list \<times> eusci_event list) result" where
  "eUSCI_B_b_transport t access_period pwrOn s tp delay =
     bind_r (BusTarget_b_transport t access_period (eu_regs s) tp delay) (\<lambda>(rf, tp1, d, fx).
     let s1 = s\<lparr>eu_regs := rf\<rparr>; addr = unat (address tp1) in
     case command tp1 of
       TLM_WRITE_COMMAND \<Rightarrow> bind_r (eusci_written pwrOn addr s1) (\<lambda>(s2, ev). Inr (s2, tp1, d, fx, ev))
     | TLM_READ_COMMAND \<Rightarrow> bind_r (eusci_read addr s1) (\<lambda>s2. Inr (s2, tp1, d, fx, []))
     | TLM_IGNORE_COMMAND \<Rightarrow> Inr (s1, tp1, d, fx, []))"

section \<open>The sending thread\<close>

text \<open>\<open>aclk\<close> and \<open>smclk\<close> are the periods of the clocks.\<close>

definition eusci_parameters :: "sc_time \<Rightarrow> sc_time \<Rightarrow> u32 \<Rightarrow> u32 \<Rightarrow> spi_extension \<Rightarrow> spi_extension" where
  "eusci_parameters aclk smclk ctl brw e =
     e\<lparr>clkPeriod := (if ctl AND UCSSEL1 \<noteq> 0 then smclk else aclk) * unat brw,
       nDataBits := (if ctl AND UC7BIT \<noteq> 0 then 7 else 8),
       phase := (if ctl AND UCCKPH \<noteq> 0 then CAPTURE_FIRST_EDGE else CAPTURE_SECOND_EDGE),
       polarity := (if ctl AND UCCKPL \<noteq> 0 then Polarity_HIGH else Polarity_LOW),
       bitOrder := (if ctl AND UCMSB \<noteq> 0 then MSB_FIRST else LSB_FIRST)\<rparr>"

definition eusci_begin ::
  "'e spi_target \<Rightarrow> sc_time \<Rightarrow> sc_time \<Rightarrow> eusci \<Rightarrow> 'e \<Rightarrow> (eusci \<times> 'e \<times> eusci_wait) result" where
  "eusci_begin target aclk smclk s env =
     bind_r (rf_read (eu_regs s) OFS_UCB0IFG) (\<lambda>ifg.
     bind_r (rf_write (eu_regs s) OFS_UCB0IFG (ifg AND NOT UCTXIFG) False) (\<lambda>rf1.
     bind_r (rf_read rf1 OFS_UCB0STATW) (\<lambda>stat.
     bind_r (rf_write rf1 OFS_UCB0STATW (stat OR UCBUSY) False) (\<lambda>rf2.
     bind_r (rf_read rf2 OFS_UCB0TXBUF) (\<lambda>tx.
     bind_r (rf_read rf2 OFS_UCB0CTLW0) (\<lambda>ctl.
     bind_r (rf_read rf2 OFS_UCB0BRW) (\<lambda>brw.
     let e = eusci_parameters aclk smclk ctl brw (eu_ext s) in
     bind_r (target env \<lparr>command = TLM_WRITE_COMMAND, address = 0, data = [ucast tx], response_ok = False\<rparr> e
               (transferTime e)) (\<lambda>(env1, tp, e1, delay).
     check_r (response_ok tp) Report_fatal
       (Inr (s\<lparr>eu_regs := rf2, eu_ext := e1, eu_pc := Eu_transfer\<rparr>, env1, Eu_wait_time delay))))))))))"

text \<open>The end of a run of the loop and its head.\<close>

definition eusci_next :: "bool \<Rightarrow> eusci \<Rightarrow> eusci \<times> eusci_wait" where
  "eusci_next pwrOn s =
     (if pwrOn then (s\<lparr>eu_pc := Eu_idle\<rparr>, Eu_wait_tx) else (s\<lparr>eu_pc := Eu_power\<rparr>, Eu_wait_power))"

definition eusci_done :: "bool \<Rightarrow> eusci \<Rightarrow> (eusci \<times> eusci_wait) result" where
  "eusci_done pwrOn s =
     bind_r (rf_read (eu_regs s) OFS_UCB0STATW) (\<lambda>stat.
     bind_r (rf_write (eu_regs s) OFS_UCB0STATW (stat AND NOT UCBUSY) False) (\<lambda>rf.
       Inr (eusci_next pwrOn (s\<lparr>eu_regs := rf\<rparr>))))"

definition eusci_vector :: "u32 \<Rightarrow> register_file \<Rightarrow> register_file result" where
  "eusci_vector ie rf =
     (if ie AND UCTXIE \<noteq> 0 then rf_write rf OFS_UCB0IV 4 False
      else if ie AND UCRXIE \<noteq> 0 then rf_write rf OFS_UCB0IV 2 False
      else Inr rf)"

definition eusci_finish :: "bool \<Rightarrow> eusci \<Rightarrow> (eusci \<times> eusci_event list \<times> eusci_wait) result" where
  "eusci_finish pwrOn s =
     bind_r (rf_write (eu_regs s) OFS_UCB0RXBUF (response (eu_ext s)) False) (\<lambda>rf1.
     bind_r (rf_read rf1 OFS_UCB0IFG) (\<lambda>ifg.
     bind_r (rf_write rf1 OFS_UCB0IFG (ifg OR UCTXIFG OR UCRXIFG) False) (\<lambda>rf2.
     bind_r (rf_read rf2 OFS_UCB0IE) (\<lambda>ie.
     let dma_flag = (ie AND UCTXIE = 0 \<or> ie AND UCRXIE = 0); ev = (if dma_flag then [Eu_dma_event] else []) in
     bind_r (eusci_vector ie rf2) (\<lambda>rf3.
       if ie \<noteq> 0 then
         bind_r (rf_read rf3 OFS_UCB0IFG) (\<lambda>f.
           Inr (s\<lparr>eu_regs := rf3, eu_irq := (f > 0), eu_pc := Eu_accept\<rparr>, ev, Eu_wait_ira))
       else bind_r (eusci_done pwrOn (s\<lparr>eu_regs := rf3\<rparr>)) (\<lambda>(s1, w). Inr (s1, ev, w)))))))"

text \<open>An interrupt is accepted: the transmit one goes first, a pending receive one follows.\<close>

definition eusci_accepted :: "bool \<Rightarrow> eusci \<Rightarrow> (eusci \<times> eusci_wait) result" where
  "eusci_accepted pwrOn s =
     bind_r (rf_read (eu_regs s) OFS_UCB0IFG) (\<lambda>ifg.
     bind_r (rf_read (eu_regs s) OFS_UCB0IE) (\<lambda>ie.
     let tx = (ifg AND UCTXIFG \<noteq> 0 \<and> ie AND UCTXIE \<noteq> 0); rx = (ifg AND UCRXIFG \<noteq> 0 \<and> ie AND UCRXIE \<noteq> 0) in
     if tx then
       (if rx then Inr (s\<lparr>eu_irq := False, eu_pc := Eu_again\<rparr>, Eu_wait_delta)
        else eusci_done pwrOn (s\<lparr>eu_irq := False\<rparr>))
     else if rx then eusci_done pwrOn (s\<lparr>eu_irq := False\<rparr>)
     else eusci_done pwrOn s))"

text \<open>One run of the thread, from the wait it is in to the next one.\<close>

definition eUSCI_B_process ::
  "'e spi_target \<Rightarrow> sc_time \<Rightarrow> sc_time \<Rightarrow> bool \<Rightarrow> eusci \<Rightarrow> 'e \<Rightarrow> (eusci \<times> 'e \<times> eusci_event list \<times> eusci_wait) result" where
  "eUSCI_B_process target aclk smclk pwrOn s env =
     (case eu_pc s of
        Eu_start \<Rightarrow> (let (s1, w) = eusci_next pwrOn s in Inr (s1, env, [], w))
      | Eu_power \<Rightarrow> Inr (s\<lparr>eu_pc := Eu_idle\<rparr>, env, [], Eu_wait_tx)
      | Eu_idle \<Rightarrow> bind_r (eusci_begin target aclk smclk s env) (\<lambda>(s1, env1, w). Inr (s1, env1, [], w))
      | Eu_transfer \<Rightarrow> bind_r (eusci_finish pwrOn s) (\<lambda>(s1, ev, w). Inr (s1, env, ev, w))
      | Eu_accept \<Rightarrow> bind_r (eusci_accepted pwrOn s) (\<lambda>(s1, w). Inr (s1, env, [], w))
      | Eu_again \<Rightarrow> Inr (s\<lparr>eu_irq := True, eu_pc := Eu_accept_again\<rparr>, env, [], Eu_wait_ira)
      | Eu_accept_again \<Rightarrow> bind_r (eusci_done pwrOn (s\<lparr>eu_irq := False\<rparr>)) (\<lambda>(s1, w). Inr (s1, env, [], w)))"

section \<open>The thread that drives the trigger of the DMA controller\<close>

datatype eusci_dma = Eud_start | Eud_waiting | Eud_high

text \<open>The new state, the trigger written (if any) and the delay waited for (\<open>None\<close>: the event).\<close>

definition dmaEventHandler ::
  "sc_time \<Rightarrow> sc_time \<Rightarrow> register_file \<Rightarrow> eusci_dma \<Rightarrow> (eusci_dma \<times> bool option \<times> sc_time option) result" where
  "dmaEventHandler aclk smclk rf pc =
     (case pc of
        Eud_start \<Rightarrow> Inr (Eud_waiting, None, None)
      | Eud_waiting \<Rightarrow>
          bind_r (rf_read rf OFS_UCB0CTLW0) (\<lambda>ctl.
            Inr (Eud_high, Some True, Some (if ctl AND UCSSEL1 \<noteq> 0 then smclk else aclk)))
      | Eud_high \<Rightarrow> Inr (Eud_waiting, Some False, None))"

section \<open>Software that polls\<close>

definition eusci_software_exchange ::
  "'e spi_target \<Rightarrow> sc_time \<Rightarrow> sc_time \<Rightarrow> sc_time \<Rightarrow> ('e \<Rightarrow> ('e \<times> 'fx list) result)
     \<Rightarrow> u8 \<Rightarrow> eusci \<times> 'e \<Rightarrow> ((eusci \<times> 'e) \<times> u8) result" where
  "eusci_software_exchange target aclk smclk access_period process b se =
     bind_r (eUSCI_B_b_transport msp430 access_period True (fst se) (write_byte OFS_UCB0TXBUF b) 0) (\<lambda>(s1, _, _, _, ev).
     bind_r (if Eu_tx_event \<in> set ev
             then bind_r (eUSCI_B_process target aclk smclk True s1 (snd se)) (\<lambda>(s, env, _). Inr (s, env))
             else Inr (s1, snd se)) (\<lambda>(s2, env1).
     bind_r (process env1) (\<lambda>(env2, _).
     bind_r (eUSCI_B_process target aclk smclk True s2 env2) (\<lambda>(s3, env3, _).
     bind_r (eUSCI_B_b_transport msp430 access_period True s3 (read_byte OFS_UCB0RXBUF) 0) (\<lambda>(s4, tp, _).
       Inr ((s4, env3), data tp ! 0))))))"

definition loopback_target :: "sc_logic \<Rightarrow> bool \<Rightarrow> spi_device spi_target" where
  "loopback_target chipSelect nReset d tp e delay =
     bind_r (SpiLoopBack_b_transport chipSelect nReset d tp (Some e) delay) (\<lambda>(d1, tp1, e1, _).
       Inr (d1, tp1, (case e1 of Some e' \<Rightarrow> e' | None \<Rightarrow> e), delay))"

definition eu_shape :: "register_file \<Rightarrow> bool" where
  "eu_shape rf \<longleftrightarrow> rw rf 0 \<and> rw rf 6 \<and> rw rf 8 \<and> rw rf 0xc \<and> rw rf 0xe \<and> rw rf 0x2a \<and> rw rf 0x2c \<and> rw rf 0x2e
     \<and> mask_of rf 0xc = - 1 \<and> mask_of rf 0xe = - 1"

lemma eu_shapeD:
  assumes "eu_shape rf"
  shows "rw rf 0" "rw rf 6" "rw rf 8" "rw rf 0xc" "rw rf 0xe" "rw rf 0x2a" "rw rf 0x2c" "rw rf 0x2e"
    "mask_of rf 0xc = - 1" "mask_of rf 0xe = - 1"
  using assms by (simp_all add: eu_shape_def)

lemma eu_shape_put [simp]: "eu_shape (put_reg rf a v f) = eu_shape rf"
  unfolding eu_shape_def rw_put_reg mask_of_put_reg by (rule refl)

lemma eusci_reg_at:
  "reg_at (eUSCI_B_regs a (a + 0x2f)) i
    = (if even i \<and> i < 0x30 then Some (mk_register i
         (if i = OFS_UCB0CTLW0 then 0x01c1 else if i = OFS_UCB0IFG then 2 else 0) READ_WRITE (- 1)) else None)"
proof -
  have n: "unat (a + 0x2f - a + 1) = 0x30" by simp
  show ?thesis unfolding eUSCI_B_regs_def fold_addRegister append_Nil reg_at_map n by simp
qed

lemma eu_regs_new:
  "eu_shape (eUSCI_B_regs a (a + 0x2f))" "reg_value (eUSCI_B_regs a (a + 0x2f)) OFS_UCB0IE = 0"
  by (simp_all add: eu_shape_def rw_def mask_of_def reg_value_def eusci_reg_at mk_register_def eusci_offsets)

text \<open>The module waits for the transmission event and no interrupt is enabled.\<close>

definition eu_polled :: "eusci \<Rightarrow> bool" where
  "eu_polled s \<longleftrightarrow> eu_shape (eu_regs s) \<and> eu_pc s = Eu_idle \<and> reg_value (eu_regs s) OFS_UCB0IE = 0"

text \<open>What is attached answers the byte \<open>b\<close> with \<open>out\<close> and goes on from \<open>env\<close> to \<open>env1\<close>.\<close>

definition answers :: "'e spi_target \<Rightarrow> u8 \<Rightarrow> 'e \<Rightarrow> 'e \<Rightarrow> u32 \<Rightarrow> bool" where
  "answers target b env env1 out \<longleftrightarrow> (\<forall>e d. target env (spi_payload b) e d
     = Inr (env1, (spi_payload b)\<lparr>response_ok := True\<rparr>, e\<lparr>response := out\<rparr>, d))"

lemma device_answers:
  "spi_enabled cs (dev x) \<Longrightarrow>
   answers (device_target dev put cs True) b x (put (writeSlaveIn (ucast b) (dev x)) x) (readSlaveOut (dev x))"
  by (simp add: answers_def device_target_selected [where b = b] spi_payload_def)

lemma loopback_answers:
  "spi_enabled cs d \<Longrightarrow> answers (loopback_target cs True) b d d (ucast b)"
  by (simp add: answers_def loopback_target_def SpiLoopBack_echo)

lemma eusci_write_tx:
  assumes "eu_shape (eu_regs s)"
  shows "\<exists>s' tp d fx. eUSCI_B_b_transport msp430 access_period True s (write_byte OFS_UCB0TXBUF b) 0
      = Inr (s', tp, d, fx, [Eu_tx_event])
    \<and> eu_shape (eu_regs s') \<and> ucast (reg_value (eu_regs s') OFS_UCB0TXBUF) = b
    \<and> reg_value (eu_regs s') OFS_UCB0IE = reg_value (eu_regs s) OFS_UCB0IE \<and> eu_pc s' = eu_pc s"
proof -
  note rf = eu_shapeD [OF assms]
  have byte: "ucast (set_host_byte v 0 b) = b" for v :: u32
    by (rule bit_eqI) (simp add: set_host_byte_def bit_simps)
  define r1 where "r1 = put_reg (eu_regs s) 0xe (set_host_byte (reg_value (eu_regs s) 0xe) 0 b) False"
  have "BusTarget_b_transport msp430 access_period (eu_regs s) (write_byte 0xe b) 0
    = Inr (r1, (write_byte 0xe b)\<lparr>response_ok := True\<rparr>, access_period, [Notify Write_event access_period, Report Pe_write 1])"
    using rf by (simp add: BusTarget_b_transport_def write_byte_def rf_write_buf.simps rf_writeByte_def
        msp430_def Let_def r1_def)
  then show ?thesis
    using rf assms by (simp add: eUSCI_B_b_transport_def write_byte_def eusci_written_def eusci_offsets r1_def byte)
qed

lemma eusci_send:
  assumes "eu_shape (eu_regs s)" and "eu_pc s = Eu_idle" and "ucast (reg_value (eu_regs s) OFS_UCB0TXBUF) = b"
    and "answers target b env env1 out"
  shows "\<exists>s' w. eUSCI_B_process target aclk smclk True s env = Inr (s', env1, [], w)
    \<and> eu_shape (eu_regs s') \<and> eu_pc s' = Eu_transfer \<and> response (eu_ext s') = out
    \<and> reg_value (eu_regs s') OFS_UCB0IE = reg_value (eu_regs s) OFS_UCB0IE"
  using eu_shapeD [OF assms(1)] assms(1-3) assms(4) [unfolded answers_def spi_payload_def]
  by (simp add: eUSCI_B_process_def eusci_begin_def eusci_offsets Let_def)

lemma eusci_receive:
  assumes "eu_shape (eu_regs s)" and "eu_pc s = Eu_transfer" and "reg_value (eu_regs s) OFS_UCB0IE = 0"
  shows "\<exists>s' w. eUSCI_B_process target aclk smclk True s env = Inr (s', env, [Eu_dma_event], w)
    \<and> eu_polled s' \<and> reg_value (eu_regs s') OFS_UCB0RXBUF = response (eu_ext s)"
  using eu_shapeD [OF assms(1)] assms
  by (simp add: eUSCI_B_process_def eusci_finish_def eusci_vector_def eusci_done_def eusci_next_def eu_polled_def
      eusci_offsets Let_def)

lemma eusci_read_rx:
  assumes "eu_polled s"
  shows "\<exists>s' tp d fx ev. eUSCI_B_b_transport msp430 access_period True s (read_byte OFS_UCB0RXBUF) 0
      = Inr (s', tp, d, fx, ev) \<and> data tp = [host_byte (reg_value (eu_regs s) OFS_UCB0RXBUF) 0] \<and> eu_polled s'"
proof -
  have rf: "eu_shape (eu_regs s)" using assms by (simp add: eu_polled_def)
  note shape = eu_shapeD [OF rf]
  obtain r where r: "reg_at (eu_regs s) 0xc = Some r" "access r = READ_WRITE" using shape(4) by (auto simp: rw_def)
  have "BusTarget_b_transport msp430 access_period (eu_regs s) (read_byte 0xc) 0
    = Inr (eu_regs s, (read_byte 0xc)\<lparr>data := [host_byte (reg_value (eu_regs s) 0xc) 0], response_ok := True\<rparr>, access_period,
        [Notify Read_event access_period, Report Pe_read 1])"
    using r by (simp add: BusTarget_b_transport_def read_byte_def data_length_def rf_read_buf.simps rf_readByte_def
        msp430_def Let_def rf_find_def readable_def reg_value_def)
  then show ?thesis
    using shape assms
    by (simp add: eUSCI_B_b_transport_def read_byte_def eusci_read_def eusci_offsets eu_polled_def)
qed

lemma eusci_software_step:
  assumes "eu_polled s"
    and "answers target b env env1 out"
    and "process env1 = Inr (env', fx)"
  shows "\<exists>s'. eusci_software_exchange target aclk smclk access_period process b (s, env)
      = Inr ((s', env'), host_byte out 0) \<and> eu_polled s'"
proof -
  have s: "eu_shape (eu_regs s)" "eu_pc s = Eu_idle" "reg_value (eu_regs s) OFS_UCB0IE = 0"
    using assms(1) by (simp_all add: eu_polled_def)
  obtain s1 tp1 d1 fx1 where s1: "eUSCI_B_b_transport msp430 access_period True s (write_byte OFS_UCB0TXBUF b) 0
      = Inr (s1, tp1, d1, fx1, [Eu_tx_event])" "eu_shape (eu_regs s1)" "ucast (reg_value (eu_regs s1) OFS_UCB0TXBUF) = b"
      "reg_value (eu_regs s1) OFS_UCB0IE = 0" "eu_pc s1 = Eu_idle"
    using eusci_write_tx [OF s(1), of access_period b] s by auto
  obtain s2 w2 where s2: "eUSCI_B_process target aclk smclk True s1 env = Inr (s2, env1, [], w2)"
      "eu_shape (eu_regs s2)" "eu_pc s2 = Eu_transfer" "response (eu_ext s2) = out" "reg_value (eu_regs s2) OFS_UCB0IE = 0"
    using eusci_send [OF s1(2,5,3) assms(2), of aclk smclk] s1(4) by auto
  obtain s3 w3 where s3: "eUSCI_B_process target aclk smclk True s2 env' = Inr (s3, env', [Eu_dma_event], w3)"
      "eu_polled s3" "reg_value (eu_regs s3) OFS_UCB0RXBUF = out"
    using eusci_receive [OF s2(2,3,5), of target aclk smclk env'] s2(4) by auto
  obtain s4 tp4 d4 fx4 ev4 where s4: "eUSCI_B_b_transport msp430 access_period True s3 (read_byte OFS_UCB0RXBUF) 0
      = Inr (s4, tp4, d4, fx4, ev4)" "data tp4 = [host_byte out 0]" "eu_polled s4"
    using eusci_read_rx [OF s3(2), of access_period] s3(3) by auto
  show ?thesis
    using s1(1) s2(1) assms(3) s3(1) s4 by (simp add: eusci_software_exchange_def)
qed

interpretation msp_master: spi_master eu_polled "\<lambda>x. spi_enabled cs (dev x)" "spi_exchange dev put process cs True e"
  "eusci_software_exchange (device_target dev put cs True) aclk smclk access_period (process cs)"
  for cs dev put process e aclk smclk access_period
proof
  fix s env b env' out fx
  assume s: "eu_polled s" and en: "spi_enabled cs (dev env)"
    and ex: "spi_exchange dev put process cs True e b env = Inr (env', out, fx)"
  have out: "process cs (put (writeSlaveIn (ucast b) (dev env)) env) = Inr (env', fx)" "out = readSlaveOut (dev env)"
    using ex unfolding spi_exchange_selected [where dev = dev, OF en] by (auto simp: bind_r_eq_Inr)
  show "\<exists>s'. eusci_software_exchange (device_target dev put cs True) aclk smclk access_period (process cs) b (s, env)
      = Inr ((s', env'), host_byte out 0) \<and> eu_polled s'"
    using eusci_software_step [where process = "process cs", OF s device_answers [where dev = dev and put = put, OF en] out(1)]
      out(2) by simp
qed

interpretation loop_master: spi_master eu_polled "\<lambda>d. spi_enabled cs d" "\<lambda>b d. Inr (d, ucast b, [])"
  "eusci_software_exchange (loopback_target cs True) aclk smclk access_period (\<lambda>d. Inr (d, []))"
  for cs aclk smclk access_period
proof
  fix s and b :: u8 and d d' :: spi_device and out :: u32 and fx :: "'a list"
  assume s: "eu_polled s" and en: "spi_enabled cs d" and ex: "Inr (d, ucast b, []) = Inr (d', out, fx)"
  show "\<exists>s'. eusci_software_exchange (loopback_target cs True) aclk smclk access_period (\<lambda>d. Inr (d, [])) b (s, d)
      = Inr ((s', d'), host_byte out 0) \<and> eu_polled s'"
    using eusci_software_step [where process = "\<lambda>d. Inr (d, [])", OF s loopback_answers [OF en] refl] ex by auto
qed

text \<open>C36: software that polls the serial master of the MSP430 with the loop back device attached and
  selected reads back every byte it writes, however many and in order, whatever the clocks and
  the configured parameters; afterwards the module is idle again and the device unchanged.\<close>

theorem eusci_echoes:
  assumes "eu_polled s" and "spi_enabled cs d"
  shows "\<exists>s'. spi_software_burst (eusci_software_exchange (loopback_target cs True) aclk smclk access_period
      (\<lambda>d. Inr (d, [] :: unit list))) bs (s, d) = Inr ((s', d), bs) \<and> eu_polled s'"
proof -
  have burst: "spi_burst (\<lambda>b d. Inr (d, ucast b, [] :: unit list)) bs d = Inr (d, map ucast bs)" for d :: spi_device
    by (induction bs) simp_all
  have byte: "host_byte (ucast b :: u32) 0 = b" for b :: u8
    by (rule bit_eqI) (simp add: host_byte_def bit_simps)
  show ?thesis
    using loop_master.relays [where J = "\<lambda>d. spi_enabled cs d", OF assms _ _ burst]
    by (auto simp: byte comp_def)
qed

text \<open>
  Interrupts: with both enabled the line rises at the end of the transfer, falls when it is
  accepted, rises again for the received byte, and only its acceptance ends the busy state.
\<close>

lemma eusci_interrupt_handshake:
  assumes "eu_shape (eu_regs s)" and "eu_pc s = Eu_transfer" and "reg_value (eu_regs s) OFS_UCB0IE = 3"
    and "mask_of (eu_regs s) OFS_UCB0IFG = - 1"
  shows "\<exists>s1 s2 s3 s4. eUSCI_B_process target aclk smclk True s env = Inr (s1, env, [], Eu_wait_ira) \<and> eu_irq s1
    \<and> eUSCI_B_process target aclk smclk True s1 env = Inr (s2, env, [], Eu_wait_delta) \<and> \<not> eu_irq s2
    \<and> eUSCI_B_process target aclk smclk True s2 env = Inr (s3, env, [], Eu_wait_ira) \<and> eu_irq s3
    \<and> eUSCI_B_process target aclk smclk True s3 env = Inr (s4, env, [], Eu_wait_tx) \<and> \<not> eu_irq s4
    \<and> reg_value (eu_regs s3) OFS_UCB0STATW = reg_value (eu_regs s) OFS_UCB0STATW"
proof -
  note rf = eu_shapeD [OF assms(1)]
  have flags: "(v OR 2 OR 1) AND 1 \<noteq> 0" "(v OR 2 OR 1) AND 2 \<noteq> 0" "v OR 2 OR 1 > 0" for v :: u32
    by (auto simp: bit_eq_iff bit_simps word_gt_0 intro: exI [of _ 0] exI [of _ 1])
  show ?thesis
    using rf assms flags
    by (simp add: eUSCI_B_process_def eusci_finish_def eusci_vector_def eusci_accepted_def eusci_done_def eusci_next_def
        eusci_offsets Let_def)
qed

definition eusci_example :: eusci where
  "eusci_example = (eUSCI_B_new 0x640 (0x640 + 0x2f))\<lparr>eu_pc := Eu_idle\<rparr>"

lemma eusci_example_polled: "eu_polled eusci_example"
  unfolding eu_polled_def eusci_example_def eUSCI_B_new_def using eu_regs_new [of "0x640"] by simp

theorem eusci_echoes_witness:
  "\<exists>s'. spi_software_burst (eusci_software_exchange (loopback_target SC_LOGIC_0 True) 30 125 1000
      (\<lambda>d. Inr (d, [] :: unit list))) [0x42, 0, 0xff] (eusci_example, SpiLoopBack_new)
      = Inr ((s', SpiLoopBack_new), [0x42, 0, 0xff]) \<and> eu_polled s'"
  by (rule eusci_echoes [OF eusci_example_polled]) (simp add: spi_enabled_def SpiLoopBack_new_def)

end
