(* ===== verification/Bme280.thy ===== *)
theory Bme280
  imports Spi_Device Input_Trace
begin

unbundle bit_operations_syntax

text \<open>
  \<open>sd/Bme280.cpp\<close>: the temperature, pressure and humidity sensor. Its serial interface reads
  registers with an address that counts up; its measurement thread replays the input trace, with
  oversampling and a filter, and is a state machine between its waits: a program counter holds
  the local variables alive at a wait. Doubles are real numbers, as in \<open>Input_Trace\<close>.

  The lemmas follow one forced measurement through the thread and the burst read of its result.
\<close>

section \<open>Registers\<close>

definition ADDR_HUM_LSB :: nat where "ADDR_HUM_LSB = 0xfe"
definition ADDR_HUM_MSB :: nat where "ADDR_HUM_MSB = 0xfd"
definition ADDR_TEMP_XLSB :: nat where "ADDR_TEMP_XLSB = 0xfc"
definition ADDR_TEMP_LSB :: nat where "ADDR_TEMP_LSB = 0xfb"
definition ADDR_TEMP_MSB :: nat where "ADDR_TEMP_MSB = 0xfa"
definition ADDR_PRESS_XLSB :: nat where "ADDR_PRESS_XLSB = 0xf9"
definition ADDR_PRESS_LSB :: nat where "ADDR_PRESS_LSB = 0xf8"
definition ADDR_PRESS_MSB :: nat where "ADDR_PRESS_MSB = 0xf7"
definition ADDR_CONFIG :: nat where "ADDR_CONFIG = 0xf5"
definition ADDR_CTRL_MEAS :: nat where "ADDR_CTRL_MEAS = 0xf4"
definition ADDR_STATUS :: nat where "ADDR_STATUS = 0xf3"
definition ADDR_CTRL_HUM :: nat where "ADDR_CTRL_HUM = 0xf2"
definition ADDR_RESET :: nat where "ADDR_RESET = 0xe0"
definition ADDR_ID :: nat where "ADDR_ID = 0xd0"

lemmas bme_addresses = ADDR_HUM_LSB_def ADDR_HUM_MSB_def ADDR_TEMP_XLSB_def ADDR_TEMP_LSB_def ADDR_TEMP_MSB_def
  ADDR_PRESS_XLSB_def ADDR_PRESS_LSB_def ADDR_PRESS_MSB_def ADDR_CONFIG_def ADDR_CTRL_MEAS_def ADDR_STATUS_def
  ADDR_CTRL_HUM_def ADDR_RESET_def ADDR_ID_def

definition ADDR_CALIB :: "nat list" where
  "ADDR_CALIB = [0x88..<0xa2] @ [0xe1..<0xf1]"

definition Bme280_control_regs :: register_file where
  "Bme280_control_regs =
     fold (\<lambda>(a, v, m, k) rf. addRegister rf a v m k)
       [(0, 0, READ_WRITE, - 1), (ADDR_HUM_LSB, 0, READ, - 1), (ADDR_HUM_MSB, 0x80, READ, - 1),
        (ADDR_TEMP_XLSB, 0, READ, - 1), (ADDR_TEMP_LSB, 0, READ, - 1), (ADDR_TEMP_MSB, 0x80, READ, - 1),
        (ADDR_PRESS_XLSB, 0, READ, - 1), (ADDR_PRESS_LSB, 0, READ, - 1), (ADDR_PRESS_MSB, 0x80, READ, - 1),
        (ADDR_CONFIG, 0, READ_WRITE, NOT 2), (ADDR_CTRL_MEAS, 0, READ_WRITE, - 1), (ADDR_STATUS, 0, READ, - 1),
        (ADDR_CTRL_HUM, 0, READ_WRITE, - 1), (ADDR_RESET, 0, READ_WRITE, - 1), (ADDR_ID, 0x60, READ, - 1)] []"

definition Bme280_regs :: register_file where
  "Bme280_regs = fold (\<lambda>a rf. addRegister rf a 0 READ (- 1)) ADDR_CALIB Bme280_control_regs"

definition HUM_SCALE :: real where "HUM_SCALE = 0.008"
definition HUM_OFFSET :: real where "HUM_OFFSET = 0"
definition PRESS_SCALE :: real where "PRESS_SCALE = 0.0018"
definition PRESS_OFFSET :: real where "PRESS_OFFSET = 300"
definition TEMP_SCALE :: real where "TEMP_SCALE = 0.01"
definition TEMP_OFFSET :: real where "TEMP_OFFSET = - 40"

section \<open>State\<close>

datatype bme_spi_state = Bme_Address | Bme_Data

datatype bme_state = Bme_PowerOff | Bme_Sleep | Bme_Normal | Bme_Forced

text \<open>Waiting for the mode event, or for a delay: after the start (of a measurement), in the
  sampling loops with the iteration, the acc, the number of samples and the filter coefficient,
  at the end of the pressure and humidity measurements, and in standby.\<close>

datatype bme_pc =
    Bpc_idle
  | Bpc_started
  | Bpc_temperature trace_entry u32 u32 u32 nat
  | Bpc_pressure trace_entry u32 u32 u32 nat
  | Bpc_pressure_end trace_entry u32 u32 u32
  | Bpc_humidity trace_entry u32 u32 nat
  | Bpc_humidity_end u32
  | Bpc_standby

datatype bme_effect = Bme_notify_mode | Bme_report string

datatype bme_wait = Bme_wait_mode | Bme_wait_time sc_time

record bme280 =
  bm_dev :: spi_device
  bm_regs :: register_file
  bm_spiState :: bme_spi_state
  bm_state :: bme_state
  bm_address :: u32
  bm_isWriteAccess :: bool
  bm_trace :: "trace_entry list"
  bm_timestep :: sc_time
  bm_pc :: bme_pc

definition Bme280_new ::
  "(string \<Rightarrow> bool) \<Rightarrow> (string \<Rightarrow> real list list result) \<Rightarrow> sim_config \<Rightarrow> bme280 result" where
  "Bme280_new file_exists grid c =
     bind_r (load_trace file_exists grid ''Bme280TraceFile'' (20, 30, 330) c) (\<lambda>(trace, step).
       Inr \<lparr>bm_dev = \<lparr>m_SlaveInRegister = 0, m_SlaveOutRegister = 0, m_chipSelectPolarity = ActiveLow\<rparr>,
            bm_regs = Bme280_regs, bm_spiState = Bme_Address, bm_state = Bme_Sleep, bm_address = 0xffff,
            bm_isWriteAccess = False, bm_trace = trace, bm_timestep = step, bm_pc = Bpc_idle\<rparr>)"

definition Bme280_reset :: "bme280 \<Rightarrow> bme280" where
  "Bme280_reset s = s\<lparr>bm_regs := rf_reset (bm_regs s), bm_dev := SpiDevice_reset (bm_dev s)\<rparr>"

section \<open>The serial interface\<close>

definition bme_write :: "u32 \<Rightarrow> bme280 \<Rightarrow> (bme280 \<times> bme_effect list) result" where
  "bme_write payload s =
     (let addr = unat (bm_address s) in
      if addr = ADDR_CONFIG \<or> addr = ADDR_CTRL_HUM then
        bind_r (rf_write (bm_regs s) addr payload False) (\<lambda>rf. Inr (s\<lparr>bm_regs := rf\<rparr>, []))
      else if addr = ADDR_CTRL_MEAS then
        bind_r (rf_write (bm_regs s) addr payload False) (\<lambda>rf. Inr (s\<lparr>bm_regs := rf\<rparr>, [Bme_notify_mode]))
      else if addr = ADDR_RESET then Inr (if payload = 0xB6 then Bme280_reset s else s, [])
      else Inl Report_fatal)"

definition bme_prepare :: "bme280 \<Rightarrow> bme280 result" where
  "bme_prepare s =
     (if \<not> bm_isWriteAccess s \<and> rf_contains (bm_regs s) (unat (bm_address s)) then
        bind_r (rf_read (bm_regs s) (unat (bm_address s))) (\<lambda>v.
          Inr (s\<lparr>bm_dev := writeSlaveOut v (bm_dev s), bm_address := bm_address s + 1\<rparr>))
      else Inr (s\<lparr>bm_dev := writeSlaveOut 0 (bm_dev s)\<rparr>))"

definition Bme280_spiInterface :: "sc_logic \<Rightarrow> bme280 \<Rightarrow> (bme280 \<times> bme_effect list) result" where
  "Bme280_spiInterface chipSelect s =
     (let READ_BIT = push_bit 7 1; payload = readSlaveIn (bm_dev s) in
      if spi_enabled chipSelect (bm_dev s) then
        bind_r
          (case bm_spiState s of
             Bme_Address \<Rightarrow>
               Inr (s\<lparr>bm_address := payload OR READ_BIT, bm_isWriteAccess := (payload AND READ_BIT = 0),
                      bm_spiState := Bme_Data\<rparr>, [])
           | Bme_Data \<Rightarrow>
               if bm_isWriteAccess s then
                 bind_r (bme_write payload s) (\<lambda>(s1, fx). Inr (s1\<lparr>bm_spiState := Bme_Address\<rparr>, fx))
               else Inr (s, []))
          (\<lambda>(s1, fx). bind_r (bme_prepare s1) (\<lambda>s2. Inr (s2, fx)))
      else Inr (s\<lparr>bm_spiState := Bme_Address\<rparr>, []))"

section \<open>The measurement thread\<close>

definition bme_next :: "u32 \<Rightarrow> bme_state \<Rightarrow> bme_state" where
  "bme_next ctrl_meas st =
     (let mode = ctrl_meas AND 3 in
      case st of
        Bme_PowerOff \<Rightarrow> Bme_PowerOff
      | Bme_Sleep \<Rightarrow> if mode = 1 \<or> mode = 2 then Bme_Forced else if mode = 3 then Bme_Normal else Bme_Sleep
      | Bme_Normal \<Rightarrow> if mode = 0 then Bme_Sleep else if mode = 1 \<or> mode = 2 then Bme_Forced else Bme_Normal
      | Bme_Forced \<Rightarrow> Bme_Sleep)"

definition nSamples :: "u32 \<Rightarrow> u32" where
  "nSamples f = (if f = 0 then 0 else if f < 5 then push_bit (unat (f - 1)) 1 else 16)"

definition iir :: "u32 \<Rightarrow> u32 \<Rightarrow> u32 \<Rightarrow> u32" where
  "iir coeff oldval newval = (if coeff = 0 then newval else (oldval * (coeff - 1) + newval) div coeff)"

text \<open>The fields of the control and configuration registers.\<close>

definition ctrl_osrs_t :: "u32 \<Rightarrow> u32" where "ctrl_osrs_t ctrl = drop_bit 5 (ctrl AND 0xe0)"
definition ctrl_osrs_p :: "u32 \<Rightarrow> u32" where "ctrl_osrs_p ctrl = drop_bit 2 (ctrl AND 0x1c)"
definition config_filter :: "u32 \<Rightarrow> u32" where "config_filter config = nSamples (drop_bit 2 (config AND 0x1c))"

text \<open>The three registers of a 20-bit result: its lowest four bits, the next eight, the top eight.\<close>

definition read_20 :: "register_file \<Rightarrow> nat \<Rightarrow> nat \<Rightarrow> nat \<Rightarrow> u32 result" where
  "read_20 rf xlsb lsb msb =
     bind_r (rf_read rf xlsb) (\<lambda>x. bind_r (rf_read rf lsb) (\<lambda>l. bind_r (rf_read rf msb) (\<lambda>m.
       Inr (x OR push_bit 4 l OR push_bit 12 m))))"

definition write_20 :: "register_file \<Rightarrow> nat \<Rightarrow> nat \<Rightarrow> nat \<Rightarrow> u32 \<Rightarrow> register_file result" where
  "write_20 rf xlsb lsb msb v =
     bind_r (rf_write rf xlsb (v AND 0x0f) True) (\<lambda>rf1.
     bind_r (rf_write rf1 lsb (drop_bit 4 (v AND 0x0ff0)) True) (\<lambda>rf2.
       rf_write rf2 msb (drop_bit 12 (v AND 0xff000)) True))"

text \<open>The head of the loop.\<close>

definition bme_top :: "target \<Rightarrow> bme280 \<Rightarrow> (bme280 \<times> bme_wait) result" where
  "bme_top t s =
     bind_r (rf_read (bm_regs s) ADDR_CTRL_MEAS) (\<lambda>ctrl.
     let st = bme_next ctrl (bm_state s) in
     bind_r (if st = Bme_Forced then rf_clearBitMask (bm_regs s) ADDR_CTRL_MEAS 3 True else Inr (bm_regs s)) (\<lambda>rf1.
       if st = Bme_Normal \<or> st = Bme_Forced then
         bind_r (rf_setBit t rf1 ADDR_STATUS 3 True) (\<lambda>rf2.
           Inr (s\<lparr>bm_state := st, bm_regs := rf2, bm_pc := Bpc_started\<rparr>, Bme_wait_time 1000000000))
       else Inr (s\<lparr>bm_state := st, bm_regs := rf1, bm_pc := Bpc_idle\<rparr>, Bme_wait_mode)))"

definition bme_standby_delay :: "u32 \<Rightarrow> sc_time" where
  "bme_standby_delay config =
     1000000 * [500, 62500, 125000, 250000, 500000, 1000000, 10000, 20000] ! unat (drop_bit 5 (config AND 0xe0))"

text \<open>The result of the humidity measurement is stored and the measurement ends.\<close>

definition bme_store :: "target \<Rightarrow> u32 \<Rightarrow> bme280 \<Rightarrow> (bme280 \<times> bme_effect list \<times> bme_wait) result" where
  "bme_store t v s =
     bind_r (rf_write (bm_regs s) ADDR_HUM_LSB (v AND 0xff) True) (\<lambda>rf1.
     bind_r (rf_write rf1 ADDR_HUM_MSB (drop_bit 8 (v AND 0xff00)) True) (\<lambda>rf2.
     bind_r (rf_clearBit t rf2 ADDR_STATUS 3 True) (\<lambda>rf3.
     let s1 = s\<lparr>bm_regs := rf3\<rparr> in
       if bm_state s = Bme_Normal then
         bind_r (rf_read rf3 ADDR_CONFIG) (\<lambda>config.
           Inr (s1\<lparr>bm_pc := Bpc_standby\<rparr>, [Bme_report ''standby''], Bme_wait_time (bme_standby_delay config)))
       else
         bind_r (bme_top t s1) (\<lambda>(s2, w).
           Inr (s2, if bm_state s = Bme_Sleep then [Bme_report ''sleep'']
                    else if bm_state s = Bme_PowerOff then [Bme_report ''off''] else [], w)))))"

definition bme_humidity :: "target \<Rightarrow> trace_entry \<Rightarrow> bme280 \<Rightarrow> (bme280 \<times> bme_effect list \<times> bme_wait) result" where
  "bme_humidity t input s =
     bind_r (rf_read (bm_regs s) ADDR_CTRL_HUM) (\<lambda>osrs_h.
       if osrs_h = 0 then bme_store t 0x8000 s
       else Inr (s\<lparr>bm_pc := Bpc_humidity input osrs_h 0 0\<rparr>, [Bme_report ''measure_pressure''], Bme_wait_time 2000000000))"

definition bme_pressure :: "target \<Rightarrow> trace_entry \<Rightarrow> u32 \<Rightarrow> bme280 \<Rightarrow> (bme280 \<times> bme_effect list \<times> bme_wait) result" where
  "bme_pressure t input coeff s =
     bind_r (rf_read (bm_regs s) ADDR_CTRL_MEAS) (\<lambda>ctrl.
     let osrs_p = ctrl_osrs_p ctrl in
       if osrs_p = 0 then
         bind_r (write_20 (bm_regs s) ADDR_PRESS_XLSB ADDR_PRESS_LSB ADDR_PRESS_MSB 0x8000) (\<lambda>rf.
           bme_humidity t input (s\<lparr>bm_regs := rf\<rparr>))
       else Inr (s\<lparr>bm_pc := Bpc_pressure input coeff osrs_p 0 0\<rparr>, [Bme_report ''measure_humidity''],
                 Bme_wait_time 2000000000))"

definition bme_temperature :: "target \<Rightarrow> trace_entry \<Rightarrow> u32 \<Rightarrow> bme280 \<Rightarrow> (bme280 \<times> bme_effect list \<times> bme_wait) result" where
  "bme_temperature t input coeff s =
     bind_r (rf_read (bm_regs s) ADDR_CTRL_MEAS) (\<lambda>ctrl.
     let osrs_t = ctrl_osrs_t ctrl in
       if osrs_t = 0 then
         bind_r (write_20 (bm_regs s) ADDR_TEMP_XLSB ADDR_TEMP_LSB ADDR_TEMP_MSB 0x8000) (\<lambda>rf.
           bme_pressure t input coeff (s\<lparr>bm_regs := rf\<rparr>))
       else Inr (s\<lparr>bm_pc := Bpc_temperature input coeff osrs_t 0 0\<rparr>, [Bme_report ''measure_temperature''],
                 Bme_wait_time 2000000000))"

text \<open>The average of the samples taken, filtered, is stored.\<close>

definition bme_average :: "nat \<Rightarrow> nat \<Rightarrow> nat \<Rightarrow> u32 \<Rightarrow> u32 \<Rightarrow> u32 \<Rightarrow> bme280 \<Rightarrow> bme280 result" where
  "bme_average xlsb lsb msb coeff osrs acc s =
     bind_r (read_20 (bm_regs s) xlsb lsb msb) (\<lambda>oldval.
     bind_r (write_20 (bm_regs s) xlsb lsb msb (iir coeff oldval (acc div nSamples osrs))) (\<lambda>rf.
       Inr (s\<lparr>bm_regs := rf\<rparr>)))"

definition bme_lsb :: "real \<Rightarrow> real \<Rightarrow> real \<Rightarrow> u32 result" where
  "bme_lsb x off scale = real_to_unsigned ((x - off) / scale)"

text \<open>The thread resumed when its wait is over, at the time \<open>now\<close>.\<close>

definition Bme280_measurementLoop ::
  "target \<Rightarrow> sc_time \<Rightarrow> bme280 \<Rightarrow> (bme280 \<times> bme_effect list \<times> bme_wait) result" where
  "Bme280_measurementLoop t now s =
     (case bm_pc s of
        Bpc_idle \<Rightarrow> bind_r (bme_top t s) (\<lambda>(s1, w). Inr (s1, [], w))
      | Bpc_standby \<Rightarrow> bind_r (bme_top t s) (\<lambda>(s1, w). Inr (s1, [], w))
      | Bpc_started \<Rightarrow>
          bind_r (trace_at (bm_trace s) (bm_timestep s) now) (\<lambda>input.
          bind_r (rf_read (bm_regs s) ADDR_CONFIG) (\<lambda>config.
            bme_temperature t input (config_filter config) s))
      | Bpc_temperature input coeff osrs acc i \<Rightarrow>
          bind_r (bme_lsb (fst input) TEMP_OFFSET TEMP_SCALE) (\<lambda>v.
            if Suc i < unat (nSamples osrs)
            then Inr (s\<lparr>bm_pc := Bpc_temperature input coeff osrs (acc + v) (Suc i)\<rparr>, [], Bme_wait_time 2000000000)
            else bind_r (bme_average ADDR_TEMP_XLSB ADDR_TEMP_LSB ADDR_TEMP_MSB coeff osrs (acc + v) s)
                   (bme_pressure t input coeff))
      | Bpc_pressure input coeff osrs acc i \<Rightarrow>
          bind_r (bme_lsb (snd (snd input)) PRESS_OFFSET PRESS_SCALE) (\<lambda>v.
            if Suc i < unat (nSamples osrs)
            then Inr (s\<lparr>bm_pc := Bpc_pressure input coeff osrs (acc + v) (Suc i)\<rparr>, [], Bme_wait_time 2000000000)
            else Inr (s\<lparr>bm_pc := Bpc_pressure_end input coeff osrs (acc + v)\<rparr>, [], Bme_wait_time 500000000))
      | Bpc_pressure_end input coeff osrs acc \<Rightarrow>
          bind_r (bme_average ADDR_PRESS_XLSB ADDR_PRESS_LSB ADDR_PRESS_MSB coeff osrs acc s) (bme_humidity t input)
      | Bpc_humidity input osrs acc i \<Rightarrow>
          bind_r (bme_lsb (fst (snd input)) HUM_OFFSET HUM_SCALE) (\<lambda>v.
            if Suc i < unat (nSamples osrs)
            then Inr (s\<lparr>bm_pc := Bpc_humidity input osrs (acc + v) (Suc i)\<rparr>, [], Bme_wait_time 2000000000)
            else Inr (s\<lparr>bm_pc := Bpc_humidity_end ((acc + v) div nSamples osrs)\<rparr>, [], Bme_wait_time 500000000))
      | Bpc_humidity_end v \<Rightarrow> bme_store t v s)"

section \<open>One forced measurement\<close>

text \<open>\<open>k\<close> resumptions of the thread, each when its delay is over, as long as it waits for a delay.\<close>

fun bme_after ::
  "target \<Rightarrow> nat \<Rightarrow> sc_time \<Rightarrow> bme280 \<Rightarrow> bme_wait \<Rightarrow> (bme280 \<times> sc_time \<times> bme_wait) result" where
  "bme_after t (Suc k) now s (Bme_wait_time d) =
     bind_r (Bme280_measurementLoop t (now + d) s) (\<lambda>(s1, _, w). bme_after t k (now + d) s1 w)"
| "bme_after t k now s w = Inr (s, now, w)"

definition bme_shape :: "register_file \<Rightarrow> bool" where
  "bme_shape rf \<longleftrightarrow> rw rf 0xf2 \<and> rw rf 0xf4 \<and> rw rf 0xf5 \<and> ro rf 0xf3 \<and> list_all (ro rf) [0xf7..<0xff]"

lemma bme_shapeD:
  assumes "bme_shape rf"
  shows "rw rf 0xf2" "rw rf 0xf4" "rw rf 0xf5" "ro rf 0xf3" "ro rf 0xf7" "ro rf 0xf8" "ro rf 0xf9" "ro rf 0xfa"
    "ro rf 0xfb" "ro rf 0xfc" "ro rf 0xfd" "ro rf 0xfe"
  using assms by (simp_all add: bme_shape_def upt_rec)

lemma bme_shape_put [simp]: "bme_shape (put_reg rf a v f) = bme_shape rf"
  unfolding bme_shape_def rw_put_reg ro_put_reg by (simp add: list_all_iff)

text \<open>Every address of the file can be read.\<close>

definition bme_readable :: "register_file \<Rightarrow> bool" where
  "bme_readable rf \<longleftrightarrow> list_all (\<lambda>r. access r \<noteq> WRITE) rf"

lemma bme_readable_put [simp]: "bme_readable (put_reg rf a v f) = bme_readable rf"
  unfolding bme_readable_def put_reg_def by (induction rf) (auto simp: write_reg_fields)

definition put_20 :: "register_file \<Rightarrow> nat \<Rightarrow> nat \<Rightarrow> nat \<Rightarrow> u32 \<Rightarrow> register_file" where
  "put_20 rf xlsb lsb msb v = put_reg (put_reg (put_reg rf xlsb (v AND 0x0f) True) lsb (drop_bit 4 (v AND 0x0ff0)) True)
     msb (drop_bit 12 (v AND 0xff000)) True"

lemma write_20_ro:
  "ro rf x \<Longrightarrow> ro rf l \<Longrightarrow> ro rf m \<Longrightarrow> write_20 rf x l m v = Inr (put_20 rf x l m v)"
  by (simp add: write_20_def put_20_def)

lemma bme_shape_put_20 [simp]: "bme_shape (put_20 rf x l m v) = bme_shape rf"
  by (simp add: put_20_def)

lemma bme_readable_put_20 [simp]: "bme_readable (put_20 rf x l m v) = bme_readable rf"
  by (simp add: put_20_def)

lemma reg_value_put_20 [simp]:
  "b \<notin> {x, l, m} \<Longrightarrow> reg_value (put_20 rf x l m v) b = reg_value rf b"
  by (simp add: put_20_def)

text \<open>The program counter does not matter where the next one is set.\<close>

lemma bme_commute: "s\<lparr>bm_pc := p, bm_regs := r\<rparr> = s\<lparr>bm_regs := r, bm_pc := p\<rparr>"
  by simp

lemma bme_top_pc: "bme_top t (s\<lparr>bm_pc := p\<rparr>) = bme_top t s"
  by (simp add: bme_top_def Let_def cong: if_cong)

lemma bme_store_pc: "bme_store t v (s\<lparr>bm_pc := p\<rparr>) = bme_store t v s"
proof -
  have "bme_top t (s\<lparr>bm_pc := p, bm_regs := r\<rparr>) = bme_top t (s\<lparr>bm_regs := r\<rparr>)" for r
    by (simp only: bme_commute bme_top_pc)
  then show ?thesis by (simp add: bme_store_def Let_def cong: if_cong)
qed

lemma bme_humidity_pc: "bme_humidity t i (s\<lparr>bm_pc := p\<rparr>) = bme_humidity t i s"
  by (simp add: bme_humidity_def bme_store_pc cong: if_cong)

lemma bme_pressure_pc: "bme_pressure t i c (s\<lparr>bm_pc := p\<rparr>) = bme_pressure t i c s"
proof -
  have "bme_humidity t i (s\<lparr>bm_pc := p, bm_regs := r\<rparr>) = bme_humidity t i (s\<lparr>bm_regs := r\<rparr>)" for r
    by (simp only: bme_commute bme_humidity_pc)
  then show ?thesis by (simp add: bme_pressure_def Let_def cong: if_cong)
qed

lemma bme_average_pressure:
  "bind_r (bme_average x l m c osrs acc (s\<lparr>bm_pc := p\<rparr>)) (bme_pressure t i c')
    = bind_r (bme_average x l m c osrs acc s) (bme_pressure t i c')"
proof -
  have "bme_pressure t i c' (s\<lparr>bm_pc := p, bm_regs := r\<rparr>) = bme_pressure t i c' (s\<lparr>bm_regs := r\<rparr>)" for r
    by (simp only: bme_commute bme_pressure_pc)
  then show ?thesis by (simp add: bme_average_def bind_r_assoc)
qed

lemma bme_average_humidity:
  "bind_r (bme_average x l m c osrs acc (s\<lparr>bm_pc := p\<rparr>)) (bme_humidity t i)
    = bind_r (bme_average x l m c osrs acc s) (bme_humidity t i)"
proof -
  have "bme_humidity t i (s\<lparr>bm_pc := p, bm_regs := r\<rparr>) = bme_humidity t i (s\<lparr>bm_regs := r\<rparr>)" for r
    by (simp only: bme_commute bme_humidity_pc)
  then show ?thesis by (simp add: bme_average_def bind_r_assoc)
qed

text \<open>The three sampling loops: \<open>Suc k\<close> samples are left to take.\<close>

lemma bme_temperature_loop:
  assumes "bme_lsb (fst input) TEMP_OFFSET TEMP_SCALE = Inr v" and "unat (nSamples osrs) = i + Suc k"
  shows "bme_after t (Suc k + m) now (s\<lparr>bm_pc := Bpc_temperature input c osrs acc i\<rparr>) (Bme_wait_time 2000000000)
    = bind_r (bind_r (bme_average ADDR_TEMP_XLSB ADDR_TEMP_LSB ADDR_TEMP_MSB c osrs (acc + of_nat (Suc k) * v) s)
        (bme_pressure t input c)) (\<lambda>(s1, _, w). bme_after t m (now + Suc k * 2000000000) s1 w)"
  using assms(2)
proof (induction k arbitrary: i acc now)
  case 0
  then show ?case
    using assms(1) by (simp add: Bme280_measurementLoop_def bme_average_pressure)
next
  case (Suc k)
  have left: "unat (nSamples osrs) = Suc i + Suc k" using Suc.prems by simp
  show ?case
    using Suc.IH [OF left, of "now + 2000000000" "acc + v"] assms(1) Suc.prems
    by (simp add: Bme280_measurementLoop_def algebra_simps)
qed

lemma bme_pressure_loop:
  assumes "bme_lsb (snd (snd input)) PRESS_OFFSET PRESS_SCALE = Inr v" and "unat (nSamples osrs) = i + Suc k"
  shows "bme_after t (Suc (Suc k) + m) now (s\<lparr>bm_pc := Bpc_pressure input c osrs acc i\<rparr>) (Bme_wait_time 2000000000)
    = bind_r (bind_r (bme_average ADDR_PRESS_XLSB ADDR_PRESS_LSB ADDR_PRESS_MSB c osrs (acc + of_nat (Suc k) * v) s)
        (bme_humidity t input)) (\<lambda>(s1, _, w). bme_after t m (now + Suc k * 2000000000 + 500000000) s1 w)"
  using assms(2)
proof (induction k arbitrary: i acc now)
  case 0
  then show ?case
    using assms(1) by (simp add: Bme280_measurementLoop_def bme_average_humidity)
next
  case (Suc k)
  have left: "unat (nSamples osrs) = Suc i + Suc k" using Suc.prems by simp
  show ?case
    using Suc.IH [OF left, of "now + 2000000000" "acc + v"] assms(1) Suc.prems
    by (simp add: Bme280_measurementLoop_def algebra_simps)
qed

lemma bme_humidity_loop:
  assumes "bme_lsb (fst (snd input)) HUM_OFFSET HUM_SCALE = Inr v" and "unat (nSamples osrs) = i + Suc k"
  shows "bme_after t (Suc (Suc k) + m) now (s\<lparr>bm_pc := Bpc_humidity input osrs acc i\<rparr>) (Bme_wait_time 2000000000)
    = bind_r (bme_store t ((acc + of_nat (Suc k) * v) div nSamples osrs) s)
        (\<lambda>(s1, _, w). bme_after t m (now + Suc k * 2000000000 + 500000000) s1 w)"
  using assms(2)
proof (induction k arbitrary: i acc now)
  case 0
  then show ?case
    using assms(1) by (simp add: Bme280_measurementLoop_def bme_store_pc)
next
  case (Suc k)
  have left: "unat (nSamples osrs) = Suc i + Suc k" using Suc.prems by simp
  show ?case
    using Suc.IH [OF left, of "now + 2000000000" "acc + v"] assms(1) Suc.prems
    by (simp add: Bme280_measurementLoop_def algebra_simps)
qed

text \<open>The average of equal samples.\<close>

lemma nSamples_range: "f \<noteq> 0 \<Longrightarrow> 0 < unat (nSamples f) \<and> unat (nSamples f) \<le> 16"
proof (cases "f < 5")
  assume f: "f \<noteq> 0" "f < 5"
  then have "unat (f - 1) < 4" by (simp add: unat_sub_if' word_less_nat_alt unat_eq_0 [symmetric])
  then have "unat (f - 1) \<in> {0, 1, 2, 3}" by auto
  then show ?thesis using f by (auto simp: nSamples_def)
qed (simp add: nSamples_def)

lemma average_of_equal:
  assumes "unat (nSamples f) = Suc k" and "Suc k \<le> 16" and "unat v < 2 ^ 28"
  shows "of_nat (Suc k) * v div nSamples f = v"
proof -
  have n: "nSamples f = of_nat (Suc k)" by (simp flip: assms(1))
  have "Suc k * unat v < 16 * 2 ^ 28" using assms(2,3) by (intro mult_le_less_imp_less) auto
  then have "unat (of_nat (Suc k) * v) = Suc k * unat v"
    using assms(2) by (simp add: unat_word_ariths unat_of_nat take_bit_nat_eq_self del: of_nat_Suc)
  then have "unat (of_nat (Suc k) * v div nSamples f) = unat v"
    using assms(1) by (simp add: unat_div del: of_nat_Suc mult_Suc)
  then show ?thesis by (simp add: word_unat_eq_iff)
qed

lemma iir_off [simp]: "iir 0 oldval v = v"
  by (simp add: iir_def)

lemma bme_average_ok:
  "ro (bm_regs s) x \<Longrightarrow> ro (bm_regs s) l \<Longrightarrow> ro (bm_regs s) m \<Longrightarrow>
   bme_average x l m 0 osrs acc s = Inr (s\<lparr>bm_regs := put_20 (bm_regs s) x l m (acc div nSamples osrs)\<rparr>)"
  by (simp add: bme_average_def read_20_def write_20_ro)

definition osrs_t :: "bme280 \<Rightarrow> u32" where
  "osrs_t s = ctrl_osrs_t (reg_value (bm_regs s) ADDR_CTRL_MEAS)"

definition osrs_p :: "bme280 \<Rightarrow> u32" where
  "osrs_p s = ctrl_osrs_p (reg_value (bm_regs s) ADDR_CTRL_MEAS)"

definition osrs_h :: "bme280 \<Rightarrow> u32" where
  "osrs_h s = reg_value (bm_regs s) ADDR_CTRL_HUM"

text \<open>The sensor sleeps, is set to a forced measurement of everything, and the filter is off.\<close>

definition bme_ready :: "bme280 \<Rightarrow> bool" where
  "bme_ready s \<longleftrightarrow> bme_shape (bm_regs s) \<and> bm_pc s = Bpc_idle \<and> bm_state s = Bme_Sleep
     \<and> reg_value (bm_regs s) ADDR_CTRL_MEAS AND 3 \<in> {1, 2} \<and> osrs_t s \<noteq> 0 \<and> osrs_p s \<noteq> 0 \<and> osrs_h s \<noteq> 0
     \<and> reg_value (bm_regs s) ADDR_CONFIG AND 0x1c = 0"

definition bme_samples :: "bme280 \<Rightarrow> nat" where
  "bme_samples s = unat (nSamples (osrs_t s)) + unat (nSamples (osrs_p s)) + unat (nSamples (osrs_h s))"

lemma fields_after_clear:
  "ctrl_osrs_t (v AND NOT 3) = ctrl_osrs_t v" "ctrl_osrs_p (v AND NOT 3) = ctrl_osrs_p v"
  "(v AND NOT 3) AND 3 = (0 :: u32)"
  by (simp_all add: ctrl_osrs_t_def ctrl_osrs_p_def and.assoc)

lemma filter_off: "v AND 0x1c = 0 \<Longrightarrow> config_filter v = 0"
  unfolding config_filter_def by (simp only: nSamples_def drop_bit_of_0 if_True refl)

lemma bme_forced_run:
  assumes "bme_ready s" and "0 < word_size t"
    and "trace_at (bm_trace s) (bm_timestep s) (now + 1000000000) = Inr input"
    and "bme_lsb (fst input) TEMP_OFFSET TEMP_SCALE = Inr vt" and "unat vt < 2 ^ 28"
    and "bme_lsb (snd (snd input)) PRESS_OFFSET PRESS_SCALE = Inr vp" and "unat vp < 2 ^ 28"
    and "bme_lsb (fst (snd input)) HUM_OFFSET HUM_SCALE = Inr vh" and "unat vh < 2 ^ 28"
  shows "\<exists>s'. bme_after t (4 + bme_samples s) now s (Bme_wait_time 0)
      = Inr (s', now + 2000000000 * (1 + bme_samples s), Bme_wait_mode)
    \<and> bme_shape (bm_regs s') \<and> bm_state s' = Bme_Sleep \<and> bm_pc s' = Bpc_idle
    \<and> bm_dev s' = bm_dev s \<and> bm_spiState s' = bm_spiState s \<and> bme_readable (bm_regs s') = bme_readable (bm_regs s)
    \<and> map (reg_value (bm_regs s')) [0xf7..<0xff] =
        [drop_bit 12 (vp AND 0xff000), drop_bit 4 (vp AND 0x0ff0), vp AND 0x0f,
         drop_bit 12 (vt AND 0xff000), drop_bit 4 (vt AND 0x0ff0), vt AND 0x0f, drop_bit 8 (vh AND 0xff00), vh AND 0xff]"
proof -
  have ready: "bme_shape (bm_regs s)" "bm_pc s = Bpc_idle" "bm_state s = Bme_Sleep"
      "reg_value (bm_regs s) 0xf4 AND 3 \<in> {1, 2}" "osrs_t s \<noteq> 0" "osrs_p s \<noteq> 0" "osrs_h s \<noteq> 0"
      "reg_value (bm_regs s) 0xf5 AND 0x1c = 0"
    using assms(1) by (simp_all add: bme_ready_def bme_addresses)
  note rf = bme_shapeD [OF ready(1)]
  obtain kt where kt: "unat (nSamples (osrs_t s)) = Suc kt" "Suc kt \<le> 16"
    using nSamples_range [OF ready(5)] by (metis gr0_implies_Suc)
  obtain kp where kp: "unat (nSamples (osrs_p s)) = Suc kp" "Suc kp \<le> 16"
    using nSamples_range [OF ready(6)] by (metis gr0_implies_Suc)
  obtain kh where kh: "unat (nSamples (osrs_h s)) = Suc kh" "Suc kh \<le> 16"
    using nSamples_range [OF ready(7)] by (metis gr0_implies_Suc)
  define r1 where "r1 = put_reg (put_reg (bm_regs s) 0xf4 (reg_value (bm_regs s) 0xf4 AND NOT 3) True) 0xf3
    (reg_value (bm_regs s) 0xf3 OR 8) True"
  have r1: "bme_shape r1" "reg_value r1 0xf4 = reg_value (bm_regs s) 0xf4 AND NOT 3"
      "reg_value r1 0xf2 = reg_value (bm_regs s) 0xf2" "reg_value r1 0xf5 = reg_value (bm_regs s) 0xf5"
    using ready(1) rf by (simp_all add: r1_def)
  define s1 where "s1 = s\<lparr>bm_state := Bme_Forced, bm_regs := r1\<rparr>"
  have start: "Bme280_measurementLoop t now s = Inr (s1\<lparr>bm_pc := Bpc_started\<rparr>, [], Bme_wait_time 1000000000)"
    using ready rf assms(2) by (auto simp: Bme280_measurementLoop_def bme_top_def bme_next_def bme_addresses Let_def s1_def r1_def)
  define t1 where "t1 = now + 1000000000"
  have first: "\<exists>fx. Bme280_measurementLoop t t1 (s1\<lparr>bm_pc := Bpc_started\<rparr>)
      = Inr (s1\<lparr>bm_pc := Bpc_temperature input 0 (osrs_t s) 0 0\<rparr>, fx, Bme_wait_time 2000000000)"
    using ready assms(3) bme_shapeD [OF r1(1)] r1 fields_after_clear filter_off
    by (simp add: Bme280_measurementLoop_def bme_temperature_def bme_addresses Let_def s1_def t1_def osrs_t_def)
  define r2 where "r2 = put_20 r1 0xfc 0xfb 0xfa vt"
  have r2: "bme_shape r2" "reg_value r2 0xf4 = reg_value (bm_regs s) 0xf4 AND NOT 3"
      "reg_value r2 0xf2 = reg_value (bm_regs s) 0xf2"
    using r1 by (simp_all add: r2_def)
  have avt: "bind_r (bme_average ADDR_TEMP_XLSB ADDR_TEMP_LSB ADDR_TEMP_MSB 0 (osrs_t s) (0 + of_nat (Suc kt) * vt) s1)
      (bme_pressure t input 0) = bme_pressure t input 0 (s1\<lparr>bm_regs := r2\<rparr>)"
    using average_of_equal [OF kt assms(5)] bme_shapeD [OF r1(1)]
    by (simp add: bme_average_ok bme_addresses s1_def r2_def del: of_nat_Suc)
  have press: "\<exists>fx. bme_pressure t input 0 (s1\<lparr>bm_regs := r2\<rparr>)
      = Inr (s1\<lparr>bm_regs := r2, bm_pc := Bpc_pressure input 0 (osrs_p s) 0 0\<rparr>, fx, Bme_wait_time 2000000000)"
    using ready bme_shapeD [OF r2(1)] r2 fields_after_clear
    by (simp add: bme_pressure_def bme_addresses Let_def osrs_p_def)
  define r3 where "r3 = put_20 r2 0xf9 0xf8 0xf7 vp"
  have r3: "bme_shape r3" "reg_value r3 0xf4 = reg_value (bm_regs s) 0xf4 AND NOT 3"
      "reg_value r3 0xf2 = reg_value (bm_regs s) 0xf2"
    using r2 by (simp_all add: r3_def)
  have avp: "bind_r (bme_average ADDR_PRESS_XLSB ADDR_PRESS_LSB ADDR_PRESS_MSB 0 (osrs_p s) (0 + of_nat (Suc kp) * vp)
      (s1\<lparr>bm_regs := r2\<rparr>)) (bme_humidity t input) = bme_humidity t input (s1\<lparr>bm_regs := r3\<rparr>)"
    using average_of_equal [OF kp assms(7)] bme_shapeD [OF r2(1)]
    by (simp add: bme_average_ok bme_addresses r3_def del: of_nat_Suc)
  have hum: "\<exists>fx. bme_humidity t input (s1\<lparr>bm_regs := r3\<rparr>)
      = Inr (s1\<lparr>bm_regs := r3, bm_pc := Bpc_humidity input (osrs_h s) 0 0\<rparr>, fx, Bme_wait_time 2000000000)"
    using ready bme_shapeD [OF r3(1)] r3 by (simp add: bme_humidity_def bme_addresses osrs_h_def)
  define r4 where "r4 = put_reg (put_reg r3 0xfe (vh AND 0xff) True) 0xfd (drop_bit 8 vh AND 0xff) True"
  have r4: "bme_shape r4" "reg_value r4 0xf4 AND 3 = 0"
    using r3 fields_after_clear by (simp_all add: r4_def)
  define r5 where "r5 = put_reg r4 0xf3 (reg_value r4 0xf3 AND NOT 8) True"
  have store: "\<exists>fx. bme_store t vh (s1\<lparr>bm_regs := r3\<rparr>)
      = Inr (s1\<lparr>bm_regs := r5, bm_state := Bme_Sleep, bm_pc := Bpc_idle\<rparr>, fx, Bme_wait_mode)"
    using bme_shapeD [OF r3(1)] bme_shapeD [OF r4(1)] r4 assms(2)
    by (simp add: bme_store_def bme_top_def bme_next_def bme_addresses Let_def s1_def r4_def [symmetric] r5_def)
  let ?sleeping = "s1\<lparr>bm_regs := r5, bm_state := Bme_Sleep, bm_pc := Bpc_idle\<rparr>"
  have "bme_after t (4 + bme_samples s) now s (Bme_wait_time 0)
      = Inr (?sleeping, now + 2000000000 * (1 + bme_samples s), Bme_wait_mode)"
  proof -
    have k: "4 + bme_samples s = Suc (Suc (Suc kt + (Suc (Suc kp) + (Suc (Suc kh) + 0))))"
      by (simp add: bme_samples_def kt(1) kp(1) kh(1))
    have left: "unat (nSamples (osrs_t s)) = 0 + Suc kt" "unat (nSamples (osrs_p s)) = 0 + Suc kp"
        "unat (nSamples (osrs_h s)) = 0 + Suc kh"
      by (simp_all add: kt(1) kp(1) kh(1))
    obtain f1 where f1: "Bme280_measurementLoop t t1 (s1\<lparr>bm_pc := Bpc_started\<rparr>)
        = Inr (s1\<lparr>bm_pc := Bpc_temperature input 0 (osrs_t s) 0 0\<rparr>, f1, Bme_wait_time 2000000000)"
      using first by blast
    obtain f2 where f2: "bme_pressure t input 0 (s1\<lparr>bm_regs := r2\<rparr>)
        = Inr (s1\<lparr>bm_regs := r2, bm_pc := Bpc_pressure input 0 (osrs_p s) 0 0\<rparr>, f2, Bme_wait_time 2000000000)"
      using press by blast
    obtain f3 where f3: "bme_humidity t input (s1\<lparr>bm_regs := r3\<rparr>)
        = Inr (s1\<lparr>bm_regs := r3, bm_pc := Bpc_humidity input (osrs_h s) 0 0\<rparr>, f3, Bme_wait_time 2000000000)"
      using hum by blast
    obtain f4 where f4: "bme_store t vh (s1\<lparr>bm_regs := r3\<rparr>) = Inr (?sleeping, f4, Bme_wait_mode)"
      using store by blast
    have "bme_after t (4 + bme_samples s) now s (Bme_wait_time 0)
        = bme_after t (Suc kt + (Suc (Suc kp) + (Suc (Suc kh) + 0))) t1
            (s1\<lparr>bm_pc := Bpc_temperature input 0 (osrs_t s) 0 0\<rparr>) (Bme_wait_time 2000000000)"
      unfolding k by (simp add: start t1_def [symmetric] f1)
    also have "\<dots> = bme_after t (Suc (Suc kp) + (Suc (Suc kh) + 0)) (t1 + Suc kt * 2000000000)
            (s1\<lparr>bm_regs := r2, bm_pc := Bpc_pressure input 0 (osrs_p s) 0 0\<rparr>) (Bme_wait_time 2000000000)"
      unfolding bme_temperature_loop [OF assms(4) left(1)] avt f2 by simp
    also have "\<dots> = bme_after t (Suc (Suc kh) + 0) (t1 + Suc kt * 2000000000 + Suc kp * 2000000000 + 500000000)
            (s1\<lparr>bm_regs := r3, bm_pc := Bpc_humidity input (osrs_h s) 0 0\<rparr>) (Bme_wait_time 2000000000)"
      unfolding bme_pressure_loop [OF assms(6) left(2)] avp f3 by simp
    also have "\<dots> = Inr (?sleeping, t1 + Suc kt * 2000000000 + Suc kp * 2000000000 + 500000000 + Suc kh * 2000000000 + 500000000,
            Bme_wait_mode)"
      unfolding bme_humidity_loop [OF assms(8) left(3)] add_0 average_of_equal [OF kh assms(9)] f4 by simp
    finally show ?thesis by (simp add: t1_def bme_samples_def kt(1) kp(1) kh(1))
  qed
  moreover have "map (reg_value r5) [0xf7..<0xff] =
        [drop_bit 12 (vp AND 0xff000), drop_bit 4 (vp AND 0x0ff0), vp AND 0x0f,
         drop_bit 12 (vt AND 0xff000), drop_bit 4 (vt AND 0x0ff0), vt AND 0x0f, drop_bit 8 (vh AND 0xff00), vh AND 0xff]"
    using rf by (simp add: upt_rec r5_def r4_def r3_def r2_def r1_def put_20_def)
  moreover have "bme_shape r5" using r4(1) by (simp add: r5_def)
  moreover have "bme_readable r5 = bme_readable (bm_regs s)" by (simp add: r5_def r4_def r3_def r2_def r1_def)
  ultimately show ?thesis by (intro exI [of _ ?sleeping]) (simp add: s1_def)
qed

section \<open>Reading the result over the bus\<close>

definition bme_exchange ::
  "sc_logic \<Rightarrow> bool \<Rightarrow> spi_extension \<Rightarrow> u8 \<Rightarrow> bme280 \<Rightarrow> (bme280 \<times> u32 \<times> bme_effect list) result" where
  "bme_exchange = spi_exchange bm_dev (\<lambda>d s. s\<lparr>bm_dev := d\<rparr>) Bme280_spiInterface"

definition bme_reading :: "register_file \<Rightarrow> bme280 \<Rightarrow> bool" where
  "bme_reading rf s \<longleftrightarrow> bm_regs s = rf \<and> bm_spiState s = Bme_Data \<and> \<not> bm_isWriteAccess s
     \<and> m_chipSelectPolarity (bm_dev s) = ActiveLow"

definition bme_advance :: "register_file \<Rightarrow> u32 \<times> u32 \<Rightarrow> u32 \<times> u32" where
  "bme_advance rf x = (if rf_contains rf (unat (snd x)) then (reg_value rf (unat (snd x)), snd x + 1) else (0, snd x))"

lemma contains_readable:
  assumes "bme_readable rf" and "rf_contains rf a"
  shows "rf_read rf a = Inr (reg_value rf a)"
proof -
  obtain r where r: "reg_at rf a = Some r" using assms(2) by (auto simp: rf_contains_def)
  then have "readable r" using assms(1) reg_at_set [OF r] by (cases "access r") (auto simp: bme_readable_def list_all_iff readable_def)
  then show ?thesis using r by (simp add: rf_read_def rf_find_def reg_value_def)
qed

interpretation bme_burst: spi_reader "bme_exchange SC_LOGIC_0 True e" "\<lambda>s. bme_readable rf \<and> bme_reading rf s"
  "\<lambda>s. (readSlaveOut (bm_dev s), bm_address s)" fst "bme_advance rf" for rf e
proof
  fix s b
  assume s: "bme_readable rf \<and> bme_reading rf s"
  then have en: "spi_enabled SC_LOGIC_0 (bm_dev s)" by (simp add: bme_reading_def spi_enabled_def)
  show "\<exists>s' fx. bme_exchange SC_LOGIC_0 True e b s = Inr (s', fst (readSlaveOut (bm_dev s), bm_address s), fx)
      \<and> (bme_readable rf \<and> bme_reading rf s')
      \<and> (readSlaveOut (bm_dev s'), bm_address s') = bme_advance rf (readSlaveOut (bm_dev s), bm_address s)"
    using s contains_readable [of rf "unat (bm_address s)"]
    unfolding bme_exchange_def spi_exchange_selected [where dev = bm_dev, OF en]
    by (auto simp: Bme280_spiInterface_def bme_prepare_def bme_reading_def bme_advance_def spi_enabled_def Let_def
        writeSlaveIn_def writeSlaveOut_def readSlaveOut_def)
qed

text \<open>From an address on, as far as there are registers, a burst returns them in order.\<close>

lemma bme_advance_registers:
  assumes "\<And>i. i < n \<Longrightarrow> rf_contains rf (a + i)" and "a + n < 2 ^ 32" and "j < n"
  shows "(bme_advance rf ^^ j) (reg_value rf a, of_nat (Suc a)) = (reg_value rf (a + j), of_nat (Suc (a + j)))"
  using assms(3)
proof (induction j)
  case (Suc j)
  have u: "unat (of_nat (Suc (a + j)) :: u32) = Suc (a + j)"
    by (rule unat_of_nat_lt) (use Suc.prems assms(2) in simp)
  have c: "rf_contains rf (Suc (a + j))" using assms(1) [OF Suc.prems] by simp
  have "(bme_advance rf ^^ Suc j) (reg_value rf a, of_nat (Suc a))
      = bme_advance rf (reg_value rf (a + j), of_nat (Suc (a + j)))"
    using Suc by simp
  also have "\<dots> = (reg_value rf (Suc (a + j)), of_nat (Suc (a + j)) + 1)"
    unfolding bme_advance_def snd_conv u using c by (rule if_P)
  finally show ?case by simp
qed simp

lemma bme_address_step:
  assumes "bme_readable (bm_regs s)" and "bm_spiState s = Bme_Address"
    and "m_chipSelectPolarity (bm_dev s) = ActiveLow" and "rf_contains (bm_regs s) 0xf7"
  shows "\<exists>s' fx. bme_exchange SC_LOGIC_0 True e 0xf7 s = Inr (s', readSlaveOut (bm_dev s), fx)
    \<and> bme_reading (bm_regs s) s' \<and> (readSlaveOut (bm_dev s'), bm_address s') = (reg_value (bm_regs s) 0xf7, of_nat (Suc 0xf7))"
proof -
  have en: "spi_enabled SC_LOGIC_0 (bm_dev s)" using assms(3) by (simp add: spi_enabled_def)
  show ?thesis
    using assms contains_readable [OF assms(1,4)]
    unfolding bme_exchange_def spi_exchange_selected [where dev = bm_dev, OF en]
    by (simp add: Bme280_spiInterface_def bme_prepare_def bme_reading_def spi_enabled_def Let_def
        writeSlaveIn_def writeSlaveOut_def readSlaveOut_def readSlaveIn_def)
qed

lemma bme_readout:
  assumes "bme_readable (bm_regs s)" and "bm_spiState s = Bme_Address" and "m_chipSelectPolarity (bm_dev s) = ActiveLow"
    and "bme_shape (bm_regs s)"
  shows "\<exists>s' b0. spi_burst (bme_exchange SC_LOGIC_0 True e) (0xf7 # replicate 8 0) s
    = Inr (s', b0 # map (reg_value (bm_regs s)) [0xf7..<0xff])"
proof -
  have "rf_contains (bm_regs s) (0xf7 + i)" if "i < 8" for i
  proof -
    have "0xf7 + i \<in> set [0xf7..<0xff]" unfolding set_upt using that by simp
    then have "ro (bm_regs s) (0xf7 + i)" using assms(4) unfolding bme_shape_def list_all_iff by blast
    then show ?thesis by (auto simp: ro_def rf_contains_def)
  qed
  note cont = this
  have c0: "rf_contains (bm_regs s) 0xf7" using cont [of 0] by simp
  obtain s1 fx where s1: "bme_exchange SC_LOGIC_0 True e 0xf7 s = Inr (s1, readSlaveOut (bm_dev s), fx)"
      "bme_reading (bm_regs s) s1" "(readSlaveOut (bm_dev s1), bm_address s1) = (reg_value (bm_regs s) 0xf7, of_nat (Suc 0xf7))"
    using bme_address_step [OF assms(1-3) c0, of e] by blast
  have reading: "bme_readable (bm_regs s) \<and> bme_reading (bm_regs s) s1" using assms(1) s1(2) by simp
  obtain s2 where s2: "spi_burst (bme_exchange SC_LOGIC_0 True e) (replicate 8 0) s1
      = Inr (s2, map (\<lambda>k. fst ((bme_advance (bm_regs s) ^^ k) (readSlaveOut (bm_dev s1), bm_address s1))) [0..<length (replicate 8 (0 :: u8))])"
    using bme_burst.burst_reads [OF reading, of e "replicate 8 0"] by blast
  have "map (\<lambda>k. fst ((bme_advance (bm_regs s) ^^ k) (readSlaveOut (bm_dev s1), bm_address s1))) [0..<8]
      = map (\<lambda>k. reg_value (bm_regs s) (0xf7 + k)) [0..<8]"
    unfolding s1(3) using bme_advance_registers [of 8 "bm_regs s" "0xf7", OF cont] by (intro map_cong) auto
  also have "\<dots> = map (reg_value (bm_regs s)) [0xf7..<0xff]" by (simp add: upt_rec)
  finally show ?thesis using s1(1) s2 by simp
qed

section \<open>From the physical value to the value software reads\<close>

text \<open>How software puts the registers of a result together.\<close>

definition decode_20 :: "u32 \<Rightarrow> u32 \<Rightarrow> u32 \<Rightarrow> nat" where
  "decode_20 msb lsb xlsb = unat msb * 2 ^ 12 + unat lsb * 2 ^ 4 + unat xlsb"

definition decode_16 :: "u32 \<Rightarrow> u32 \<Rightarrow> nat" where
  "decode_16 msb lsb = unat msb * 2 ^ 8 + unat lsb"

lemma unat_field: "unat (drop_bit k (v AND push_bit k (mask m)) :: u32) = unat v div 2 ^ k mod 2 ^ m"
proof -
  have "drop_bit k (v AND push_bit k (mask m)) = take_bit m (drop_bit k v)"
    by (rule bit_eqI) (auto simp: bit_simps dest: bit_imp_le_length)
  then show ?thesis by (simp add: unat_take_bit_mod unat_drop_bit_div)
qed

lemma decode_20_parts:
  assumes "unat v < 2 ^ 20"
  shows "decode_20 (drop_bit 12 (v AND 0xff000)) (drop_bit 4 (v AND 0x0ff0)) (v AND 0x0f) = unat v"
proof -
  have masks: "push_bit 12 (mask 8) = (0xff000 :: u32)" "push_bit 4 (mask 8) = (0x0ff0 :: u32)" "push_bit 0 (mask 4) = (0x0f :: u32)"
    by (simp_all add: mask_numeral)
  have parts: "unat (drop_bit 12 (v AND 0xff000)) = unat v div 2 ^ 12 mod 2 ^ 8"
      "unat (drop_bit 4 (v AND 0x0ff0)) = unat v div 2 ^ 4 mod 2 ^ 8" "unat (v AND 0x0f) = unat v mod 2 ^ 4"
    using unat_field [of 12 v 8] unat_field [of 4 v 8] unat_field [of 0 v 4]
    unfolding masks drop_bit_0 power_0 div_by_1 id_apply by blast+
  have split: "n div 4096 * 4096 + n div 16 mod 256 * 16 + n mod 16 = n" for n :: nat
  proof -
    have "n div 4096 = n div 16 div 256" using div_mult2_eq [of n 16 256] by simp
    then show ?thesis using div_mult_mod_eq [of n 16] div_mult_mod_eq [of "n div 16" 256] by linarith
  qed
  have "unat v div 2 ^ 12 < 2 ^ 8" using assms by (simp add: less_mult_imp_div_less)
  then show ?thesis unfolding decode_20_def parts using split [of "unat v"] by simp
qed

lemma decode_16_parts:
  assumes "unat v < 2 ^ 16"
  shows "decode_16 (drop_bit 8 (v AND 0xff00)) (v AND 0xff) = unat v"
proof -
  have masks: "push_bit 8 (mask 8) = (0xff00 :: u32)" "push_bit 0 (mask 8) = (0xff :: u32)"
    by (simp_all add: mask_numeral)
  have parts: "unat (drop_bit 8 (v AND 0xff00)) = unat v div 2 ^ 8 mod 2 ^ 8" "unat (v AND 0xff) = unat v mod 2 ^ 8"
    using unat_field [of 8 v 8] unat_field [of 0 v 8] unfolding masks drop_bit_0 power_0 div_by_1 id_apply by blast+
  show ?thesis unfolding decode_16_def parts using assms by simp
qed

text \<open>The value a raw result stands for differs from the physical one by less than one step.\<close>

definition within_lsb :: "nat \<Rightarrow> real \<Rightarrow> real \<Rightarrow> real \<Rightarrow> bool" where
  "within_lsb raw off scale x \<longleftrightarrow> real raw * scale + off \<le> x \<and> x < real (raw + 1) * scale + off"

lemma bme_lsb_ok:
  assumes "off \<le> x" and "x < off + 2 ^ k * scale" and "0 < scale" and "k \<le> 28"
  shows "\<exists>v. bme_lsb x off scale = Inr v \<and> unat v < 2 ^ k \<and> unat v < 2 ^ 28 \<and> within_lsb (unat v) off scale x"
proof -
  have lim: "(x - off) / scale < 2 ^ k" using assms(2,3) by (simp add: divide_less_eq algebra_simps)
  moreover have "(2 :: real) ^ k \<le> 2 ^ 28" using assms(4) by (rule power_increasing) simp
  ultimately have "(x - off) / scale < 2 ^ LENGTH(32)" by simp
  moreover have "0 \<le> (x - off) / scale" using assms(1,3) by simp
  ultimately obtain v :: u32 where v: "bme_lsb x off scale = Inr v" "real (unat v) \<le> (x - off) / scale"
      "(x - off) / scale < real (unat v) + 1"
    using real_to_unsigned_ok [of "(x - off) / scale", where 'a = 32] unfolding bme_lsb_def by blast
  have "real (unat v) < 2 ^ k" using v(2) lim by (rule le_less_trans)
  then have "real (unat v) < real (2 ^ k)" by simp
  then have small: "unat v < 2 ^ k" by (simp only: of_nat_less_iff)
  moreover have "(2 :: nat) ^ k \<le> 2 ^ 28" using assms(4) by (rule power_increasing) simp
  moreover have "within_lsb (unat v) off scale x"
    using v(2,3) assms(3) by (simp add: within_lsb_def le_divide_eq divide_less_eq algebra_simps)
  ultimately show ?thesis using v(1) by (intro exI [of _ v]) linarith
qed

text \<open>C37: a forced measurement of the sensor (filter off, any oversampling) ends after 2 ms for each
  sample and 2 ms of constant times, the sensor sleeps again, and a burst read from the first data
  register returns bytes from which software recovers the temperature, pressure and humidity the
  trace holds one millisecond after the start, each to within one step of its scale.\<close>

theorem bme280_measures:
  assumes "bme_ready s" and "bme_readable (bm_regs s)" and "bm_spiState s = Bme_Address"
    and "m_chipSelectPolarity (bm_dev s) = ActiveLow"
    and "trace_at (bm_trace s) (bm_timestep s) (now + 1000000000) = Inr (temperature, humidity, pressure)"
    and "TEMP_OFFSET \<le> temperature" and "temperature < TEMP_OFFSET + 2 ^ 20 * TEMP_SCALE"
    and "PRESS_OFFSET \<le> pressure" and "pressure < PRESS_OFFSET + 2 ^ 20 * PRESS_SCALE"
    and "HUM_OFFSET \<le> humidity" and "humidity < HUM_OFFSET + 2 ^ 16 * HUM_SCALE"
  shows "\<exists>s' s'' b0 pm pl px tm tl tx hm hl.
      bme_after msp430 (4 + bme_samples s) now s (Bme_wait_time 0)
        = Inr (s', now + 2000000000 * (1 + bme_samples s), Bme_wait_mode)
    \<and> bm_state s' = Bme_Sleep
    \<and> spi_burst (bme_exchange SC_LOGIC_0 True e) (0xf7 # replicate 8 0) s' = Inr (s'', [b0, pm, pl, px, tm, tl, tx, hm, hl])
    \<and> within_lsb (decode_20 tm tl tx) TEMP_OFFSET TEMP_SCALE temperature
    \<and> within_lsb (decode_20 pm pl px) PRESS_OFFSET PRESS_SCALE pressure
    \<and> within_lsb (decode_16 hm hl) HUM_OFFSET HUM_SCALE humidity"
proof -
  obtain vt where vt: "bme_lsb temperature TEMP_OFFSET TEMP_SCALE = Inr vt" "unat vt < 2 ^ 20" "unat vt < 2 ^ 28"
      "within_lsb (unat vt) TEMP_OFFSET TEMP_SCALE temperature"
    using bme_lsb_ok [OF assms(6,7)] by (auto simp: TEMP_SCALE_def)
  obtain vp where vp: "bme_lsb pressure PRESS_OFFSET PRESS_SCALE = Inr vp" "unat vp < 2 ^ 20" "unat vp < 2 ^ 28"
      "within_lsb (unat vp) PRESS_OFFSET PRESS_SCALE pressure"
    using bme_lsb_ok [OF assms(8,9)] by (auto simp: PRESS_SCALE_def)
  obtain vh where vh: "bme_lsb humidity HUM_OFFSET HUM_SCALE = Inr vh" "unat vh < 2 ^ 16" "unat vh < 2 ^ 28"
      "within_lsb (unat vh) HUM_OFFSET HUM_SCALE humidity"
    using bme_lsb_ok [OF assms(10,11)] by (auto simp: HUM_SCALE_def)
  have t: "0 < word_size msp430" by (simp add: msp430_def)
  obtain s' where s': "bme_after msp430 (4 + bme_samples s) now s (Bme_wait_time 0)
        = Inr (s', now + 2000000000 * (1 + bme_samples s), Bme_wait_mode)" "bme_shape (bm_regs s')" "bm_state s' = Bme_Sleep"
      "bm_dev s' = bm_dev s" "bm_spiState s' = Bme_Address" "bme_readable (bm_regs s')"
      "map (reg_value (bm_regs s')) [0xf7..<0xff] =
        [drop_bit 12 (vp AND 0xff000), drop_bit 4 (vp AND 0x0ff0), vp AND 0x0f,
         drop_bit 12 (vt AND 0xff000), drop_bit 4 (vt AND 0x0ff0), vt AND 0x0f, drop_bit 8 (vh AND 0xff00), vh AND 0xff]"
    using bme_forced_run [OF assms(1) t assms(5), unfolded fst_conv snd_conv, OF vt(1,3) vp(1,3) vh(1,3)] assms(2,3) by metis
  have pol: "m_chipSelectPolarity (bm_dev s') = ActiveLow" using s'(4) assms(4) by simp
  obtain s'' b0 where burst: "spi_burst (bme_exchange SC_LOGIC_0 True e) (0xf7 # replicate 8 0) s'
      = Inr (s'', b0 # map (reg_value (bm_regs s')) [0xf7..<0xff])"
    using bme_readout [OF s'(6,5) pol s'(2)] by blast
  show ?thesis
    using s'(1,3) burst [unfolded s'(7)] vt(4) vp(4) vh(4) decode_20_parts [OF vt(2)] decode_20_parts [OF vp(2)]
      decode_16_parts [OF vh(2)] by metis
qed

text \<open>A sensor as software sets it up, with the constant trace of the constructor.\<close>

lemma reg_at_append: "reg_at (xs @ ys) a = (case reg_at xs a of None \<Rightarrow> reg_at ys a | Some r \<Rightarrow> Some r)"
  by (induction xs) (simp_all add: reg_at_Cons)

lemma Bme280_regs_eq: "Bme280_regs = Bme280_control_regs @ map (\<lambda>a. mk_register a 0 READ (- 1)) ADDR_CALIB"
  unfolding Bme280_regs_def by (rule fold_addRegister)

lemma bme_shape_new: "bme_shape Bme280_regs"
  by (simp add: bme_shape_def rw_def ro_def Bme280_regs_eq reg_at_append Bme280_control_regs_def addRegister_def
      mk_register_def reg_at_Cons bme_addresses upt_rec)

lemma bme_readable_new: "bme_readable Bme280_regs"
  by (simp add: bme_readable_def Bme280_regs_eq Bme280_control_regs_def addRegister_def mk_register_def list_all_iff)

lemma bme_values_new:
  "reg_value Bme280_regs 0xf5 = 0" "mask_of Bme280_regs 0xf4 = - 1" "mask_of Bme280_regs 0xf2 = - 1"
  by (simp_all add: reg_value_def mask_of_def Bme280_regs_eq reg_at_append Bme280_control_regs_def addRegister_def
      mk_register_def reg_at_Cons bme_addresses)

definition bme_example :: bme280 where
  "bme_example = \<lparr>bm_dev = \<lparr>m_SlaveInRegister = 0, m_SlaveOutRegister = 0, m_chipSelectPolarity = ActiveLow\<rparr>,
     bm_regs = put_reg (put_reg Bme280_regs ADDR_CTRL_HUM 1 False) ADDR_CTRL_MEAS 0x25 False,
     bm_spiState = Bme_Address, bm_state = Bme_Sleep, bm_address = 0xffff, bm_isWriteAccess = False,
     bm_trace = [(20, 30, 330)], bm_timestep = 1000000000000, bm_pc = Bpc_idle\<rparr>"

lemma bme_example_ready: "bme_ready bme_example" "bme_readable (bm_regs bme_example)" "bm_spiState bme_example = Bme_Address"
  "m_chipSelectPolarity (bm_dev bme_example) = ActiveLow"
  "trace_at (bm_trace bme_example) (bm_timestep bme_example) (0 + 1000000000) = Inr (20, 30, 330)"
  using bme_shape_new bme_shapeD [OF bme_shape_new] bme_values_new bme_readable_new
  by (simp_all add: bme_ready_def bme_example_def bme_addresses osrs_t_def osrs_p_def osrs_h_def ctrl_osrs_t_def
      ctrl_osrs_p_def trace_at_def)

lemma bme_example_samples: "bme_samples bme_example = 3"
  using bme_shape_new bme_shapeD [OF bme_shape_new] bme_values_new
  by (simp add: bme_samples_def bme_example_def bme_addresses osrs_t_def osrs_p_def osrs_h_def ctrl_osrs_t_def
      ctrl_osrs_p_def nSamples_def)

theorem bme280_measures_witness:
  "\<exists>s' s'' b0 pm pl px tm tl tx hm hl.
      bme_after msp430 7 0 bme_example (Bme_wait_time 0) = Inr (s', 8000000000, Bme_wait_mode)
    \<and> spi_burst (bme_exchange SC_LOGIC_0 True SpiTransactionExtension_default) (0xf7 # replicate 8 0) s'
        = Inr (s'', [b0, pm, pl, px, tm, tl, tx, hm, hl])
    \<and> within_lsb (decode_20 tm tl tx) TEMP_OFFSET TEMP_SCALE 20"
proof -
  have "TEMP_OFFSET \<le> 20" "20 < TEMP_OFFSET + 2 ^ 20 * TEMP_SCALE" "PRESS_OFFSET \<le> 330"
      "330 < PRESS_OFFSET + 2 ^ 20 * PRESS_SCALE" "HUM_OFFSET \<le> 30" "30 < HUM_OFFSET + 2 ^ 16 * HUM_SCALE"
    by (simp_all add: TEMP_OFFSET_def TEMP_SCALE_def PRESS_OFFSET_def PRESS_SCALE_def HUM_OFFSET_def HUM_SCALE_def)
  from bme280_measures [OF bme_example_ready this, of SpiTransactionExtension_default]
  show ?thesis unfolding bme_example_samples by auto
qed

end
