(* ===== verification/Nrf24_Radio.thy ===== *)
theory Nrf24_Radio
  imports Spi_Device
begin

unbundle bit_operations_syntax

text \<open>
  \<open>sd/Nrf24Radio.cpp\<close>: the radio, with its packet FIFOs and packets (\<open>RadioFifo\<close> and
  \<open>RadioPacket\<close> of the header), the commands it receives over the serial bus, the state
  machine of its operating modes and the thread that transmits. The two threads are state
  machines between their waits; notified events and reports to the power model are effects.
  Arrays the constructors leave uninitialised are parameters, and the static variables of
  \<open>payloadReceivedHandler\<close> are part of the state.

  The lemmas show that a FIFO is a queue of packets, and follow a packet from the bytes
  software sends to its transmission and the interrupt.
\<close>

section \<open>Packet FIFOs\<close>

record radio_fifo =
  rq_size :: nat
  rq_writeIndex :: nat
  rq_readIndex :: nat
  rq_payloadIndex :: nat
  rq_fifo :: "u32 list list"
  rq_payloadSize :: "nat list"

definition RadioFifo_size :: nat where "RadioFifo_size = 3"
definition RadioFifo_payload :: nat where "RadioFifo_payload = 32"

definition RadioFifo_new :: "u32 list list \<Rightarrow> nat list \<Rightarrow> radio_fifo" where
  "RadioFifo_new fifo sizes =
     \<lparr>rq_size = 0, rq_writeIndex = 0, rq_readIndex = 1, rq_payloadIndex = 0, rq_fifo = fifo, rq_payloadSize = sizes\<rparr>"

definition appendPayload :: "u32 \<Rightarrow> radio_fifo \<Rightarrow> radio_fifo result" where
  "appendPayload b f =
     (let w = rq_writeIndex f; i = rq_payloadIndex f in
      check_r (w < length (rq_fifo f) \<and> i < length (rq_fifo f ! w)) Out_of_bounds
        (Inr (f\<lparr>rq_fifo := (rq_fifo f)[w := (rq_fifo f ! w)[i := b]], rq_payloadIndex := Suc i,
                rq_payloadSize := (rq_payloadSize f)[w := Suc i]\<rparr>)))"

definition readPayload :: "nat \<Rightarrow> radio_fifo \<Rightarrow> u32 result" where
  "readPayload i f =
     (let r = rq_readIndex f in
      check_r (r < length (rq_fifo f) \<and> i < length (rq_fifo f ! r)) Out_of_bounds (Inr (rq_fifo f ! r ! i)))"

definition getPayloadSize :: "radio_fifo \<Rightarrow> nat" where
  "getPayloadSize f = rq_payloadSize f ! rq_readIndex f"

definition RadioFifo_push :: "radio_fifo \<Rightarrow> radio_fifo" where
  "RadioFifo_push f =
     (if rq_size f < 3
      then f\<lparr>rq_writeIndex := (if rq_writeIndex f = 2 then 0 else rq_writeIndex f + 1), rq_size := rq_size f + 1,
             rq_payloadIndex := 0\<rparr>
      else f)"

definition RadioFifo_pop :: "radio_fifo \<Rightarrow> radio_fifo" where
  "RadioFifo_pop f =
     (if rq_size f > 0
      then f\<lparr>rq_readIndex := (if rq_readIndex f = 2 then 0 else rq_readIndex f + 1), rq_size := rq_size f - 1\<rparr>
      else f)"

definition RadioFifo_isEmpty :: "radio_fifo \<Rightarrow> bool" where "RadioFifo_isEmpty f = (rq_size f = 0)"
definition RadioFifo_isFull :: "radio_fifo \<Rightarrow> bool" where "RadioFifo_isFull f = (rq_size f = RadioFifo_size)"

section \<open>Packets\<close>

datatype radio_rate = Rate_1Mbps | Rate_2Mbps | Rate_250kbps
datatype radio_power = Power_n18dBm | Power_n12dBm | Power_n6dBm | Power_0dBm

record radio_packet =
  pk_dataRate :: radio_rate
  pk_outputPower :: radio_power
  pk_channelNumber :: u32
  pk_address :: "u32 list"
  pk_addressSize :: nat
  pk_payload :: "u32 list"
  pk_payloadSize :: nat
  pk_crcSize :: nat

definition RadioPacket_new :: "u32 list \<Rightarrow> u32 list \<Rightarrow> radio_packet" where
  "RadioPacket_new addr payload =
     \<lparr>pk_dataRate = Rate_1Mbps, pk_outputPower = Power_0dBm, pk_channelNumber = 0, pk_address = addr,
      pk_addressSize = 0, pk_payload = payload, pk_payloadSize = 0, pk_crcSize = 0\<rparr>"

definition packetSize :: "radio_packet \<Rightarrow> nat" where
  "packetSize p = pk_addressSize p + pk_payloadSize p + pk_crcSize p + 1"

definition bitPeriod :: "radio_packet \<Rightarrow> nat" where
  "bitPeriod p = (case pk_dataRate p of Rate_1Mbps \<Rightarrow> 8 | Rate_2Mbps \<Rightarrow> 4 | Rate_250kbps \<Rightarrow> 32)"

definition packetDuration :: "radio_packet \<Rightarrow> nat" where
  "packetDuration p = packetSize p * bitPeriod p"

section \<open>Registers\<close>

definition NRF_CONFIG :: nat where "NRF_CONFIG = 0x00"
definition EN_AA :: nat where "EN_AA = 0x01"
definition EN_RXADDR :: nat where "EN_RXADDR = 0x02"
definition SETUP_AW :: nat where "SETUP_AW = 0x03"
definition SETUP_RETR :: nat where "SETUP_RETR = 0x04"
definition RF_CH :: nat where "RF_CH = 0x05"
definition RF_SETUP :: nat where "RF_SETUP = 0x06"
definition NRF_STATUS :: nat where "NRF_STATUS = 0x07"
definition TX_ADDR :: nat where "TX_ADDR = 0x10"

lemmas nrf_registers = NRF_CONFIG_def EN_AA_def EN_RXADDR_def SETUP_AW_def SETUP_RETR_def RF_CH_def RF_SETUP_def
  NRF_STATUS_def TX_ADDR_def

abbreviation PWR_UP :: u32 where "PWR_UP \<equiv> 2"
abbreviation PRIM_RX :: u32 where "PRIM_RX \<equiv> 1"
abbreviation TX_DS :: u32 where "TX_DS \<equiv> 0x20"
abbreviation MASK_TX_DS :: u32 where "MASK_TX_DS \<equiv> 0x20"

text \<open>The registers with their values after reset, in the order of the constructor.\<close>

definition nrf_defaults :: "(nat \<times> u32) list" where
  "nrf_defaults =
     [(NRF_CONFIG, 0x08), (EN_AA, 0x3f), (EN_RXADDR, 3), (SETUP_AW, 3), (SETUP_RETR, 3), (RF_CH, 2), (RF_SETUP, 8),
      (NRF_STATUS, 0x0e), (0x08, 0), (0x09, 0), (0x0a, 0xe7), (0x0b, 0xc2), (0x0c, 0xc3), (0x0d, 0xc4), (0x0e, 0xc5),
      (0x0f, 0xc6), (TX_ADDR, 0xe7), (0x11, 0), (0x12, 0), (0x13, 0), (0x14, 0), (0x15, 0), (0x16, 0), (0x17, 0x11),
      (0x1c, 0), (0x1d, 0)]"

definition Nrf24Radio_regs :: register_file where
  "Nrf24Radio_regs = fold (\<lambda>(a, v) rf. addRegister rf a v READ_WRITE (- 1)) nrf_defaults []"

fun write_defaults :: "(nat \<times> u32) list \<Rightarrow> register_file \<Rightarrow> register_file result" where
  "write_defaults [] rf = Inr rf"
| "write_defaults ((a, v) # xs) rf = bind_r (rf_write rf a v True) (write_defaults xs)"

section \<open>State\<close>

datatype op_mode =
    Op_UNDEFINED | Op_POWER_ON_RESET | Op_POWER_DOWN | Op_OSC_STARTUP | Op_STANDBY1 | Op_STANDBY2
  | Op_TX_SETTLING | Op_TX_MODE | Op_RX_SETTLING | Op_RX_MODE

datatype payload_type = Payload_COMMAND | Payload_DATA

text \<open>Where the thread of the state machine waits: for the event, or for a delay.\<close>

datatype nrf_pc = Npc_event | Npc_por | Npc_startup | Npc_rx | Npc_tx

datatype nrf_effect = Nrf_state_change | Nrf_tx | Nrf_irq | Nrf_report string

datatype nrf_wait = Nrf_wait_event | Nrf_wait_time sc_time

record radio =
  rd_dev :: spi_device
  rd_regs :: register_file
  rd_state :: op_mode
  rd_payloadType :: payload_type
  rd_txFifo :: radio_fifo
  rd_txPacket :: radio_packet
  rd_command :: u32
  rd_targetRegister :: u32
  rd_irq :: sc_logic
  rd_pc :: nrf_pc
  rd_sending :: bool

definition Nrf24Radio_new :: "radio_fifo \<Rightarrow> radio_packet \<Rightarrow> radio" where
  "Nrf24Radio_new fifo packet =
     \<lparr>rd_dev = \<lparr>m_SlaveInRegister = 0, m_SlaveOutRegister = 0, m_chipSelectPolarity = ActiveLow\<rparr>,
      rd_regs = Nrf24Radio_regs, rd_state = Op_UNDEFINED, rd_payloadType = Payload_COMMAND, rd_txFifo = fifo,
      rd_txPacket = packet, rd_command = 0, rd_targetRegister = 0, rd_irq = SC_LOGIC_Z, rd_pc = Npc_event,
      rd_sending = False\<rparr>"

definition Nrf24Radio_reset :: "radio \<Rightarrow> (radio \<times> nrf_effect list) result" where
  "Nrf24Radio_reset s =
     bind_r (write_defaults nrf_defaults (rd_regs s)) (\<lambda>rf.
       Inr (s\<lparr>rd_regs := rf, rd_state := Op_UNDEFINED, rd_payloadType := Payload_COMMAND,
              rd_dev := SpiDevice_reset (rd_dev s)\<rparr>, [Nrf_irq]))"

section \<open>Commands\<close>

abbreviation R_REGISTER :: u32 where "R_REGISTER \<equiv> 0x00"
abbreviation W_REGISTER :: u32 where "W_REGISTER \<equiv> 0x20"
abbreviation R_RX_PL_WID :: u32 where "R_RX_PL_WID \<equiv> 0x60"
abbreviation R_RX_PAYLOAD :: u32 where "R_RX_PAYLOAD \<equiv> 0x61"
abbreviation W_TX_PAYLOAD :: u32 where "W_TX_PAYLOAD \<equiv> 0xA0"
abbreviation W_ACK_PAYLOAD :: u32 where "W_ACK_PAYLOAD \<equiv> 0xA8"
abbreviation W_TX_PAYLOAD_NO_ACK :: u32 where "W_TX_PAYLOAD_NO_ACK \<equiv> 0xB0"

definition slave_out :: "u32 \<Rightarrow> radio \<Rightarrow> radio" where
  "slave_out v s = s\<lparr>rd_dev := writeSlaveOut v (rd_dev s)\<rparr>"

definition nrf_command :: "u32 \<Rightarrow> radio \<Rightarrow> radio result" where
  "nrf_command payload s0 =
     (let s = s0\<lparr>rd_command := payload\<rparr>; as_data = s\<lparr>rd_payloadType := Payload_DATA\<rparr> in
      if payload = R_RX_PAYLOAD \<or> payload = R_RX_PL_WID \<or> payload = W_TX_PAYLOAD_NO_ACK then Inr as_data
      else if payload = W_TX_PAYLOAD then
        Inr (slave_out 0
          (if RadioFifo_isFull (rd_txFifo s) then as_data else as_data\<lparr>rd_txFifo := RadioFifo_push (rd_txFifo s)\<rparr>))
      else if payload = 0xE1 \<or> payload = 0xE2 \<or> payload = 0xE3 \<or> payload = 0xFF then Inr s
      else if payload AND 0xE0 = R_REGISTER then
        bind_r (rf_read (rd_regs s) (unat (payload AND 0x1F))) (\<lambda>v.
          Inr (slave_out v (as_data\<lparr>rd_command := payload AND 0xE0, rd_targetRegister := payload AND 0x1F\<rparr>)))
      else if payload AND 0xE0 = W_REGISTER then
        Inr (slave_out 0 (as_data\<lparr>rd_command := payload AND 0xE0, rd_targetRegister := payload AND 0x1F\<rparr>))
      else if payload AND 0xF8 = W_ACK_PAYLOAD then
        Inr (slave_out 0 (as_data\<lparr>rd_command := payload AND 0xF8\<rparr>))
      else Inr s)"

definition nrf_write_register :: "u32 \<Rightarrow> radio \<Rightarrow> (radio \<times> nrf_effect list) result" where
  "nrf_write_register payload s =
     (let target = unat (rd_targetRegister s) in
      bind_r (rf_write (rd_regs s) target payload True) (\<lambda>rf1.
      bind_r
        (if target = NRF_STATUS \<and> payload AND TX_DS \<noteq> 0 then
           bind_r (rf_read rf1 target) (\<lambda>v. bind_r (rf_write rf1 target (v AND NOT TX_DS) False) (\<lambda>rf2. Inr (rf2, [Nrf_irq])))
         else Inr (rf1, []))
        (\<lambda>(rf2, fx). Inr (s\<lparr>rd_regs := rf2, rd_targetRegister := rd_targetRegister s + 1\<rparr>, fx @ [Nrf_state_change]))))"

definition nrf_data :: "u32 \<Rightarrow> radio \<Rightarrow> (radio \<times> nrf_effect list) result" where
  "nrf_data payload s =
     (if rd_command s = R_REGISTER then
        (let target = rd_targetRegister s + 1 in
         bind_r (rf_read (rd_regs s) (unat target)) (\<lambda>v. Inr (slave_out v (s\<lparr>rd_targetRegister := target\<rparr>), [])))
      else if rd_command s = W_REGISTER then nrf_write_register payload s
      else if rd_command s = W_TX_PAYLOAD then
        bind_r (appendPayload payload (rd_txFifo s)) (\<lambda>f. Inr (s\<lparr>rd_txFifo := f\<rparr>, []))
      else Inr (s, []))"

definition payloadReceivedHandler :: "bool \<Rightarrow> radio \<Rightarrow> (radio \<times> nrf_effect list) result" where
  "payloadReceivedHandler nReset s =
     (if nReset then
        let payload = readSlaveIn (rd_dev s) in
        if rd_payloadType s = Payload_COMMAND then bind_r (nrf_command payload s) (\<lambda>s1. Inr (s1, []))
        else nrf_data payload s
      else Inr (s, []))"

section \<open>The other handlers\<close>

definition chipSelectHandler :: "sc_logic \<Rightarrow> radio \<Rightarrow> (radio \<times> nrf_effect list) result" where
  "chipSelectHandler chipSelect s =
     (if spi_enabled chipSelect (rd_dev s) then
        bind_r (rf_read (rd_regs s) NRF_STATUS) (\<lambda>v. Inr (slave_out v (s\<lparr>rd_payloadType := Payload_COMMAND\<rparr>), []))
      else Inr (s, if rd_state s \<noteq> Op_UNDEFINED then [Nrf_state_change] else []))"

definition chipEnableHandler :: "bool \<Rightarrow> nrf_effect list" where
  "chipEnableHandler nReset = (if nReset then [Nrf_state_change] else [])"

definition nResetHandler :: "bool \<Rightarrow> radio \<Rightarrow> radio \<times> nrf_effect list" where
  "nResetHandler nReset s = (if nReset then (s, [Nrf_state_change]) else (s\<lparr>rd_state := Op_UNDEFINED\<rparr>, []))"

definition irqEventHandler :: "bool \<Rightarrow> radio \<Rightarrow> radio result" where
  "irqEventHandler nReset s =
     (if nReset then
        bind_r (rf_read (rd_regs s) NRF_STATUS) (\<lambda>status.
        bind_r (rf_read (rd_regs s) NRF_CONFIG) (\<lambda>config.
          Inr (if status AND TX_DS \<noteq> 0
               then (if config AND MASK_TX_DS = 0 then s\<lparr>rd_irq := SC_LOGIC_0\<rparr> else s)
               else s\<lparr>rd_irq := SC_LOGIC_1\<rparr>)))
      else Inr s)"

section \<open>The state machine\<close>

abbreviation us :: sc_time where "us \<equiv> 1000000"

definition nrf_power_down :: "radio \<Rightarrow> radio \<times> nrf_effect list \<times> nrf_wait" where
  "nrf_power_down s = (s\<lparr>rd_state := Op_POWER_DOWN, rd_pc := Npc_event\<rparr>, [Nrf_report ''power_down''], Nrf_wait_event)"

definition nrf_stay :: "radio \<Rightarrow> radio \<times> nrf_effect list \<times> nrf_wait" where
  "nrf_stay s = (s\<lparr>rd_pc := Npc_event\<rparr>, [], Nrf_wait_event)"

definition nrf_settle_tx :: "radio \<Rightarrow> radio \<times> nrf_effect list \<times> nrf_wait" where
  "nrf_settle_tx s = (s\<lparr>rd_state := Op_TX_SETTLING, rd_pc := Npc_tx\<rparr>, [Nrf_report ''tx_settling''], Nrf_wait_time (130 * us))"

text \<open>The event \<open>m_stateChangeEvent\<close>; \<open>ce\<close> is whether the chip enable line is at 1.\<close>

definition nrf_changed :: "bool \<Rightarrow> u32 \<Rightarrow> radio \<Rightarrow> radio \<times> nrf_effect list \<times> nrf_wait" where
  "nrf_changed ce config s =
     (let up = (config AND PWR_UP \<noteq> 0); rx = (config AND PRIM_RX \<noteq> 0); empty = RadioFifo_isEmpty (rd_txFifo s) in
      case rd_state s of
        Op_UNDEFINED \<Rightarrow>
          (s\<lparr>rd_state := Op_POWER_ON_RESET, rd_pc := Npc_por\<rparr>, [Nrf_report ''por''], Nrf_wait_time (10000 * us))
      | Op_POWER_DOWN \<Rightarrow>
          if up then (s\<lparr>rd_state := Op_OSC_STARTUP, rd_pc := Npc_startup\<rparr>, [Nrf_report ''start_up''], Nrf_wait_time (150 * us))
          else nrf_stay s
      | Op_STANDBY1 \<Rightarrow>
          if \<not> up then nrf_power_down s
          else if rx \<and> ce then
            (s\<lparr>rd_state := Op_RX_SETTLING, rd_pc := Npc_rx\<rparr>, [Nrf_report ''rx_settling''], Nrf_wait_time (130 * us))
          else if \<not> rx \<and> ce \<and> \<not> empty then nrf_settle_tx s
          else if \<not> rx \<and> ce \<and> empty then
            (s\<lparr>rd_state := Op_STANDBY2, rd_pc := Npc_event\<rparr>, [Nrf_report ''standby_two''], Nrf_wait_event)
          else nrf_stay s
      | Op_STANDBY2 \<Rightarrow> if \<not> up then nrf_power_down s else if ce \<and> \<not> empty then nrf_settle_tx s else nrf_stay s
      | Op_RX_MODE \<Rightarrow>
          if \<not> up then nrf_power_down s
          else if \<not> ce then
            (s\<lparr>rd_state := Op_STANDBY1, rd_pc := Npc_event\<rparr>, [Nrf_report ''standby_one''], Nrf_wait_event)
          else nrf_stay s
      | Op_TX_MODE \<Rightarrow>
          if \<not> up then nrf_power_down s
          else if \<not> ce then
            (s\<lparr>rd_state := Op_STANDBY1, rd_pc := Npc_event\<rparr>, [Nrf_report ''standby_one''], Nrf_wait_event)
          else if \<not> empty then (s\<lparr>rd_pc := Npc_event\<rparr>, [Nrf_tx], Nrf_wait_event)
          else (s\<lparr>rd_state := Op_STANDBY2, rd_pc := Npc_event\<rparr>, [Nrf_report ''standby_two''], Nrf_wait_event)
      | _ \<Rightarrow> nrf_stay s)"

definition stateChangeHandler :: "bool \<Rightarrow> radio \<Rightarrow> (radio \<times> nrf_effect list \<times> nrf_wait) result" where
  "stateChangeHandler ce s =
     (case rd_pc s of
        Npc_event \<Rightarrow> bind_r (rf_read (rd_regs s) NRF_CONFIG) (\<lambda>config. Inr (nrf_changed ce config s))
      | Npc_por \<Rightarrow> Inr (nrf_power_down s)
      | Npc_startup \<Rightarrow>
          Inr (s\<lparr>rd_state := Op_STANDBY1, rd_pc := Npc_event\<rparr>, [Nrf_report ''standby_one''], Nrf_wait_event)
      | Npc_rx \<Rightarrow> Inr (s\<lparr>rd_state := Op_RX_MODE, rd_pc := Npc_event\<rparr>, [Nrf_report ''rx_mode''], Nrf_wait_event)
      | Npc_tx \<Rightarrow>
          Inr (s\<lparr>rd_state := Op_TX_MODE, rd_pc := Npc_event\<rparr>, [Nrf_report ''tx_mode'', Nrf_tx], Nrf_wait_event))"

section \<open>Transmission\<close>

definition tx_power :: "u32 \<Rightarrow> radio_power" where
  "tx_power setup =
     (let p = setup AND 6 in
      if p = 2 then Power_n12dBm else if p = 4 then Power_n6dBm else if p = 6 then Power_0dBm else Power_n18dBm)"

definition tx_rate :: "u32 \<Rightarrow> radio_rate" where
  "tx_rate setup =
     (if setup AND 0x20 = 0x20 then Rate_250kbps else if setup AND 8 = 8 then Rate_2Mbps else Rate_1Mbps)"

definition tx_address_size :: "u32 \<Rightarrow> nat \<Rightarrow> nat" where
  "tx_address_size aw old =
     (let a = aw AND 3 in if a = 1 then 3 else if a = 2 then 4 else if a = 3 then 5 else old)"

fun copy_payload :: "radio_fifo \<Rightarrow> nat list \<Rightarrow> u32 list \<Rightarrow> u32 list result" where
  "copy_payload f [] payload = Inr payload"
| "copy_payload f (i # is) payload =
     bind_r (readPayload i f) (\<lambda>v.
     check_r (i < length payload) Out_of_bounds (copy_payload f is (payload[i := v])))"

fun fill_address :: "u32 \<Rightarrow> nat list \<Rightarrow> u32 list \<Rightarrow> u32 list result" where
  "fill_address v [] addr = Inr addr"
| "fill_address v (i # is) addr =
     check_r (i < length addr) Out_of_bounds (fill_address v is (addr[i := v]))"

definition tx_packet :: "radio \<Rightarrow> radio_packet result" where
  "tx_packet s =
     bind_r (rf_read (rd_regs s) RF_CH) (\<lambda>ch.
     bind_r (rf_read (rd_regs s) RF_SETUP) (\<lambda>setup.
     bind_r (rf_read (rd_regs s) SETUP_AW) (\<lambda>aw.
     bind_r (rf_read (rd_regs s) TX_ADDR) (\<lambda>a.
     let p = rd_txPacket s; n = tx_address_size aw (pk_addressSize p); m = getPayloadSize (rd_txFifo s) in
     bind_r (fill_address a [0..<n] (pk_address p)) (\<lambda>addr.
     bind_r (copy_payload (rd_txFifo s) [0..<m] (pk_payload p)) (\<lambda>payload.
       Inr (p\<lparr>pk_channelNumber := ch AND 0x7f, pk_outputPower := tx_power setup, pk_dataRate := tx_rate setup,
              pk_addressSize := n, pk_address := addr, pk_payload := payload, pk_payloadSize := m\<rparr>)))))))"

text \<open>The event \<open>m_txEvent\<close>, and the end of the transmission.\<close>

definition txEventHandler :: "radio \<Rightarrow> (radio \<times> nrf_effect list \<times> nrf_wait) result" where
  "txEventHandler s =
     (if \<not> rd_sending s then
        bind_r (tx_packet s) (\<lambda>p.
          Inr (s\<lparr>rd_txPacket := p, rd_sending := True\<rparr>, [], Nrf_wait_time (packetDuration p * us)))
      else
        bind_r (rf_read (rd_regs s) NRF_STATUS) (\<lambda>status.
        bind_r (rf_write (rd_regs s) NRF_STATUS (status OR TX_DS) False) (\<lambda>rf.
          Inr (s\<lparr>rd_txFifo := RadioFifo_pop (rd_txFifo s), rd_regs := rf, rd_sending := False\<rparr>,
               [Nrf_irq, Nrf_state_change], Nrf_wait_event))))"

section \<open>A FIFO is a queue of packets\<close>

definition rq_slot :: "radio_fifo \<Rightarrow> nat \<Rightarrow> nat" where
  "rq_slot f k = (rq_readIndex f + k) mod 3"

definition rq_packet :: "radio_fifo \<Rightarrow> nat \<Rightarrow> u32 list" where
  "rq_packet f w = take (rq_payloadSize f ! w) (rq_fifo f ! w)"

definition rq_packets :: "radio_fifo \<Rightarrow> u32 list list" where
  "rq_packets f = map (\<lambda>k. rq_packet f (rq_slot f k)) [0..<rq_size f]"

definition rq_arrays :: "radio_fifo \<Rightarrow> bool" where
  "rq_arrays f \<longleftrightarrow> length (rq_fifo f) = 3 \<and> (\<forall>row \<in> set (rq_fifo f). length row = 32) \<and> length (rq_payloadSize f) = 3"

definition rq_ok :: "radio_fifo \<Rightarrow> bool" where
  "rq_ok f \<longleftrightarrow> rq_arrays f \<and> rq_size f \<le> 3 \<and> rq_readIndex f < 3
     \<and> rq_writeIndex f = (rq_readIndex f + rq_size f + 2) mod 3
     \<and> (\<forall>k < rq_size f. rq_payloadSize f ! rq_slot f k \<le> 32)"

lemma rq_ok_new:
  "length fifo = 3 \<Longrightarrow> \<forall>row \<in> set fifo. length row = 32 \<Longrightarrow> length sizes = 3 \<Longrightarrow> rq_ok (RadioFifo_new fifo sizes)"
  by (simp add: rq_ok_def rq_arrays_def RadioFifo_new_def)

fun append_all :: "u32 list \<Rightarrow> radio_fifo \<Rightarrow> radio_fifo result" where
  "append_all [] f = Inr f"
| "append_all (b # bs) f = bind_r (appendPayload b f) (append_all bs)"

text \<open>Appending fills the row of the newest packet.\<close>

lemma append_all_row:
  assumes "rq_arrays f" and "rq_writeIndex f < 3" and "rq_payloadIndex f + length bs \<le> 32" and "bs \<noteq> []"
  shows "\<exists>g row. append_all bs f = Inr g \<and> length row = 32
    \<and> take (rq_payloadIndex f + length bs) row = take (rq_payloadIndex f) (rq_fifo f ! rq_writeIndex f) @ bs
    \<and> g = f\<lparr>rq_fifo := (rq_fifo f)[rq_writeIndex f := row], rq_payloadIndex := rq_payloadIndex f + length bs,
             rq_payloadSize := (rq_payloadSize f)[rq_writeIndex f := rq_payloadIndex f + length bs]\<rparr>"
  using assms
proof (induction bs arbitrary: f)
  case (Cons b bs)
  let ?w = "rq_writeIndex f" and ?i = "rq_payloadIndex f"
  have row: "?w < length (rq_fifo f)" "length (rq_fifo f ! ?w) = 32" "?i < 32"
    using Cons.prems by (auto simp: rq_arrays_def)
  define f1 where "f1 = f\<lparr>rq_fifo := (rq_fifo f)[?w := (rq_fifo f ! ?w)[?i := b]], rq_payloadIndex := Suc ?i,
    rq_payloadSize := (rq_payloadSize f)[?w := Suc ?i]\<rparr>"
  have first: "appendPayload b f = Inr f1" using row by (simp add: appendPayload_def f1_def Let_def)
  have f1: "rq_arrays f1" "rq_writeIndex f1 = ?w" "rq_payloadIndex f1 = Suc ?i" "rq_fifo f1 ! ?w = (rq_fifo f ! ?w)[?i := b]"
    using Cons.prems(1) row by (auto simp: rq_arrays_def f1_def dest!: set_update_subset_insert [THEN subsetD])
  have sofar: "take (Suc ?i) (rq_fifo f1 ! ?w) = take ?i (rq_fifo f ! ?w) @ [b]"
    unfolding f1(4) using row by (simp add: take_Suc_conv_app_nth)
  show ?case
  proof (cases "bs = []")
    case True
    show ?thesis
      using first True sofar row
      by (intro exI [of _ f1] exI [of _ "rq_fifo f1 ! ?w"]) (simp add: f1_def f1(4))
  next
    case False
    obtain g row' where g: "append_all bs f1 = Inr g" "length row' = 32"
        "take (Suc ?i + length bs) row' = take (Suc ?i) (rq_fifo f1 ! ?w) @ bs"
        "g = f1\<lparr>rq_fifo := (rq_fifo f1)[?w := row'], rq_payloadIndex := Suc ?i + length bs,
             rq_payloadSize := (rq_payloadSize f1)[?w := Suc ?i + length bs]\<rparr>"
      using Cons.IH [OF f1(1)] f1 Cons.prems False by auto
    show ?thesis
      using first g sofar by (intro exI [of _ g] exI [of _ row']) (simp add: f1_def)
  qed
qed simp

lemma less_3_cases: "n < (3 :: nat) \<Longrightarrow> n = 0 \<or> n = 1 \<or> n = 2"
  by auto

lemma radio_put:
  assumes "rq_ok f" and "rq_size f < 3" and "bs \<noteq> []" and "length bs \<le> 32"
  shows "\<exists>g. append_all bs (RadioFifo_push f) = Inr g \<and> rq_ok g \<and> rq_packets g = rq_packets f @ [bs]"
proof -
  let ?f = "RadioFifo_push f"
  have push: "rq_arrays ?f" "rq_writeIndex ?f < 3" "rq_payloadIndex ?f = 0" "rq_size ?f = Suc (rq_size f)"
      "rq_readIndex ?f = rq_readIndex f" "rq_writeIndex ?f = rq_slot f (rq_size f)" "rq_payloadSize ?f = rq_payloadSize f"
      "rq_fifo ?f = rq_fifo f"
    using assms(1,2) less_3_cases [of "rq_readIndex f"] less_3_cases [of "rq_size f"]
    by (auto simp: rq_ok_def rq_arrays_def RadioFifo_push_def rq_slot_def)
  obtain g row where g: "append_all bs ?f = Inr g" "length row = 32" "take (length bs) row = bs"
      "g = ?f\<lparr>rq_fifo := (rq_fifo f)[rq_slot f (rq_size f) := row], rq_payloadIndex := length bs,
             rq_payloadSize := (rq_payloadSize f)[rq_slot f (rq_size f) := length bs]\<rparr>"
    using append_all_row [OF push(1,2), of bs] push assms(3,4) by auto
  have len: "length (rq_fifo f) = 3" "length (rq_payloadSize f) = 3" "rq_slot f k < 3" for k
    using assms(1) by (auto simp: rq_ok_def rq_arrays_def rq_slot_def)
  have other: "rq_slot f k \<noteq> rq_slot f (rq_size f)" if "k < rq_size f" for k
    using that assms(1,2) less_3_cases [of "rq_readIndex f"] less_3_cases [of "rq_size f"] less_3_cases [of k]
    by (auto simp: rq_ok_def rq_slot_def)
  have slots: "rq_slot g k = rq_slot f k" "rq_size g = Suc (rq_size f)" for k
    using g(4) push by (simp_all add: rq_slot_def)
  have old: "rq_packet g (rq_slot f k) = rq_packet f (rq_slot f k)" if "k < rq_size f" for k
    using other [OF that] g(4) by (simp add: rq_packet_def)
  have newest: "rq_packet g (rq_slot f (rq_size f)) = bs"
    using g(3,4) len by (simp add: rq_packet_def)
  have wrap: "rq_slot f (rq_size f) = (rq_readIndex f + Suc (rq_size f) + 2) mod 3" by (simp add: rq_slot_def)
  have arrays: "rq_arrays g"
    using assms(1) g(2,4) by (auto simp: rq_ok_def rq_arrays_def dest!: set_update_subset_insert [THEN subsetD])
  have sizes: "rq_payloadSize g ! rq_slot f k \<le> 32" if "k < Suc (rq_size f)" for k
    using that assms(1,4) other [of k] len g(4) by (cases "k = rq_size f") (auto simp: rq_ok_def)
  have fields: "rq_readIndex g = rq_readIndex f" "rq_writeIndex g = rq_slot f (rq_size f)"
    using g(4) push by simp_all
  have "rq_ok g"
    unfolding rq_ok_def slots fields using assms(1,2) arrays sizes wrap by (simp add: rq_ok_def)
  moreover have "rq_packets g = rq_packets f @ [bs]"
    unfolding rq_packets_def slots using old newest by simp
  ultimately show ?thesis using g(1) by blast
qed

lemma radio_take:
  assumes "rq_ok f" and "rq_packets f = p # q"
  shows "rq_ok (RadioFifo_pop f)" and "rq_packets (RadioFifo_pop f) = q" and "getPayloadSize f = length p"
    and "i < length p \<Longrightarrow> readPayload i f = Inr (p ! i)"
proof -
  have size: "0 < rq_size f" using assms(2) by (cases "rq_size f") (simp_all add: rq_packets_def)
  then obtain n where n: "rq_size f = Suc n" by (cases "rq_size f") simp_all
  have slot: "rq_slot (RadioFifo_pop f) k = rq_slot f (Suc k)" for k
    using assms(1) less_3_cases [of "rq_readIndex f"] size
    by (auto simp: rq_ok_def rq_slot_def RadioFifo_pop_def)
  have packets: "rq_packets f = rq_packet f (rq_slot f 0) # map (\<lambda>k. rq_packet f (rq_slot f (Suc k))) [0..<n]"
    by (simp add: rq_packets_def n upt_conv_Cons map_Suc_upt [symmetric] comp_def del: upt_Suc)
  have same: "rq_packet (RadioFifo_pop f) w = rq_packet f w" for w by (simp add: rq_packet_def RadioFifo_pop_def)
  show "rq_packets (RadioFifo_pop f) = q"
    using assms(2) packets size by (simp add: rq_packets_def [of "RadioFifo_pop f"] same slot) (simp add: RadioFifo_pop_def n)
  have s0: "rq_slot f 0 = rq_readIndex f" using assms(1) by (simp add: rq_ok_def rq_slot_def)
  have row: "rq_readIndex f < length (rq_fifo f)" "length (rq_fifo f ! rq_readIndex f) = 32"
      "rq_payloadSize f ! rq_readIndex f \<le> 32"
    using assms(1) size s0 by (auto simp: rq_ok_def rq_arrays_def)
  have p: "p = take (rq_payloadSize f ! rq_readIndex f) (rq_fifo f ! rq_readIndex f)"
    using assms(2) packets s0 by (simp add: rq_packet_def)
  then show "getPayloadSize f = length p" using row by (simp add: getPayloadSize_def)
  show "readPayload i f = Inr (p ! i)" if "i < length p"
    using that p row by (simp add: readPayload_def Let_def)
  show "rq_ok (RadioFifo_pop f)"
    unfolding rq_ok_def slot using assms(1) less_3_cases [of "rq_readIndex f"] n
    by (auto simp: rq_ok_def rq_arrays_def RadioFifo_pop_def)
qed

section \<open>A packet from the bus to the air\<close>

lemma copy_payload_append:
  "copy_payload f (is @ js) a = bind_r (copy_payload f is a) (copy_payload f js)"
proof (induction "is" arbitrary: a)
  case (Cons i "is")
  then show ?case by (cases "i < length a") (simp_all add: bind_r_assoc)
qed simp

lemma copy_payload_ok:
  assumes "\<And>i. i < n \<Longrightarrow> readPayload i f = Inr (p ! i)" and "n \<le> length p" and "n \<le> length a"
  shows "\<exists>a'. copy_payload f [0..<n] a = Inr a' \<and> take n a' = take n p \<and> length a' = length a"
  using assms
proof (induction n)
  case (Suc n)
  obtain a' where a': "copy_payload f [0..<n] a = Inr a'" "take n a' = take n p" "length a' = length a"
    using Suc by force
  have "take (Suc n) (a'[n := p ! n]) = take (Suc n) p"
    using Suc.prems a'(2,3) by (simp add: take_Suc_conv_app_nth)
  then show ?case
    using a' Suc.prems by (simp add: copy_payload_append)
qed simp

lemma fill_address_append:
  "fill_address v (is @ js) a = bind_r (fill_address v is a) (fill_address v js)"
  by (induction "is" arbitrary: a) (simp_all add: check_r_def)

lemma fill_address_ok:
  "n \<le> length a \<Longrightarrow> \<exists>a'. fill_address v [0..<n] a = Inr a' \<and> take n a' = replicate n v \<and> length a' = length a"
proof (induction n)
  case (Suc n)
  obtain a' where a': "fill_address v [0..<n] a = Inr a'" "take n a' = replicate n v" "length a' = length a"
    using Suc by force
  have "take (Suc n) (a'[n := v]) = replicate (Suc n) v"
    using Suc.prems a'(2,3) by (simp add: take_Suc_conv_app_nth replicate_append_same)
  then show ?case using a' Suc.prems by (simp add: fill_address_append)
qed simp

definition radio_exchange ::
  "sc_logic \<Rightarrow> bool \<Rightarrow> spi_extension \<Rightarrow> u8 \<Rightarrow> radio \<Rightarrow> (radio \<times> u32 \<times> nrf_effect list) result" where
  "radio_exchange chipSelect nReset =
     spi_exchange rd_dev (\<lambda>d s. s\<lparr>rd_dev := d\<rparr>) (\<lambda>_. payloadReceivedHandler nReset) chipSelect nReset"

lemma radio_payload_bytes:
  assumes "m_chipSelectPolarity (rd_dev s) = ActiveLow" and "rd_payloadType s = Payload_DATA"
    and "rd_command s = W_TX_PAYLOAD" and "append_all (map ucast bs) (rd_txFifo s) = Inr g"
  shows "\<exists>d outs. spi_burst (radio_exchange SC_LOGIC_0 True e) bs s = Inr (s\<lparr>rd_dev := d, rd_txFifo := g\<rparr>, outs)
    \<and> m_chipSelectPolarity d = ActiveLow"
  using assms
proof (induction bs arbitrary: s)
  case Nil
  then show ?case by (intro exI [of _ "rd_dev s"]) simp
next
  case (Cons b bs)
  have en: "spi_enabled SC_LOGIC_0 (rd_dev s)" using Cons.prems(1) by (simp add: spi_enabled_def)
  obtain f1 where f1: "appendPayload (ucast b) (rd_txFifo s) = Inr f1" "append_all (map ucast bs) f1 = Inr g"
    using Cons.prems(4) by (auto simp: bind_r_eq_Inr)
  define s1 where "s1 = s\<lparr>rd_dev := writeSlaveIn (ucast b) (rd_dev s), rd_txFifo := f1\<rparr>"
  have step: "radio_exchange SC_LOGIC_0 True e b s = Inr (s1, readSlaveOut (rd_dev s), [])"
    using Cons.prems(2,3) f1(1) unfolding radio_exchange_def spi_exchange_selected [where dev = rd_dev, OF en]
    by (simp add: payloadReceivedHandler_def nrf_data_def s1_def Let_def)
  have "m_chipSelectPolarity (rd_dev s1) = ActiveLow" "rd_payloadType s1 = Payload_DATA" "rd_command s1 = W_TX_PAYLOAD"
      "append_all (map ucast bs) (rd_txFifo s1) = Inr g"
    using Cons.prems f1(2) by (simp_all add: s1_def writeSlaveIn_def)
  from Cons.IH [OF this] obtain d outs where
      "spi_burst (radio_exchange SC_LOGIC_0 True e) bs s1 = Inr (s1\<lparr>rd_dev := d, rd_txFifo := g\<rparr>, outs)"
      "m_chipSelectPolarity d = ActiveLow" by blast
  then show ?case
    using step by (intro exI [of _ d]) (simp add: s1_def)
qed

definition nrf_shape :: "register_file \<Rightarrow> bool" where
  "nrf_shape rf \<longleftrightarrow> rw rf 0 \<and> rw rf 3 \<and> rw rf 5 \<and> rw rf 6 \<and> rw rf 7 \<and> rw rf 0x10 \<and> mask_of rf 7 = - 1"

lemma nrf_shapeD:
  assumes "nrf_shape rf"
  shows "rw rf 0" "rw rf 3" "rw rf 5" "rw rf 6" "rw rf 7" "rw rf 0x10" "mask_of rf 7 = - 1"
  using assms by (simp_all add: nrf_shape_def)

text \<open>The radio is in standby, powered up as a transmitter, with its interrupt enabled.\<close>

definition radio_ready :: "radio \<Rightarrow> bool" where
  "radio_ready s \<longleftrightarrow> nrf_shape (rd_regs s) \<and> rd_state s = Op_STANDBY1 \<and> rd_pc s = Npc_event \<and> \<not> rd_sending s
     \<and> m_chipSelectPolarity (rd_dev s) = ActiveLow
     \<and> reg_value (rd_regs s) NRF_CONFIG AND PWR_UP \<noteq> 0 \<and> reg_value (rd_regs s) NRF_CONFIG AND PRIM_RX = 0
     \<and> reg_value (rd_regs s) NRF_CONFIG AND MASK_TX_DS = 0
     \<and> length (pk_address (rd_txPacket s)) = 5 \<and> length (pk_payload (rd_txPacket s)) = 32 \<and> pk_addressSize (rd_txPacket s) \<le> 5"

text \<open>Software selects the radio, sends the command and the bytes of a packet, and deselects it.\<close>

definition radio_load :: "spi_extension \<Rightarrow> u8 list \<Rightarrow> radio \<Rightarrow> (radio \<times> nrf_effect list) result" where
  "radio_load e bs s =
     bind_r (chipSelectHandler SC_LOGIC_0 s) (\<lambda>(s1, _).
     bind_r (spi_burst (radio_exchange SC_LOGIC_0 True e) (0xA0 # bs) s1) (\<lambda>(s2, _).
       chipSelectHandler SC_LOGIC_1 s2))"

lemma radio_load_packet:
  assumes "radio_ready s" and "rq_ok (rd_txFifo s)" and "rq_size (rd_txFifo s) < 3" and "bs \<noteq> []" and "length bs \<le> 32"
  shows "\<exists>s'. radio_load e bs s = Inr (s', [Nrf_state_change]) \<and> radio_ready s' \<and> rd_regs s' = rd_regs s
    \<and> rd_txPacket s' = rd_txPacket s
    \<and> rq_ok (rd_txFifo s') \<and> rq_packets (rd_txFifo s') = rq_packets (rd_txFifo s) @ [map ucast bs]"
proof -
  have ready: "nrf_shape (rd_regs s)" "m_chipSelectPolarity (rd_dev s) = ActiveLow" "rd_state s = Op_STANDBY1"
    using assms(1) by (simp_all add: radio_ready_def)
  obtain g where g: "append_all (map ucast bs) (RadioFifo_push (rd_txFifo s)) = Inr g" "rq_ok g"
      "rq_packets g = rq_packets (rd_txFifo s) @ [map ucast bs]"
    using radio_put [OF assms(2,3), of "map ucast bs"] assms(4,5) by auto
  define s1 where "s1 = slave_out (reg_value (rd_regs s) 7) (s\<lparr>rd_payloadType := Payload_COMMAND\<rparr>)"
  have sel: "chipSelectHandler SC_LOGIC_0 s = Inr (s1, [])"
    using ready nrf_shapeD [OF ready(1)] by (simp add: chipSelectHandler_def spi_enabled_def nrf_registers s1_def)
  have en: "spi_enabled SC_LOGIC_0 (rd_dev s1)" using ready(2) by (simp add: s1_def slave_out_def spi_enabled_def writeSlaveOut_def)
  define s2 where "s2 = slave_out 0 (s1\<lparr>rd_dev := writeSlaveIn 0xA0 (rd_dev s1), rd_command := 0xA0, rd_payloadType := Payload_DATA,
    rd_txFifo := RadioFifo_push (rd_txFifo s)\<rparr>)"
  have cmd: "radio_exchange SC_LOGIC_0 True e 0xA0 s1 = Inr (s2, readSlaveOut (rd_dev s1), [])"
    using assms(3) unfolding radio_exchange_def spi_exchange_selected [where dev = rd_dev, OF en]
    by (simp add: payloadReceivedHandler_def nrf_command_def Let_def RadioFifo_isFull_def RadioFifo_size_def s2_def s1_def slave_out_def)
  have s2: "m_chipSelectPolarity (rd_dev s2) = ActiveLow" "rd_payloadType s2 = Payload_DATA" "rd_command s2 = W_TX_PAYLOAD"
      "append_all (map ucast bs) (rd_txFifo s2) = Inr g"
    using ready(2) g(1) by (simp_all add: s2_def s1_def slave_out_def writeSlaveIn_def writeSlaveOut_def)
  obtain d outs where burst: "spi_burst (radio_exchange SC_LOGIC_0 True e) bs s2 = Inr (s2\<lparr>rd_dev := d, rd_txFifo := g\<rparr>, outs)"
      "m_chipSelectPolarity d = ActiveLow"
    using radio_payload_bytes [OF s2] by blast
  let ?s' = "s2\<lparr>rd_dev := d, rd_txFifo := g\<rparr>"
  have same: "rd_regs ?s' = rd_regs s" "rd_state ?s' = Op_STANDBY1" "rd_pc ?s' = rd_pc s" "rd_sending ?s' = rd_sending s"
      "rd_txPacket ?s' = rd_txPacket s"
    using ready(3) by (simp_all add: s2_def s1_def slave_out_def)
  have "chipSelectHandler SC_LOGIC_1 ?s' = Inr (?s', [Nrf_state_change])"
    using burst(2) same(2) by (simp add: chipSelectHandler_def spi_enabled_def)
  then have "radio_load e bs s = Inr (?s', [Nrf_state_change])"
    using sel cmd burst(1) by (simp add: radio_load_def)
  then show ?thesis
    using assms(1) same burst(2) g(2,3) by (intro exI [of _ ?s']) (simp add: radio_ready_def)
qed

text \<open>The packet built for the oldest entry of the FIFO.\<close>

lemma tx_packet_oldest:
  assumes "radio_ready s" and "rq_ok (rd_txFifo s)" and "rq_packets (rd_txFifo s) = q # rest"
  shows "\<exists>p. tx_packet s = Inr p \<and> pk_payloadSize p = length q \<and> take (length q) (pk_payload p) = q
    \<and> pk_channelNumber p = reg_value (rd_regs s) RF_CH AND 0x7f"
proof -
  have ready: "nrf_shape (rd_regs s)" "length (pk_address (rd_txPacket s)) = 5" "length (pk_payload (rd_txPacket s)) = 32"
      "pk_addressSize (rd_txPacket s) \<le> 5"
    using assms(1) by (simp_all add: radio_ready_def)
  note rf = nrf_shapeD [OF ready(1)]
  note oldest = radio_take [OF assms(2,3)]
  have "length q \<le> 32"
    using assms(2,3) by (auto simp: rq_ok_def rq_packets_def rq_packet_def Cons_eq_map_conv upt_eq_Cons_conv)
  then obtain a where a: "copy_payload (rd_txFifo s) [0..<length q] (pk_payload (rd_txPacket s)) = Inr a" "take (length q) a = q"
    using copy_payload_ok [of "length q" "rd_txFifo s" q "pk_payload (rd_txPacket s)"] oldest(4) ready(3) by auto
  have "tx_address_size (reg_value (rd_regs s) 3) (pk_addressSize (rd_txPacket s)) \<le> length (pk_address (rd_txPacket s))"
    using ready(2,4) by (simp add: tx_address_size_def Let_def)
  from fill_address_ok [OF this, of "reg_value (rd_regs s) 0x10"] obtain addr where
      "fill_address (reg_value (rd_regs s) 0x10)
         [0..<tx_address_size (reg_value (rd_regs s) 3) (pk_addressSize (rd_txPacket s))] (pk_address (rd_txPacket s)) = Inr addr"
    by blast
  then show ?thesis
    using rf oldest(3) a by (simp add: tx_packet_def nrf_registers Let_def)
qed

lemma rq_empty: "RadioFifo_isEmpty f \<longleftrightarrow> rq_packets f = []"
  by (simp add: RadioFifo_isEmpty_def rq_packets_def)


definition radio_example :: radio where
  "radio_example = (Nrf24Radio_new (RadioFifo_new (replicate 3 (replicate 32 0)) [0, 0, 0])
      (RadioPacket_new (replicate 5 0) (replicate 32 0)))
    \<lparr>rd_state := Op_STANDBY1, rd_regs := put_reg Nrf24Radio_regs NRF_CONFIG 0x0a False\<rparr>"

lemma nrf_regs_new:
  "nrf_shape Nrf24Radio_regs" "mask_of Nrf24Radio_regs 0 = - 1"
  by (simp_all add: nrf_shape_def rw_def mask_of_def Nrf24Radio_regs_def nrf_defaults_def addRegister_def mk_register_def
      reg_at_Cons nrf_registers)

lemma nrf_shape_put [simp]: "nrf_shape (put_reg rf a v f) = nrf_shape rf"
  unfolding nrf_shape_def rw_put_reg mask_of_put_reg by (rule refl)

lemma radio_example_ready: "radio_ready radio_example" "rq_ok (rd_txFifo radio_example)" "rq_size (rd_txFifo radio_example) < 3"
  using nrf_regs_new nrf_shapeD(1) [OF nrf_regs_new(1)]
  by (simp_all add: radio_ready_def radio_example_def Nrf24Radio_new_def RadioPacket_new_def nrf_registers rq_ok_new)
    (simp add: RadioFifo_new_def)


end
