(* ===== verification/Cm0_Dma.thy ===== *)
theory Cm0_Dma
  imports Msp430_Dma Cm0_Memory
begin

unbundle bit_operations_syntax

text \<open>
  \<open>mcu/cortex-m0/Dma.cpp\<close>: the DMA controller of the Cortex-M0, adapted in the source from the
  one of the MSP430 (theory \<open>Msp430_Dma\<close>): a word is four bytes, the registers are 32 bits
  wide at other offsets, and the interrupt goes through \<open>irqControl\<close>, which the taking of
  the exception by the core acknowledges. The state of a channel, its configuration and
  the parts of its thread that do not touch an address have the same text in both files;
  their definitions are used from there. The threads are modelled as they are there.
\<close>

section \<open>Channels\<close>

definition m0_unit_bytes :: "dma_bytes \<Rightarrow> nat" where
  "m0_unit_bytes b = (if b = Bytes_Word then 4 else 1)"

definition m0_step_address :: "increment_mode \<Rightarrow> dma_bytes \<Rightarrow> u32 \<Rightarrow> u32" where
  "m0_step_address m b a =
     (case m of Unchanged \<Rightarrow> a | Decrement \<Rightarrow> a - of_nat (m0_unit_bytes b) | Increment \<Rightarrow> a + of_nat (m0_unit_bytes b))"

definition m0_updateAddresses :: "dma_channel \<Rightarrow> dma_channel" where
  "m0_updateAddresses c =
     c\<lparr>m_tDestinationAddress := m0_step_address (destinationAutoIncrement c) (destinationBytes c) (m_tDestinationAddress c),
       m_tSourceAddress := m0_step_address (sourceAutoIncrement c) (sourceBytes c) (m_tSourceAddress c)\<rparr>"

definition m0_channel_accept :: "dma_channel \<Rightarrow> dma_channel result" where
  "m0_channel_accept c =
     (let c1 = m0_updateAddresses c in
      case transferMode c1 of
        Single \<Rightarrow>
          Inr ((if ch_size c1 > 1 then c1\<lparr>ch_size := ch_size c1 - 1\<rparr>
                else c1\<lparr>ch_size := m_tSize c1, interruptFlag := True, ch_enable := False\<rparr>)
             \<lparr>ch_pending := False, ch_wait := Wait_trigger\<rparr>)
      | RepeatedSingle \<Rightarrow>
          Inr ((if ch_size c1 > 1 then c1\<lparr>ch_size := ch_size c1 - 1\<rparr>
                else c1\<lparr>ch_size := m_tSize c1, interruptFlag := True\<rparr>)
             \<lparr>ch_pending := False, ch_wait := Wait_trigger\<rparr>)
      | Block \<Rightarrow>
          Inr (if \<not> ch_enable c1 then channel_finish False c1
               else (let c2 = c1\<lparr>ch_size := ch_size c1 - 1\<rparr>
                     in if ch_size c2 = 0 then channel_finish False c2 else c2))
      | RepeatedBlock \<Rightarrow>
          Inr (if \<not> ch_enable c1 \<or> ch_size c1 = 0 then channel_finish (ch_enable c1) c1 else c1)
      | _ \<Rightarrow>
          if ch_size c1 > 0 \<and> ch_size c1 < m_tSize c1 \<and> ch_size c1 mod 4 = 0
          then Inr (c1\<lparr>ch_wait := Wait_burst\<rparr>) else burst_continue c1)"

text \<open>What the accept signal does to the channel, which may be in its pause or just out of it.\<close>

definition m0_channel_signal :: "bool \<Rightarrow> dma_channel \<Rightarrow> dma_channel result" where
  "m0_channel_signal resumed c =
     (case ch_wait c of
        Wait_accept \<Rightarrow> m0_channel_accept c
      | Wait_trigger \<Rightarrow> Inr c
      | Wait_burst \<Rightarrow>
          if resumed then
            bind_r (burst_continue c) (\<lambda>c1. if ch_wait c1 = Wait_accept then m0_channel_accept c1 else Inr c1)
          else Inr c)"

section \<open>The controller\<close>

record m0_dma =
  m0d_regs :: register_file
  m0d_channels :: "dma_channel list"
  m0d_setIrq :: bool
  m0d_clearIfg :: bool
  m0d_select :: "int list"
  m0d_irq :: bool
  m0d_busStall :: bool

definition M0_DMACTL0 :: nat where "M0_DMACTL0 = 0"
definition M0_DMACTL1 :: nat where "M0_DMACTL1 = 4"
definition M0_DMACTL2 :: nat where "M0_DMACTL2 = 8"
definition M0_DMACTL4 :: nat where "M0_DMACTL4 = 0xc"
definition M0_DMAIV :: nat where "M0_DMAIV = 0x70"
definition M0_DMA0CTL :: nat where "M0_DMA0CTL = 0x10"
definition M0_DMA1CTL :: nat where "M0_DMA1CTL = 0x20"
definition M0_DMA0SA :: nat where "M0_DMA0SA = 0x14"
definition M0_DMA0DA :: nat where "M0_DMA0DA = 0x18"
definition M0_DMA0SZ :: nat where "M0_DMA0SZ = 0x1c"
definition M0_DMA5SZ :: nat where "M0_DMA5SZ = 0x6c"
definition DMA_EXCEPT_ID :: int where "DMA_EXCEPT_ID = 27"

lemmas m0_dma_offsets = M0_DMACTL0_def M0_DMACTL1_def M0_DMACTL2_def M0_DMACTL4_def M0_DMAIV_def
  M0_DMA0CTL_def M0_DMA1CTL_def M0_DMA0SA_def M0_DMA0DA_def M0_DMA0SZ_def M0_DMA5SZ_def

definition m0_ch_ofs :: "nat \<Rightarrow> nat" where
  "m0_ch_ofs i = i * (M0_DMA1CTL - M0_DMA0CTL)"

definition m0_channel_regs :: "nat \<Rightarrow> register_file \<Rightarrow> register_file" where
  "m0_channel_regs i rf =
     (let undef = 0xaaaa; add = (\<lambda>a rv rf. addRegister rf (a + m0_ch_ofs i) rv READ_WRITE (- 1)) in
      add M0_DMA0SZ undef (add M0_DMA0DA undef (add M0_DMA0SA undef (add M0_DMA0CTL 0 rf))))"

definition m0_Dma_regs :: register_file where
  "m0_Dma_regs = fold m0_channel_regs [0..<NCHANNELS]
     (fold (\<lambda>a rf. addRegister rf a 0 READ_WRITE (- 1))
       [M0_DMACTL0, M0_DMACTL1, M0_DMACTL2, M0_DMACTL4, M0_DMAIV] [])"

text \<open>\<open>m0d_clearIfg\<close> and \<open>interruptFlag\<close> are not initialised by the code.\<close>

definition m0_Dma_new :: "bool \<Rightarrow> bool \<Rightarrow> m0_dma" where
  "m0_Dma_new clear0 flag0 =
     \<lparr>m0d_regs = m0_Dma_regs, m0d_channels = replicate NCHANNELS (DmaChannel_new flag0), m0d_setIrq = False, m0d_clearIfg = clear0,
      m0d_select = replicate NCHANNELS 0, m0d_irq = False, m0d_busStall = False\<rparr>"

definition m0_Dma_reset :: "m0_dma \<Rightarrow> m0_dma" where
  "m0_Dma_reset d = d\<lparr>m0d_regs := rf_reset (m0d_regs d), m0d_channels := map DmaChannel_reset (m0d_channels d)\<rparr>"

definition m0_setTrigger :: "nat \<Rightarrow> u32 \<Rightarrow> m0_dma \<Rightarrow> m0_dma result" where
  "m0_setTrigger ch n d =
     check_r (n < 30) Aborted
       (Inr (d\<lparr>m0d_select := (m0d_select d)[ch := int (unat n)]\<rparr>))"

definition m0_set_triggers :: "nat \<Rightarrow> u32 \<Rightarrow> m0_dma \<Rightarrow> m0_dma result" where
  "m0_set_triggers ch val d =
     bind_r (m0_setTrigger ch (val AND 0x1f) d) (m0_setTrigger (ch + 1) (drop_bit 8 (val AND push_bit 8 0x1f)))"

definition m0_configure_channel :: "nat \<Rightarrow> u32 \<Rightarrow> m0_dma \<Rightarrow> m0_dma \<times> dma_event list" where
  "m0_configure_channel i val d =
     (let (c, trig) = updateConfig val (m0d_channels d ! i)
      in (d\<lparr>m0d_channels := (m0d_channels d)[i := c]\<rparr>, if trig then [Software_trigger i] else []))"

definition m0_Dma_write_effect :: "nat \<Rightarrow> u32 \<Rightarrow> m0_dma \<Rightarrow> (m0_dma \<times> dma_event list) result" where
  "m0_Dma_write_effect addr val d =
     (let quiet = (\<lambda>r. bind_r r (\<lambda>d1. Inr (d1, []))) in
      if addr = M0_DMACTL0 then quiet (m0_set_triggers 0 val d)
      else if addr = M0_DMACTL1 then quiet (m0_set_triggers 2 val d)
      else if addr = M0_DMACTL2 then quiet (m0_set_triggers 4 val d)
      else if addr \<in> (\<lambda>i. M0_DMA0CTL + m0_ch_ofs i) ` {..<6}
      then Inr (m0_configure_channel ((addr - M0_DMA0CTL) div (M0_DMA1CTL - M0_DMA0CTL)) val d)
      else Inr (d, []))"

definition m0_channel_addresses :: "register_file \<Rightarrow> nat \<Rightarrow> dma_channel \<Rightarrow> dma_channel result" where
  "m0_channel_addresses rf i c =
     bind_r (rf_read rf (M0_DMA0SA + m0_ch_ofs i)) (\<lambda>sa.
     bind_r (rf_read rf (M0_DMA0DA + m0_ch_ofs i)) (\<lambda>da.
     bind_r (rf_read rf (M0_DMA0SZ + m0_ch_ofs i)) (\<lambda>sz.
       let c1 = c\<lparr>sourceAddress := sa, destinationAddress := da, ch_size := sint sz\<rparr>
       in Inr (if ch_enable c1 then c1 else c1\<lparr>m_tSize := sint sz\<rparr>))))"

fun m0_update_channels :: "register_file \<Rightarrow> nat \<Rightarrow> dma_channel list \<Rightarrow> dma_channel list result" where
  "m0_update_channels rf i [] = Inr []"
| "m0_update_channels rf i (c # cs) =
     bind_r (m0_channel_addresses rf i c) (\<lambda>c1. bind_r (m0_update_channels rf (i + 1) cs) (\<lambda>cs1. Inr (c1 # cs1)))"

definition m0_updateChannelAddresses :: "m0_dma \<Rightarrow> m0_dma result" where
  "m0_updateChannelAddresses d =
     bind_r (m0_update_channels (m0d_regs d) 0 (m0d_channels d)) (\<lambda>cs. Inr (d\<lparr>m0d_channels := cs\<rparr>))"

definition m0_Dma_b_transport ::
  "target \<Rightarrow> sc_time \<Rightarrow> m0_dma \<Rightarrow> payload \<Rightarrow> sc_time \<Rightarrow>
   (m0_dma \<times> payload \<times> sc_time \<times> effect list \<times> dma_event list) result" where
  "m0_Dma_b_transport t period d tp delay =
     bind_r (BusTarget_b_transport t period (m0d_regs d) tp delay) (\<lambda>(rf, tp1, dl, fx).
     let addr = unat (address tp1) in
     bind_r (rf_read rf addr) (\<lambda>val.
     bind_r (if command tp1 = TLM_WRITE_COMMAND then m0_Dma_write_effect addr val (d\<lparr>m0d_regs := rf\<rparr>)
             else Inr (d\<lparr>m0d_regs := rf\<rparr>, [])) (\<lambda>(d1, ev).
     if addr = M0_DMAIV then
       bind_r (rf_write (m0d_regs d1) M0_DMAIV 0 True) (\<lambda>rf1.
         Inr (d1\<lparr>m0d_regs := rf1, m0d_clearIfg := True\<rparr>, tp1, dl, fx, ev @ [Update_irq dl]))
     else if M0_DMA0SA \<le> addr \<and> addr \<le> M0_DMA5SZ then
       bind_r (m0_updateChannelAddresses d1) (\<lambda>d2. Inr (d2, tp1, dl, fx, ev))
     else Inr (d1, tp1, dl, fx, ev))))"

text \<open>The flags of all channels.\<close>

fun m0_show_flags :: "nat \<Rightarrow> dma_channel list \<Rightarrow> register_file \<Rightarrow> register_file result" where
  "m0_show_flags i [] rf = Inr rf"
| "m0_show_flags i (c # cs) rf =
     bind_r (if interruptFlag c then rf_setBitMask rf (M0_DMA0CTL + m0_ch_ofs i) DMAIFG False
             else rf_clearBitMask rf (M0_DMA0CTL + m0_ch_ofs i) DMAIFG False) (m0_show_flags (i + 1) cs)"

text \<open>The last two components: \<open>m_updateIrqFlagEvent\<close> is notified again, and \<open>m_updateIrqEvent\<close> is.\<close>

definition m0_interruptUpdate :: "m0_dma \<Rightarrow> (m0_dma \<times> bool \<times> bool) result" where
  "m0_interruptUpdate d =
     bind_r (m0_show_flags 0 (m0d_channels d) (m0d_regs d)) (\<lambda>rf.
     let d1 = d\<lparr>m0d_regs := rf\<rparr> in
     case first_index interruptFlag (m0d_channels d) of
       Some i \<Rightarrow>
         if m0d_clearIfg d then
           Inr (d1\<lparr>m0d_channels := (m0d_channels d1)[i := (m0d_channels d1 ! i)\<lparr>interruptFlag := False\<rparr>]\<rparr>, True, False)
         else
           bind_r (rf_write rf M0_DMAIV (push_bit (i + 1) 1) True) (\<lambda>rf1.
             let en = interruptEnable (m0d_channels d1 ! i) in
             Inr (d1\<lparr>m0d_regs := rf1, m0d_clearIfg := False, m0d_setIrq := (en \<or> m0d_setIrq d)\<rparr>, False, en))
     | None \<Rightarrow>
         bind_r (rf_write rf M0_DMAIV 0 True) (\<lambda>rf1.
           Inr (d1\<lparr>m0d_regs := rf1, m0d_clearIfg := False\<rparr>, False, False)))"

text \<open>\<open>irqControl\<close>; the second component: \<open>m_updateIrqFlagEvent\<close> is notified.\<close>

definition m0_irqControl :: "bool \<Rightarrow> int \<Rightarrow> m0_dma \<Rightarrow> m0_dma \<times> bool" where
  "m0_irqControl pwrOn active_exception d =
     (if \<not> pwrOn then (d\<lparr>m0d_irq := False, m0d_setIrq := False\<rparr>, False)
      else if m0d_setIrq d \<and> \<not> m0d_irq d then (d\<lparr>m0d_irq := True, m0d_setIrq := False\<rparr>, False)
      else if active_exception - 16 = DMA_EXCEPT_ID then
        (d\<lparr>m0d_irq := False, m0d_clearIfg := True, m0d_setIrq := False\<rparr>, True)
      else (d\<lparr>m0d_setIrq := False\<rparr>, False))"

text \<open>
  The notifications of \<open>m_updateIrqFlagEvent\<close> by \<open>interruptUpdate\<close> itself: the method runs
  again until it does not notify. \<open>None\<close>: not within \<open>n\<close> runs. The result tells whether
  \<open>m_updateIrqEvent\<close> was notified.
\<close>

fun m0_flag_updates :: "nat \<Rightarrow> m0_dma \<Rightarrow> (m0_dma \<times> bool) result option" where
  "m0_flag_updates 0 d = None"
| "m0_flag_updates (Suc n) d =
     (case m0_interruptUpdate d of
        Inl e \<Rightarrow> Some (Inl e)
      | Inr (d1, again, ev) \<Rightarrow> if again then m0_flag_updates n d1 else Some (Inr (d1, ev)))"

section \<open>Transfers\<close>

text \<open>One unit over the bus \<open>bt\<close>; \<open>buf\<close> is what the controller's buffer held.\<close>

definition m0_dma_unit ::
  "'b transport \<Rightarrow> nat \<Rightarrow> nat \<Rightarrow> bool \<Rightarrow> 'b \<times> m0_dma \<times> u8 list \<Rightarrow> ('b \<times> m0_dma \<times> u8 list) result" where
  "m0_dma_unit bt i len resumed st =
     (case st of (b, d, buf) \<Rightarrow>
       let c = m0d_channels d ! i in
       bind_r (bt b \<lparr>command = TLM_READ_COMMAND, address = scast (m_tSourceAddress c),
                     data = take len buf, response_ok = False\<rparr> 0) (\<lambda>(b1, p1, _, _).
       bind_r (bt b1 \<lparr>command = TLM_WRITE_COMMAND, address = scast (m_tDestinationAddress c),
                      data = data p1, response_ok = response_ok p1\<rparr> 0) (\<lambda>(b2, p2, _, _).
       bind_r (m0_channel_signal resumed c) (\<lambda>c1.
       bind_r (rf_write (m0d_regs d) (M0_DMA0SZ + m0_ch_ofs i) (of_int (ch_size c1)) False) (\<lambda>rf.
         Inr (b2, d\<lparr>m0d_channels := (m0d_channels d)[i := c1], m0d_regs := rf\<rparr>, data p2 @ drop len buf))))))"

text \<open>\<open>while (ch.pending.read())\<close>; \<open>None\<close>: the schedule ended first.\<close>

fun m0_dma_loop ::
  "'b transport \<Rightarrow> nat \<Rightarrow> nat \<Rightarrow> bool list \<Rightarrow> 'b \<times> m0_dma \<times> u8 list \<Rightarrow> ('b \<times> m0_dma \<times> u8 list) result option" where
  "m0_dma_loop bt i len sched st =
     (if \<not> ch_pending (m0d_channels (fst (snd st)) ! i) then Some (Inr st)
      else case sched of [] \<Rightarrow> None
        | r # rs \<Rightarrow> (case m0_dma_unit bt i len r st of Inl e \<Rightarrow> Some (Inl e) | Inr st1 \<Rightarrow> m0_dma_loop bt i len rs st1))"

declare m0_dma_loop.simps [simp del]

text \<open>One iteration of \<open>Dma::process\<close>; the last component: \<open>m_updateIrqFlagEvent\<close> is notified.\<close>

definition m0_dma_serve ::
  "'b transport \<Rightarrow> bool list \<Rightarrow> 'b \<times> m0_dma \<times> u8 list \<Rightarrow> (('b \<times> m0_dma \<times> u8 list) \<times> bool) result option" where
  "m0_dma_serve bt sched st =
     (case st of (b, d, buf) \<Rightarrow>
       case first_index ch_pending (m0d_channels d) of
         None \<Rightarrow> Some (Inr (st, False))
       | Some i \<Rightarrow>
         let len = m0_unit_bytes (sourceBytes (m0d_channels d ! i)) in
         case rf_clearBitMask (m0d_regs d) (M0_DMA0CTL + m0_ch_ofs i) DMAREQ False of
           Inl e \<Rightarrow> Some (Inl e)
         | Inr rf \<Rightarrow>
           map_option (\<lambda>r. bind_r r (\<lambda>(b1, d1, buf1).
             let c = m0d_channels d1 ! i in
             bind_r (if \<not> ch_enable c
                     then rf_clearBitMask (m0d_regs d1) (M0_DMA0CTL + m0_ch_ofs i) DMAEN False
                     else Inr (m0d_regs d1)) (\<lambda>rf1.
               Inr ((b1, d1\<lparr>m0d_regs := rf1, m0d_busStall := False\<rparr>, buf1), interruptFlag c \<and> interruptEnable c))))
             (m0_dma_loop bt i len sched (b, d\<lparr>m0d_regs := rf, m0d_busStall := True\<rparr>, buf)))"

section \<open>A block transfer\<close>

text \<open>What \<open>n\<close> units do to the memory.\<close>

fun m0_dma_memory :: "nat \<Rightarrow> nat \<Rightarrow> dma_channel \<Rightarrow> (nat \<Rightarrow> u8) \<Rightarrow> (nat \<Rightarrow> u8)" where
  "m0_dma_memory len 0 c m = m"
| "m0_dma_memory len (Suc n) c m =
     m0_dma_memory len n (m0_updateAddresses c)
       (put_bytes m (bus_addr (m_tDestinationAddress c)) (get_bytes m (bus_addr (m_tSourceAddress c)) len))"

fun m0_dma_served :: "(nat \<Rightarrow> nat \<Rightarrow> bool) \<Rightarrow> nat \<Rightarrow> nat \<Rightarrow> dma_channel \<Rightarrow> bool" where
  "m0_dma_served serves len 0 c = True"
| "m0_dma_served serves len (Suc n) c =
     (serves (bus_addr (m_tSourceAddress c)) len \<and> serves (bus_addr (m_tDestinationAddress c)) len
      \<and> m0_dma_served serves len n (m0_updateAddresses c))"

lemma m0_updateAddresses_fields [simp]:
  "transferMode (m0_updateAddresses c) = transferMode c" "ch_enable (m0_updateAddresses c) = ch_enable c"
  "ch_wait (m0_updateAddresses c) = ch_wait c" "ch_pending (m0_updateAddresses c) = ch_pending c"
  "ch_size (m0_updateAddresses c) = ch_size c" "m_tSize (m0_updateAddresses c) = m_tSize c"
  "interruptEnable (m0_updateAddresses c) = interruptEnable c" "sourceBytes (m0_updateAddresses c) = sourceBytes c"
  by (simp_all add: m0_updateAddresses_def)

lemma m0_dma_memory_size [simp]: "m0_dma_memory len n (c\<lparr>ch_size := k\<rparr>) m = m0_dma_memory len n c m"
proof (induction n arbitrary: c m)
  case (Suc n)
  have "m0_updateAddresses (c\<lparr>ch_size := k\<rparr>) = (m0_updateAddresses c)\<lparr>ch_size := k\<rparr>"
    by (simp add: m0_updateAddresses_def)
  then show ?case using Suc.IH by simp
qed simp

lemma m0_dma_served_size [simp]: "m0_dma_served sv len n (c\<lparr>ch_size := k\<rparr>) = m0_dma_served sv len n c"
proof (induction n arbitrary: c)
  case (Suc n)
  have "m0_updateAddresses (c\<lparr>ch_size := k\<rparr>) = (m0_updateAddresses c)\<lparr>ch_size := k\<rparr>"
    by (simp add: m0_updateAddresses_def)
  then show ?case using Suc.IH by simp
qed simp

lemma m0_block_accept:
  assumes "block_running n c"
  shows "m0_channel_signal r c = Inr (if n = 1 then channel_finish False ((m0_updateAddresses c)\<lparr>ch_size := 0\<rparr>)
                                   else (m0_updateAddresses c)\<lparr>ch_size := int (n - 1)\<rparr>)"
  using assms by (auto simp: block_running_def m0_channel_signal_def m0_channel_accept_def Let_def of_nat_diff)

text \<open>A forward copy of \<open>n\<close> units of \<open>len\<close> bytes from \<open>S\<close> to \<open>D\<close>.\<close>

definition m0_forward_copy :: "nat \<Rightarrow> nat \<Rightarrow> nat \<Rightarrow> nat \<Rightarrow> dma_channel \<Rightarrow> bool" where
  "m0_forward_copy len n S D c \<longleftrightarrow> sourceAutoIncrement c = Increment \<and> destinationAutoIncrement c = Increment
     \<and> m0_unit_bytes (sourceBytes c) = len \<and> m0_unit_bytes (destinationBytes c) = len
     \<and> unat (m_tSourceAddress c) = S \<and> unat (m_tDestinationAddress c) = D
     \<and> S + n * len < 2 ^ 31 \<and> D + n * len < 2 ^ 31"

lemma m0_forward_copy_step:
  assumes "m0_forward_copy len (Suc n) S D c"
  shows "m0_forward_copy len n (S + len) (D + len) (m0_updateAddresses c)"
proof -
  have "unat (a + of_nat k) = unat a + k" if "unat a + k < 2 ^ 31" for a :: u32 and k
    using that by (subst unat_word_ariths) (simp add: unat_of_nat)
  then show ?thesis
    using assms by (auto simp: m0_forward_copy_def m0_updateAddresses_def m0_step_address_def)
qed

lemma m0_forward_copy_memory:
  assumes "m0_forward_copy len n S D c" and "S + n * len \<le> D \<or> D + n * len \<le> S"
  shows "m0_dma_memory len n c m a = (if D \<le> a \<and> a < D + n * len then m (S + (a - D)) else m a)"
  using assms
proof (induction n arbitrary: S D c m)
  case (Suc n)
  have S: "bus_addr (m_tSourceAddress c) = S" and D: "bus_addr (m_tDestinationAddress c) = D"
    using Suc.prems(1) by (auto simp: m0_forward_copy_def bus_addr_small)
  let ?m = "put_bytes m D (get_bytes m S len)"
  have put: "?m x = (if D \<le> x \<and> x < D + len then m (S + (x - D)) else m x)" for x
    by (auto simp: put_bytes_def get_bytes_def)
  have "m0_dma_memory len (Suc n) c m a = m0_dma_memory len n (m0_updateAddresses c) ?m a"
    by (simp add: S D)
  also have "\<dots> = (if D + len \<le> a \<and> a < D + len + n * len then ?m (S + len + (a - (D + len))) else ?m a)"
    using Suc.prems(2) by (intro Suc.IH m0_forward_copy_step [OF Suc.prems(1)]) auto
  also have "\<dots> = (if D \<le> a \<and> a < D + Suc n * len then m (S + (a - D)) else m a)"
    unfolding put using Suc.prems(2) by auto
  finally show ?case .
qed auto

lemma m0_forward_copy_served:
  assumes "m0_forward_copy len n S D c" and "\<forall>k<n. sv (S + k * len) len \<and> sv (D + k * len) len"
  shows "m0_dma_served sv len n c"
  using assms
proof (induction n arbitrary: S D c)
  case (Suc n)
  have S: "bus_addr (m_tSourceAddress c) = S" and D: "bus_addr (m_tDestinationAddress c) = D"
    using Suc.prems(1) by (auto simp: m0_forward_copy_def bus_addr_small)
  have "\<forall>k<n. sv (S + len + k * len) len \<and> sv (D + len + k * len) len"
    using Suc.prems(2) by (auto simp: add.assoc dest: spec [of _ "Suc _"])
  then show ?case
    using Suc.IH [OF m0_forward_copy_step [OF Suc.prems(1)]] Suc.prems(2) [rule_format, of 0]
    by (simp add: S D)
qed simp

context byte_device
begin

lemma m0_dma_unit_block:
  assumes "inv b" and "block_running n (m0d_channels d ! i)"
    and "rw (m0d_regs d) (M0_DMA0SZ + m0_ch_ofs i)" and "len \<le> length buf" and "0 < len"
    and "serves (bus_addr (m_tSourceAddress (m0d_channels d ! i))) len"
    and "serves (bus_addr (m_tDestinationAddress (m0d_channels d ! i))) len"
  shows "\<exists>b' buf' c'. m0_channel_signal r (m0d_channels d ! i) = Inr c' \<and> inv b' \<and> length buf' = length buf
    \<and> view b' = put_bytes (view b) (bus_addr (m_tDestinationAddress (m0d_channels d ! i)))
        (get_bytes (view b) (bus_addr (m_tSourceAddress (m0d_channels d ! i))) len)
    \<and> m0_dma_unit transport i len r (b, d, buf) = Inr (b', d\<lparr>m0d_channels := (m0d_channels d)[i := c'],
        m0d_regs := put_reg (m0d_regs d) (M0_DMA0SZ + m0_ch_ofs i) (of_int (ch_size c')) False\<rparr>, buf')"
proof -
  let ?c = "m0d_channels d ! i"
  let ?rd = "\<lparr>command = TLM_READ_COMMAND, address = scast (m_tSourceAddress ?c), data = take len buf, response_ok = False\<rparr>"
  obtain c' where c': "m0_channel_signal r ?c = Inr c'" using m0_block_accept [OF assms(2)] by auto
  obtain b1 p1 d1 f1 where rd: "transport b ?rd 0 = Inr (b1, p1, d1, f1)" "inv b1" "view b1 = view b"
      "data p1 = get_bytes (view b) (bus_addr (m_tSourceAddress ?c)) len" "response_ok p1"
    using read_law [OF assms(1), of ?rd 0] assms(4,6) by (auto simp: bus_addr_def)
  let ?wr = "\<lparr>command = TLM_WRITE_COMMAND, address = scast (m_tDestinationAddress ?c), data = data p1,
      response_ok = response_ok p1\<rparr>"
  obtain b2 p2 d2 f2 where wr: "transport b1 ?wr 0 = Inr (b2, p2, d2, f2)" "inv b2" "data p2 = data p1"
      "view b2 = put_bytes (view b) (bus_addr (m_tDestinationAddress ?c)) (data p1)"
    using write_law [OF rd(2), of ?wr 0] assms(7) rd(3,4) by (auto simp: bus_addr_def)
  show ?thesis
    using rd wr c' assms(3,4) by (simp add: m0_dma_unit_def Let_def)
qed

lemma m0_dma_loop_block:
  assumes "inv b" and "i < length (m0d_channels d)" and "block_running n (m0d_channels d ! i)"
    and "rw (m0d_regs d) (M0_DMA0SZ + m0_ch_ofs i)" and "len \<le> length buf" and "0 < len"
    and "m0_dma_served serves len n (m0d_channels d ! i)" and "n \<le> length sched"
  shows "\<exists>b' d' buf'. m0_dma_loop transport i len sched (b, d, buf) = Some (Inr (b', d', buf')) \<and> inv b'
    \<and> view b' = m0_dma_memory len n (m0d_channels d ! i) (view b)
    \<and> (\<exists>c'. m0d_channels d' = (m0d_channels d)[i := channel_finish False c'] \<and> m_tSize c' = m_tSize (m0d_channels d ! i)
          \<and> interruptEnable c' = interruptEnable (m0d_channels d ! i))
    \<and> (\<forall>a. rw (m0d_regs d') a = rw (m0d_regs d) a) \<and> (\<forall>a. mask_of (m0d_regs d') a = mask_of (m0d_regs d) a)
    \<and> (\<forall>a. a \<noteq> M0_DMA0SZ + m0_ch_ofs i \<longrightarrow> reg_value (m0d_regs d') a = reg_value (m0d_regs d) a)"
  using assms
proof (induction n arbitrary: b d buf sched)
  case (Suc n)
  let ?c = "m0d_channels d ! i" and ?a = "M0_DMA0SZ + m0_ch_ofs i"
  obtain r rs where sched: "sched = r # rs" "n \<le> length rs" using Suc.prems(8) by (cases sched) auto
  obtain b1 buf1 c1 where st: "m0_channel_signal r ?c = Inr c1" "inv b1" "length buf1 = length buf"
      "view b1 = put_bytes (view b) (bus_addr (m_tDestinationAddress ?c))
        (get_bytes (view b) (bus_addr (m_tSourceAddress ?c)) len)"
      "m0_dma_unit transport i len r (b, d, buf) = Inr (b1, d\<lparr>m0d_channels := (m0d_channels d)[i := c1],
        m0d_regs := put_reg (m0d_regs d) ?a (of_int (ch_size c1)) False\<rparr>, buf1)"
    using m0_dma_unit_block [OF Suc.prems(1,3-6), of r] Suc.prems(7) by auto
  let ?d = "d\<lparr>m0d_channels := (m0d_channels d)[i := c1], m0d_regs := put_reg (m0d_regs d) ?a (of_int (ch_size c1)) False\<rparr>"
  have loop: "m0_dma_loop transport i len sched (b, d, buf) = m0_dma_loop transport i len rs (b1, ?d, buf1)"
    using Suc.prems(3) st(5) by (subst m0_dma_loop.simps) (simp add: sched block_running_def)
  show ?case
  proof (cases "n = 0")
    case True
    then have c1: "c1 = channel_finish False ((m0_updateAddresses ?c)\<lparr>ch_size := 0\<rparr>)"
      using st(1) m0_block_accept [OF Suc.prems(3)] by simp
    have "m0_dma_loop transport i len rs (b1, ?d, buf1) = Some (Inr (b1, ?d, buf1))"
      using Suc.prems(2) by (subst m0_dma_loop.simps) (simp add: c1 channel_finish_def)
    then show ?thesis
      using loop st(2,4) True c1
      by (intro exI [of _ b1] exI [of _ ?d] exI [of _ buf1]) (auto intro!: exI [of _ "(m0_updateAddresses ?c)\<lparr>ch_size := 0\<rparr>"])
  next
    case False
    then have c1: "c1 = (m0_updateAddresses ?c)\<lparr>ch_size := int n\<rparr>"
      using st(1) m0_block_accept [OF Suc.prems(3)] by simp
    have ch: "m0d_channels ?d ! i = c1" using Suc.prems(2) by simp
    have "block_running n (m0d_channels ?d ! i)"
      using Suc.prems(3) False unfolding ch by (simp add: c1 block_running_def)
    moreover have "m0_dma_served serves len n (m0d_channels ?d ! i)"
      using Suc.prems(7) unfolding ch by (simp add: c1)
    moreover have "m0_dma_memory len n (m0d_channels ?d ! i) (view b1) = m0_dma_memory len (Suc n) ?c (view b)"
      unfolding ch by (simp add: c1 st(4))
    moreover have "m_tSize c1 = m_tSize ?c" "interruptEnable c1 = interruptEnable ?c" by (simp_all add: c1)
    ultimately show ?thesis
      unfolding loop using Suc.IH [OF st(2), of ?d buf1 rs] Suc.prems(2,4-6) st(3) sched(2) ch by simp
  qed
qed (simp add: block_running_def)

lemma m0_dma_serve_block:
  fixes d :: m0_dma and i :: nat
  defines "c \<equiv> m0d_channels d ! i"
  assumes "inv b" and "i < length (m0d_channels d)" and "\<forall>j<i. \<not> ch_pending (m0d_channels d ! j)"
    and "block_running n c" and "len = m0_unit_bytes (sourceBytes c)" and "length buf = 4"
    and "rw (m0d_regs d) (M0_DMA0CTL + m0_ch_ofs i)" and "rw (m0d_regs d) (M0_DMA0SZ + m0_ch_ofs i)"
    and "mask_of (m0d_regs d) (M0_DMA0CTL + m0_ch_ofs i) = - 1"
    and "m0_dma_served serves len n c" and "n \<le> length sched"
  shows "\<exists>b' d' buf'. m0_dma_serve transport sched (b, d, buf) = Some (Inr ((b', d', buf'), interruptEnable c))
    \<and> inv b' \<and> view b' = m0_dma_memory len n c (view b) \<and> \<not> m0d_busStall d'
    \<and> \<not> ch_pending (m0d_channels d' ! i) \<and> \<not> ch_enable (m0d_channels d' ! i) \<and> interruptFlag (m0d_channels d' ! i)
    \<and> ch_size (m0d_channels d' ! i) = m_tSize c
    \<and> reg_value (m0d_regs d') (M0_DMA0CTL + m0_ch_ofs i) AND DMAREQ = 0
    \<and> reg_value (m0d_regs d') (M0_DMA0CTL + m0_ch_ofs i) AND DMAEN = 0"
proof -
  let ?ctl = "M0_DMA0CTL + m0_ch_ofs i" and ?sz = "M0_DMA0SZ + m0_ch_ofs i"
  let ?d = "d\<lparr>m0d_regs := put_reg (m0d_regs d) ?ctl (reg_value (m0d_regs d) ?ctl AND NOT DMAREQ) False, m0d_busStall := True\<rparr>"
  have first: "first_index ch_pending (m0d_channels d) = Some i"
    using assms(3-5) by (intro first_index_Some) (auto simp: block_running_def c_def)
  have len: "0 < len" "len \<le> 4" using assms(6) by (auto simp: m0_unit_bytes_def)
  obtain b' d' buf' c' where loop: "m0_dma_loop transport i len sched (b, ?d, buf) = Some (Inr (b', d', buf'))"
      "inv b'" "view b' = m0_dma_memory len n c (view b)" "m0d_channels d' = (m0d_channels d)[i := channel_finish False c']"
      "m_tSize c' = m_tSize c" "interruptEnable c' = interruptEnable c"
      "\<forall>a. rw (m0d_regs d') a = rw (m0d_regs ?d) a" "\<forall>a. mask_of (m0d_regs d') a = mask_of (m0d_regs ?d) a"
      "\<forall>a. a \<noteq> ?sz \<longrightarrow> reg_value (m0d_regs d') a = reg_value (m0d_regs ?d) a"
    using m0_dma_loop_block [of b i ?d n len buf sched] assms(2-12) len by (auto simp: c_def)
  have ch: "m0d_channels d' ! i = channel_finish False c'" using loop(4) assms(3) by simp
  have "?ctl \<noteq> ?sz" by (simp add: m0_dma_offsets)
  then have ctl: "reg_value (m0d_regs d') ?ctl = reg_value (m0d_regs d) ?ctl AND NOT DMAREQ"
    using loop(9) assms(8,10) by simp
  have bits: "(v AND NOT DMAREQ AND NOT DMAEN) AND DMAREQ = 0" "(v AND NOT DMAREQ AND NOT DMAEN) AND DMAEN = 0" for v :: u32
    by (simp_all add: and.assoc and.left_commute [of _ DMAREQ] and.commute [of _ DMAREQ] and.commute [of _ DMAEN] flip: and.assoc)
      (auto simp: bit_eq_iff bit_simps)
  let ?d2 = "d'\<lparr>m0d_regs := put_reg (m0d_regs d') ?ctl (reg_value (m0d_regs d') ?ctl AND NOT DMAEN) False, m0d_busStall := False\<rparr>"
  have "m0_dma_serve transport sched (b, d, buf) = Some (Inr ((b', ?d2, buf'), interruptEnable c))"
    using loop(1,6,7) assms(8) ch first
    by (simp add: m0_dma_serve_def assms(6) c_def channel_finish_def)
  moreover have "reg_value (m0d_regs ?d2) ?ctl = reg_value (m0d_regs d) ?ctl AND NOT DMAREQ AND NOT DMAEN"
    using loop(7,8) assms(8,10) by (simp add: ctl and.assoc)
  ultimately show ?thesis
    using loop(2,3,5) ch bits by (intro exI [of _ b'] exI [of _ ?d2] exI [of _ buf']) (simp add: channel_finish_def)
qed

end

section \<open>Properties\<close>

definition m0_dma_shape :: "register_file \<Rightarrow> bool" where
  "m0_dma_shape rf \<longleftrightarrow> rw rf M0_DMAIV
     \<and> (\<forall>i<6. rw rf (M0_DMA0CTL + m0_ch_ofs i) \<and> rw rf (M0_DMA0SZ + m0_ch_ofs i)
     \<and> mask_of rf (M0_DMA0CTL + m0_ch_ofs i) = - 1)"

lemma m0_dma_shape_new: "m0_dma_shape m0_Dma_regs"
proof -
  have "list_all (\<lambda>i. rw m0_Dma_regs (M0_DMA0CTL + m0_ch_ofs i) \<and> rw m0_Dma_regs (M0_DMA0SZ + m0_ch_ofs i)
     \<and> mask_of m0_Dma_regs (M0_DMA0CTL + m0_ch_ofs i) = - 1) [0..<6]"
    by (simp add: m0_Dma_regs_def NCHANNELS_def upt_rec m0_dma_offsets m0_ch_ofs_def m0_channel_regs_def addRegister_def
        Let_def rw_def mask_of_def reg_at_def mk_register_def)
  moreover have "rw m0_Dma_regs M0_DMAIV"
    by (simp add: m0_Dma_regs_def NCHANNELS_def upt_rec m0_dma_offsets m0_ch_ofs_def m0_channel_regs_def addRegister_def
        Let_def rw_def reg_at_def mk_register_def)
  ultimately show ?thesis by (simp add: m0_dma_shape_def list_all_iff)
qed

lemma m0_block_start:
  assumes "transferMode c = Block" and "ch_enable c" and "m_tSize c = int n" and "0 < n"
  shows "\<exists>c1. channel_start c = Inr c1 \<and> block_running n c1 \<and> sourceBytes c1 = sourceBytes c
    \<and> interruptEnable c1 = interruptEnable c \<and> m_tSize c1 = m_tSize c
    \<and> (sourceAutoIncrement c = Increment \<and> destinationAutoIncrement c = Increment
        \<and> sourceBytes c = destinationBytes c \<and> len = m0_unit_bytes (sourceBytes c)
        \<and> S = unat (sourceAddress c) \<and> D = unat (destinationAddress c) \<and> S + n * len < 2 ^ 31 \<and> D + n * len < 2 ^ 31
       \<longrightarrow> m0_forward_copy len n S D c1)"
  using assms by (auto simp: channel_start_def block_running_def m0_forward_copy_def load_addresses_def)

text \<open>A block transfer over the memory system of the board copies the block, whatever the
  word size: the proof is the one of \<open>dma_block_copies\<close>.\<close>

lemma m0_dma_block_copies:
  fixes d :: m0_dma and i n len :: nat and pt and period and ws
  defines "c \<equiv> m0d_channels d ! i" and "S \<equiv> unat (sourceAddress (m0d_channels d ! i))"
    and "D \<equiv> unat (destinationAddress (m0d_channels d ! i))"
    and "bt \<equiv> cm0_board_bus pt period ws"
    and "view \<equiv> cm0_board_view"
  assumes "cm0_board_inv b"
    and "i < 6" and "length (m0d_channels d) = 6" and "\<forall>j<i. \<not> ch_pending (m0d_channels d ! j)"
    and "m0_dma_shape (m0d_regs d)" and "length buf = 4" and "n \<le> length sched"
    and "transferMode c = Block" and "ch_enable c" and "m_tSize c = int n" and "0 < n"
    and "sourceAutoIncrement c = Increment" and "destinationAutoIncrement c = Increment"
    and "sourceBytes c = destinationBytes c" and "len = m0_unit_bytes (sourceBytes c)"
    and "S + n * len < 2 ^ 31" and "D + n * len < 2 ^ 31" and "S + n * len \<le> D \<or> D + n * len \<le> S"
    and "\<forall>k<n. bus_serves (word_size cortex_m0) cm0_routing m0_is_memory (S + k * len) len
              \<and> bus_serves (word_size cortex_m0) cm0_routing m0_is_memory (D + k * len) len"
  shows "\<exists>c1 b' d' buf'. channel_start c = Inr c1
    \<and> m0_dma_serve bt sched (b, d\<lparr>m0d_channels := (m0d_channels d)[i := c1]\<rparr>, buf)
        = Some (Inr ((b', d', buf'), interruptEnable c))
    \<and> (\<forall>a. view b' a = (if D \<le> a \<and> a < D + n * len then view b (S + (a - D)) else view b a))
    \<and> \<not> ch_pending (m0d_channels d' ! i) \<and> \<not> ch_enable (m0d_channels d' ! i) \<and> interruptFlag (m0d_channels d' ! i)
    \<and> ch_size (m0d_channels d' ! i) = int n \<and> \<not> m0d_busStall d'
    \<and> reg_value (m0d_regs d') (M0_DMA0CTL + m0_ch_ofs i) AND DMAREQ = 0
    \<and> reg_value (m0d_regs d') (M0_DMA0CTL + m0_ch_ofs i) AND DMAEN = 0"
proof -
  obtain c1 where c1: "channel_start c = Inr c1" "block_running n c1" "sourceBytes c1 = sourceBytes c"
      "interruptEnable c1 = interruptEnable c" "m_tSize c1 = m_tSize c" "m0_forward_copy len n S D c1"
    using m0_block_start [OF assms(13-16), of len S D] assms(17-22) by (auto simp: S_def D_def c_def)
  let ?d = "d\<lparr>m0d_channels := (m0d_channels d)[i := c1]\<rparr>"
  have ch: "m0d_channels ?d ! i = c1" using assms(7,8) by simp
  have low: "\<forall>j<i. \<not> ch_pending (m0d_channels ?d ! j)" using assms(9) by simp
  have regs: "rw (m0d_regs ?d) (M0_DMA0CTL + m0_ch_ofs i)" "rw (m0d_regs ?d) (M0_DMA0SZ + m0_ch_ofs i)"
      "mask_of (m0d_regs ?d) (M0_DMA0CTL + m0_ch_ofs i) = - 1"
    using assms(7,10) by (simp_all add: m0_dma_shape_def)
  have served: "m0_dma_served (bus_serves (word_size cortex_m0) cm0_routing m0_is_memory) len n c1"
    using m0_forward_copy_served [OF c1(6), of "bus_serves (word_size cortex_m0) cm0_routing m0_is_memory"] assms(24) by blast
  have "len = m0_unit_bytes (sourceBytes c1)" using assms(20) c1(3) by simp
  then obtain b' d' buf' where r: "m0_dma_serve bt sched (b, ?d, buf) = Some (Inr ((b', d', buf'), interruptEnable c1))"
      "view b' = m0_dma_memory len n c1 (view b)" "\<not> m0d_busStall d'"
      "\<not> ch_pending (m0d_channels d' ! i) \<and> \<not> ch_enable (m0d_channels d' ! i) \<and> interruptFlag (m0d_channels d' ! i)"
      "ch_size (m0d_channels d' ! i) = m_tSize c1"
      "reg_value (m0d_regs d') (M0_DMA0CTL + m0_ch_ofs i) AND DMAREQ = 0"
      "reg_value (m0d_regs d') (M0_DMA0CTL + m0_ch_ofs i) AND DMAEN = 0"
    using cm0_bus.bus.m0_dma_serve_block [of b i ?d n len buf sched pt period ws] assms(6-8,11,12) low regs served c1(2)
    unfolding ch bt_def view_def by auto
  then show ?thesis
    using c1(1,4,5) assms(15) m0_forward_copy_memory [OF c1(6) assms(23)]
    by (intro exI [of _ c1] exI [of _ b'] exI [of _ d'] exI [of _ buf']) auto
qed

section \<open>The interrupt handshake\<close>

definition m0_ctl :: "nat \<Rightarrow> nat" where
  "m0_ctl i = M0_DMA0CTL + m0_ch_ofs i"

lemma m0_ctl_neq [simp]: "m0_ctl i \<noteq> m0_ctl j \<longleftrightarrow> i \<noteq> j" "i < 6 \<Longrightarrow> m0_ctl i \<noteq> M0_DMAIV" "i < 6 \<Longrightarrow> M0_DMAIV \<noteq> m0_ctl i"
  by (auto simp: m0_ctl_def m0_ch_ofs_def m0_dma_offsets)

lemma m0_show_flags_shape:
  assumes "m0_dma_shape rf" and "i + length cs \<le> 6"
  shows "\<exists>rf'. m0_show_flags i cs rf = Inr rf' \<and> m0_dma_shape rf'
    \<and> reg_value rf' M0_DMAIV = reg_value rf M0_DMAIV
    \<and> (\<forall>j<6. reg_value rf' (m0_ctl j)
          = (if i \<le> j \<and> j < i + length cs
             then (if interruptFlag (cs ! (j - i)) then reg_value rf (m0_ctl j) OR DMAIFG
                   else reg_value rf (m0_ctl j) AND NOT DMAIFG)
             else reg_value rf (m0_ctl j)))"
  using assms
proof (induction cs arbitrary: i rf)
  case (Cons c cs)
  have i: "i < 6" "Suc i + length cs \<le> 6" using Cons.prems(2) by simp_all
  have ctl: "rw rf (m0_ctl i)" "mask_of rf (m0_ctl i) = - 1"
    using Cons.prems(1) i(1) by (simp_all add: m0_dma_shape_def m0_ctl_def)
  let ?v = "if interruptFlag c then reg_value rf (m0_ctl i) OR DMAIFG else reg_value rf (m0_ctl i) AND NOT DMAIFG"
  define rf1 where "rf1 = put_reg rf (m0_ctl i) ?v False"
  have step: "m0_show_flags i (c # cs) rf = m0_show_flags (Suc i) cs rf1"
    using ctl(1) by (simp add: m0_ctl_def rf1_def)
  have shape: "m0_dma_shape rf1" using Cons.prems(1) by (simp add: m0_dma_shape_def rf1_def)
  have val: "reg_value rf1 (m0_ctl j) = (if j = i then ?v else reg_value rf (m0_ctl j))" for j
    using ctl by (cases "j = i") (simp_all add: rf1_def)
  obtain rf' where rf': "m0_show_flags (Suc i) cs rf1 = Inr rf'" "m0_dma_shape rf'"
      "reg_value rf' M0_DMAIV = reg_value rf M0_DMAIV"
      "\<forall>j<6. reg_value rf' (m0_ctl j)
          = (if Suc i \<le> j \<and> j < Suc i + length cs
             then (if interruptFlag (cs ! (j - Suc i)) then reg_value rf1 (m0_ctl j) OR DMAIFG
                   else reg_value rf1 (m0_ctl j) AND NOT DMAIFG)
             else reg_value rf1 (m0_ctl j))"
    using Cons.IH [OF shape i(2)] i(1) by (auto simp: rf1_def)
  have "reg_value rf' (m0_ctl j)
      = (if i \<le> j \<and> j < i + length (c # cs)
         then (if interruptFlag ((c # cs) ! (j - i)) then reg_value rf (m0_ctl j) OR DMAIFG
               else reg_value rf (m0_ctl j) AND NOT DMAIFG)
         else reg_value rf (m0_ctl j))" if j: "j < 6" for j
  proof (cases "j = i")
    case False
    then have "(c # cs) ! (j - i) = cs ! (j - Suc i)" if "i \<le> j" using that by (simp add: nth_Cons')
    then show ?thesis using rf'(4) [rule_format, OF j] False by (auto simp: val)
  qed (use rf'(4) [rule_format, OF j] in \<open>simp add: val\<close>)
  then show ?case unfolding step using rf'(1-3) by blast
qed auto

definition m0_flagged :: "dma_channel list \<Rightarrow> nat" where
  "m0_flagged cs = length (filter interruptFlag cs)"

lemma first_index_None: "first_index P xs = None \<longleftrightarrow> (\<forall>x\<in>set xs. \<not> P x)"
  by (induction xs) auto

lemma first_index_SomeD: "first_index P xs = Some i \<Longrightarrow> i < length xs \<and> P (xs ! i)"
  by (induction xs arbitrary: i) (auto split: if_splits)

lemma m0_flagged_clear:
  "i < length cs \<Longrightarrow> interruptFlag (cs ! i)
    \<Longrightarrow> Suc (m0_flagged (cs[i := (cs ! i)\<lparr>interruptFlag := False\<rparr>])) = m0_flagged cs"
proof (induction cs arbitrary: i)
  case (Cons c cs)
  then show ?case by (cases i) (auto simp: m0_flagged_def)
qed simp

text \<open>Once the clearing of flags is requested, the updates clear all of them.\<close>

lemma m0_flag_updates_clear:
  assumes "m0_dma_shape (m0d_regs d)" and "length (m0d_channels d) = 6" and "m0d_clearIfg d"
    and "m0_flagged (m0d_channels d) < n"
  shows "\<exists>d'. m0_flag_updates n d = Some (Inr (d', False)) \<and> (\<forall>c\<in>set (m0d_channels d'). \<not> interruptFlag c)
    \<and> length (m0d_channels d') = 6 \<and> m0d_irq d' = m0d_irq d \<and> m0d_setIrq d' = m0d_setIrq d \<and> \<not> m0d_clearIfg d'
    \<and> reg_value (m0d_regs d') M0_DMAIV = 0 \<and> (\<forall>j<6. reg_value (m0d_regs d') (m0_ctl j) AND DMAIFG = 0)"
  using assms
proof (induction n arbitrary: d)
  case (Suc n)
  obtain rf where rf: "m0_show_flags 0 (m0d_channels d) (m0d_regs d) = Inr rf" "m0_dma_shape rf"
      "\<forall>j<6. reg_value rf (m0_ctl j)
          = (if interruptFlag (m0d_channels d ! j) then reg_value (m0d_regs d) (m0_ctl j) OR DMAIFG
             else reg_value (m0d_regs d) (m0_ctl j) AND NOT DMAIFG)"
    using m0_show_flags_shape [OF Suc.prems(1), of 0 "m0d_channels d"] Suc.prems(2) by auto
  show ?case
  proof (cases "first_index interruptFlag (m0d_channels d)")
    case None
    have iv: "rw rf M0_DMAIV" using rf(2) by (simp add: m0_dma_shape_def)
    have clear: "(v AND NOT DMAIFG) AND DMAIFG = 0" for v :: u32 by (simp add: and.assoc)
    have quiet: "\<forall>c\<in>set (m0d_channels d). \<not> interruptFlag c" using None by (simp add: first_index_None)
    have "\<not> interruptFlag (m0d_channels d ! j)" if "j < 6" for j
      using quiet that Suc.prems(2) by (simp add: nth_mem)
    then show ?thesis
      using None rf Suc.prems(2) iv quiet clear by (simp add: m0_interruptUpdate_def)
  next
    case (Some i)
    note i = first_index_SomeD [OF Some]
    let ?cs = "(m0d_channels d)[i := (m0d_channels d ! i)\<lparr>interruptFlag := False\<rparr>]"
    let ?d = "d\<lparr>m0d_regs := rf, m0d_channels := ?cs\<rparr>"
    have "m0_interruptUpdate d = Inr (?d, True, False)"
      using Some rf(1) Suc.prems(3) by (simp add: m0_interruptUpdate_def)
    moreover have "m0_flagged (m0d_channels ?d) < n"
      using m0_flagged_clear [of i "m0d_channels d"] i Suc.prems(4) by simp
    ultimately show ?thesis
      using Suc.IH [of ?d] rf(2) Suc.prems(2,3) by simp
  qed
qed simp


definition m0_dma_example :: m0_dma where
  "m0_dma_example = (m0_Dma_new False False)\<lparr>m0d_channels := replicate 6
     ((DmaChannel_new False)\<lparr>interruptFlag := True, interruptEnable := True\<rparr>)\<rparr>"


text \<open>A flagged channel whose interrupt is not enabled keeps the channels after it from
  requesting theirs.\<close>

lemma m0_dma_disabled_channel_hides:
  assumes "m0_dma_shape (m0d_regs d)" and "length (m0d_channels d) = 6" and "\<not> m0d_clearIfg d" and "\<not> m0d_setIrq d"
    and "i < 6" and "interruptFlag (m0d_channels d ! i)" and "\<forall>j<i. \<not> interruptFlag (m0d_channels d ! j)"
    and "\<not> interruptEnable (m0d_channels d ! i)"
  shows "\<exists>d1. m0_interruptUpdate d = Inr (d1, False, False) \<and> \<not> m0d_setIrq d1"
proof -
  obtain rf where rf: "m0_show_flags 0 (m0d_channels d) (m0d_regs d) = Inr rf" "m0_dma_shape rf"
    using m0_show_flags_shape [OF assms(1), of 0 "m0d_channels d"] assms(2) by auto
  have "first_index interruptFlag (m0d_channels d) = Some i"
    using assms(2,5-7) by (intro first_index_Some) auto
  then show ?thesis
    using rf assms(3,4,8) by (simp add: m0_interruptUpdate_def m0_dma_shape_def)
qed

end
