(* ===== verification/Debugger.thy ===== *)
theory Debugger
  imports Msp430_Cpu Cm0_Cpu Cm0_Memory
begin

unbundle bit_operations_syntax

text \<open>
  The debugger's path into the simulation: \<open>utilities/SimulationController\<close>, the interface
  \<open>mcu/Microcontroller.hpp\<close> it calls, and the two microcontrollers behind it. A
  microcontroller is the record of its virtual functions; \<open>msp430_mcu\<close> and \<open>cm0_mcu\<close> are
  the two instances. Memory is accessed by \<open>Bus::transport_dbg\<close>, which takes no time and
  admits any length within one target; the locale \<open>debug_bus\<close> states what it promises.
\<close>

section \<open>Debug transports of the slaves\<close>

type_synonym 's dbg_transport = "'s \<Rightarrow> payload \<Rightarrow> ('s \<times> payload \<times> nat) result"

definition lift_dbg :: "('s \<Rightarrow> 't) \<Rightarrow> ('s \<times> payload \<times> nat) result \<Rightarrow> ('t \<times> payload \<times> nat) result" where
  "lift_dbg f r = bind_r r (\<lambda>(s', p', n). Inr (f s', p', n))"

definition m0_slave_dbg :: "(m0_slave_id \<Rightarrow> 'p dbg_transport) \<Rightarrow> nat \<Rightarrow> 'p m0_slave dbg_transport" where
  "m0_slave_dbg pd i s tp =
     (case s of
        Nvm mem \<Rightarrow> lift_dbg Nvm (GenericMemory_transport_dbg mem tp)
      | Ram mem \<Rightarrow> lift_dbg Ram (GenericMemory_transport_dbg mem tp)
      | M0_peripheral p \<Rightarrow> lift_dbg M0_peripheral (pd (m0_port_id i) p tp))"

definition slave_dbg :: "(slave_id \<Rightarrow> 'p dbg_transport) \<Rightarrow> nat \<Rightarrow> 'p slave dbg_transport" where
  "slave_dbg pd i s tp =
     (case s of
        Cached cm \<Rightarrow> lift_dbg Cached (Cache_transport_dbg GenericMemory_transport_dbg cm tp)
      | Memory mem \<Rightarrow> lift_dbg Memory (GenericMemory_transport_dbg mem tp)
      | Peripheral p \<Rightarrow> lift_dbg Peripheral (pd (port_id i) p tp))"

section \<open>Microcontrollers\<close>

record 'm microcontroller =
  mcu_stall :: "('m, unit) sim"
  mcu_unstall :: "('m, unit) sim"
  mcu_isStalled :: "('m, bool) sim"
  mcu_step :: "('m, unit) sim"
  mcu_reset :: "('m, unit) sim"
  mcu_kill :: "('m, unit) sim"
  mcu_dbgReadReg :: "nat \<Rightarrow> ('m, u32) sim"
  mcu_dbgWriteReg :: "nat \<Rightarrow> u32 \<Rightarrow> ('m, unit) sim"
  mcu_dbgReadMem :: "u8 list \<Rightarrow> u64 \<Rightarrow> ('m, u8 list \<times> bool) sim"
  mcu_dbgWriteMem :: "u8 list \<Rightarrow> u64 \<Rightarrow> ('m, bool) sim"
  mcu_insertBreakpoint :: "u32 \<Rightarrow> ('m, unit) sim"
  mcu_removeBreakpoint :: "u32 \<Rightarrow> ('m, unit) sim"
  mcu_pc_regnum :: u32
  mcu_n_regs :: u32

text \<open>\<open>sc_stop\<close> ends the simulation.\<close>

definition Microcontroller_kill :: "('m, unit) sim" where
  "Microcontroller_kill = fail_s Exit_success"

text \<open>\<open>out\<close> is what the caller's buffer holds, \<open>len\<close> its length.\<close>

definition dbgReadMem :: "'b dbg_transport \<Rightarrow> u8 list \<Rightarrow> u64 \<Rightarrow> 'b \<Rightarrow> ((u8 list \<times> bool) \<times> 'b) result" where
  "dbgReadMem bt out addr b =
     bind_r (bt b \<lparr>command = TLM_READ_COMMAND, address = addr, data = out, response_ok = False\<rparr>)
       (\<lambda>(b', p, n). Inr ((data p, n \<noteq> 0), b'))"

definition dbgWriteMem :: "'b dbg_transport \<Rightarrow> u8 list \<Rightarrow> u64 \<Rightarrow> 'b \<Rightarrow> (bool \<times> 'b) result" where
  "dbgWriteMem bt src addr b =
     bind_r (bt b \<lparr>command = TLM_WRITE_COMMAND, address = addr, data = src, response_ok = False\<rparr>)
       (\<lambda>(b', p, n). Inr (n \<noteq> 0, b'))"

text \<open>An access to the bus is lifted to the state of the core that holds it.\<close>

definition on_bus :: "('m \<Rightarrow> 'b) \<Rightarrow> ('b \<Rightarrow> 'm \<Rightarrow> 'm) \<Rightarrow> ('b \<Rightarrow> ('a \<times> 'b) result) \<Rightarrow> ('m, 'a) sim" where
  "on_bus g p f s = bind_r (f (g s)) (\<lambda>(x, b). Inr (x, p b s))"

definition cpu_isStalled :: "('s, bool) cpu_op" where
  "cpu_isStalled = get (\<lambda>s. \<not> m_run s)"

definition msp430_mcu :: "'s dbg_transport \<Rightarrow> 's cpu microcontroller" where
  "msp430_mcu bd =
     \<lparr>mcu_stall = cpu_stall, mcu_unstall = cpu_unstall, mcu_isStalled = cpu_isStalled,
      mcu_step = cpu_single_step, mcu_reset = fail_s Exit_success, mcu_kill = Microcontroller_kill,
      mcu_dbgReadReg = (\<lambda>addr. bind_s (dbg_readReg addr) (\<lambda>v. return_s (ucast v))),
      mcu_dbgWriteReg = (\<lambda>addr val. dbg_writeReg addr (ucast val)),
      mcu_dbgReadMem = (\<lambda>out addr. on_bus bus_state (\<lambda>b s. s\<lparr>bus_state := b\<rparr>) (dbgReadMem bd out addr)),
      mcu_dbgWriteMem = (\<lambda>src addr. on_bus bus_state (\<lambda>b s. s\<lparr>bus_state := b\<rparr>) (dbgWriteMem bd src addr)),
      mcu_insertBreakpoint = insertBreakpoint, mcu_removeBreakpoint = removeBreakpoint,
      mcu_pc_regnum = 0, mcu_n_regs = 16\<rparr>"

definition cm0_mcu :: "'s dbg_transport \<Rightarrow> 's m0_cpu microcontroller" where
  "cm0_mcu bd =
     \<lparr>mcu_stall = m0_stall, mcu_unstall = m0_unstall, mcu_isStalled = m0_isStalled,
      mcu_step = m0_single_step, mcu_reset = fail_s Exit_success, mcu_kill = Microcontroller_kill,
      mcu_dbgReadReg = m0_dbg_readReg, mcu_dbgWriteReg = m0_dbg_writeReg,
      mcu_dbgReadMem = (\<lambda>out addr. on_bus m0_bus (\<lambda>b s. s\<lparr>m0_bus := b\<rparr>) (dbgReadMem bd out addr)),
      mcu_dbgWriteMem = (\<lambda>src addr. on_bus m0_bus (\<lambda>b s. s\<lparr>m0_bus := b\<rparr>) (dbgWriteMem bd src addr)),
      mcu_insertBreakpoint = m0_insertBreakpoint, mcu_removeBreakpoint = m0_removeBreakpoint,
      mcu_pc_regnum = 15, mcu_n_regs = 16\<rparr>"

section \<open>The simulation controller\<close>

record 'm sim_controller =
  m_mcu :: 'm
  m_stopServer :: bool
  m_isServerRunning :: bool

definition SimulationController :: "'m \<Rightarrow> 'm sim_controller" where
  "SimulationController mcu = \<lparr>m_mcu = mcu, m_stopServer = False, m_isServerRunning = False\<rparr>"

definition on_mcu :: "('m, 'a) sim \<Rightarrow> ('m sim_controller, 'a) sim" where
  "on_mcu f s = bind_r (f (m_mcu s)) (\<lambda>(x, m). Inr (x, s\<lparr>m_mcu := m\<rparr>))"

definition ctl_kill :: "'m microcontroller \<Rightarrow> ('m sim_controller, unit) sim" where
  "ctl_kill mcu = do_all [on_mcu (mcu_unstall mcu), on_mcu (mcu_kill mcu)]"

definition ctl_reset :: "'m microcontroller \<Rightarrow> ('m sim_controller, unit) sim" where
  "ctl_reset mcu = on_mcu (mcu_reset mcu)"

definition ctl_stall :: "'m microcontroller \<Rightarrow> ('m sim_controller, unit) sim" where
  "ctl_stall mcu = on_mcu (mcu_stall mcu)"

definition ctl_unstall :: "'m microcontroller \<Rightarrow> ('m sim_controller, unit) sim" where
  "ctl_unstall mcu = on_mcu (mcu_unstall mcu)"

definition ctl_isStalled :: "'m microcontroller \<Rightarrow> ('m sim_controller, bool) sim" where
  "ctl_isStalled mcu = on_mcu (mcu_isStalled mcu)"

definition ctl_step :: "'m microcontroller \<Rightarrow> ('m sim_controller, unit) sim" where
  "ctl_step mcu = on_mcu (mcu_step mcu)"

definition ctl_insertBreakpoint :: "'m microcontroller \<Rightarrow> u32 \<Rightarrow> ('m sim_controller, unit) sim" where
  "ctl_insertBreakpoint mcu addr = on_mcu (mcu_insertBreakpoint mcu addr)"

definition ctl_removeBreakpoint :: "'m microcontroller \<Rightarrow> u32 \<Rightarrow> ('m sim_controller, unit) sim" where
  "ctl_removeBreakpoint mcu addr = on_mcu (mcu_removeBreakpoint mcu addr)"

definition ctl_readReg :: "target \<Rightarrow> 'm microcontroller \<Rightarrow> nat \<Rightarrow> ('m sim_controller, u32) sim" where
  "ctl_readReg t mcu num = bind_s (on_mcu (mcu_dbgReadReg mcu num)) (\<lambda>v. return_s (ttohl t v))"

text \<open>\<open>junk\<close> is the part of \<open>htotl\<close>'s buffer that is not written on a 16-bit target.\<close>

definition ctl_writeReg :: "target \<Rightarrow> u16 \<Rightarrow> 'm microcontroller \<Rightarrow> nat \<Rightarrow> u32 \<Rightarrow> ('m sim_controller, unit) sim" where
  "ctl_writeReg t junk mcu num val = on_mcu (mcu_dbgWriteReg mcu num (htotl t junk val))"

definition ctl_readMem :: "'m microcontroller \<Rightarrow> u8 list \<Rightarrow> u32 \<Rightarrow> ('m sim_controller, u8 list \<times> bool) sim" where
  "ctl_readMem mcu out addr = on_mcu (mcu_dbgReadMem mcu out (ucast addr))"

definition ctl_writeMem :: "'m microcontroller \<Rightarrow> u8 list \<Rightarrow> u32 \<Rightarrow> ('m sim_controller, bool) sim" where
  "ctl_writeMem mcu src addr = on_mcu (mcu_dbgWriteMem mcu src (ucast addr))"

definition ctl_wordSize :: "target \<Rightarrow> u32" where
  "ctl_wordSize t = of_nat (word_size t)"

definition ctl_stopServer :: "('m sim_controller, unit) sim" where
  "ctl_stopServer = modify_s (\<lambda>s. s\<lparr>m_stopServer := True\<rparr>)"

definition ctl_setServerRunning :: "bool \<Rightarrow> ('m sim_controller, unit) sim" where
  "ctl_setServerRunning status = modify_s (\<lambda>s. s\<lparr>m_isServerRunning := status\<rparr>)"

section \<open>Debug accesses over the bus\<close>

locale debug_bus = bus_devices t rt mem dt dview dinv
  for t :: target and rt and mem and dt :: "nat \<Rightarrow> 'd transport" and dview and dinv +
  fixes ddbg :: "nat \<Rightarrow> 'd dbg_transport"
  assumes dbg_read: "i < length rt \<Longrightarrow> mem i \<Longrightarrow> dinv i d \<Longrightarrow> command p = TLM_READ_COMMAND
      \<Longrightarrow> unat (address p) + length (data p) \<le> port_size rt i
      \<Longrightarrow> \<exists>p'. ddbg i d p = Inr (d, p', length (data p))
            \<and> data p' = get_bytes (dview i d) (unat (address p)) (length (data p))"
    and dbg_write: "i < length rt \<Longrightarrow> mem i \<Longrightarrow> dinv i d \<Longrightarrow> command p = TLM_WRITE_COMMAND
      \<Longrightarrow> unat (address p) + length (data p) \<le> port_size rt i
      \<Longrightarrow> \<exists>d' p'. ddbg i d p = Inr (d', p', length (data p)) \<and> dinv i d'
            \<and> dview i d' = put_bytes (dview i d) (unat (address p)) (data p)"
begin

lemma dbg_routed:
  assumes "bus_inv rt mem dinv (b, ds)" and "i < length rt" and "unat (fst (rt ! i)) \<le> unat (a :: u32)"
    and "unat a - unat (fst (rt ! i)) + length buf \<le> port_size rt i" and "buf \<noteq> []"
  shows "Bus_transport_dbg ddbg (b, ds) \<lparr>command = c, address = ucast a, data = buf, response_ok = r\<rparr>
    = bind_r (ddbg i (ds ! i) \<lparr>command = c, address = ucast a - ucast (fst (rt ! i)), data = buf, response_ok = r\<rparr>)
        (\<lambda>(d', p', n). Inr ((b, ds[i := d']), p', n))"
    and "unat (ucast a - ucast (fst (rt ! i)) :: u64) = unat a - unat (fst (rt ! i))"
proof -
  let ?s = "fst (rt ! i)"
  have n: "0 < length buf" using assms(5) by simp
  have bound: "unat a + length buf \<le> unat ?s + port_size rt i" using assms(3,4) by simp
  have port: "find_port rt a 0 = Some i" using in_port(2) [OF assms(2,3)] bound n by simp
  have lim: "unat a + length buf \<le> 2 ^ 32" using bound port_bound [OF assms(2)] by simp
  have "unat a + (length buf - 1) \<le> unat (snd (rt ! i))" "unat a \<le> unat (snd (rt ! i))"
    using bound n port_size_unat [OF assms(2)] by linarith+
  note ends = this
  have first: "Bus_inRange a (rt ! i)"
    using assms(3) ends(2) by (simp add: Bus_inRange_def word_le_nat_alt)
  have top_lt: "unat a + (length buf - 1) < 2 ^ 32" using lim n by linarith
  have "(ucast (ucast a + of_nat (length buf) - 1 :: u64) :: u32) = of_nat (unat a + (length buf - 1))"
  proof -
    have "(ucast a + of_nat (length buf) - 1 :: u64) = of_nat (unat a + (length buf - 1))"
      using n by (cases "length buf") simp_all
    moreover have "(ucast (of_nat k :: u64) :: u32) = of_nat k" for k
      by (simp add: word_unat_eq_iff unat_ucast_mod unat_of_nat take_bit_eq_mod mod_mod_cancel)
    ultimately show ?thesis by (simp only:)
  qed
  moreover have "unat (of_nat (unat a + (length buf - 1)) :: u32) = unat a + (length buf - 1)"
    using top_lt by (intro unat_of_nat_lt) simp
  ultimately have final: "Bus_inRange (ucast (ucast a + of_nat (length buf) - 1 :: u64)) (rt ! i)"
    using assms(3) ends(1) by (simp add: Bus_inRange_def word_le_nat_alt)
  show "Bus_transport_dbg ddbg (b, ds) \<lparr>command = c, address = ucast a, data = buf, response_ok = r\<rparr>
    = bind_r (ddbg i (ds ! i) \<lparr>command = c, address = ucast a - ucast (fst (rt ! i)), data = buf, response_ok = r\<rparr>)
        (\<lambda>(d', p', n). Inr ((b, ds[i := d']), p', n))"
    using assms(1,2) port first final
    by (simp add: Bus_transport_dbg_def routeForward_def bus_inv_def Let_def data_length_def)
  show "unat (ucast a - ucast ?s :: u64) = unat a - unat ?s"
    using assms(3) by (simp add: unat_sub word_le_nat_alt unat_ucast_u32_u64)
qed

text \<open>A debugger write changes exactly the bytes it names.\<close>

lemma dbg_bus_write:
  assumes "bus_inv rt mem dinv s" and "i < length rt" and "mem i" and "unat (fst (rt ! i)) \<le> unat (a :: u32)"
    and "unat a - unat (fst (rt ! i)) + length buf \<le> port_size rt i" and "buf \<noteq> []"
  shows "\<exists>s'. dbgWriteMem (Bus_transport_dbg ddbg) buf (ucast a) s = Inr (True, s') \<and> bus_inv rt mem dinv s'
    \<and> bus_view rt mem dview s' = put_bytes (bus_view rt mem dview s) (unat a) buf"
proof -
  obtain b ds where s: "s = (b, ds)" by (cases s)
  note routed = dbg_routed [OF assms(1) [unfolded s] assms(2,4-6)]
  have inv: "dinv i (ds ! i)" "length ds = length rt" using assms(1-3) by (auto simp: s bus_inv_def)
  let ?p = "\<lparr>command = TLM_WRITE_COMMAND, address = ucast a - ucast (fst (rt ! i)), data = buf, response_ok = False\<rparr>"
  obtain d' p' where d': "ddbg i (ds ! i) ?p = Inr (d', p', length buf)" "dinv i d'"
      "dview i d' = put_bytes (dview i (ds ! i)) (unat a - unat (fst (rt ! i))) buf"
    using dbg_write [OF assms(2,3) inv(1), of ?p] routed(2) assms(5) by auto
  have "dbgWriteMem (Bus_transport_dbg ddbg) buf (ucast a) s = Inr (True, (b, ds[i := d']))"
    using d'(1) assms(6) by (simp add: dbgWriteMem_def s routed(1))
  moreover have "bus_inv rt mem dinv (b, ds[i := d'])"
    using assms(1,2) d'(2) by (auto simp: s bus_inv_def nth_list_update)
  ultimately show ?thesis
    using bus_view_update [OF assms(2,3) inv(2) d'(3) assms(4,5), of b b] by (auto simp: s)
qed

text \<open>A debugger read returns what the cores see there and changes nothing.\<close>

lemma dbg_bus_read:
  assumes "bus_inv rt mem dinv s" and "i < length rt" and "mem i" and "unat (fst (rt ! i)) \<le> unat (a :: u32)"
    and "unat a - unat (fst (rt ! i)) + length buf \<le> port_size rt i" and "buf \<noteq> []"
  shows "dbgReadMem (Bus_transport_dbg ddbg) buf (ucast a) s
    = Inr ((get_bytes (bus_view rt mem dview s) (unat a) (length buf), True), s)"
proof -
  obtain b ds where s: "s = (b, ds)" by (cases s)
  note routed = dbg_routed [OF assms(1) [unfolded s] assms(2,4-6)]
  have inv: "dinv i (ds ! i)" using assms(1-3) by (auto simp: s bus_inv_def)
  let ?p = "\<lparr>command = TLM_READ_COMMAND, address = ucast a - ucast (fst (rt ! i)), data = buf, response_ok = False\<rparr>"
  obtain p' where p': "ddbg i (ds ! i) ?p = Inr (ds ! i, p', length buf)"
      "data p' = get_bytes (dview i (ds ! i)) (unat a - unat (fst (rt ! i))) (length buf)"
    using dbg_read [OF assms(2,3) inv, of ?p] routed(2) assms(5) by auto
  have "get_bytes (dview i (ds ! i)) (unat a - unat (fst (rt ! i))) (length buf)
      = get_bytes (bus_view rt mem dview s) (unat a) (length buf)"
    using assms(4,5) bus_view_in [OF assms(2,3), of _ s]
    by (intro nth_equalityI) (auto simp: s get_bytes_def)
  then show ?thesis
    using p' assms(6) by (simp add: dbgReadMem_def s routed(1))
qed

end

section \<open>Memory of the Cortex-M0\<close>

interpretation cm0_debug: debug_bus
  cortex_m0 cm0_routing m0_is_memory "m0_slave_transport pt period ws" m0_slave_view m0_slave_inv
  "m0_slave_dbg pd"
  for pt period ws pd
proof
  fix i and d :: "'a m0_slave" and p :: payload
  assume i: "i < length cm0_routing" "m0_is_memory i" and inv: "m0_slave_inv i d"
    and fits: "unat (address p) + length (data p) \<le> port_size cm0_routing i"
  note sz = m0_memory_port_size [OF i]
  note defs = m0_slave_dbg_def lift_dbg_def m0_slave_view_def m0_slave_inv_def GenericMemory_transport_dbg_def
    Let_def data_length_def
  show "\<exists>p'. m0_slave_dbg pd i d p = Inr (d, p', length (data p))
      \<and> data p' = get_bytes (m0_slave_view i d) (unat (address p)) (length (data p))"
    if "command p = TLM_READ_COMMAND"
    using inv fits that sz by (cases d) (auto simp: defs get_bytes_mem_view)
  show "\<exists>d' p'. m0_slave_dbg pd i d p = Inr (d', p', length (data p)) \<and> m0_slave_inv i d'
      \<and> m0_slave_view i d' = put_bytes (m0_slave_view i d) (unat (address p)) (data p)"
    if "command p = TLM_WRITE_COMMAND"
    using inv fits that sz by (cases d) (auto simp: defs put_bytes_mem_view)
qed

text \<open>C40: the debugger and the core see one memory. Whatever the debugger writes into one of the
  memories of the Cortex-M0, of any length and alignment, changes exactly these bytes of the flat
  memory the core accesses over the bus, and nothing else of the core; reading them back
  returns what was written and leaves the simulation as it is.\<close>

theorem debugger_memory_roundtrip:
  fixes s :: "((bus \<times> 'p m0_slave list) m0_cpu) sim_controller"
  assumes "cm0_board_inv (m0_bus (m_mcu s))" and "i < length cm0_routing" and "m0_is_memory i"
    and "unat (fst (cm0_routing ! i)) \<le> unat addr"
    and "unat addr + length buf \<le> unat (fst (cm0_routing ! i)) + port_size cm0_routing i"
    and "buf \<noteq> []" and "length out = length buf"
  shows "\<exists>b. ctl_writeMem (cm0_mcu (Bus_transport_dbg (m0_slave_dbg pd))) buf addr s
        = Inr (True, s\<lparr>m_mcu := (m_mcu s)\<lparr>m0_bus := b\<rparr>\<rparr>)
    \<and> cm0_board_inv b \<and> cm0_board_view b = put_bytes (cm0_board_view (m0_bus (m_mcu s))) (unat addr) buf
    \<and> ctl_readMem (cm0_mcu (Bus_transport_dbg (m0_slave_dbg pd))) out addr (s\<lparr>m_mcu := (m_mcu s)\<lparr>m0_bus := b\<rparr>\<rparr>)
        = Inr ((buf, True), s\<lparr>m_mcu := (m_mcu s)\<lparr>m0_bus := b\<rparr>\<rparr>)"
proof -
  have fits: "unat addr - unat (fst (cm0_routing ! i)) + length buf \<le> port_size cm0_routing i"
    using assms(4,5) by linarith
  obtain b where b: "dbgWriteMem (Bus_transport_dbg (m0_slave_dbg pd)) buf (ucast addr) (m0_bus (m_mcu s)) = Inr (True, b)"
      "cm0_board_inv b" "cm0_board_view b = put_bytes (cm0_board_view (m0_bus (m_mcu s))) (unat addr) buf"
    using cm0_debug.dbg_bus_write [OF assms(1-4) fits assms(6)] by blast
  have "out \<noteq> []" using assms(6,7) by auto
  then have "dbgReadMem (Bus_transport_dbg (m0_slave_dbg pd)) out (ucast addr) b = Inr ((buf, True), b)"
    using cm0_debug.dbg_bus_read [OF b(2) assms(2-4), of out] fits assms(7) b(3) by simp
  then show ?thesis
    using b by (intro exI [of _ b]) (simp add: ctl_writeMem_def ctl_readMem_def cm0_mcu_def on_mcu_def on_bus_def)
qed

theorem debugger_memory_roundtrip_witness:
  "\<exists>s b. ctl_writeMem (cm0_mcu (Bus_transport_dbg (m0_slave_dbg (\<lambda>_ (_ :: unit) _. Inl Report_fatal)))) [1, 2, 3] 0x20000001 s
        = Inr (True, s\<lparr>m_mcu := (m_mcu s)\<lparr>m0_bus := b\<rparr>\<rparr>)
    \<and> cm0_board_view b 0x20000002 = 2"
proof -
  let ?m = "cm0_memory_init (\<lambda>_. ()) (\<lambda>_. 0)"
  let ?s = "SimulationController ((undefined :: (bus \<times> unit m0_slave list) m0_cpu)\<lparr>m0_bus := ?m\<rparr>)"
  have "cm0_board_inv (m0_bus (m_mcu ?s))" "1 < length cm0_routing" "m0_is_memory 1"
      "unat (fst (cm0_routing ! 1)) \<le> unat (0x20000001 :: u32)"
      "unat (0x20000001 :: u32) + length [1, 2, 3 :: u8] \<le> unat (fst (cm0_routing ! 1)) + port_size cm0_routing 1"
      "[1, 2, 3 :: u8] \<noteq> []" "length [0, 0, 0 :: u8] = length [1, 2, 3 :: u8]"
    using cm0_memory_init_inv [of "\<lambda>_. ()" "\<lambda>_. 0"] by (simp_all add: SimulationController_def cm0_ports cm0_ports [simplified One_nat_def])
  note inst = debugger_memory_roundtrip [OF this, of "\<lambda>_ (_ :: unit) _. Inl Report_fatal"]
  obtain b where b: "ctl_writeMem (cm0_mcu (Bus_transport_dbg (m0_slave_dbg (\<lambda>_ (_ :: unit) _. Inl Report_fatal)))) [1, 2, 3] 0x20000001 ?s
        = Inr (True, ?s\<lparr>m_mcu := (m_mcu ?s)\<lparr>m0_bus := b\<rparr>\<rparr>)"
      "cm0_board_view b = put_bytes (cm0_board_view (m0_bus (m_mcu ?s))) (unat (0x20000001 :: u32)) [1, 2, 3]"
    using inst by blast
  have "cm0_board_view b 0x20000002 = 2" by (simp add: b(2) put_bytes_def)
  then show ?thesis using b(1) by blast
qed

section \<open>Registers and breakpoints\<close>

text \<open>A debugger reads back the value it wrote to a general purpose register, cut to the width of
  the register.\<close>

lemma host_byte_low:
  "host_byte (ucast (ucast x :: u16)) 0 = host_byte x 0" "host_byte (ucast (ucast x :: u16)) (Suc 0) = host_byte x (Suc 0)"
  unfolding host_byte_def by (rule bit_word_eqI, auto simp: bit_simps)+

lemma msp430_register_roundtrip:
  assumes "length (cpuRegs (m_mcu s)) = 16" and "4 \<le> r" and "r < 16"
  shows "\<exists>s'. ctl_writeReg msp430 junk (msp430_mcu bd) r v s = Inr ((), s')
    \<and> ctl_readReg msp430 (msp430_mcu bd) r s' = Inr (take_bit 16 v, s')
    \<and> (\<forall>k. k \<noteq> r \<longrightarrow> cpuRegs (m_mcu s') ! k = cpuRegs (m_mcu s) ! k)"
proof -
  have low: "ttohs msp430 (ucast (ucast (ucast (ucast x :: u16) :: u32) :: u16)) = ttohs msp430 x" for x :: u32
    by (simp add: ttohs_def msp430_def host_byte_low)
  have width: "htotl msp430 junk v = htots msp430 junk v" "ttohl msp430 x = ttohs msp430 x" for x
    by (simp_all add: htotl_def ttohl_def) (simp_all add: msp430_def)
  show ?thesis
    using assms by (simp add: ctl_writeReg_def ctl_readReg_def msp430_mcu_def on_mcu_def dbg_writeReg_def
        dbg_readReg_def cpu_monad setGpr_def getGpr_def sim_monad width low ttohs_htots)
qed

lemma cm0_register_roundtrip:
  assumes "length (gpr (m_mcu s)) = 16" and "r < 15"
  shows "\<exists>s'. ctl_writeReg cortex_m0 junk (cm0_mcu bd) r v s = Inr ((), s')
    \<and> ctl_readReg cortex_m0 (cm0_mcu bd) r s' = Inr (v, s')
    \<and> (\<forall>k. k \<noteq> r \<longrightarrow> gpr (m_mcu s') ! k = gpr (m_mcu s) ! k)"
  using assms by (simp add: ctl_writeReg_def ctl_readReg_def cm0_mcu_def on_mcu_def m0_dbg_writeReg_def
      m0_dbg_readReg_def cpu_set_gpr_def cpu_get_gpr_def sim_monad ttohl_htotl cortex_m0_def)

text \<open>A breakpoint at the program counter stops the core before it executes anything; a pending
  single step stays pending, so that the core stops again after one instruction when it is let go.\<close>

lemma msp430_breakpoint_stops:
  assumes "m_run (m_mcu s)" and "pwrOn env" and "\<not> irq env"
  shows "\<exists>s1. ctl_insertBreakpoint (msp430_mcu bd) (cpuRegs (m_mcu s) ! 0) s = Inr ((), s1)
    \<and> cpu_step bt period env (m_mcu s1) = Inr ((), (m_mcu s1)\<lparr>m_run := False\<rparr>)"
  using assms
  by (simp add: ctl_insertBreakpoint_def msp430_mcu_def on_mcu_def insertBreakpoint_def cpu_step_def cpu_monad getPc_def Let_def)

end
