(* ===== verification/Spec2Isabelle.thy ===== *)
theory Spec2Isabelle
  imports Msp430_Cpu_Theorems Nvic Sys_Tick Msp430_System Msp430_Dma Power_Management Cm0_Stack Cm0_Flags Power_Accounting Clock_System Timer_A Mpy32
    Sensor_Node Io_Ports Adc12 Eusci_B Bme280 Nrf24_Radio Cm0_Dma Debugger
begin

text \<open>
  Verification development of Fused, a full-system simulator for energy-driven computers: a
  microcontroller (an MSP430FR5994 or a Cortex-M0 with nonvolatile memory) with its
  peripherals and sensors, a power model that turns what the modules report into a supply
  current, and an external circuit that charges a capacitor from it and switches the
  microcontroller on and off. The theories read like the C++ files they model; paths below are
  relative to \<open>src/\<close>.

  \<^bold>\<open>How the parts interact.\<close> A core (\<open>Msp430Cpu\<close>, \<open>CortexM0Cpu\<close>) and a DMA controller initiate
  transactions (\<open>payload\<close>) on the bus (\<open>mcu/Bus.cpp\<close>), which routes them by address to its
  targets: memories, the cache in front of the FRAM, and peripherals (\<open>BusTarget\<close>s with a
  \<open>RegisterFile\<close>). Peripherals raise interrupt lines, which the arbiter (MSP430) or the NVIC
  (Cortex-M0) puts on the core's line; serial masters exchange bytes with the devices under
  \<open>sd/\<close>; all report energy events and states to the power model channel, which the external
  circuit under \<open>ps/\<close> reads through the bridge and answers with the supply voltage; the power
  management module derives reset and power good from it.

  \<^bold>\<open>Shared theories.\<close>
  \<^item> \<open>Fused_Prelude\<close>: words, lists, the error monad \<open>result\<close> (every assertion, exception, abort and
    fatal report of the code is a value of \<open>sim_error\<close>).
  \<^item> \<open>Endian\<close> (\<open>utilities/Utilities.cpp\<close>), \<open>Register_File\<close> (\<open>mcu/RegisterFile.cpp\<close>), \<open>Bus_Target\<close>
    (\<open>mcu/BusTarget.cpp\<close>), \<open>Peripheral\<close> (evaluation of register operations, for all peripherals).
  \<^item> \<open>Tlm_Device\<close>: transactions, and the locale \<open>byte_device\<close>: what a transport that serves a range
    of bytes promises. Memories, blocks of registers, the cache with the memory behind it, and
    the whole bus are shown to be byte devices (interpretations \<open>generic\<close>, \<open>nonvolatile\<close>, \<open>regs\<close>,
    \<open>fram_cache\<close>, \<open>msp430_bus\<close>, \<open>cm0_bus\<close>; sublocales of \<open>cached_memory\<close> and \<open>bus_devices\<close>), and the
    cores and DMA controllers are verified over any byte device.
  \<^item> \<open>Sim_Monad\<close>: sequential code over a state, triples and preserved predicates with a rule
    collection, for the Cortex-M0.

  \<^bold>\<open>Memory system.\<close> \<open>Memories\<close> (\<open>GenericMemory\<close>, \<open>VolatileMemory\<close>, \<open>NonvolatileMemory\<close>,
  \<open>DummyPeripheral\<close>), \<open>Replacement\<close> (\<open>mcu/CacheReplacementPolicies.hpp\<close>; locale \<open>replacement_policy\<close>),
  \<open>Cache\<close>, \<open>Cache_Coherence\<close>, \<open>Cache_Theorems\<close> (\<open>mcu/Cache.cpp\<close>: operations; the coherence invariant
  and the locale \<open>cached_memory\<close>; transparency, error behaviour, debugger reads, LRU order),
  \<open>Bus\<close> (\<open>mcu/Bus.cpp\<close>: routing, checks; locale \<open>bus_devices\<close>), \<open>Memory_System\<close> and \<open>Cm0_Memory\<close> (the memory
  maps the constructors of \<open>mcu/Msp430Microcontroller.cpp\<close> and \<open>mcu/Cm0Microcontroller.cpp\<close> build).

  \<^bold>\<open>MSP430.\<close> \<open>Msp430_Alu\<close>, \<open>Msp430_Cpu\<close>, \<open>Msp430_Cpu_Theorems\<close> (\<open>mcu/msp430fr5xx/Msp430Cpu.cpp\<close>: arithmetic,
  all instruction formats, interrupts, main loop, debugger access; locale \<open>cpu_memory\<close>),
  \<open>Msp430_System\<close> (interrupt arbiter, FRAM controller, simple monitor), \<open>Msp430_Dma\<close>, \<open>Power_Management\<close>,
  \<open>Clocks\<close> and \<open>Clock_System\<close>, \<open>Timer_A\<close>, \<open>Mpy32\<close>, \<open>Io_Ports\<close> (\<open>DigitalIo\<close>, and the Cortex-M0's \<open>Gpio\<close>),
  \<open>Adc12\<close>, \<open>Eusci_B\<close>: one theory per module of \<open>mcu/msp430fr5xx/\<close>.

  \<^bold>\<open>Cortex-M0.\<close> \<open>mcu/cortex-m0/\<close>: \<open>Cm0_State\<close> and \<open>Cm0_Words\<close> (core state, registers, flags, memory and
  exception code), \<open>Cm0_Decode\<close>, \<open>Cm0_Execute\<close>, \<open>Cm0_Tables\<close> (decoder, one definition per instruction of
  \<open>exmemwb_*.c\<close>, the dispatch tables), \<open>Cm0_Cpu\<close> (\<open>CortexM0Cpu::process\<close>). \<open>Cm0_Typing\<close>,
  \<open>Cm0_Step_Typing\<close>, \<open>Cm0_Wellformed\<close>, \<open>Cm0_Safety\<close>: no access out of bounds in any run (locale
  \<open>typed_bus\<close>). \<open>Cm0_Symbolic\<close>, \<open>Cm0_Exception\<close>, \<open>Cm0_Stack\<close>, \<open>Cm0_Flags\<close>: total correctness over any memory
  (locale \<open>m0_memory\<close>): exception entry and return, PUSH and POP, compare and branch. \<open>Cm0_Registers\<close>
  (shared by the peripherals), \<open>Nvic\<close>, \<open>Sys_Tick\<close>, \<open>Cm0_Spi\<close>, \<open>Cm0_Dma\<close>.

  \<^bold>\<open>Devices.\<close> \<open>Spi_Device\<close> (\<open>mcu/SpiTransactionExtension.hpp\<close>, \<open>sd/SpiDevice.cpp\<close>, \<open>sd/SpiLoopBack.cpp\<close>; locale
  \<open>spi_reader\<close>, the contract of burst reads, interpreted by the sensors, and \<open>spi_master\<close>, the one of masters
  that software polls, interpreted by both masters), \<open>Input_Trace\<close> (the files the sensors replay),
  \<open>Accelerometer\<close>, \<open>Bme280\<close>, \<open>Nrf24_Radio\<close> (one theory per device of \<open>sd/\<close>), \<open>Sensor_Node\<close> (software reading the
  accelerometer through the Cortex-M0's serial master).

  \<^bold>\<open>Power.\<close> \<open>Power_Model\<close> and \<open>Power_Accounting\<close> (\<open>ps/PowerModelChannel.cpp\<close>, \<open>ps/PowerModelBridge.hpp\<close>: the
  operations; conservation of energy and completeness of the log under any interleaving),
  \<open>External_Circuitry\<close> (supply, capacitor, load switch), \<open>Power_Management\<close> (composed with the load
  switch).

  \<^bold>\<open>Settings and debugger.\<close> \<open>Sim_Config\<close> (\<open>utilities/Config.cpp\<close>, \<open>utilities/IoSimulationStopper.hpp\<close>),
  \<open>Debugger\<close> (\<open>utilities/SimulationController\<close> over both microcontrollers; locale \<open>debug_bus\<close>).

  \<^bold>\<open>State and time.\<close> Members of a class are the fields of its record, its constructor is a \<open>_new\<close>
  function, a handler or method a function from state to state (or to \<open>result\<close>). Values the code leaves
  uninitialised are parameters. A SystemC method is a function run at its triggers; a thread is a
  state machine between its \<open>wait\<close>s: a program counter or a data type names the \<open>wait\<close> it is in and holds
  the locals alive there, and what it waits for next, the events it notifies and the reports it makes
  are part of the result. Simulation time is a natural number of picoseconds, the default
  resolution. Signals a module writes are fields of its state; where a delta cycle is visible (a signal
  read after it was written in the same run still has its old value) the definitions say so.
  Machine integers are words of their width; \<open>double\<close>s are real numbers: rounding is not modelled, and a
  division by zero, which yields an infinity or a NaN in C++, is an error.

  \<^bold>\<open>Bounds and fuel.\<close> Recursion is structural nearly everywhere (over lists, counters or schedules that the
  environment supplies). \<open>dma_loop\<close> and \<open>m0_dma_loop\<close> run along a schedule of burst pauses;
  \<open>dma_transfer_ends\<close> gives the length that is enough, twice the count of units. \<open>m0_flag_updates\<close> bounds the
  self-notifications of the interrupt update; seven runs are enough for six channels, as its property
  shows. The runs of the clocks, timers, sensors and masters take the number of steps as an
  argument, and the properties state how many it takes to finish.

  \<^bold>\<open>What is shown.\<close> The memory of the board is one flat memory and the cache cannot be observed; the
  bus rejects what it must; reserved bits never change; interrupt entry and return, stack
  frames, comparisons and branches of both cores are right for any memory; the Cortex-M0 never leaves
  its arrays; interrupt controllers lose no request and pick the one of highest priority;
  timers, multiplier, converter, ports and serial masters do what their registers say; DMA copies blocks
  and ends; energy is neither lost nor counted twice; the capacitor balances its charge and the
  load switch has its hysteresis; the devices deliver what they measured or were sent, in order; a debugger
  reads and writes the memory the cores see. The findings of the manifest name the places where the code
  differs from its documentation or from what it means to do; the lemmas that show them are next to
  the definitions.

  \<^bold>\<open>Not modelled.\<close> Log messages, print operators and trace files (output only). Binding of ports and
  construction of boards (\<open>boards/\<close>, the rest of the microcontrollers' constructors) and \<open>main.cpp\<close>: no logic of
  their own beyond the memory maps, which are modelled. The SystemC kernel, the TLM sockets and the
  data flow scheduler, the YAML library, the tokenizer \<open>libs/strtk.hpp\<close> and the GDB server: third-party code;
  the kernel's scheduling is a parameter (which process runs when, how long a pause lasts), the parsers
  are function arguments. Stalling of the core by a busy bus; \<open>mcu/DynamicClock\<close> and
  \<open>mcu/cortex-m0/OutputPort.hpp\<close>, which nothing uses; the adapters of \<open>utilities/BoolLogicConverter.hpp\<close>; the
  vendors' device headers and the programs under \<open>sw/\<close> that run on the simulator; the tests.
\<close>

end
